(* ===== verification/Prelude.thy ===== *)
theory Prelude
  imports Main "HOL-Library.Word" "HOL-Library.Sublist"
begin

text \<open>
  Generic material shared by every component: Rust strings as lists of Unicode
  scalar values with the \<open>str\<close> operations the sources call, the
  \<open>Result\<close> combinators, saturating \<open>usize\<close> arithmetic, and the theorem
  collections \<open>str_ops\<close> (the defining equations of the string operations, for
  evaluating closed terms) and \<open>res_ops\<close> (the equations of the result monad).
\<close>

named_theorems str_ops "defining equations of the string operations"
named_theorems res_ops "equations of the result combinators"

section \<open>Strings\<close>

text \<open>
  A \<open>String\<close> / \<open>&str\<close> is valid UTF-8, so it is modelled as the list of its
  Unicode scalar values. Equality, prefixes and the byte-wise order of UTF-8 agree
  with those of the scalar values; where the code counts bytes (\<open>str::len\<close>) the
  model uses \<open>byte_len\<close>. A literal of the source is written \<open>lit ''...''\<close>.
\<close>

type_synonym ustr = "nat list"

definition lit :: "string \<Rightarrow> ustr" where
  [str_ops]: "lit s = map of_char s"

definition utf8_len :: "nat \<Rightarrow> nat" where
  [str_ops]: "utf8_len c =
     (if c < 128 then 1 else if c < 2048 then 2 else if c < 65536 then 3 else 4)"

definition byte_len :: "ustr \<Rightarrow> nat" where
  [str_ops]: "byte_len s = sum_list (map utf8_len s)"

text \<open>\<open>char::is_whitespace\<close>: the Unicode \<open>White_Space\<close> property.\<close>

definition is_whitespace :: "nat \<Rightarrow> bool" where
  [str_ops]: "is_whitespace c \<longleftrightarrow>
     (9 \<le> c \<and> c \<le> 13) \<or> c = 32 \<or> c = 133 \<or> c = 160 \<or> c = 5760 \<or>
     (8192 \<le> c \<and> c \<le> 8202) \<or> c = 8232 \<or> c = 8233 \<or> c = 8239 \<or> c = 8287 \<or> c = 12288"

definition trim_start_by :: "(nat \<Rightarrow> bool) \<Rightarrow> ustr \<Rightarrow> ustr" where
  [str_ops]: "trim_start_by p s = dropWhile p s"

definition trim_end_by :: "(nat \<Rightarrow> bool) \<Rightarrow> ustr \<Rightarrow> ustr" where
  [str_ops]: "trim_end_by p s = rev (dropWhile p (rev s))"

definition trim_start :: "ustr \<Rightarrow> ustr" where
  [str_ops]: "trim_start s = trim_start_by is_whitespace s"

definition trim_end :: "ustr \<Rightarrow> ustr" where
  [str_ops]: "trim_end s = trim_end_by is_whitespace s"

definition trim :: "ustr \<Rightarrow> ustr" where
  [str_ops]: "trim s = trim_start (trim_end s)"

definition starts_with :: "ustr \<Rightarrow> ustr \<Rightarrow> bool" where
  [str_ops]: "starts_with s p \<longleftrightarrow> take (length p) s = p"

definition ends_with :: "ustr \<Rightarrow> ustr \<Rightarrow> bool" where
  [str_ops]: "ends_with s p \<longleftrightarrow> length p \<le> length s \<and> drop (length s - length p) s = p"

definition strip_prefix :: "ustr \<Rightarrow> ustr \<Rightarrow> ustr option" where
  [str_ops]: "strip_prefix s p = (if starts_with s p then Some (drop (length p) s) else None)"

definition strip_suffix :: "ustr \<Rightarrow> ustr \<Rightarrow> ustr option" where
  [str_ops]: "strip_suffix s p =
     (if ends_with s p then Some (take (length s - length p) s) else None)"

text \<open>\<open>str::split(char)\<close>, \<open>slice::join\<close> and \<open>str::lines\<close>.\<close>

fun split_on :: "nat \<Rightarrow> ustr \<Rightarrow> ustr list" where
  "split_on c [] = [[]]"
| "split_on c (x # xs) =
     (if x = c then [] # split_on c xs
      else (x # hd (split_on c xs)) # tl (split_on c xs))"

fun join_with :: "ustr \<Rightarrow> ustr list \<Rightarrow> ustr" where
  "join_with sep [] = []"
| "join_with sep [x] = x"
| "join_with sep (x # y # zs) = x @ sep @ join_with sep (y # zs)"

definition strip_cr :: "ustr \<Rightarrow> ustr" where
  [str_ops]: "strip_cr s = (if s \<noteq> [] \<and> last s = 13 then butlast s else s)"

definition str_lines :: "ustr \<Rightarrow> ustr list" where
  [str_ops]: "str_lines s =
     (let parts = split_on 10 s
      in map strip_cr (butlast parts) @ (if last parts = [] then [] else [last parts]))"

text \<open>\<open>str::split_once(char)\<close>: the text before and after the first occurrence.\<close>

definition split_once :: "nat \<Rightarrow> ustr \<Rightarrow> (ustr \<times> ustr) option" where
  [str_ops]: "split_once c s =
     (if c \<in> set s then Some (takeWhile (\<lambda>x. x \<noteq> c) s, drop 1 (dropWhile (\<lambda>x. x \<noteq> c) s))
      else None)"

definition ascii_lower :: "nat \<Rightarrow> nat" where
  [str_ops]: "ascii_lower c = (if 65 \<le> c \<and> c \<le> 90 then c + 32 else c)"

definition to_ascii_lowercase :: "ustr \<Rightarrow> ustr" where
  [str_ops]: "to_ascii_lowercase s = map ascii_lower s"

definition is_ascii_digit :: "nat \<Rightarrow> bool" where
  [str_ops]: "is_ascii_digit c \<longleftrightarrow> 48 \<le> c \<and> c \<le> 57"

text \<open>Decimal rendering of an unsigned integer (\<open>Display\<close>).\<close>

fun show_nat :: "nat \<Rightarrow> ustr" where
  "show_nat n = (if n < 10 then [48 + n] else show_nat (n div 10) @ [48 + n mod 10])"

declare show_nat.simps [simp del]

abbreviation newline :: ustr where
  "newline \<equiv> [10]"

subsection \<open>Laws of the string operations\<close>

lemma lit_eq_iff [simp]: "lit a = lit b \<longleftrightarrow> a = b"
proof -
  have "inj (of_char :: char \<Rightarrow> nat)"
    by (rule inj_of_char)
  then show ?thesis
    by (simp add: lit_def inj_map_eq_map)
qed

lemma lit_Nil [simp]: "lit [] = []"
  by (simp add: lit_def)

lemma lit_eq_Nil_iff [simp]: "lit s = [] \<longleftrightarrow> s = []" "[] = lit s \<longleftrightarrow> s = []"
  by (simp_all add: lit_def)

lemma length_lit [simp]: "length (lit s) = length s"
  by (simp add: lit_def)

lemma utf8_len_pos [simp]: "0 < utf8_len c"
  by (simp add: utf8_len_def)

lemma utf8_len_le4: "utf8_len c \<le> 4"
  by (simp add: utf8_len_def)

lemma byte_len_Nil [simp]: "byte_len [] = 0"
  by (simp add: byte_len_def)

lemma byte_len_Cons [simp]: "byte_len (c # s) = utf8_len c + byte_len s"
  by (simp add: byte_len_def)

lemma byte_len_append [simp]: "byte_len (s @ t) = byte_len s + byte_len t"
  by (simp add: byte_len_def)

lemma byte_len_eq_0_iff [simp]: "byte_len s = 0 \<longleftrightarrow> s = []"
  by (cases s) auto

lemma length_le_byte_len: "length s \<le> byte_len s"
proof (induction s)
  case (Cons c s)
  have "1 \<le> utf8_len c" by (simp add: Suc_leI)
  with Cons show ?case by simp
qed simp

lemma starts_with_append [simp]: "starts_with (p @ s) p"
  by (simp add: starts_with_def)

lemma starts_with_iff: "starts_with s p \<longleftrightarrow> (\<exists>r. s = p @ r)"
  by (metis append_eq_conv_conj append_take_drop_id starts_with_def)

lemma strip_prefix_append [simp]: "strip_prefix (p @ s) p = Some s"
  by (simp add: strip_prefix_def)

lemma strip_prefix_eq_Some_iff: "strip_prefix s p = Some r \<longleftrightarrow> s = p @ r"
  by (auto simp: strip_prefix_def starts_with_iff)

lemma strip_prefix_eq_None_iff: "strip_prefix s p = None \<longleftrightarrow> \<not> starts_with s p"
  by (simp add: strip_prefix_def)

lemma ends_with_iff: "ends_with s p \<longleftrightarrow> (\<exists>r. s = r @ p)"
proof
  assume "ends_with s p"
  then have "s = take (length s - length p) s @ p"
    by (metis append_take_drop_id ends_with_def)
  then show "\<exists>r. s = r @ p" by blast
qed (auto simp: ends_with_def)

lemma strip_suffix_eq_Some_iff: "strip_suffix s p = Some r \<longleftrightarrow> s = r @ p"
  by (auto simp: strip_suffix_def ends_with_iff)

lemma split_on_ne [simp]: "split_on c s \<noteq> []"
  by (cases s) auto

lemma split_on_no_sep: "c \<notin> set s \<Longrightarrow> split_on c s = [s]"
  by (induction s) auto

lemma split_on_append_sep: "c \<notin> set s \<Longrightarrow> split_on c (s @ c # t) = s # split_on c t"
  by (induction s) auto

lemma split_on_mem_length: "x \<in> set (split_on c s) \<Longrightarrow> length x \<le> length s"
proof (induction s arbitrary: x)
  case (Cons a s)
  have tl_mem: "y \<in> set (split_on c s)" if "y \<in> set (tl (split_on c s))" for y
    using that by (meson list.set_sel(2) split_on_ne)
  have hd_mem: "hd (split_on c s) \<in> set (split_on c s)"
    by simp
  show ?case
  proof (cases "a = c")
    case True
    with Cons show ?thesis by (auto intro: le_SucI)
  next
    case False
    with Cons.prems consider "x = a # hd (split_on c s)" | "x \<in> set (tl (split_on c s))"
      by auto
    then show ?thesis
      by cases (use Cons.IH hd_mem tl_mem in \<open>force intro: le_SucI\<close>)+
  qed
qed simp

lemma split_on_full_length: "x \<in> set (split_on c s) \<Longrightarrow> length x = length s \<Longrightarrow> x = s"
proof (induction s arbitrary: x)
  case (Cons a s)
  have short: "length y \<le> length s" if "y \<in> set (split_on c s)" for y
    using that by (rule split_on_mem_length)
  show ?case
  proof (cases "a = c")
    case True
    with Cons.prems have "x \<in> set (split_on c s)" by auto
    with short [of x] Cons.prems show ?thesis by simp
  next
    case False
    with Cons.prems consider "x = a # hd (split_on c s)" | "x \<in> set (tl (split_on c s))"
      by auto
    then show ?thesis
    proof cases
      case 1
      with Cons.prems have "length (hd (split_on c s)) = length s" by simp
      with Cons.IH [of "hd (split_on c s)"] 1 show ?thesis by simp
    next
      case 2
      then have "x \<in> set (split_on c s)"
        by (meson list.set_sel(2) split_on_ne)
      with short [of x] Cons.prems show ?thesis by simp
    qed
  qed
qed simp

lemma join_split [simp]: "join_with [c] (split_on c s) = s"
proof (induction s)
  case (Cons a s)
  show ?case
  proof (cases "split_on c s")
    case Nil
    then show ?thesis by simp
  next
    case (Cons y ys)
    with Cons.IH show ?thesis by (cases ys) auto
  qed
qed simp

lemma split_join:
  "xs \<noteq> [] \<Longrightarrow> (\<forall>x \<in> set xs. c \<notin> set x) \<Longrightarrow> split_on c (join_with [c] xs) = xs"
  by (induction "[c]" xs rule: join_with.induct) (simp_all add: split_on_no_sep split_on_append_sep)

lemma split_on_append: "split_on c (s @ c # t) = split_on c s @ split_on c t"
proof (induction s)
  case (Cons a s)
  then show ?case by (cases "split_on c s") auto
qed simp

lemma split_on_mem_no_sep: "x \<in> set (split_on c s) \<Longrightarrow> c \<notin> set x"
proof (induction s arbitrary: x)
  case (Cons a s)
  show ?case
  proof (cases "split_on c s")
    case Nil
    then show ?thesis by simp
  next
    case (Cons y ys)
    with Cons.IH Cons.prems show ?thesis by (auto split: if_splits)
  qed
qed simp

lemma last_split_on:
  "s \<noteq> [] \<Longrightarrow> last s \<noteq> c \<Longrightarrow> last (split_on c s) \<noteq> [] \<and> last (last (split_on c s)) = last s"
proof (induction s)
  case (Cons a s)
  show ?case
  proof (cases "split_on c s")
    case Nil
    then show ?thesis by simp
  next
    case (Cons y ys)
    with Cons.IH Cons.prems show ?thesis
      by (cases s; cases ys) (auto split: if_splits)
  qed
qed simp

lemma str_lines_append_newline: "str_lines (s @ 10 # t) = map strip_cr (split_on 10 s) @ str_lines t"
  by (simp add: str_lines_def Let_def split_on_append butlast_append)

lemma str_lines_Nil [simp]: "str_lines [] = []"
  by (simp add: str_lines_def)

lemma strip_cr_eq_self: "\<not> ends_with s [13] \<Longrightarrow> strip_cr s = s"
  by (metis append_butlast_last_id ends_with_iff strip_cr_def)

lemma map_strip_cr_split:
  assumes "s \<noteq> []" and "last s \<noteq> 10" and "last s \<noteq> 13"
  shows "map strip_cr (split_on 10 s) = str_lines s"
proof -
  have l: "last (split_on 10 s) \<noteq> []" "last (last (split_on 10 s)) \<noteq> 13"
    using last_split_on [of s 10] assms by auto
  then have "strip_cr (last (split_on 10 s)) = last (split_on 10 s)"
    by (simp add: strip_cr_def)
  moreover have "map strip_cr (split_on 10 s) =
      map strip_cr (butlast (split_on 10 s)) @ [strip_cr (last (split_on 10 s))]"
    by (metis append_butlast_last_id list.simps(8,9) map_append split_on_ne)
  ultimately show ?thesis
    using l by (simp add: str_lines_def Let_def)
qed

lemma dropWhile_eq_self: "(s = [] \<or> \<not> p (hd s)) \<Longrightarrow> dropWhile p s = s"
  by (cases s) auto

lemma trim_eq_self:
  assumes "s \<noteq> []" and "\<not> is_whitespace (hd s)" and "\<not> is_whitespace (last s)"
  shows "trim s = s"
proof -
  have "trim_end s = s"
    using assms by (simp add: trim_end_def trim_end_by_def dropWhile_eq_self hd_rev)
  then show ?thesis
    using assms by (simp add: trim_def trim_start_def trim_start_by_def dropWhile_eq_self)
qed

lemma trim_Nil [simp]: "trim [] = []"
  by (simp add: trim_def trim_start_def trim_start_by_def trim_end_def trim_end_by_def)

lemma dropWhile_idem: "dropWhile p (dropWhile p s) = dropWhile p s"
  by (induction s) auto

lemma hd_dropWhile_not: "dropWhile p s \<noteq> [] \<Longrightarrow> \<not> p (hd (dropWhile p s))"
  by (rule hd_dropWhile)

section \<open>Slices at byte offsets\<close>

text \<open>\<open>&s[..n]\<close> and \<open>&s[n..]\<close>.\<close>

fun slice_to :: "ustr \<Rightarrow> nat \<Rightarrow> ustr option" where
  "slice_to [] n = (if n = 0 then Some [] else None)"
| "slice_to (c # cs) n =
     (if n = 0 then Some []
      else if utf8_len c \<le> n then map_option ((#) c) (slice_to cs (n - utf8_len c)) else None)"

fun slice_from :: "ustr \<Rightarrow> nat \<Rightarrow> ustr option" where
  "slice_from [] n = (if n = 0 then Some [] else None)"
| "slice_from (c # cs) n =
     (if n = 0 then Some (c # cs)
      else if utf8_len c \<le> n then slice_from cs (n - utf8_len c) else None)"

lemma slice_to_boundary [simp]: "slice_to (a @ b) (byte_len a) = Some a"
  by (induction a) (cases b, auto simp: not_le dest: order.strict_trans2 [OF utf8_len_pos])

lemma slice_from_boundary [simp]: "slice_from (a @ b) (byte_len a) = Some b"
  by (induction a) (cases b, auto simp: not_le dest: order.strict_trans2 [OF utf8_len_pos])

section \<open>Results\<close>

text \<open>
  \<open>Result<T, E>\<close> is \<open>'e + 'a\<close> with \<open>Inl\<close> for \<open>Err\<close>; \<open>bindE\<close> is the
  \<open>?\<close> operator, \<open>traverseE\<close> collecting an iterator of results, which stops at the
  first error, and \<open>ok_or\<close> is \<open>Option::ok_or\<close>.
\<close>

fun bindE :: "'e + 'a \<Rightarrow> ('a \<Rightarrow> 'e + 'b) \<Rightarrow> 'e + 'b" where
  "bindE (Inl e) f = Inl e"
| "bindE (Inr x) f = f x"

fun map_errE :: "('e \<Rightarrow> 'f) \<Rightarrow> 'e + 'a \<Rightarrow> 'f + 'a" where
  "map_errE g (Inl e) = Inl (g e)"
| "map_errE g (Inr x) = Inr x"

fun ok_or :: "'e \<Rightarrow> 'a option \<Rightarrow> 'e + 'a" where
  "ok_or e None = Inl e"
| "ok_or e (Some x) = Inr x"

fun traverseE :: "('a \<Rightarrow> 'e + 'b) \<Rightarrow> 'a list \<Rightarrow> 'e + 'b list" where
  "traverseE f [] = Inr []"
| "traverseE f (x # xs) = bindE (f x) (\<lambda>y. bindE (traverseE f xs) (\<lambda>ys. Inr (y # ys)))"

fun is_ok :: "'e + 'a \<Rightarrow> bool" where
  "is_ok (Inl e) = False"
| "is_ok (Inr x) = True"

fun is_some :: "'a option \<Rightarrow> bool" where
  "is_some None = False"
| "is_some (Some x) = True"

lemma is_some_iff: "is_some m \<longleftrightarrow> (\<exists>x. m = Some x)" "\<not> is_some m \<longleftrightarrow> m = None"
  by (cases m; simp)+

lemma bindE_eq_Inr_iff [res_ops]:
  "bindE m f = Inr y \<longleftrightarrow> (\<exists>x. m = Inr x \<and> f x = Inr y)"
  by (cases m) auto

lemma bindE_eq_Inl_iff [res_ops]:
  "bindE m f = Inl e \<longleftrightarrow> m = Inl e \<or> (\<exists>x. m = Inr x \<and> f x = Inl e)"
  by (cases m) auto

lemma map_errE_eq_Inr_iff [res_ops, simp]: "map_errE g m = Inr y \<longleftrightarrow> m = Inr y"
  by (cases m) auto

lemma ok_or_eq_Inr_iff [res_ops, simp]: "ok_or e m = Inr y \<longleftrightarrow> m = Some y"
  by (cases m) auto

lemma traverseE_eq_Inr_iff:
  "traverseE f xs = Inr ys \<longleftrightarrow> list_all2 (\<lambda>x y. f x = Inr y) xs ys"
proof (induction xs arbitrary: ys)
  case (Cons x xs)
  then show ?case
    by (cases ys) (auto simp: bindE_eq_Inr_iff)
qed auto

lemma traverseE_length: "traverseE f xs = Inr ys \<Longrightarrow> length ys = length xs"
  by (auto simp: traverseE_eq_Inr_iff dest: list_all2_lengthD)

section \<open>Machine sizes\<close>

text \<open>
  \<open>usize\<close> and \<open>u64\<close> values are naturals with the bound of a 64-bit target written
  out in the saturating operations.
\<close>

definition usize_max :: nat where
  "usize_max = 2 ^ 64 - 1"

definition sat_add :: "nat \<Rightarrow> nat \<Rightarrow> nat" where
  "sat_add a b = min usize_max (a + b)"

definition sat_mul :: "nat \<Rightarrow> nat \<Rightarrow> nat" where
  "sat_mul a b = min usize_max (a * b)"

lemma sat_add_exact [simp]: "a + b \<le> usize_max \<Longrightarrow> sat_add a b = a + b"
  by (simp add: sat_add_def)

lemma sat_add_le_max [simp]: "sat_add a b \<le> usize_max"
  by (simp add: sat_add_def)

lemma sat_add_assoc: "sat_add (sat_add a b) c = sat_add a (sat_add b c)"
  by (simp add: sat_add_def)

lemma sat_add_0 [simp]: "a \<le> usize_max \<Longrightarrow> sat_add a 0 = a" "b \<le> usize_max \<Longrightarrow> sat_add 0 b = b"
  by simp_all

lemma sat_add_min [simp]: "sat_add (min usize_max a) b = min usize_max (a + b)"
  by (simp add: sat_add_def)

section \<open>Searching lists\<close>

text \<open>\<open>Iterator::position\<close> and \<open>find_map\<close>.\<close>

fun position :: "('a \<Rightarrow> bool) \<Rightarrow> 'a list \<Rightarrow> nat option" where
  "position p [] = None"
| "position p (x # xs) = (if p x then Some 0 else map_option Suc (position p xs))"

fun find_map :: "('a \<Rightarrow> 'b option) \<Rightarrow> 'a list \<Rightarrow> 'b option" where
  "find_map f [] = None"
| "find_map f (x # xs) = (case f x of Some y \<Rightarrow> Some y | None \<Rightarrow> find_map f xs)"

lemma set_map_filter: "set (List.map_filter f xs) = {y. \<exists>x \<in> set xs. f x = Some y}"
  by (induction xs) (auto simp: List.map_filter_simps split: option.splits)

lemma position_None_iff: "position p xs = None \<longleftrightarrow> (\<forall>x \<in> set xs. \<not> p x)"
  by (induction xs) auto

lemma position_SomeD:
  "position p xs = Some i \<Longrightarrow> i < length xs \<and> p (xs ! i) \<and> (\<forall>j < i. \<not> p (xs ! j))"
proof (induction xs arbitrary: i)
  case (Cons x xs)
  then show ?case
    by (auto simp: nth_Cons' less_Suc_eq_0_disj split: if_splits)
qed simp

lemma find_map_SomeD: "find_map f xs = Some y \<Longrightarrow> \<exists>x \<in> set xs. f x = Some y"
  by (induction xs) (auto split: option.splits)

lemma find_map_None_iff: "find_map f xs = None \<longleftrightarrow> (\<forall>x \<in> set xs. f x = None)"
  by (induction xs) (auto split: option.splits)

end
