(* ===== verification/Paths.thy ===== *)
theory Paths
  imports Prelude
begin

text \<open>
  \<open>std::path\<close> on Unix, as far as the sources use it: a \<open>Path\<close> is kept as the
  string it was built from, its components as \<open>Path::components\<close> yields them
  (repeated separators and inner \<open>.\<close> components are dropped, a leading
  \<open>.\<close> is kept). Two paths are equal when their components are.
\<close>

datatype component = RootDir | CurDir | ParentDir | Normal ustr

type_synonym path = "component list"

definition slash :: nat where
  [str_ops]: "slash = 47"

definition segment_component :: "ustr \<Rightarrow> component" where
  "segment_component s = (if s = lit ''..'' then ParentDir else Normal s)"

definition is_absolute :: "ustr \<Rightarrow> bool" where
  "is_absolute p \<longleftrightarrow> starts_with p [slash]"

definition components :: "ustr \<Rightarrow> path" where
  "components p =
     (let segs = split_on slash p
      in (if is_absolute p then [RootDir] else if hd segs = lit ''.'' then [CurDir] else []) @
         map segment_component (filter (\<lambda>s. s \<noteq> [] \<and> s \<noteq> lit ''.'') segs))"

text \<open>\<open>Path::file_name\<close>, \<open>Path::file_stem\<close> and \<open>Path::parent\<close>.\<close>

definition file_name :: "ustr \<Rightarrow> ustr option" where
  "file_name p =
     (case rev (components p) of Normal s # _ \<Rightarrow> Some s | _ \<Rightarrow> None)"

text \<open>The part of a file name before its last dot; a name without a dot, or with only a
  leading one, is its own stem.\<close>

definition stem_of :: "ustr \<Rightarrow> ustr" where
  "stem_of n =
     (let before = rev (drop 1 (dropWhile (\<lambda>c. c \<noteq> 46) (rev n)))
      in if 46 \<notin> set n \<or> before = [] then n else before)"

definition file_stem :: "ustr \<Rightarrow> ustr option" where
  "file_stem p = map_option stem_of (file_name p)"

definition parent :: "path \<Rightarrow> path option" where
  "parent cs = (case rev cs of [] \<Rightarrow> None | RootDir # _ \<Rightarrow> None | _ # r \<Rightarrow> Some (rev r))"

text \<open>\<open>Path::join\<close>: an absolute argument replaces the base.\<close>

definition join :: "ustr \<Rightarrow> ustr \<Rightarrow> ustr" where
  "join base p =
     (if is_absolute p then p
      else if base = [] \<or> last base = slash then base @ p
      else base @ [slash] @ p)"

text \<open>\<open>Path::starts_with\<close> compares whole components.\<close>

definition path_starts_with :: "path \<Rightarrow> path \<Rightarrow> bool" where
  "path_starts_with p base \<longleftrightarrow> take (length base) p = base"

lemma path_starts_with_refl [simp]: "path_starts_with p p"
  by (simp add: path_starts_with_def)

lemma path_starts_with_iff: "path_starts_with p base \<longleftrightarrow> (\<exists>r. p = base @ r)"
  by (metis append_eq_conv_conj append_take_drop_id path_starts_with_def)

lemma path_starts_with_trans:
  "path_starts_with p q \<Longrightarrow> path_starts_with q r \<Longrightarrow> path_starts_with p r"
  by (auto simp: path_starts_with_iff)

subsection \<open>File names are no longer than their paths\<close>

lemma file_name_mem: "file_name p = Some s \<Longrightarrow> s \<in> set (split_on slash p) \<and> s \<noteq> []"
proof -
  assume "file_name p = Some s"
  then have "Normal s \<in> set (components p)"
    by (auto simp: file_name_def split: list.splits component.splits)
  then show ?thesis
    by (auto simp: components_def Let_def segment_component_def split: if_splits)
qed

lemma file_name_length: "file_name p = Some s \<Longrightarrow> length s \<le> length p"
  using file_name_mem split_on_mem_length by blast

lemma file_name_full: "file_name p = Some s \<Longrightarrow> length s = length p \<Longrightarrow> s = p"
  using file_name_mem split_on_full_length by blast

lemma stem_of_length: "length (stem_of n) \<le> length n"
proof -
  have "length (dropWhile (\<lambda>c. c \<noteq> 46) (rev n)) \<le> length (rev n)"
    by (rule length_dropWhile_le)
  then show ?thesis
    by (auto simp: stem_of_def Let_def)
qed

lemma stem_of_full: "length (stem_of n) = length n \<Longrightarrow> stem_of n = n"
proof (rule ccontr)
  assume len: "length (stem_of n) = length n" and ne: "stem_of n \<noteq> n"
  from ne have dot: "46 \<in> set n"
    by (auto simp: stem_of_def Let_def split: if_splits)
  have "length (dropWhile (\<lambda>c. c \<noteq> 46) (rev n)) \<le> length (rev n)"
    by (rule length_dropWhile_le)
  moreover have "dropWhile (\<lambda>c. c \<noteq> 46) (rev n) \<noteq> []"
    using dot by (auto simp: dropWhile_eq_Nil_conv)
  ultimately have "length (rev (drop 1 (dropWhile (\<lambda>c. c \<noteq> 46) (rev n)))) < length n"
    by (cases "dropWhile (\<lambda>c. c \<noteq> 46) (rev n)") auto
  with len ne show False
    by (auto simp: stem_of_def Let_def split: if_splits)
qed

lemma file_stem_shorter:
  assumes "file_stem p = Some s" and "components s \<noteq> components p"
  shows "length s < length p"
proof -
  from assms(1) obtain n where n: "file_name p = Some n" "s = stem_of n"
    by (auto simp: file_stem_def)
  have "length s \<le> length n" "length n \<le> length p"
    using n stem_of_length file_name_length by auto
  moreover have "length s \<noteq> length p"
  proof
    assume eq: "length s = length p"
    with calculation have "length n = length p" "length s = length n" by auto
    then have "n = p" "s = n"
      using n file_name_full stem_of_full by auto
    with assms(2) show False by simp
  qed
  ultimately show ?thesis by linarith
qed

end
