(* ===== verification/ExecPolicy.thy ===== *)
theory ExecPolicy
  imports Paths "HOL-Library.List_Lexorder"
begin

text \<open>
  The crate \<open>execpolicy\<close>: decisions, prefix rules and their matching
  (\<open>decision.rs\<close>, \<open>rule.rs\<close>), the policy and its evaluation (\<open>policy.rs\<close>),
  the \<open>prefix_rule\<close> builtin that adds rules to a policy under construction
  (\<open>parser.rs\<close>), the JSON check output (\<open>execpolicycheck.rs\<close>) and the append of an
  allow rule to a rules file (\<open>amend.rs\<close>).

  Third-party code is a parameter: the multimap of the crate \<open>multimap\<close>
  (\<open>multimap_ops\<close>, whose documented laws are \<open>multimap_laws\<close>), the values of the
  Starlark interpreter (\<open>value_ops\<close>), and \<open>shlex\<close>'s \<open>split\<close> and \<open>try_join\<close>.
\<close>

section \<open>Decisions\<close>

datatype decision = Allow | Prompt | Forbidden

text \<open>The derived order of the enum is the order of its variants.\<close>

fun decision_rank :: "decision \<Rightarrow> nat" where
  "decision_rank Allow = 0"
| "decision_rank Prompt = 1"
| "decision_rank Forbidden = 2"

instantiation decision :: linorder
begin

definition less_eq_decision :: "decision \<Rightarrow> decision \<Rightarrow> bool" where
  "less_eq_decision a b \<longleftrightarrow> decision_rank a \<le> decision_rank b"

definition less_decision :: "decision \<Rightarrow> decision \<Rightarrow> bool" where
  "less_decision a b \<longleftrightarrow> decision_rank a < decision_rank b"

instance
proof
  fix a b :: decision
  show "a \<le> b \<Longrightarrow> b \<le> a \<Longrightarrow> a = b"
    by (cases a; cases b) (simp_all add: less_eq_decision_def)
qed (auto simp: less_eq_decision_def less_decision_def)

end

lemma decision_le_simps [simp]:
  "Allow \<le> d" "d \<le> Forbidden" "Prompt \<le> Allow \<longleftrightarrow> False" "Forbidden \<le> d \<longleftrightarrow> d = Forbidden"
  "d \<le> Allow \<longleftrightarrow> d = Allow"
  by (cases d; simp add: less_eq_decision_def)+

text \<open>Errors of the crate; \<open>'x\<close> is the interpreter's own error.\<close>

datatype 'x policy_error =
    InvalidDecision ustr
  | InvalidPattern ustr
  | InvalidExample ustr
  | InvalidRule ustr
  | ExampleDidNotMatch "ustr list" "ustr list"
  | ExampleDidMatch ustr ustr
  | Starlark 'x

definition decision_parse :: "ustr \<Rightarrow> 'x policy_error + decision" where
  "decision_parse raw =
     (if raw = lit ''allow'' then Inr Allow
      else if raw = lit ''prompt'' then Inr Prompt
      else if raw = lit ''forbidden'' then Inr Forbidden
      else Inl (InvalidDecision raw))"

text \<open>Source locations: only an interpreter error has one, and lines and columns are
  reported from 1. \<open>span\<close> reads file name and the 0-based begin and end positions.\<close>

record text_position =
  pos_line :: nat
  pos_column :: nat

record text_range =
  range_start :: text_position
  range_end :: text_position

record error_location =
  loc_path :: ustr
  loc_range :: text_range

fun location ::
  "('x \<Rightarrow> (ustr \<times> (nat \<times> nat) \<times> (nat \<times> nat)) option) \<Rightarrow> 'x policy_error \<Rightarrow> error_location option" where
  "location span (Starlark err) =
     map_option (\<lambda>(file, (bl, bc), (el, ec)).
       \<lparr>loc_path = file,
        loc_range = \<lparr>range_start = \<lparr>pos_line = bl + 1, pos_column = bc + 1\<rparr>,
                     range_end = \<lparr>pos_line = el + 1, pos_column = ec + 1\<rparr>\<rparr>\<rparr>) (span err)"
| "location span _ = None"

section \<open>Rules\<close>

datatype pattern_token = Single ustr | Alts "ustr list"

fun token_matches :: "pattern_token \<Rightarrow> ustr \<Rightarrow> bool" where
  "token_matches (Single expected) t \<longleftrightarrow> expected = t"
| "token_matches (Alts alternatives) t \<longleftrightarrow> list_ex (\<lambda>alt. alt = t) alternatives"

fun alternatives :: "pattern_token \<Rightarrow> ustr list" where
  "alternatives (Single expected) = [expected]"
| "alternatives (Alts alts) = alts"

record prefix_pattern =
  pat_first :: ustr
  pat_rest :: "pattern_token list"

text \<open>The loop over the zipped pattern and command tokens.\<close>

fun tokens_match :: "pattern_token list \<Rightarrow> ustr list \<Rightarrow> bool" where
  "tokens_match (p # ps) (t # ts) = (if \<not> token_matches p t then False else tokens_match ps ts)"
| "tokens_match _ _ = True"

definition matches_prefix :: "prefix_pattern \<Rightarrow> ustr list \<Rightarrow> ustr list option" where
  "matches_prefix pat cmd =
     (let pattern_length = length (pat_rest pat) + 1
      in if length cmd < pattern_length \<or> cmd ! 0 \<noteq> pat_first pat then None
         else if \<not> tokens_match (pat_rest pat) (drop 1 (take pattern_length cmd)) then None
         else Some (take pattern_length cmd))"

datatype rule_match =
    PrefixRuleMatch "ustr list" decision "ustr option"
  | HeuristicsRuleMatch "ustr list" decision

fun match_decision :: "rule_match \<Rightarrow> decision" where
  "match_decision (PrefixRuleMatch _ d _) = d"
| "match_decision (HeuristicsRuleMatch _ d) = d"

record prefix_rule =
  rule_pattern :: prefix_pattern
  rule_decision :: decision
  rule_justification :: "ustr option"

definition program :: "prefix_rule \<Rightarrow> ustr" where
  "program r = pat_first (rule_pattern r)"

definition rule_matches :: "prefix_rule \<Rightarrow> ustr list \<Rightarrow> rule_match option" where
  "rule_matches r cmd =
     map_option (\<lambda>matched_prefix. PrefixRuleMatch matched_prefix (rule_decision r) (rule_justification r))
       (matches_prefix (rule_pattern r) cmd)"

text \<open>Examples are rendered for messages by \<open>shlex::try_join\<close> (\<open>try_join\<close>) and the
  derived \<open>Debug\<close> of a rule (\<open>debug\<close>).\<close>

definition render_example :: "(ustr list \<Rightarrow> ustr option) \<Rightarrow> ustr list \<Rightarrow> ustr" where
  "render_example try_join example =
     (case try_join example of Some s \<Rightarrow> s | None \<Rightarrow> lit ''unable to render example'')"

definition validate_match_examples ::
  "(ustr list \<Rightarrow> ustr option) \<Rightarrow> (prefix_rule \<Rightarrow> ustr) \<Rightarrow> prefix_rule list \<Rightarrow> ustr list list
    \<Rightarrow> 'x policy_error + unit" where
  "validate_match_examples try_join debug rules matches =
     (let unmatched_examples =
            map (render_example try_join)
              (filter (\<lambda>example. \<not> list_ex (\<lambda>rule. is_some (rule_matches rule example)) rules) matches)
      in if unmatched_examples = [] then Inr ()
         else Inl (ExampleDidNotMatch (map debug rules) unmatched_examples))"

fun validate_not_match_examples ::
  "(ustr list \<Rightarrow> ustr option) \<Rightarrow> (prefix_rule \<Rightarrow> ustr) \<Rightarrow> prefix_rule list \<Rightarrow> ustr list list
    \<Rightarrow> 'x policy_error + unit" where
  "validate_not_match_examples try_join debug rules [] = Inr ()"
| "validate_not_match_examples try_join debug rules (example # not_matches) =
     (case find (\<lambda>rule. is_some (rule_matches rule example)) rules of
        Some rule \<Rightarrow> Inl (ExampleDidMatch (debug rule) (render_example try_join example))
      | None \<Rightarrow> validate_not_match_examples try_join debug rules not_matches)"

subsection \<open>Matching is a prefix match\<close>

lemma tokens_match_iff:
  "length ps = length ts \<Longrightarrow> tokens_match ps ts \<longleftrightarrow> list_all2 token_matches ps ts"
  by (induction ps ts rule: tokens_match.induct) auto

lemma token_matches_iff: "token_matches p t \<longleftrightarrow> t \<in> set (alternatives p)"
  by (cases p) (auto simp: list_ex_iff)

definition covers :: "prefix_pattern \<Rightarrow> ustr list \<Rightarrow> bool" where
  "covers pat pre \<longleftrightarrow>
     (case pre of [] \<Rightarrow> False
      | t # ts \<Rightarrow> t = pat_first pat \<and> list_all2 (\<lambda>p t. t \<in> set (alternatives p)) (pat_rest pat) ts)"

lemma matches_prefix_eq_Some_iff:
  "matches_prefix pat cmd = Some pre \<longleftrightarrow> (\<exists>rest. cmd = pre @ rest) \<and> covers pat pre"
proof (cases cmd)
  case Nil
  then show ?thesis
    by (auto simp: matches_prefix_def covers_def Let_def)
next
  case (Cons t ts)
  let ?n = "length (pat_rest pat)"
  have len: "length pre = Suc ?n" if "covers pat pre" for pre
    using that by (auto simp: covers_def list_all2_lengthD split: list.splits)
  show ?thesis
  proof
    assume "matches_prefix pat cmd = Some pre"
    with Cons have le: "?n \<le> length ts" and t: "t = pat_first pat"
      and m: "tokens_match (pat_rest pat) (take ?n ts)" and pre: "pre = t # take ?n ts"
      by (auto simp: matches_prefix_def Let_def split: if_splits)
    from m le have "list_all2 token_matches (pat_rest pat) (take ?n ts)"
      by (simp add: tokens_match_iff)
    with t pre Cons show "(\<exists>rest. cmd = pre @ rest) \<and> covers pat pre"
      by (auto simp: covers_def token_matches_iff intro: exI [of _ "drop ?n ts"] elim: list_all2_mono)
  next
    assume asm: "(\<exists>rest. cmd = pre @ rest) \<and> covers pat pre"
    then obtain rest where cmd: "cmd = pre @ rest" and c: "covers pat pre"
      by blast
    from c obtain qs where pre: "pre = pat_first pat # qs"
      and all2: "list_all2 (\<lambda>p t. t \<in> set (alternatives p)) (pat_rest pat) qs"
      by (auto simp: covers_def split: list.splits)
    from all2 have "list_all2 token_matches (pat_rest pat) qs" and l: "length qs = ?n"
      by (auto simp: token_matches_iff list_all2_lengthD elim: list_all2_mono)
    then have "tokens_match (pat_rest pat) qs"
      by (simp add: tokens_match_iff)
    with cmd pre l show "matches_prefix pat cmd = Some pre"
      by (simp add: matches_prefix_def Let_def)
  qed
qed

lemma rule_matches_None_iff: "rule_matches r cmd = None \<longleftrightarrow> matches_prefix (rule_pattern r) cmd = None"
  by (simp add: rule_matches_def)

lemma rule_matches_decision: "rule_matches r cmd = Some m \<Longrightarrow> match_decision m = rule_decision r"
  by (auto simp: rule_matches_def)

lemma rule_matches_program: "rule_matches r cmd = Some m \<Longrightarrow> cmd \<noteq> [] \<and> hd cmd = program r"
proof -
  assume "rule_matches r cmd = Some m"
  then obtain pre rest where "cmd = pre @ rest" "covers (rule_pattern r) pre"
    by (auto simp: rule_matches_def matches_prefix_eq_Some_iff)
  then show ?thesis
    by (auto simp: covers_def program_def split: list.splits)
qed

lemma validate_match_examples_ok_iff:
  "validate_match_examples tj dbg rules exs = Inr () \<longleftrightarrow>
     (\<forall>e \<in> set exs. \<exists>r \<in> set rules. is_some (rule_matches r e))"
  by (auto simp: validate_match_examples_def Let_def filter_empty_conv list_ex_iff)

lemma validate_not_match_examples_ok_iff:
  "validate_not_match_examples tj dbg rules exs = Inr () \<longleftrightarrow>
     (\<forall>e \<in> set exs. \<forall>r \<in> set rules. \<not> is_some (rule_matches r e))"
proof (induction exs)
  case (Cons e exs)
  show ?case
  proof (cases "find (\<lambda>rule. is_some (rule_matches rule e)) rules")
    case None
    then have "\<forall>r \<in> set rules. \<not> is_some (rule_matches r e)"
      by (simp add: find_None_iff)
    moreover from None have "validate_not_match_examples tj dbg rules (e # exs) =
        (validate_not_match_examples tj dbg rules exs :: 'a policy_error + unit)"
      by simp
    ultimately show ?thesis using Cons by simp
  next
    case (Some r)
    then have "r \<in> set rules" "is_some (rule_matches r e)"
      by (auto simp: find_Some_iff)
    with Some show ?thesis by auto
  qed
qed simp

section \<open>Policies\<close>

text \<open>The operations of \<open>multimap::MultiMap\<close> the crate uses, and their documented laws:
  an insert appends to the vector of its key, and \<open>iter_all\<close> yields every key once,
  in no particular order.\<close>

record ('m, 'r) multimap_ops =
  mm_new :: "'m"
  mm_insert :: "'m \<Rightarrow> ustr \<Rightarrow> 'r \<Rightarrow> 'm"
  mm_get_vec :: "'m \<Rightarrow> ustr \<Rightarrow> 'r list option"
  mm_iter_all :: "'m \<Rightarrow> (ustr \<times> 'r list) list"

definition multimap_laws :: "('m, 'r) multimap_ops \<Rightarrow> bool" where
  "multimap_laws mm \<longleftrightarrow>
     (\<forall>k. mm_get_vec mm (mm_new mm) k = None) \<and>
     (\<forall>m k v k'. mm_get_vec mm (mm_insert mm m k v) k' =
        (if k' = k then Some ((case mm_get_vec mm m k of None \<Rightarrow> [] | Some vs \<Rightarrow> vs) @ [v])
         else mm_get_vec mm m k')) \<and>
     (\<forall>m. distinct (map fst (mm_iter_all mm m)) \<and> map_of (mm_iter_all mm m) = mm_get_vec mm m)"

lemma multimap_get_new: "multimap_laws mm \<Longrightarrow> mm_get_vec mm (mm_new mm) k = None"
  by (simp add: multimap_laws_def)

lemma multimap_get_insert:
  "multimap_laws mm \<Longrightarrow> mm_get_vec mm (mm_insert mm m k v) k' =
     (if k' = k then Some ((case mm_get_vec mm m k of None \<Rightarrow> [] | Some vs \<Rightarrow> vs) @ [v])
      else mm_get_vec mm m k')"
  by (simp add: multimap_laws_def)

lemma multimap_iter_all:
  "multimap_laws mm \<Longrightarrow> (k, vs) \<in> set (mm_iter_all mm m) \<longleftrightarrow> mm_get_vec mm m k = Some vs"
  unfolding multimap_laws_def by (metis map_of_eq_Some_iff)

text \<open>An association list satisfies the laws; the witnesses use it.\<close>

fun alist_insert :: "(ustr \<times> 'r list) list \<Rightarrow> ustr \<Rightarrow> 'r \<Rightarrow> (ustr \<times> 'r list) list" where
  "alist_insert [] k v = [(k, [v])]"
| "alist_insert ((k', vs) # m) k v =
     (if k' = k then (k', vs @ [v]) # m else (k', vs) # alist_insert m k v)"

definition alist_multimap :: "((ustr \<times> 'r list) list, 'r) multimap_ops" where
  "alist_multimap =
     \<lparr>mm_new = [], mm_insert = alist_insert, mm_get_vec = map_of,
      mm_iter_all = (\<lambda>m. map (\<lambda>k. (k, the (map_of m k))) (remdups (map fst m)))\<rparr>"

lemma alist_insert_get:
  "map_of (alist_insert m k v) k' =
     (if k' = k then Some ((case map_of m k of None \<Rightarrow> [] | Some vs \<Rightarrow> vs) @ [v]) else map_of m k')"
  by (induction m k v rule: alist_insert.induct) auto

lemma alist_iter_get:
  "map_of (map (\<lambda>k. (k, the (map_of m k))) (remdups (map fst m))) = map_of m"
proof
  fix k
  show "map_of (map (\<lambda>k. (k, the (map_of m k))) (remdups (map fst m))) k = map_of m k"
  proof (cases "map_of m k")
    case None
    then have "k \<notin> fst ` set m" by (simp add: map_of_eq_None_iff)
    then have "map_of (map (\<lambda>k. (k, the (map_of m k))) (remdups (map fst m))) k = None"
      by (simp add: map_of_eq_None_iff image_image)
    with None show ?thesis by simp
  next
    case (Some v)
    then have "k \<in> fst ` set m" by (metis domI dom_map_of_conv_image_fst)
    then show ?thesis using Some by (simp add: map_of_map_restrict)
  qed
qed

lemma alist_multimap_laws: "multimap_laws alist_multimap"
  unfolding multimap_laws_def alist_multimap_def
  by (auto simp: alist_insert_get alist_iter_get distinct_map inj_on_def comp_def)

record 'm policy =
  rules_by_program :: "'m"

definition policy_empty :: "('m, prefix_rule) multimap_ops \<Rightarrow> 'm policy" where
  "policy_empty mm = \<lparr>rules_by_program = mm_new mm\<rparr>"

definition render_pattern_token :: "pattern_token \<Rightarrow> ustr" where
  "render_pattern_token token =
     (case token of Single value \<Rightarrow> value
      | Alts alts \<Rightarrow> lit ''['' @ join_with (lit ''|'') alts @ lit '']'')"

definition render_prefix :: "prefix_pattern \<Rightarrow> ustr list" where
  "render_prefix pat = pat_first pat # map render_pattern_token (pat_rest pat)"

definition get_allowed_prefixes :: "('m, prefix_rule) multimap_ops \<Rightarrow> 'm policy \<Rightarrow> ustr list list" where
  "get_allowed_prefixes mm pol =
     remdups_adj (sort (concat (map (\<lambda>(k, rules).
        map (\<lambda>r. render_prefix (rule_pattern r)) (filter (\<lambda>r. rule_decision r = Allow) rules))
        (mm_iter_all mm (rules_by_program pol)))))"

definition add_prefix_rule ::
  "('m, prefix_rule) multimap_ops \<Rightarrow> 'm policy \<Rightarrow> ustr list \<Rightarrow> decision \<Rightarrow> 'x policy_error + 'm policy" where
  "add_prefix_rule mm pol pfx d =
     (case pfx of
        [] \<Rightarrow> Inl (InvalidPattern (lit ''prefix cannot be empty''))
      | first_token # rest \<Rightarrow>
          Inr (pol\<lparr>rules_by_program :=
            mm_insert mm (rules_by_program pol) first_token
              \<lparr>rule_pattern = \<lparr>pat_first = first_token, pat_rest = map Single rest\<rparr>,
               rule_decision = d, rule_justification = None\<rparr>\<rparr>))"

definition matches_for_command ::
  "('m, prefix_rule) multimap_ops \<Rightarrow> 'm policy \<Rightarrow> ustr list \<Rightarrow> (ustr list \<Rightarrow> decision) option
    \<Rightarrow> rule_match list" where
  "matches_for_command mm pol cmd heuristics_fallback =
     (let matched_rules =
            (case cmd of
               first # _ \<Rightarrow>
                 (case mm_get_vec mm (rules_by_program pol) first of
                    Some rules \<Rightarrow> List.map_filter (\<lambda>rule. rule_matches rule cmd) rules
                  | None \<Rightarrow> [])
             | [] \<Rightarrow> [])
      in case heuristics_fallback of
           Some h \<Rightarrow> if matched_rules = [] then [HeuristicsRuleMatch cmd (h cmd)] else matched_rules
         | None \<Rightarrow> matched_rules)"

record evaluation =
  ev_decision :: decision
  ev_matched_rules :: "rule_match list"

fun is_policy_match :: "rule_match \<Rightarrow> bool" where
  "is_policy_match (PrefixRuleMatch _ _ _) = True"
| "is_policy_match (HeuristicsRuleMatch _ _) = False"

definition is_match :: "evaluation \<Rightarrow> bool" where
  "is_match ev \<longleftrightarrow>
     list_ex (\<lambda>m. \<not> (case m of HeuristicsRuleMatch _ _ \<Rightarrow> True | _ \<Rightarrow> False)) (ev_matched_rules ev)"

text \<open>\<open>Iterator::max\<close> of the decisions; \<open>None\<close> is the panic of the \<open>expect\<close>.\<close>

fun max_decision :: "rule_match list \<Rightarrow> decision option" where
  "max_decision [] = None"
| "max_decision (m # ms) =
     Some (case max_decision ms of None \<Rightarrow> match_decision m | Some d \<Rightarrow> max (match_decision m) d)"

definition from_matches :: "rule_match list \<Rightarrow> evaluation option" where
  "from_matches ms = map_option (\<lambda>d. \<lparr>ev_decision = d, ev_matched_rules = ms\<rparr>) (max_decision ms)"

definition check ::
  "('m, prefix_rule) multimap_ops \<Rightarrow> 'm policy \<Rightarrow> ustr list \<Rightarrow> (ustr list \<Rightarrow> decision)
    \<Rightarrow> evaluation option" where
  "check mm pol cmd h = from_matches (matches_for_command mm pol cmd (Some h))"

definition check_multiple ::
  "('m, prefix_rule) multimap_ops \<Rightarrow> 'm policy \<Rightarrow> ustr list list \<Rightarrow> (ustr list \<Rightarrow> decision)
    \<Rightarrow> evaluation option" where
  "check_multiple mm pol cmds h =
     from_matches (concat (map (\<lambda>cmd. matches_for_command mm pol cmd (Some h)) cmds))"

subsection \<open>Evaluation\<close>

lemma max_decision_None_iff [simp]: "max_decision ms = None \<longleftrightarrow> ms = []"
  by (cases ms) auto

lemma max_decision_Some_iff:
  "max_decision ms = Some d \<longleftrightarrow> ms \<noteq> [] \<and> d = Max (match_decision ` set ms)"
proof (induction ms arbitrary: d)
  case (Cons m ms)
  then show ?case
    by (cases "ms = []") (auto simp: Max_insert2 split: option.splits)
qed simp

lemma max_decision_append:
  "ms \<noteq> [] \<Longrightarrow> ns \<noteq> [] \<Longrightarrow>
   max_decision (ms @ ns) = Some (max (the (max_decision ms)) (the (max_decision ns)))"
proof (induction ms)
  case (Cons m ms)
  then show ?case
    by (cases "ms = []"; cases "max_decision ms"; cases "max_decision ns") (auto simp: max.assoc)
qed simp

lemma from_matches_eq_Some_iff:
  "from_matches ms = Some ev \<longleftrightarrow>
     ms \<noteq> [] \<and> ev_matched_rules ev = ms \<and> ev_decision ev = Max (match_decision ` set ms)"
proof -
  have "from_matches ms = Some ev \<longleftrightarrow>
      (\<exists>d. max_decision ms = Some d \<and> ev = \<lparr>ev_decision = d, ev_matched_rules = ms\<rparr>)"
    by (auto simp: from_matches_def)
  also have "\<dots> \<longleftrightarrow> ms \<noteq> [] \<and> ev_matched_rules ev = ms \<and> ev_decision ev = Max (match_decision ` set ms)"
    by (cases ev) (auto simp: max_decision_Some_iff)
  finally show ?thesis .
qed

lemma from_matches_None_iff [simp]: "from_matches ms = None \<longleftrightarrow> ms = []"
  by (simp add: from_matches_def)

lemma matches_for_command_fallback_ne [simp]: "matches_for_command mm pol cmd (Some h) \<noteq> []"
  by (simp add: matches_for_command_def Let_def)

lemma matches_for_command_Nil: "matches_for_command mm pol [] None = []"
  by (simp add: matches_for_command_def)

lemma matches_for_command_fallback:
  "matches_for_command mm pol cmd (Some h) =
     (if matches_for_command mm pol cmd None = [] then [HeuristicsRuleMatch cmd (h cmd)]
      else matches_for_command mm pol cmd None)"
  by (simp add: matches_for_command_def Let_def)

lemma matches_for_command_policy_match:
  "m \<in> set (matches_for_command mm pol cmd None) \<Longrightarrow> is_policy_match m"
  by (auto simp: matches_for_command_def List.map_filter_def rule_matches_def
      split: list.splits option.splits)

lemma check_ex: "\<exists>ev. check mm pol cmd h = Some ev"
  unfolding check_def by (metis from_matches_None_iff matches_for_command_fallback_ne not_Some_eq)

text \<open>Evaluating a policy with a fallback never hits the panic in \<open>from_matches\<close>, the
  decision is one of the matched rules' decisions and none of them is stricter, and when no
  rule of the policy matches the only match is the fallback's.\<close>

theorem check_total:
  "\<exists>ev. check mm pol cmd h = Some ev \<and>
      ev_decision ev \<in> match_decision ` set (ev_matched_rules ev) \<and>
      (\<forall>m \<in> set (ev_matched_rules ev). match_decision m \<le> ev_decision ev) \<and>
      (if matches_for_command mm pol cmd None = []
       then ev = \<lparr>ev_decision = h cmd, ev_matched_rules = [HeuristicsRuleMatch cmd (h cmd)]\<rparr>
       else ev_matched_rules ev = matches_for_command mm pol cmd None)"
proof -
  let ?ms = "matches_for_command mm pol cmd (Some h)"
  have ne: "?ms \<noteq> []" by simp
  then obtain ev where ev: "from_matches ?ms = Some ev"
    using from_matches_None_iff by blast
  then have m: "ev_matched_rules ev = ?ms" "ev_decision ev = Max (match_decision ` set ?ms)"
    by (simp_all add: from_matches_eq_Some_iff)
  with ne have "ev_decision ev \<in> match_decision ` set (ev_matched_rules ev)"
    and "\<forall>r \<in> set (ev_matched_rules ev). match_decision r \<le> ev_decision ev"
    by (auto intro: Max_in Max_ge)
  moreover have "if matches_for_command mm pol cmd None = []
      then ev = \<lparr>ev_decision = h cmd, ev_matched_rules = [HeuristicsRuleMatch cmd (h cmd)]\<rparr>
      else ev_matched_rules ev = matches_for_command mm pol cmd None"
    using m by (cases ev) (auto simp: matches_for_command_fallback)
  ultimately show ?thesis
    using ev by (auto simp: check_def)
qed

lemma check_decision:
  "check mm pol cmd h = Some ev \<Longrightarrow>
   ev_decision ev = Max (match_decision ` set (matches_for_command mm pol cmd (Some h)))"
  by (simp add: check_def from_matches_eq_Some_iff)

lemma check_multiple_Cons:
  "cmds \<noteq> [] \<Longrightarrow> check mm pol cmd h = Some e1 \<Longrightarrow> check_multiple mm pol cmds h = Some e2 \<Longrightarrow>
   check_multiple mm pol (cmd # cmds) h =
     Some \<lparr>ev_decision = max (ev_decision e1) (ev_decision e2),
           ev_matched_rules = ev_matched_rules e1 @ ev_matched_rules e2\<rparr>"
  by (auto simp: check_def check_multiple_def from_matches_def max_decision_append)

text \<open>C19: Evaluating several commands panics exactly on the empty list; otherwise the
  decision is the strictest of the decisions the commands get on their own, so one forbidden
  part forbids the whole and an allowed whole has only allowed parts.\<close>

theorem check_multiple_strictest:
  "(check_multiple mm pol cmds h = None \<longleftrightarrow> cmds = []) \<and>
   (\<forall>ev. check_multiple mm pol cmds h = Some ev \<longrightarrow>
      ev_decision ev = Max ((\<lambda>cmd. ev_decision (the (check mm pol cmd h))) ` set cmds))"
proof (induction cmds)
  case Nil
  then show ?case by (simp add: check_multiple_def from_matches_def)
next
  case (Cons cmd cmds)
  obtain e1 where e1: "check mm pol cmd h = Some e1"
    using check_ex by blast
  show ?case
  proof (cases "cmds = []")
    case True
    with e1 show ?thesis by (simp add: check_multiple_def check_def)
  next
    case False
    with Cons.IH obtain e2 where e2: "check_multiple mm pol cmds h = Some e2"
      by auto
    with Cons.IH False e1 check_multiple_Cons [OF False e1 e2] show ?thesis
      by simp
  qed
qed

section \<open>Adding rules\<close>

definition prefix_rule_match :: "ustr list \<Rightarrow> decision \<Rightarrow> ustr list \<Rightarrow> rule_match list" where
  "prefix_rule_match pfx d cmd =
     (if take (length pfx) cmd = pfx then [PrefixRuleMatch pfx d None] else [])"

lemma covers_singles: "covers \<lparr>pat_first = t, pat_rest = map Single ts\<rparr> pre \<longleftrightarrow> pre = t # ts"
proof -
  have "list_all2 (\<lambda>p t. t \<in> set (alternatives p)) (map Single ts) us \<longleftrightarrow> us = ts" for us
    by (induction ts arbitrary: us) (auto simp: list_all2_Cons1)
  then show ?thesis
    by (auto simp: covers_def split: list.splits)
qed

lemma rule_matches_singles:
  "rule_matches \<lparr>rule_pattern = \<lparr>pat_first = t, pat_rest = map Single ts\<rparr>,
                rule_decision = d, rule_justification = None\<rparr> cmd =
     (if take (length (t # ts)) cmd = t # ts then Some (PrefixRuleMatch (t # ts) d None) else None)"
proof (cases "take (length (t # ts)) cmd = t # ts")
  case True
  then have "cmd = (t # ts) @ drop (length (t # ts)) cmd"
    by (metis append_take_drop_id)
  then have "matches_prefix \<lparr>pat_first = t, pat_rest = map Single ts\<rparr> cmd = Some (t # ts)"
    unfolding matches_prefix_eq_Some_iff by (auto simp: covers_singles)
  with True show ?thesis by (simp add: rule_matches_def)
next
  case False
  then have "matches_prefix \<lparr>pat_first = t, pat_rest = map Single ts\<rparr> cmd \<noteq> Some pre" for pre
    by (auto simp: matches_prefix_eq_Some_iff covers_singles)
  with False show ?thesis by (auto simp: rule_matches_def)
qed

lemma matches_for_command_insert:
  assumes "multimap_laws mm"
  shows "matches_for_command mm (pol\<lparr>rules_by_program := mm_insert mm (rules_by_program pol) (program r) r\<rparr>) cmd None
    = matches_for_command mm pol cmd None @ (case rule_matches r cmd of None \<Rightarrow> [] | Some m \<Rightarrow> [m])"
proof (cases cmd)
  case Nil
  then show ?thesis
    using rule_matches_program [of r cmd]
    by (cases "rule_matches r cmd") (auto simp: matches_for_command_def)
next
  case (Cons t ts)
  show ?thesis
  proof (cases "t = program r")
    case True
    with Cons assms show ?thesis
      by (auto simp: matches_for_command_def multimap_get_insert List.map_filter_def
          split: option.splits)
  next
    case False
    with Cons have "rule_matches r cmd = None"
      using rule_matches_program [of r cmd] by (cases "rule_matches r cmd") auto
    with False Cons assms show ?thesis
      by (simp add: matches_for_command_def multimap_get_insert)
  qed
qed

lemma add_prefix_rule_new:
  assumes "multimap_laws mm" and "add_prefix_rule mm pol pfx d = Inr pol'"
  shows "matches_for_command mm pol' cmd None =
    matches_for_command mm pol cmd None @ prefix_rule_match pfx d cmd"
proof (cases pfx)
  case Nil
  with assms(2) show ?thesis by (simp add: add_prefix_rule_def)
next
  case (Cons t ts)
  let ?r = "\<lparr>rule_pattern = \<lparr>pat_first = t, pat_rest = map Single ts\<rparr>,
             rule_decision = d, rule_justification = None\<rparr>"
  have "program ?r = t" by (simp add: program_def)
  with matches_for_command_insert [OF assms(1), of pol ?r] assms(2) Cons show ?thesis
    by (auto simp: add_prefix_rule_def rule_matches_singles prefix_rule_match_def)
qed

text \<open>\<open>add_prefix_rule\<close> fails exactly on the empty prefix; otherwise a command's
  matches are the old ones followed by the new rule's when the command starts with the
  prefix, and are unchanged when it does not.\<close>

theorem add_prefix_rule_matches:
  assumes "multimap_laws mm"
  shows "(pfx = [] \<longrightarrow> add_prefix_rule mm pol pfx d = Inl (InvalidPattern (lit ''prefix cannot be empty''))) \<and>
    (pfx \<noteq> [] \<longrightarrow> (\<exists>pol'. add_prefix_rule mm pol pfx d = Inr pol' \<and>
       (\<forall>cmd. matches_for_command mm pol' cmd None =
          matches_for_command mm pol cmd None @ prefix_rule_match pfx d cmd)))"
proof (cases pfx)
  case Nil
  then show ?thesis by (simp add: add_prefix_rule_def)
next
  case (Cons t ts)
  then obtain pol' where "add_prefix_rule mm pol pfx d = (Inr pol' :: 'c policy_error + 'a policy)"
    by (simp add: add_prefix_rule_def)
  with add_prefix_rule_new [OF assms this] Cons show ?thesis by simp
qed

theorem add_prefix_rule_matches_witness:
  "\<exists>pol'. add_prefix_rule alist_multimap (policy_empty alist_multimap) [lit ''git'', lit ''log''] Allow = Inr pol' \<and>
     matches_for_command alist_multimap pol' [lit ''git'', lit ''log'', lit ''-p''] None =
       [PrefixRuleMatch [lit ''git'', lit ''log''] Allow None]"
proof -
  have "matches_for_command alist_multimap (policy_empty alist_multimap) [lit ''git'', lit ''log'', lit ''-p''] None = []"
    by (simp add: matches_for_command_def policy_empty_def alist_multimap_def)
  with add_prefix_rule_matches [OF alist_multimap_laws,
      of "[lit ''git'', lit ''log'']" "policy_empty alist_multimap" Allow]
  show ?thesis by (force simp: prefix_rule_match_def)
qed

lemma Max_match_append:
  "ms \<noteq> [] \<Longrightarrow> Max (match_decision ` set ms) \<le> Max (match_decision ` set (ms @ ns))"
  by (rule Max_mono) auto

text \<open>A rule added later never relaxes what the policy already decides: for a command
  some rule of the policy matches, the decision after \<open>add_prefix_rule\<close> is at least as
  strict, and it is the stricter of the old decision and the new rule's.\<close>

theorem add_prefix_rule_never_relaxes:
  assumes "multimap_laws mm" and "add_prefix_rule mm pol pfx d = Inr pol'"
    and "check mm pol cmd h = Some ev" and "is_match ev" and "check mm pol' cmd h = Some ev'"
  shows "ev_decision ev \<le> ev_decision ev' \<and>
    ev_decision ev' = (if take (length pfx) cmd = pfx then max (ev_decision ev) d else ev_decision ev)"
proof -
  let ?old = "matches_for_command mm pol cmd None"
  let ?new = "matches_for_command mm pol' cmd None"
  have new: "?new = ?old @ prefix_rule_match pfx d cmd"
    using assms(1,2) by (rule add_prefix_rule_new)
  from assms(2) have ne: "pfx \<noteq> []" by (auto simp: add_prefix_rule_def)
  have "?old \<noteq> []"
    using assms(3,4)
    by (auto simp: check_def from_matches_eq_Some_iff is_match_def matches_for_command_fallback
        split: if_splits)
  then have old_dec: "max_decision ?old = Some (ev_decision ev)"
    and new_dec: "max_decision ?new = Some (ev_decision ev')"
    using assms(3,5) new
    by (auto simp: check_def from_matches_def matches_for_command_fallback)
  show ?thesis
  proof (cases "take (length pfx) cmd = pfx")
    case True
    with new_dec old_dec \<open>?old \<noteq> []\<close> have "ev_decision ev' = max (ev_decision ev) d"
      by (simp add: new prefix_rule_match_def max_decision_append)
    with True show ?thesis by simp
  next
    case False
    with new_dec old_dec show ?thesis by (simp add: new prefix_rule_match_def)
  qed
qed

section \<open>Allowed prefixes\<close>

lemma sorted_remdups_adj_distinct: "sorted xs \<Longrightarrow> distinct (remdups_adj xs)"
proof (induction xs rule: remdups_adj.induct)
  case (3 x y xs)
  then show ?case
    by (auto simp: le_less dest: leD)
qed simp_all

text \<open>The prefixes offered to the model are sorted and without duplicates, and they
  are exactly the rendered patterns of the policy's allow rules.\<close>

theorem get_allowed_prefixes_spec:
  assumes "multimap_laws mm"
  shows "sorted (get_allowed_prefixes mm pol) \<and> distinct (get_allowed_prefixes mm pol) \<and>
    (\<forall>p. p \<in> set (get_allowed_prefixes mm pol) \<longleftrightarrow>
       (\<exists>k rules r. mm_get_vec mm (rules_by_program pol) k = Some rules \<and> r \<in> set rules \<and>
          rule_decision r = Allow \<and> p = render_prefix (rule_pattern r)))"
proof -
  have "p \<in> set (get_allowed_prefixes mm pol) \<longleftrightarrow>
      (\<exists>k rules r. (k, rules) \<in> set (mm_iter_all mm (rules_by_program pol)) \<and> r \<in> set rules \<and>
          rule_decision r = Allow \<and> p = render_prefix (rule_pattern r))" for p
    by (fastforce simp: get_allowed_prefixes_def)
  then show ?thesis
    using multimap_iter_all [OF assms]
    by (simp add: get_allowed_prefixes_def sorted_remdups_adj_distinct sorted_remdups_adj)
qed

theorem get_allowed_prefixes_spec_witness:
  "\<exists>pol. [lit ''ls''] \<in> set (get_allowed_prefixes alist_multimap pol)"
proof -
  let ?r = "\<lparr>rule_pattern = \<lparr>pat_first = lit ''ls'', pat_rest = []\<rparr>, rule_decision = Allow,
             rule_justification = None\<rparr>"
  let ?pol = "\<lparr>rules_by_program = [(lit ''ls'', [?r])]\<rparr>"
  have "mm_get_vec alist_multimap (rules_by_program ?pol) (lit ''ls'') = Some [?r]"
    by (simp add: alist_multimap_def)
  moreover have "render_prefix (rule_pattern ?r) = [lit ''ls'']"
    by (simp add: render_prefix_def)
  ultimately have "[lit ''ls''] \<in> set (get_allowed_prefixes alist_multimap ?pol)"
    using get_allowed_prefixes_spec [OF alist_multimap_laws, of ?pol] by force
  then show ?thesis ..
qed

section \<open>Closed instances\<close>

lemma empty_policy_matches: "matches_for_command alist_multimap (policy_empty alist_multimap) cmd None = []"
  by (cases cmd) (simp_all add: matches_for_command_def policy_empty_def alist_multimap_def)

theorem check_total_witness:
  "check alist_multimap (policy_empty alist_multimap) [lit ''ls''] (\<lambda>_. Prompt) =
     Some \<lparr>ev_decision = Prompt, ev_matched_rules = [HeuristicsRuleMatch [lit ''ls''] Prompt]\<rparr>"
  using check_total [of alist_multimap "policy_empty alist_multimap" "[lit ''ls'']" "\<lambda>_. Prompt"]
  by (simp add: empty_policy_matches)

theorem check_multiple_strictest_witness:
  "\<exists>ev. check_multiple alist_multimap (policy_empty alist_multimap) [[lit ''a''], [lit ''b'']]
       (\<lambda>cmd. if cmd = [lit ''b''] then Forbidden else Allow) = Some ev \<and> ev_decision ev = Forbidden"
proof -
  let ?h = "\<lambda>cmd. if cmd = [lit ''b''] then Forbidden else Allow"
  let ?c = "check_multiple alist_multimap (policy_empty alist_multimap) [[lit ''a''], [lit ''b'']] ?h"
  have single: "check alist_multimap (policy_empty alist_multimap) cmd ?h =
      Some \<lparr>ev_decision = ?h cmd, ev_matched_rules = [HeuristicsRuleMatch cmd (?h cmd)]\<rparr>" for cmd
    by (simp add: check_def matches_for_command_fallback empty_policy_matches from_matches_def)
  note strict = check_multiple_strictest [of alist_multimap "policy_empty alist_multimap" "[[lit ''a''], [lit ''b'']]" ?h]
  have "?c \<noteq> None"
    using conjunct1 [OF strict] by blast
  then obtain ev where c: "?c = Some ev"
    by blast
  let ?f = "\<lambda>cmd. ev_decision (the (check alist_multimap (policy_empty alist_multimap) cmd ?h))"
  have f: "?f [lit ''a''] = Allow" "?f [lit ''b''] = Forbidden"
    by (simp_all add: single)
  have "ev_decision ev = Max (?f ` set [[lit ''a''], [lit ''b'']])"
    using conjunct2 [OF strict] c by blast
  also have "?f ` set [[lit ''a''], [lit ''b'']] = {Allow, Forbidden}"
    using f by simp
  also have "Max {Allow, Forbidden} = Forbidden"
    by (simp add: max_def)
  finally show ?thesis using c by blast
qed

theorem add_prefix_rule_never_relaxes_witness:
  "\<exists>ev'. check alist_multimap
       \<lparr>rules_by_program = [(lit ''rm'', [\<lparr>rule_pattern = \<lparr>pat_first = lit ''rm'', pat_rest = []\<rparr>,
            rule_decision = Forbidden, rule_justification = None\<rparr>,
          \<lparr>rule_pattern = \<lparr>pat_first = lit ''rm'', pat_rest = []\<rparr>,
            rule_decision = Allow, rule_justification = None\<rparr>])]\<rparr> [lit ''rm''] (\<lambda>_. Allow) = Some ev' \<and>
     ev_decision ev' = Forbidden"
proof -
  let ?r = "\<lambda>d. \<lparr>rule_pattern = \<lparr>pat_first = lit ''rm'', pat_rest = []\<rparr>, rule_decision = d, rule_justification = None\<rparr>"
  let ?pol = "\<lparr>rules_by_program = [(lit ''rm'', [?r Forbidden])]\<rparr>"
  let ?pol' = "\<lparr>rules_by_program = [(lit ''rm'', [?r Forbidden, ?r Allow])]\<rparr>"
  have add: "add_prefix_rule alist_multimap ?pol [lit ''rm''] Allow = (Inr ?pol' :: unit policy_error + _)"
    by (simp add: add_prefix_rule_def alist_multimap_def)
  have old: "check alist_multimap ?pol [lit ''rm''] (\<lambda>_. Allow) =
      Some \<lparr>ev_decision = Forbidden, ev_matched_rules = [PrefixRuleMatch [lit ''rm''] Forbidden None]\<rparr>"
    by (simp add: check_def matches_for_command_def alist_multimap_def List.map_filter_def rule_matches_def
        matches_prefix_def from_matches_def Let_def)
  obtain ev' where new: "check alist_multimap ?pol' [lit ''rm''] (\<lambda>_. Allow) = Some ev'"
    using check_ex by blast
  have "is_match \<lparr>ev_decision = Forbidden, ev_matched_rules = [PrefixRuleMatch [lit ''rm''] Forbidden None]\<rparr>"
    by (simp add: is_match_def)
  from add_prefix_rule_never_relaxes [OF alist_multimap_laws add old this new] new show ?thesis
    by simp
qed

end
