(* ===== verification/ExecPolicyFiles.thy ===== *)
theory ExecPolicyFiles
  imports ExecPolicy
begin

text \<open>
  Rules files: the \<open>prefix_rule\<close> builtin and the policy builder of \<open>parser.rs\<close>, the
  loading and checking of \<open>execpolicycheck.rs\<close>, and \<open>amend.rs\<close>, which appends an allow
  rule to a rules file. The Starlark interpreter itself (parsing a file and evaluating its
  statements) is a parameter: the model starts where it calls \<open>prefix_rule\<close>.
\<close>

section \<open>Arguments of the builtin\<close>

text \<open>What the code reads of an interpreter value.\<close>

record 'v value_ops =
  unpack_str :: "'v \<Rightarrow> ustr option"
  list_content :: "'v \<Rightarrow> 'v list option"
  get_type :: "'v \<Rightarrow> ustr"

definition parse_pattern_token :: "'v value_ops \<Rightarrow> 'v \<Rightarrow> 'x policy_error + pattern_token" where
  "parse_pattern_token vo value =
     (case unpack_str vo value of
        Some s \<Rightarrow> Inr (Single s)
      | None \<Rightarrow>
          (case list_content vo value of
             Some content \<Rightarrow>
               bindE (traverseE (\<lambda>v. ok_or (InvalidPattern
                        (lit ''pattern alternative must be a string (got '' @ get_type vo v @ lit '')''))
                        (unpack_str vo v)) content)
                 (\<lambda>tokens. case tokens of
                    [] \<Rightarrow> Inl (InvalidPattern (lit ''pattern alternatives cannot be empty''))
                  | [single] \<Rightarrow> Inr (Single single)
                  | _ \<Rightarrow> Inr (Alts tokens))
           | None \<Rightarrow>
               Inl (InvalidPattern
                 (lit ''pattern element must be a string or list of strings (got '' @
                  get_type vo value @ lit '')''))))"

definition parse_pattern :: "'v value_ops \<Rightarrow> 'v list \<Rightarrow> 'x policy_error + pattern_token list" where
  "parse_pattern vo items =
     bindE (traverseE (parse_pattern_token vo) items)
       (\<lambda>tokens. if tokens = [] then Inl (InvalidPattern (lit ''pattern cannot be empty'')) else Inr tokens)"

definition parse_string_example ::
  "(ustr \<Rightarrow> ustr list option) \<Rightarrow> ustr \<Rightarrow> 'x policy_error + ustr list" where
  "parse_string_example shlex_split raw =
     bindE (ok_or (InvalidExample (lit ''example string has invalid shell syntax'')) (shlex_split raw))
       (\<lambda>tokens. if tokens = [] then Inl (InvalidExample (lit ''example cannot be an empty string''))
                 else Inr tokens)"

definition parse_list_example :: "'v value_ops \<Rightarrow> 'v list \<Rightarrow> 'x policy_error + ustr list" where
  "parse_list_example vo content =
     bindE (traverseE (\<lambda>v. ok_or (InvalidExample
              (lit ''example tokens must be strings (got '' @ get_type vo v @ lit '')'')) (unpack_str vo v))
            content)
       (\<lambda>tokens. if tokens = [] then Inl (InvalidExample (lit ''example cannot be an empty list''))
                 else Inr tokens)"

definition parse_example ::
  "'v value_ops \<Rightarrow> (ustr \<Rightarrow> ustr list option) \<Rightarrow> 'v \<Rightarrow> 'x policy_error + ustr list" where
  "parse_example vo shlex_split value =
     (case unpack_str vo value of
        Some raw \<Rightarrow> parse_string_example shlex_split raw
      | None \<Rightarrow>
          (case list_content vo value of
             Some content \<Rightarrow> parse_list_example vo content
           | None \<Rightarrow>
               Inl (InvalidExample
                 (lit ''example must be a string or list of strings (got '' @ get_type vo value @ lit '')''))))"

definition parse_examples ::
  "'v value_ops \<Rightarrow> (ustr \<Rightarrow> ustr list option) \<Rightarrow> 'v list \<Rightarrow> 'x policy_error + ustr list list" where
  "parse_examples vo shlex_split items = traverseE (parse_example vo shlex_split) items"

section \<open>The builder and the builtin\<close>

record 'm policy_builder =
  builder_rules :: "'m"

definition builder_new :: "('m, prefix_rule) multimap_ops \<Rightarrow> 'm policy_builder" where
  "builder_new mm = \<lparr>builder_rules = mm_new mm\<rparr>"

definition add_rule ::
  "('m, prefix_rule) multimap_ops \<Rightarrow> 'm policy_builder \<Rightarrow> prefix_rule \<Rightarrow> 'm policy_builder" where
  "add_rule mm b rule = b\<lparr>builder_rules := mm_insert mm (builder_rules b) (program rule) rule\<rparr>"

definition build :: "'m policy_builder \<Rightarrow> 'm policy" where
  "build b = \<lparr>rules_by_program = builder_rules b\<rparr>"

text \<open>The third-party functions the builtin calls.\<close>

record 'v parser_env =
  env_values :: "'v value_ops"
  env_shlex_split :: "ustr \<Rightarrow> ustr list option"
  env_shlex_join :: "ustr list \<Rightarrow> ustr option"
  env_debug_rule :: "prefix_rule \<Rightarrow> ustr"

definition justification_arg :: "ustr option \<Rightarrow> 'x policy_error + ustr option" where
  "justification_arg j =
     (case j of
        Some raw \<Rightarrow>
          if trim raw = [] then Inl (InvalidRule (lit ''justification cannot be empty'')) else Inr (Some raw)
      | None \<Rightarrow> Inr None)"

definition examples_arg ::
  "'v parser_env \<Rightarrow> 'v list option \<Rightarrow> 'x policy_error + ustr list list" where
  "examples_arg env exs =
     (case exs of None \<Rightarrow> Inr []
      | Some items \<Rightarrow> parse_examples (env_values env) (env_shlex_split env) items)"

definition prefix_rule_builtin ::
  "('m, prefix_rule) multimap_ops \<Rightarrow> 'v parser_env \<Rightarrow> 'm policy_builder \<Rightarrow> 'v list \<Rightarrow> ustr option
    \<Rightarrow> 'v list option \<Rightarrow> 'v list option \<Rightarrow> ustr option \<Rightarrow> 'x policy_error + 'm policy_builder" where
  "prefix_rule_builtin mm env b pattern d_arg match_arg not_match_arg j_arg =
     bindE (case d_arg of Some raw \<Rightarrow> decision_parse raw | None \<Rightarrow> Inr Allow) (\<lambda>d.
     bindE (justification_arg j_arg) (\<lambda>justification.
     bindE (parse_pattern (env_values env) pattern) (\<lambda>pattern_tokens.
     bindE (examples_arg env match_arg) (\<lambda>matches.
     bindE (examples_arg env not_match_arg) (\<lambda>not_matches.
     case pattern_tokens of
       [] \<Rightarrow> Inl (InvalidPattern (lit ''pattern cannot be empty''))
     | first_token # remaining_tokens \<Rightarrow>
         let rules = map (\<lambda>head. \<lparr>rule_pattern = \<lparr>pat_first = head, pat_rest = remaining_tokens\<rparr>,
                                  rule_decision = d, rule_justification = justification\<rparr>)
                       (alternatives first_token)
         in bindE (validate_not_match_examples (env_shlex_join env) (env_debug_rule env) rules not_matches) (\<lambda>_.
            bindE (validate_match_examples (env_shlex_join env) (env_debug_rule env) rules matches) (\<lambda>_.
            Inr (fold (\<lambda>rule b. add_rule mm b rule) rules b))))))))"

lemma add_rules_matches:
  assumes "multimap_laws mm"
  shows "matches_for_command mm (build (fold (\<lambda>rule b. add_rule mm b rule) rules b)) cmd None =
    matches_for_command mm (build b) cmd None @ List.map_filter (\<lambda>r. rule_matches r cmd) rules"
proof (induction rules arbitrary: b)
  case Nil
  then show ?case by (simp add: List.map_filter_def)
next
  case (Cons r rules)
  have "build (add_rule mm b r) =
      (build b)\<lparr>rules_by_program := mm_insert mm (rules_by_program (build b)) (program r) r\<rparr>"
    by (simp add: build_def add_rule_def)
  with matches_for_command_insert [OF assms, of "build b" r cmd] Cons.IH [of "add_rule mm b r"]
  show ?case
    by (auto simp: List.map_filter_def split: option.splits)
qed

lemma map_filter_examples:
  "List.map_filter (\<lambda>r. rule_matches r cmd) rules = [] \<longleftrightarrow> (\<forall>r \<in> set rules. \<not> is_some (rule_matches r cmd))"
  by (auto simp: List.map_filter_def filter_empty_conv is_some_iff)

text \<open>When \<open>prefix_rule\<close> succeeds, the policy built from the new builder matches
  every \<open>match\<close> example of the call, its \<open>not_match\<close> examples match exactly what they
  matched before, and no earlier match of any command is lost.\<close>

theorem prefix_rule_examples_hold:
  assumes laws: "multimap_laws mm"
    and ok: "prefix_rule_builtin mm env b pattern d_arg match_arg not_match_arg j_arg =
      (Inr b' :: 'x policy_error + 'm policy_builder)"
    and ex: "examples_arg env match_arg = (Inr matches :: 'x policy_error + ustr list list)"
    and nex: "examples_arg env not_match_arg = (Inr not_matches :: 'x policy_error + ustr list list)"
  shows "(\<forall>e \<in> set matches. matches_for_command mm (build b') e None \<noteq> []) \<and>
    (\<forall>e \<in> set not_matches.
       matches_for_command mm (build b') e None = matches_for_command mm (build b) e None) \<and>
    (\<forall>cmd. set (matches_for_command mm (build b) cmd None) \<subseteq> set (matches_for_command mm (build b') cmd None))"
proof -
  from ok obtain tokens where tok: "parse_pattern (env_values env) pattern =
      (Inr tokens :: 'x policy_error + pattern_token list)"
    by (auto simp: prefix_rule_builtin_def bindE_eq_Inr_iff)
  then have "tokens \<noteq> []"
    by (auto simp: parse_pattern_def bindE_eq_Inr_iff split: if_splits)
  then obtain first_token remaining where "tokens = first_token # remaining"
    by (cases tokens) auto
  with tok ok ex nex obtain rules where b': "b' = fold (\<lambda>rule b. add_rule mm b rule) rules b"
    and nm: "validate_not_match_examples (env_shlex_join env) (env_debug_rule env) rules not_matches
               = (Inr () :: 'x policy_error + unit)"
    and m: "validate_match_examples (env_shlex_join env) (env_debug_rule env) rules matches
               = (Inr () :: 'x policy_error + unit)"
    by (auto simp: prefix_rule_builtin_def bindE_eq_Inr_iff Let_def)
  note added = add_rules_matches [OF laws, of rules b, folded b']
  have "List.map_filter (\<lambda>r. rule_matches r e) rules \<noteq> []" if "e \<in> set matches" for e
    using m that by (auto simp: map_filter_examples validate_match_examples_ok_iff)
  moreover have "List.map_filter (\<lambda>r. rule_matches r e) rules = []" if "e \<in> set not_matches" for e
    using nm that by (simp add: map_filter_examples validate_not_match_examples_ok_iff)
  ultimately show ?thesis by (simp add: added)
qed

text \<open>A value is a string or a list of strings in this instance.\<close>

definition sample_values :: "(ustr + ustr list) value_ops" where
  "sample_values =
     \<lparr>unpack_str = (\<lambda>v. case v of Inl s \<Rightarrow> Some s | Inr _ \<Rightarrow> None),
      list_content = (\<lambda>v. case v of Inl _ \<Rightarrow> None | Inr xs \<Rightarrow> Some (map Inl xs)),
      get_type = (\<lambda>_. lit ''string'')\<rparr>"

definition sample_env :: "(ustr + ustr list) parser_env" where
  "sample_env =
     \<lparr>env_values = sample_values, env_shlex_split = (\<lambda>s. Some [s]),
      env_shlex_join = (\<lambda>xs. Some (join_with (lit '' '') xs)), env_debug_rule = (\<lambda>_. [])\<rparr>"

theorem prefix_rule_examples_hold_witness:
  "\<exists>b'. prefix_rule_builtin alist_multimap sample_env (builder_new alist_multimap)
        [Inl (lit ''git''), Inr [lit ''log'', lit ''show'']] None
        (Some [Inr [lit ''git'', lit ''log'']]) (Some [Inr [lit ''git'', lit ''push'']]) None
      = (Inr b' :: unit policy_error + _) \<and>
     matches_for_command alist_multimap (build b') [lit ''git'', lit ''log''] None \<noteq> []"
proof -
  let ?call = "prefix_rule_builtin alist_multimap sample_env (builder_new alist_multimap)
        [Inl (lit ''git''), Inr [lit ''log'', lit ''show'']] None
        (Some [Inr [lit ''git'', lit ''log'']]) (Some [Inr [lit ''git'', lit ''push'']]) None
        :: unit policy_error + _"
  have ex: "examples_arg sample_env (Some [Inr [lit ''git'', lit ''log'']]) =
      (Inr [[lit ''git'', lit ''log'']] :: unit policy_error + _)"
    and nex: "examples_arg sample_env (Some [Inr [lit ''git'', lit ''push'']]) =
      (Inr [[lit ''git'', lit ''push'']] :: unit policy_error + _)"
    by (simp_all add: examples_arg_def parse_examples_def parse_example_def parse_list_example_def
        sample_env_def sample_values_def)
  have "\<exists>b'. ?call = Inr b'"
    by (simp add: prefix_rule_builtin_def justification_arg_def parse_pattern_def parse_pattern_token_def
        ex nex validate_match_examples_def rule_matches_def matches_prefix_def Let_def)
       (simp add: sample_env_def sample_values_def validate_match_examples_def
         rule_matches_def matches_prefix_def)
  then obtain b' where b': "?call = Inr b'" ..
  with prefix_rule_examples_hold [OF alist_multimap_laws b' ex nex] show ?thesis
    by auto
qed

section \<open>Loading and checking policies\<close>

text \<open>\<open>read\<close> is \<open>fs::read_to_string\<close>; \<open>parse\<close> evaluates one file with the builder (the
  interpreter, calling \<open>prefix_rule_builtin\<close>); an error carries its context message.\<close>

fun load_policies_loop ::
  "(ustr \<Rightarrow> 'e + ustr) \<Rightarrow> (ustr \<Rightarrow> ustr \<Rightarrow> 'b \<Rightarrow> 'e + 'b) \<Rightarrow> ustr list \<Rightarrow> 'b \<Rightarrow> (ustr \<times> 'e) + 'b" where
  "load_policies_loop read parse [] parser = Inr parser"
| "load_policies_loop read parse (policy_path # policy_paths) parser =
     bindE (map_errE (Pair (lit ''failed to read policy at '' @ policy_path)) (read policy_path)) (\<lambda>contents.
     bindE (map_errE (Pair (lit ''failed to parse policy at '' @ policy_path)) (parse policy_path contents parser))
       (load_policies_loop read parse policy_paths))"

definition load_policies ::
  "('m, prefix_rule) multimap_ops \<Rightarrow> (ustr \<Rightarrow> 'e + ustr) \<Rightarrow>
    (ustr \<Rightarrow> ustr \<Rightarrow> 'm policy_builder \<Rightarrow> 'e + 'm policy_builder) \<Rightarrow> ustr list \<Rightarrow>
    (ustr \<times> 'e) + 'm policy" where
  "load_policies mm read parse policy_paths =
     bindE (load_policies_loop read parse policy_paths (builder_new mm)) (\<lambda>parser. Inr (build parser))"

text \<open>The output of the check command before JSON rendering.\<close>

record check_output =
  out_matched_rules :: "rule_match list"
  out_decision :: "decision option"

definition format_matches :: "rule_match list \<Rightarrow> check_output" where
  "format_matches matched_rules =
     \<lparr>out_matched_rules = matched_rules, out_decision = max_decision matched_rules\<rparr>"

definition run_check ::
  "('m, prefix_rule) multimap_ops \<Rightarrow> (ustr \<Rightarrow> 'e + ustr) \<Rightarrow>
    (ustr \<Rightarrow> ustr \<Rightarrow> 'm policy_builder \<Rightarrow> 'e + 'm policy_builder) \<Rightarrow> ustr list \<Rightarrow> ustr list \<Rightarrow>
    (ustr \<times> 'e) + check_output" where
  "run_check mm read parse rules command =
     bindE (load_policies mm read parse rules)
       (\<lambda>policy. Inr (format_matches (matches_for_command mm policy command None)))"

section \<open>Amending a rules file\<close>

datatype 'e amend_error =
    EmptyPrefix
  | MissingParent ustr
  | CreatePolicyDir path 'e
  | SerializePrefix 'e
  | OpenPolicyFile ustr 'e
  | WritePolicyFile ustr 'e
  | LockPolicyFile ustr 'e
  | SeekPolicyFile ustr 'e
  | ReadPolicyFile ustr 'e
  | PolicyMetadata ustr 'e

text \<open>
  The outcome of each system call the append makes, in the order it makes them; the file is
  locked while it is read and written, so the text read is the file's. \<open>io_json\<close> is
  \<open>serde_json::to_string\<close> of a string.
\<close>

record 'e amend_io =
  io_json :: "ustr \<Rightarrow> 'e + ustr"
  io_create_dir :: "path \<Rightarrow> 'e + unit"
  io_already_exists :: "'e \<Rightarrow> bool"
  io_open :: "'e + unit"
  io_lock :: "'e + unit"
  io_seek :: "'e + unit"
  io_read :: "'e + ustr"
  io_write_newline :: "'e + unit"
  io_write_line :: "'e + unit"

text \<open>The result and the bytes the calls append to the file.\<close>

definition append_locked_line ::
  "'e amend_io \<Rightarrow> ustr \<Rightarrow> ustr \<Rightarrow> ('e amend_error + unit) \<times> ustr" where
  "append_locked_line io policy_path line =
     (case bindE (map_errE (OpenPolicyFile policy_path) (io_open io)) (\<lambda>_.
           bindE (map_errE (LockPolicyFile policy_path) (io_lock io)) (\<lambda>_.
           bindE (map_errE (SeekPolicyFile policy_path) (io_seek io)) (\<lambda>_.
           map_errE (ReadPolicyFile policy_path) (io_read io)))) of
        Inl e \<Rightarrow> (Inl e, [])
      | Inr contents \<Rightarrow>
          if list_ex (\<lambda>existing. existing = line) (str_lines contents) then (Inr (), [])
          else
            let needs_newline = contents \<noteq> [] \<and> \<not> ends_with contents newline
            in case (if needs_newline then io_write_newline io else Inr ()) of
                 Inl e \<Rightarrow> (Inl (WritePolicyFile policy_path e), [])
               | Inr _ \<Rightarrow>
                   let written = (if needs_newline then newline else [])
                   in case io_write_line io of
                        Inl e \<Rightarrow> (Inl (WritePolicyFile policy_path e), written)
                      | Inr _ \<Rightarrow> (Inr (), written @ line @ newline))"

definition amend_rule_line :: "ustr list \<Rightarrow> ustr" where
  "amend_rule_line tokens =
     lit ''prefix_rule(pattern='' @ (lit ''['' @ join_with (lit '', '') tokens @ lit '']'') @
     lit '', decision='' @ [34] @ lit ''allow'' @ [34] @ lit '')''"

definition blocking_append_allow_prefix_rule ::
  "'e amend_io \<Rightarrow> ustr \<Rightarrow> ustr list \<Rightarrow> ('e amend_error + unit) \<times> ustr" where
  "blocking_append_allow_prefix_rule io policy_path pfx =
     (if pfx = [] then (Inl EmptyPrefix, [])
      else case map_errE SerializePrefix (traverseE (io_json io) pfx) of
             Inl e \<Rightarrow> (Inl e, [])
           | Inr tokens \<Rightarrow>
               (case parent (components policy_path) of
                  None \<Rightarrow> (Inl (MissingParent policy_path), [])
                | Some dir \<Rightarrow>
                    (case io_create_dir io dir of
                       Inl e \<Rightarrow> if io_already_exists io e
                                then append_locked_line io policy_path (amend_rule_line tokens)
                                else (Inl (CreatePolicyDir dir e), [])
                     | Inr _ \<Rightarrow> append_locked_line io policy_path (amend_rule_line tokens))))"

subsection \<open>The file after an append\<close>

lemma str_lines_append_line:
  assumes "10 \<notin> set line" and "\<not> ends_with line [13]" and "\<not> ends_with contents [13]"
  shows "str_lines (contents @ (if contents \<noteq> [] \<and> \<not> ends_with contents newline then newline else []) @
           line @ newline) = str_lines contents @ [line]"
proof -
  have one: "str_lines (line @ newline) = [line]"
    using assms(1,2) str_lines_append_newline [of line "[]"]
    by (simp add: split_on_no_sep strip_cr_eq_self)
  consider "contents = []" | s where "contents = s @ newline"
    | "contents \<noteq> []" "\<not> ends_with contents newline"
    by (auto simp: ends_with_iff)
  then show ?thesis
  proof cases
    case 1
    with one show ?thesis by simp
  next
    case (2 s)
    with one str_lines_append_newline [of s "line @ newline"] str_lines_append_newline [of s "[]"]
    show ?thesis by (simp add: ends_with_iff)
  next
    case 3
    then have "last contents \<noteq> 10" "last contents \<noteq> 13"
      using assms(3) by (metis append_butlast_last_id ends_with_iff)+
    with 3 one str_lines_append_newline [of contents "line @ newline"]
    show ?thesis by (simp add: map_strip_cr_split)
  qed
qed

text \<open>A successful append leaves the rules file with the rule as one of its lines:
  the file is untouched when it was there already and has exactly this line added at its end
  otherwise, never joined to an unterminated last line; appending once more changes nothing.\<close>

theorem append_locked_line_adds_one_line:
  assumes ok: "append_locked_line io p line = (Inr (), out)" and read: "io_read io = Inr contents"
    and line: "10 \<notin> set line" "\<not> ends_with line [13]" and cr: "\<not> ends_with contents [13]"
  shows "line \<in> set (str_lines (contents @ out)) \<and>
    str_lines (contents @ out) =
      (if line \<in> set (str_lines contents) then str_lines contents else str_lines contents @ [line]) \<and>
    append_locked_line (io\<lparr>io_read := Inr (contents @ out)\<rparr>) p line = (Inr (), [])"
proof -
  have oks: "io_open io = Inr ()" "io_lock io = Inr ()" "io_seek io = Inr ()"
    using ok by (cases "io_open io"; cases "io_lock io"; cases "io_seek io";
        simp add: append_locked_line_def)+
  have lines: "str_lines (contents @ out) =
      (if line \<in> set (str_lines contents) then str_lines contents else str_lines contents @ [line])"
  proof (cases "line \<in> set (str_lines contents)")
    case True
    with ok read oks show ?thesis by (auto simp: append_locked_line_def list_ex_iff)
  next
    case False
    with ok read oks have "out =
        (if contents \<noteq> [] \<and> \<not> ends_with contents newline then newline else []) @ line @ newline"
      by (auto simp: append_locked_line_def list_ex_iff Let_def split: sum.splits if_splits)
    with False str_lines_append_line [OF line cr] show ?thesis by simp
  qed
  then have "line \<in> set (str_lines (contents @ out))" by simp
  with lines oks show ?thesis
    by (auto simp: append_locked_line_def list_ex_iff)
qed

theorem append_locked_line_adds_one_line_witness:
  "let io = \<lparr>io_json = (\<lambda>s. Inr s), io_create_dir = (\<lambda>_. Inr ()), io_already_exists = (\<lambda>_. True),
             io_open = Inr (), io_lock = Inr (), io_seek = Inr (), io_read = Inr (lit ''ab''),
             io_write_newline = Inr (), io_write_line = Inr ()\<rparr> :: unit amend_io
   in append_locked_line io (lit ''r'') (lit ''cd'') = (Inr (), newline @ lit ''cd'' @ newline) \<and>
      lit ''cd'' \<in> set (str_lines (lit ''ab'' @ newline @ lit ''cd'' @ newline))"
proof -
  let ?io = "\<lparr>io_json = (\<lambda>s. Inr s), io_create_dir = (\<lambda>_. Inr ()), io_already_exists = (\<lambda>_. True),
             io_open = Inr (), io_lock = Inr (), io_seek = Inr (), io_read = Inr (lit ''ab''),
             io_write_newline = Inr (), io_write_line = Inr ()\<rparr> :: unit amend_io"
  have ok: "append_locked_line ?io (lit ''r'') (lit ''cd'') = (Inr (), newline @ lit ''cd'' @ newline)"
    by (simp add: append_locked_line_def str_ops Let_def)
  have "lit ''cd'' \<in> set (str_lines (lit ''ab'' @ newline @ lit ''cd'' @ newline))"
    using append_locked_line_adds_one_line [OF ok, of "lit ''ab''"] by (simp add: str_ops)
  with ok show ?thesis by simp
qed

end
