(* ===== verification/ShellParse.thy ===== *)
theory ShellParse
  imports Paths "HOL-Library.Multiset"
begin

text \<open>
  Shell scripts passed to \<open>bash -lc\<close> (\<open>shell-command/src/bash.rs\<close> and
  \<open>shell_detect.rs\<close>). The tree-sitter parser is a parameter, \<open>ts_parse\<close>; a syntax
  tree is what the sources read of it: each node's kind, whether it is named, the byte it
  starts at, its source text (\<open>None\<close> where \<open>utf8_text\<close> fails) and its children.
\<close>

datatype shell_type = Zsh | Bash | PowerShell | Sh | Cmd

function detect_shell_type :: "ustr \<Rightarrow> shell_type option" where
  "detect_shell_type shell_path =
     (if shell_path = lit ''zsh'' then Some Zsh
      else if shell_path = lit ''sh'' then Some Sh
      else if shell_path = lit ''cmd'' then Some Cmd
      else if shell_path = lit ''bash'' then Some Bash
      else if shell_path = lit ''pwsh'' then Some PowerShell
      else if shell_path = lit ''powershell'' then Some PowerShell
      else (case file_stem shell_path of
              Some shell_name \<Rightarrow>
                if components shell_name \<noteq> components shell_path then detect_shell_type shell_name else None
            | None \<Rightarrow> None))"
  by pat_completeness auto
termination
  by (relation "measure length") (auto dest: file_stem_shorter)

declare detect_shell_type.simps [simp del]

section \<open>Syntax trees\<close>

datatype ts_node =
  Node (kind: ustr) (named: bool) (start_byte: nat) (utf8_text: "ustr option") (children: "ts_node list")

record ts_tree =
  root_node :: ts_node
  has_error :: bool

definition named_children :: "ts_node \<Rightarrow> ts_node list" where
  "named_children n = filter named (children n)"

definition named_child0 :: "ts_node \<Rightarrow> ts_node option" where
  "named_child0 n = (case named_children n of [] \<Rightarrow> None | c # _ \<Rightarrow> Some c)"

fun node_count :: "ts_node \<Rightarrow> nat" where
  "node_count (Node k nm s t cs) = Suc (sum_list (map node_count cs))"

fun all_nodes :: "ts_node \<Rightarrow> ts_node list" where
  "all_nodes (Node k nm s t cs) = Node k nm s t cs # concat (map all_nodes cs)"

lemma sum_list_filter_le: "sum_list (map f (filter P xs)) \<le> sum_list (map f (xs :: 'a list) :: nat list)"
  by (induction xs) auto

lemma node_count_children [simp]: "sum_list (map node_count (children n)) < node_count n"
  by (cases n) auto

lemma node_count_named_children [simp]: "sum_list (map node_count (named_children n)) < node_count n"
  unfolding named_children_def by (rule le_less_trans [OF sum_list_filter_le node_count_children])

definition allowed_kinds :: "ustr list" where
  "allowed_kinds = map lit
     [''program'', ''list'', ''pipeline'',
      ''command'', ''command_name'', ''word'', ''string'', ''string_content'', ''raw_string'',
      ''number'', ''concatenation'']"

definition allowed_punct_tokens :: "ustr list" where
  "allowed_punct_tokens = map lit [''&&'', ''||'', '';'', ''|'', [CHR 34], [CHR 39]]"

text \<open>The test the walk makes of one node; \<open>False\<close> is an early \<open>return None\<close>.\<close>

definition node_allowed :: "ts_node \<Rightarrow> bool" where
  "node_allowed n \<longleftrightarrow>
     (if named n then kind n \<in> set allowed_kinds
      else if list_ex (\<lambda>c. c \<in> set (lit ''&;|'')) (kind n) \<and> kind n \<notin> set allowed_punct_tokens then False
      else kind n \<in> set allowed_punct_tokens \<or> trim (kind n) = [])"

text \<open>The loop over the explicit stack, whose top is the head of the list: children are
  pushed in order, so the last is visited first.\<close>

function walk_nodes :: "ts_node list \<Rightarrow> ts_node list \<Rightarrow> ts_node list option" where
  "walk_nodes [] command_nodes = Some command_nodes"
| "walk_nodes (n # stack) command_nodes =
     (if \<not> node_allowed n then None
      else walk_nodes (rev (children n) @ stack)
             (if named n \<and> kind n = lit ''command'' then command_nodes @ [n] else command_nodes))"
  by pat_completeness auto
termination
proof (relation "measure (\<lambda>(stack, _). sum_list (map node_count stack))")
  fix n stack command_nodes
  show "((rev (children n) @ stack,
          if named n \<and> kind n = lit ''command'' then command_nodes @ [n] else command_nodes),
         n # stack, command_nodes) \<in> measure (\<lambda>(stack, _). sum_list (map node_count stack))"
    using node_count_children [of n] by (simp flip: rev_map add: sum_list_rev)
qed simp

section \<open>Words of a command\<close>

definition parse_double_quoted_string :: "ts_node \<Rightarrow> ustr option" where
  "parse_double_quoted_string node =
     (if kind node \<noteq> lit ''string'' then None
      else if list_ex (\<lambda>part. kind part \<noteq> lit ''string_content'') (named_children node) then None
      else Option.bind (utf8_text node) (\<lambda>raw.
           Option.bind (strip_prefix raw [34]) (\<lambda>text. strip_suffix text [34])))"

definition parse_raw_string :: "ts_node \<Rightarrow> ustr option" where
  "parse_raw_string node =
     (if kind node \<noteq> lit ''raw_string'' then None
      else Option.bind (utf8_text node) (\<lambda>raw_string.
           Option.bind (strip_prefix raw_string [39]) (\<lambda>s. strip_suffix s [39])))"

definition concatenation_part :: "ts_node \<Rightarrow> ustr option" where
  "concatenation_part part =
     (if kind part = lit ''word'' \<or> kind part = lit ''number'' then utf8_text part
      else if kind part = lit ''string'' then parse_double_quoted_string part
      else if kind part = lit ''raw_string'' then parse_raw_string part
      else None)"

fun concatenation_text :: "ts_node list \<Rightarrow> ustr option" where
  "concatenation_text [] = Some []"
| "concatenation_text (part # parts) =
     Option.bind (concatenation_part part) (\<lambda>s. map_option (\<lambda>rest. s @ rest) (concatenation_text parts))"

definition plain_word :: "ts_node \<Rightarrow> ustr option" where
  "plain_word child =
     (if kind child = lit ''command_name'' then
        Option.bind (named_child0 child) (\<lambda>word_node.
          if kind word_node \<noteq> lit ''word'' then None else utf8_text word_node)
      else if kind child = lit ''word'' \<or> kind child = lit ''number'' then utf8_text child
      else if kind child = lit ''string'' then parse_double_quoted_string child
      else if kind child = lit ''raw_string'' then parse_raw_string child
      else if kind child = lit ''concatenation'' then
        Option.bind (concatenation_text (named_children child)) (\<lambda>concatenated.
          if concatenated = [] then None else Some concatenated)
      else None)"

fun traverseO :: "('a \<Rightarrow> 'b option) \<Rightarrow> 'a list \<Rightarrow> 'b list option" where
  "traverseO f [] = Some []"
| "traverseO f (x # xs) = Option.bind (f x) (\<lambda>y. map_option (\<lambda>ys. y # ys) (traverseO f xs))"

definition parse_plain_command_from_node :: "ts_node \<Rightarrow> ustr list option" where
  "parse_plain_command_from_node cmd =
     (if kind cmd \<noteq> lit ''command'' then None else traverseO plain_word (named_children cmd))"

definition try_parse_word_only_commands_sequence :: "ts_tree \<Rightarrow> ustr list list option" where
  "try_parse_word_only_commands_sequence tree =
     (if has_error tree then None
      else Option.bind (walk_nodes [root_node tree] []) (\<lambda>command_nodes.
             traverseO parse_plain_command_from_node (sort_key start_byte command_nodes)))"

section \<open>Shell invocations\<close>

definition extract_bash_command :: "ustr list \<Rightarrow> (ustr \<times> ustr) option" where
  "extract_bash_command command =
     (case command of
        [shell, flag, script] \<Rightarrow>
          if \<not> (flag = lit ''-lc'' \<or> flag = lit ''-c'') \<or>
             detect_shell_type shell \<notin> {Some Zsh, Some Bash, Some Sh}
          then None else Some (shell, script)
      | _ \<Rightarrow> None)"

definition parse_shell_lc_plain_commands ::
  "(ustr \<Rightarrow> ts_tree option) \<Rightarrow> ustr list \<Rightarrow> ustr list list option" where
  "parse_shell_lc_plain_commands ts_parse command =
     Option.bind (extract_bash_command command) (\<lambda>(_, script).
     Option.bind (ts_parse script) try_parse_word_only_commands_sequence)"

definition is_literal_word_or_number :: "ts_node \<Rightarrow> bool" where
  "is_literal_word_or_number node \<longleftrightarrow>
     (if \<not> (kind node = lit ''word'' \<or> kind node = lit ''number'') then False
      else named_children node = [])"

definition is_allowed_heredoc_attachment_kind :: "ustr \<Rightarrow> bool" where
  "is_allowed_heredoc_attachment_kind k \<longleftrightarrow>
     k \<in> set (map lit [''heredoc_body'', ''simple_heredoc_body'', ''heredoc_redirect'',
                       ''herestring_redirect'', ''file_redirect'', ''redirected_statement''])"

text \<open>One child of a heredoc command: \<open>None\<close> rejects the command, \<open>Some None\<close> skips the
  child.\<close>

definition heredoc_word :: "ts_node \<Rightarrow> ustr option option" where
  "heredoc_word child =
     (if kind child = lit ''command_name'' then
        Option.bind (named_child0 child) (\<lambda>word_node.
          if \<not> (kind word_node = lit ''word'' \<or> kind word_node = lit ''number'') \<or>
             \<not> is_literal_word_or_number word_node
          then None else map_option Some (utf8_text word_node))
      else if kind child = lit ''word'' \<or> kind child = lit ''number'' then
        (if \<not> is_literal_word_or_number child then None else map_option Some (utf8_text child))
      else if kind child = lit ''variable_assignment'' \<or> kind child = lit ''comment'' then Some None
      else if is_allowed_heredoc_attachment_kind (kind child) then Some None
      else None)"

definition parse_heredoc_command_words :: "ts_node \<Rightarrow> ustr list option" where
  "parse_heredoc_command_words cmd =
     (if kind cmd \<noteq> lit ''command'' then None
      else Option.bind (traverseO heredoc_word (named_children cmd)) (\<lambda>ws.
             let words = List.map_filter (\<lambda>w. w) ws
             in if words = [] then None else Some words))"

function has_named_descendant_loop :: "ts_node list \<Rightarrow> ustr \<Rightarrow> bool" where
  "has_named_descendant_loop [] k = False"
| "has_named_descendant_loop (current # stack) k =
     (if kind current = k then True
      else has_named_descendant_loop (rev (named_children current) @ stack) k)"
  by pat_completeness auto
termination
proof (relation "measure (\<lambda>(stack, _). sum_list (map node_count stack))")
  fix n :: ts_node and stack and k :: ustr
  show "((rev (named_children n) @ stack, k), n # stack, k)
      \<in> measure (\<lambda>(stack, _). sum_list (map node_count stack))"
    using node_count_named_children [of n] by (simp flip: rev_map add: sum_list_rev)
qed simp

definition has_named_descendant_kind :: "ts_node \<Rightarrow> ustr \<Rightarrow> bool" where
  "has_named_descendant_kind node k = has_named_descendant_loop [node] k"

function find_single_command_loop :: "ts_node list \<Rightarrow> ts_node option \<Rightarrow> ts_node option" where
  "find_single_command_loop [] single_command = single_command"
| "find_single_command_loop (n # stack) single_command =
     (if kind n = lit ''command'' \<and> single_command \<noteq> None then None
      else find_single_command_loop (rev (named_children n) @ stack)
             (if kind n = lit ''command'' then Some n else single_command))"
  by pat_completeness auto
termination
proof (relation "measure (\<lambda>(stack, _). sum_list (map node_count stack))")
  fix n :: ts_node and stack and s :: "ts_node option"
  show "((rev (named_children n) @ stack, if kind n = lit ''command'' then Some n else s), n # stack, s)
      \<in> measure (\<lambda>(stack, _). sum_list (map node_count stack))"
    using node_count_named_children [of n] by (simp flip: rev_map add: sum_list_rev)
qed simp

definition find_single_command_node :: "ts_node \<Rightarrow> ts_node option" where
  "find_single_command_node root = find_single_command_loop [root] None"

definition parse_shell_lc_single_command_prefix ::
  "(ustr \<Rightarrow> ts_tree option) \<Rightarrow> ustr list \<Rightarrow> ustr list option" where
  "parse_shell_lc_single_command_prefix ts_parse command =
     Option.bind (extract_bash_command command) (\<lambda>(_, script).
     Option.bind (ts_parse script) (\<lambda>tree.
       if has_error tree then None
       else if \<not> has_named_descendant_kind (root_node tree) (lit ''heredoc_redirect'') then None
       else Option.bind (find_single_command_node (root_node tree)) parse_heredoc_command_words))"

section \<open>What an accepted script contains\<close>

definition is_command_node :: "ts_node \<Rightarrow> bool" where
  "is_command_node n \<longleftrightarrow> named n \<and> kind n = lit ''command''"

lemma all_nodes_unfold: "all_nodes n = n # concat (map all_nodes (children n))"
  by (cases n) simp

lemma mset_concat_rev: "mset (concat (map f (rev xs))) = mset (concat (map f xs))"
  by (induction xs) auto

lemma walk_nodes_SomeD:
  "walk_nodes stack acc = Some r \<Longrightarrow>
     (\<forall>n \<in> set (concat (map all_nodes stack)). node_allowed n) \<and>
     mset r = mset acc + mset (filter is_command_node (concat (map all_nodes stack)))"
proof (induction stack acc arbitrary: r rule: walk_nodes.induct)
  case (2 n stack acc)
  from "2.prems" have ok: "node_allowed n"
    by (auto split: if_splits)
  note ih = "2.IH" [OF _ , of r]
  let ?acc = "if is_command_node n then acc @ [n] else acc"
  from "2.prems" ok have "walk_nodes (rev (children n) @ stack) ?acc = Some r"
    by (simp add: is_command_node_def)
  with "2.IH" ok have
    "(\<forall>n \<in> set (concat (map all_nodes (rev (children n) @ stack))). node_allowed n) \<and>
     mset r = mset ?acc + mset (filter is_command_node (concat (map all_nodes (rev (children n) @ stack))))"
    by (simp add: is_command_node_def)
  with ok show ?case
    by (simp add: all_nodes_unfold [of n] mset_concat_rev mset_filter ac_simps)
qed simp

lemma traverseO_eq_Some_iff: "traverseO f xs = Some ys \<longleftrightarrow> list_all2 (\<lambda>x y. f x = Some y) xs ys"
proof (induction xs arbitrary: ys)
  case (Cons x xs)
  then show ?case by (cases ys) (auto simp: bind_eq_Some_conv)
qed auto

text \<open>C35: A script is split into plain commands only if its syntax tree has no error and
  holds nothing but the allowed nodes (no redirection, substitution, parenthesis, background
  or control flow anywhere in it); every command node of the tree then yields exactly one
  argument vector, in source order.\<close>

theorem word_only_sequence_safe:
  assumes "try_parse_word_only_commands_sequence tree = Some commands"
  shows "\<not> has_error tree \<and> (\<forall>n \<in> set (all_nodes (root_node tree)). node_allowed n) \<and>
    (\<exists>ns. mset ns = mset (filter is_command_node (all_nodes (root_node tree))) \<and>
          sorted (map start_byte ns) \<and>
          list_all2 (\<lambda>n words. parse_plain_command_from_node n = Some words) ns commands)"
proof -
  from assms obtain command_nodes where err: "\<not> has_error tree"
    and walk: "walk_nodes [root_node tree] [] = Some command_nodes"
    and words: "traverseO parse_plain_command_from_node (sort_key start_byte command_nodes) = Some commands"
    by (auto simp: try_parse_word_only_commands_sequence_def bind_eq_Some_conv split: if_splits)
  let ?ns = "sort_key start_byte command_nodes"
  from walk_nodes_SomeD [OF walk]
  have "\<forall>n \<in> set (all_nodes (root_node tree)). node_allowed n"
    and "mset ?ns = mset (filter is_command_node (all_nodes (root_node tree)))"
    by auto
  with err words show ?thesis
    by (auto simp: traverseO_eq_Some_iff intro!: exI [of _ ?ns])
qed

text \<open>The tree of the script \<open>ls\<close>.\<close>

definition sample_tree :: ts_tree where
  "sample_tree =
     (let word = Node (lit ''word'') True 0 (Some (lit ''ls'')) [];
          name = Node (lit ''command_name'') True 0 (Some (lit ''ls'')) [word];
          cmd = Node (lit ''command'') True 0 (Some (lit ''ls'')) [name]
      in \<lparr>root_node = Node (lit ''program'') True 0 (Some (lit ''ls'')) [cmd], has_error = False\<rparr>)"

lemma sample_tree_commands: "try_parse_word_only_commands_sequence sample_tree = Some [[lit ''ls'']]"
  by (simp add: try_parse_word_only_commands_sequence_def sample_tree_def Let_def node_allowed_def
      allowed_kinds_def parse_plain_command_from_node_def named_children_def plain_word_def
      named_child0_def)

theorem word_only_sequence_safe_witness:
  "try_parse_word_only_commands_sequence sample_tree = Some [[lit ''ls'']] \<and> \<not> has_error sample_tree"
  using word_only_sequence_safe [OF sample_tree_commands] sample_tree_commands by simp

text \<open>A script that is not an invocation \<open>[shell, -lc or -c, script]\<close> of a shell
  detected as zsh, bash or sh is never looked into.\<close>

theorem plain_commands_need_shell:
  assumes "parse_shell_lc_plain_commands ts_parse command = Some commands \<or>
           parse_shell_lc_single_command_prefix ts_parse command = Some prefix_words"
  shows "\<exists>shell flag script. command = [shell, flag, script] \<and> flag \<in> {lit ''-lc'', lit ''-c''} \<and>
    detect_shell_type shell \<in> {Some Zsh, Some Bash, Some Sh} \<and> ts_parse script \<noteq> None"
  using assms
  by (auto simp: parse_shell_lc_plain_commands_def parse_shell_lc_single_command_prefix_def
      extract_bash_command_def bind_eq_Some_conv split: list.splits if_splits)

lemma bash_ls_commands:
  "parse_shell_lc_plain_commands (\<lambda>_. Some sample_tree) [lit ''bash'', lit ''-lc'', lit ''ls''] = Some [[lit ''ls'']]"
  by (simp add: parse_shell_lc_plain_commands_def extract_bash_command_def detect_shell_type.simps
      sample_tree_commands)

theorem plain_commands_need_shell_witness:
  "\<exists>shell flag script. [lit ''bash'', lit ''-lc'', lit ''ls''] = [shell, flag, script] \<and>
     detect_shell_type shell \<in> {Some Zsh, Some Bash, Some Sh}"
  using plain_commands_need_shell [OF disjI1 [OF bash_ls_commands]] by blast

end
