(* ===== verification/PowershellSafety.thy ===== *)
theory PowershellSafety
  imports Paths
begin

text \<open>
  The PowerShell safelist (\<open>command_safety/windows_safe_commands.rs\<close>). The PowerShell
  process that parses a script is a parameter: \<open>ps_run\<close> is the standard output of a
  successful run of an executable on an encoded script, \<open>ps_json\<close> the deserialisation of
  that output, \<open>base64\<close> the third-party encoder.
\<close>

datatype powershell_parse_outcome = Commands "ustr list list" | Unsupported | Failed

record powershell_parser_output =
  ps_status :: ustr
  ps_commands :: "ustr list list option"

text \<open>\<open>str::encode_utf16\<close> and the little-endian bytes of the units.\<close>

definition encode_utf16_char :: "nat \<Rightarrow> nat list" where
  "encode_utf16_char c =
     (if c < 65536 then [c]
      else [55296 + (c - 65536) div 1024, 56320 + (c - 65536) mod 1024])"

definition encode_powershell_base64 :: "(nat list \<Rightarrow> ustr) \<Rightarrow> ustr \<Rightarrow> ustr" where
  "encode_powershell_base64 base64 script =
     base64 (concat (map (\<lambda>unit. [unit mod 256, unit div 256]) (concat (map encode_utf16_char script))))"

definition into_outcome :: "powershell_parser_output \<Rightarrow> powershell_parse_outcome" where
  "into_outcome out =
     (if ps_status out = lit ''ok'' then
        (case ps_commands out of
           Some commands \<Rightarrow>
             if commands \<noteq> [] \<and> list_all (\<lambda>cmd. cmd \<noteq> [] \<and> list_all (\<lambda>word. word \<noteq> []) cmd) commands
             then Commands commands else Unsupported
         | None \<Rightarrow> Unsupported)
      else if ps_status out = lit ''unsupported'' then Unsupported
      else Failed)"

record ps_env =
  ps_base64 :: "nat list \<Rightarrow> ustr"
  ps_run :: "ustr \<Rightarrow> ustr \<Rightarrow> nat list option"
  ps_json :: "nat list \<Rightarrow> powershell_parser_output option"

definition parse_with_powershell_ast :: "ps_env \<Rightarrow> ustr \<Rightarrow> ustr \<Rightarrow> powershell_parse_outcome" where
  "parse_with_powershell_ast env executable script =
     (case ps_run env executable (encode_powershell_base64 (ps_base64 env) script) of
        Some stdout \<Rightarrow> (case ps_json env stdout of Some result \<Rightarrow> into_outcome result | None \<Rightarrow> Failed)
      | None \<Rightarrow> Failed)"

definition parse_powershell_script :: "ps_env \<Rightarrow> ustr \<Rightarrow> ustr \<Rightarrow> ustr list list option" where
  "parse_powershell_script env executable script =
     (case parse_with_powershell_ast env executable script of
        Commands commands \<Rightarrow> Some commands | _ \<Rightarrow> None)"

fun replace_quote :: "ustr \<Rightarrow> ustr" where
  "replace_quote [] = []"
| "replace_quote (c # cs) = (if c = 39 then [39, 39] else [c]) @ replace_quote cs"

definition quote_argument :: "ustr \<Rightarrow> ustr" where
  "quote_argument arg =
     (if arg = [] then [39, 39]
      else if list_all (\<lambda>ch. \<not> is_whitespace ch) arg then arg
      else [39] @ replace_quote arg @ [39])"

definition join_arguments_as_script :: "ustr list \<Rightarrow> ustr" where
  "join_arguments_as_script args =
     join_with (lit '' '') (case args of [] \<Rightarrow> [] | first # rest \<Rightarrow> first # map quote_argument rest)"

text \<open>The loop over the arguments of the invocation; the recursion passes the remaining
  ones, so \<open>idx + 2 = args.len()\<close> is a list of length two.\<close>

fun powershell_args :: "ps_env \<Rightarrow> ustr \<Rightarrow> ustr list \<Rightarrow> ustr list list option" where
  "powershell_args env executable [] = None"
| "powershell_args env executable (arg # rest) =
     (let lower = to_ascii_lowercase arg
      in if lower \<in> set (map lit [''-command'', ''/command'', ''-c'']) then
           (case rest of
              [script] \<Rightarrow> parse_powershell_script env executable script
            | _ \<Rightarrow> None)
         else if starts_with lower (lit ''-command:'') \<or> starts_with lower (lit ''/command:'') then
           (if rest \<noteq> [] then None
            else Option.bind (split_once 58 arg) (\<lambda>(_, script). parse_powershell_script env executable script))
         else if lower \<in> set (map lit [''-nologo'', ''-noprofile'', ''-noninteractive'', ''-mta'', ''-sta'']) then
           powershell_args env executable rest
         else if lower \<in> set (map lit [''-encodedcommand'', ''-ec'', ''-file'', ''/file'',
                  ''-windowstyle'', ''-executionpolicy'', ''-workingdirectory'']) then None
         else if starts_with lower (lit ''-'') then None
         else parse_powershell_script env executable (join_arguments_as_script (arg # rest)))"

definition parse_powershell_invocation :: "ps_env \<Rightarrow> ustr \<Rightarrow> ustr list \<Rightarrow> ustr list list option" where
  "parse_powershell_invocation env executable args =
     (if args = [] then None else powershell_args env executable args)"

definition is_powershell_executable :: "ustr \<Rightarrow> bool" where
  "is_powershell_executable exe \<longleftrightarrow>
     to_ascii_lowercase (case file_name exe of Some n \<Rightarrow> n | None \<Rightarrow> exe)
       \<in> set (map lit [''powershell'', ''powershell.exe'', ''pwsh'', ''pwsh.exe''])"

definition try_parse_powershell_command_sequence :: "ps_env \<Rightarrow> ustr list \<Rightarrow> ustr list list option" where
  "try_parse_powershell_command_sequence env command =
     (case command of
        [] \<Rightarrow> None
      | exe # rest \<Rightarrow> if is_powershell_executable exe then parse_powershell_invocation env exe rest else None)"

section \<open>The safelist\<close>

definition is_safe_ripgrep :: "ustr list \<Rightarrow> bool" where
  "is_safe_ripgrep words \<longleftrightarrow>
     \<not> list_ex (\<lambda>arg.
         let arg_lc = to_ascii_lowercase arg
         in arg_lc \<in> set (map lit [''--search-zip'', ''-z'']) \<or>
            list_ex (\<lambda>opt. arg_lc = opt \<or> starts_with arg_lc (opt @ lit ''='')) (map lit [''--pre'', ''--hostname-bin'']))
       (drop 1 words)"

fun safe_git_args :: "ustr list \<Rightarrow> bool" where
  "safe_git_args [] = False"
| "safe_git_args (arg # rest) =
     (let arg_lc = to_ascii_lowercase arg
      in if starts_with arg (lit ''-'') then
           (if arg_lc = lit ''-c'' \<or> arg_lc = lit ''--config'' then
              (case rest of [] \<Rightarrow> False | _ # rest' \<Rightarrow> safe_git_args rest')
            else if list_ex (starts_with arg_lc)
                      (map lit [''-c='', ''--config='', ''--git-dir='', ''--work-tree='']) then safe_git_args rest
            else if arg_lc = lit ''--git-dir'' \<or> arg_lc = lit ''--work-tree'' then
              (case rest of [] \<Rightarrow> False | _ # rest' \<Rightarrow> safe_git_args rest')
            else safe_git_args rest)
         else arg_lc \<in> set (map lit [''status'', ''log'', ''show'', ''diff'', ''cat-file'']))"

definition is_safe_git_command :: "ustr list \<Rightarrow> bool" where
  "is_safe_git_command words = safe_git_args (drop 1 words)"

definition side_effect_cmdlets :: "ustr list" where
  "side_effect_cmdlets = map lit
     [''set-content'', ''add-content'', ''out-file'', ''new-item'', ''remove-item'', ''move-item'',
      ''copy-item'', ''rename-item'', ''start-process'', ''stop-process'']"

definition cmdlet_name :: "ustr \<Rightarrow> ustr" where
  "cmdlet_name w =
     to_ascii_lowercase
       (trim_start_by (\<lambda>c. c = 45)
         (trim_start_by (\<lambda>c. c = 40 \<or> c = 41) (trim_end_by (\<lambda>c. c = 40 \<or> c = 41) w)))"

definition safe_cmdlets :: "ustr list" where
  "safe_cmdlets = map lit
     [''echo'', ''write-output'', ''write-host'',
      ''dir'', ''ls'', ''get-childitem'', ''gci'',
      ''cat'', ''type'', ''gc'', ''get-content'',
      ''select-string'', ''sls'', ''findstr'',
      ''measure-object'', ''measure'',
      ''get-location'', ''gl'', ''pwd'',
      ''test-path'', ''tp'', ''resolve-path'', ''rvpa'',
      ''select-object'', ''select'', ''get-item'']"

definition is_safe_powershell_command :: "ustr list \<Rightarrow> bool" where
  "is_safe_powershell_command words \<longleftrightarrow>
     (if words = [] then False
      else if list_ex (\<lambda>w. cmdlet_name w \<in> set side_effect_cmdlets) words then False
      else
        let command = cmdlet_name (words ! 0)
        in if command \<in> set safe_cmdlets then True
           else if command = lit ''git'' then is_safe_git_command words
           else if command = lit ''rg'' then is_safe_ripgrep words
           else if command \<in> set side_effect_cmdlets then False
           else False)"

lemma is_safe_powershell_commandD:
  assumes "is_safe_powershell_command words"
  shows "words \<noteq> []" and "w \<in> set words \<Longrightarrow> cmdlet_name w \<notin> set side_effect_cmdlets"
  using assms by (auto simp: is_safe_powershell_command_def list_ex_iff split: if_splits)

definition is_safe_command_windows :: "ps_env \<Rightarrow> ustr list \<Rightarrow> bool" where
  "is_safe_command_windows env command \<longleftrightarrow>
     (case try_parse_powershell_command_sequence env command of
        Some commands \<Rightarrow> list_all is_safe_powershell_command commands
      | None \<Rightarrow> False)"

text \<open>A PowerShell invocation is auto-approved only when the parser split it into a
  non-empty list of commands, none of which names a side-effecting cmdlet in any of its
  words, behind parentheses or dashes and in any case.\<close>

theorem safe_powershell_has_no_side_effect_cmdlet:
  assumes "is_safe_command_windows env command"
  shows "\<exists>exe rest commands. command = exe # rest \<and> is_powershell_executable exe \<and>
    parse_powershell_invocation env exe rest = Some commands \<and>
    (\<forall>cmd \<in> set commands. cmd \<noteq> [] \<and> (\<forall>w \<in> set cmd. cmdlet_name w \<notin> set side_effect_cmdlets))"
proof -
  from assms obtain commands where c: "try_parse_powershell_command_sequence env command = Some commands"
    and safe: "list_all is_safe_powershell_command commands"
    by (auto simp: is_safe_command_windows_def split: option.splits)
  from c obtain exe rest where "command = exe # rest" "is_powershell_executable exe"
    "parse_powershell_invocation env exe rest = Some commands"
    by (auto simp: try_parse_powershell_command_sequence_def split: list.splits if_splits)
  moreover have "cmd \<noteq> [] \<and> (\<forall>w \<in> set cmd. cmdlet_name w \<notin> set side_effect_cmdlets)"
    if "cmd \<in> set commands" for cmd
  proof -
    from safe that have "is_safe_powershell_command cmd"
      by (simp add: list_all_iff)
    then show ?thesis
      by (simp add: is_safe_powershell_commandD)
  qed
  ultimately show ?thesis by blast
qed

text \<open>An environment whose PowerShell reports one command for every script.\<close>

definition one_command_env :: "ustr list \<Rightarrow> ps_env" where
  "one_command_env words =
     \<lparr>ps_base64 = (\<lambda>bs. bs), ps_run = (\<lambda>_ _. Some []),
      ps_json = (\<lambda>_. Some \<lparr>ps_status = lit ''ok'', ps_commands = Some [words]\<rparr>)\<rparr>"

lemma pwsh_is_powershell: "is_powershell_executable (lit ''pwsh'')"
  by (simp add: is_powershell_executable_def file_name_def components_def is_absolute_def
      segment_component_def Let_def str_ops)

lemma c_flag_lower: "to_ascii_lowercase (lit ''-c'') = lit ''-c''"
  by (simp add: str_ops)

lemma ls_script_parsed: "parse_powershell_invocation (one_command_env [lit ''ls'']) exe [lit ''-c'', lit ''ls''] =
    Some [[lit ''ls'']]"
  by (simp add: parse_powershell_invocation_def parse_powershell_script_def parse_with_powershell_ast_def
      into_outcome_def one_command_env_def c_flag_lower)

lemma ls_cmdlet: "cmdlet_name (lit ''ls'') = lit ''ls''"
  by (simp add: cmdlet_name_def str_ops)

lemma ls_windows_safe:
  "is_safe_command_windows (one_command_env [lit ''ls'']) [lit ''pwsh'', lit ''-c'', lit ''ls'']"
  by (simp add: is_safe_command_windows_def try_parse_powershell_command_sequence_def pwsh_is_powershell
      ls_script_parsed is_safe_powershell_command_def ls_cmdlet safe_cmdlets_def side_effect_cmdlets_def)

theorem safe_powershell_has_no_side_effect_cmdlet_witness:
  "\<exists>exe rest commands.
     [lit ''pwsh'', lit ''-c'', lit ''ls''] = exe # rest \<and>
     is_powershell_executable exe \<and>
     parse_powershell_invocation (one_command_env [lit ''ls'']) exe rest = Some commands \<and>
     (\<forall>cmd \<in> set commands. cmd \<noteq> [] \<and> (\<forall>w \<in> set cmd. cmdlet_name w \<notin> set side_effect_cmdlets))"
  by (rule safe_powershell_has_no_side_effect_cmdlet [OF ls_windows_safe])

text \<open>A configuration override is skipped with its value, so it does not stop the approval.\<close>

lemma powershell_git_config_override_is_safe:
  "is_safe_git_command [lit ''git'', lit ''-c'', override, lit ''log'']"
proof -
  have "to_ascii_lowercase (lit ''-c'') = lit ''-c''" "to_ascii_lowercase (lit ''log'') = lit ''log''"
    by (simp_all add: to_ascii_lowercase_def ascii_lower_def lit_def)
  moreover have "starts_with (lit ''-c'') (lit ''-'')" "\<not> starts_with (lit ''log'') (lit ''-'')"
    by (simp_all add: starts_with_def lit_def)
  ultimately show ?thesis
    by (simp add: is_safe_git_command_def Let_def)
qed

end
