(* ===== verification/CommandSafety.thy ===== *)
theory CommandSafety
  imports ShellParse PowershellSafety
begin

text \<open>
  The safelist and the danger list of commands (\<open>command_safety/is_safe_command.rs\<close>,
  \<open>is_dangerous_command.rs\<close>), for a Unix build: \<open>linux\<close> is \<open>cfg!(target_os = "linux")\<close>,
  \<open>ts_parse\<close> the tree-sitter parser and \<open>env\<close> the PowerShell process.
\<close>

section \<open>Git subcommands\<close>

definition is_git_global_option_with_value :: "ustr \<Rightarrow> bool" where
  "is_git_global_option_with_value arg \<longleftrightarrow>
     arg \<in> set (map lit [''-C'', ''-c'', ''--config-env'', ''--exec-path'', ''--git-dir'',
                         ''--namespace'', ''--super-prefix'', ''--work-tree''])"

definition is_git_global_option_with_inline_value :: "ustr \<Rightarrow> bool" where
  "is_git_global_option_with_inline_value arg \<longleftrightarrow>
     list_ex (starts_with arg)
       (map lit [''--config-env='', ''--exec-path='', ''--git-dir='', ''--namespace='',
                 ''--super-prefix='', ''--work-tree='']) \<or>
     ((starts_with arg (lit ''-C'') \<or> starts_with arg (lit ''-c'')) \<and> byte_len arg > 2)"

fun git_subcommand_loop :: "ustr list \<Rightarrow> nat \<Rightarrow> bool \<Rightarrow> ustr list \<Rightarrow> (nat \<times> ustr) option" where
  "git_subcommand_loop subcommands idx skip_next [] = None"
| "git_subcommand_loop subcommands idx skip_next (arg # rest) =
     (if skip_next then git_subcommand_loop subcommands (Suc idx) False rest
      else if is_git_global_option_with_inline_value arg then
        git_subcommand_loop subcommands (Suc idx) False rest
      else if is_git_global_option_with_value arg then
        git_subcommand_loop subcommands (Suc idx) True rest
      else if arg = lit ''--'' \<or> starts_with arg (lit ''-'') then
        git_subcommand_loop subcommands (Suc idx) False rest
      else if arg \<in> set subcommands then Some (idx, arg)
      else None)"

definition find_git_subcommand :: "ustr list \<Rightarrow> ustr list \<Rightarrow> (nat \<times> ustr) option" where
  "find_git_subcommand command subcommands =
     (case command of
        [] \<Rightarrow> None
      | cmd0 # args \<Rightarrow>
          if \<not> ends_with cmd0 (lit ''git'') then None
          else git_subcommand_loop subcommands 1 False args)"

section \<open>Dangerous commands\<close>

fun is_dangerous_to_call_with_exec :: "ustr list \<Rightarrow> bool" where
  "is_dangerous_to_call_with_exec [] = False"
| "is_dangerous_to_call_with_exec (cmd0 # args) =
     (if cmd0 = lit ''rm'' then
        (case args of [] \<Rightarrow> False | a # _ \<Rightarrow> a = lit ''-f'' \<or> a = lit ''-rf'')
      else if cmd0 = lit ''sudo'' then is_dangerous_to_call_with_exec args
      else False)"

definition command_might_be_dangerous :: "(ustr \<Rightarrow> ts_tree option) \<Rightarrow> ustr list \<Rightarrow> bool" where
  "command_might_be_dangerous ts_parse command \<longleftrightarrow>
     (if is_dangerous_to_call_with_exec command then True
      else (case parse_shell_lc_plain_commands ts_parse command of
              Some all_commands \<Rightarrow> list_ex is_dangerous_to_call_with_exec all_commands
            | None \<Rightarrow> False))"

section \<open>Known-safe commands\<close>

definition git_has_config_override_global_option :: "ustr list \<Rightarrow> bool" where
  "git_has_config_override_global_option command \<longleftrightarrow>
     list_ex (\<lambda>arg.
         (arg = lit ''-c'' \<or> arg = lit ''--config-env'') \<or>
         (starts_with arg (lit ''-c'') \<and> byte_len arg > 2) \<or>
         starts_with arg (lit ''--config-env=''))
       command"

definition git_subcommand_args_are_read_only :: "ustr list \<Rightarrow> bool" where
  "git_subcommand_args_are_read_only args \<longleftrightarrow>
     \<not> list_ex (\<lambda>arg.
         arg \<in> set (map lit [''--output'', ''--ext-diff'', ''--textconv'', ''--exec'', ''--paginate'']) \<or>
         starts_with arg (lit ''--output='') \<or> starts_with arg (lit ''--exec=''))
       args"

definition git_branch_query_flags :: "ustr list" where
  "git_branch_query_flags = map lit
     [''--list'', ''-l'', ''--show-current'', ''-a'', ''--all'', ''-r'', ''--remotes'', ''-v'', ''-vv'', ''--verbose'']"

fun git_branch_loop :: "bool \<Rightarrow> ustr list \<Rightarrow> bool" where
  "git_branch_loop saw_read_only_flag [] = saw_read_only_flag"
| "git_branch_loop saw_read_only_flag (arg # rest) =
     (if arg \<in> set git_branch_query_flags then git_branch_loop True rest
      else if starts_with arg (lit ''--format='') then git_branch_loop True rest
      else False)"

definition git_branch_is_read_only :: "ustr list \<Rightarrow> bool" where
  "git_branch_is_read_only branch_args \<longleftrightarrow>
     (if branch_args = [] then True else git_branch_loop False branch_args)"

definition is_valid_sed_n_arg :: "ustr option \<Rightarrow> bool" where
  "is_valid_sed_n_arg arg \<longleftrightarrow>
     (case arg of
        None \<Rightarrow> False
      | Some s \<Rightarrow>
          (case strip_suffix s (lit ''p'') of
             None \<Rightarrow> False
           | Some core \<Rightarrow>
               (case split_on 44 core of
                  [num] \<Rightarrow> num \<noteq> [] \<and> list_all is_ascii_digit num
                | [a, b] \<Rightarrow> a \<noteq> [] \<and> b \<noteq> [] \<and> list_all is_ascii_digit a \<and> list_all is_ascii_digit b
                | _ \<Rightarrow> False)))"

definition always_safe_names :: "ustr list" where
  "always_safe_names = map lit
     [''cat'', ''cd'', ''cut'', ''echo'', ''expr'', ''false'', ''grep'', ''head'', ''id'', ''ls'',
      ''nl'', ''paste'', ''pwd'', ''rev'', ''seq'', ''stat'', ''tail'', ''tr'', ''true'', ''uname'',
      ''uniq'', ''wc'', ''which'', ''whoami'']"

definition base64_is_safe :: "ustr list \<Rightarrow> bool" where
  "base64_is_safe command \<longleftrightarrow>
     \<not> list_ex (\<lambda>arg.
         arg \<in> set (map lit [''-o'', ''--output'']) \<or> starts_with arg (lit ''--output='') \<or>
         (starts_with arg (lit ''-o'') \<and> arg \<noteq> lit ''-o''))
       (drop 1 command)"

definition unsafe_find_options :: "ustr list" where
  "unsafe_find_options = map lit
     [''-exec'', ''-execdir'', ''-ok'', ''-okdir'', ''-delete'', ''-fls'', ''-fprint'', ''-fprint0'', ''-fprintf'']"

definition find_is_safe :: "ustr list \<Rightarrow> bool" where
  "find_is_safe command \<longleftrightarrow> \<not> list_ex (\<lambda>arg. arg \<in> set unsafe_find_options) command"

definition ripgrep_is_safe :: "ustr list \<Rightarrow> bool" where
  "ripgrep_is_safe command \<longleftrightarrow>
     \<not> list_ex (\<lambda>arg.
         arg \<in> set (map lit [''--search-zip'', ''-z'']) \<or>
         list_ex (\<lambda>opt. arg = opt \<or> starts_with arg (opt @ lit ''='')) (map lit [''--pre'', ''--hostname-bin'']))
       command"

definition git_subcommands :: "ustr list" where
  "git_subcommands = map lit [''status'', ''log'', ''diff'', ''show'', ''branch'']"

definition git_is_safe :: "ustr list \<Rightarrow> bool" where
  "git_is_safe command \<longleftrightarrow>
     (if git_has_config_override_global_option command then False
      else (case find_git_subcommand command git_subcommands of
              None \<Rightarrow> False
            | Some (subcommand_idx, subcommand) \<Rightarrow>
                let subcommand_args = drop (subcommand_idx + 1) command
                in if subcommand \<in> set (map lit [''status'', ''log'', ''diff'', ''show'']) then
                     git_subcommand_args_are_read_only subcommand_args
                   else if subcommand = lit ''branch'' then
                     git_subcommand_args_are_read_only subcommand_args \<and>
                     git_branch_is_read_only subcommand_args
                   else False))"

definition sed_is_safe :: "ustr list \<Rightarrow> bool" where
  "sed_is_safe command \<longleftrightarrow>
     length command \<le> 4 \<and>
     (1 < length command \<and> command ! 1 = lit ''-n'') \<and>
     is_valid_sed_n_arg (if 2 < length command then Some (command ! 2) else None)"

definition is_safe_to_call_with_exec :: "bool \<Rightarrow> ustr list \<Rightarrow> bool" where
  "is_safe_to_call_with_exec linux command \<longleftrightarrow>
     (case command of
        [] \<Rightarrow> False
      | cmd0 # _ \<Rightarrow>
          (case file_name cmd0 of
             None \<Rightarrow> False
           | Some cmd \<Rightarrow>
               if linux \<and> cmd \<in> set (map lit [''numfmt'', ''tac'']) then True
               else if cmd \<in> set always_safe_names then True
               else if cmd = lit ''base64'' then base64_is_safe command
               else if cmd = lit ''find'' then find_is_safe command
               else if cmd = lit ''rg'' then ripgrep_is_safe command
               else if cmd = lit ''git'' then git_is_safe command
               else if cmd = lit ''sed'' \<and> sed_is_safe command then True
               else False))"

definition zsh_to_bash :: "ustr list \<Rightarrow> ustr list" where
  "zsh_to_bash command = map (\<lambda>s. if s = lit ''zsh'' then lit ''bash'' else s) command"

definition is_known_safe_command ::
  "bool \<Rightarrow> (ustr \<Rightarrow> ts_tree option) \<Rightarrow> ps_env \<Rightarrow> ustr list \<Rightarrow> bool" where
  "is_known_safe_command linux ts_parse env command0 \<longleftrightarrow>
     (let command = zsh_to_bash command0
      in if is_safe_command_windows env command then True
         else if is_safe_to_call_with_exec linux command then True
         else (case parse_shell_lc_plain_commands ts_parse command of
                 Some all_commands \<Rightarrow>
                   if all_commands \<noteq> [] \<and> list_all (is_safe_to_call_with_exec linux) all_commands
                   then True else False
               | None \<Rightarrow> False))"

section \<open>Which executables are shells\<close>

lemma file_name_slash_free: "file_name p = Some n \<Longrightarrow> slash \<notin> set n"
  using file_name_mem split_on_mem_no_sep by blast

lemma file_name_of_slash_free: "file_name p = Some n \<Longrightarrow> slash \<notin> set p \<Longrightarrow> n = p"
  using file_name_mem split_on_no_sep by fastforce

lemma stem_of_is_prefix: "\<exists>r. n = stem_of n @ r"
proof -
  let ?d = "dropWhile (\<lambda>c. c \<noteq> 46) (rev n)"
  have "rev n = takeWhile (\<lambda>c. c \<noteq> 46) (rev n) @ ?d"
    by simp
  then have "n = rev ?d @ rev (takeWhile (\<lambda>c. c \<noteq> 46) (rev n))"
    by (metis rev_append rev_rev_ident)
  moreover have "rev ?d = rev (drop 1 ?d) @ rev (take 1 ?d)"
    by (metis append_take_drop_id rev_append)
  ultimately have "n = rev (drop 1 ?d) @ rev (take 1 ?d) @ rev (takeWhile (\<lambda>c. c \<noteq> 46) (rev n))"
    by (metis append.assoc)
  then show ?thesis
    by (auto simp: stem_of_def Let_def)
qed

lemma starts_with_trans: "starts_with a b \<Longrightarrow> starts_with b c \<Longrightarrow> starts_with a c"
  by (auto simp: starts_with_iff)

text \<open>The file name of an executable detected as a POSIX shell begins with the shell's
  name.\<close>

definition posix_shell_words :: "ustr list" where
  "posix_shell_words = map lit [''zsh'', ''bash'', ''sh'']"

lemma shell_word_file_names:
  "file_name (lit ''zsh'') = Some (lit ''zsh'')"
  "file_name (lit ''bash'') = Some (lit ''bash'')"
  "file_name (lit ''sh'') = Some (lit ''sh'')"
  "file_name (lit ''rm'') = Some (lit ''rm'')"
  "file_name (lit ''sudo'') = Some (lit ''sudo'')"
  by (simp_all add: file_name_def components_def is_absolute_def segment_component_def Let_def str_ops)

lemma detect_posix_shell_name:
  "detect_shell_type p = Some ty \<Longrightarrow> ty \<in> {Zsh, Bash, Sh} \<Longrightarrow>
     \<exists>n w. file_name p = Some n \<and> w \<in> set posix_shell_words \<and> starts_with n w"
proof (induction p rule: detect_shell_type.induct)
  case (1 p)
  have self: "starts_with w w" for w :: ustr
    using starts_with_append [of w "[]"] by simp
  consider "p \<in> set posix_shell_words"
    | "p = lit ''cmd''" | "p = lit ''pwsh''" | "p = lit ''powershell''"
    | "p \<notin> set posix_shell_words" "p \<noteq> lit ''cmd''" "p \<noteq> lit ''pwsh''" "p \<noteq> lit ''powershell''"
    by blast
  then show ?case
  proof cases
    case 1
    then have "file_name p = Some p"
      by (auto simp: posix_shell_words_def shell_word_file_names)
    with 1 self show ?thesis by blast
  next
    case 5
    with "1.prems" obtain s where s: "file_stem p = Some s" "components s \<noteq> components p"
      "detect_shell_type s = Some ty"
      by (subst (asm) detect_shell_type.simps) (auto simp: posix_shell_words_def split: option.splits if_splits)
    with "1.IH" "1.prems"(2) 5 obtain n w where nw: "file_name s = Some n"
      "w \<in> set posix_shell_words" "starts_with n w"
      by (fastforce simp: posix_shell_words_def)
    from s(1) obtain m where m: "file_name p = Some m" "s = stem_of m"
      by (auto simp: file_stem_def)
    obtain r where r: "m = s @ r"
      using stem_of_is_prefix [of m] m(2) by auto
    then have "slash \<notin> set s"
      using file_name_slash_free [OF m(1)] by auto
    with nw(1) have "n = s"
      by (rule file_name_of_slash_free)
    with nw(3) r have "starts_with m w"
      by (auto simp: starts_with_iff)
    with m nw(2) show ?thesis by blast
  qed (use "1.prems" in \<open>auto simp: detect_shell_type.simps\<close>)
qed

lemma not_posix_shell:
  assumes "file_name p = Some n" and "\<And>w. w \<in> set posix_shell_words \<Longrightarrow> \<not> starts_with n w"
  shows "detect_shell_type p \<notin> {Some Zsh, Some Bash, Some Sh}"
  using detect_posix_shell_name [of p] assms by fastforce

lemma zsh_to_bash_simps [simp]:
  "zsh_to_bash [] = []"
  "zsh_to_bash (x # xs) = (if x = lit ''zsh'' then lit ''bash'' else x) # zsh_to_bash xs"
  by (simp_all add: zsh_to_bash_def)

lemma detect_zsh_to_bash:
  "detect_shell_type (if x = lit ''zsh'' then lit ''bash'' else x) \<in> {Some Zsh, Some Bash, Some Sh}
     \<longleftrightarrow> detect_shell_type x \<in> {Some Zsh, Some Bash, Some Sh}"
  by (auto simp: detect_shell_type.simps)

lemma detect_shell_literals [simp]:
  "detect_shell_type (lit ''zsh'') = Some Zsh" "detect_shell_type (lit ''bash'') = Some Bash"
  by (simp_all add: detect_shell_type.simps)

lemma extract_zsh_to_bash:
  "lit ''zsh'' \<notin> set (tl command) \<Longrightarrow>
     map_option snd (extract_bash_command (zsh_to_bash command)) = map_option snd (extract_bash_command command)"
  by (cases command rule: list.exhaust; cases "tl command" rule: list.exhaust;
      cases "tl (tl command)" rule: list.exhaust)
     (auto simp: extract_bash_command_def detect_zsh_to_bash split: list.splits)

section \<open>Safe and dangerous commands are disjoint\<close>

lemma exec_safe_name:
  assumes "is_safe_to_call_with_exec linux command"
  shows "\<exists>cmd0 rest n. command = cmd0 # rest \<and> file_name cmd0 = Some n \<and>
    n \<in> set (always_safe_names @ map lit [''numfmt'', ''tac'', ''base64'', ''find'', ''rg'', ''git'', ''sed''])"
  using assms
  by (auto simp: is_safe_to_call_with_exec_def split: list.splits option.splits if_splits)

definition safe_names :: "ustr list" where
  "safe_names = always_safe_names @ map lit [''numfmt'', ''tac'', ''base64'', ''find'', ''rg'', ''git'', ''sed'']"

lemma safe_names_no_shell:
  "n \<in> set safe_names \<Longrightarrow> w \<in> set posix_shell_words \<Longrightarrow> \<not> starts_with n w"
  by (auto simp: safe_names_def always_safe_names_def posix_shell_words_def starts_with_def lit_def)

lemma powershell_name_no_shell:
  assumes "is_powershell_executable exe"
  shows "detect_shell_type exe \<notin> {Some Zsh, Some Bash, Some Sh}"
proof (cases "file_name exe")
  case None
  then show ?thesis using detect_posix_shell_name [of exe] by fastforce
next
  case (Some n)
  have "\<not> starts_with n w" if "w \<in> set posix_shell_words" for w
  proof
    assume "starts_with n w"
    then obtain r where "n = w @ r" by (auto simp: starts_with_iff)
    with that have "hd (to_ascii_lowercase n) \<noteq> 112"
      by (auto simp: posix_shell_words_def lit_def to_ascii_lowercase_def ascii_lower_def)
    moreover have "hd (to_ascii_lowercase n) = 112"
      using assms Some by (auto simp: is_powershell_executable_def lit_def)
    ultimately show False by simp
  qed
  with Some show ?thesis by (rule not_posix_shell)
qed

lemma exec_safe_not_dangerous:
  assumes "is_safe_to_call_with_exec linux command"
  shows "\<not> is_dangerous_to_call_with_exec command"
proof -
  from exec_safe_name [OF assms] obtain cmd0 rest n where
    c: "command = cmd0 # rest" "file_name cmd0 = Some n" "n \<in> set safe_names"
    by (auto simp: safe_names_def)
  have "lit ''rm'' \<notin> set safe_names" "lit ''sudo'' \<notin> set safe_names"
    by (simp_all add: safe_names_def always_safe_names_def)
  with c have "cmd0 \<noteq> lit ''rm''" "cmd0 \<noteq> lit ''sudo''"
    by (auto simp: shell_word_file_names)
  with c show ?thesis by simp
qed

lemma shell_not_dangerous:
  assumes "extract_bash_command command = Some x"
  shows "\<not> is_dangerous_to_call_with_exec command"
proof -
  from assms obtain shell flag script where c: "command = [shell, flag, script]"
    and d: "detect_shell_type shell \<in> {Some Zsh, Some Bash, Some Sh}"
    by (auto simp: extract_bash_command_def split: list.splits if_splits)
  have "detect_shell_type (lit ''rm'') \<notin> {Some Zsh, Some Bash, Some Sh}"
    by (rule not_posix_shell [OF shell_word_file_names(4)])
       (auto simp: posix_shell_words_def starts_with_def lit_def)
  moreover have "detect_shell_type (lit ''sudo'') \<notin> {Some Zsh, Some Bash, Some Sh}"
    by (rule not_posix_shell [OF shell_word_file_names(5)])
       (auto simp: posix_shell_words_def starts_with_def lit_def)
  ultimately have "shell \<noteq> lit ''rm''" "shell \<noteq> lit ''sudo''"
    using d by blast+
  with c show ?thesis by simp
qed

lemma zsh_to_bash_safe_head:
  assumes "zsh_to_bash command = cmd0 # rest" and "file_name cmd0 = Some n" and "n \<noteq> lit ''bash''"
  shows "\<exists>rest'. command = cmd0 # rest'"
  using assms by (cases command) (auto simp: shell_word_file_names split: if_splits)

lemma non_shell_plain_commands:
  assumes "command = cmd0 # rest" and "detect_shell_type cmd0 \<notin> {Some Zsh, Some Bash, Some Sh}"
  shows "parse_shell_lc_plain_commands ts_parse command = None"
  using assms
  by (auto simp: parse_shell_lc_plain_commands_def extract_bash_command_def split: list.splits)

lemma plain_commands_of_script:
  "parse_shell_lc_plain_commands ts_parse command =
     Option.bind (map_option snd (extract_bash_command command))
       (\<lambda>script. Option.bind (ts_parse script) try_parse_word_only_commands_sequence)"
  by (cases "extract_bash_command command") (auto simp: parse_shell_lc_plain_commands_def)

lemma exec_safe_plain_commands:
  assumes "is_safe_to_call_with_exec linux (zsh_to_bash command)"
  shows "\<not> command_might_be_dangerous ts_parse command"
proof -
  from exec_safe_name [OF assms] obtain cmd0 rest n where
    c: "zsh_to_bash command = cmd0 # rest" "file_name cmd0 = Some n" "n \<in> set safe_names"
    by (auto simp: safe_names_def)
  have "n \<noteq> lit ''bash''" "n \<noteq> lit ''rm''" "n \<noteq> lit ''sudo''"
    using c(3) by (auto simp: safe_names_def always_safe_names_def)
  with c zsh_to_bash_safe_head obtain rest' where r: "command = cmd0 # rest'" by blast
  have "cmd0 \<noteq> lit ''rm''" "cmd0 \<noteq> lit ''sudo''"
    using c(2) \<open>n \<noteq> lit ''rm''\<close> \<open>n \<noteq> lit ''sudo''\<close> by (auto simp: shell_word_file_names)
  moreover have "parse_shell_lc_plain_commands ts_parse command = None"
    using r not_posix_shell [OF c(2)] safe_names_no_shell [OF c(3)]
    by (intro non_shell_plain_commands [of _ cmd0 rest']) auto
  ultimately show ?thesis
    using r by (simp add: command_might_be_dangerous_def)
qed

lemma powershell_not_dangerous:
  assumes "is_safe_command_windows env (zsh_to_bash command)"
  shows "\<not> command_might_be_dangerous ts_parse command"
proof -
  from assms obtain exe rest where e: "zsh_to_bash command = exe # rest" "is_powershell_executable exe"
    by (auto simp: is_safe_command_windows_def try_parse_powershell_command_sequence_def
        split: option.splits list.splits if_splits)
  have "exe \<noteq> w" if "w \<in> set (map lit [''bash'', ''rm'', ''sudo''])" for w
    using that e(2) by (auto simp: is_powershell_executable_def shell_word_file_names)
      (simp_all add: str_ops)
  then have ne: "exe \<noteq> lit ''bash''" "exe \<noteq> lit ''rm''" "exe \<noteq> lit ''sudo''"
    by simp_all
  with e(1) obtain rest' where r: "command = exe # rest'"
    by (cases command) (auto split: if_splits)
  with ne powershell_name_no_shell [OF e(2)] show ?thesis
    by (simp add: command_might_be_dangerous_def non_shell_plain_commands [of _ exe rest'])
qed


lemma cat_known_safe: "is_known_safe_command False ts_parse env [lit ''cat'', lit ''a'']"
proof -
  have "file_name (lit ''cat'') = Some (lit ''cat'')"
    by (simp add: file_name_def components_def is_absolute_def segment_component_def Let_def str_ops)
  then show ?thesis
    by (simp add: is_known_safe_command_def is_safe_to_call_with_exec_def always_safe_names_def Let_def)
qed


section \<open>What the git and sed exceptions admit\<close>

text \<open>The words before the subcommand: global options, each consuming its value.\<close>

inductive git_globals :: "ustr list \<Rightarrow> bool" where
  "git_globals []"
| "is_git_global_option_with_inline_value arg \<Longrightarrow> git_globals rest \<Longrightarrow> git_globals (arg # rest)"
| "is_git_global_option_with_value arg \<Longrightarrow> git_globals rest \<Longrightarrow> git_globals (arg # val # rest)"
| "starts_with arg (lit ''-'') \<Longrightarrow> git_globals rest \<Longrightarrow> git_globals (arg # rest)"

lemma git_subcommand_loop_SomeD:
  "git_subcommand_loop subs idx skip args = Some (i, s) \<Longrightarrow>
     idx \<le> i \<and> i - idx < length args \<and> args ! (i - idx) = s \<and> s \<in> set subs \<and>
     (if skip then \<exists>val rest. take (i - idx) args = val # rest \<and> git_globals rest
      else git_globals (take (i - idx) args))"
proof (induction subs idx skip args rule: git_subcommand_loop.induct)
  case (2 subs idx skip arg rest)
  consider "skip"
    | "\<not> skip" "is_git_global_option_with_inline_value arg"
    | "\<not> skip" "\<not> is_git_global_option_with_inline_value arg" "is_git_global_option_with_value arg"
    | "\<not> skip" "\<not> is_git_global_option_with_inline_value arg" "\<not> is_git_global_option_with_value arg"
        "arg = lit ''--'' \<or> starts_with arg (lit ''-'')"
    | "\<not> skip" "i = idx" "s = arg" "arg \<in> set subs"
    using "2.prems" by (auto split: if_splits)
  then show ?case
  proof cases
    case 1
    with 2 show ?thesis by (auto simp: Suc_le_eq Suc_diff_Suc [symmetric])
  next
    case 2
    with "2.IH"(2) "2.prems" show ?thesis
      by (auto simp: Suc_le_eq Suc_diff_Suc [symmetric] intro: git_globals.intros)
  next
    case 3
    with "2.IH"(3) "2.prems" show ?thesis
      by (auto simp: Suc_le_eq Suc_diff_Suc [symmetric] intro: git_globals.intros)
  next
    case 4
    then have "starts_with arg (lit ''-'')"
      by (auto simp: starts_with_def lit_def)
    with 4 "2.IH"(4) "2.prems" show ?thesis
      by (auto simp: Suc_le_eq Suc_diff_Suc [symmetric] intro: git_globals.intros(4))
  next
    case 5
    then show ?thesis by (auto intro: git_globals.intros)
  qed
qed simp

lemma query_flags_dash: "a \<in> set git_branch_query_flags \<Longrightarrow> starts_with a (lit ''-'')"
  by (auto simp: git_branch_query_flags_def starts_with_def lit_def)

lemma format_flag_dash: "starts_with a (lit ''--format='') \<Longrightarrow> starts_with a (lit ''-'')"
  by (rule starts_with_trans [of _ "lit ''--format=''"]) (simp_all add: starts_with_def lit_def)

lemma git_branch_loop_flags:
  "git_branch_loop saw args \<Longrightarrow> \<forall>a \<in> set args. starts_with a (lit ''-'')"
  by (induction saw args rule: git_branch_loop.induct)
     (auto dest: query_flags_dash format_flag_dash split: if_splits)

text \<open>A git command is auto-approved only when no word of it overrides the configuration,
  the subcommand is the first word that is neither a global option nor the value of one and is
  read-only, and no later word is a flag that writes a file or runs a program; for
  \<open>branch\<close> every later word is a flag.\<close>

theorem safe_git_is_read_only:
  assumes "is_safe_to_call_with_exec linux command" and "file_name (hd command) = Some (lit ''git'')"
  shows "\<exists>globals sub args. command = hd command # globals @ sub # args \<and> git_globals globals \<and>
    sub \<in> set git_subcommands \<and>
    (\<forall>w \<in> set command. w \<noteq> lit ''-c'' \<and> w \<noteq> lit ''--config-env'' \<and> \<not> starts_with w (lit ''--config-env='')) \<and>
    git_subcommand_args_are_read_only args \<and>
    (sub = lit ''branch'' \<longrightarrow> (\<forall>a \<in> set args. starts_with a (lit ''-'')))"
proof -
  from assms obtain cmd0 rest where c: "command = cmd0 # rest"
    by (cases command) (simp_all add: is_safe_to_call_with_exec_def)
  with assms have "git_is_safe command"
    by (simp add: is_safe_to_call_with_exec_def always_safe_names_def)
  then obtain idx sub where f: "find_git_subcommand command git_subcommands = Some (idx, sub)"
    and cfg: "\<not> git_has_config_override_global_option command"
    and ro: "git_subcommand_args_are_read_only (drop (idx + 1) command)"
    and br: "sub = lit ''branch'' \<longrightarrow> git_branch_is_read_only (drop (idx + 1) command)"
    by (auto simp: git_is_safe_def Let_def split: if_splits option.splits)
  from f have loop: "git_subcommand_loop git_subcommands 1 False rest = Some (idx, sub)"
    by (simp add: find_git_subcommand_def c split: if_splits)
  have d: "1 \<le> idx" "idx - 1 < length rest" "rest ! (idx - 1) = sub" "sub \<in> set git_subcommands"
    "git_globals (take (idx - 1) rest)"
    using git_subcommand_loop_SomeD [OF loop] by auto
  have "rest = take (idx - 1) rest @ sub # drop idx rest"
    using d id_take_nth_drop [of "idx - 1" rest] by simp
  moreover have "drop (idx + 1) command = drop idx rest"
    by (simp add: c)
  moreover have "\<forall>a \<in> set (drop idx rest). starts_with a (lit ''-'')" if "sub = lit ''branch''"
    using br that git_branch_loop_flags [of False "drop idx rest"] calculation(2)
    by (auto simp: git_branch_is_read_only_def split: if_splits)
  moreover have "w \<noteq> lit ''-c'' \<and> w \<noteq> lit ''--config-env'' \<and> \<not> starts_with w (lit ''--config-env='')"
    if "w \<in> set command" for w
    using cfg that unfolding git_has_config_override_global_option_def list_ex_iff by blast
  ultimately show ?thesis
    using d(4,5) ro c
    by (intro exI [of _ "take (idx - 1) rest"] exI [of _ sub] exI [of _ "drop idx rest"]) simp
qed

lemma git_file_name: "file_name (lit ''git'') = Some (lit ''git'')"
  by (simp add: file_name_def components_def is_absolute_def segment_component_def Let_def str_ops)

lemma git_status_safe: "is_safe_to_call_with_exec linux [lit ''git'', lit ''status'']"
proof -
  have "find_git_subcommand [lit ''git'', lit ''status''] git_subcommands = Some (1, lit ''status'')"
    by (simp add: find_git_subcommand_def is_git_global_option_with_inline_value_def
        is_git_global_option_with_value_def git_subcommands_def)
       (simp add: starts_with_def ends_with_def lit_def)
  moreover have "\<not> git_has_config_override_global_option [lit ''git'', lit ''status'']"
    by (simp add: git_has_config_override_global_option_def) (simp add: starts_with_def lit_def)
  ultimately have "git_is_safe [lit ''git'', lit ''status'']"
    by (simp add: git_is_safe_def git_subcommand_args_are_read_only_def)
  then show ?thesis
    by (simp add: is_safe_to_call_with_exec_def git_file_name always_safe_names_def)
qed

theorem safe_git_is_read_only_witness:
  "\<exists>globals sub args. [lit ''git'', lit ''status''] = hd [lit ''git'', lit ''status''] # globals @ sub # args \<and>
    sub \<in> set git_subcommands"
  using safe_git_is_read_only [OF git_status_safe] git_file_name by fastforce

definition digits :: "ustr \<Rightarrow> bool" where
  "digits s \<longleftrightarrow> s \<noteq> [] \<and> list_all is_ascii_digit s"

lemma digits_no_comma: "digits s \<Longrightarrow> 44 \<notin> set s"
  by (auto simp: digits_def list_all_iff is_ascii_digit_def)

text \<open>The sed scripts that are auto-approved are exactly \<open>Np\<close> and \<open>M,Np\<close> for
  non-empty runs of ASCII digits.\<close>

theorem valid_sed_n_arg_iff:
  "is_valid_sed_n_arg (Some s) \<longleftrightarrow>
     (\<exists>n. digits n \<and> s = n @ lit ''p'') \<or>
     (\<exists>m n. digits m \<and> digits n \<and> s = m @ lit '','' @ n @ lit ''p'')"
proof
  assume "is_valid_sed_n_arg (Some s)"
  then obtain core where s: "s = core @ lit ''p''"
    and p: "(case split_on 44 core of [num] \<Rightarrow> digits num | [a, b] \<Rightarrow> digits a \<and> digits b | _ \<Rightarrow> False)"
    by (auto simp: is_valid_sed_n_arg_def strip_suffix_eq_Some_iff digits_def split: option.splits list.splits)
  have core: "core = join_with [44] (split_on 44 core)"
    by simp
  consider num where "split_on 44 core = [num]" "digits num"
    | a b where "split_on 44 core = [a, b]" "digits a" "digits b"
    using p by (auto split: list.splits)
  then show "(\<exists>n. digits n \<and> s = n @ lit ''p'') \<or>
     (\<exists>m n. digits m \<and> digits n \<and> s = m @ lit '','' @ n @ lit ''p'')"
  proof cases
    case 1
    with core s show ?thesis by auto
  next
    case 2
    with core have "core = a @ [44] @ b" by simp
    with 2 s show ?thesis by (auto simp: lit_def)
  qed
next
  assume "(\<exists>n. digits n \<and> s = n @ lit ''p'') \<or>
     (\<exists>m n. digits m \<and> digits n \<and> s = m @ lit '','' @ n @ lit ''p'')"
  then consider n where "digits n" "strip_suffix s (lit ''p'') = Some n"
    | m n where "digits m" "digits n" "strip_suffix s (lit ''p'') = Some (m @ 44 # n)"
    by (auto simp: strip_suffix_eq_Some_iff lit_def)
  then show "is_valid_sed_n_arg (Some s)"
  proof cases
    case 1
    then show ?thesis
      by (simp add: is_valid_sed_n_arg_def split_on_no_sep digits_no_comma) (simp add: digits_def)
  next
    case 2
    then show ?thesis
      by (simp add: is_valid_sed_n_arg_def split_on_append_sep split_on_no_sep digits_no_comma) (simp add: digits_def)
  qed
qed

text \<open>The fourth word of a \<open>sed -n\<close> command is not looked at, whatever it is.\<close>

lemma sed_fourth_argument_is_free:
  "sed_is_safe [lit ''sed'', lit ''-n'', lit ''1p'', anything]"
proof -
  have "lit ''1p'' = [49] @ lit ''p''" by (simp add: lit_def)
  then have "is_valid_sed_n_arg (Some (lit ''1p''))"
    by (simp add: is_valid_sed_n_arg_def) (simp add: str_ops)
  then show ?thesis by (simp add: sed_is_safe_def)
qed

end
