(* ===== verification/SandboxPolicies.thy ===== *)
theory SandboxPolicies
  imports Paths
begin

text \<open>
  The approval and sandbox policies of the protocol (\<open>protocol/src/protocol.rs\<close>,
  \<open>models.rs\<close>), absolute paths (\<open>utils/absolute-path\<close>), the platform sandboxes and
  the safety check of patches (\<open>core/src/safety.rs\<close>, \<open>exec.rs\<close>, \<open>util.rs\<close>).
  The file system, the environment and the crates \<open>dirs\<close> and \<open>path_absolutize\<close> are the
  parameter \<open>path_env\<close>. An \<open>AbsolutePathBuf\<close> is absolute and normalised and is only
  compared as a path, so it is kept as its list of components.
\<close>

section \<open>Policies\<close>

datatype ask_for_approval = UnlessTrusted | OnFailure | OnRequest | Never

datatype network_access = Restricted | Enabled

definition is_enabled :: "network_access \<Rightarrow> bool" where
  "is_enabled n \<longleftrightarrow> n = Enabled"

datatype read_only_access =
    RestrictedAccess (include_platform_defaults: bool) (readable_roots: "path list")
  | FullAccess

datatype sandbox_policy =
    DangerFullAccess
  | ReadOnly read_only_access
  | ExternalSandbox network_access
  | WorkspaceWrite (writable_roots: "path list") (read_only_access_of: read_only_access)
      (network_access_of: bool) (exclude_tmpdir_env_var: bool) (exclude_slash_tmp: bool)

datatype sandbox_permissions = UseDefault | RequireEscalated

definition requires_escalated_permissions :: "sandbox_permissions \<Rightarrow> bool" where
  "requires_escalated_permissions p \<longleftrightarrow> p = RequireEscalated"

datatype 'amendment review_decision =
    Approved | ApprovedExecpolicyAmendment 'amendment | ApprovedForSession | Denied | Abort

fun to_opaque_string :: "'a review_decision \<Rightarrow> ustr" where
  "to_opaque_string Approved = lit ''approved''"
| "to_opaque_string (ApprovedExecpolicyAmendment _) = lit ''approved_with_amendment''"
| "to_opaque_string ApprovedForSession = lit ''approved_for_session''"
| "to_opaque_string Denied = lit ''denied''"
| "to_opaque_string Abort = lit ''abort''"

fun access_full_disk_read :: "read_only_access \<Rightarrow> bool" where
  "access_full_disk_read FullAccess = True"
| "access_full_disk_read (RestrictedAccess _ _) = False"

definition new_read_only_policy :: sandbox_policy where
  "new_read_only_policy = ReadOnly FullAccess"

definition new_workspace_write_policy :: sandbox_policy where
  "new_workspace_write_policy = WorkspaceWrite [] FullAccess False False False"

fun has_full_disk_read_access :: "sandbox_policy \<Rightarrow> bool" where
  "has_full_disk_read_access DangerFullAccess = True"
| "has_full_disk_read_access (ExternalSandbox _) = True"
| "has_full_disk_read_access (ReadOnly access) = access_full_disk_read access"
| "has_full_disk_read_access (WorkspaceWrite _ access _ _ _) = access_full_disk_read access"

fun has_full_disk_write_access :: "sandbox_policy \<Rightarrow> bool" where
  "has_full_disk_write_access DangerFullAccess = True"
| "has_full_disk_write_access (ExternalSandbox _) = True"
| "has_full_disk_write_access (ReadOnly _) = False"
| "has_full_disk_write_access (WorkspaceWrite _ _ _ _ _) = False"

fun has_full_network_access :: "sandbox_policy \<Rightarrow> bool" where
  "has_full_network_access DangerFullAccess = True"
| "has_full_network_access (ExternalSandbox network_access) = is_enabled network_access"
| "has_full_network_access (ReadOnly _) = False"
| "has_full_network_access (WorkspaceWrite _ _ network_access _ _) = network_access"

section \<open>Absolute paths\<close>

datatype target_os = Linux | MacOS | WindowsOS | OtherOS

record 'e path_env =
  os :: target_os
  home_dir :: "ustr option"
  absolutize :: "ustr \<Rightarrow> 'e + path"
  absolutize_from :: "ustr \<Rightarrow> path \<Rightarrow> 'e + path"
  fs_is_file :: "path \<Rightarrow> bool"
  fs_is_dir :: "path \<Rightarrow> bool"
  fs_exists :: "path \<Rightarrow> bool"
  fs_read_to_string :: "path \<Rightarrow> 'e + ustr"
  var_tmpdir :: "ustr option"

definition maybe_expand_home_directory :: "('e, 'z) path_env_scheme \<Rightarrow> ustr \<Rightarrow> ustr" where
  "maybe_expand_home_directory env path_str =
     (if os env = WindowsOS then path_str
      else (case home_dir env of
              None \<Rightarrow> path_str
            | Some home \<Rightarrow>
                if path_str = lit ''~'' then home
                else (case strip_prefix path_str (lit ''~/'') of
                        Some rest0 \<Rightarrow>
                          let rest = trim_start_by (\<lambda>c. c = slash) rest0
                          in if rest = [] then home else join home rest
                      | None \<Rightarrow> path_str)))"

definition resolve_path_against_base :: "('e, 'z) path_env_scheme \<Rightarrow> ustr \<Rightarrow> path \<Rightarrow> 'e + path" where
  "resolve_path_against_base env p base_path =
     absolutize_from env (maybe_expand_home_directory env p) base_path"

definition from_absolute_path :: "('e, 'z) path_env_scheme \<Rightarrow> ustr \<Rightarrow> 'e + path" where
  "from_absolute_path env p = absolutize env (maybe_expand_home_directory env p)"

definition abs_join :: "('e, 'z) path_env_scheme \<Rightarrow> path \<Rightarrow> ustr \<Rightarrow> 'e + path" where
  "abs_join env base p = resolve_path_against_base env p base"

section \<open>Readable and writable roots\<close>

text \<open>\<open>retain\<close> with a set of the paths seen keeps the first of equal roots.\<close>

fun retain_unseen :: "'a list \<Rightarrow> 'a list \<Rightarrow> 'a list" where
  "retain_unseen seen [] = []"
| "retain_unseen seen (root # roots) =
     (if root \<in> set seen then retain_unseen seen roots else root # retain_unseen (root # seen) roots)"

definition platform_roots :: "target_os \<Rightarrow> ustr list" where
  "platform_roots target =
     map lit (case target of
        MacOS \<Rightarrow> [''/bin'', ''/dev'', ''/etc'', ''/Library'', ''/private'', ''/sbin'', ''/System'', ''/tmp'', ''/usr'']
      | Linux \<Rightarrow> [''/bin'', ''/dev'', ''/etc'', ''/lib'', ''/lib64'', ''/tmp'', ''/usr'']
      | WindowsOS \<Rightarrow> [[CHR ''C'', CHR '':'', CHR 0x5C] @ ''Windows'',
                     [CHR ''C'', CHR '':'', CHR 0x5C] @ ''Program Files'',
                     [CHR ''C'', CHR '':'', CHR 0x5C] @ ''Program Files (x86)'',
                     [CHR ''C'', CHR '':'', CHR 0x5C] @ ''ProgramData'']
      | OtherOS \<Rightarrow> [])"

text \<open>\<open>None\<close> is the panic of an \<open>expect\<close> on a platform root that is not absolute.\<close>

fun expect_all :: "('e + 'a) list \<Rightarrow> 'a list option" where
  "expect_all [] = Some []"
| "expect_all (Inr x # rs) = map_option (\<lambda>xs. x # xs) (expect_all rs)"
| "expect_all (Inl e # rs) = None"

definition ok_list :: "'e + 'a \<Rightarrow> 'a list" where
  "ok_list r = (case r of Inr x \<Rightarrow> [x] | Inl _ \<Rightarrow> [])"

definition access_readable_roots :: "('e, 'z) path_env_scheme \<Rightarrow> read_only_access \<Rightarrow> ustr \<Rightarrow> path list option" where
  "access_readable_roots env access cwd =
     (case access of
        FullAccess \<Rightarrow> Some []
      | RestrictedAccess include_defaults roots \<Rightarrow>
          map_option (retain_unseen [])
            (if include_defaults then
               map_option (\<lambda>defaults. roots @ defaults @ ok_list (from_absolute_path env cwd))
                 (expect_all (map (from_absolute_path env) (platform_roots (os env))))
             else Some roots))"

record writable_root =
  root :: path
  read_only_subpaths :: "path list"

definition path_file_name :: "path \<Rightarrow> ustr option" where
  "path_file_name p = (case rev p of Normal s # _ \<Rightarrow> Some s | _ \<Rightarrow> None)"

definition is_git_pointer_file :: "('e, 'z) path_env_scheme \<Rightarrow> path \<Rightarrow> bool" where
  "is_git_pointer_file env p \<longleftrightarrow> fs_is_file env p \<and> path_file_name p = Some (lit ''.git'')"

definition resolve_gitdir_from_file :: "('e, 'z) path_env_scheme \<Rightarrow> path \<Rightarrow> path option" where
  "resolve_gitdir_from_file env dot_git =
     (case fs_read_to_string env dot_git of
        Inl _ \<Rightarrow> None
      | Inr contents \<Rightarrow>
          (case split_once 58 (trim contents) of
             None \<Rightarrow> None
           | Some (_, gitdir_raw0) \<Rightarrow>
               let gitdir_raw = trim gitdir_raw0
               in if gitdir_raw = [] then None
                  else (case parent dot_git of
                          None \<Rightarrow> None
                        | Some base \<Rightarrow>
                            (case resolve_path_against_base env gitdir_raw base of
                               Inl _ \<Rightarrow> None
                             | Inr gitdir_path \<Rightarrow>
                                 if \<not> fs_exists env gitdir_path then None else Some gitdir_path))))"

definition git_subpaths :: "('e, 'z) path_env_scheme \<Rightarrow> path \<Rightarrow> path list" where
  "git_subpaths env top_level_git =
     (let is_file = fs_is_file env top_level_git;
          is_dir = fs_is_dir env top_level_git
      in if is_dir \<or> is_file then
           (if is_file \<and> is_git_pointer_file env top_level_git
            then (case resolve_gitdir_from_file env top_level_git of Some gitdir \<Rightarrow> [gitdir] | None \<Rightarrow> [])
            else []) @ [top_level_git]
         else [])"

text \<open>The read-only subpaths of one root; \<open>None\<close> is the panic of a \<open>join\<close> that fails.\<close>

definition writable_root_of :: "('e, 'z) path_env_scheme \<Rightarrow> path \<Rightarrow> writable_root option" where
  "writable_root_of env r =
     (case abs_join env r (lit ''.git'') of
        Inl _ \<Rightarrow> None
      | Inr top_level_git \<Rightarrow>
          map_option (\<lambda>dirs.
              \<lparr>root = r, read_only_subpaths = git_subpaths env top_level_git @ filter (fs_is_dir env) dirs\<rparr>)
            (expect_all (map (abs_join env r) (map lit [''.agents'', ''.codex'']))))"

fun expect_map :: "('a \<Rightarrow> 'b option) \<Rightarrow> 'a list \<Rightarrow> 'b list option" where
  "expect_map f [] = Some []"
| "expect_map f (x # xs) = Option.bind (f x) (\<lambda>y. map_option (\<lambda>ys. y # ys) (expect_map f xs))"

definition slash_tmp_root :: "('e, 'z) path_env_scheme \<Rightarrow> bool \<Rightarrow> path list option" where
  "slash_tmp_root env excluded =
     (if os env \<noteq> WindowsOS \<and> \<not> excluded then
        (case from_absolute_path env (lit ''/tmp'') of
           Inl _ \<Rightarrow> None
         | Inr slash_tmp \<Rightarrow> Some (if fs_is_dir env slash_tmp then [slash_tmp] else []))
      else Some [])"

definition tmpdir_root :: "('e, 'z) path_env_scheme \<Rightarrow> bool \<Rightarrow> path list" where
  "tmpdir_root env excluded =
     (if excluded then []
      else (case var_tmpdir env of
              None \<Rightarrow> []
            | Some tmpdir \<Rightarrow> if tmpdir = [] then [] else ok_list (from_absolute_path env tmpdir)))"

fun get_writable_roots_with_cwd ::
  "('e, 'z) path_env_scheme \<Rightarrow> sandbox_policy \<Rightarrow> ustr \<Rightarrow> writable_root list option" where
  "get_writable_roots_with_cwd env DangerFullAccess cwd = Some []"
| "get_writable_roots_with_cwd env (ExternalSandbox _) cwd = Some []"
| "get_writable_roots_with_cwd env (ReadOnly _) cwd = Some []"
| "get_writable_roots_with_cwd env (WorkspaceWrite roots _ _ no_tmpdir no_slash_tmp) cwd =
     Option.bind (slash_tmp_root env no_slash_tmp) (\<lambda>slash_tmp.
       expect_map (writable_root_of env)
         (roots @ ok_list (from_absolute_path env cwd) @ slash_tmp @ tmpdir_root env no_tmpdir))"

fun get_readable_roots_with_cwd ::
  "('e, 'z) path_env_scheme \<Rightarrow> sandbox_policy \<Rightarrow> ustr \<Rightarrow> path list option" where
  "get_readable_roots_with_cwd env DangerFullAccess cwd = Some []"
| "get_readable_roots_with_cwd env (ExternalSandbox _) cwd = Some []"
| "get_readable_roots_with_cwd env (ReadOnly access) cwd =
     map_option (retain_unseen []) (access_readable_roots env access cwd)"
| "get_readable_roots_with_cwd env (WorkspaceWrite roots access net no_tmpdir no_slash_tmp) cwd =
     Option.bind (access_readable_roots env access cwd) (\<lambda>readable.
     map_option (\<lambda>writable. retain_unseen [] (readable @ map root writable))
       (get_writable_roots_with_cwd env (WorkspaceWrite roots access net no_tmpdir no_slash_tmp) cwd))"

definition is_path_writable :: "writable_root \<Rightarrow> path \<Rightarrow> bool" where
  "is_path_writable w p \<longleftrightarrow>
     (if \<not> path_starts_with p (root w) then False
      else \<not> list_ex (path_starts_with p) (read_only_subpaths w))"

section \<open>Sandboxes and the safety of a patch\<close>

datatype sandbox_type = NoSandbox | MacosSeatbelt | LinuxSeccomp | WindowsRestrictedToken

fun as_metric_tag :: "sandbox_type \<Rightarrow> ustr" where
  "as_metric_tag NoSandbox = lit ''none''"
| "as_metric_tag MacosSeatbelt = lit ''seatbelt''"
| "as_metric_tag LinuxSeccomp = lit ''seccomp''"
| "as_metric_tag WindowsRestrictedToken = lit ''windows_sandbox''"

fun get_platform_sandbox :: "target_os \<Rightarrow> bool \<Rightarrow> sandbox_type option" where
  "get_platform_sandbox MacOS _ = Some MacosSeatbelt"
| "get_platform_sandbox Linux _ = Some LinuxSeccomp"
| "get_platform_sandbox WindowsOS windows_sandbox_enabled =
     (if windows_sandbox_enabled then Some WindowsRestrictedToken else None)"
| "get_platform_sandbox OtherOS _ = None"

text \<open>The changes of a patch (\<open>ApplyPatchFileChange\<close>).\<close>

datatype file_change =
    Add ustr
  | Delete ustr
  | Update (unified_diff: ustr) (move_path: "ustr option") (new_content: ustr)

datatype safety_check =
    AutoApprove (sandbox_type_of: sandbox_type) (user_explicitly_approved: bool)
  | AskUser
  | Reject ustr

fun normalize_step :: "path \<Rightarrow> component \<Rightarrow> path" where
  "normalize_step out ParentDir = (case parent out of Some p \<Rightarrow> p | None \<Rightarrow> out)"
| "normalize_step out CurDir = out"
| "normalize_step out RootDir = [RootDir]"
| "normalize_step out (Normal s) = out @ [Normal s]"

definition normalize :: "path \<Rightarrow> path" where
  "normalize p = foldl normalize_step [] p"

definition resolve_path :: "ustr \<Rightarrow> ustr \<Rightarrow> ustr" where
  "resolve_path base p = (if is_absolute p then p else join base p)"

definition patch_path_writable :: "writable_root list \<Rightarrow> ustr \<Rightarrow> ustr \<Rightarrow> bool" where
  "patch_path_writable roots cwd p =
     list_ex (\<lambda>w. is_path_writable w (normalize (components (resolve_path cwd p)))) roots"

fun change_writable :: "writable_root list \<Rightarrow> ustr \<Rightarrow> ustr \<times> file_change \<Rightarrow> bool" where
  "change_writable roots cwd (p, Add _) = patch_path_writable roots cwd p"
| "change_writable roots cwd (p, Delete _) = patch_path_writable roots cwd p"
| "change_writable roots cwd (p, Update _ dest _) =
     (if \<not> patch_path_writable roots cwd p then False
      else (case dest of Some d \<Rightarrow> patch_path_writable roots cwd d | None \<Rightarrow> True))"

fun is_write_patch_constrained_to_writable_paths ::
  "('e, 'z) path_env_scheme \<Rightarrow> (ustr \<times> file_change) list \<Rightarrow> sandbox_policy \<Rightarrow> ustr \<Rightarrow> bool option" where
  "is_write_patch_constrained_to_writable_paths env changes (ReadOnly _) cwd = Some False"
| "is_write_patch_constrained_to_writable_paths env changes DangerFullAccess cwd = Some True"
| "is_write_patch_constrained_to_writable_paths env changes (ExternalSandbox _) cwd = Some True"
| "is_write_patch_constrained_to_writable_paths env changes (WorkspaceWrite a b c d e) cwd =
     map_option (\<lambda>roots. list_all (change_writable roots cwd) changes)
       (get_writable_roots_with_cwd env (WorkspaceWrite a b c d e) cwd)"

text \<open>\<open>None\<close> is a panic while the writable roots are computed.\<close>

definition assess_patch_safety ::
  "('e, 'z) path_env_scheme \<Rightarrow> (ustr \<times> file_change) list \<Rightarrow> ask_for_approval \<Rightarrow> sandbox_policy
    \<Rightarrow> ustr \<Rightarrow> bool \<Rightarrow> safety_check option" where
  "assess_patch_safety env changes approval sandbox cwd windows_sandbox_enabled =
     (if changes = [] then Some (Reject (lit ''empty patch''))
      else if approval = UnlessTrusted then Some AskUser
      else
        Option.bind (is_write_patch_constrained_to_writable_paths env changes sandbox cwd) (\<lambda>constrained.
          Some (if constrained \<or> approval = OnFailure then
                  (case sandbox of
                     DangerFullAccess \<Rightarrow> AutoApprove NoSandbox False
                   | ExternalSandbox _ \<Rightarrow> AutoApprove NoSandbox False
                   | _ \<Rightarrow> (case get_platform_sandbox (os env) windows_sandbox_enabled of
                             Some sandbox_type \<Rightarrow> AutoApprove sandbox_type False
                           | None \<Rightarrow> AskUser))
                else if approval = Never then
                  Reject (lit ''writing outside of the project; rejected by user approval settings'')
                else AskUser)))"

section \<open>Lexical normalisation\<close>

definition rooted :: "path \<Rightarrow> bool" where
  "rooted p \<longleftrightarrow> (\<exists>names. p = RootDir # map Normal names)"

lemma rootedI [simp, intro]: "rooted (RootDir # map Normal names)"
  by (auto simp: rooted_def)

lemma rooted_RootDir [simp]: "rooted [RootDir]"
  using rootedI [of "[]"] by simp

lemma rooted_snoc: "rooted p \<Longrightarrow> rooted (p @ [Normal s])"
  unfolding rooted_def by (metis append_Cons map_append list.simps(8,9))

lemma rooted_parent:
  assumes "rooted p"
  shows "rooted (case parent p of Some q \<Rightarrow> q | None \<Rightarrow> p)"
proof -
  from assms obtain names where p: "p = RootDir # map Normal names"
    by (auto simp: rooted_def)
  show ?thesis
    by (cases names rule: rev_cases) (auto simp: p parent_def)
qed

lemma normalize_step_rooted: "rooted p \<Longrightarrow> rooted (normalize_step p c)"
  by (cases c) (use rooted_parent in \<open>auto intro: rooted_snoc\<close>)

lemma foldl_normalize_rooted: "rooted p \<Longrightarrow> rooted (foldl normalize_step p cs)"
  by (induction cs arbitrary: p) (simp_all add: normalize_step_rooted)

lemma normalize_rooted: "rooted (normalize (RootDir # cs))"
proof -
  have "rooted (foldl normalize_step [RootDir] cs)"
    by (rule foldl_normalize_rooted) simp
  then show ?thesis by (simp add: normalize_def)
qed

lemma foldl_normalize_names: "foldl normalize_step p (map Normal names) = p @ map Normal names"
  by (induction names arbitrary: p) simp_all

lemma normalize_rooted_id: "rooted p \<Longrightarrow> normalize p = p"
  by (auto simp: rooted_def normalize_def foldl_normalize_names)

lemma join_absolute: "is_absolute base \<Longrightarrow> is_absolute (join base p)"
proof -
  assume "is_absolute base"
  then obtain r where "base = slash # r"
    by (auto simp: is_absolute_def starts_with_iff)
  then show ?thesis
    by (auto simp: is_absolute_def join_def starts_with_iff)
qed

lemma resolve_path_absolute: "is_absolute base \<Longrightarrow> is_absolute (resolve_path base p)"
  by (simp add: resolve_path_def join_absolute)

text \<open>A patch path, resolved against an absolute working directory and normalised, is the
  root followed by plain names only: no \<open>.\<close> or \<open>..\<close> is left that could lead out of the
  directory it is compared with, and normalising it again changes nothing.\<close>

theorem resolved_paths_are_normal:
  assumes "is_absolute cwd"
  shows "\<exists>names. normalize (components (resolve_path cwd p)) = RootDir # map Normal names \<and>
    normalize (RootDir # map Normal names) = RootDir # map Normal names"
proof -
  obtain cs where "components (resolve_path cwd p) = RootDir # cs"
    using resolve_path_absolute [OF assms] by (auto simp: components_def Let_def)
  with normalize_rooted [of cs] normalize_rooted_id show ?thesis
    by (auto simp: rooted_def)
qed

theorem resolved_paths_are_normal_witness:
  "\<exists>names. normalize (components (resolve_path (lit ''/a'') (lit ''../b''))) = RootDir # map Normal names"
proof -
  have "is_absolute (lit ''/a'')" by (simp add: is_absolute_def str_ops)
  from resolved_paths_are_normal [OF this] show ?thesis by blast
qed

section \<open>Roots\<close>

lemma retain_unseen_set: "set (retain_unseen seen roots) = set roots - set seen"
  by (induction seen roots rule: retain_unseen.induct) auto

lemma retain_unseen_distinct: "distinct (retain_unseen seen roots)"
  by (induction seen roots rule: retain_unseen.induct) (auto simp: retain_unseen_set)

lemma expect_map_eq_Some_iff: "expect_map f xs = Some ys \<longleftrightarrow> list_all2 (\<lambda>x y. f x = Some y) xs ys"
proof (induction xs arbitrary: ys)
  case (Cons x xs)
  then show ?case by (cases ys) (auto simp: bind_eq_Some_conv)
qed auto

lemma expect_map_mem: "expect_map f xs = Some ys \<Longrightarrow> y \<in> set ys \<Longrightarrow> \<exists>x \<in> set xs. f x = Some y"
  by (induction xs arbitrary: ys) (auto simp: bind_eq_Some_conv)

lemma expect_two:
  "expect_all [r, s] = Some xs \<longleftrightarrow> (\<exists>x y. r = Inr x \<and> s = Inr y \<and> xs = [x, y])"
  by (cases r; cases s) auto

lemma writable_root_of_root: "writable_root_of env r = Some w \<Longrightarrow> root w = r"
  by (auto simp: writable_root_of_def split: sum.splits)

lemma writable_root_of_SomeD:
  "writable_root_of env r = Some w \<Longrightarrow>
     \<exists>g ag co. abs_join env r (lit ''.git'') = Inr g \<and> abs_join env r (lit ''.agents'') = Inr ag \<and>
       abs_join env r (lit ''.codex'') = Inr co \<and>
       read_only_subpaths w = git_subpaths env g @ filter (fs_is_dir env) [ag, co]"
  by (auto simp: writable_root_of_def expect_two split: sum.splits)

lemma git_subpaths_mem:
  assumes "fs_is_dir env g \<or> fs_is_file env g"
  shows "g \<in> set (git_subpaths env g)"
proof -
  have "\<exists>ptr. git_subpaths env g = ptr @ [g]"
    using assms by (simp add: git_subpaths_def Let_def)
  then show ?thesis by auto
qed

lemma workspace_roots_mem:
  "get_writable_roots_with_cwd env (WorkspaceWrite a b c d e) cwd = Some roots \<Longrightarrow> w \<in> set roots \<Longrightarrow>
     writable_root_of env (root w) = Some w"
  using writable_root_of_root by (fastforce simp: bind_eq_Some_conv dest: expect_map_mem)

lemma expect_map_roots: "expect_map (writable_root_of env) rs = Some ws \<Longrightarrow> map root ws = rs"
  by (auto simp: expect_map_eq_Some_iff list_all2_conv_all_nth writable_root_of_root intro!: nth_equalityI)

text \<open>C34: The roots of a workspace-write policy are the configured ones, the working directory,
  and the temporary directories not excluded, in this order; a \<open>.git\<close> file or directory at
  the top of a root and the \<open>.agents\<close> and \<open>.codex\<close> directories are not writable through
  that root, nor is anything below them.\<close>

theorem workspace_roots_protected:
  assumes "get_writable_roots_with_cwd env (WorkspaceWrite configured access net no_tmpdir no_slash_tmp) cwd = Some roots"
  shows "(\<exists>slash_tmp. slash_tmp_root env no_slash_tmp = Some slash_tmp \<and>
      map root roots = configured @ ok_list (from_absolute_path env cwd) @ slash_tmp @ tmpdir_root env no_tmpdir) \<and>
    (\<forall>w \<in> set roots. \<forall>name protected p.
       name \<in> {lit ''.git'', lit ''.agents'', lit ''.codex''} \<and> abs_join env (root w) name = Inr protected \<and>
       (fs_is_dir env protected \<or> name = lit ''.git'' \<and> fs_is_file env protected) \<and>
       path_starts_with p protected \<longrightarrow> \<not> is_path_writable w p)"
proof (intro conjI ballI allI impI)
  show "\<exists>slash_tmp. slash_tmp_root env no_slash_tmp = Some slash_tmp \<and>
      map root roots = configured @ ok_list (from_absolute_path env cwd) @ slash_tmp @ tmpdir_root env no_tmpdir"
    using assms by (auto simp: bind_eq_Some_conv expect_map_roots)
next
  fix w name protected p
  assume w: "w \<in> set roots" and asm: "name \<in> {lit ''.git'', lit ''.agents'', lit ''.codex''} \<and>
    abs_join env (root w) name = Inr protected \<and>
    (fs_is_dir env protected \<or> name = lit ''.git'' \<and> fs_is_file env protected) \<and>
    path_starts_with p protected"
  from assms w have "writable_root_of env (root w) = Some w"
    by (rule workspace_roots_mem)
  from writable_root_of_SomeD [OF this] obtain g ag co where
    "abs_join env (root w) (lit ''.git'') = Inr g" "abs_join env (root w) (lit ''.agents'') = Inr ag"
    "abs_join env (root w) (lit ''.codex'') = Inr co"
    and sub: "read_only_subpaths w = git_subpaths env g @ filter (fs_is_dir env) [ag, co]"
    by blast
  with asm git_subpaths_mem [of env g] have "protected \<in> set (read_only_subpaths w)"
    by auto
  with asm show "\<not> is_path_writable w p"
    by (auto simp: is_path_writable_def list_ex_iff)
qed

text \<open>An environment whose paths are already normal: used by the witnesses.\<close>

definition plain_env :: "(path \<Rightarrow> bool) \<Rightarrow> (path \<Rightarrow> bool) \<Rightarrow> ustr \<Rightarrow> unit path_env" where
  "plain_env files dirs contents =
     \<lparr>os = Linux, home_dir = None, absolutize = (\<lambda>p. Inr (components p)),
      absolutize_from = (\<lambda>p base. Inr (if is_absolute p then components p else base @ components p)),
      fs_is_file = files, fs_is_dir = dirs, fs_exists = (\<lambda>_. True),
      fs_read_to_string = (\<lambda>_. Inr contents), var_tmpdir = None\<rparr>"

lemma plain_env_simps [simp]:
  "fs_is_file (plain_env files dirs contents) = files" "fs_is_dir (plain_env files dirs contents) = dirs"
  "fs_exists (plain_env files dirs contents) p" "os (plain_env files dirs contents) = Linux"
  "fs_read_to_string (plain_env files dirs contents) p = Inr contents"
  "var_tmpdir (plain_env files dirs contents) = None"
  by (simp_all add: plain_env_def)

lemma plain_env_resolve:
  "resolve_path_against_base (plain_env files dirs contents) p base =
     Inr (if is_absolute p then components p else base @ components p)"
  "from_absolute_path (plain_env files dirs contents) p = Inr (components p)"
  by (simp_all add: resolve_path_against_base_def from_absolute_path_def maybe_expand_home_directory_def
      plain_env_def)

abbreviation workspace_only :: sandbox_policy where
  "workspace_only \<equiv> WorkspaceWrite [] FullAccess False True True"

lemma relative_names [simp]:
  "is_absolute (lit ''.git'') = False" "is_absolute (lit ''.agents'') = False"
  "is_absolute (lit ''.codex'') = False" "is_absolute (lit ''/w'') = True"
  "components (lit ''.git'') = [Normal (lit ''.git'')]"
  "components (lit ''.agents'') = [Normal (lit ''.agents'')]"
  "components (lit ''.codex'') = [Normal (lit ''.codex'')]"
  "components (lit ''/w'') = [RootDir, Normal (lit ''w'')]"
  by (simp_all add: components_def segment_component_def is_absolute_def Let_def str_ops)

lemma plain_workspace_roots:
  "get_writable_roots_with_cwd (plain_env files dirs contents) workspace_only (lit ''/w'') =
     Some [\<lparr>root = [RootDir, Normal (lit ''w'')],
            read_only_subpaths =
              git_subpaths (plain_env files dirs contents) [RootDir, Normal (lit ''w''), Normal (lit ''.git'')] @
              filter dirs [[RootDir, Normal (lit ''w''), Normal (lit ''.agents'')],
                           [RootDir, Normal (lit ''w''), Normal (lit ''.codex'')]]\<rparr>]"
  by (simp add: plain_env_resolve slash_tmp_root_def tmpdir_root_def ok_list_def writable_root_of_def abs_join_def)

theorem workspace_roots_protected_witness:
  "\<exists>roots. get_writable_roots_with_cwd (plain_env (\<lambda>_. False) (\<lambda>_. True) []) workspace_only (lit ''/w'') = Some roots \<and>
     (\<forall>w \<in> set roots. \<not> is_path_writable w [RootDir, Normal (lit ''w''), Normal (lit ''.git''), Normal (lit ''hooks'')])"
proof -
  let ?env = "plain_env (\<lambda>_. False) (\<lambda>_. True) []"
  obtain roots where r: "get_writable_roots_with_cwd ?env workspace_only (lit ''/w'') = Some roots"
    and one: "map root roots = [[RootDir, Normal (lit ''w'')]]"
    using plain_workspace_roots [of "\<lambda>_. False" "\<lambda>_. True" "[]"] by simp
  have "abs_join ?env [RootDir, Normal (lit ''w'')] (lit ''.git'') = Inr [RootDir, Normal (lit ''w''), Normal (lit ''.git'')]"
    by (simp add: abs_join_def plain_env_resolve)
  moreover have "fs_is_dir ?env g" for g by simp
  moreover have "path_starts_with [RootDir, Normal (lit ''w''), Normal (lit ''.git''), Normal (lit ''hooks'')]
      [RootDir, Normal (lit ''w''), Normal (lit ''.git'')]"
    by (simp add: path_starts_with_def)
  ultimately show ?thesis
    using conjunct2 [OF workspace_roots_protected [OF r]] one r by (fastforce simp: Cons_eq_map_conv)
qed

text \<open>The read-only subpaths of a writable root are not all under the root: the target of a
  \<open>gitdir:\<close> pointer file is added wherever it lies.\<close>

theorem gitdir_subpath_outside_root:
  "\<exists>files dirs contents roots w sub.
     get_writable_roots_with_cwd (plain_env files dirs contents) workspace_only (lit ''/w'') = Some roots \<and>
     w \<in> set roots \<and> sub \<in> set (read_only_subpaths w) \<and> \<not> path_starts_with sub (root w)"
proof -
  let ?git = "[RootDir, Normal (lit ''w''), Normal (lit ''.git'')]"
  let ?env = "plain_env (\<lambda>p. p = ?git) (\<lambda>_. False) (lit ''gitdir: /g'')"
  have "split_once 58 (trim (lit ''gitdir: /g'')) = Some (lit ''gitdir'', lit '' /g'')"
    and "trim (lit '' /g'') = lit ''/g''" and "is_absolute (lit ''/g'')"
    by (simp_all add: str_ops is_absolute_def)
  then have "resolve_gitdir_from_file ?env ?git = Some (components (lit ''/g''))"
    by (simp add: resolve_gitdir_from_file_def plain_env_resolve parent_def Let_def)
  then have "git_subpaths ?env ?git = [components (lit ''/g''), ?git]"
    by (simp add: git_subpaths_def is_git_pointer_file_def path_file_name_def Let_def)
  moreover have "\<not> path_starts_with (components (lit ''/g'')) [RootDir, Normal (lit ''w'')]"
    by (simp add: path_starts_with_def components_def segment_component_def is_absolute_def Let_def str_ops)
  ultimately show ?thesis
    using plain_workspace_roots [of "\<lambda>p. p = ?git" "\<lambda>_. False" "lit ''gitdir: /g''"]
    by (intro exI [of _ "\<lambda>p. p = ?git"] exI [of _ "\<lambda>_. False"] exI [of _ "lit ''gitdir: /g''"] exI) fastforce
qed

text \<open>Under a policy that restricts reads to a workspace, every writable root is also
  readable, and no root is listed twice.\<close>

theorem writable_roots_readable:
  assumes "get_readable_roots_with_cwd env (WorkspaceWrite configured access net no_tmpdir no_slash_tmp) cwd = Some readable"
  shows "distinct readable \<and>
    (\<exists>roots. get_writable_roots_with_cwd env (WorkspaceWrite configured access net no_tmpdir no_slash_tmp) cwd = Some roots \<and>
       set (map root roots) \<subseteq> set readable \<and>
       (access = FullAccess \<longrightarrow> set readable = set (map root roots)))"
  using assms
  by (auto simp: bind_eq_Some_conv retain_unseen_set retain_unseen_distinct access_readable_roots_def
      simp del: get_writable_roots_with_cwd.simps)

theorem writable_roots_readable_witness:
  "\<exists>readable. get_readable_roots_with_cwd (plain_env (\<lambda>_. False) (\<lambda>_. False) []) workspace_only (lit ''/w'') = Some readable \<and>
     [RootDir, Normal (lit ''w'')] \<in> set readable"
proof -
  let ?env = "plain_env (\<lambda>_. False) (\<lambda>_. False) []"
  obtain roots where w: "get_writable_roots_with_cwd ?env workspace_only (lit ''/w'') = Some roots"
    and one: "map root roots = [[RootDir, Normal (lit ''w'')]]"
    using plain_workspace_roots [of "\<lambda>_. False" "\<lambda>_. False" "[]"] by simp
  then obtain readable where r: "get_readable_roots_with_cwd ?env workspace_only (lit ''/w'') = Some readable"
    by (simp add: access_readable_roots_def del: get_writable_roots_with_cwd.simps)
  from writable_roots_readable [OF r] w one have "[RootDir, Normal (lit ''w'')] \<in> set readable"
    by (fastforce simp del: get_writable_roots_with_cwd.simps)
  with r show ?thesis by blast
qed

section \<open>Auto-approved patches\<close>

fun touched_paths :: "ustr \<times> file_change \<Rightarrow> ustr set" where
  "touched_paths (p, Add _) = {p}"
| "touched_paths (p, Delete _) = {p}"
| "touched_paths (p, Update _ dest _) = insert p (set_option dest)"

lemma change_writable_iff:
  "change_writable roots cwd change \<longleftrightarrow> (\<forall>q \<in> touched_paths change. patch_path_writable roots cwd q)"
  by (cases change rule: touched_paths.cases) (auto split: option.splits)

lemma patch_path_writable_iff:
  "patch_path_writable roots cwd q \<longleftrightarrow>
     (\<exists>w \<in> set roots. path_starts_with (normalize (components (resolve_path cwd q))) (root w) \<and>
        (\<forall>sub \<in> set (read_only_subpaths w).
           \<not> path_starts_with (normalize (components (resolve_path cwd q))) sub))"
  by (auto simp: patch_path_writable_def is_path_writable_def list_ex_iff)

text \<open>Under a workspace-write policy (and an approval policy other than on-failure) a patch is
  auto-approved only to run in the platform's sandbox and only when every path it touches, the
  destination of a move included, lies under some writable root and under none of the root's
  read-only subpaths.\<close>

theorem patch_auto_approval_confined:
  assumes "assess_patch_safety env changes approval (WorkspaceWrite configured access net no_tmpdir no_slash_tmp)
      cwd win = Some (AutoApprove s user)"
    and "approval \<noteq> OnFailure"
  shows "changes \<noteq> [] \<and> approval \<noteq> UnlessTrusted \<and> \<not> user \<and> get_platform_sandbox (os env) win = Some s \<and>
    (\<exists>roots. get_writable_roots_with_cwd env (WorkspaceWrite configured access net no_tmpdir no_slash_tmp) cwd = Some roots \<and>
      (\<forall>change \<in> set changes. \<forall>q \<in> touched_paths change. \<exists>w \<in> set roots.
         path_starts_with (normalize (components (resolve_path cwd q))) (root w) \<and>
         (\<forall>sub \<in> set (read_only_subpaths w).
            \<not> path_starts_with (normalize (components (resolve_path cwd q))) sub)))"
  using assms
  by (auto simp: assess_patch_safety_def bind_eq_Some_conv list_all_iff change_writable_iff
      patch_path_writable_iff split: if_splits option.splits simp del: get_writable_roots_with_cwd.simps)

lemma plain_add_approved:
  "assess_patch_safety (plain_env (\<lambda>_. False) (\<lambda>_. False) []) [(lit ''a'', Add [])] OnRequest
     workspace_only (lit ''/w'') False = Some (AutoApprove LinuxSeccomp False)"
proof -
  have "normalize (components (resolve_path (lit ''/w'') (lit ''a''))) =
      [RootDir, Normal (lit ''w''), Normal (lit ''a'')]"
    by (simp add: resolve_path_def join_def components_def segment_component_def is_absolute_def
        normalize_def Let_def str_ops)
  then have "patch_path_writable [\<lparr>root = [RootDir, Normal (lit ''w'')], read_only_subpaths = []\<rparr>] (lit ''/w'') (lit ''a'')"
    by (simp add: patch_path_writable_def is_path_writable_def path_starts_with_def)
  then show ?thesis
    using plain_workspace_roots [of "\<lambda>_. False" "\<lambda>_. False" "[]"]
    by (simp add: assess_patch_safety_def git_subpaths_def del: get_writable_roots_with_cwd.simps)
qed

theorem patch_auto_approval_confined_witness:
  "\<exists>roots. get_writable_roots_with_cwd (plain_env (\<lambda>_. False) (\<lambda>_. False) []) workspace_only (lit ''/w'') = Some roots \<and>
     (\<exists>w \<in> set roots. path_starts_with (normalize (components (resolve_path (lit ''/w'') (lit ''a'')))) (root w))"
  using patch_auto_approval_confined [OF plain_add_approved]
  by (fastforce simp del: get_writable_roots_with_cwd.simps)

text \<open>A never-ask policy asks the user about a patch exactly when the patch stays in the
  workspace and the platform has no sandbox to run it in.\<close>

theorem never_asks_only_without_sandbox:
  "assess_patch_safety env changes Never sandbox cwd win = Some AskUser \<longleftrightarrow>
     changes \<noteq> [] \<and> \<not> has_full_disk_write_access sandbox \<and>
     get_platform_sandbox (os env) win = None \<and>
     is_write_patch_constrained_to_writable_paths env changes sandbox cwd = Some True"
  by (cases sandbox) (auto simp: assess_patch_safety_def bind_eq_Some_conv split: if_splits option.splits
      simp del: get_writable_roots_with_cwd.simps)

end
