(* ===== verification/ExecApproval.thy ===== *)
theory ExecApproval
  imports ExecPolicyFiles CommandSafety SandboxPolicies
begin

text \<open>
  \<open>core/src/exec_policy.rs\<close>: which commands of an invocation are checked, the fallback
  decision of a command no rule matches, the approval requirement of an invocation with its
  reason and proposed amendment, the amendment of the policy, and the loading of the policy
  from the layers of the configuration. A Unix build is modelled, so \<open>cfg!(windows)\<close> is
  false.
\<close>

section \<open>Requirements\<close>

type_synonym execpolicy_amendment = "ustr list"

datatype exec_approval_requirement =
    Skip (bypass_sandbox: bool) (skip_amendment: "execpolicy_amendment option")
  | NeedsApproval (approval_reason: "ustr option") (approval_amendment: "execpolicy_amendment option")
  | ForbiddenReq (forbidden_reason: ustr)

record safety_env =
  on_linux :: bool
  ts_parse :: "ustr \<Rightarrow> ts_tree option"
  ps_parser :: ps_env
  shlex_join :: "ustr list \<Rightarrow> ustr option"

definition safe_command :: "safety_env \<Rightarrow> ustr list \<Rightarrow> bool" where
  "safe_command env cmd = is_known_safe_command (on_linux env) (ts_parse env) (ps_parser env) cmd"

definition dangerous_command :: "safety_env \<Rightarrow> ustr list \<Rightarrow> bool" where
  "dangerous_command env cmd = command_might_be_dangerous (ts_parse env) cmd"

definition render_decision_for_unmatched_command ::
  "safety_env \<Rightarrow> ask_for_approval \<Rightarrow> sandbox_policy \<Rightarrow> ustr list \<Rightarrow> sandbox_permissions \<Rightarrow> decision" where
  "render_decision_for_unmatched_command env approval sandbox cmd permissions =
     (if safe_command env cmd then Allow
      else
        let cfg_windows = False;
            runtime_sandbox_provides_safety =
              cfg_windows \<and> (case sandbox of ReadOnly _ \<Rightarrow> True | _ \<Rightarrow> False)
        in if dangerous_command env cmd \<or> runtime_sandbox_provides_safety then
             (if approval = Never then Forbidden else Prompt)
           else
             (case approval of
                Never \<Rightarrow> Allow
              | OnFailure \<Rightarrow> Allow
              | UnlessTrusted \<Rightarrow> Prompt
              | OnRequest \<Rightarrow>
                  (case sandbox of
                     DangerFullAccess \<Rightarrow> Allow
                   | ExternalSandbox _ \<Rightarrow> Allow
                   | ReadOnly _ \<Rightarrow> if requires_escalated_permissions permissions then Prompt else Allow
                   | WorkspaceWrite _ _ _ _ _ \<Rightarrow>
                       if requires_escalated_permissions permissions then Prompt else Allow)))"

definition commands_for_exec_policy :: "safety_env \<Rightarrow> ustr list \<Rightarrow> ustr list list \<times> bool" where
  "commands_for_exec_policy env command =
     (case parse_shell_lc_plain_commands (ts_parse env) command of
        Some (c # cs) \<Rightarrow> (c # cs, False)
      | _ \<Rightarrow>
          (case parse_shell_lc_single_command_prefix (ts_parse env) command of
             Some single_command \<Rightarrow> ([single_command], True)
           | None \<Rightarrow> ([command], False)))"

section \<open>Proposed amendments and reasons\<close>

definition banned_prefix_suggestions :: "ustr list list" where
  "banned_prefix_suggestions = map (map lit)
     [[''python3''], [''python3'', ''-''], [''python3'', ''-c''], [''python''], [''python'', ''-''],
      [''python'', ''-c''], [''py''], [''py'', ''-3''], [''pythonw''], [''pyw''], [''pypy''], [''pypy3''],
      [''git''], [''bash''], [''bash'', ''-lc''], [''sh''], [''sh'', ''-c''], [''sh'', ''-lc''],
      [''zsh''], [''zsh'', ''-lc''], [''/bin/zsh''], [''/bin/zsh'', ''-lc''],
      [''/bin/bash''], [''/bin/bash'', ''-lc''], [''pwsh''], [''pwsh'', ''-Command''], [''pwsh'', ''-c''],
      [''powershell''], [''powershell'', ''-Command''], [''powershell'', ''-c''],
      [''powershell.exe''], [''powershell.exe'', ''-Command''], [''powershell.exe'', ''-c''],
      [''env''], [''sudo''], [''node''], [''node'', ''-e''], [''perl''], [''perl'', ''-e''],
      [''ruby''], [''ruby'', ''-e''], [''php''], [''php'', ''-r''], [''lua''], [''lua'', ''-e''],
      [''osascript'']]"

definition policy_prompts :: "rule_match list \<Rightarrow> bool" where
  "policy_prompts matched_rules \<longleftrightarrow>
     list_ex (\<lambda>m. is_policy_match m \<and> match_decision m = Prompt) matched_rules"

fun heuristics_with :: "decision \<Rightarrow> rule_match \<Rightarrow> execpolicy_amendment option" where
  "heuristics_with d (HeuristicsRuleMatch command d') = (if d' = d then Some command else None)"
| "heuristics_with d (PrefixRuleMatch _ _ _) = None"

definition try_derive_amendment_for_prompt_rules :: "rule_match list \<Rightarrow> execpolicy_amendment option" where
  "try_derive_amendment_for_prompt_rules matched_rules =
     (if policy_prompts matched_rules then None
      else find_map (heuristics_with Prompt) matched_rules)"

definition try_derive_amendment_for_allow_rules :: "rule_match list \<Rightarrow> execpolicy_amendment option" where
  "try_derive_amendment_for_allow_rules matched_rules =
     (if list_ex is_policy_match matched_rules then None
      else find_map (heuristics_with Allow) matched_rules)"

definition derive_requested_amendment ::
  "ustr list option \<Rightarrow> rule_match list \<Rightarrow> execpolicy_amendment option" where
  "derive_requested_amendment prefix_rule_arg matched_rules =
     (case prefix_rule_arg of
        None \<Rightarrow> None
      | Some pfx \<Rightarrow>
          if pfx = [] then None
          else if list_ex (\<lambda>banned. length pfx = length banned \<and> pfx = banned) banned_prefix_suggestions then None
          else if policy_prompts matched_rules then None
          else Some pfx)"

text \<open>\<open>Iterator::max_by_key\<close>: the last of the elements with the greatest key.\<close>

fun max_by_key :: "('a \<Rightarrow> nat) \<Rightarrow> 'a list \<Rightarrow> 'a option" where
  "max_by_key k [] = None"
| "max_by_key k (x # xs) =
     (case max_by_key k xs of None \<Rightarrow> Some x | Some y \<Rightarrow> if k y < k x then Some x else Some y)"

definition render_shlex_command :: "safety_env \<Rightarrow> ustr list \<Rightarrow> ustr" where
  "render_shlex_command env args =
     (case shlex_join env args of Some s \<Rightarrow> s | None \<Rightarrow> join_with (lit '' '') args)"

fun prefix_match_with :: "decision \<Rightarrow> rule_match \<Rightarrow> (ustr list \<times> ustr option) option" where
  "prefix_match_with d (PrefixRuleMatch matched_prefix d' justification) =
     (if d' = d then Some (matched_prefix, justification) else None)"
| "prefix_match_with d (HeuristicsRuleMatch _ _) = None"

abbreviation backtick :: ustr where
  "backtick \<equiv> [96]"

definition derive_prompt_reason :: "safety_env \<Rightarrow> ustr list \<Rightarrow> evaluation \<Rightarrow> ustr option" where
  "derive_prompt_reason env command_args ev =
     (let command = render_shlex_command env command_args;
          most_specific_prompt =
            max_by_key (\<lambda>(len, _). len)
              (map (\<lambda>(pfx, j). (length pfx, j))
                 (List.map_filter (prefix_match_with Prompt) (ev_matched_rules ev)))
      in case most_specific_prompt of
           Some (_, Some justification) \<Rightarrow>
             Some (backtick @ command @ backtick @ lit '' requires approval: '' @ justification)
         | Some (_, None) \<Rightarrow> Some (backtick @ command @ backtick @ lit '' requires approval by policy'')
         | None \<Rightarrow> None)"

definition derive_forbidden_reason :: "safety_env \<Rightarrow> ustr list \<Rightarrow> evaluation \<Rightarrow> ustr" where
  "derive_forbidden_reason env command_args ev =
     (let command = render_shlex_command env command_args;
          most_specific_forbidden =
            max_by_key (\<lambda>(pfx, _). length pfx)
              (List.map_filter (prefix_match_with Forbidden) (ev_matched_rules ev))
      in case most_specific_forbidden of
           Some (_, Some justification) \<Rightarrow> backtick @ command @ backtick @ lit '' rejected: '' @ justification
         | Some (matched_prefix, None) \<Rightarrow>
             backtick @ command @ backtick @ lit '' rejected: policy forbids commands starting with '' @
             backtick @ render_shlex_command env matched_prefix @ backtick
         | None \<Rightarrow> backtick @ command @ backtick @ lit '' rejected: blocked by policy'')"

definition prompt_conflict_reason :: ustr where
  "prompt_conflict_reason = lit ''approval required by policy, but AskForApproval is set to Never''"

section \<open>The approval requirement of an invocation\<close>

record exec_approval_request =
  req_command :: "ustr list"
  req_approval_policy :: ask_for_approval
  req_sandbox_policy :: sandbox_policy
  req_sandbox_permissions :: sandbox_permissions
  req_prefix_rule :: "ustr list option"

definition requirement_of_evaluation ::
  "safety_env \<Rightarrow> exec_approval_request \<Rightarrow> bool \<Rightarrow> evaluation \<Rightarrow> exec_approval_requirement" where
  "requirement_of_evaluation env req auto_amendment_allowed ev =
     (let requested_amendment = derive_requested_amendment (req_prefix_rule req) (ev_matched_rules ev)
      in case ev_decision ev of
           Forbidden \<Rightarrow> ForbiddenReq (derive_forbidden_reason env (req_command req) ev)
         | Prompt \<Rightarrow>
             if req_approval_policy req = Never then ForbiddenReq prompt_conflict_reason
             else NeedsApproval (derive_prompt_reason env (req_command req) ev)
                    (case requested_amendment of
                       Some a \<Rightarrow> Some a
                     | None \<Rightarrow>
                         if auto_amendment_allowed
                         then try_derive_amendment_for_prompt_rules (ev_matched_rules ev) else None)
         | Allow \<Rightarrow>
             Skip (list_ex (\<lambda>m. is_policy_match m \<and> match_decision m = Allow) (ev_matched_rules ev))
               (if auto_amendment_allowed
                then try_derive_amendment_for_allow_rules (ev_matched_rules ev) else None))"

definition exec_policy_fallback :: "safety_env \<Rightarrow> exec_approval_request \<Rightarrow> ustr list \<Rightarrow> decision" where
  "exec_policy_fallback env req cmd =
     render_decision_for_unmatched_command env (req_approval_policy req) (req_sandbox_policy req) cmd
       (req_sandbox_permissions req)"

text \<open>\<open>None\<close> is the panic of an evaluation with no match.\<close>

definition create_exec_approval_requirement_for_command ::
  "('m, prefix_rule) multimap_ops \<Rightarrow> safety_env \<Rightarrow> 'm policy \<Rightarrow> exec_approval_request
    \<Rightarrow> exec_approval_requirement option" where
  "create_exec_approval_requirement_for_command mm env exec_policy req =
     (case commands_for_exec_policy env (req_command req) of (commands, used_heredoc_fallback) \<Rightarrow>
        map_option (requirement_of_evaluation env req (\<not> used_heredoc_fallback))
          (check_multiple mm exec_policy commands (exec_policy_fallback env req)))"

section \<open>Amending the policy\<close>

definition default_policy_path :: "ustr \<Rightarrow> ustr" where
  "default_policy_path codex_home = join (join codex_home (lit ''rules'')) (lit ''default.rules'')"

datatype ('e, 'x) update_error =
    AppendRule ustr "'e amend_error"
  | JoinBlockingTask 'e
  | AddRule "'x policy_error"

text \<open>\<open>join_error\<close> is the failure of the blocking task itself. The result, the policy held in
  memory afterwards and the bytes appended to the rules file.\<close>

definition append_amendment_and_update ::
  "('m, prefix_rule) multimap_ops \<Rightarrow> 'e amend_io \<Rightarrow> 'e option \<Rightarrow> 'm policy \<Rightarrow> ustr \<Rightarrow> execpolicy_amendment
    \<Rightarrow> (('e, 'x) update_error + unit) \<times> 'm policy \<times> ustr" where
  "append_amendment_and_update mm io join_error current codex_home amendment =
     (let policy_path = default_policy_path codex_home;
          appended = blocking_append_allow_prefix_rule io policy_path amendment
      in case join_error of
           Some source \<Rightarrow> (Inl (JoinBlockingTask source), current, snd appended)
         | None \<Rightarrow>
             (case fst appended of
                Inl source \<Rightarrow> (Inl (AppendRule policy_path source), current, snd appended)
              | Inr _ \<Rightarrow>
                  (case add_prefix_rule mm current amendment Allow of
                     Inl source \<Rightarrow> (Inl (AddRule source), current, snd appended)
                   | Inr updated_policy \<Rightarrow> (Inr (), updated_policy, snd appended))))"

section \<open>Loading the policy\<close>

text \<open>Paths compare by their components, in the order of the derived \<open>Ord\<close>.\<close>

fun component_rank :: "component \<Rightarrow> nat \<times> ustr" where
  "component_rank RootDir = (0, [])"
| "component_rank CurDir = (1, [])"
| "component_rank ParentDir = (2, [])"
| "component_rank (Normal s) = (3, s)"

definition path_key :: "ustr \<Rightarrow> ustr list" where
  "path_key p = map (\<lambda>c. fst (component_rank c) # snd (component_rank c)) (components p)"

datatype ('e, 'x) exec_policy_error =
    ReadDir ustr 'e
  | ReadFile ustr 'e
  | ParsePolicy ustr "'x policy_error"

text \<open>\<open>fs::read_dir\<close>: the directory does not exist, cannot be read, or yields entries, each a
  name with the outcome of \<open>file_type\<close> (is it a file) or an error.\<close>

datatype 'e dir_listing =
    DirNotFound
  | DirError 'e
  | DirEntries "('e + ustr \<times> ('e + bool)) list"

text \<open>\<open>Path::extension\<close>.\<close>

definition extension :: "ustr \<Rightarrow> ustr option" where
  "extension p =
     Option.bind (file_name p) (\<lambda>n.
       if stem_of n = n then None else Some (drop (length (stem_of n) + 1) n))"

fun collect_entries ::
  "ustr \<Rightarrow> ('e + ustr \<times> ('e + bool)) list \<Rightarrow> ('e, 'x) exec_policy_error + ustr list" where
  "collect_entries dir [] = Inr []"
| "collect_entries dir (next_entry # rest) =
     bindE (map_errE (ReadDir dir) next_entry) (\<lambda>(name, file_type).
     bindE (map_errE (ReadDir dir) file_type) (\<lambda>is_file.
     bindE (collect_entries dir rest) (\<lambda>policy_paths.
       let p = join dir name
       in Inr (if extension p = Some (lit ''rules'') \<and> is_file then p # policy_paths else policy_paths))))"

definition collect_policy_files ::
  "(ustr \<Rightarrow> 'e dir_listing) \<Rightarrow> ustr \<Rightarrow> ('e, 'x) exec_policy_error + ustr list" where
  "collect_policy_files read_dir dir =
     (case read_dir dir of
        DirNotFound \<Rightarrow> Inr []
      | DirError source \<Rightarrow> Inl (ReadDir dir source)
      | DirEntries entries \<Rightarrow>
          bindE (collect_entries dir entries) (\<lambda>policy_paths. Inr (sort_key path_key policy_paths)))"

text \<open>The enabled layers from lowest to highest precedence, each with its configuration
  folder (absolute and normalised), and the policy the requirements impose.\<close>

record 'm config_stack =
  config_folders :: "ustr option list"
  requirements_policy :: "'m policy option"

fun collect_layers ::
  "(ustr \<Rightarrow> 'e dir_listing) \<Rightarrow> ustr option list \<Rightarrow> ('e, 'x) exec_policy_error + ustr list" where
  "collect_layers read_dir [] = Inr []"
| "collect_layers read_dir (None # layers) = collect_layers read_dir layers"
| "collect_layers read_dir (Some folder # layers) =
     bindE (collect_policy_files read_dir (join folder (lit ''rules''))) (\<lambda>layer_policy_paths.
     bindE (collect_layers read_dir layers) (\<lambda>policy_paths. Inr (layer_policy_paths @ policy_paths)))"

fun parse_policy_files ::
  "(ustr \<Rightarrow> 'e + ustr) \<Rightarrow> (ustr \<Rightarrow> ustr \<Rightarrow> 'b \<Rightarrow> 'x policy_error + 'b) \<Rightarrow> ustr list \<Rightarrow> 'b
    \<Rightarrow> ('e, 'x) exec_policy_error + 'b" where
  "parse_policy_files read parse [] parser = Inr parser"
| "parse_policy_files read parse (policy_path # policy_paths) parser =
     bindE (map_errE (ReadFile policy_path) (read policy_path)) (\<lambda>contents.
     bindE (map_errE (ParsePolicy policy_path) (parse policy_path contents parser))
       (parse_policy_files read parse policy_paths))"

definition combine_rules ::
  "('m, prefix_rule) multimap_ops \<Rightarrow> 'm policy \<Rightarrow> 'm policy \<Rightarrow> 'm policy" where
  "combine_rules mm policy requirements =
     \<lparr>rules_by_program =
        fold (\<lambda>(prog, rules) m. fold (\<lambda>rule m. mm_insert mm m prog rule) rules m)
          (mm_iter_all mm (rules_by_program requirements)) (rules_by_program policy)\<rparr>"

record ('e, 'x, 'm) policy_source =
  src_read_dir :: "ustr \<Rightarrow> 'e dir_listing"
  src_read :: "ustr \<Rightarrow> 'e + ustr"
  src_parse :: "ustr \<Rightarrow> ustr \<Rightarrow> 'm policy_builder \<Rightarrow> 'x policy_error + 'm policy_builder"

definition load_exec_policy ::
  "('m, prefix_rule) multimap_ops \<Rightarrow> ('e, 'x, 'm) policy_source \<Rightarrow> 'm config_stack
    \<Rightarrow> ('e, 'x) exec_policy_error + 'm policy" where
  "load_exec_policy mm src stack =
     bindE (collect_layers (src_read_dir src) (config_folders stack)) (\<lambda>policy_paths.
     bindE (parse_policy_files (src_read src) (src_parse src) policy_paths (builder_new mm)) (\<lambda>parser.
       let policy = build parser
       in case requirements_policy stack of
            None \<Rightarrow> Inr policy
          | Some requirements \<Rightarrow> Inr (combine_rules mm policy requirements)))"

definition load_exec_policy_with_warning ::
  "('m, prefix_rule) multimap_ops \<Rightarrow> ('e, 'x, 'm) policy_source \<Rightarrow> 'm config_stack
    \<Rightarrow> ('e, 'x) exec_policy_error + 'm policy \<times> ('e, 'x) exec_policy_error option" where
  "load_exec_policy_with_warning mm src stack =
     (case load_exec_policy mm src stack of
        Inr policy \<Rightarrow> Inr (policy, None)
      | Inl (ParsePolicy p e) \<Rightarrow> Inr (policy_empty mm, Some (ParsePolicy p e))
      | Inl err \<Rightarrow> Inl err)"

definition check_execpolicy_for_warnings ::
  "('m, prefix_rule) multimap_ops \<Rightarrow> ('e, 'x, 'm) policy_source \<Rightarrow> 'm config_stack
    \<Rightarrow> ('e, 'x) exec_policy_error + ('e, 'x) exec_policy_error option" where
  "check_execpolicy_for_warnings mm src stack =
     bindE (load_exec_policy_with_warning mm src stack) (\<lambda>(_, warning). Inr warning)"

section \<open>Displaying a load error\<close>

text \<open>\<open>str::rsplit_once\<close>: around the last occurrence of a pattern.\<close>

fun rsplit_once :: "ustr \<Rightarrow> ustr \<Rightarrow> (ustr \<times> ustr) option" where
  "rsplit_once pat [] = (if pat = [] then Some ([], []) else None)"
| "rsplit_once pat (c # s) =
     (case rsplit_once pat s of
        Some (before, after) \<Rightarrow> Some (c # before, after)
      | None \<Rightarrow> map_option (Pair []) (strip_prefix (c # s) pat))"

text \<open>\<open>str::parse::<usize>\<close>.\<close>

definition parse_usize :: "ustr \<Rightarrow> nat option" where
  "parse_usize s =
     (let ds = (if s \<noteq> [] \<and> hd s = 43 then tl s else s);
          n = foldl (\<lambda>n d. 10 * n + (d - 48)) 0 ds
      in if ds = [] \<or> \<not> list_all is_ascii_digit ds \<or> usize_max < n then None else Some n)"

definition exec_policy_message_for_display :: "ustr \<Rightarrow> ustr" where
  "exec_policy_message_for_display message =
     (case find (\<lambda>line. starts_with (trim_start line) (lit ''error: '')) (str_lines message) of
        Some line \<Rightarrow> line
      | None \<Rightarrow>
          (case (case str_lines message of
                   first_line # _ \<Rightarrow> rsplit_once (lit '': starlark error: '') first_line
                 | [] \<Rightarrow> None) of
             Some (_, detail) \<Rightarrow> trim detail
           | None \<Rightarrow> trim (case str_lines message of first_line # _ \<Rightarrow> first_line | [] \<Rightarrow> [])))"

text \<open>\<open>rsplitn(3, ':')\<close> yields the column, the line and the rest of the text.\<close>

definition parse_starlark_line_from_message :: "ustr \<Rightarrow> (ustr \<times> nat) option" where
  "parse_starlark_line_from_message message =
     (case str_lines message of
        [] \<Rightarrow> None
      | line0 # _ \<Rightarrow>
          Option.bind (rsplit_once (lit '': starlark error:'') (trim line0)) (\<lambda>(path_and_position, _).
            case rev (split_on 58 path_and_position) of
              column # rest \<Rightarrow>
                Option.bind (parse_usize column) (\<lambda>_.
                  case rest of
                    [] \<Rightarrow> None
                  | line_text # rest' \<Rightarrow>
                      Option.bind (parse_usize line_text) (\<lambda>line.
                        if rest' = [] then None
                        else if line = 0 then None
                        else Some (join_with [58] (rev rest'), line)))
            | [] \<Rightarrow> None))"

text \<open>\<open>show_error\<close> and \<open>span\<close> are the interpreter's rendering and location of an error,
  \<open>show_io\<close> the rendering of an I/O error.\<close>

fun exec_policy_error_text ::
  "('e \<Rightarrow> ustr) \<Rightarrow> ('x policy_error \<Rightarrow> ustr) \<Rightarrow> ('e, 'x) exec_policy_error \<Rightarrow> ustr" where
  "exec_policy_error_text show_io show_error (ReadDir dir source) =
     lit ''failed to read rules files from '' @ dir @ lit '': '' @ show_io source"
| "exec_policy_error_text show_io show_error (ReadFile p source) =
     lit ''failed to read rules file '' @ p @ lit '': '' @ show_io source"
| "exec_policy_error_text show_io show_error (ParsePolicy p source) =
     lit ''failed to parse rules file '' @ p @ lit '': '' @ show_error source"

definition parse_error_location ::
  "('x \<Rightarrow> (ustr \<times> (nat \<times> nat) \<times> (nat \<times> nat)) option) \<Rightarrow> ('x policy_error \<Rightarrow> ustr)
    \<Rightarrow> 'x policy_error \<Rightarrow> (ustr \<times> nat) option" where
  "parse_error_location span show_error source =
     (let structured_location =
            map_option (\<lambda>l. (loc_path l, pos_line (range_start (loc_range l)))) (location span source);
          parsed_location = parse_starlark_line_from_message (show_error source)
      in case (structured_location, parsed_location) of
           (Some (p, n), Some (parsed_path, parsed_line)) \<Rightarrow>
             if n = 1 \<and> parsed_line > 1 then Some (parsed_path, parsed_line) else Some (p, n)
         | (Some structured, None) \<Rightarrow> Some structured
         | (None, parsed) \<Rightarrow> parsed)"

fun format_exec_policy_error_with_source ::
  "('e \<Rightarrow> ustr) \<Rightarrow> ('x \<Rightarrow> (ustr \<times> (nat \<times> nat) \<times> (nat \<times> nat)) option) \<Rightarrow> ('x policy_error \<Rightarrow> ustr)
    \<Rightarrow> ('e, 'x) exec_policy_error \<Rightarrow> ustr" where
  "format_exec_policy_error_with_source show_io span show_error (ParsePolicy p source) =
     (let message = exec_policy_message_for_display (show_error source)
      in case parse_error_location span show_error source of
           Some (loc, line) \<Rightarrow>
             loc @ lit '':'' @ show_nat line @ lit '': '' @ message @
             lit '' (problem is on or around line '' @ show_nat line @ lit '')''
         | None \<Rightarrow> p @ lit '': '' @ message)"
| "format_exec_policy_error_with_source show_io span show_error (ReadDir dir source) =
     exec_policy_error_text show_io show_error (ReadDir dir source)"
| "format_exec_policy_error_with_source show_io span show_error (ReadFile p source) =
     exec_policy_error_text show_io show_error (ReadFile p source)"

section \<open>What a requirement guarantees\<close>

lemma commands_for_exec_policy_ne [simp]: "fst (commands_for_exec_policy env command) \<noteq> []"
  by (auto simp: commands_for_exec_policy_def split: option.splits list.splits)

lemma check_multiple_eq_Some_iff:
  "check_multiple mm pol cmds h = Some ev \<longleftrightarrow>
     cmds \<noteq> [] \<and>
     ev_matched_rules ev = concat (map (\<lambda>cmd. matches_for_command mm pol cmd (Some h)) cmds) \<and>
     ev_decision ev = Max (match_decision ` set (ev_matched_rules ev))"
  by (cases cmds) (auto simp: check_multiple_def from_matches_eq_Some_iff)

lemma check_multiple_ex: "cmds \<noteq> [] \<Longrightarrow> \<exists>ev. check_multiple mm pol cmds h = Some ev"
  by (cases "check_multiple mm pol cmds h")
     (auto simp: check_multiple_def from_matches_def split: option.splits list.splits)

lemma evaluation_decisions:
  assumes "check_multiple mm pol cmds h = Some ev" and "cmd \<in> set cmds"
    and "m \<in> set (matches_for_command mm pol cmd (Some h))"
  shows "match_decision m \<le> ev_decision ev"
proof -
  have "m \<in> set (ev_matched_rules ev)"
    using assms by (auto simp: check_multiple_eq_Some_iff)
  then show ?thesis
    using assms(1) by (auto simp: check_multiple_eq_Some_iff)
qed

lemma requirement_ex:
  "\<exists>ev. check_multiple mm pol (fst (commands_for_exec_policy env (req_command req))) (exec_policy_fallback env req) = Some ev \<and>
     create_exec_approval_requirement_for_command mm env pol req =
       Some (requirement_of_evaluation env req (\<not> snd (commands_for_exec_policy env (req_command req))) ev)"
proof -
  obtain ev where "check_multiple mm pol (fst (commands_for_exec_policy env (req_command req)))
      (exec_policy_fallback env req) = Some ev"
    using check_multiple_ex commands_for_exec_policy_ne by blast
  then show ?thesis
    by (auto simp: create_exec_approval_requirement_for_command_def split: prod.splits)
qed

lemma create_requirementE:
  assumes "create_exec_approval_requirement_for_command mm env pol req = Some r"
  obtains ev where
    "check_multiple mm pol (fst (commands_for_exec_policy env (req_command req))) (exec_policy_fallback env req) = Some ev"
    "r = requirement_of_evaluation env req (\<not> snd (commands_for_exec_policy env (req_command req))) ev"
  using assms requirement_ex [of mm pol env req] by auto

lemma fallback_allow_safe:
  "exec_policy_fallback env req cmd = Allow \<Longrightarrow> safe_command env cmd \<or> \<not> dangerous_command env cmd"
  by (auto simp: exec_policy_fallback_def render_decision_for_unmatched_command_def split: if_splits)

text \<open>C2: An invocation is run without asking only when every command it consists of is
  allowed: each rule of the policy that matches one of them allows it, and a command no rule
  matches is known to be safe or at least not flagged as dangerous. The sandbox is bypassed
  exactly when some rule of the policy matched.\<close>

theorem skip_requires_every_part_allowed:
  assumes "create_exec_approval_requirement_for_command mm env pol req = Some (Skip bypass amendment)"
  shows "(\<forall>cmd \<in> set (fst (commands_for_exec_policy env (req_command req))).
      (\<forall>m \<in> set (matches_for_command mm pol cmd None). match_decision m = Allow) \<and>
      (matches_for_command mm pol cmd None = [] \<longrightarrow> safe_command env cmd \<or> \<not> dangerous_command env cmd)) \<and>
    (bypass \<longleftrightarrow> (\<exists>cmd \<in> set (fst (commands_for_exec_policy env (req_command req))).
      matches_for_command mm pol cmd None \<noteq> []))"
proof -
  let ?cmds = "fst (commands_for_exec_policy env (req_command req))"
  let ?h = "exec_policy_fallback env req"
  from assms obtain ev where ev: "check_multiple mm pol ?cmds ?h = Some ev"
    and r: "Skip bypass amendment =
      requirement_of_evaluation env req (\<not> snd (commands_for_exec_policy env (req_command req))) ev"
    by (rule create_requirementE)
  from r have allow: "ev_decision ev = Allow"
    and byp: "bypass \<longleftrightarrow> list_ex (\<lambda>m. is_policy_match m \<and> match_decision m = Allow) (ev_matched_rules ev)"
    by (auto simp: requirement_of_evaluation_def Let_def split: decision.splits if_splits)
  have dec: "match_decision m = Allow"
    if "cmd \<in> set ?cmds" "m \<in> set (matches_for_command mm pol cmd (Some ?h))" for cmd m
    using evaluation_decisions [OF ev that] allow by simp
  have part: "(\<forall>m \<in> set (matches_for_command mm pol cmd None). match_decision m = Allow) \<and>
      (matches_for_command mm pol cmd None = [] \<longrightarrow> safe_command env cmd \<or> \<not> dangerous_command env cmd)"
    if "cmd \<in> set ?cmds" for cmd
    using dec [OF that] fallback_allow_safe [of env req cmd]
    by (cases "matches_for_command mm pol cmd None = []") (auto simp: matches_for_command_fallback)
  have mem: "m \<in> set (ev_matched_rules ev) \<longleftrightarrow>
      (\<exists>cmd \<in> set ?cmds. m \<in> set (matches_for_command mm pol cmd (Some ?h)))" for m
    using ev by (auto simp: check_multiple_eq_Some_iff)
  have "bypass \<longleftrightarrow> (\<exists>cmd \<in> set ?cmds. \<exists>m \<in> set (matches_for_command mm pol cmd (Some ?h)). is_policy_match m)"
    unfolding byp list_ex_iff using dec mem by blast
  also have "\<dots> \<longleftrightarrow> (\<exists>cmd \<in> set ?cmds. matches_for_command mm pol cmd None \<noteq> [])"
    using matches_for_command_policy_match
    by (fastforce simp: matches_for_command_fallback split: if_splits intro: hd_in_set)
  finally show ?thesis
    using part by blast
qed

text \<open>An environment in which nothing is a shell script; used by the witnesses.\<close>

definition bare_env :: safety_env where
  "bare_env = \<lparr>on_linux = False, ts_parse = (\<lambda>_. None), ps_parser = one_command_env [],
               shlex_join = (\<lambda>args. Some (join_with (lit '' '') args))\<rparr>"

lemma bare_commands: "commands_for_exec_policy bare_env cmd = ([cmd], False)"
  by (cases "extract_bash_command cmd")
     (auto simp: commands_for_exec_policy_def bare_env_def parse_shell_lc_plain_commands_def
      parse_shell_lc_single_command_prefix_def)

definition request_for :: "ustr list \<Rightarrow> ask_for_approval \<Rightarrow> sandbox_policy \<Rightarrow> exec_approval_request" where
  "request_for cmd approval sandbox =
     \<lparr>req_command = cmd, req_approval_policy = approval, req_sandbox_policy = sandbox,
      req_sandbox_permissions = UseDefault, req_prefix_rule = None\<rparr>"

definition allow_ls_policy :: "(ustr \<times> prefix_rule list) list policy" where
  "allow_ls_policy =
     \<lparr>rules_by_program = [(lit ''ls'', [\<lparr>rule_pattern = \<lparr>pat_first = lit ''ls'', pat_rest = []\<rparr>,
        rule_decision = Allow, rule_justification = None\<rparr>])]\<rparr>"

lemma allow_ls_matches:
  "matches_for_command alist_multimap allow_ls_policy [lit ''ls''] f = [PrefixRuleMatch [lit ''ls''] Allow None]"
  by (cases f) (simp_all add: matches_for_command_def alist_multimap_def allow_ls_policy_def
      List.map_filter_def rule_matches_def matches_prefix_def Let_def)

lemma allow_ls_skips:
  "create_exec_approval_requirement_for_command alist_multimap bare_env allow_ls_policy
     (request_for [lit ''ls''] OnRequest DangerFullAccess) = Some (Skip True None)"
  by (simp add: create_exec_approval_requirement_for_command_def bare_commands request_for_def
      check_multiple_def allow_ls_matches from_matches_def requirement_of_evaluation_def
      try_derive_amendment_for_allow_rules_def)

theorem skip_requires_every_part_allowed_witness:
  "list_all (\<lambda>m. match_decision m = Allow) (matches_for_command alist_multimap allow_ls_policy [lit ''ls''] None)"
proof -
  have c: "req_command (request_for [lit ''ls''] OnRequest DangerFullAccess) = [lit ''ls'']"
    by (simp add: request_for_def)
  show ?thesis
    using skip_requires_every_part_allowed [OF allow_ls_skips] by (simp add: c bare_commands list_all_iff)
qed

text \<open>C39: The requirement is computed for every invocation. A rule that forbids one of its
  commands forbids the invocation; when nobody may be asked the answer is never to ask; and
  a command that no rule matches, is not known to be safe and is flagged as dangerous is never
  run unasked.\<close>

theorem requirement_total_and_strict:
  "\<exists>r. create_exec_approval_requirement_for_command mm env pol req = Some r \<and>
     (if \<exists>cmd \<in> set (fst (commands_for_exec_policy env (req_command req))).
           \<exists>m \<in> set (matches_for_command mm pol cmd None). match_decision m = Forbidden
      then \<exists>reason. r = ForbiddenReq reason else True) \<and>
     (if req_approval_policy req = Never then \<nexists>reason a. r = NeedsApproval reason a else True) \<and>
     (if \<exists>cmd \<in> set (fst (commands_for_exec_policy env (req_command req))).
           matches_for_command mm pol cmd None = [] \<and> \<not> safe_command env cmd \<and> dangerous_command env cmd
      then \<nexists>bypass a. r = Skip bypass a else True)"
proof -
  let ?cmds = "fst (commands_for_exec_policy env (req_command req))"
  let ?h = "exec_policy_fallback env req"
  from requirement_ex obtain ev where ev: "check_multiple mm pol ?cmds ?h = Some ev"
    and r: "create_exec_approval_requirement_for_command mm env pol req =
       Some (requirement_of_evaluation env req (\<not> snd (commands_for_exec_policy env (req_command req))) ev)"
    by blast
  have forb: "ev_decision ev = Forbidden"
    if "cmd \<in> set ?cmds" "m \<in> set (matches_for_command mm pol cmd None)" "match_decision m = Forbidden" for cmd m
  proof -
    have "m \<in> set (matches_for_command mm pol cmd (Some ?h))"
      using that(2) by (auto simp: matches_for_command_fallback)
    from evaluation_decisions [OF ev that(1) this] that(3) show ?thesis by simp
  qed
  have dang: "ev_decision ev \<noteq> Allow"
    if "cmd \<in> set ?cmds" "matches_for_command mm pol cmd None = []" "\<not> safe_command env cmd"
      "dangerous_command env cmd" for cmd
  proof -
    have "HeuristicsRuleMatch cmd (?h cmd) \<in> set (matches_for_command mm pol cmd (Some ?h))"
      using that(2) by (simp add: matches_for_command_fallback)
    from evaluation_decisions [OF ev that(1) this] fallback_allow_safe [of env req cmd] that(3,4)
    show ?thesis by auto
  qed
  show ?thesis
    unfolding r using forb dang
    by (auto simp: requirement_of_evaluation_def Let_def split: decision.splits if_splits)
qed

section \<open>Amendments take effect\<close>

lemma find_map_heuristics:
  "find_map (heuristics_with d) ms = Some am \<Longrightarrow> HeuristicsRuleMatch am d \<in> set ms"
  by (induction ms) (auto split: option.splits rule_match.splits if_splits elim!: heuristics_with.elims)

lemma heuristics_match_command:
  assumes "HeuristicsRuleMatch am d \<in> set (matches_for_command mm pol cmd (Some h))"
  shows "am = cmd \<and> matches_for_command mm pol cmd None = []"
  using assms matches_for_command_policy_match [of "HeuristicsRuleMatch am d"]
  by (auto simp: matches_for_command_fallback split: if_splits)

text \<open>When the requirement is to ask and it proposes an amendment of its own (no prefix was
  requested), the amendment is one of the commands of the invocation that no rule matched;
  once it is added to the policy, that command is allowed by the new rule, whatever the
  fallback says.\<close>

theorem proposed_amendment_allows:
  assumes "multimap_laws mm"
    and "create_exec_approval_requirement_for_command mm env pol req = Some (NeedsApproval reason (Some am))"
    and "req_prefix_rule req = None"
    and "add_prefix_rule mm pol am Allow = Inr pol'"
  shows "am \<in> set (fst (commands_for_exec_policy env (req_command req))) \<and>
    matches_for_command mm pol am None = [] \<and>
    check mm pol' am h = Some \<lparr>ev_decision = Allow, ev_matched_rules = [PrefixRuleMatch am Allow None]\<rparr>"
proof -
  let ?cmds = "fst (commands_for_exec_policy env (req_command req))"
  let ?h = "exec_policy_fallback env req"
  from assms(2) obtain ev where ev: "check_multiple mm pol ?cmds ?h = Some ev"
    and r: "NeedsApproval reason (Some am) =
      requirement_of_evaluation env req (\<not> snd (commands_for_exec_policy env (req_command req))) ev"
    by (rule create_requirementE)
  from r assms(3) have "find_map (heuristics_with Prompt) (ev_matched_rules ev) = Some am"
    by (auto simp: requirement_of_evaluation_def derive_requested_amendment_def
        try_derive_amendment_for_prompt_rules_def Let_def split: decision.splits if_splits)
  then have "HeuristicsRuleMatch am Prompt \<in> set (ev_matched_rules ev)"
    by (rule find_map_heuristics)
  then obtain cmd where "cmd \<in> set ?cmds"
    "HeuristicsRuleMatch am Prompt \<in> set (matches_for_command mm pol cmd (Some ?h))"
    using ev by (auto simp: check_multiple_eq_Some_iff)
  with heuristics_match_command have am: "am \<in> set ?cmds" "matches_for_command mm pol am None = []"
    by blast+
  have "matches_for_command mm pol' am None = [PrefixRuleMatch am Allow None]"
    using add_prefix_rule_new [OF assms(1,4), of am] am(2) by (simp add: prefix_rule_match_def)
  then have "check mm pol' am h = Some \<lparr>ev_decision = Allow, ev_matched_rules = [PrefixRuleMatch am Allow None]\<rparr>"
    by (simp add: check_def matches_for_command_fallback from_matches_def)
  with am show ?thesis by simp
qed

lemma xx_unsafe: "\<not> safe_command bare_env [lit ''xx'']"
proof -
  have f: "file_name (lit ''xx'') = Some (lit ''xx'')"
    by (simp add: file_name_def components_def is_absolute_def segment_component_def Let_def str_ops)
  have "to_ascii_lowercase (lit ''xx'') = lit ''xx''"
    by (simp add: str_ops)
  with f have "\<not> is_powershell_executable (lit ''xx'')"
    by (simp add: is_powershell_executable_def)
  then have "\<not> is_safe_command_windows env [lit ''xx'']" for env
    by (simp add: is_safe_command_windows_def try_parse_powershell_command_sequence_def)
  moreover have "\<not> is_safe_to_call_with_exec linux [lit ''xx'']" for linux
    by (simp add: is_safe_to_call_with_exec_def f always_safe_names_def)
  ultimately show ?thesis
    by (simp add: safe_command_def is_known_safe_command_def parse_shell_lc_plain_commands_def
        extract_bash_command_def)
qed

lemma xx_prompts:
  "\<exists>reason. create_exec_approval_requirement_for_command alist_multimap bare_env (policy_empty alist_multimap)
     (request_for [lit ''xx''] UnlessTrusted DangerFullAccess) = Some (NeedsApproval reason (Some [lit ''xx'']))"
proof -
  have "matches_for_command alist_multimap (policy_empty alist_multimap) [lit ''xx''] None = []"
    by (simp add: matches_for_command_def policy_empty_def alist_multimap_def)
  moreover have "exec_policy_fallback bare_env (request_for [lit ''xx''] UnlessTrusted DangerFullAccess) [lit ''xx''] = Prompt"
    using xx_unsafe by (simp add: exec_policy_fallback_def request_for_def
        render_decision_for_unmatched_command_def Let_def)
  moreover have "req_command (request_for cmd a s) = cmd" "req_approval_policy (request_for cmd a s) = a"
    "req_prefix_rule (request_for cmd a s) = None" for cmd a s
    by (simp_all add: request_for_def)
  ultimately show ?thesis
    by (simp add: create_exec_approval_requirement_for_command_def bare_commands check_multiple_def
        matches_for_command_fallback from_matches_def requirement_of_evaluation_def
        try_derive_amendment_for_prompt_rules_def policy_prompts_def derive_requested_amendment_def)
qed

theorem proposed_amendment_allows_witness:
  "\<exists>pol'. add_prefix_rule alist_multimap (policy_empty alist_multimap) [lit ''xx''] Allow = (Inr pol' :: unit policy_error + _) \<and>
     check alist_multimap pol' [lit ''xx''] (\<lambda>_. Forbidden) =
       Some \<lparr>ev_decision = Allow, ev_matched_rules = [PrefixRuleMatch [lit ''xx''] Allow None]\<rparr>"
proof -
  obtain pol' where p: "add_prefix_rule alist_multimap (policy_empty alist_multimap) [lit ''xx''] Allow =
      (Inr pol' :: unit policy_error + _)"
    by (simp add: add_prefix_rule_def)
  obtain reason where c: "create_exec_approval_requirement_for_command alist_multimap bare_env (policy_empty alist_multimap)
     (request_for [lit ''xx''] UnlessTrusted DangerFullAccess) = Some (NeedsApproval reason (Some [lit ''xx'']))"
    using xx_prompts by blast
  have "req_prefix_rule (request_for [lit ''xx''] UnlessTrusted DangerFullAccess) = None"
    by (simp add: request_for_def)
  from proposed_amendment_allows [OF alist_multimap_laws c this p] p show ?thesis by blast
qed

text \<open>An amendment is all or nothing in memory: when appending to the rules file fails, or
  the task does, the policy is unchanged; when it succeeds the append to the file did, and every
  command matches what it matched before and then the new allow rule where it applies.\<close>

theorem amendment_all_or_nothing:
  assumes "multimap_laws mm"
    and "append_amendment_and_update mm io join_error current codex_home amendment =
      (result :: ('e, 'x) update_error + unit, updated :: 'm policy, written)"
  shows "(case result of
      Inl _ \<Rightarrow> updated = current
    | Inr _ \<Rightarrow> amendment \<noteq> [] \<and> join_error = None \<and>
        fst (blocking_append_allow_prefix_rule io (default_policy_path codex_home) amendment) = Inr () \<and>
        (\<forall>cmd. matches_for_command mm updated cmd None =
           matches_for_command mm current cmd None @ prefix_rule_match amendment Allow cmd))"
proof (cases result)
  case (Inl e)
  with assms(2) show ?thesis
    by (auto simp: append_amendment_and_update_def Let_def split: option.splits sum.splits)
next
  case (Inr u)
  with assms(2) have join: "join_error = None"
    and app: "fst (blocking_append_allow_prefix_rule io (default_policy_path codex_home) amendment) = Inr ()"
    and add: "add_prefix_rule mm current amendment Allow = (Inr updated :: 'x policy_error + 'm policy)"
    by (auto simp: append_amendment_and_update_def Let_def split: option.splits sum.splits)
  from app have "amendment \<noteq> []"
    by (auto simp: blocking_append_allow_prefix_rule_def)
  with Inr join app add_prefix_rule_new [OF assms(1) add] show ?thesis by simp
qed

lemma components_last:
  assumes "slash \<notin> set t" and "t \<notin> {[], lit ''.'', lit ''..''}"
  shows "\<exists>cs. components (s @ slash # t) = cs @ [Normal t]"
  using assms
  by (auto simp: components_def Let_def split_on_append split_on_no_sep segment_component_def)

lemma default_policy_path_parent: "parent (components (default_policy_path codex_home)) \<noteq> None"
proof -
  have "join codex_home (lit ''rules'') =
        (if codex_home = [] \<or> last codex_home = slash then codex_home @ lit ''rule''
         else codex_home @ [slash] @ lit ''rule'') @ lit ''s''"
    by (simp add: join_def is_absolute_def starts_with_def slash_def lit_def)
  then obtain r where r: "join codex_home (lit ''rules'') = r @ lit ''s''" ..
  have "default_policy_path codex_home = join (r @ lit ''s'') (lit ''default.rules'')"
    by (simp add: default_policy_path_def r)
  also have "\<dots> = (r @ lit ''s'') @ slash # lit ''default.rules''"
    by (simp add: join_def is_absolute_def starts_with_def slash_def lit_def)
  finally have "default_policy_path codex_home = (r @ lit ''s'') @ slash # lit ''default.rules''" .
  moreover have "slash \<notin> set (lit ''default.rules'')"
    by (simp add: slash_def lit_def)
  ultimately obtain cs where "components (default_policy_path codex_home) = cs @ [Normal (lit ''default.rules'')]"
    using components_last [of "lit ''default.rules''" "r @ lit ''s''"] by auto
  then show ?thesis by (simp add: parent_def)
qed

definition ok_io :: "unit amend_io" where
  "ok_io = \<lparr>io_json = (\<lambda>s. Inr s), io_create_dir = (\<lambda>_. Inr ()), io_already_exists = (\<lambda>_. True),
             io_open = Inr (), io_lock = Inr (), io_seek = Inr (), io_read = Inr [],
             io_write_newline = Inr (), io_write_line = Inr ()\<rparr>"

lemma ok_io_append:
  "parent (components p) \<noteq> None \<Longrightarrow> fst (blocking_append_allow_prefix_rule ok_io p [lit ''ls'']) = Inr ()"
  by (auto simp: blocking_append_allow_prefix_rule_def append_locked_line_def ok_io_def)

theorem amendment_all_or_nothing_witness:
  "\<exists>updated written. append_amendment_and_update alist_multimap ok_io None (policy_empty alist_multimap) (lit ''/h'') [lit ''ls''] =
      ((Inr () :: (unit, unit) update_error + unit), updated, written) \<and>
     matches_for_command alist_multimap updated [lit ''ls''] None = [PrefixRuleMatch [lit ''ls''] Allow None]"
proof -
  have "parent (components (default_policy_path (lit ''/h''))) \<noteq> None"
    by (rule default_policy_path_parent)
  then have ok: "fst (blocking_append_allow_prefix_rule ok_io (default_policy_path (lit ''/h'')) [lit ''ls'']) = Inr ()"
    by (simp add: ok_io_append)
  then obtain updated written where a:
    "append_amendment_and_update alist_multimap ok_io None (policy_empty alist_multimap) (lit ''/h'') [lit ''ls''] =
      ((Inr () :: (unit, unit) update_error + unit), updated, written)"
    by (simp add: append_amendment_and_update_def add_prefix_rule_def Let_def)
  have "matches_for_command alist_multimap (policy_empty alist_multimap) [lit ''ls''] None = []"
    by (simp add: matches_for_command_def policy_empty_def alist_multimap_def)
  with amendment_all_or_nothing [OF alist_multimap_laws a] a show ?thesis
    by (auto simp: prefix_rule_match_def)
qed

section \<open>Rules imposed by requirements\<close>

lemma insert_all_matches:
  assumes "multimap_laws mm" and "\<forall>r \<in> set rules. program r = prog"
  shows "matches_for_command mm \<lparr>rules_by_program = fold (\<lambda>rule m. mm_insert mm m prog rule) rules m\<rparr> cmd None =
    matches_for_command mm \<lparr>rules_by_program = m\<rparr> cmd None @ List.map_filter (\<lambda>r. rule_matches r cmd) rules"
  using assms(2)
proof (induction rules arbitrary: m)
  case Nil
  then show ?case by (simp add: List.map_filter_def)
next
  case (Cons r rules)
  with matches_for_command_insert [OF assms(1), of "\<lparr>rules_by_program = m\<rparr>" r cmd]
  show ?case by (auto simp: List.map_filter_def split: option.splits)
qed

text \<open>Every rule of a policy is stored under its own program, as the builder stores it.\<close>

definition well_keyed :: "('m, prefix_rule) multimap_ops \<Rightarrow> 'm policy \<Rightarrow> bool" where
  "well_keyed mm pol \<longleftrightarrow>
     list_all (\<lambda>(prog, rules). list_all (\<lambda>r. program r = prog) rules) (mm_iter_all mm (rules_by_program pol))"

lemma fold_layers_matches:
  assumes "multimap_laws mm" and "\<forall>(prog, rules) \<in> set entries. \<forall>r \<in> set rules. program r = prog"
  shows "matches_for_command mm \<lparr>rules_by_program =
      fold (\<lambda>(prog, rules) m. fold (\<lambda>rule m. mm_insert mm m prog rule) rules m) entries m\<rparr> cmd None =
    matches_for_command mm \<lparr>rules_by_program = m\<rparr> cmd None @
    concat (map (\<lambda>(_, rules). List.map_filter (\<lambda>r. rule_matches r cmd) rules) entries)"
  using assms(2)
proof (induction entries arbitrary: m)
  case (Cons entry entries)
  then show ?case
    by (cases entry) (simp add: insert_all_matches [OF assms(1)])
qed simp

lemma map_filter_mem: "m \<in> set (List.map_filter f xs) \<longleftrightarrow> (\<exists>x \<in> set xs. f x = Some m)"
  by (induction xs) (auto simp: List.map_filter_def split: option.splits)

lemma matches_for_command_mem:
  "m \<in> set (matches_for_command mm pol cmd None) \<longleftrightarrow>
     (\<exists>t ts rules. cmd = t # ts \<and> mm_get_vec mm (rules_by_program pol) t = Some rules \<and>
        (\<exists>r \<in> set rules. rule_matches r cmd = Some m))"
proof (cases cmd)
  case (Cons t ts)
  then show ?thesis
    by (cases "mm_get_vec mm (rules_by_program pol) t") (auto simp: matches_for_command_def map_filter_mem)
qed (simp add: matches_for_command_def)

text \<open>Rules imposed by requirements always apply: the policy loaded with them matches a
  command with everything the files' policy matches and then everything the requirements
  match, so no file can take a requirement back and the decision is never weaker than either.\<close>

theorem requirements_always_apply:
  assumes "multimap_laws mm" and "well_keyed mm requirements"
  shows "set (matches_for_command mm (combine_rules mm policy requirements) cmd None) =
    set (matches_for_command mm policy cmd None) \<union> set (matches_for_command mm requirements cmd None)"
proof -
  let ?entries = "mm_iter_all mm (rules_by_program requirements)"
  have keyed: "\<forall>(prog, rules) \<in> set ?entries. \<forall>r \<in> set rules. program r = prog"
    using assms(2) by (auto simp: well_keyed_def list_all_iff)
  have iter: "(prog, rules) \<in> set ?entries \<longleftrightarrow> mm_get_vec mm (rules_by_program requirements) prog = Some rules" for prog rules
    by (rule multimap_iter_all [OF assms(1)])
  have prog: "cmd \<noteq> [] \<and> hd cmd = p"
    if "mm_get_vec mm (rules_by_program requirements) p = Some rules" "r \<in> set rules" "rule_matches r cmd = Some m"
    for p rules r m
  proof -
    from that(1) have "(p, rules) \<in> set ?entries" by (simp add: iter)
    with keyed that(2) have "program r = p" by fastforce
    with rule_matches_program [OF that(3)] show ?thesis by simp
  qed
  have new: "m \<in> set (concat (map (\<lambda>(_, rules). List.map_filter (\<lambda>r. rule_matches r cmd) rules) ?entries)) \<longleftrightarrow>
      m \<in> set (matches_for_command mm requirements cmd None)" for m
  proof -
    have "m \<in> set (concat (map (\<lambda>(_, rules). List.map_filter (\<lambda>r. rule_matches r cmd) rules) ?entries)) \<longleftrightarrow>
        (\<exists>(p, rules) \<in> set ?entries. \<exists>r \<in> set rules. rule_matches r cmd = Some m)"
      by (auto simp: map_filter_mem)
    also have "\<dots> \<longleftrightarrow> (\<exists>p rules. mm_get_vec mm (rules_by_program requirements) p = Some rules \<and>
        (\<exists>r \<in> set rules. rule_matches r cmd = Some m))"
      unfolding Bex_def [of "set ?entries"] by (simp add: split_paired_Ex iter)
    also have "\<dots> \<longleftrightarrow> m \<in> set (matches_for_command mm requirements cmd None)"
      unfolding matches_for_command_mem using prog by (metis list.collapse list.sel(1))
    finally show ?thesis .
  qed
  have "matches_for_command mm (combine_rules mm policy requirements) cmd None =
      matches_for_command mm policy cmd None @
      concat (map (\<lambda>(_, rules). List.map_filter (\<lambda>r. rule_matches r cmd) rules) ?entries)"
    unfolding combine_rules_def using fold_layers_matches [OF assms(1) keyed, of "rules_by_program policy" cmd]
    by (cases policy) simp
  with new show ?thesis by auto
qed

theorem requirements_always_apply_witness:
  "set (matches_for_command alist_multimap (combine_rules alist_multimap (policy_empty alist_multimap) allow_ls_policy)
     [lit ''ls''] None) =
   set (matches_for_command alist_multimap (policy_empty alist_multimap) [lit ''ls''] None) \<union>
   {PrefixRuleMatch [lit ''ls''] Allow None}"
proof -
  have "well_keyed alist_multimap allow_ls_policy"
    by (simp add: well_keyed_def alist_multimap_def allow_ls_policy_def program_def)
  from requirements_always_apply [OF alist_multimap_laws this] allow_ls_matches show ?thesis by simp
qed

end
