(* ===== verification/IpAddress.thy ===== *)
theory IpAddress
  imports Prelude
begin

unbundle bit_operations_syntax

text \<open>
  IP addresses as the network proxy classifies them (\<open>network-proxy/src/policy.rs\<close>): the
  standard library's parser and predicates on \<open>Ipv4Addr\<close> and \<open>Ipv6Addr\<close>, kept as 32-bit
  and 128-bit words, and the non-public ranges of the proxy.
\<close>

type_synonym ipv4 = "32 word"
type_synonym ipv6 = "128 word"

datatype ip_addr = V4 ipv4 | V6 ipv6

section \<open>The standard library's classification\<close>

definition octet :: "ipv4 \<Rightarrow> nat \<Rightarrow> nat" where
  "octet ip i = unat (drop_bit (24 - 8 * i) ip AND 0xFF)"

definition segment :: "ipv6 \<Rightarrow> nat \<Rightarrow> 16 word" where
  "segment ip i = ucast (drop_bit (112 - 16 * i) ip)"

definition v4_is_loopback :: "ipv4 \<Rightarrow> bool" where
  "v4_is_loopback ip \<longleftrightarrow> octet ip 0 = 127"

definition v4_is_private :: "ipv4 \<Rightarrow> bool" where
  "v4_is_private ip \<longleftrightarrow>
     octet ip 0 = 10 \<or>
     (octet ip 0 = 172 \<and> 16 \<le> octet ip 1 \<and> octet ip 1 \<le> 31) \<or>
     (octet ip 0 = 192 \<and> octet ip 1 = 168)"

definition v4_is_link_local :: "ipv4 \<Rightarrow> bool" where
  "v4_is_link_local ip \<longleftrightarrow> octet ip 0 = 169 \<and> octet ip 1 = 254"

definition v4_is_multicast :: "ipv4 \<Rightarrow> bool" where
  "v4_is_multicast ip \<longleftrightarrow> 224 \<le> octet ip 0 \<and> octet ip 0 \<le> 239"

definition ipv4_of_octets :: "nat \<Rightarrow> nat \<Rightarrow> nat \<Rightarrow> nat \<Rightarrow> ipv4" where
  "ipv4_of_octets a b c d =
     (push_bit 24 (of_nat a) OR push_bit 16 (of_nat b) OR push_bit 8 (of_nat c) OR of_nat d)"

definition v6_is_loopback :: "ipv6 \<Rightarrow> bool" where
  "v6_is_loopback ip \<longleftrightarrow> ip = 1"

definition v6_is_multicast :: "ipv6 \<Rightarrow> bool" where
  "v6_is_multicast ip \<longleftrightarrow> segment ip 0 AND 0xFF00 = 0xFF00"

definition v6_is_unique_local :: "ipv6 \<Rightarrow> bool" where
  "v6_is_unique_local ip \<longleftrightarrow> segment ip 0 AND 0xFE00 = 0xFC00"

definition v6_is_unicast_link_local :: "ipv6 \<Rightarrow> bool" where
  "v6_is_unicast_link_local ip \<longleftrightarrow> segment ip 0 AND 0xFFC0 = 0xFE80"

text \<open>\<open>Ipv6Addr::to_ipv4\<close>: the compatible and the mapped addresses.\<close>

definition to_ipv4 :: "ipv6 \<Rightarrow> ipv4 option" where
  "to_ipv4 ip =
     (if drop_bit 32 ip = 0 \<or> drop_bit 32 ip = 0xFFFF then Some (ucast ip) else None)"

fun is_loopback :: "ip_addr \<Rightarrow> bool" where
  "is_loopback (V4 ip) = v4_is_loopback ip"
| "is_loopback (V6 ip) = v6_is_loopback ip"

section \<open>Non-public ranges\<close>

definition ipv4_in_cidr :: "ipv4 \<Rightarrow> ipv4 \<Rightarrow> nat \<Rightarrow> bool" where
  "ipv4_in_cidr ip base pfx \<longleftrightarrow>
     (let mask = (if pfx = 0 then 0 else push_bit (32 - pfx) (- 1))
      in ip AND mask = base AND mask)"

definition is_non_public_ipv4 :: "ipv4 \<Rightarrow> bool" where
  "is_non_public_ipv4 ip \<longleftrightarrow>
     v4_is_loopback ip \<or> v4_is_private ip \<or> v4_is_link_local ip \<or> ip = 0 \<or> v4_is_multicast ip \<or> ip = - 1 \<or>
     ipv4_in_cidr ip (ipv4_of_octets 0 0 0 0) 8 \<or>
     ipv4_in_cidr ip (ipv4_of_octets 100 64 0 0) 10 \<or>
     ipv4_in_cidr ip (ipv4_of_octets 192 0 0 0) 24 \<or>
     ipv4_in_cidr ip (ipv4_of_octets 192 0 2 0) 24 \<or>
     ipv4_in_cidr ip (ipv4_of_octets 198 18 0 0) 15 \<or>
     ipv4_in_cidr ip (ipv4_of_octets 198 51 100 0) 24 \<or>
     ipv4_in_cidr ip (ipv4_of_octets 203 0 113 0) 24 \<or>
     ipv4_in_cidr ip (ipv4_of_octets 240 0 0 0) 4"

definition is_non_public_ipv6 :: "ipv6 \<Rightarrow> bool" where
  "is_non_public_ipv6 ip \<longleftrightarrow>
     (case to_ipv4 ip of
        Some v4 \<Rightarrow> is_non_public_ipv4 v4 \<or> v6_is_loopback ip
      | None \<Rightarrow>
          v6_is_loopback ip \<or> ip = 0 \<or> v6_is_multicast ip \<or> v6_is_unique_local ip \<or>
          v6_is_unicast_link_local ip)"

fun is_non_public_ip :: "ip_addr \<Rightarrow> bool" where
  "is_non_public_ip (V4 ip) = is_non_public_ipv4 ip"
| "is_non_public_ip (V6 ip) = is_non_public_ipv6 ip"

text \<open>Membership in a block is agreement of the leading bits.\<close>

lemma ipv4_in_cidr_iff:
  assumes "pfx \<le> 32"
  shows "ipv4_in_cidr ip base pfx \<longleftrightarrow> drop_bit (32 - pfx) ip = drop_bit (32 - pfx) base"
proof (cases "pfx = 0")
  case True
  have "drop_bit 32 w = 0" for w :: ipv4
    by (rule bit_word_eqI) (simp add: bit_simps)
  with True show ?thesis by (simp add: ipv4_in_cidr_def)
next
  case False
  let ?m = "push_bit (32 - pfx) (- 1) :: ipv4"
  have mask: "bit (w AND ?m) n \<longleftrightarrow> bit w n \<and> 32 - pfx \<le> n" if "n < 32" for w :: ipv4 and n
    using that by (auto simp: bit_simps)
  have "ip AND ?m = base AND ?m \<longleftrightarrow> (\<forall>n < 32. 32 - pfx \<le> n \<longrightarrow> bit ip n = bit base n)"
  proof
    assume "ip AND ?m = base AND ?m"
    then show "\<forall>n < 32. 32 - pfx \<le> n \<longrightarrow> bit ip n = bit base n"
      using mask by metis
  next
    assume all: "\<forall>n < 32. 32 - pfx \<le> n \<longrightarrow> bit ip n = bit base n"
    show "ip AND ?m = base AND ?m"
    proof (rule bit_word_eqI)
      fix n assume "n < LENGTH(32)"
      then have "n < 32" by simp
      with mask all show "bit (ip AND ?m) n = bit (base AND ?m) n" by blast
    qed
  qed
  also have "\<dots> \<longleftrightarrow> drop_bit (32 - pfx) ip = drop_bit (32 - pfx) base"
  proof
    assume all: "\<forall>n < 32. 32 - pfx \<le> n \<longrightarrow> bit ip n = bit base n"
    show "drop_bit (32 - pfx) ip = drop_bit (32 - pfx) base"
    proof (rule bit_word_eqI)
      fix n
      show "bit (drop_bit (32 - pfx) ip) n = bit (drop_bit (32 - pfx) base) n"
        using all bit_imp_le_length [of ip "32 - pfx + n"] bit_imp_le_length [of base "32 - pfx + n"]
        by (auto simp: bit_simps)
    qed
  next
    assume eq: "drop_bit (32 - pfx) ip = drop_bit (32 - pfx) base"
    show "\<forall>n < 32. 32 - pfx \<le> n \<longrightarrow> bit ip n = bit base n"
    proof (intro allI impI)
      fix n :: nat assume "n < 32" "32 - pfx \<le> n"
      then have "bit w n = bit (drop_bit (32 - pfx) w) (n - (32 - pfx))" for w :: ipv4
        by (simp add: bit_simps)
      with eq show "bit ip n = bit base n" by simp
    qed
  qed
  finally show ?thesis
    using False by (simp add: ipv4_in_cidr_def)
qed

text \<open>An IPv4-mapped address, the usual way around a filter on IPv4 addresses.\<close>

definition v4_mapped :: "ipv4 \<Rightarrow> ipv6" where
  "v4_mapped ip = push_bit 32 0xFFFF OR ucast ip"

lemma bit_v4_mapped:
  "bit (v4_mapped ip) n \<longleftrightarrow> (32 \<le> n \<and> n < 128 \<and> bit (0xFFFF :: ipv6) (n - 32)) \<or> (n < 32 \<and> bit ip n)"
  unfolding v4_mapped_def bit_or_iff bit_push_bit_iff bit_ucast_iff
  using bit_imp_le_length [of ip n] by auto

lemma to_ipv4_mapped: "to_ipv4 (v4_mapped ip) = Some ip"
proof -
  have "drop_bit 32 (v4_mapped ip) = 0xFFFF"
  proof (rule bit_word_eqI)
    fix n assume "n < LENGTH(128)"
    have "(0xFFFF :: ipv6) = mask 16"
      by (simp add: mask_eq_exp_minus_1)
    then have "n < 16" if "bit (0xFFFF :: ipv6) n"
      using that by (simp only: bit_mask_iff)
    then show "bit (drop_bit 32 (v4_mapped ip)) n = bit (0xFFFF :: ipv6) n"
      unfolding bit_drop_bit_eq comp_def bit_v4_mapped by auto
  qed
  moreover have "(ucast (v4_mapped ip) :: ipv4) = ip"
    by (rule bit_word_eqI) (auto simp: bit_ucast_iff bit_v4_mapped)
  ultimately show ?thesis by (simp add: to_ipv4_def)
qed

text \<open>An IPv4-mapped IPv6 address is non-public exactly when the IPv4 address inside it is,
  and an IPv4 address is non-public whenever it agrees with a reserved block on the block's
  leading bits.\<close>

theorem mapped_address_not_a_bypass:
  "is_non_public_ip (V6 (v4_mapped ip)) = is_non_public_ip (V4 ip) \<and>
   (if drop_bit 24 ip = 127 \<or> drop_bit 24 ip = 10 \<or> drop_bit 24 ip = 0 \<or>
       drop_bit 22 ip = drop_bit 22 (ipv4_of_octets 100 64 0 0) \<or>
       drop_bit 17 ip = drop_bit 17 (ipv4_of_octets 198 18 0 0) \<or>
       drop_bit 28 ip = drop_bit 28 (ipv4_of_octets 240 0 0 0)
    then is_non_public_ip (V4 ip) else True)"
proof
  have "v4_mapped ip \<noteq> 1"
  proof
    assume "v4_mapped ip = 1"
    then have "drop_bit 32 (v4_mapped ip) = 0" by simp
    moreover have "bit (drop_bit 32 (v4_mapped ip)) 0"
      unfolding bit_drop_bit_eq comp_def bit_v4_mapped by simp
    ultimately show False by simp
  qed
  then show "is_non_public_ip (V6 (v4_mapped ip)) = is_non_public_ip (V4 ip)"
    by (simp add: is_non_public_ipv6_def to_ipv4_mapped v6_is_loopback_def)
next
  have first: "octet ip 0 = unat (drop_bit 24 ip)"
  proof -
    have "drop_bit 24 ip AND 0xFF = drop_bit 24 ip"
    proof (rule bit_word_eqI)
      fix n
      have "(0xFF :: ipv4) = mask 8" by (simp add: mask_eq_exp_minus_1)
      then show "bit (drop_bit 24 ip AND 0xFF) n = bit (drop_bit 24 ip) n"
        using bit_imp_le_length [of ip "24 + n"]
        by (simp only: bit_and_iff bit_drop_bit_eq comp_def bit_mask_iff) auto
    qed
    then show ?thesis by (simp add: octet_def)
  qed
  show "if drop_bit 24 ip = 127 \<or> drop_bit 24 ip = 10 \<or> drop_bit 24 ip = 0 \<or>
       drop_bit 22 ip = drop_bit 22 (ipv4_of_octets 100 64 0 0) \<or>
       drop_bit 17 ip = drop_bit 17 (ipv4_of_octets 198 18 0 0) \<or>
       drop_bit 28 ip = drop_bit 28 (ipv4_of_octets 240 0 0 0)
    then is_non_public_ip (V4 ip) else True"
    by (auto simp: is_non_public_ipv4_def ipv4_in_cidr_iff v4_is_loopback_def v4_is_private_def first
        ipv4_of_octets_def [of 0 0 0 0])
qed

section \<open>Parsing\<close>

text \<open>
  The parser of \<open>core::net\<close>: each reader consumes a prefix of the text or fails without
  consuming. \<open>read_number\<close> reads all leading digits and fails when there are more than
  the limit, none, or a superfluous leading zero.
\<close>

definition hex_digit :: "nat \<Rightarrow> nat option" where
  "hex_digit c =
     (if 48 \<le> c \<and> c \<le> 57 then Some (c - 48)
      else if 97 \<le> c \<and> c \<le> 102 then Some (c - 87)
      else if 65 \<le> c \<and> c \<le> 70 then Some (c - 55)
      else None)"

definition to_digit :: "nat \<Rightarrow> nat \<Rightarrow> nat option" where
  "to_digit radix c = (case hex_digit c of Some d \<Rightarrow> if d < radix then Some d else None | None \<Rightarrow> None)"

definition read_number :: "nat \<Rightarrow> nat \<Rightarrow> bool \<Rightarrow> nat \<Rightarrow> ustr \<Rightarrow> (nat \<times> ustr) option" where
  "read_number radix max_digits allow_zero_prefix bound s =
     (let ds = takeWhile (\<lambda>c. is_some (to_digit radix c)) s;
          n = foldl (\<lambda>n c. n * radix + the (to_digit radix c)) 0 ds
      in if ds = [] \<or> max_digits < length ds \<or> (\<not> allow_zero_prefix \<and> hd ds = 48 \<and> 1 < length ds) \<or> bound \<le> n
         then None else Some (n, drop (length ds) s))"

definition read_separator :: "nat \<Rightarrow> nat \<Rightarrow> (ustr \<Rightarrow> ('a \<times> ustr) option) \<Rightarrow> ustr \<Rightarrow> ('a \<times> ustr) option" where
  "read_separator sep index inner s =
     (if index = 0 then inner s
      else (case s of c # rest \<Rightarrow> if c = sep then inner rest else None | [] \<Rightarrow> None))"

definition read_ipv4_addr :: "ustr \<Rightarrow> (ipv4 \<times> ustr) option" where
  "read_ipv4_addr s =
     (let num = read_number 10 3 False 256
      in Option.bind (read_separator 46 0 num s) (\<lambda>(a, s).
         Option.bind (read_separator 46 1 num s) (\<lambda>(b, s).
         Option.bind (read_separator 46 2 num s) (\<lambda>(c, s).
         Option.bind (read_separator 46 3 num s) (\<lambda>(d, s).
         Some (ipv4_of_octets a b c d, s))))))"

text \<open>\<open>read_groups\<close> with \<open>left\<close> slots left from index \<open>i\<close>: the groups read, whether an
  embedded IPv4 address ended them, and the rest.\<close>

fun read_groups :: "nat \<Rightarrow> nat \<Rightarrow> ustr \<Rightarrow> nat list \<times> bool \<times> ustr" where
  "read_groups i 0 s = ([], False, s)"
| "read_groups i (Suc left) s =
     (case (if left \<noteq> 0 then read_separator 58 i read_ipv4_addr s else None) of
        Some (v4, rest) \<Rightarrow> ([unat (drop_bit 16 v4), unat v4 mod 65536], True, rest)
      | None \<Rightarrow>
          (case read_separator 58 i (read_number 16 4 True 65536) s of
             None \<Rightarrow> ([], False, s)
           | Some (g, rest) \<Rightarrow>
               (case read_groups (Suc i) left rest of (gs, v4, rest') \<Rightarrow> (g # gs, v4, rest'))))"

definition ipv6_of_groups :: "nat list \<Rightarrow> ipv6" where
  "ipv6_of_groups gs = foldl (\<lambda>ip g. push_bit 16 ip OR of_nat g) 0 gs"

definition read_ipv6_addr :: "ustr \<Rightarrow> (ipv6 \<times> ustr) option" where
  "read_ipv6_addr s =
     (case read_groups 0 8 s of (head, head_ipv4, s1) \<Rightarrow>
        if length head = 8 then Some (ipv6_of_groups head, s1)
        else if head_ipv4 then None
        else (case strip_prefix s1 [58, 58] of
                None \<Rightarrow> None
              | Some s2 \<Rightarrow>
                  (case read_groups 0 (8 - (length head + 1)) s2 of (tail, _, s3) \<Rightarrow>
                     Some (ipv6_of_groups (head @ replicate (8 - length head - length tail) 0 @ tail), s3))))"

definition parse_ip_addr :: "ustr \<Rightarrow> ip_addr option" where
  "parse_ip_addr s =
     (case (case read_ipv4_addr s of
              Some (ip, rest) \<Rightarrow> Some (V4 ip, rest)
            | None \<Rightarrow> map_option (\<lambda>(ip, rest). (V6 ip, rest)) (read_ipv6_addr s)) of
        Some (ip, rest) \<Rightarrow> if rest = [] then Some ip else None
      | None \<Rightarrow> None)"

end
