(* ===== verification/HostPolicy.thy ===== *)
theory HostPolicy
  imports IpAddress
begin

text \<open>
  Hosts and domain patterns of the network proxy (\<open>network-proxy/src/policy.rs\<close>). The crates
  \<open>globset\<close> and \<open>url\<close> are parameters: \<open>glob_build\<close> compiles one glob and \<open>url_host\<close> is
  \<open>url::Host::parse\<close> with the rendering of its result.
\<close>

section \<open>Hosts\<close>

abbreviation dot :: ustr where
  "dot \<equiv> [46]"

definition normalize_dns_host :: "ustr \<Rightarrow> ustr" where
  "normalize_dns_host host = trim_end_by (\<lambda>c. c = 46) (to_ascii_lowercase host)"

definition count_char :: "nat \<Rightarrow> ustr \<Rightarrow> nat" where
  "count_char c s = length (filter (\<lambda>x. x = c) s)"

definition normalize_host :: "ustr \<Rightarrow> ustr" where
  "normalize_host host0 =
     (let host = trim host0
      in if host \<noteq> [] \<and> hd host = 91 \<and> 93 \<in> set host then
           normalize_dns_host (drop 1 (takeWhile (\<lambda>c. c \<noteq> 93) host))
         else if count_char 58 host = 1 then normalize_dns_host (hd (split_on 58 host))
         else normalize_dns_host host)"

definition host_parse :: "ustr \<Rightarrow> ustr option" where
  "host_parse input =
     (let normalized = normalize_host input in if normalized = [] then None else Some normalized)"

definition host_without_scope :: "ustr \<Rightarrow> ustr" where
  "host_without_scope host = (case split_once 37 host of Some (ip, _) \<Rightarrow> ip | None \<Rightarrow> host)"

definition is_loopback_host :: "ustr \<Rightarrow> bool" where
  "is_loopback_host host0 \<longleftrightarrow>
     (let host = host_without_scope host0
      in if host = lit ''localhost'' then True
         else (case parse_ip_addr host of Some ip \<Rightarrow> is_loopback ip | None \<Rightarrow> False))"

section \<open>Patterns\<close>

definition normalize_pattern :: "ustr \<Rightarrow> ustr" where
  "normalize_pattern pattern0 =
     (let pattern = trim pattern0
      in if pattern = lit ''*'' then lit ''*''
         else
           let (pfx, remainder) =
                 (case strip_prefix pattern (lit ''**.'') of
                    Some domain \<Rightarrow> (lit ''**.'', domain)
                  | None \<Rightarrow>
                      (case strip_prefix pattern (lit ''*.'') of
                         Some domain \<Rightarrow> (lit ''*.'', domain)
                       | None \<Rightarrow> ([], pattern)))
           in pfx @ normalize_host remainder)"

datatype domain_pattern =
    AnyDomain
  | ApexAndSubdomains ustr
  | SubdomainsOnly ustr
  | Exact ustr

definition parse_domain :: "ustr \<Rightarrow> (ustr \<Rightarrow> domain_pattern) \<Rightarrow> domain_pattern" where
  "parse_domain domain0 build_pattern =
     (let domain = trim domain0 in if domain = [] then Exact [] else build_pattern domain)"

definition domain_pattern_parse :: "ustr \<Rightarrow> domain_pattern" where
  "domain_pattern_parse input0 =
     (let input = trim input0
      in if input = [] then Exact []
         else if input = lit ''*'' then AnyDomain
         else (case strip_prefix input (lit ''**.'') of
                 Some domain \<Rightarrow> parse_domain domain ApexAndSubdomains
               | None \<Rightarrow>
                   (case strip_prefix input (lit ''*.'') of
                      Some domain \<Rightarrow> parse_domain domain SubdomainsOnly
                    | None \<Rightarrow> Exact input)))"

definition parse_domain_for_constraints :: "(ustr \<Rightarrow> ustr option) \<Rightarrow> ustr \<Rightarrow> ustr" where
  "parse_domain_for_constraints url_host domain0 =
     (let domain = trim_end_by (\<lambda>c. c = 46) (trim domain0)
      in if domain = [] then []
         else
           let host = (if starts_with domain [91] \<and> ends_with domain [93]
                       then take (length domain - 2) (drop 1 domain) else domain)
           in if 42 \<in> set host \<or> 63 \<in> set host \<or> 37 \<in> set host then domain
              else (case url_host host of Some h \<Rightarrow> h | None \<Rightarrow> []))"

definition parse_for_constraints :: "(ustr \<Rightarrow> ustr option) \<Rightarrow> ustr \<Rightarrow> domain_pattern" where
  "parse_for_constraints url_host input0 =
     (let input = trim input0
      in if input = [] then Exact []
         else if input = lit ''*'' then AnyDomain
         else (case strip_prefix input (lit ''**.'') of
                 Some domain \<Rightarrow> ApexAndSubdomains (parse_domain_for_constraints url_host domain)
               | None \<Rightarrow>
                   (case strip_prefix input (lit ''*.'') of
                      Some domain \<Rightarrow> SubdomainsOnly (parse_domain_for_constraints url_host domain)
                    | None \<Rightarrow> Exact (parse_domain_for_constraints url_host input))))"

definition normalize_domain :: "ustr \<Rightarrow> ustr" where
  "normalize_domain domain = to_ascii_lowercase (trim_end_by (\<lambda>c. c = 46) domain)"

definition domain_eq :: "ustr \<Rightarrow> ustr \<Rightarrow> bool" where
  "domain_eq left right \<longleftrightarrow> normalize_domain left = normalize_domain right"

definition is_subdomain_or_equal :: "ustr \<Rightarrow> ustr \<Rightarrow> bool" where
  "is_subdomain_or_equal child0 parent0 \<longleftrightarrow>
     (let child = normalize_domain child0; parent = normalize_domain parent0
      in if child = parent then True else ends_with child (dot @ parent))"

definition is_strict_subdomain :: "ustr \<Rightarrow> ustr \<Rightarrow> bool" where
  "is_strict_subdomain child0 parent0 \<longleftrightarrow>
     (let child = normalize_domain child0; parent = normalize_domain parent0
      in child \<noteq> parent \<and> ends_with child (dot @ parent))"

fun allows :: "domain_pattern \<Rightarrow> domain_pattern \<Rightarrow> bool" where
  "allows AnyDomain candidate = True"
| "allows (Exact domain) candidate =
     (case candidate of Exact c \<Rightarrow> domain_eq c domain | _ \<Rightarrow> False)"
| "allows (SubdomainsOnly domain) candidate =
     (case candidate of
        AnyDomain \<Rightarrow> False
      | Exact c \<Rightarrow> is_strict_subdomain c domain
      | SubdomainsOnly c \<Rightarrow> is_subdomain_or_equal c domain
      | ApexAndSubdomains c \<Rightarrow> is_strict_subdomain c domain)"
| "allows (ApexAndSubdomains domain) candidate =
     (case candidate of
        AnyDomain \<Rightarrow> False
      | Exact c \<Rightarrow> is_subdomain_or_equal c domain
      | SubdomainsOnly c \<Rightarrow> is_subdomain_or_equal c domain
      | ApexAndSubdomains c \<Rightarrow> is_subdomain_or_equal c domain)"

fun expand_pattern :: "ustr \<Rightarrow> domain_pattern \<Rightarrow> ustr list" where
  "expand_pattern pattern AnyDomain = [pattern]"
| "expand_pattern pattern (Exact domain) = [domain]"
| "expand_pattern pattern (SubdomainsOnly domain) = [lit ''?*.'' @ domain]"
| "expand_pattern pattern (ApexAndSubdomains domain) = [domain, lit ''?*.'' @ domain]"

definition expand_domain_pattern :: "ustr \<Rightarrow> ustr list" where
  "expand_domain_pattern pattern = expand_pattern pattern (domain_pattern_parse pattern)"

text \<open>The globs added for the candidates of all patterns, each once; a glob that does not
  compile fails the whole set with the candidate.\<close>

fun add_globs :: "(ustr \<Rightarrow> 'g option) \<Rightarrow> ustr list \<Rightarrow> ustr list \<Rightarrow> ustr + 'g list" where
  "add_globs glob_build seen [] = Inr []"
| "add_globs glob_build seen (candidate # rest) =
     (if candidate \<in> set seen then add_globs glob_build seen rest
      else (case glob_build candidate of
              None \<Rightarrow> Inl candidate
            | Some glob \<Rightarrow>
                bindE (add_globs glob_build (candidate # seen) rest) (\<lambda>globs. Inr (glob # globs))))"

definition compile_globset :: "(ustr \<Rightarrow> 'g option) \<Rightarrow> ustr list \<Rightarrow> ustr + 'g list" where
  "compile_globset glob_build patterns =
     add_globs glob_build [] (concat (map (\<lambda>p. expand_domain_pattern (normalize_pattern p)) patterns))"

section \<open>The order of patterns\<close>

text \<open>Subdomain is a strict order on normalised domains; patterns inherit it.\<close>

definition below :: "ustr \<Rightarrow> ustr \<Rightarrow> bool" where
  "below c p \<longleftrightarrow> (\<exists>labels. c = labels @ dot @ p)"

lemma is_strict_subdomain_iff:
  "is_strict_subdomain c p \<longleftrightarrow> below (normalize_domain c) (normalize_domain p)"
  by (auto simp: is_strict_subdomain_def below_def ends_with_iff Let_def)

lemma is_subdomain_or_equal_iff:
  "is_subdomain_or_equal c p \<longleftrightarrow>
     normalize_domain c = normalize_domain p \<or> below (normalize_domain c) (normalize_domain p)"
  by (auto simp: is_subdomain_or_equal_def below_def ends_with_iff Let_def)

lemma below_trans: "below a b \<Longrightarrow> below b c \<Longrightarrow> below a c"
  unfolding below_def by (metis append.assoc)

text \<open>What a client of an order of permissions needs: a list of permissions each within some
  granted one gives nothing beyond the granted ones.\<close>

locale permission_order =
  fixes grants :: "'p \<Rightarrow> 'p \<Rightarrow> bool"
  assumes grants_refl: "grants p p"
    and grants_trans: "grants p q \<Longrightarrow> grants q r \<Longrightarrow> grants p r"
begin

definition within :: "'p list \<Rightarrow> 'p list \<Rightarrow> bool" where
  "within managed candidate \<longleftrightarrow> (\<forall>q \<in> set candidate. \<exists>p \<in> set managed. grants p q)"

lemma within_refl: "within ps ps"
  unfolding within_def using grants_refl by blast

lemma within_trans: "within ps qs \<Longrightarrow> within qs rs \<Longrightarrow> within ps rs"
  unfolding within_def using grants_trans by blast

lemma within_sound: "within managed candidate \<Longrightarrow> q \<in> set candidate \<Longrightarrow> grants q x \<Longrightarrow> \<exists>p \<in> set managed. grants p x"
  unfolding within_def using grants_trans by blast

end

lemma allows_refl: "allows p p"
  by (cases p) (simp_all add: domain_eq_def is_subdomain_or_equal_iff)

lemma allows_trans: "allows p q \<Longrightarrow> allows q r \<Longrightarrow> allows p r"
  by (cases p; cases q; cases r)
     (auto simp: domain_eq_def is_subdomain_or_equal_iff is_strict_subdomain_iff dest: below_trans)

interpretation domain: permission_order allows
  by unfold_locales (auto intro: allows_refl allows_trans)

text \<open>Comparing patterns is sound: a pattern allows itself, and if one pattern allows a
  second then it allows every pattern and every host the second allows.\<close>

theorem allows_is_preorder:
  "allows p p \<and> (if allows p q then (if allows q r then allows p r else True) else True)"
  by (auto intro: domain.grants_refl domain.grants_trans)

end
