(* ===== verification/NetworkProxy.thy ===== *)
theory NetworkProxy
  imports HostPolicy
begin

text \<open>
  The network proxy's configuration (\<open>network-proxy/src/config.rs\<close>), the managed
  constraints on it (\<open>state.rs\<close>), the live proxy state with its decision about a host and
  its buffer of blocked requests (\<open>runtime.rs\<close>), and the decision for one request
  (\<open>network_policy.rs\<close>). The configuration reloader, glob matching, DNS and the
  canonicalisation of a path are parameters.
\<close>

section \<open>Configuration\<close>

datatype network_mode = Limited | Full

fun network_mode_rank :: "network_mode \<Rightarrow> nat" where
  "network_mode_rank Limited = 0"
| "network_mode_rank Full = 1"

fun allows_method :: "network_mode \<Rightarrow> ustr \<Rightarrow> bool" where
  "allows_method Full _ = True"
| "allows_method Limited meth = (meth \<in> set (map lit [''GET'', ''HEAD'', ''OPTIONS'']))"

record proxy_settings =
  enabled :: bool
  proxy_url :: ustr
  admin_url :: ustr
  enable_socks5 :: bool
  socks_url :: ustr
  enable_socks5_udp :: bool
  allow_upstream_proxy :: bool
  non_loopback_proxy :: bool
  non_loopback_admin :: bool
  mode :: network_mode
  allowed_domains :: "ustr list"
  denied_domains :: "ustr list"
  allow_unix_sockets :: "ustr list"
  allow_local_binding :: bool

definition default_settings :: proxy_settings where
  "default_settings =
     \<lparr>enabled = False, proxy_url = lit ''http://127.0.0.1:3128'', admin_url = lit ''http://127.0.0.1:8080'',
      enable_socks5 = True, socks_url = lit ''http://127.0.0.1:8081'', enable_socks5_udp = True,
      allow_upstream_proxy = True, non_loopback_proxy = False, non_loopback_admin = False, mode = Full,
      allowed_domains = [], denied_domains = [], allow_unix_sockets = [], allow_local_binding = True\<rparr>"

type_synonym socket_addr = "ip_addr \<times> 16 word"

definition loopback_v4 :: ip_addr where
  "loopback_v4 = V4 (ipv4_of_octets 127 0 0 1)"

definition clamp_non_loopback :: "socket_addr \<Rightarrow> bool \<Rightarrow> socket_addr" where
  "clamp_non_loopback addr allow_non_loopback =
     (if is_loopback (fst addr) then addr
      else if allow_non_loopback then addr
      else (loopback_v4, snd addr))"

definition clamp_bind_addrs ::
  "socket_addr \<Rightarrow> socket_addr \<Rightarrow> socket_addr \<Rightarrow> proxy_settings \<Rightarrow> socket_addr \<times> socket_addr \<times> socket_addr" where
  "clamp_bind_addrs http_addr0 socks_addr0 admin_addr0 cfg =
     (let http_addr = clamp_non_loopback http_addr0 (non_loopback_proxy cfg);
          socks_addr = clamp_non_loopback socks_addr0 (non_loopback_proxy cfg);
          admin_addr = clamp_non_loopback admin_addr0 (non_loopback_admin cfg)
      in if allow_unix_sockets cfg = [] then (http_addr, socks_addr, admin_addr)
         else ((loopback_v4, snd http_addr), (loopback_v4, snd socks_addr), (loopback_v4, snd admin_addr)))"

record socket_address_parts =
  part_host :: ustr
  part_port :: "16 word"

text \<open>\<open>str::parse::<u16>\<close>.\<close>

definition parse_u16 :: "ustr \<Rightarrow> 16 word option" where
  "parse_u16 s =
     (let ds = (if s \<noteq> [] \<and> hd s = 43 then tl s else s);
          n = foldl (\<lambda>n d. 10 * n + (d - 48)) 0 ds
      in if ds = [] \<or> \<not> list_all is_ascii_digit ds \<or> 65536 \<le> n then None else Some (of_nat n))"

text \<open>The text after the first and after the last occurrence of a pattern.\<close>

fun after_first :: "ustr \<Rightarrow> ustr \<Rightarrow> ustr option" where
  "after_first pat [] = (if pat = [] then Some [] else None)"
| "after_first pat (c # s) = (case strip_prefix (c # s) pat of Some r \<Rightarrow> Some r | None \<Rightarrow> after_first pat s)"

definition missing_host :: "ustr \<Rightarrow> ustr" where
  "missing_host input = lit ''missing host in network proxy address: '' @ input"

definition parse_host_port_fallback :: "ustr \<Rightarrow> 16 word \<Rightarrow> ustr + socket_address_parts" where
  "parse_host_port_fallback input default_port =
     (let without_scheme = (case after_first (lit ''://'') input of Some rest \<Rightarrow> rest | None \<Rightarrow> input);
          host_port0 = hd (split_on 47 without_scheme);
          host_port = last (split_on 64 host_port0);
          closing = dropWhile (\<lambda>c. c \<noteq> 93) host_port
      in if host_port \<noteq> [] \<and> hd host_port = 91 \<and> 93 \<in> set host_port then
           let host = drop 1 (takeWhile (\<lambda>c. c \<noteq> 93) host_port);
               port = (case strip_prefix (drop 1 closing) [58] of
                         Some p \<Rightarrow> (case parse_u16 p of Some n \<Rightarrow> n | None \<Rightarrow> default_port)
                       | None \<Rightarrow> default_port)
           in if host = [] then Inl (missing_host input) else Inr \<lparr>part_host = host, part_port = port\<rparr>
         else if count_char 58 host_port = 1 then
           let host = hd (split_on 58 host_port); port = last (split_on 58 host_port)
           in if host = [] then Inl (missing_host input)
              else Inr \<lparr>part_host = host,
                        part_port = (case parse_u16 port of Some n \<Rightarrow> n | None \<Rightarrow> default_port)\<rparr>
         else if host_port = [] then Inl (missing_host input)
         else Inr \<lparr>part_host = host_port, part_port = default_port\<rparr>)"

text \<open>\<open>url_parse\<close> is \<open>Url::parse\<close> with the host and the port of its result.\<close>

definition parse_host_port ::
  "(ustr \<Rightarrow> (ustr option \<times> 16 word option) option) \<Rightarrow> ustr \<Rightarrow> 16 word \<Rightarrow> ustr + socket_address_parts" where
  "parse_host_port url_parse url default_port =
     (let trimmed = trim url
      in if trimmed = [] then Inl (missing_host url)
         else if (case parse_ip_addr trimmed of Some (V6 _) \<Rightarrow> True | _ \<Rightarrow> False) \<and> \<not> starts_with trimmed [91] then
           Inr \<lparr>part_host = trimmed, part_port = default_port\<rparr>
         else
           let candidate = (if after_first (lit ''://'') trimmed \<noteq> None then trimmed
                            else lit ''http://'' @ trimmed)
           in case url_parse candidate of
                Some (Some host0, port) \<Rightarrow>
                  let host = trim_start_by (\<lambda>c. c = 91 \<or> c = 93) (trim_end_by (\<lambda>c. c = 91 \<or> c = 93) host0)
                  in if host = [] then Inl (missing_host url)
                     else Inr \<lparr>part_host = host,
                               part_port = (case port of Some n \<Rightarrow> n | None \<Rightarrow> default_port)\<rparr>
              | _ \<Rightarrow> parse_host_port_fallback trimmed default_port)"

definition resolve_addr ::
  "(ustr \<Rightarrow> (ustr option \<times> 16 word option) option) \<Rightarrow> ustr \<Rightarrow> 16 word \<Rightarrow> ustr + socket_addr" where
  "resolve_addr url_parse url default_port =
     bindE (parse_host_port url_parse url default_port) (\<lambda>addr_parts.
       let host = (if to_ascii_lowercase (part_host addr_parts) = lit ''localhost'' then lit ''127.0.0.1''
                   else part_host addr_parts)
       in case parse_ip_addr host of
            Some ip \<Rightarrow> Inr (ip, part_port addr_parts)
          | None \<Rightarrow> Inr (loopback_v4, part_port addr_parts))"

text \<open>An error carries the context of the setting.\<close>

definition resolve_runtime ::
  "(ustr \<Rightarrow> (ustr option \<times> 16 word option) option) \<Rightarrow> proxy_settings
    \<Rightarrow> (ustr \<times> ustr) + socket_addr \<times> socket_addr \<times> socket_addr" where
  "resolve_runtime url_parse cfg =
     bindE (map_errE (Pair (lit ''invalid network.proxy_url: '' @ proxy_url cfg)) (resolve_addr url_parse (proxy_url cfg) 3128)) (\<lambda>http_addr.
     bindE (map_errE (Pair (lit ''invalid network.socks_url: '' @ socks_url cfg)) (resolve_addr url_parse (socks_url cfg) 8081)) (\<lambda>socks_addr.
     bindE (map_errE (Pair (lit ''invalid network.admin_url: '' @ admin_url cfg)) (resolve_addr url_parse (admin_url cfg) 8080)) (\<lambda>admin_addr.
     Inr (clamp_bind_addrs http_addr socks_addr admin_addr cfg))))"

definition format_host_and_port :: "ustr \<Rightarrow> 16 word \<Rightarrow> ustr" where
  "format_host_and_port host port =
     (if 58 \<in> set host then [91] @ host @ [93, 58] @ show_nat (unat port)
      else host @ [58] @ show_nat (unat port))"

definition host_and_port_from_network_addr ::
  "(ustr \<Rightarrow> (ustr option \<times> 16 word option) option) \<Rightarrow> ustr \<Rightarrow> 16 word \<Rightarrow> ustr" where
  "host_and_port_from_network_addr url_parse val default_port =
     (let trimmed = trim val
      in if trimmed = [] then lit ''<missing>''
         else (case parse_host_port url_parse trimmed default_port of
                 Inr parts \<Rightarrow> format_host_and_port (part_host parts) (part_port parts)
               | Inl _ \<Rightarrow> format_host_and_port trimmed default_port))"

lemma loopback_v4_loopback [simp]: "is_loopback loopback_v4"
proof -
  have "octet (ipv4_of_octets 127 0 0 1) 0 = 127"
    by (simp add: octet_def ipv4_of_octets_def)
  then show ?thesis by (simp add: loopback_v4_def v4_is_loopback_def)
qed

text \<open>The proxy and the admin interface listen on a loopback address unless the setting that
  allows another one is on and no unix socket may be proxied; the ports are those configured.\<close>

theorem bind_addrs_loopback:
  "case clamp_bind_addrs http socks admin cfg of (http', socks', admin') \<Rightarrow>
     (is_loopback (fst http') \<or> non_loopback_proxy cfg \<and> allow_unix_sockets cfg = [] \<and> http' = http) \<and>
     (is_loopback (fst socks') \<or> non_loopback_proxy cfg \<and> allow_unix_sockets cfg = [] \<and> socks' = socks) \<and>
     (is_loopback (fst admin') \<or> non_loopback_admin cfg \<and> allow_unix_sockets cfg = [] \<and> admin' = admin) \<and>
     snd http' = snd http \<and> snd socks' = snd socks \<and> snd admin' = snd admin"
  by (auto simp: clamp_bind_addrs_def clamp_non_loopback_def Let_def)

section \<open>Managed constraints\<close>

record proxy_constraints =
  c_enabled :: "bool option"
  c_mode :: "network_mode option"
  c_allow_upstream_proxy :: "bool option"
  c_non_loopback_proxy :: "bool option"
  c_non_loopback_admin :: "bool option"
  c_allowed_domains :: "ustr list option"
  c_denied_domains :: "ustr list option"
  c_allow_unix_sockets :: "ustr list option"
  c_allow_local_binding :: "bool option"

text \<open>\<open>InvalidValue\<close>: the field, the candidate and what is allowed; \<open>debug\<close> is the
  \<open>Debug\<close> rendering of a list of strings.\<close>

record constraint_error =
  field_name :: ustr
  err_candidate :: ustr
  err_allowed :: ustr

definition invalid_value :: "string \<Rightarrow> ustr \<Rightarrow> ustr \<Rightarrow> constraint_error" where
  "invalid_value field candidate allowed =
     \<lparr>field_name = lit field, err_candidate = candidate, err_allowed = allowed\<rparr>"

definition validate_flag :: "string \<Rightarrow> bool option \<Rightarrow> bool \<Rightarrow> constraint_error + unit" where
  "validate_flag field permitted candidate =
     (case permitted of
        Some False \<Rightarrow>
          if candidate then Inl (invalid_value field (lit ''true'') (lit ''false (disabled by managed config)''))
          else Inr ()
      | _ \<Rightarrow> Inr ())"

fun mode_name :: "network_mode \<Rightarrow> ustr" where
  "mode_name Limited = lit ''Limited''"
| "mode_name Full = lit ''Full''"

definition validate_mode :: "network_mode option \<Rightarrow> network_mode \<Rightarrow> constraint_error + unit" where
  "validate_mode max_mode candidate =
     (case max_mode of
        None \<Rightarrow> Inr ()
      | Some m \<Rightarrow>
          if network_mode_rank candidate > network_mode_rank m
          then Inl (invalid_value ''network.mode'' (mode_name candidate) (mode_name m @ lit '' or more restrictive''))
          else Inr ())"

definition validate_allowed_domains ::
  "(ustr list \<Rightarrow> ustr) \<Rightarrow> (ustr \<Rightarrow> ustr option) \<Rightarrow> ustr list option \<Rightarrow> ustr list \<Rightarrow> constraint_error + unit" where
  "validate_allowed_domains debug url_host managed candidate =
     (case managed of
        None \<Rightarrow> Inr ()
      | Some domains \<Rightarrow>
          let managed_patterns = map (parse_for_constraints url_host) domains;
              invalid = filter (\<lambda>entry. \<not> list_ex (\<lambda>m. allows m (parse_for_constraints url_host entry)) managed_patterns) candidate
          in if invalid = [] then Inr ()
             else Inl (invalid_value ''network.allowed_domains'' (debug invalid) (lit ''subset of managed allowed_domains'')))"

definition validate_denied_domains ::
  "(ustr list \<Rightarrow> ustr) \<Rightarrow> ustr list option \<Rightarrow> ustr list \<Rightarrow> constraint_error + unit" where
  "validate_denied_domains debug managed candidate =
     (case managed of
        None \<Rightarrow> Inr ()
      | Some domains \<Rightarrow>
          let missing = filter (\<lambda>entry. entry \<notin> set (map to_ascii_lowercase candidate))
                          (remdups (map to_ascii_lowercase domains))
          in if missing = [] then Inr ()
             else Inl (invalid_value ''network.denied_domains'' (lit ''missing managed denied_domains entries'') (debug missing)))"

definition validate_unix_sockets ::
  "(ustr list \<Rightarrow> ustr) \<Rightarrow> ustr list option \<Rightarrow> ustr list \<Rightarrow> constraint_error + unit" where
  "validate_unix_sockets debug managed candidate =
     (case managed of
        None \<Rightarrow> Inr ()
      | Some sockets \<Rightarrow>
          let invalid = filter (\<lambda>entry. to_ascii_lowercase entry \<notin> set (map to_ascii_lowercase sockets)) candidate
          in if invalid = [] then Inr ()
             else Inl (invalid_value ''network.allow_unix_sockets'' (debug invalid) (lit ''subset of managed allow_unix_sockets'')))"

definition validate_policy_against_constraints ::
  "(ustr list \<Rightarrow> ustr) \<Rightarrow> (ustr \<Rightarrow> ustr option) \<Rightarrow> proxy_settings \<Rightarrow> proxy_constraints \<Rightarrow> constraint_error + unit" where
  "validate_policy_against_constraints debug url_host cfg con =
     bindE (validate_flag ''network.enabled'' (c_enabled con) (enabled cfg)) (\<lambda>_.
     bindE (validate_mode (c_mode con) (mode cfg)) (\<lambda>_.
     bindE (validate_flag ''network.allow_upstream_proxy'' (c_allow_upstream_proxy con) (allow_upstream_proxy cfg)) (\<lambda>_.
     bindE (validate_flag ''network.dangerously_allow_non_loopback_admin'' (c_non_loopback_admin con) (non_loopback_admin cfg)) (\<lambda>_.
     bindE (validate_flag ''network.dangerously_allow_non_loopback_proxy'' (c_non_loopback_proxy con) (non_loopback_proxy cfg)) (\<lambda>_.
     bindE (validate_flag ''network.allow_local_binding'' (c_allow_local_binding con) (allow_local_binding cfg)) (\<lambda>_.
     bindE (validate_allowed_domains debug url_host (c_allowed_domains con) (allowed_domains cfg)) (\<lambda>_.
     bindE (validate_denied_domains debug (c_denied_domains con) (denied_domains cfg)) (\<lambda>_.
     validate_unix_sockets debug (c_allow_unix_sockets con) (allow_unix_sockets cfg)))))))))"

lemma validate_flag_ok_iff: "validate_flag f permitted candidate = Inr () \<longleftrightarrow> (permitted = Some False \<longrightarrow> \<not> candidate)"
  by (auto simp: validate_flag_def split: option.splits bool.splits)

lemma validate_mode_ok_iff:
  "validate_mode max_mode candidate = Inr () \<longleftrightarrow>
     (\<forall>m. max_mode = Some m \<longrightarrow> network_mode_rank candidate \<le> network_mode_rank m)"
  by (auto simp: validate_mode_def split: option.splits)

lemma validate_allowed_domains_ok_iff:
  "validate_allowed_domains debug url_host (Some domains) candidate = Inr () \<longleftrightarrow>
     domain.within (map (parse_for_constraints url_host) domains) (map (parse_for_constraints url_host) candidate)"
  by (auto simp: validate_allowed_domains_def domain.within_def filter_empty_conv list_ex_iff Let_def)

lemma validate_denied_domains_ok_iff:
  "validate_denied_domains debug (Some domains) candidate = Inr () \<longleftrightarrow>
     to_ascii_lowercase ` set domains \<subseteq> to_ascii_lowercase ` set candidate"
  by (auto simp: validate_denied_domains_def filter_empty_conv Let_def)

lemma validate_unix_sockets_ok_iff:
  "validate_unix_sockets debug (Some sockets) candidate = Inr () \<longleftrightarrow>
     to_ascii_lowercase ` set candidate \<subseteq> to_ascii_lowercase ` set sockets"
  by (auto simp: validate_unix_sockets_def filter_empty_conv Let_def)

lemma bindE_unit_ok: "bindE (m :: 'e + unit) f = Inr y \<longleftrightarrow> m = Inr () \<and> f () = Inr y"
  by (cases m) auto

lemma validate_policy_ok_iff:
  "validate_policy_against_constraints debug url_host cfg con = Inr () \<longleftrightarrow>
     validate_flag ''network.enabled'' (c_enabled con) (enabled cfg) = Inr () \<and>
     validate_mode (c_mode con) (mode cfg) = Inr () \<and>
     validate_flag ''network.allow_upstream_proxy'' (c_allow_upstream_proxy con) (allow_upstream_proxy cfg) = Inr () \<and>
     validate_flag ''network.dangerously_allow_non_loopback_admin'' (c_non_loopback_admin con) (non_loopback_admin cfg) = Inr () \<and>
     validate_flag ''network.dangerously_allow_non_loopback_proxy'' (c_non_loopback_proxy con) (non_loopback_proxy cfg) = Inr () \<and>
     validate_flag ''network.allow_local_binding'' (c_allow_local_binding con) (allow_local_binding cfg) = Inr () \<and>
     validate_allowed_domains debug url_host (c_allowed_domains con) (allowed_domains cfg) = Inr () \<and>
     validate_denied_domains debug (c_denied_domains con) (denied_domains cfg) = Inr () \<and>
     validate_unix_sockets debug (c_allow_unix_sockets con) (allow_unix_sockets cfg) = Inr ()"
  by (simp only: validate_policy_against_constraints_def bindE_unit_ok)


definition no_constraints :: proxy_constraints where
  "no_constraints = \<lparr>c_enabled = None, c_mode = None, c_allow_upstream_proxy = None, c_non_loopback_proxy = None,
     c_non_loopback_admin = None, c_allowed_domains = None, c_denied_domains = None,
     c_allow_unix_sockets = None, c_allow_local_binding = None\<rparr>"


section \<open>The live proxy state\<close>

datatype host_block_reason = DeniedHost | NotAllowed | NotAllowedLocal

fun block_reason_str :: "host_block_reason \<Rightarrow> ustr" where
  "block_reason_str DeniedHost = lit ''denied''"
| "block_reason_str NotAllowed = lit ''not_allowed''"
| "block_reason_str NotAllowedLocal = lit ''not_allowed_local''"

datatype host_block_decision = Allowed | Blocked host_block_reason

record blocked_request =
  br_host :: ustr
  br_reason :: ustr
  br_client :: "ustr option"
  br_method :: "ustr option"
  br_mode :: "network_mode option"
  br_protocol :: ustr
  br_attempt_id :: "ustr option"
  br_decision :: "ustr option"
  br_source :: "ustr option"
  br_port :: "16 word option"
  br_timestamp :: int

record 'g config_state =
  st_config :: proxy_settings
  allow_set :: 'g
  deny_set :: 'g
  st_constraints :: proxy_constraints
  blocked :: "blocked_request list"
  blocked_total :: nat

definition build_config_state ::
  "(ustr \<Rightarrow> 'g option) \<Rightarrow> proxy_settings \<Rightarrow> proxy_constraints \<Rightarrow> ustr + 'g list config_state" where
  "build_config_state glob_build cfg con =
     bindE (compile_globset glob_build (denied_domains cfg)) (\<lambda>deny.
     bindE (compile_globset glob_build (allowed_domains cfg)) (\<lambda>allow.
     Inr \<lparr>st_config = cfg, allow_set = allow, deny_set = deny, st_constraints = con, blocked = [], blocked_total = 0\<rparr>))"

record 'g proxy_env =
  glob_is_match :: "'g \<Rightarrow> ustr \<Rightarrow> bool"
  lookup_host :: "ustr \<Rightarrow> 16 word \<Rightarrow> ip_addr list option"
  is_macos :: bool
  absolute_path :: "ustr \<Rightarrow> ustr option"
  canonicalize :: "ustr \<Rightarrow> ustr option"

text \<open>\<open>reload\<close> is what the reloader reports when an operation asks it. A reload keeps the
  buffered requests and their count.\<close>

definition reload_if_needed ::
  "'e + 'g config_state option \<Rightarrow> 'g config_state \<Rightarrow> 'e + 'g config_state" where
  "reload_if_needed reload st =
     bindE reload (\<lambda>r. case r of
         None \<Rightarrow> Inr st
       | Some new_state \<Rightarrow> Inr (new_state\<lparr>blocked := blocked st, blocked_total := blocked_total st\<rparr>))"

definition force_reload :: "'e + 'g config_state \<Rightarrow> 'g config_state \<Rightarrow> ('e + unit) \<times> 'g config_state" where
  "force_reload reload_now st =
     (case reload_now of
        Inr new_state \<Rightarrow> (Inr (), new_state\<lparr>blocked := blocked st\<rparr>)
      | Inl err \<Rightarrow> (Inl err, st))"

definition host_resolves_to_non_public_ip :: "'g proxy_env \<Rightarrow> ustr \<Rightarrow> 16 word \<Rightarrow> bool" where
  "host_resolves_to_non_public_ip env host port \<longleftrightarrow>
     (case parse_ip_addr host of
        Some ip \<Rightarrow> is_non_public_ip ip
      | None \<Rightarrow>
          (case lookup_host env host port of
             None \<Rightarrow> False
           | Some addrs \<Rightarrow> list_ex is_non_public_ip addrs))"

definition is_explicit_local_allowlisted :: "ustr list \<Rightarrow> ustr \<Rightarrow> bool" where
  "is_explicit_local_allowlisted domains normalized_host \<longleftrightarrow>
     list_ex (\<lambda>p0. let p = trim p0
                   in if p = lit ''*'' \<or> starts_with p (lit ''*.'') \<or> starts_with p (lit ''**.'') then False
                      else if 42 \<in> set p \<or> 63 \<in> set p then False
                      else normalize_host p = normalized_host) domains"

definition local_literal :: "ustr \<Rightarrow> bool" where
  "local_literal host \<longleftrightarrow>
     (if is_loopback_host host then True
      else (case parse_ip_addr (host_without_scope host) of
              Some ip \<Rightarrow> is_non_public_ip ip
            | None \<Rightarrow> False))"

text \<open>The decision of \<open>host_blocked\<close> once the state is current.\<close>

definition host_decision :: "'g proxy_env \<Rightarrow> 'g config_state \<Rightarrow> ustr \<Rightarrow> 16 word \<Rightarrow> host_block_decision" where
  "host_decision env st host0 port =
     (case host_parse host0 of
        None \<Rightarrow> Blocked NotAllowed
      | Some host \<Rightarrow>
          let domains = allowed_domains (st_config st);
              is_allowlisted = glob_is_match env (allow_set st) host;
              final = (if domains = [] \<or> \<not> is_allowlisted then Blocked NotAllowed else Allowed)
          in if glob_is_match env (deny_set st) host then Blocked DeniedHost
             else if \<not> allow_local_binding (st_config st) then
               (if local_literal host then
                  (if \<not> is_explicit_local_allowlisted domains host then Blocked NotAllowedLocal else final)
                else if host_resolves_to_non_public_ip env host port then Blocked NotAllowedLocal
                else final)
             else final)"

definition host_blocked ::
  "'g proxy_env \<Rightarrow> 'e + 'g config_state option \<Rightarrow> 'g config_state \<Rightarrow> ustr \<Rightarrow> 16 word
    \<Rightarrow> 'e + host_block_decision \<times> 'g config_state" where
  "host_blocked env reload st host port =
     bindE (reload_if_needed reload st) (\<lambda>st'. Inr (host_decision env st' host port, st'))"

definition max_blocked_events :: nat where
  "max_blocked_events = 200"

text \<open>The loop that drops the oldest entries.\<close>

fun pop_excess :: "nat \<Rightarrow> 'a list \<Rightarrow> 'a list" where
  "pop_excess limit [] = []"
| "pop_excess limit (x # xs) = (if length (x # xs) > limit then pop_excess limit xs else x # xs)"

definition record_blocked ::
  "'e + 'g config_state option \<Rightarrow> 'g config_state \<Rightarrow> blocked_request \<Rightarrow> 'e + 'g config_state" where
  "record_blocked reload st entry =
     bindE (reload_if_needed reload st) (\<lambda>st'.
       Inr (st'\<lparr>blocked := pop_excess max_blocked_events (blocked st' @ [entry]),
                blocked_total := sat_add (blocked_total st') 1\<rparr>))"

definition blocked_snapshot ::
  "'e + 'g config_state option \<Rightarrow> 'g config_state \<Rightarrow> 'e + blocked_request list \<times> 'g config_state" where
  "blocked_snapshot reload st = bindE (reload_if_needed reload st) (\<lambda>st'. Inr (blocked st', st'))"

definition drain_blocked ::
  "'e + 'g config_state option \<Rightarrow> 'g config_state \<Rightarrow> 'e + blocked_request list \<times> 'g config_state" where
  "drain_blocked reload st =
     bindE (reload_if_needed reload st) (\<lambda>st'. Inr (blocked st', st'\<lparr>blocked := []\<rparr>))"

definition is_unix_socket_allowed ::
  "'g proxy_env \<Rightarrow> 'e + 'g config_state option \<Rightarrow> 'g config_state \<Rightarrow> ustr \<Rightarrow> 'e + bool \<times> 'g config_state" where
  "is_unix_socket_allowed env reload st p =
     bindE (reload_if_needed reload st) (\<lambda>st'.
       if \<not> is_macos env then Inr (False, st')
       else if \<not> starts_with p [47] then Inr (False, st')
       else (case absolute_path env p of
               None \<Rightarrow> Inr (False, st')
             | Some requested_abs \<Rightarrow>
                 let requested_canonical = canonicalize env requested_abs
                 in Inr (list_ex (\<lambda>allowed. allowed = p \<or>
                           (case requested_canonical of
                              None \<Rightarrow> False
                            | Some c \<Rightarrow> canonicalize env allowed = Some c))
                         (allow_unix_sockets (st_config st')), st')))"

definition method_allowed ::
  "'e + 'g config_state option \<Rightarrow> 'g config_state \<Rightarrow> ustr \<Rightarrow> 'e + bool \<times> 'g config_state" where
  "method_allowed reload st meth =
     bindE (reload_if_needed reload st) (\<lambda>st'. Inr (allows_method (mode (st_config st')) meth, st'))"

text \<open>\<open>set_network_mode\<close> retries while the constraints change between its check and its
  write. Each attempt sees a reload outcome and, when it takes the write lock, the state
  another task may have left; \<open>None\<close> is a run that has not finished with the attempts
  given.\<close>

fun set_network_mode ::
  "(ustr list \<Rightarrow> ustr) \<Rightarrow> (ustr \<Rightarrow> ustr option) \<Rightarrow> network_mode
    \<Rightarrow> (('e + 'g config_state option) \<times> ('g config_state \<Rightarrow> 'g config_state)) list \<Rightarrow> 'g config_state
    \<Rightarrow> (('e + constraint_error) + 'g config_state) option" where
  "set_network_mode debug url_host m [] st = None"
| "set_network_mode debug url_host m ((reload, interfere) # attempts) st =
     (case reload_if_needed reload st of
        Inl e \<Rightarrow> Some (Inl (Inl e))
      | Inr st1 \<Rightarrow>
          (case validate_policy_against_constraints debug url_host ((st_config st1)\<lparr>mode := m\<rparr>) (st_constraints st1) of
             Inl e \<Rightarrow> Some (Inl (Inr e))
           | Inr _ \<Rightarrow>
               let st2 = interfere st1
               in if st_constraints st2 \<noteq> st_constraints st1
                  then set_network_mode debug url_host m attempts st2
                  else Some (Inr (st2\<lparr>st_config := (st_config st2)\<lparr>mode := m\<rparr>\<rparr>))))"

section \<open>Deciding a request\<close>

datatype network_protocol = Http | HttpsConnect | Socks5Tcp | Socks5Udp

fun as_policy_protocol :: "network_protocol \<Rightarrow> ustr" where
  "as_policy_protocol Http = lit ''http''"
| "as_policy_protocol HttpsConnect = lit ''https_connect''"
| "as_policy_protocol Socks5Tcp = lit ''socks5_tcp''"
| "as_policy_protocol Socks5Udp = lit ''socks5_udp''"

datatype network_policy_decision = DenyDecision | AskDecision

datatype network_decision_source = BaselinePolicy | ModeGuard | ProxyState | Decider

datatype network_decision =
    AllowNetwork
  | DenyNetwork ustr network_decision_source network_policy_decision

record network_policy_request =
  np_protocol :: network_protocol
  np_host :: ustr
  np_port :: "16 word"
  np_client_addr :: "ustr option"
  np_method :: "ustr option"
  np_command :: "ustr option"
  np_exec_policy_hint :: "ustr option"
  np_attempt_id :: "ustr option"

definition reason_or_default :: "ustr \<Rightarrow> ustr" where
  "reason_or_default reason = (if reason = [] then lit ''policy_denied'' else reason)"

definition deny_with_source :: "ustr \<Rightarrow> network_decision_source \<Rightarrow> network_decision" where
  "deny_with_source reason source = DenyNetwork (reason_or_default reason) source DenyDecision"

definition ask_with_source :: "ustr \<Rightarrow> network_decision_source \<Rightarrow> network_decision" where
  "ask_with_source reason source = DenyNetwork (reason_or_default reason) source AskDecision"

definition deny_network :: "ustr \<Rightarrow> network_decision" where
  "deny_network reason = deny_with_source reason Decider"

definition ask_network :: "ustr \<Rightarrow> network_decision" where
  "ask_network reason = ask_with_source reason Decider"

fun map_decider_decision :: "network_decision \<Rightarrow> network_decision" where
  "map_decider_decision AllowNetwork = AllowNetwork"
| "map_decider_decision (DenyNetwork reason _ d) = DenyNetwork reason Decider d"

definition evaluate_host_policy ::
  "'g proxy_env \<Rightarrow> 'e + 'g config_state option \<Rightarrow> 'g config_state
    \<Rightarrow> (network_policy_request \<Rightarrow> network_decision) option \<Rightarrow> network_policy_request
    \<Rightarrow> 'e + network_decision \<times> 'g config_state" where
  "evaluate_host_policy env reload st decider request =
     bindE (host_blocked env reload st (np_host request) (np_port request)) (\<lambda>(d, st').
       case d of
         Allowed \<Rightarrow> Inr (AllowNetwork, st')
       | Blocked reason \<Rightarrow>
           if reason = NotAllowed then
             (case decider of
                Some decide \<Rightarrow> Inr (map_decider_decision (decide request), st')
              | None \<Rightarrow> Inr (deny_with_source (block_reason_str NotAllowed) BaselinePolicy, st'))
           else Inr (deny_with_source (block_reason_str reason) BaselinePolicy, st'))"

text \<open>C4: Whatever the decider answers, a request is allowed only to a host that no deny pattern
  matches and, while local binding is off, only to a local or private literal that is listed
  exactly or to a name that does not resolve to a non-public address. Without a decider the
  allow list must match as well.\<close>

theorem allowed_request_respects_denials:
  assumes "evaluate_host_policy env reload st decider request = Inr (AllowNetwork, st')"
    and "host_parse (np_host request) = Some host"
  shows "reload_if_needed reload st = Inr st' \<and> \<not> glob_is_match env (deny_set st') host \<and>
    (allow_local_binding (st_config st') \<or>
     (if local_literal host then is_explicit_local_allowlisted (allowed_domains (st_config st')) host
      else \<not> host_resolves_to_non_public_ip env host (np_port request))) \<and>
    (decider = None \<longrightarrow> glob_is_match env (allow_set st') host \<and> allowed_domains (st_config st') \<noteq> [])"
  using assms
  by (auto simp: evaluate_host_policy_def host_blocked_def host_decision_def bindE_eq_Inr_iff
      deny_with_source_def Let_def split: host_block_decision.splits if_splits option.splits)

definition exact_env :: "ustr list proxy_env" where
  "exact_env = \<lparr>glob_is_match = (\<lambda>globs h. h \<in> set globs), lookup_host = (\<lambda>_ _. None), is_macos = False,
                absolute_path = Some, canonicalize = Some\<rparr>"

definition one_host_state :: "ustr \<Rightarrow> ustr list config_state" where
  "one_host_state h =
     \<lparr>st_config = default_settings\<lparr>allowed_domains := [h]\<rparr>, allow_set = [h], deny_set = [], st_constraints = no_constraints,
      blocked = [], blocked_total = 0\<rparr>"

definition request_to :: "ustr \<Rightarrow> network_policy_request" where
  "request_to h = \<lparr>np_protocol = Http, np_host = h, np_port = 80, np_client_addr = None, np_method = None,
                   np_command = None, np_exec_policy_hint = None, np_attempt_id = None\<rparr>"

theorem allowed_request_respects_denials_witness:
  "\<not> glob_is_match exact_env (deny_set (one_host_state (lit ''a''))) (lit ''a'') \<and>
   glob_is_match exact_env (allow_set (one_host_state (lit ''a''))) (lit ''a'')"
proof -
  have h: "host_parse (np_host (request_to (lit ''a''))) = Some (lit ''a'')"
    by (simp add: host_parse_def normalize_host_def normalize_dns_host_def count_char_def request_to_def Let_def)
       (simp add: str_ops)
  then have "evaluate_host_policy exact_env (Inr None :: unit + _) (one_host_state (lit ''a'')) None (request_to (lit ''a'')) =
      Inr (AllowNetwork, one_host_state (lit ''a''))"
    by (simp add: evaluate_host_policy_def host_blocked_def reload_if_needed_def host_decision_def
        exact_env_def one_host_state_def default_settings_def Let_def)
  from allowed_request_respects_denials [OF this h] show ?thesis by simp
qed

section \<open>The buffer of blocked requests\<close>

lemma pop_excess_eq: "pop_excess limit xs = drop (length xs - limit) xs"
  by (induction xs) (auto simp: Suc_diff_le)

text \<open>The operations that change the state; \<open>forced\<close> says whether a forced reload is among
  them.\<close>

inductive proxy_step :: "bool \<Rightarrow> 'g config_state \<Rightarrow> 'g config_state \<Rightarrow> bool" for forced where
  step_reload: "reload_if_needed (Inr r :: unit + _) st = Inr st' \<Longrightarrow> proxy_step forced st st'"
| step_record: "record_blocked (Inr r :: unit + _) st entry = Inr st' \<Longrightarrow> proxy_step forced st st'"
| step_drain: "drain_blocked (Inr r :: unit + _) st = Inr (out, st') \<Longrightarrow> proxy_step forced st st'"
| step_mode: "st' = st\<lparr>st_config := (st_config st)\<lparr>mode := m\<rparr>\<rparr> \<Longrightarrow> proxy_step forced st st'"
| step_force: "forced \<Longrightarrow> force_reload (reload_now :: unit + _) st = (res, st') \<Longrightarrow> proxy_step forced st st'"

inductive proxy_reach :: "bool \<Rightarrow> 'g config_state \<Rightarrow> 'g config_state \<Rightarrow> bool" for forced st0 where
  reach_refl: "proxy_reach forced st0 st0"
| reach_step: "proxy_reach forced st0 st \<Longrightarrow> proxy_step forced st st' \<Longrightarrow> proxy_reach forced st0 st'"

lemmas step_defs = reload_if_needed_def record_blocked_def drain_blocked_def force_reload_def

lemma step_blocked_bound:
  "proxy_step forced st st' \<Longrightarrow> length (blocked st) \<le> max_blocked_events \<Longrightarrow> length (blocked st') \<le> max_blocked_events"
  by (induction rule: proxy_step.induct)
     (auto simp: step_defs pop_excess_eq split: option.splits sum.splits)

lemma step_blocked_counted:
  "proxy_step False st st' \<Longrightarrow> length (blocked st) \<le> max_blocked_events \<Longrightarrow> length (blocked st) \<le> blocked_total st \<Longrightarrow>
     length (blocked st') \<le> blocked_total st'"
  by (induction rule: proxy_step.induct)
     (auto simp: step_defs pop_excess_eq sat_add_def max_blocked_events_def usize_max_def split: option.splits)

text \<open>From a freshly built state the buffer never holds more than 200 blocked requests,
  whatever operations run; and as long as no forced reload happens it never holds more than were
  counted.\<close>

theorem blocked_buffer_bounded:
  assumes "build_config_state glob_build cfg con = Inr st0" and "proxy_reach forced st0 st"
  shows "length (blocked st) \<le> 200 \<and> (\<not> forced \<longrightarrow> length (blocked st) \<le> blocked_total st)"
proof -
  have start: "blocked st0 = []"
    using assms(1) by (auto simp: build_config_state_def bindE_eq_Inr_iff)
  have "length (blocked st) \<le> max_blocked_events \<and> (\<not> forced \<longrightarrow> length (blocked st) \<le> blocked_total st)"
    using assms(2)
  proof (induction rule: proxy_reach.induct)
    case reach_refl
    show ?case by (simp add: start)
  next
    case (reach_step st st')
    then show ?case
      using step_blocked_bound [of forced st st'] step_blocked_counted [of st st'] by (cases forced) auto
  qed
  then show ?thesis by (simp add: max_blocked_events_def)
qed

theorem blocked_buffer_bounded_witness:
  "\<exists>st0. build_config_state (\<lambda>g. Some g) default_settings no_constraints = Inr st0 \<and> length (blocked st0) \<le> 200"
proof -
  obtain st0 where "build_config_state (\<lambda>g. Some g) default_settings no_constraints = Inr st0"
    by (simp add: build_config_state_def compile_globset_def default_settings_def)
  from blocked_buffer_bounded [OF this reach_refl [of False]] this show ?thesis by blast
qed

text \<open>A forced reload keeps the buffered requests but takes over the new state's count, so
  the two disagree afterwards.\<close>

lemma force_reload_loses_total:
  "blocked (snd (force_reload (Inr (one_host_state h) :: unit + _) (st\<lparr>blocked := [e], blocked_total := 1\<rparr>))) = [e] \<and>
   blocked_total (snd (force_reload (Inr (one_host_state h) :: unit + _) (st\<lparr>blocked := [e], blocked_total := 1\<rparr>))) = 0"
  by (simp add: force_reload_def one_host_state_def)

end
