(* ===== verification/NetworkApproval.thy ===== *)
theory NetworkApproval
  imports NetworkProxy SandboxPolicies "HOL-Library.AList"
begin

text \<open>
  Approval of network access while a command runs (\<open>core/src/tools/network_approval.rs\<close> and
  \<open>core/src/network_policy_decision.rs\<close>). The attempts are shared objects behind an \<open>Arc\<close>:
  the service maps an attempt's id to the address of its cell in an explicit store, so an
  attempt that is unregistered while the user is being asked is still written, without
  effect on the service.
\<close>

section \<open>Decisions sent by the proxy\<close>

datatype approval_protocol = AHttp | AHttps | ASocks5Tcp | ASocks5Udp

record network_approval_context =
  ctx_host :: ustr
  ctx_protocol :: approval_protocol

record decision_payload =
  pl_decision :: network_policy_decision
  pl_source :: network_decision_source
  pl_protocol :: "approval_protocol option"
  pl_host :: "ustr option"
  pl_reason :: "ustr option"
  pl_port :: "16 word option"

definition is_ask_from_decider :: "decision_payload \<Rightarrow> bool" where
  "is_ask_from_decider p \<longleftrightarrow> pl_decision p = AskDecision \<and> pl_source p = Decider"

definition parse_network_policy_decision :: "ustr \<Rightarrow> network_policy_decision option" where
  "parse_network_policy_decision val =
     (if val = lit ''deny'' then Some DenyDecision
      else if val = lit ''ask'' then Some AskDecision
      else None)"

definition network_approval_context_from_payload :: "decision_payload \<Rightarrow> network_approval_context option" where
  "network_approval_context_from_payload payload =
     (if \<not> is_ask_from_decider payload then None
      else (case pl_protocol payload of
              None \<Rightarrow> None
            | Some protocol \<Rightarrow>
                (case pl_host payload of
                   None \<Rightarrow> None
                 | Some host0 \<Rightarrow>
                     let host = trim host0
                     in if host = [] then None else Some \<lparr>ctx_host = host, ctx_protocol = protocol\<rparr>)))"

abbreviation quote :: ustr where
  "quote \<equiv> [34]"

definition blocked_detail :: "ustr \<Rightarrow> ustr" where
  "blocked_detail reason =
     (if reason = lit ''denied'' then lit ''domain is explicitly denied by policy and cannot be approved from this prompt''
      else if reason = lit ''not_allowed'' then lit ''domain is not on the allowlist for the current sandbox mode''
      else if reason = lit ''not_allowed_local'' then lit ''local/private network addresses are blocked by policy''
      else if reason = lit ''method_not_allowed'' then lit ''request method is blocked by the current network mode''
      else if reason = lit ''proxy_disabled'' then lit ''managed network proxy is disabled''
      else lit ''request is blocked by network policy'')"

definition denied_network_policy_message :: "blocked_request \<Rightarrow> ustr option" where
  "denied_network_policy_message request =
     (if Option.bind (br_decision request) parse_network_policy_decision \<noteq> Some DenyDecision then None
      else
        let host = trim (br_host request)
        in if host = [] then Some (lit ''Network access was blocked by policy.'')
           else Some (lit ''Network access to '' @ quote @ host @ quote @ lit '' was blocked: '' @
                      blocked_detail (br_reason request) @ lit ''.''))"

section \<open>The approval service\<close>

datatype approval_mode = Immediate | Deferred

datatype approval_outcome = DeniedByUser | DeniedByPolicy ustr

record approval_attempt =
  att_turn_id :: ustr
  att_call_id :: ustr
  att_command :: "ustr list"
  att_cwd :: ustr
  approved_hosts :: "ustr set"
  att_outcome :: "approval_outcome option"

record approval_service =
  attempts :: "(ustr \<times> nat) list"
  cells :: "nat \<Rightarrow> approval_attempt"
  next_cell :: nat
  session_approved_hosts :: "ustr set"

definition register_attempt ::
  "ustr \<Rightarrow> ustr \<Rightarrow> ustr \<Rightarrow> ustr list \<Rightarrow> ustr \<Rightarrow> approval_service \<Rightarrow> approval_service" where
  "register_attempt attempt_id turn_id call_id command cwd s =
     s\<lparr>attempts := AList.update attempt_id (next_cell s) (attempts s),
       cells := (cells s)(next_cell s :=
         \<lparr>att_turn_id = turn_id, att_call_id = call_id, att_command = command, att_cwd = cwd,
          approved_hosts = {}, att_outcome = None\<rparr>),
       next_cell := Suc (next_cell s)\<rparr>"

definition unregister_attempt :: "ustr \<Rightarrow> approval_service \<Rightarrow> approval_service" where
  "unregister_attempt attempt_id s = s\<lparr>attempts := AList.delete attempt_id (attempts s)\<rparr>"

definition update_cell :: "nat \<Rightarrow> (approval_attempt \<Rightarrow> approval_attempt) \<Rightarrow> approval_service \<Rightarrow> approval_service" where
  "update_cell a f s = s\<lparr>cells := (cells s)(a := f (cells s a))\<rparr>"

definition take_outcome :: "ustr \<Rightarrow> approval_service \<Rightarrow> approval_outcome option \<times> approval_service" where
  "take_outcome attempt_id s =
     (case map_of (attempts s) attempt_id of
        None \<Rightarrow> (None, s)
      | Some a \<Rightarrow> (att_outcome (cells s a), update_cell a (\<lambda>att. att\<lparr>att_outcome := None\<rparr>) s))"

definition take_user_denial_outcome :: "ustr \<Rightarrow> approval_service \<Rightarrow> bool \<times> approval_service" where
  "take_user_denial_outcome attempt_id s =
     (case map_of (attempts s) attempt_id of
        None \<Rightarrow> (False, s)
      | Some a \<Rightarrow>
          if att_outcome (cells s a) = Some DeniedByUser
          then (True, update_cell a (\<lambda>att. att\<lparr>att_outcome := None\<rparr>) s)
          else (False, s))"

text \<open>A request without an attempt id belongs to the only attempt, when there is just one.\<close>

definition resolve_attempt :: "approval_service \<Rightarrow> ustr option \<Rightarrow> nat option" where
  "resolve_attempt s requested_id =
     (case requested_id of
        Some attempt_id \<Rightarrow> map_of (attempts s) attempt_id
      | None \<Rightarrow> (case attempts s of [(_, a)] \<Rightarrow> Some a | _ \<Rightarrow> None))"

definition resolve_attempt_for_request :: "approval_service \<Rightarrow> network_policy_request \<Rightarrow> nat option" where
  "resolve_attempt_for_request s request = resolve_attempt s (np_attempt_id request)"

definition resolve_attempt_for_blocked_request :: "approval_service \<Rightarrow> blocked_request \<Rightarrow> nat option" where
  "resolve_attempt_for_blocked_request s request = resolve_attempt s (br_attempt_id request)"

definition record_blocked_request :: "blocked_request \<Rightarrow> approval_service \<Rightarrow> approval_service" where
  "record_blocked_request request s =
     (case denied_network_policy_message request of
        None \<Rightarrow> s
      | Some message \<Rightarrow>
          (case resolve_attempt_for_blocked_request s request of
             None \<Rightarrow> s
           | Some a \<Rightarrow>
               if att_outcome (cells s a) = Some DeniedByUser then s
               else update_cell a (\<lambda>att. att\<lparr>att_outcome := Some (DeniedByPolicy message)\<rparr>) s))"

fun approval_protocol_of :: "network_protocol \<Rightarrow> approval_protocol" where
  "approval_protocol_of Http = AHttp"
| "approval_protocol_of HttpsConnect = AHttps"
| "approval_protocol_of Socks5Tcp = ASocks5Tcp"
| "approval_protocol_of Socks5Udp = ASocks5Udp"

text \<open>
  An inline request runs up to the question to the user (\<open>begin_inline\<close>: a decision, or the
  cell of the attempt that waits for an answer) and is resumed with the answer
  (\<open>finish_inline\<close>) in whatever state the service is by then. \<open>turn_known\<close> says whether the
  session still knows a turn.
\<close>

datatype inline_progress = Decided network_decision | AskUserAbout nat network_approval_context

definition begin_inline :: "(ustr \<Rightarrow> bool) \<Rightarrow> network_policy_request \<Rightarrow> approval_service \<Rightarrow> inline_progress" where
  "begin_inline turn_known request s =
     (if np_host request \<in> session_approved_hosts s then Decided AllowNetwork
      else (case resolve_attempt_for_request s request of
              None \<Rightarrow> Decided (deny_network (lit ''not_allowed''))
            | Some a \<Rightarrow>
                if np_host request \<in> approved_hosts (cells s a) then Decided AllowNetwork
                else if \<not> turn_known (att_turn_id (cells s a)) then Decided (deny_network (lit ''not_allowed''))
                else AskUserAbout a \<lparr>ctx_host = np_host request,
                                     ctx_protocol = approval_protocol_of (np_protocol request)\<rparr>))"

definition finish_inline ::
  "nat \<Rightarrow> ustr \<Rightarrow> 'a review_decision \<Rightarrow> approval_service \<Rightarrow> network_decision \<times> approval_service" where
  "finish_inline a host answer s =
     (case answer of
        Approved \<Rightarrow> (AllowNetwork, update_cell a (\<lambda>att. att\<lparr>approved_hosts := insert host (approved_hosts att)\<rparr>) s)
      | ApprovedExecpolicyAmendment _ \<Rightarrow>
          (AllowNetwork, update_cell a (\<lambda>att. att\<lparr>approved_hosts := insert host (approved_hosts att)\<rparr>) s)
      | ApprovedForSession \<Rightarrow>
          (AllowNetwork, s\<lparr>session_approved_hosts := insert host (session_approved_hosts s)\<rparr>)
      | Denied \<Rightarrow>
          (deny_network (lit ''not_allowed''), update_cell a (\<lambda>att. att\<lparr>att_outcome := Some DeniedByUser\<rparr>) s)
      | Abort \<Rightarrow>
          (deny_network (lit ''not_allowed''), update_cell a (\<lambda>att. att\<lparr>att_outcome := Some DeniedByUser\<rparr>) s))"

text \<open>\<open>build_network_policy_decider\<close>: without a live session the request is to be asked.\<close>

definition inline_decider ::
  "bool \<Rightarrow> (ustr \<Rightarrow> bool) \<Rightarrow> network_policy_request \<Rightarrow> approval_service \<Rightarrow> inline_progress" where
  "inline_decider session_alive turn_known request s =
     (if \<not> session_alive then Decided (ask_network (lit ''not_allowed'')) else begin_inline turn_known request s)"

section \<open>Approval around one run of a tool\<close>

record network_approval_spec =
  spec_command :: "ustr list"
  spec_cwd :: ustr
  spec_has_network :: bool
  spec_mode :: approval_mode

record active_approval =
  active_attempt_id :: "ustr option"
  active_mode :: approval_mode

definition into_deferred :: "active_approval \<Rightarrow> ustr option" where
  "into_deferred a =
     (case (active_mode a, active_attempt_id a) of
        (Deferred, Some attempt_id) \<Rightarrow> Some attempt_id
      | _ \<Rightarrow> None)"

text \<open>\<open>fresh_id\<close> is the new UUID.\<close>

definition begin_network_approval ::
  "ustr \<Rightarrow> ustr \<Rightarrow> ustr \<Rightarrow> bool \<Rightarrow> network_approval_spec option \<Rightarrow> approval_service
    \<Rightarrow> active_approval option \<times> approval_service" where
  "begin_network_approval fresh_id turn_id call_id has_managed_network_requirements spec0 s =
     (case spec0 of
        None \<Rightarrow> (None, s)
      | Some spec \<Rightarrow>
          if \<not> has_managed_network_requirements \<or> \<not> spec_has_network spec then (None, s)
          else (Some \<lparr>active_attempt_id = Some fresh_id, active_mode = spec_mode spec\<rparr>,
                register_attempt fresh_id turn_id call_id (spec_command spec) (spec_cwd spec) s))"

definition outcome_message :: "approval_outcome option \<Rightarrow> ustr option" where
  "outcome_message outcome =
     (case outcome of
        Some DeniedByUser \<Rightarrow> Some (lit ''rejected by user'')
      | Some (DeniedByPolicy message) \<Rightarrow> Some message
      | None \<Rightarrow> None)"

text \<open>The error is the text of the rejection.\<close>

definition finish_immediate_network_approval ::
  "active_approval \<Rightarrow> approval_service \<Rightarrow> (ustr + unit) \<times> approval_service" where
  "finish_immediate_network_approval active s =
     (case active_attempt_id active of
        None \<Rightarrow> (Inr (), s)
      | Some attempt_id \<Rightarrow>
          (case take_outcome attempt_id s of (outcome, s1) \<Rightarrow>
             (case outcome_message outcome of Some m \<Rightarrow> Inl m | None \<Rightarrow> Inr (),
              unregister_attempt attempt_id s1)))"

definition deferred_rejection_message :: "ustr \<Rightarrow> approval_service \<Rightarrow> ustr option \<times> approval_service" where
  "deferred_rejection_message attempt_id s =
     (case take_outcome attempt_id s of (outcome, s1) \<Rightarrow> (outcome_message outcome, s1))"

definition finish_deferred_network_approval :: "ustr option \<Rightarrow> approval_service \<Rightarrow> approval_service" where
  "finish_deferred_network_approval deferred s =
     (case deferred of None \<Rightarrow> s | Some attempt_id \<Rightarrow> unregister_attempt attempt_id s)"

section \<open>Runs of the service\<close>

text \<open>
  A run interleaves the operations of any number of requests. The second component records
  the answers the user gave: the host asked about, the cell, and the answer.
\<close>

type_synonym 'a answers = "(ustr \<times> nat \<times> 'a review_decision) list"

inductive service_step :: "approval_service \<times> 'a answers \<Rightarrow> approval_service \<times> 'a answers \<Rightarrow> bool" where
  service_register: "service_step (s, log) (register_attempt i t c cmd cwd s, log)"
| service_unregister: "service_step (s, log) (unregister_attempt i s, log)"
| service_take: "take_outcome i s = (oc, s') \<Longrightarrow> service_step (s, log) (s', log)"
| service_take_user: "take_user_denial_outcome i s = (b, s') \<Longrightarrow> service_step (s, log) (s', log)"
| service_blocked: "service_step (s, log) (record_blocked_request r s, log)"
| service_answer: "a < next_cell s \<Longrightarrow> finish_inline a host answer s = (d, s') \<Longrightarrow>
    service_step (s, log) (s', (host, a, answer) # log)"

inductive service_reach :: "approval_service \<times> 'a answers \<Rightarrow> bool" where
  service_start: "attempts s = [] \<Longrightarrow> next_cell s = 0 \<Longrightarrow> session_approved_hosts s = {} \<Longrightarrow> service_reach (s, [])"
| service_more: "service_reach p \<Longrightarrow> service_step p p' \<Longrightarrow> service_reach p'"

inductive_cases service_stepE: "service_step (s, log) p"

fun is_approval :: "'a review_decision \<Rightarrow> bool" where
  "is_approval Approved = True"
| "is_approval (ApprovedExecpolicyAmendment _) = True"
| "is_approval ApprovedForSession = True"
| "is_approval _ = False"

text \<open>Every approved host goes back to an answer; registered attempts have distinct ids and
  cells that were allocated.\<close>

definition service_inv :: "approval_service \<Rightarrow> 'a answers \<Rightarrow> bool" where
  "service_inv s log \<longleftrightarrow>
     distinct (map fst (attempts s)) \<and> (\<forall>a \<in> snd ` set (attempts s). a < next_cell s) \<and>
     (\<forall>h \<in> session_approved_hosts s. \<exists>a. (h, a, ApprovedForSession) \<in> set log) \<and>
     (\<forall>a < next_cell s. \<forall>h \<in> approved_hosts (cells s a). \<exists>r. is_approval r \<and> (h, a, r) \<in> set log)"

lemma AList_update_snd: "snd ` set (AList.update k v al) \<subseteq> insert v (snd ` set al)"
  by (induction al) auto

lemma AList_delete_mem: "x \<in> set (AList.delete k al) \<Longrightarrow> x \<in> set al"
  by (auto simp: AList.delete_eq)

lemma service_inv_register:
  assumes "service_inv s log"
  shows "service_inv (register_attempt i t c cmd cwd s) log"
proof -
  have "\<forall>a \<in> snd ` set (AList.update i (next_cell s) (attempts s)). a < Suc (next_cell s)"
  proof
    fix a assume "a \<in> snd ` set (AList.update i (next_cell s) (attempts s))"
    from subsetD [OF AList_update_snd this] have "a = next_cell s \<or> a \<in> snd ` set (attempts s)"
      unfolding insert_iff .
    with assms show "a < Suc (next_cell s)"
      unfolding service_inv_def less_Suc_eq by blast
  qed
  moreover have "distinct (map fst (AList.update i (next_cell s) (attempts s)))"
    using assms by (simp add: service_inv_def distinct_update)
  ultimately show ?thesis
    using assms by (simp add: service_inv_def register_attempt_def less_Suc_eq)
qed

lemma service_inv_unregister: "service_inv s log \<Longrightarrow> service_inv (unregister_attempt i s) log"
  by (fastforce simp: service_inv_def unregister_attempt_def distinct_delete dest: AList_delete_mem)

lemma service_inv_update_outcome:
  "service_inv s log \<Longrightarrow> service_inv (update_cell a (\<lambda>att. att\<lparr>att_outcome := oc\<rparr>) s) log"
  by (auto simp: service_inv_def update_cell_def)

lemma service_inv_log: "service_inv s log \<Longrightarrow> service_inv s (e # log)"
  by (fastforce simp: service_inv_def)

lemma service_inv_approve:
  assumes "service_inv s log" and "is_approval r"
  shows "service_inv (update_cell a (\<lambda>att. att\<lparr>approved_hosts := insert h (approved_hosts att)\<rparr>) s) ((h, a, r) # log)"
  using assms by (fastforce simp: service_inv_def update_cell_def)

lemma service_inv_session:
  "service_inv s log \<Longrightarrow>
     service_inv (s\<lparr>session_approved_hosts := insert h (session_approved_hosts s)\<rparr>) ((h, a, ApprovedForSession) # log)"
  by (fastforce simp: service_inv_def)

lemma service_inv_finish:
  "service_inv s log \<Longrightarrow> finish_inline a h answer s = (d, s') \<Longrightarrow> service_inv s' ((h, a, answer) # log)"
  by (cases answer)
     (auto simp: finish_inline_def intro: service_inv_approve service_inv_session
        service_inv_log service_inv_update_outcome)

lemma service_inv_step: "service_step p p' \<Longrightarrow> service_inv (fst p) (snd p) \<Longrightarrow> service_inv (fst p') (snd p')"
  by (induction rule: service_step.induct)
     (auto simp: take_outcome_def take_user_denial_outcome_def record_blocked_request_def
        intro: service_inv_register service_inv_unregister service_inv_update_outcome service_inv_finish
        split: option.splits if_splits)

lemma service_reach_inv: "service_reach p \<Longrightarrow> service_inv (fst p) (snd p)"
proof (induction rule: service_reach.induct)
  case (service_start s)
  then show ?case by (simp add: service_inv_def)
next
  case (service_more p p')
  then show ?case by (blast intro: service_inv_step)
qed

lemma resolve_attempt_mem: "resolve_attempt s i = Some a \<Longrightarrow> a \<in> snd ` set (attempts s)"
  by (auto simp: resolve_attempt_def dest: map_of_SomeD split: option.splits list.splits)
     (force dest: map_of_SomeD)

text \<open>C15: In every interleaving of the service's operations, a request is let through without a
  question only if the user approved that host before: for the session, or in an answer about
  the very attempt the request belongs to. An approval for one command does not let another
  command's requests through.\<close>

theorem inline_allow_needs_approval:
  assumes "service_reach (s, log)"
    and "begin_inline turn_known request s = Decided AllowNetwork"
  shows "(\<exists>a. (np_host request, a, ApprovedForSession) \<in> set log) \<or>
    (\<exists>a r. resolve_attempt_for_request s request = Some a \<and> is_approval r \<and> (np_host request, a, r) \<in> set log)"
proof -
  have inv: "service_inv s log"
    using service_reach_inv [OF assms(1)] by simp
  from assms(2) consider "np_host request \<in> session_approved_hosts s"
    | a where "resolve_attempt_for_request s request = Some a" "np_host request \<in> approved_hosts (cells s a)"
    by (auto simp: begin_inline_def deny_network_def deny_with_source_def split: if_splits option.splits)
  then show ?thesis
  proof cases
    case 1
    with inv show ?thesis by (auto simp: service_inv_def)
  next
    case 2
    then have "a \<in> snd ` set (attempts s)"
      by (auto simp: resolve_attempt_for_request_def dest: resolve_attempt_mem)
    with inv have "a < next_cell s"
      by (auto simp: service_inv_def)
    with inv 2 show ?thesis
      by (fastforce simp: service_inv_def)
  qed
qed

definition idle_service :: approval_service where
  "idle_service = \<lparr>attempts = [], cells = (\<lambda>_. undefined), next_cell = 0, session_approved_hosts = {}\<rparr>"

theorem inline_allow_needs_approval_witness:
  "\<exists>s. service_reach (s, [(lit ''h'', 0, Approved :: unit review_decision)]) \<and>
     begin_inline (\<lambda>_. True) (request_to (lit ''h'')) s = Decided AllowNetwork \<and>
     (\<exists>a r. is_approval r \<and> (lit ''h'', a, r) \<in> set [(lit ''h'', 0, Approved :: unit review_decision)])"
proof -
  let ?s1 = "register_attempt (lit ''i'') [] [] [] [] idle_service"
  let ?s2 = "update_cell 0 (\<lambda>att. att\<lparr>approved_hosts := insert (lit ''h'') (approved_hosts att)\<rparr>) ?s1"
  have r0: "service_reach (idle_service, [] :: unit answers)"
    by (rule service_start) (simp_all add: idle_service_def)
  have r1: "service_reach (?s1, [] :: unit answers)"
    by (rule service_more [OF r0 service_register])
  have "0 < next_cell ?s1"
    by (simp add: register_attempt_def)
  moreover have "finish_inline 0 (lit ''h'') (Approved :: unit review_decision) ?s1 = (AllowNetwork, ?s2)"
    by (simp add: finish_inline_def)
  ultimately have r2: "service_reach (?s2, [(lit ''h'', 0, Approved :: unit review_decision)])"
    by (rule service_more [OF r1 service_answer])
  have b: "begin_inline (\<lambda>_. True) (request_to (lit ''h'')) ?s2 = Decided AllowNetwork"
    by (simp add: begin_inline_def request_to_def resolve_attempt_for_request_def resolve_attempt_def
        update_cell_def register_attempt_def idle_service_def)
  from inline_allow_needs_approval [OF r2 b] r2 b show ?thesis
    by (auto simp: request_to_def)
qed

end
