(* ===== verification/ToolOrchestration.thy ===== *)
theory ToolOrchestration
  imports ExecApproval NetworkApproval
begin

text \<open>
  Running a tool: the session's cache of approvals and the default approval methods of a tool
  (\<open>core/src/tools/sandboxing.rs\<close>), the choice of the sandbox and the command line it runs
  (\<open>core/src/sandboxing/mod.rs\<close>), and the orchestration of approval, first attempt and retry
  (\<open>core/src/tools/orchestrator.rs\<close>). The tool is a parameter: what its methods answer, and
  how its asynchronous ones change the world and the network approval service.
\<close>

section \<open>Cached approvals\<close>

text \<open>\<open>ser\<close> is \<open>serde_json::to_string\<close> of a key.\<close>

type_synonym 'a approval_store = "ustr \<rightharpoonup> 'a review_decision"

definition store_get :: "('k \<Rightarrow> ustr option) \<Rightarrow> 'a approval_store \<Rightarrow> 'k \<Rightarrow> 'a review_decision option" where
  "store_get ser store key = Option.bind (ser key) store"

definition store_put ::
  "('k \<Rightarrow> ustr option) \<Rightarrow> 'a approval_store \<Rightarrow> 'k \<Rightarrow> 'a review_decision \<Rightarrow> 'a approval_store" where
  "store_put ser store key val = (case ser key of Some s \<Rightarrow> store(s \<mapsto> val) | None \<Rightarrow> store)"

definition approved_for_session :: "'a review_decision option \<Rightarrow> bool" where
  "approved_for_session d \<longleftrightarrow> (case d of Some ApprovedForSession \<Rightarrow> True | _ \<Rightarrow> False)"

lemma approved_for_session_iff: "approved_for_session d \<longleftrightarrow> d = Some ApprovedForSession"
  by (auto simp: approved_for_session_def split: option.splits review_decision.splits)

text \<open>The decision, the store afterwards and whether the user was asked; \<open>answer\<close> is what the
  user answers if asked.\<close>

definition with_cached_approval ::
  "('k \<Rightarrow> ustr option) \<Rightarrow> 'a approval_store \<Rightarrow> 'k list \<Rightarrow> 'a review_decision
    \<Rightarrow> 'a review_decision \<times> 'a approval_store \<times> bool" where
  "with_cached_approval ser store keys answer =
     (if keys = [] then (answer, store, True)
      else if list_all (\<lambda>key. approved_for_session (store_get ser store key)) keys
      then (ApprovedForSession, store, False)
      else if approved_for_session (Some answer)
      then (answer, foldl (\<lambda>st key. store_put ser st key ApprovedForSession) store keys, True)
      else (answer, store, True))"

text \<open>What the callers rely on: a key put is found under every key stored the same way, and
  nothing else changes.\<close>

locale approval_cache =
  fixes get :: "'s \<Rightarrow> 'k \<Rightarrow> 'v option"
    and put :: "'s \<Rightarrow> 'k \<Rightarrow> 'v \<Rightarrow> 's"
    and same :: "'k \<Rightarrow> 'k \<Rightarrow> bool"
  assumes get_put: "get (put s k v) k' = (if same k k' then Some v else get s k')"
begin

definition put_all :: "'s \<Rightarrow> 'k list \<Rightarrow> 'v \<Rightarrow> 's" where
  "put_all s ks v = foldl (\<lambda>st k. put st k v) s ks"

lemma get_put_all: "get (put_all s ks v) k' = (if \<exists>k \<in> set ks. same k k' then Some v else get s k')"
  unfolding put_all_def by (induction ks arbitrary: s) (auto simp: get_put)

lemma put_all_keeps: "get s k' = Some v \<Longrightarrow> get (put_all s ks v) k' = Some v"
  by (simp add: get_put_all)

end

definition same_key :: "('k \<Rightarrow> ustr option) \<Rightarrow> 'k \<Rightarrow> 'k \<Rightarrow> bool" where
  "same_key ser k k' \<longleftrightarrow> ser k \<noteq> None \<and> ser k = ser k'"

interpretation store: approval_cache "store_get ser" "store_put ser" "same_key ser" for ser
  by unfold_locales (auto simp: store_get_def store_put_def same_key_def split: option.splits)

text \<open>An approval for the session is remembered key by key: once the user has given it for some
  keys, any request for some of these keys is approved without asking; an approval of any other
  kind changes nothing that is stored.\<close>

theorem session_approval_remembered:
  assumes "with_cached_approval ser store keys answer = (decision, store', asked)"
    and "\<forall>k \<in> set keys. ser k \<noteq> None"
  shows "(if decision = ApprovedForSession
      then \<forall>keys' answer'. keys' \<noteq> [] \<and> set keys' \<subseteq> set keys \<longrightarrow>
             with_cached_approval ser store' keys' answer' = (ApprovedForSession, store', False) \<or> keys = []
      else store' = store) \<and>
    (\<not> asked \<longrightarrow> (\<forall>k \<in> set keys. store_get ser store k = Some ApprovedForSession))"
proof -
  have put: "foldl (\<lambda>st key. store_put ser st key ApprovedForSession) store keys = store.put_all ser store keys ApprovedForSession"
    by (simp add: store.put_all_def)
  show ?thesis
  proof (cases "keys = [] \<or> list_all (\<lambda>key. approved_for_session (store_get ser store key)) keys")
    case True
    with assms(1) show ?thesis
      by (auto simp: with_cached_approval_def approved_for_session_iff list_all_iff split: if_splits)
  next
    case False
    then have res: "decision = answer" "asked"
      "store' = (if answer = ApprovedForSession then store.put_all ser store keys ApprovedForSession else store)"
      using assms(1) by (auto simp: with_cached_approval_def approved_for_session_iff put split: if_splits)
    have "list_all (\<lambda>key. approved_for_session (store_get ser (store.put_all ser store keys ApprovedForSession) key)) keys'"
      if "set keys' \<subseteq> set keys" for keys'
      using that assms(2) by (auto simp: list_all_iff approved_for_session_iff store.get_put_all same_key_def)
    with res show ?thesis
      by (auto simp: with_cached_approval_def)
  qed
qed

theorem session_approval_remembered_witness:
  "with_cached_approval (\<lambda>k. Some k) [lit ''a'' \<mapsto> (ApprovedForSession :: unit review_decision)] [lit ''a''] Denied =
     (ApprovedForSession, [lit ''a'' \<mapsto> ApprovedForSession], False)"
proof -
  have w: "with_cached_approval (\<lambda>k. Some k) Map.empty [lit ''a''] (ApprovedForSession :: unit review_decision) =
      (ApprovedForSession, [lit ''a'' \<mapsto> ApprovedForSession], True)"
    by (simp add: with_cached_approval_def approved_for_session_def store_get_def store_put_def)
  from session_approval_remembered [OF w] show ?thesis by simp
qed

section \<open>Approval methods of a tool\<close>

definition default_exec_approval_requirement :: "ask_for_approval \<Rightarrow> sandbox_policy \<Rightarrow> exec_approval_requirement" where
  "default_exec_approval_requirement policy sandbox =
     (let needs_approval =
            (case policy of
               Never \<Rightarrow> False
             | OnFailure \<Rightarrow> False
             | OnRequest \<Rightarrow> \<not> (case sandbox of DangerFullAccess \<Rightarrow> True | ExternalSandbox _ \<Rightarrow> True | _ \<Rightarrow> False)
             | UnlessTrusted \<Rightarrow> True)
      in if needs_approval then NeedsApproval None None else Skip False None)"

fun proposed_execpolicy_amendment :: "exec_approval_requirement \<Rightarrow> execpolicy_amendment option" where
  "proposed_execpolicy_amendment (NeedsApproval _ a) = a"
| "proposed_execpolicy_amendment (Skip _ a) = a"
| "proposed_execpolicy_amendment (ForbiddenReq _) = None"

datatype sandbox_override = NoOverride | BypassSandboxFirstAttempt

datatype sandboxable_preference = Auto | Require | Forbid

text \<open>The defaults of the trait.\<close>

definition default_should_bypass_approval :: "ask_for_approval \<Rightarrow> bool \<Rightarrow> bool" where
  "default_should_bypass_approval policy already_approved \<longleftrightarrow>
     (if already_approved then True else policy = Never)"

definition default_wants_no_sandbox_approval :: "ask_for_approval \<Rightarrow> bool" where
  "default_wants_no_sandbox_approval policy \<longleftrightarrow> \<not> (policy = Never \<or> policy = OnRequest)"

section \<open>Sandboxes\<close>

definition select_initial ::
  "target_os \<Rightarrow> sandbox_policy \<Rightarrow> sandboxable_preference \<Rightarrow> bool \<Rightarrow> bool \<Rightarrow> sandbox_type" where
  "select_initial target policy pref windows_sandbox_enabled has_managed_network_requirements =
     (let platform = (case get_platform_sandbox target windows_sandbox_enabled of Some s \<Rightarrow> s | None \<Rightarrow> NoSandbox)
      in case pref of
           Forbid \<Rightarrow> NoSandbox
         | Require \<Rightarrow> platform
         | Auto \<Rightarrow>
             (case policy of
                DangerFullAccess \<Rightarrow> if has_managed_network_requirements then platform else NoSandbox
              | ExternalSandbox _ \<Rightarrow> if has_managed_network_requirements then platform else NoSandbox
              | _ \<Rightarrow> platform))"

record command_spec =
  sp_program :: ustr
  sp_args :: "ustr list"
  sp_cwd :: ustr
  sp_env :: "ustr \<rightharpoonup> ustr"

record exec_request =
  er_command :: "ustr list"
  er_cwd :: ustr
  er_env :: "ustr \<rightharpoonup> ustr"
  er_sandbox :: sandbox_type
  er_arg0 :: "ustr option"

datatype transform_error = MissingLinuxSandboxExecutable | SeatbeltUnavailable

definition allow_network_for_proxy :: "bool \<Rightarrow> bool" where
  "allow_network_for_proxy enforce_managed_network = enforce_managed_network"

text \<open>\<open>policy_json\<close> is \<open>serde_json::to_string\<close> of the policy.\<close>

definition create_linux_sandbox_command_args ::
  "(sandbox_policy \<Rightarrow> ustr) \<Rightarrow> ustr list \<Rightarrow> sandbox_policy \<Rightarrow> ustr \<Rightarrow> bool \<Rightarrow> bool \<Rightarrow> ustr list" where
  "create_linux_sandbox_command_args policy_json command sandbox sandbox_policy_cwd use_bwrap allow_proxy =
     [lit ''--sandbox-policy-cwd'', sandbox_policy_cwd, lit ''--sandbox-policy'', policy_json sandbox] @
     (if use_bwrap then [lit ''--use-bwrap-sandbox''] else []) @
     (if allow_proxy then [lit ''--allow-network-for-proxy''] else []) @
     [lit ''--''] @ command"

text \<open>\<open>SandboxManager::transform\<close> of a build for a platform other than macOS.\<close>

definition transform ::
  "(sandbox_policy \<Rightarrow> ustr) \<Rightarrow> command_spec \<Rightarrow> sandbox_policy \<Rightarrow> sandbox_type \<Rightarrow> bool \<Rightarrow> ustr \<Rightarrow> ustr option
    \<Rightarrow> bool \<Rightarrow> transform_error + exec_request" where
  "transform policy_json spec policy sandbox enforce_managed_network sandbox_policy_cwd linux_sandbox_exe use_bwrap =
     (let env = (if \<not> has_full_network_access policy
                 then (sp_env spec)(lit ''CODEX_SANDBOX_NETWORK_DISABLED'' \<mapsto> lit ''1'') else sp_env spec);
          command = sp_program spec # sp_args spec
      in bindE (case sandbox of
                  NoSandbox \<Rightarrow> Inr (command, None)
                | MacosSeatbelt \<Rightarrow> Inl SeatbeltUnavailable
                | LinuxSeccomp \<Rightarrow>
                    bindE (ok_or MissingLinuxSandboxExecutable linux_sandbox_exe) (\<lambda>exe.
                      Inr (exe # create_linux_sandbox_command_args policy_json command policy sandbox_policy_cwd
                                   use_bwrap (allow_network_for_proxy enforce_managed_network),
                           Some (lit ''codex-linux-sandbox'')))
                | WindowsRestrictedToken \<Rightarrow> Inr (command, None))
           (\<lambda>(full_command, arg0).
              Inr \<lparr>er_command = full_command, er_cwd = sp_cwd spec, er_env = env, er_sandbox = sandbox, er_arg0 = arg0\<rparr>))"

text \<open>A command placed in the Linux sandbox keeps its words in order after a separator, so
  none of them is read as an option of the helper; it runs only if the helper is there, and the
  environment says when the network is off.\<close>

theorem transform_keeps_command:
  assumes "transform policy_json spec policy sandbox managed cwd exe bwrap = Inr request"
  shows "er_sandbox request = sandbox \<and> sandbox \<noteq> MacosSeatbelt \<and>
    (if sandbox = LinuxSeccomp
     then \<exists>helper opts. exe = Some helper \<and>
            er_command request = helper # opts @ lit ''--'' # sp_program spec # sp_args spec \<and>
            opts ! 2 = lit ''--sandbox-policy'' \<and> opts ! 3 = policy_json policy \<and>
            (lit ''--allow-network-for-proxy'' \<in> set (drop 4 opts) \<longleftrightarrow> managed)
     else er_command request = sp_program spec # sp_args spec) \<and>
    (\<not> has_full_network_access policy \<longrightarrow> er_env request (lit ''CODEX_SANDBOX_NETWORK_DISABLED'') = Some (lit ''1''))"
proof (cases "sandbox = LinuxSeccomp")
  case True
  let ?opts = "[lit ''--sandbox-policy-cwd'', cwd, lit ''--sandbox-policy'', policy_json policy] @
     (if bwrap then [lit ''--use-bwrap-sandbox''] else []) @ (if managed then [lit ''--allow-network-for-proxy''] else [])"
  from assms True obtain helper where h: "exe = Some helper"
    "er_command request = helper # ?opts @ lit ''--'' # sp_program spec # sp_args spec"
    by (auto simp: transform_def Let_def bindE_eq_Inr_iff create_linux_sandbox_command_args_def allow_network_for_proxy_def)
  have "lit ''--allow-network-for-proxy'' \<in> set (drop 4 ?opts) \<longleftrightarrow> managed"
    by simp
  moreover have "?opts ! 2 = lit ''--sandbox-policy'' \<and> ?opts ! 3 = policy_json policy"
    by simp
  ultimately have "\<exists>helper opts. exe = Some helper \<and>
      er_command request = helper # opts @ lit ''--'' # sp_program spec # sp_args spec \<and>
      opts ! 2 = lit ''--sandbox-policy'' \<and> opts ! 3 = policy_json policy \<and>
      (lit ''--allow-network-for-proxy'' \<in> set (drop 4 opts) \<longleftrightarrow> managed)"
    using h by (intro exI [of _ helper] exI [of _ ?opts]) blast
  moreover have "er_sandbox request = sandbox"
    "\<not> has_full_network_access policy \<longrightarrow> er_env request (lit ''CODEX_SANDBOX_NETWORK_DISABLED'') = Some (lit ''1'')"
    using assms by (auto simp: transform_def Let_def bindE_eq_Inr_iff)
  ultimately show ?thesis
    using True by simp
next
  case False
  with assms show ?thesis
    by (cases sandbox) (auto simp: transform_def Let_def)
qed

theorem transform_keeps_command_witness:
  "\<exists>request helper opts.
     transform (\<lambda>_. []) \<lparr>sp_program = lit ''ls'', sp_args = [], sp_cwd = [], sp_env = Map.empty\<rparr> new_read_only_policy
       LinuxSeccomp False [] (Some (lit ''h'')) False = Inr request \<and>
     er_command request = helper # opts @ [lit ''--'', lit ''ls'']"
proof -
  let ?spec = "\<lparr>sp_program = lit ''ls'', sp_args = [], sp_cwd = [], sp_env = Map.empty\<rparr>"
  obtain request where r: "transform (\<lambda>_. []) ?spec new_read_only_policy LinuxSeccomp False [] (Some (lit ''h'')) False = Inr request"
    by (simp add: transform_def Let_def)
  from transform_keeps_command [OF r] r show ?thesis by auto
qed

section \<open>Orchestration\<close>

text \<open>The errors of a run; only a sandbox denial is told apart from the others.\<close>

datatype ('o, 'e) tool_error =
    Rejected ustr
  | SandboxDenied 'o "decision_payload option"
  | OtherError 'e

record approval_ctx =
  retry_reason :: "ustr option"
  network_context :: "network_approval_context option"

record sandbox_attempt =
  attempt_sandbox :: sandbox_type
  attempt_policy :: sandbox_policy
  attempt_managed_network :: bool
  attempt_linux_exe :: "ustr option"

text \<open>What happened, in order; a ghost component the properties are stated on.\<close>

datatype event =
    Asked approval_ctx "execpolicy_amendment review_decision"
  | Attempted sandbox_attempt

record 'w orch_state =
  world :: 'w
  service :: approval_service
  events :: "event list"

record ('w, 'out, 'o, 'e) tool =
  t_requirement :: "exec_approval_requirement option"
  t_sandbox_mode :: sandbox_override
  t_preference :: sandboxable_preference
  t_escalate_on_failure :: bool
  t_should_bypass :: "ask_for_approval \<Rightarrow> bool \<Rightarrow> bool"
  t_wants_no_sandbox :: "ask_for_approval \<Rightarrow> bool"
  t_network_spec :: "network_approval_spec option"
  t_approve :: "approval_ctx \<Rightarrow> 'w \<times> approval_service \<Rightarrow> execpolicy_amendment review_decision \<times> 'w \<times> approval_service"
  t_run :: "sandbox_attempt \<Rightarrow> ustr option \<Rightarrow> 'w \<times> approval_service \<Rightarrow>
              (('o, 'e) tool_error + 'out) \<times> 'w \<times> approval_service"

record turn_ctx =
  turn_id :: ustr
  call_id :: ustr
  turn_os :: target_os
  turn_sandbox_policy :: sandbox_policy
  turn_windows_sandbox :: bool
  turn_managed_network :: bool
  turn_linux_exe :: "ustr option"

definition ask :: "('w, 'out, 'o, 'e) tool \<Rightarrow> approval_ctx \<Rightarrow> 'w orch_state \<Rightarrow>
    execpolicy_amendment review_decision \<times> 'w orch_state" where
  "ask tool ctx st =
     (case t_approve tool ctx (world st, service st) of (decision, w, s) \<Rightarrow>
        (decision, \<lparr>world = w, service = s, events = events st @ [Asked ctx decision]\<rparr>))"

definition is_err :: "'e + 'a \<Rightarrow> bool" where
  "is_err r \<longleftrightarrow> \<not> is_ok r"

definition run_attempt ::
  "('w, 'out, 'o, 'e) tool \<Rightarrow> turn_ctx \<Rightarrow> ustr \<Rightarrow> sandbox_attempt \<Rightarrow> 'w orch_state
    \<Rightarrow> ((('o, 'e) tool_error + 'out) \<times> ustr option) \<times> 'w orch_state" where
  "run_attempt tool turn fresh_id attempt st =
     (case begin_network_approval fresh_id (turn_id turn) (call_id turn) (turn_managed_network turn)
             (t_network_spec tool) (service st) of (network_approval, s1) \<Rightarrow>
      case t_run tool attempt (Option.bind network_approval active_attempt_id) (world st, s1) of (run_result, w, s2) \<Rightarrow>
        let st2 = \<lparr>world = w, service = s2, events = events st @ [Attempted attempt]\<rparr>
        in case network_approval of
             None \<Rightarrow> ((run_result, None), st2)
           | Some active \<Rightarrow>
               (case active_mode active of
                  Immediate \<Rightarrow>
                    (case finish_immediate_network_approval active s2 of (fin, s3) \<Rightarrow>
                       (case fin of
                          Inl message \<Rightarrow> ((Inl (Rejected message), None), st2\<lparr>service := s3\<rparr>)
                        | Inr _ \<Rightarrow> ((run_result, None), st2\<lparr>service := s3\<rparr>)))
                | Deferred \<Rightarrow>
                    let deferred = into_deferred active
                    in if is_err run_result
                       then ((run_result, None), st2\<lparr>service := finish_deferred_network_approval deferred s2\<rparr>)
                       else ((run_result, deferred), st2)))"

definition rejecting :: "'a review_decision \<Rightarrow> bool" where
  "rejecting d \<longleftrightarrow> (case d of Denied \<Rightarrow> True | Abort \<Rightarrow> True | _ \<Rightarrow> False)"

text \<open>First phase: the requirement, and the question when it is to ask. On success it yields
  whether the user approved already.\<close>

definition approval_phase ::
  "('w, 'out, 'o, 'e) tool \<Rightarrow> turn_ctx \<Rightarrow> ask_for_approval \<Rightarrow> 'w orch_state
    \<Rightarrow> (('o, 'e) tool_error + bool) \<times> 'w orch_state" where
  "approval_phase tool turn approval_policy st =
     (case (case t_requirement tool of
              Some r \<Rightarrow> r
            | None \<Rightarrow> default_exec_approval_requirement approval_policy (turn_sandbox_policy turn)) of
        Skip _ _ \<Rightarrow> (Inr False, st)
      | ForbiddenReq reason \<Rightarrow> (Inl (Rejected reason), st)
      | NeedsApproval reason _ \<Rightarrow>
          (case ask tool \<lparr>retry_reason = reason, network_context = None\<rparr> st of (decision, st1) \<Rightarrow>
             if rejecting decision then (Inl (Rejected (lit ''rejected by user'')), st1) else (Inr True, st1)))"

definition initial_attempt :: "('w, 'out, 'o, 'e) tool \<Rightarrow> turn_ctx \<Rightarrow> sandbox_attempt" where
  "initial_attempt tool turn =
     \<lparr>attempt_sandbox =
        (case t_sandbox_mode tool of
           BypassSandboxFirstAttempt \<Rightarrow> NoSandbox
         | NoOverride \<Rightarrow>
             select_initial (turn_os turn) (turn_sandbox_policy turn) (t_preference tool)
               (turn_windows_sandbox turn) (turn_managed_network turn)),
      attempt_policy = turn_sandbox_policy turn, attempt_managed_network = turn_managed_network turn,
      attempt_linux_exe = turn_linux_exe turn\<rparr>"

definition escalated_attempt :: "turn_ctx \<Rightarrow> sandbox_attempt" where
  "escalated_attempt turn =
     \<lparr>attempt_sandbox = NoSandbox, attempt_policy = turn_sandbox_policy turn,
      attempt_managed_network = turn_managed_network turn, attempt_linux_exe = None\<rparr>"

definition is_needs_approval :: "exec_approval_requirement \<Rightarrow> bool" where
  "is_needs_approval r \<longleftrightarrow> (case r of NeedsApproval _ _ \<Rightarrow> True | _ \<Rightarrow> False)"

text \<open>After a denial: \<open>None\<close> surfaces the denial, \<open>Some\<close> gives the context and the reason of
  the retry.\<close>

definition retry_plan ::
  "('w, 'out, 'o, 'e) tool \<Rightarrow> turn_ctx \<Rightarrow> ask_for_approval \<Rightarrow> decision_payload option
    \<Rightarrow> (network_approval_context option \<times> ustr) option" where
  "retry_plan tool turn approval_policy network_policy_decision =
     (let ctx = (if turn_managed_network turn
                 then Option.bind network_policy_decision network_approval_context_from_payload else None)
      in if network_policy_decision \<noteq> None \<and> ctx = None then None
         else if \<not> t_escalate_on_failure tool then None
         else if \<not> t_wants_no_sandbox tool approval_policy \<and>
              \<not> (approval_policy = OnRequest \<and> ctx \<noteq> None \<and>
                 is_needs_approval (default_exec_approval_requirement approval_policy (turn_sandbox_policy turn)))
         then None
         else Some (ctx,
           case ctx of
             Some c \<Rightarrow> lit ''Network access to '' @ quote @ ctx_host c @ quote @ lit '' is blocked by policy.''
           | None \<Rightarrow> lit ''command failed; retry without sandbox?''))"

definition retry_phase ::
  "('w, 'out, 'o, 'e) tool \<Rightarrow> turn_ctx \<Rightarrow> ustr \<Rightarrow> ask_for_approval \<Rightarrow> bool
    \<Rightarrow> network_approval_context option \<Rightarrow> ustr \<Rightarrow> 'w orch_state
    \<Rightarrow> (('o, 'e) tool_error + 'out \<times> ustr option) \<times> 'w orch_state" where
  "retry_phase tool turn fresh_id approval_policy already_approved ctx reason st =
     (let bypass_retry_approval = t_should_bypass tool approval_policy already_approved \<and> ctx = None;
          run_escalated = (\<lambda>st1.
            case run_attempt tool turn fresh_id (escalated_attempt turn) st1 of ((r, deferred), st2) \<Rightarrow>
              (bindE r (\<lambda>out. Inr (out, deferred)), st2))
      in if bypass_retry_approval then run_escalated st
         else (case ask tool \<lparr>retry_reason = Some reason, network_context = ctx\<rparr> st of (decision, st1) \<Rightarrow>
                 if rejecting decision then (Inl (Rejected (lit ''rejected by user'')), st1)
                 else run_escalated st1))"

text \<open>\<open>fresh_id\<close> gives the UUIDs of the first attempt and of the retry.\<close>

definition orchestrate ::
  "('w, 'out, 'o, 'e) tool \<Rightarrow> turn_ctx \<Rightarrow> (nat \<Rightarrow> ustr) \<Rightarrow> ask_for_approval \<Rightarrow> 'w orch_state
    \<Rightarrow> (('o, 'e) tool_error + 'out \<times> ustr option) \<times> 'w orch_state" where
  "orchestrate tool turn fresh_id approval_policy st =
     (case approval_phase tool turn approval_policy st of
        (Inl e, st1) \<Rightarrow> (Inl e, st1)
      | (Inr already_approved, st1) \<Rightarrow>
          (case run_attempt tool turn (fresh_id 0) (initial_attempt tool turn) st1 of ((first_result, deferred), st2) \<Rightarrow>
             (case first_result of
                Inr out \<Rightarrow> (Inr (out, deferred), st2)
              | Inl (SandboxDenied output decision) \<Rightarrow>
                  (case retry_plan tool turn approval_policy decision of
                     None \<Rightarrow> (Inl (SandboxDenied output decision), st2)
                   | Some (ctx, reason) \<Rightarrow>
                       retry_phase tool turn (fresh_id 1) approval_policy already_approved ctx reason st2)
              | Inl err \<Rightarrow> (Inl err, st2))))"

section \<open>What happens in a run\<close>

lemma ask_events: "ask tool ctx st = (d, st1) \<Longrightarrow> events st1 = events st @ [Asked ctx d]"
  by (auto simp: ask_def split: prod.splits)

lemma run_attempt_events: "run_attempt tool turn i attempt st = (r, st1) \<Longrightarrow> events st1 = events st @ [Attempted attempt]"
  by (auto simp: run_attempt_def Let_def split: prod.splits option.splits approval_mode.splits sum.splits if_splits)

text \<open>The questions of one phase that were not rejected: none or one.\<close>

definition consent :: "event list \<Rightarrow> bool" where
  "consent es \<longleftrightarrow> es = [] \<or> (\<exists>ctx d. es = [Asked ctx d] \<and> \<not> rejecting d)"

definition refusal :: "event list \<Rightarrow> bool" where
  "refusal es \<longleftrightarrow> (\<exists>ctx d. es = [Asked ctx d] \<and> rejecting d)"

definition tool_requirement :: "('w, 'out, 'o, 'e) tool \<Rightarrow> turn_ctx \<Rightarrow> ask_for_approval \<Rightarrow> exec_approval_requirement" where
  "tool_requirement tool turn approval_policy =
     (case t_requirement tool of
        Some r \<Rightarrow> r
      | None \<Rightarrow> default_exec_approval_requirement approval_policy (turn_sandbox_policy turn))"

lemma approval_phase_ok:
  "approval_phase tool turn policy st = (Inr approved, st1) \<Longrightarrow>
     \<exists>es. events st1 = events st @ es \<and> consent es \<and> (approved \<longleftrightarrow> es \<noteq> []) \<and>
       (is_needs_approval (tool_requirement tool turn policy) \<longleftrightarrow> approved) \<and>
       \<not> (\<exists>reason. tool_requirement tool turn policy = ForbiddenReq reason)"
  unfolding approval_phase_def tool_requirement_def [symmetric]
  by (auto simp: consent_def is_needs_approval_def dest: ask_events
      split: exec_approval_requirement.splits prod.splits if_splits)

lemma approval_phase_err:
  "approval_phase tool turn policy st = (Inl e, st1) \<Longrightarrow>
     (\<exists>m. e = Rejected m) \<and> (\<exists>es. events st1 = events st @ es \<and> (es = [] \<or> refusal es))"
  unfolding approval_phase_def tool_requirement_def [symmetric]
  by (auto simp: refusal_def dest: ask_events
      split: exec_approval_requirement.splits prod.splits if_splits)

lemma retry_phase_shape:
  "retry_phase tool turn i policy approved ctx reason st = (res, st') \<Longrightarrow>
     (\<exists>es. events st' = events st @ es \<and> refusal es \<and> (\<exists>m. res = Inl (Rejected m))) \<or>
     (\<exists>es. events st' = events st @ es @ [Attempted (escalated_attempt turn)] \<and> consent es \<and>
        (es = [] \<longrightarrow> t_should_bypass tool policy approved))"
  unfolding retry_phase_def Let_def
  by (auto simp: refusal_def consent_def dest!: ask_events run_attempt_events split: prod.splits if_splits)

lemma retry_plan_wants:
  "retry_plan tool turn policy decision = Some plan \<Longrightarrow> t_wants_no_sandbox tool policy \<or> policy = OnRequest"
  by (auto simp: retry_plan_def Let_def split: if_splits)

definition run_shape ::
  "('w, 'out, 'o, 'e) tool \<Rightarrow> turn_ctx \<Rightarrow> ask_for_approval \<Rightarrow> ('o, 'e) tool_error + 'r \<Rightarrow> event list \<Rightarrow> event list \<Rightarrow> bool" where
  "run_shape tool turn policy res ap es \<longleftrightarrow>
    ((ap = [] \<or> refusal ap) \<and> es = [] \<and> (\<exists>m. res = Inl (Rejected m)) \<or>
     consent ap \<and> (is_needs_approval (tool_requirement tool turn policy) \<longleftrightarrow> ap \<noteq> []) \<and>
     (es = [Attempted (initial_attempt tool turn)] \<or>
      (\<exists>q. refusal q \<and> es = Attempted (initial_attempt tool turn) # q \<and> (\<exists>m. res = Inl (Rejected m))) \<or>
      (\<exists>q. consent q \<and> es = Attempted (initial_attempt tool turn) # q @ [Attempted (escalated_attempt turn)] \<and>
          policy \<noteq> Never \<and> (ap \<noteq> [] \<or> q \<noteq> []))))"

lemma orchestrate_shape:
  assumes "orchestrate tool turn fresh policy st = (res, st')"
    and "t_should_bypass tool = default_should_bypass_approval"
    and "t_wants_no_sandbox tool = default_wants_no_sandbox_approval"
  shows "\<exists>ap es. events st' = events st @ ap @ es \<and> run_shape tool turn policy res ap es"
proof -
  obtain r1 st1 where a: "approval_phase tool turn policy st = (r1, st1)"
    by fastforce
  show ?thesis
  proof (cases r1)
    case (Inl e)
    with a assms(1) have "res = Inl e" "st' = st1"
      by (auto simp: orchestrate_def)
    with approval_phase_err [OF a [unfolded Inl]] obtain es where
      "events st' = events st @ es @ []" "es = [] \<or> refusal es" "\<exists>m. res = Inl (Rejected m)"
      by auto
    then show ?thesis unfolding run_shape_def by blast
  next
    case (Inr approved)
    from approval_phase_ok [OF a [unfolded Inr]] obtain ap where
      ap: "events st1 = events st @ ap" "consent ap" "approved \<longleftrightarrow> ap \<noteq> []"
        "is_needs_approval (tool_requirement tool turn policy) \<longleftrightarrow> approved"
      by blast
    obtain first deferred st2 where f: "run_attempt tool turn (fresh 0) (initial_attempt tool turn) st1 = ((first, deferred), st2)"
      by (metis prod.exhaust)
    have e2: "events st2 = events st @ ap @ [Attempted (initial_attempt tool turn)]"
      using run_attempt_events [OF f] ap(1) by simp
    show ?thesis
    proof (cases "st' = st2")
      case True
      with e2 ap show ?thesis unfolding run_shape_def by blast
    next
      case False
      then obtain denied decision ctx reason where plan: "retry_plan tool turn policy decision = Some (ctx, reason)"
        and retry: "retry_phase tool turn (fresh 1) policy approved ctx reason st2 = (res, st')"
        using assms(1) by (auto simp: orchestrate_def a Inr f split: sum.splits tool_error.splits option.splits)
      have notNever: "policy \<noteq> Never"
        using retry_plan_wants [OF plan] assms(3) by (auto simp: default_wants_no_sandbox_approval_def)
      from retry_phase_shape [OF retry] show ?thesis
      proof (elim disjE exE conjE)
        fix es m assume "events st' = events st2 @ es" "refusal es" "res = Inl (Rejected m)"
        with e2 ap show ?thesis
          by (intro exI [of _ ap] exI [of _ "Attempted (initial_attempt tool turn) # es"]) (auto simp: run_shape_def)
      next
        fix es assume es: "events st' = events st2 @ es @ [Attempted (escalated_attempt turn)]" "consent es"
          "es = [] \<longrightarrow> t_should_bypass tool policy approved"
        then have "ap \<noteq> [] \<or> es \<noteq> []"
          using ap(3) assms(2) notNever by (auto simp: default_should_bypass_approval_def)
        with es e2 ap notNever show ?thesis
          by (intro exI [of _ ap] exI [of _ "Attempted (initial_attempt tool turn) # es @ [Attempted (escalated_attempt turn)]"])
             (auto simp: run_shape_def)
      qed
    qed
  qed
qed

text \<open>Reading the events of a run from left to right, with what was seen so far: whether the user
  consented and whether an attempt was made. \<open>needs\<close> says that approval was required and
  \<open>rejected\<close> that the run ends as rejected.\<close>

fun events_ok ::
  "('w, 'out, 'o, 'e) tool \<Rightarrow> turn_ctx \<Rightarrow> ask_for_approval \<Rightarrow> bool \<Rightarrow> bool \<Rightarrow> bool \<Rightarrow> bool \<Rightarrow> event list \<Rightarrow> bool" where
  "events_ok tool turn policy needs rejected consented attempted [] = True"
| "events_ok tool turn policy needs rejected consented attempted (Asked ctx d # es) =
     (if rejecting d then es = [] \<and> rejected
      else events_ok tool turn policy needs rejected True attempted es)"
| "events_ok tool turn policy needs rejected consented attempted (Attempted a # es) =
     (if attempted then a = escalated_attempt turn \<and> policy \<noteq> Never \<and> consented \<and> es = []
      else a = initial_attempt tool turn \<and> (needs \<longrightarrow> consented) \<and>
           events_ok tool turn policy needs rejected consented True es)"

text \<open>C1: With the default approval methods, a run makes at most two attempts. The first is in
  the selected sandbox, and when approval is required it comes after the user's consent. The
  second, outside the sandbox, ends the run: it never happens under a never-ask policy, and the
  user consented before it. After a refusal nothing more happens and the run is rejected.\<close>

theorem escalation_needs_consent:
  assumes "orchestrate tool turn fresh policy st = (res, st')" and "events st = []"
    and "t_should_bypass tool = default_should_bypass_approval"
    and "t_wants_no_sandbox tool = default_wants_no_sandbox_approval"
  shows "events_ok tool turn policy (is_needs_approval (tool_requirement tool turn policy))
    (\<exists>m. res = Inl (Rejected m)) False False (events st')"
proof -
  from orchestrate_shape [OF assms(1,3,4)] obtain ap es where
    "events st' = events st @ ap @ es" and shape: "run_shape tool turn policy res ap es"
    by blast
  with assms(2) have ev: "events st' = ap @ es" by simp
  from shape show ?thesis
    unfolding ev run_shape_def consent_def refusal_def
    by (elim disjE exE conjE) auto
qed

definition sample_tool :: "(unit, unit, unit, unit) tool" where
  "sample_tool =
     \<lparr>t_requirement = None, t_sandbox_mode = NoOverride, t_preference = Auto, t_escalate_on_failure = True,
      t_should_bypass = default_should_bypass_approval, t_wants_no_sandbox = default_wants_no_sandbox_approval,
      t_network_spec = None, t_approve = (\<lambda>_ ws. (Approved, ws)),
      t_run = (\<lambda>a _ ws. (if attempt_sandbox a = NoSandbox then Inr () else Inl (SandboxDenied () None), ws))\<rparr>"

definition sample_turn :: turn_ctx where
  "sample_turn = \<lparr>turn_id = [], call_id = [], turn_os = Linux, turn_sandbox_policy = new_read_only_policy,
     turn_windows_sandbox = False, turn_managed_network = False, turn_linux_exe = None\<rparr>"

theorem escalation_needs_consent_witness:
  "\<exists>st'. orchestrate sample_tool sample_turn (\<lambda>_. []) OnFailure \<lparr>world = (), service = idle_service, events = []\<rparr> =
       (Inr ((), None), st') \<and> length (events st') = 3 \<and>
     events_ok sample_tool sample_turn OnFailure False (\<exists>m. (Inr ((), None) :: (unit, unit) tool_error + _) = Inl (Rejected m))
       False False (events st')"
proof -
  obtain st' where o: "orchestrate sample_tool sample_turn (\<lambda>_. []) OnFailure \<lparr>world = (), service = idle_service, events = []\<rparr> =
       (Inr ((), None), st')" and l: "length (events st') = 3"
    by (simp add: orchestrate_def approval_phase_def run_attempt_def begin_network_approval_def retry_plan_def
        retry_phase_def ask_def initial_attempt_def escalated_attempt_def select_initial_def sample_tool_def sample_turn_def
        new_read_only_policy_def default_exec_approval_requirement_def default_wants_no_sandbox_approval_def
        default_should_bypass_approval_def rejecting_def)
  have d: "t_should_bypass sample_tool = default_should_bypass_approval"
    "t_wants_no_sandbox sample_tool = default_wants_no_sandbox_approval" "t_requirement sample_tool = None"
    by (simp_all add: sample_tool_def)
  have n: "\<not> is_needs_approval (tool_requirement sample_tool sample_turn OnFailure)"
    by (simp add: tool_requirement_def d(3) default_exec_approval_requirement_def is_needs_approval_def)
  from escalation_needs_consent [OF o _ d(1,2)] n o l show ?thesis by simp
qed

end
