(* ===== verification/PatchParser.thy ===== *)
theory PatchParser
  imports Prelude
begin

text \<open>
  The patch language of \<open>apply_patch\<close> (\<open>apply-patch/src/parser.rs\<close>): the markers, the
  hunks and chunks, and the parser, with its strict and lenient handling of the first and
  last line. A slice of the remaining lines is \<open>drop\<close>; that every slice is in range and every
  loop advances is proved below (\<open>parse_one_hunk_progress\<close>), as is the round trip with the
  rendering of a patch.
\<close>

definition begin_patch_marker :: ustr where
  "begin_patch_marker = lit ''*** Begin Patch''"

definition end_patch_marker :: ustr where
  "end_patch_marker = lit ''*** End Patch''"

definition add_file_marker :: ustr where
  "add_file_marker = lit ''*** Add File: ''"

definition delete_file_marker :: ustr where
  "delete_file_marker = lit ''*** Delete File: ''"

definition update_file_marker :: ustr where
  "update_file_marker = lit ''*** Update File: ''"

definition move_to_marker :: ustr where
  "move_to_marker = lit ''*** Move to: ''"

definition eof_marker :: ustr where
  "eof_marker = lit ''*** End of File''"

definition change_context_marker :: ustr where
  "change_context_marker = lit ''@@ ''"

definition empty_change_context_marker :: ustr where
  "empty_change_context_marker = lit ''@@''"

lemmas marker_defs = begin_patch_marker_def end_patch_marker_def add_file_marker_def
  delete_file_marker_def update_file_marker_def move_to_marker_def eof_marker_def
  change_context_marker_def empty_change_context_marker_def

datatype parse_error =
    InvalidPatchError ustr
  | InvalidHunkError ustr nat

record update_file_chunk =
  change_context :: "ustr option"
  old_lines :: "ustr list"
  new_lines :: "ustr list"
  is_end_of_file :: bool

datatype hunk =
    AddFile ustr ustr
  | DeleteFile ustr
  | UpdateFile ustr "ustr option" "update_file_chunk list"

record apply_patch_args =
  args_patch :: ustr
  args_hunks :: "hunk list"
  args_workdir :: "ustr option"

datatype parse_mode = Strict | Lenient

section \<open>Patch boundaries\<close>

definition check_start_and_end_lines_strict ::
  "ustr option \<Rightarrow> ustr option \<Rightarrow> parse_error + unit" where
  "check_start_and_end_lines_strict first_line last_line =
     (let first_line = map_option trim first_line;
          last_line = map_option trim last_line
      in if first_line = Some begin_patch_marker \<and> last_line = Some end_patch_marker
         then Inr ()
         else if first_line \<noteq> None \<and> first_line \<noteq> Some begin_patch_marker
         then Inl (InvalidPatchError
                (lit ''The first line of the patch must be '' @ [39] @ begin_patch_marker @ [39]))
         else Inl (InvalidPatchError
                (lit ''The last line of the patch must be '' @ [39] @ end_patch_marker @ [39])))"

definition check_patch_boundaries_strict :: "ustr list \<Rightarrow> parse_error + unit" where
  "check_patch_boundaries_strict ls =
     (case ls of
        [] \<Rightarrow> check_start_and_end_lines_strict None None
      | first # _ \<Rightarrow> check_start_and_end_lines_strict (Some first) (Some (last ls)))"

definition check_patch_boundaries_lenient ::
  "ustr list \<Rightarrow> parse_error \<Rightarrow> parse_error + ustr list" where
  "check_patch_boundaries_lenient original_lines original_parse_error =
     (case original_lines of
        first # _ # _ \<Rightarrow>
          if (first = lit ''<<EOF'' \<or> first = lit ''<<'' @ [39] @ lit ''EOF'' @ [39] \<or>
              first = lit ''<<'' @ [34] @ lit ''EOF'' @ [34]) \<and>
             ends_with (last original_lines) (lit ''EOF'') \<and> 4 \<le> length original_lines
          then (let inner_lines = butlast (tl original_lines)
                in case check_patch_boundaries_strict inner_lines of
                     Inr _ \<Rightarrow> Inr inner_lines
                   | Inl e \<Rightarrow> Inl e)
          else Inl original_parse_error
      | _ \<Rightarrow> Inl original_parse_error)"

section \<open>Chunks and hunks\<close>

definition no_lines_error :: "nat \<Rightarrow> parse_error" where
  "no_lines_error = InvalidHunkError (lit ''Update hunk does not contain any lines'')"

definition unexpected_line_message :: "ustr \<Rightarrow> ustr" where
  "unexpected_line_message l =
     lit ''Unexpected line found in update hunk: '' @ [39] @ l @ [39] @
     lit ''. Every line should start with '' @ lit '' '' @
     [39, 32, 39] @ lit '' (context line), '' @ [39, 43, 39] @ lit '' (added line), or '' @
     [39, 45, 39] @ lit '' (removed line)''"

text \<open>The lines of a chunk, from its first line on, with the number already consumed.\<close>

fun chunk_body ::
  "nat \<Rightarrow> ustr list \<Rightarrow> update_file_chunk \<Rightarrow> nat \<Rightarrow> parse_error + (update_file_chunk \<times> nat)" where
  "chunk_body line_number [] chunk parsed = Inr (chunk, parsed)"
| "chunk_body line_number (l # ls) chunk parsed =
     (if l = eof_marker then
        (if parsed = 0 then Inl (no_lines_error (line_number + 1))
         else Inr (chunk\<lparr>is_end_of_file := True\<rparr>, parsed + 1))
      else case l of
        [] \<Rightarrow> chunk_body line_number ls
                (chunk\<lparr>old_lines := old_lines chunk @ [[]], new_lines := new_lines chunk @ [[]]\<rparr>)
                (parsed + 1)
      | c # t \<Rightarrow>
          if c = 32 then chunk_body line_number ls
                (chunk\<lparr>old_lines := old_lines chunk @ [t], new_lines := new_lines chunk @ [t]\<rparr>)
                (parsed + 1)
          else if c = 43 then chunk_body line_number ls
                (chunk\<lparr>new_lines := new_lines chunk @ [t]\<rparr>) (parsed + 1)
          else if c = 45 then chunk_body line_number ls
                (chunk\<lparr>old_lines := old_lines chunk @ [t]\<rparr>) (parsed + 1)
          else if parsed = 0 then
            Inl (InvalidHunkError (unexpected_line_message l) (line_number + 1))
          else Inr (chunk, parsed))"

definition missing_context_message :: "ustr \<Rightarrow> ustr" where
  "missing_context_message l =
     lit ''Expected update hunk to start with a @@ context marker, got: '' @ [39] @ l @ [39]"

definition parse_update_file_chunk ::
  "ustr list \<Rightarrow> nat \<Rightarrow> bool \<Rightarrow> parse_error + (update_file_chunk \<times> nat)" where
  "parse_update_file_chunk ls line_number allow_missing_context =
     (if ls = [] then Inl (no_lines_error line_number)
      else bindE
        (if hd ls = empty_change_context_marker then Inr (None, 1)
         else case strip_prefix (hd ls) change_context_marker of
             Some context \<Rightarrow> Inr (Some context, 1)
           | None \<Rightarrow>
               if \<not> allow_missing_context
               then Inl (InvalidHunkError (missing_context_message (hd ls)) line_number)
               else Inr (None, 0))
        (\<lambda>(context, start_index :: nat).
           if length ls \<le> start_index then Inl (no_lines_error (line_number + 1))
           else bindE
             (chunk_body line_number (drop start_index ls)
                \<lparr>change_context = context, old_lines = [], new_lines = [], is_end_of_file = False\<rparr> 0)
             (\<lambda>(chunk, parsed). Inr (chunk, parsed + start_index))))"

lemma chunk_body_progress:
  "chunk_body n ls c k = Inr (c', k') \<Longrightarrow> k \<le> k' \<and> k' \<le> k + length ls \<and> (k = 0 \<longrightarrow> ls \<noteq> [] \<longrightarrow> 0 < k')"
proof (induction ls arbitrary: c k)
  case (Cons l ls)
  from Cons.prems show ?case
    by (auto split: if_splits list.splits dest!: Cons.IH)
qed simp

lemma parse_update_file_chunk_progress:
  assumes "parse_update_file_chunk ls n allow = Inr (c, k)"
  shows "0 < k \<and> k \<le> length ls"
proof -
  from assms obtain ctx s k' where s: "s < length ls"
    "chunk_body n (drop s ls)
       \<lparr>change_context = ctx, old_lines = [], new_lines = [], is_end_of_file = False\<rparr> 0 = Inr (c, k')"
    "k = k' + s"
    by (auto simp: parse_update_file_chunk_def bindE_eq_Inr_iff not_le split: if_splits)
  with chunk_body_progress [OF s(2)] show ?thesis by auto
qed

lemma bindE_cong [fundef_cong]:
  "m = n \<Longrightarrow> (\<And>x. n = Inr x \<Longrightarrow> f x = g x) \<Longrightarrow> bindE m f = bindE n g"
  by (cases n) auto

text \<open>The chunks of an update hunk, up to the next line that starts with \<open>***\<close>.\<close>

function update_chunks ::
  "nat \<Rightarrow> ustr list \<Rightarrow> nat \<Rightarrow> update_file_chunk list \<Rightarrow>
   parse_error + (update_file_chunk list \<times> nat)" where
  "update_chunks line_number remaining parsed chunks =
     (if remaining = [] then Inr (chunks, parsed)
      else if trim (hd remaining) = [] then
        update_chunks line_number (drop 1 remaining) (parsed + 1) chunks
      else if starts_with (hd remaining) (lit ''***'') then Inr (chunks, parsed)
      else bindE (parse_update_file_chunk remaining (line_number + parsed) (chunks = []))
        (\<lambda>x. update_chunks line_number (drop (snd x) remaining) (parsed + snd x)
               (chunks @ [fst x])))"
  by pat_completeness auto
termination
proof (relation "measure (\<lambda>(n, remaining, parsed, chunks). length remaining)", goal_cases)
  case (3 n remaining parsed chunks x)
  then have "0 < snd x"
    using parse_update_file_chunk_progress [of remaining "n + parsed" "chunks = []" "fst x" "snd x"]
    by simp
  with 3 show ?case by simp
qed auto

declare update_chunks.simps [simp del]

fun add_file_lines :: "ustr list \<Rightarrow> ustr \<Rightarrow> nat \<Rightarrow> ustr \<times> nat" where
  "add_file_lines [] contents parsed = (contents, parsed)"
| "add_file_lines (l # ls) contents parsed =
     (case strip_prefix l [43] of
        Some line_to_add \<Rightarrow> add_file_lines ls (contents @ line_to_add @ newline) (parsed + 1)
      | None \<Rightarrow> (contents, parsed))"

definition empty_update_message :: "ustr \<Rightarrow> ustr" where
  "empty_update_message p =
     lit ''Update file hunk for path '' @ [39] @ p @ [39] @ lit '' is empty''"

definition invalid_header_message :: "ustr \<Rightarrow> ustr" where
  "invalid_header_message l =
     [39] @ l @ [39] @ lit '' is not a valid hunk header. Valid hunk headers: '' @
     [39] @ lit ''*** Add File: {path}'' @ [39] @ lit '', '' @
     [39] @ lit ''*** Delete File: {path}'' @ [39] @ lit '', '' @
     [39] @ lit ''*** Update File: {path}'' @ [39]"

definition move_line :: "ustr list \<Rightarrow> ustr option" where
  "move_line rest = (case rest of [] \<Rightarrow> None | x # _ \<Rightarrow> strip_prefix x move_to_marker)"

definition moved_by :: "ustr list \<Rightarrow> nat" where
  "moved_by rest = (if move_line rest \<noteq> None then 1 else 0)"

definition parse_update_hunk :: "ustr \<Rightarrow> ustr list \<Rightarrow> nat \<Rightarrow> parse_error + (hunk \<times> nat)" where
  "parse_update_hunk p rest line_number =
     bindE (update_chunks line_number (drop (moved_by rest) rest) (1 + moved_by rest) [])
       (\<lambda>(chunks, parsed).
          if chunks = [] then Inl (InvalidHunkError (empty_update_message p) line_number)
          else Inr (UpdateFile p (move_line rest) chunks, parsed))"

definition parse_one_hunk :: "ustr list \<Rightarrow> nat \<Rightarrow> parse_error + (hunk \<times> nat)" where
  "parse_one_hunk ls line_number =
     (let first_line = trim (hd ls)
      in case strip_prefix first_line add_file_marker of
           Some p \<Rightarrow> (let r = add_file_lines (tl ls) [] 1 in Inr (AddFile p (fst r), snd r))
         | None \<Rightarrow>
        (case strip_prefix first_line delete_file_marker of
           Some p \<Rightarrow> Inr (DeleteFile p, 1)
         | None \<Rightarrow>
        (case strip_prefix first_line update_file_marker of
           Some p \<Rightarrow> parse_update_hunk p (tl ls) line_number
         | None \<Rightarrow> Inl (InvalidHunkError (invalid_header_message first_line) line_number))))"

lemma update_chunks_progress:
  "update_chunks n ls k cs = Inr (cs', k') \<Longrightarrow> k \<le> k' \<and> k' \<le> k + length ls"
proof (induction n ls k cs arbitrary: k' rule: update_chunks.induct)
  case (1 n ls k cs)
  show ?case
  proof (cases "ls = [] \<or> starts_with (hd ls) (lit ''***'') \<and> trim (hd ls) \<noteq> []")
    case True
    with "1.prems" show ?thesis
      by (subst (asm) update_chunks.simps) (auto split: if_splits)
  next
    case False
    show ?thesis
    proof (cases "trim (hd ls) = []")
      case True
      with False "1.prems" have "update_chunks n (drop 1 ls) (k + 1) cs = Inr (cs', k')"
        by (subst (asm) update_chunks.simps) auto
      then have "k + 1 \<le> k' \<and> k' \<le> k + 1 + length (drop 1 ls)"
        using "1.IH"(1) False True by blast
      moreover have "0 < length ls" using False by simp
      ultimately show ?thesis by auto
    next
      case nonblank: False
      with False "1.prems" obtain x where
        x: "parse_update_file_chunk ls (n + k) (cs = []) = Inr x"
        and rest: "update_chunks n (drop (snd x) ls) (k + snd x) (cs @ [fst x]) = Inr (cs', k')"
        by (subst (asm) update_chunks.simps) (auto simp: bindE_eq_Inr_iff)
      from x have "snd x \<le> length ls"
        using parse_update_file_chunk_progress [of ls "n + k" "cs = []" "fst x" "snd x"] by simp
      then show ?thesis
        using "1.IH"(2) [of x k'] x rest False nonblank by auto
    qed
  qed
qed

lemma add_file_lines_progress:
  "add_file_lines ls c k = (c', k') \<Longrightarrow> k \<le> k' \<and> k' \<le> k + length ls"
  by (induction ls c k rule: add_file_lines.induct) (auto split: option.splits)

lemma parse_update_hunk_InrD:
  assumes "parse_update_hunk p rest n = Inr (h, k)"
  shows "\<exists>cs. update_chunks n (drop (moved_by rest) rest) (1 + moved_by rest) [] = Inr (cs, k) \<and>
    cs \<noteq> [] \<and> h = UpdateFile p (move_line rest) cs"
  using assms unfolding parse_update_hunk_def bindE_eq_Inr_iff by (auto split: if_splits)

text \<open>Every hunk consumes at least its header line and nothing beyond the lines there are.\<close>

lemma parse_one_hunk_progress:
  assumes "parse_one_hunk ls n = Inr (h, k)" and "ls \<noteq> []"
  shows "0 < k \<and> k \<le> length ls"
proof -
  from assms(2) have len: "0 < length ls" by simp
  from assms(1) consider
      (add) c where "add_file_lines (tl ls) [] 1 = (c, k)"
    | (delete) "k = 1"
    | (update) p where "parse_update_hunk p (tl ls) n = Inr (h, k)"
    unfolding parse_one_hunk_def Let_def by (auto split: option.splits) (metis prod.collapse)
  then show ?thesis
  proof cases
    case add
    with len show ?thesis by (auto dest: add_file_lines_progress)
  next
    case delete
    with assms(2) show ?thesis by (cases ls) auto
  next
    case update
    then obtain cs where
      "update_chunks n (drop (moved_by (tl ls)) (tl ls)) (1 + moved_by (tl ls)) [] = Inr (cs, k)"
      by (auto dest: parse_update_hunk_InrD)
    moreover have "moved_by (tl ls) \<le> length (tl ls)"
      by (cases "tl ls") (simp_all add: moved_by_def move_line_def)
    ultimately show ?thesis
      using len update_chunks_progress
        [of n "drop (moved_by (tl ls)) (tl ls)" "1 + moved_by (tl ls)" "[]" cs k]
      by (cases ls) auto
  qed
qed

section \<open>Patches\<close>

function parse_hunks :: "ustr list \<Rightarrow> nat \<Rightarrow> hunk list \<Rightarrow> parse_error + hunk list" where
  "parse_hunks remaining line_number hunks =
     (if remaining = [] then Inr hunks
      else bindE (parse_one_hunk remaining line_number)
        (\<lambda>x. parse_hunks (drop (snd x) remaining) (line_number + snd x) (hunks @ [fst x])))"
  by pat_completeness auto
termination
proof (relation "measure (\<lambda>(remaining, n, hs). length remaining)", goal_cases)
  case (2 remaining n hs x)
  then have "0 < snd x"
    using parse_one_hunk_progress [of remaining n "fst x" "snd x"] by simp
  with 2 show ?case by simp
qed auto

declare parse_hunks.simps [simp del]

definition parse_patch_text :: "ustr \<Rightarrow> parse_mode \<Rightarrow> parse_error + apply_patch_args" where
  "parse_patch_text patch mode =
     (let ls = str_lines (trim patch)
      in bindE
        (case check_patch_boundaries_strict ls of
           Inr _ \<Rightarrow> Inr ls
         | Inl e \<Rightarrow> (case mode of
               Strict \<Rightarrow> Inl e
             | Lenient \<Rightarrow> check_patch_boundaries_lenient ls e))
        (\<lambda>ls. bindE (parse_hunks (butlast (tl ls)) 2 [])
          (\<lambda>hunks. Inr \<lparr>args_patch = join_with newline ls, args_hunks = hunks, args_workdir = None\<rparr>)))"

definition parse_patch :: "ustr \<Rightarrow> parse_error + apply_patch_args" where
  "parse_patch patch = parse_patch_text patch Lenient"

section \<open>Rendering patches\<close>

text \<open>
  The documents of the patch language, as a writer of patches sees them: a chunk is an
  optional context and a list of diff lines. \<open>hunk_of\<close> is the hunk a document stands for
  and \<open>hunk_lines\<close> the lines it is written as.
\<close>

datatype diff_line = Keep ustr | Added ustr | Removed ustr

type_synonym chunk_doc = "ustr option \<times> diff_line list \<times> bool"

datatype hunk_doc =
    AddDoc ustr "ustr list"
  | DeleteDoc ustr
  | UpdateDoc ustr "ustr option" "chunk_doc list"

fun old_of :: "diff_line \<Rightarrow> ustr list" where
  "old_of (Keep t) = [t]"
| "old_of (Removed t) = [t]"
| "old_of (Added t) = []"

fun new_of :: "diff_line \<Rightarrow> ustr list" where
  "new_of (Keep t) = [t]"
| "new_of (Removed t) = []"
| "new_of (Added t) = [t]"

fun diff_text :: "diff_line \<Rightarrow> ustr" where
  "diff_text (Keep t) = 32 # t"
| "diff_text (Removed t) = 45 # t"
| "diff_text (Added t) = 43 # t"

fun chunk_of :: "chunk_doc \<Rightarrow> update_file_chunk" where
  "chunk_of (ctx, ds, eof) =
     \<lparr>change_context = ctx, old_lines = concat (map old_of ds),
      new_lines = concat (map new_of ds), is_end_of_file = eof\<rparr>"

fun chunk_text :: "chunk_doc \<Rightarrow> ustr list" where
  "chunk_text (ctx, ds, eof) =
     (case ctx of None \<Rightarrow> empty_change_context_marker | Some c \<Rightarrow> change_context_marker @ c) #
     map diff_text ds @ (if eof then [eof_marker] else [])"

fun hunk_of :: "hunk_doc \<Rightarrow> hunk" where
  "hunk_of (AddDoc p ls) = AddFile p (concat (map (\<lambda>l. l @ newline) ls))"
| "hunk_of (DeleteDoc p) = DeleteFile p"
| "hunk_of (UpdateDoc p mv cs) = UpdateFile p mv (map chunk_of cs)"

fun hunk_text :: "hunk_doc \<Rightarrow> ustr list" where
  "hunk_text (AddDoc p ls) = (add_file_marker @ p) # map (\<lambda>l. 43 # l) ls"
| "hunk_text (DeleteDoc p) = [delete_file_marker @ p]"
| "hunk_text (UpdateDoc p mv cs) =
     (update_file_marker @ p) # (case mv of None \<Rightarrow> [] | Some m \<Rightarrow> [move_to_marker @ m]) @
     concat (map chunk_text cs)"

definition patch_lines :: "hunk_doc list \<Rightarrow> ustr list" where
  "patch_lines ds = begin_patch_marker # concat (map hunk_text ds) @ [end_patch_marker]"

text \<open>What can be written: texts of one line each, file names that survive trimming, no empty
  chunk and no update without chunks.\<close>

definition one_line :: "ustr \<Rightarrow> bool" where
  "one_line t \<longleftrightarrow> 10 \<notin> set t \<and> \<not> ends_with t [13]"

definition path_ok :: "ustr \<Rightarrow> bool" where
  "path_ok p \<longleftrightarrow> 10 \<notin> set p \<and> p \<noteq> [] \<and> \<not> is_whitespace (last p)"

fun chunk_doc_ok :: "chunk_doc \<Rightarrow> bool" where
  "chunk_doc_ok (ctx, ds, eof) \<longleftrightarrow>
     (case ctx of None \<Rightarrow> True | Some c \<Rightarrow> one_line c) \<and> ds \<noteq> [] \<and>
     list_all (\<lambda>d. one_line (diff_text d)) ds"

fun hunk_doc_ok :: "hunk_doc \<Rightarrow> bool" where
  "hunk_doc_ok (AddDoc p ls) \<longleftrightarrow> path_ok p \<and> list_all one_line ls"
| "hunk_doc_ok (DeleteDoc p) \<longleftrightarrow> path_ok p"
| "hunk_doc_ok (UpdateDoc p mv cs) \<longleftrightarrow>
     path_ok p \<and> (case mv of None \<Rightarrow> True | Some m \<Rightarrow> one_line m) \<and>
     cs \<noteq> [] \<and> list_all chunk_doc_ok cs"

text \<open>A line at which a hunk ends: the header of the next one, or the end of the hunks.\<close>

fun stops_hunk :: "ustr list \<Rightarrow> bool" where
  "stops_hunk [] = True"
| "stops_hunk (l # ls) \<longleftrightarrow> starts_with l (lit ''***'') \<and> l \<noteq> eof_marker"

text \<open>A line at which a chunk ends: a further chunk, or the end of the hunk.\<close>

fun stops_chunk :: "ustr list \<Rightarrow> bool" where
  "stops_chunk [] = True"
| "stops_chunk (l # ls) \<longleftrightarrow> l \<noteq> [] \<and> hd l \<notin> {32, 43, 45} \<and> l \<noteq> eof_marker"

lemma chunk_body_stop:
  "stops_chunk rest \<Longrightarrow> 0 < k \<Longrightarrow> chunk_body n rest c k = Inr (c, k)"
  by (cases rest) (auto split: list.splits)

lemma chunk_body_diff:
  "chunk_body n (map diff_text ds @ rest) c k =
   chunk_body n rest (c\<lparr>old_lines := old_lines c @ concat (map old_of ds),
                       new_lines := new_lines c @ concat (map new_of ds)\<rparr>) (k + length ds)"
proof (induction ds arbitrary: c k)
  case (Cons d ds)
  have "diff_text d \<noteq> eof_marker"
    by (cases d) (simp_all add: eof_marker_def lit_def)
  with Cons show ?case by (cases d) simp_all
qed simp

lemma chunk_body_doc:
  assumes "ds \<noteq> []" and "eof \<or> stops_chunk rest"
    and "c = \<lparr>change_context = ctx, old_lines = [], new_lines = [], is_end_of_file = False\<rparr>"
  shows "chunk_body n (map diff_text ds @ (if eof then [eof_marker] else []) @ rest) c 0 =
    Inr (chunk_of (ctx, ds, eof), length ds + (if eof then 1 else 0))"
  using assms by (auto simp: chunk_body_diff chunk_body_stop)

lemma parse_update_file_chunk_doc:
  assumes "chunk_doc_ok d" and "(snd (snd d)) \<or> stops_chunk rest"
  shows "parse_update_file_chunk (chunk_text d @ rest) n allow = Inr (chunk_of d, length (chunk_text d))"
proof -
  obtain ctx ds eof where d: "d = (ctx, ds, eof)" by (cases d) auto
  have ne: "change_context_marker @ t \<noteq> empty_change_context_marker" for t
    by (simp add: marker_defs lit_def)
  have body: "chunk_body n (map diff_text ds @ (if eof then [eof_marker] else []) @ rest)
      \<lparr>change_context = ctx, old_lines = [], new_lines = [], is_end_of_file = False\<rparr> 0 =
      Inr (chunk_of (ctx, ds, eof), length ds + (if eof then 1 else 0))"
    using assms d by (intro chunk_body_doc) auto
  have len: "0 < length (map diff_text ds @ (if eof then [eof_marker] else []) @ rest)"
    using assms d by simp
  show ?thesis
    using body len unfolding d parse_update_file_chunk_def chunk_text.simps
    by (cases ctx) (simp_all add: ne)
qed

section \<open>Round trip\<close>

lemma marker_chars [simp]:
  "begin_patch_marker \<noteq> []" "end_patch_marker \<noteq> []" "eof_marker \<noteq> []"
  by (simp_all add: marker_defs)

lemma trim_eq_Nil_iff: "trim s = [] \<longleftrightarrow> (\<forall>c \<in> set s. is_whitespace c)"
proof -
  have "trim_end s = [] \<longleftrightarrow> (\<forall>c \<in> set s. is_whitespace c)"
    by (simp add: trim_end_def trim_end_by_def dropWhile_eq_Nil_conv)
  moreover have "trim s = [] \<longleftrightarrow> trim_end s = []"
  proof (cases "trim_end s" rule: rev_cases)
    case (snoc t c)
    then have "rev (dropWhile is_whitespace (rev s)) = t @ [c]"
      by (simp add: trim_end_def trim_end_by_def)
    then have "dropWhile is_whitespace (rev s) = c # rev t"
      by (metis rev.simps(2) rev_rev_ident rev_append append.simps(1,2) rev.simps(1))
    then have "\<not> is_whitespace c"
      using hd_dropWhile_not [of is_whitespace "rev s"] by simp
    with snoc show ?thesis
      by (simp add: trim_def trim_start_def trim_start_by_def dropWhile_eq_Nil_conv)
  qed (simp add: trim_def trim_start_def trim_start_by_def)
  ultimately show ?thesis by simp
qed

lemma not_blank: "l \<noteq> [] \<Longrightarrow> \<not> is_whitespace (hd l) \<Longrightarrow> trim l \<noteq> []"
  by (auto simp: trim_eq_Nil_iff)

lemma starts_with_stars: "starts_with l (lit ''***'') \<Longrightarrow> l \<noteq> [] \<and> hd l = 42"
  by (cases l) (auto simp: starts_with_def lit_def)

lemma stops_hunk_chunk: "stops_hunk rest \<Longrightarrow> stops_chunk rest"
  by (cases rest) (auto dest!: starts_with_stars)

lemma chunk_text_head: "\<exists>l r. chunk_text d = l # r \<and> l \<noteq> [] \<and> hd l = 64 \<and> strip_prefix l move_to_marker = None"
  by (cases d rule: chunk_text.cases)
    (auto simp: marker_defs lit_def strip_prefix_def starts_with_def split: option.split)

lemma stops_chunk_text: "stops_chunk (chunk_text d @ r)"
proof -
  obtain l t where "chunk_text d = l # t" "l \<noteq> []" "hd l = 64"
    using chunk_text_head by blast
  then show ?thesis by (auto simp: eof_marker_def lit_def)
qed

lemma update_chunks_docs:
  "list_all chunk_doc_ok cs \<Longrightarrow> stops_hunk rest \<Longrightarrow>
   update_chunks n (concat (map chunk_text cs) @ rest) k acc =
     Inr (acc @ map chunk_of cs, k + length (concat (map chunk_text cs)))"
proof (induction cs arbitrary: k acc)
  case Nil
  show ?case
  proof (cases rest)
    case (Cons l ls)
    with Nil have "starts_with l (lit ''***'')" by simp
    moreover from this have "trim l \<noteq> []"
      using starts_with_stars [of l] not_blank [of l] by (simp add: is_whitespace_def)
    ultimately show ?thesis
      using Cons by (simp add: update_chunks.simps)
  qed (simp add: update_chunks.simps)
next
  case (Cons d cs)
  let ?more = "concat (map chunk_text cs) @ rest"
  obtain l t where l: "chunk_text d = l # t" "l \<noteq> []" "hd l = 64"
    using chunk_text_head by blast
  have nb: "trim l \<noteq> []" using l not_blank [of l] by (simp add: is_whitespace_def)
  have ns: "\<not> starts_with l (lit ''***'')" using l starts_with_stars [of l] by auto
  have "stops_chunk ?more"
    using Cons.prems stops_hunk_chunk stops_chunk_text by (cases cs) auto
  then have step: "parse_update_file_chunk (chunk_text d @ ?more) (n + k) (acc = []) =
      Inr (chunk_of d, length (chunk_text d))"
    using Cons.prems by (intro parse_update_file_chunk_doc) auto
  have "update_chunks n (chunk_text d @ ?more) k acc =
      update_chunks n (drop (length (chunk_text d)) (chunk_text d @ ?more)) (k + length (chunk_text d))
        (acc @ [chunk_of d])"
    using nb ns step l by (subst update_chunks.simps) simp
  also have "\<dots> = Inr (acc @ map chunk_of (d # cs), k + length (concat (map chunk_text (d # cs))))"
    using Cons by simp
  finally show ?case by simp
qed

lemma add_file_lines_doc:
  "stops_hunk rest \<Longrightarrow>
   add_file_lines (map (\<lambda>l. 43 # l) ls @ rest) c k = (c @ concat (map (\<lambda>l. l @ newline) ls), k + length ls)"
proof (induction ls arbitrary: c k)
  case Nil
  then show ?case
    by (cases rest)
      (auto simp: strip_prefix_eq_Some_iff split: option.split dest!: starts_with_stars)
next
  case (Cons l ls)
  have "strip_prefix (43 # l) [43] = Some l"
    by (simp add: strip_prefix_def starts_with_def)
  with Cons show ?case by simp
qed

lemma trim_header:
  assumes "path_ok p" and "m \<noteq> []" and "\<not> is_whitespace (hd m)"
  shows "trim (m @ p) = m @ p"
  using assms by (intro trim_eq_self) (auto simp: path_ok_def)

lemma parse_one_hunk_doc:
  assumes "hunk_doc_ok d" and "stops_hunk rest"
  shows "parse_one_hunk (hunk_text d @ rest) n = Inr (hunk_of d, length (hunk_text d))"
proof (cases d)
  case (AddDoc p ls)
  have "trim (add_file_marker @ p) = add_file_marker @ p"
    using assms AddDoc by (intro trim_header) (auto simp: marker_defs lit_def is_whitespace_def)
  with AddDoc assms(2) show ?thesis
    by (simp add: parse_one_hunk_def add_file_lines_doc)
next
  case (DeleteDoc p)
  have "trim (delete_file_marker @ p) = delete_file_marker @ p"
    using assms DeleteDoc by (intro trim_header) (auto simp: marker_defs lit_def is_whitespace_def)
  moreover have "strip_prefix (delete_file_marker @ p) add_file_marker = None"
    by (simp add: marker_defs lit_def strip_prefix_def starts_with_def)
  ultimately show ?thesis
    using DeleteDoc by (simp add: parse_one_hunk_def)
next
  case (UpdateDoc p mv cs)
  have "trim (update_file_marker @ p) = update_file_marker @ p"
    using assms UpdateDoc by (intro trim_header) (auto simp: marker_defs lit_def is_whitespace_def)
  moreover have "strip_prefix (update_file_marker @ p) add_file_marker = None"
    "strip_prefix (update_file_marker @ p) delete_file_marker = None"
    by (simp_all add: marker_defs lit_def strip_prefix_def starts_with_def)
  moreover
  let ?body = "(case mv of None \<Rightarrow> [] | Some m \<Rightarrow> [move_to_marker @ m]) @ concat (map chunk_text cs) @ rest"
  have mv: "move_line ?body = mv"
  proof (cases mv)
    case None
    obtain d' ds where "cs = d' # ds" using assms UpdateDoc by (cases cs) auto
    then show ?thesis
      using None chunk_text_head [of d'] by (auto simp: move_line_def)
  qed (simp add: move_line_def)
  have drop: "drop (moved_by ?body) ?body = concat (map chunk_text cs) @ rest"
    unfolding moved_by_def mv by (cases mv) simp_all
  have "parse_update_hunk p ?body n = Inr (hunk_of d, length (hunk_text d))"
    unfolding parse_update_hunk_def drop mv
    using assms UpdateDoc by (simp add: update_chunks_docs) (simp add: moved_by_def mv split: option.split)
  ultimately show ?thesis
    using UpdateDoc by (simp add: parse_one_hunk_def)
qed

lemma hunk_text_stops: "stops_hunk (hunk_text d @ r)"
  by (cases d) (auto simp: marker_defs lit_def starts_with_def)

lemma stops_hunk_docs: "stops_hunk (concat (map hunk_text ds))"
  by (cases ds) (simp_all only: list.map concat.simps hunk_text_stops stops_hunk.simps)

lemma hunk_text_ne [simp]: "hunk_text d \<noteq> []"
  by (cases d) simp_all

lemma parse_hunks_docs:
  "list_all hunk_doc_ok ds \<Longrightarrow>
   parse_hunks (concat (map hunk_text ds)) n acc = Inr (acc @ map hunk_of ds)"
proof (induction ds arbitrary: n acc)
  case (Cons d ds)
  then have "parse_one_hunk (hunk_text d @ concat (map hunk_text ds)) n =
      Inr (hunk_of d, length (hunk_text d))"
    by (intro parse_one_hunk_doc) (auto simp: stops_hunk_docs)
  with Cons show ?case
    by (subst parse_hunks.simps) simp
qed (simp add: parse_hunks.simps)

lemma one_line_header: "path_ok p \<Longrightarrow> 10 \<notin> set m \<Longrightarrow> one_line (m @ p)"
proof -
  assume p: "path_ok p" and m: "10 \<notin> set m"
  then have "last (m @ p) \<noteq> 13" by (auto simp: path_ok_def is_whitespace_def)
  then have "\<not> ends_with (m @ p) [13]" by (metis ends_with_iff last_snoc)
  with p m show ?thesis by (auto simp: one_line_def path_ok_def)
qed

lemma one_line_prefix: "one_line t \<Longrightarrow> 10 \<notin> set m \<Longrightarrow> \<not> ends_with m [13] \<Longrightarrow> one_line (m @ t)"
  by (cases t rule: rev_cases) (auto simp: one_line_def ends_with_iff)

lemma one_line_marker:
  "one_line begin_patch_marker" "one_line end_patch_marker" "one_line eof_marker"
  "one_line empty_change_context_marker"
  by (simp_all add: one_line_def marker_defs lit_def ends_with_def)

lemma one_line_chunk: "chunk_doc_ok d \<Longrightarrow> x \<in> set (chunk_text d) \<Longrightarrow> one_line x"
proof -
  assume ok: "chunk_doc_ok d" and x: "x \<in> set (chunk_text d)"
  obtain ctx ds eof where d: "d = (ctx, ds, eof)" by (cases d) auto
  have "one_line (change_context_marker @ c)" if "one_line c" for c
    using that by (intro one_line_prefix) (auto simp: marker_defs lit_def ends_with_def)
  with ok x d show ?thesis
    by (auto simp: one_line_marker list_all_iff split: option.splits if_splits)
qed

lemma one_line_hunk: "hunk_doc_ok d \<Longrightarrow> x \<in> set (hunk_text d) \<Longrightarrow> one_line x"
proof (cases d)
  case (AddDoc p ls)
  assume "hunk_doc_ok d" "x \<in> set (hunk_text d)"
  moreover have "one_line (43 # l)" if "one_line l" for l
    using one_line_prefix [OF that, of "[43]"] by (simp add: ends_with_def)
  moreover have "10 \<notin> set add_file_marker" by (simp add: marker_defs lit_def)
  ultimately show ?thesis
    using AddDoc by (auto simp: list_all_iff intro: one_line_header)
next
  case (DeleteDoc p)
  assume "hunk_doc_ok d" "x \<in> set (hunk_text d)"
  moreover have "10 \<notin> set delete_file_marker" by (simp add: marker_defs lit_def)
  ultimately show ?thesis
    using DeleteDoc by (auto intro: one_line_header)
next
  case (UpdateDoc p mv cs)
  assume ok: "hunk_doc_ok d" and x: "x \<in> set (hunk_text d)"
  have "10 \<notin> set update_file_marker" by (simp add: marker_defs lit_def)
  moreover have "one_line (move_to_marker @ m)" if "one_line m" for m
    using that by (intro one_line_prefix) (auto simp: marker_defs lit_def ends_with_def)
  ultimately show ?thesis
    using UpdateDoc ok x
    by (auto simp: list_all_iff intro: one_line_header one_line_chunk split: option.splits)
qed

lemma one_line_patch: "list_all hunk_doc_ok ds \<Longrightarrow> x \<in> set (patch_lines ds) \<Longrightarrow> one_line x"
  by (auto simp: patch_lines_def list_all_iff one_line_marker intro: one_line_hunk)

lemma str_lines_join:
  assumes "xs \<noteq> []" and "\<forall>x \<in> set xs. one_line x" and "last xs \<noteq> []"
  shows "str_lines (join_with newline xs) = xs"
proof -
  have "split_on 10 (join_with newline xs) = xs"
    using assms by (intro split_join) (auto simp: one_line_def)
  moreover have "map strip_cr (butlast xs) = butlast xs"
    using assms by (intro map_idI) (auto simp: one_line_def strip_cr_eq_self dest: in_set_butlastD)
  ultimately show ?thesis
    using assms by (simp add: str_lines_def Let_def)
qed

lemma hd_join: "x \<noteq> [] \<Longrightarrow> hd (join_with sep (x # xs)) = hd x \<and> join_with sep (x # xs) \<noteq> []"
  by (cases xs) auto

lemma last_join:
  "last xs \<noteq> [] \<Longrightarrow> xs \<noteq> [] \<Longrightarrow> last (join_with sep xs) = last (last xs) \<and> join_with sep xs \<noteq> []"
  by (induction sep xs rule: join_with.induct) auto

lemma lines_of_text:
  assumes "xs = x # ys" and "\<forall>l \<in> set xs. one_line l" and "x \<noteq> []" and "\<not> is_whitespace (hd x)"
    and "last xs \<noteq> []" and "\<not> is_whitespace (last (last xs))"
  shows "str_lines (trim (join_with newline xs)) = xs"
proof -
  have "trim (join_with newline xs) = join_with newline xs"
    using assms hd_join [of x newline ys] last_join [of xs newline] by (intro trim_eq_self) auto
  then show ?thesis
    using assms by (simp add: str_lines_join)
qed

lemma check_patch_lines: "check_patch_boundaries_strict (patch_lines ds) = Inr ()"
proof -
  have "trim begin_patch_marker = begin_patch_marker" "trim end_patch_marker = end_patch_marker"
    by (rule trim_eq_self; simp add: marker_defs lit_def is_whitespace_def)+
  then show ?thesis
    by (simp add: check_patch_boundaries_strict_def patch_lines_def check_start_and_end_lines_strict_def)
qed

text \<open>The heredoc a model may wrap around the patch instead of running a shell.\<close>

definition heredoc_lines :: "hunk_doc list \<Rightarrow> ustr list" where
  "heredoc_lines ds = (lit ''<<'' @ [39] @ lit ''EOF'' @ [39]) # patch_lines ds @ [lit ''EOF'']"

lemma check_heredoc_lines:
  "check_patch_boundaries_strict (heredoc_lines ds) =
     Inl (InvalidPatchError
       (lit ''The first line of the patch must be '' @ [39] @ begin_patch_marker @ [39]))"
proof -
  have "trim (lit ''<<'' @ [39] @ lit ''EOF'' @ [39]) = lit ''<<'' @ [39] @ lit ''EOF'' @ [39]"
    by (rule trim_eq_self) (simp_all add: lit_def is_whitespace_def)
  moreover have "lit ''<<'' @ [39] @ lit ''EOF'' @ [39] \<noteq> begin_patch_marker"
    by (simp add: begin_patch_marker_def lit_def)
  ultimately show ?thesis
    by (simp add: check_patch_boundaries_strict_def heredoc_lines_def
        check_start_and_end_lines_strict_def Let_def)
qed

lemma lenient_heredoc_lines:
  "check_patch_boundaries_lenient (heredoc_lines ds) e = Inr (patch_lines ds)"
proof -
  have "4 \<le> length (heredoc_lines ds)" "patch_lines ds \<noteq> []"
    by (simp_all add: heredoc_lines_def patch_lines_def)
  moreover have "ends_with (lit ''EOF'') (lit ''EOF'')"
    by (simp add: ends_with_def)
  ultimately show ?thesis
    by (simp add: check_patch_boundaries_lenient_def heredoc_lines_def check_patch_lines
        butlast_append split: list.split)
qed

lemma patch_lines_text:
  assumes "list_all hunk_doc_ok ds"
  shows "str_lines (trim (join_with newline (patch_lines ds))) = patch_lines ds"
  by (rule lines_of_text [of _ begin_patch_marker "concat (map hunk_text ds) @ [end_patch_marker]"])
    (use one_line_patch [OF assms] in
      \<open>auto simp: patch_lines_def, simp_all add: marker_defs lit_def is_whitespace_def\<close>)

lemma heredoc_lines_text:
  assumes "list_all hunk_doc_ok ds"
  shows "str_lines (trim (join_with newline (heredoc_lines ds))) = heredoc_lines ds"
proof (rule lines_of_text [of _ "lit ''<<'' @ [39] @ lit ''EOF'' @ [39]" "patch_lines ds @ [lit ''EOF'']"])
  have "one_line (lit ''<<'' @ [39] @ lit ''EOF'' @ [39])" "one_line (lit ''EOF'')"
    by (simp_all add: one_line_def lit_def ends_with_def)
  then show "\<forall>l \<in> set (heredoc_lines ds). one_line l"
    using one_line_patch [OF assms] unfolding heredoc_lines_def by auto
qed (simp_all add: heredoc_lines_def lit_def is_whitespace_def)

lemma parse_hunks_patch_lines:
  assumes "list_all hunk_doc_ok ds"
  shows "parse_hunks (butlast (tl (patch_lines ds))) 2 [] = Inr (map hunk_of ds)"
  using assms by (simp add: patch_lines_def parse_hunks_docs butlast_append)

lemma parse_patch_lines:
  assumes "list_all hunk_doc_ok ds"
  shows "parse_patch (join_with newline (patch_lines ds)) =
      Inr \<lparr>args_patch = join_with newline (patch_lines ds), args_hunks = map hunk_of ds,
           args_workdir = None\<rparr>"
  by (simp add: parse_patch_def parse_patch_text_def Let_def patch_lines_text [OF assms]
      check_patch_lines parse_hunks_patch_lines [OF assms])

text \<open>C18: parsing undoes rendering: a patch written out from its hunks, chunks and diff lines
  is parsed back into exactly those hunks, as it stands and inside the heredoc that the
  lenient mode accepts, and the text kept for re-execution is the patch without the heredoc.\<close>

theorem parse_patch_roundtrip:
  assumes "list_all hunk_doc_ok ds"
  shows "parse_patch (join_with newline (patch_lines ds)) =
      Inr \<lparr>args_patch = join_with newline (patch_lines ds), args_hunks = map hunk_of ds,
           args_workdir = None\<rparr> \<and>
    parse_patch (join_with newline (heredoc_lines ds)) =
      Inr \<lparr>args_patch = join_with newline (patch_lines ds), args_hunks = map hunk_of ds,
           args_workdir = None\<rparr>"
  using parse_patch_lines [OF assms]
  by (simp add: parse_patch_def parse_patch_text_def Let_def heredoc_lines_text [OF assms]
      check_heredoc_lines lenient_heredoc_lines parse_hunks_patch_lines [OF assms])

theorem parse_patch_roundtrip_witness:
  "parse_patch (join_with newline (heredoc_lines
      [AddDoc (lit ''a'') [lit ''x''],
       UpdateDoc (lit ''b'') None [(Some (lit ''f''), [Keep (lit ''k''), Removed (lit ''o''), Added (lit ''n'')], True)]])) =
    Inr \<lparr>args_patch = join_with newline (patch_lines
      [AddDoc (lit ''a'') [lit ''x''],
       UpdateDoc (lit ''b'') None [(Some (lit ''f''), [Keep (lit ''k''), Removed (lit ''o''), Added (lit ''n'')], True)]]),
      args_hunks =
       [AddFile (lit ''a'') (lit ''x'' @ newline),
        UpdateFile (lit ''b'') None
          [\<lparr>change_context = Some (lit ''f''), old_lines = [lit ''k'', lit ''o''],
            new_lines = [lit ''k'', lit ''n''], is_end_of_file = True\<rparr>]],
      args_workdir = None\<rparr>"
proof -
  have "list_all hunk_doc_ok
      [AddDoc (lit ''a'') [lit ''x''],
       UpdateDoc (lit ''b'') None [(Some (lit ''f''), [Keep (lit ''k''), Removed (lit ''o''), Added (lit ''n'')], True)]]"
    by (simp add: path_ok_def one_line_def lit_def is_whitespace_def ends_with_def)
  then show ?thesis
    by (subst parse_patch_roundtrip [THEN conjunct2]) simp_all
qed

end
