(* ===== verification/SeekSequence.thy ===== *)
theory SeekSequence
  imports Prelude
begin

text \<open>
  Locating the lines of a patch chunk in a file (\<open>apply-patch/src/seek_sequence.rs\<close>).
  The function scans the file four times, each time comparing lines more loosely: exactly,
  without trailing blanks, without surrounding blanks, and with typographic punctuation
  replaced. A comparison is given by the key it compares lines under; the locale
  \<open>looser_key\<close> states that one comparison accepts whatever another accepts, and
  is interpreted at each step of the sequence.
\<close>

definition normalise_char :: "nat \<Rightarrow> nat" where
  [str_ops]: "normalise_char c =
     (if c \<in> {0x2010, 0x2011, 0x2012, 0x2013, 0x2014, 0x2015, 0x2212} then 45
      else if c \<in> {0x2018, 0x2019, 0x201A, 0x201B} then 39
      else if c \<in> {0x201C, 0x201D, 0x201E, 0x201F} then 34
      else if c \<in> {0x00A0, 0x2002, 0x2003, 0x2004, 0x2005, 0x2006, 0x2007, 0x2008, 0x2009,
                   0x200A, 0x202F, 0x205F, 0x3000} then 32
      else c)"

definition normalise_line :: "ustr \<Rightarrow> ustr" where
  [str_ops]: "normalise_line s = map normalise_char (trim s)"

text \<open>The inner loop: every pattern line agrees with the file's line at the same offset.\<close>

fun lines_agree :: "(ustr \<Rightarrow> ustr) \<Rightarrow> ustr list \<Rightarrow> nat \<Rightarrow> ustr list \<Rightarrow> bool" where
  "lines_agree key ls i [] = True"
| "lines_agree key ls i (pat # pats) =
     (if key (ls ! i) \<noteq> key pat then False else lines_agree key ls (Suc i) pats)"

definition seek_pass ::
  "(ustr \<Rightarrow> ustr) \<Rightarrow> ustr list \<Rightarrow> ustr list \<Rightarrow> nat \<Rightarrow> nat option" where
  "seek_pass key ls pattern search_start =
     find (\<lambda>i. lines_agree key ls i pattern)
       [search_start ..< Suc (length ls - length pattern)]"

definition search_start_of :: "ustr list \<Rightarrow> ustr list \<Rightarrow> nat \<Rightarrow> bool \<Rightarrow> nat" where
  "search_start_of ls pattern start eof =
     (if eof \<and> length pattern \<le> length ls then length ls - length pattern else start)"

definition seek_sequence ::
  "ustr list \<Rightarrow> ustr list \<Rightarrow> nat \<Rightarrow> bool \<Rightarrow> nat option" where
  "seek_sequence ls pattern start eof =
     (if pattern = [] then Some start
      else if length ls < length pattern then None
      else let search_start = search_start_of ls pattern start eof in
        case seek_pass (\<lambda>s. s) ls pattern search_start of Some i \<Rightarrow> Some i | None \<Rightarrow>
        (case seek_pass trim_end ls pattern search_start of Some i \<Rightarrow> Some i | None \<Rightarrow>
        (case seek_pass trim ls pattern search_start of Some i \<Rightarrow> Some i | None \<Rightarrow>
         seek_pass normalise_line ls pattern search_start)))"

section \<open>One pass\<close>

lemma lines_agree_iff:
  "lines_agree key ls i pat \<longleftrightarrow> (\<forall>k < length pat. key (ls ! (i + k)) = key (pat ! k))"
proof (induction pat arbitrary: i)
  case (Cons p ps)
  then show ?case by (auto simp: nth_Cons' less_Suc_eq_0_disj)
qed simp

lemma find_upt_Some_iff:
  "find P [a ..< b] = Some i \<longleftrightarrow> a \<le> i \<and> i < b \<and> P i \<and> (\<forall>j. a \<le> j \<longrightarrow> j < i \<longrightarrow> \<not> P j)"
proof
  assume "find P [a ..< b] = Some i"
  then obtain k where k: "k < length [a ..< b]" "P ([a ..< b] ! k)" "i = [a ..< b] ! k"
    "\<forall>j < k. \<not> P ([a ..< b] ! j)"
    by (auto simp: find_Some_iff)
  have "\<not> P j" if "a \<le> j" "j < i" for j
    using k(4) [rule_format, of "j - a"] k(1,3) that by auto
  with k show "a \<le> i \<and> i < b \<and> P i \<and> (\<forall>j. a \<le> j \<longrightarrow> j < i \<longrightarrow> \<not> P j)" by auto
next
  assume "a \<le> i \<and> i < b \<and> P i \<and> (\<forall>j. a \<le> j \<longrightarrow> j < i \<longrightarrow> \<not> P j)"
  then show "find P [a ..< b] = Some i"
    unfolding find_Some_iff by (intro exI [of _ "i - a"]) auto
qed

lemma find_upt_None_iff: "find P [a ..< b] = None \<longleftrightarrow> (\<forall>i. a \<le> i \<longrightarrow> i < b \<longrightarrow> \<not> P i)"
  by (auto simp: find_None_iff)

lemma seek_pass_Some_iff:
  "length pat \<le> length ls \<Longrightarrow>
   seek_pass key ls pat s = Some i \<longleftrightarrow>
     s \<le> i \<and> i + length pat \<le> length ls \<and> lines_agree key ls i pat \<and>
     (\<forall>j. s \<le> j \<longrightarrow> j < i \<longrightarrow> \<not> lines_agree key ls j pat)"
  unfolding seek_pass_def find_upt_Some_iff by auto

lemma seek_pass_None_iff:
  "length pat \<le> length ls \<Longrightarrow>
   seek_pass key ls pat s = None \<longleftrightarrow>
     (\<forall>i. s \<le> i \<longrightarrow> i + length pat \<le> length ls \<longrightarrow> \<not> lines_agree key ls i pat)"
  unfolding seek_pass_def find_upt_None_iff by auto

section \<open>Looser comparisons\<close>

locale looser_key =
  fixes strict loose :: "ustr \<Rightarrow> ustr"
  assumes coarser: "strict a = strict b \<Longrightarrow> loose a = loose b"
begin

lemma lines_agree_mono: "lines_agree strict ls i pat \<Longrightarrow> lines_agree loose ls i pat"
  by (auto simp: lines_agree_iff intro: coarser)

lemma pass_None_mono:
  "length pat \<le> length ls \<Longrightarrow> seek_pass loose ls pat s = None \<Longrightarrow> seek_pass strict ls pat s = None"
  by (auto simp: seek_pass_None_iff dest: lines_agree_mono)

text \<open>A stricter pass never finds an earlier place than a looser one.\<close>

lemma pass_Some_le:
  assumes "length pat \<le> length ls" and "seek_pass strict ls pat s = Some i"
  shows "\<exists>j \<le> i. seek_pass loose ls pat s = Some j"
proof -
  from assms have i: "s \<le> i" "i + length pat \<le> length ls" "lines_agree loose ls i pat"
    by (auto simp: seek_pass_Some_iff dest: lines_agree_mono)
  then obtain j where j: "seek_pass loose ls pat s = Some j"
    using assms(1) by (cases "seek_pass loose ls pat s") (auto simp: seek_pass_None_iff)
  then have "j \<le> i"
    using i assms(1) by (metis linorder_le_less_linear seek_pass_Some_iff)
  with j show ?thesis by blast
qed

end

interpretation exact_trim_end: looser_key "\<lambda>s. s" trim_end
  by unfold_locales simp

interpretation trim_end_trim: looser_key trim_end trim
  by unfold_locales (simp add: trim_def)

interpretation trim_normalise: looser_key trim normalise_line
  by unfold_locales (simp add: normalise_line_def)

lemmas agree_mono = exact_trim_end.lines_agree_mono trim_end_trim.lines_agree_mono
  trim_normalise.lines_agree_mono

section \<open>The whole search\<close>

lemma search_start_bound:
  "length pat \<le> length ls \<Longrightarrow> eof \<Longrightarrow> search_start_of ls pat start eof = length ls - length pat"
  by (simp add: search_start_of_def)

lemma seek_sequence_SomeD:
  assumes "seek_sequence ls pat start eof = Some i" and "pat \<noteq> []"
  shows "search_start_of ls pat start eof \<le> i" "i + length pat \<le> length ls"
    "lines_agree normalise_line ls i pat"
proof -
  let ?s = "search_start_of ls pat start eof"
  from assms have len: "length pat \<le> length ls"
    by (auto simp: seek_sequence_def split: if_splits)
  with assms obtain key where
    "seek_pass key ls pat ?s = Some i" "key \<in> {\<lambda>s. s, trim_end, trim, normalise_line}"
    by (auto simp: seek_sequence_def Let_def split: option.splits)
  then show "?s \<le> i" "i + length pat \<le> length ls" "lines_agree normalise_line ls i pat"
    using len by (auto simp: seek_pass_Some_iff dest: agree_mono)
qed

lemma seek_sequence_NoneD:
  assumes "seek_sequence ls pat start eof = None"
    and "search_start_of ls pat start eof \<le> i" and "i + length pat \<le> length ls"
  shows "\<not> lines_agree normalise_line ls i pat"
  using assms by (auto simp: seek_sequence_def Let_def seek_pass_None_iff split: if_splits option.splits)

lemma seek_sequence_Nil: "seek_sequence ls [] start eof = Some start"
  by (simp add: seek_sequence_def)

lemma seek_sequence_bound:
  "seek_sequence ls pat start eof = Some i \<Longrightarrow> start \<le> length ls \<Longrightarrow> i + length pat \<le> length ls"
  by (cases "pat = []") (simp_all add: seek_sequence_Nil seek_sequence_SomeD)

lemma seek_sequence_ge_start:
  "seek_sequence ls pat start False = Some i \<Longrightarrow> start \<le> i"
  using seek_sequence_SomeD(1) [of ls pat start False i]
  by (cases "pat = []") (simp_all add: seek_sequence_Nil search_start_of_def)

lemma seek_sequence_first:
  assumes "length pat \<le> length ls" and "pat \<noteq> []"
    and "seek_pass (\<lambda>s. s) ls pat (search_start_of ls pat start eof) = Some i"
  shows "seek_sequence ls pat start eof = Some i"
  using assms by (simp add: seek_sequence_def Let_def)



text \<open>With \<open>eof\<close> set the only place tried is the end of the file: the start is not
  used, and there is no second search from it.\<close>

lemma seek_sequence_eof:
  assumes "pat \<noteq> []"
  shows "seek_sequence ls pat start True =
    (if length pat \<le> length ls \<and> lines_agree normalise_line ls (length ls - length pat) pat
     then Some (length ls - length pat) else None)"
proof (cases "length pat \<le> length ls")
  case True
  then have s: "search_start_of ls pat start True = length ls - length pat"
    by (simp add: search_start_of_def)
  show ?thesis
  proof (cases "seek_sequence ls pat start True")
    case None
    then show ?thesis
      using seek_sequence_NoneD [OF None, of "length ls - length pat"] s True by auto
  next
    case (Some i)
    with seek_sequence_SomeD [OF Some assms] s True
    have "i = length ls - length pat" "lines_agree normalise_line ls i pat" by auto
    with Some True show ?thesis by simp
  qed
next
  case False
  with assms show ?thesis by (simp add: seek_sequence_def)
qed

end
