(* ===== verification/ApplyPatch.thy ===== *)
theory ApplyPatch
  imports PatchParser SeekSequence Paths
begin

text \<open>
  Applying a patch (\<open>apply-patch/src/lib.rs\<close>, \<open>standalone_executable.rs\<close>): the replacements
  a chunk list stands for, their application to the lines of a file, and the loop over the
  hunks that changes the file system. The world of the process (its files and output streams)
  is the type \<open>'w\<close>, and \<open>world_ops\<close> are the operating system's calls on it; a call
  returns the new world together with its outcome, so a failed call keeps its effects.
\<close>

section \<open>Errors and the world\<close>

text \<open>An \<open>io::Error\<close> is one of the operating system or one built from a message.\<close>

datatype 'e io_source = Os 'e | Custom ustr

datatype 'e apply_patch_error =
    ParseError parse_error
  | IoError ustr "'e io_source"
  | ComputeReplacements ustr
  | ImplicitInvocation

text \<open>\<open>anyhow::Error\<close> as the sources build it: a bare message, a context over an
  \<open>io::Error\<close>, or a converted \<open>ApplyPatchError\<close>.\<close>

datatype 'e anyhow =
    Bail ustr
  | WithContext ustr 'e
  | Converted "'e apply_patch_error"

record ('e, 'w) world_ops =
  read_to_string :: "'w \<Rightarrow> ustr \<Rightarrow> 'e + ustr"
  write_file :: "'w \<Rightarrow> ustr \<Rightarrow> ustr \<Rightarrow> 'w \<times> ('e + unit)"
  remove_file :: "'w \<Rightarrow> ustr \<Rightarrow> 'w \<times> ('e + unit)"
  create_dir_all :: "'w \<Rightarrow> path \<Rightarrow> 'w \<times> ('e + unit)"
  write_stdout :: "'w \<Rightarrow> ustr \<Rightarrow> 'w \<times> ('e + unit)"
  write_stderr :: "'w \<Rightarrow> ustr \<Rightarrow> 'w \<times> ('e + unit)"
  io_message :: "'e \<Rightarrow> ustr"

text \<open>Sequencing: the second action runs in the world the first one left, unless it failed.\<close>

definition and_then ::
  "'w \<times> ('x + 'a) \<Rightarrow> ('a \<Rightarrow> 'w \<Rightarrow> 'w \<times> ('x + 'b)) \<Rightarrow> 'w \<times> ('x + 'b)" where
  "and_then r k = (case r of (w, Inl e) \<Rightarrow> (w, Inl e) | (w, Inr x) \<Rightarrow> k x w)"

definition on_error :: "('x \<Rightarrow> 'y) \<Rightarrow> 'w \<times> ('x + 'a) \<Rightarrow> 'w \<times> ('y + 'a)" where
  "on_error f r = (fst r, map_errE f (snd r))"

fun source_message :: "('e, 'w) world_ops \<Rightarrow> 'e io_source \<Rightarrow> ustr" where
  "source_message ops (Os e) = io_message ops e"
| "source_message ops (Custom s) = s"

fun parse_error_message :: "parse_error \<Rightarrow> ustr" where
  "parse_error_message (InvalidPatchError m) = lit ''invalid patch: '' @ m"
| "parse_error_message (InvalidHunkError m n) =
     lit ''invalid hunk at line '' @ show_nat n @ lit '', '' @ m"

fun apply_patch_error_message :: "('e, 'w) world_ops \<Rightarrow> 'e apply_patch_error \<Rightarrow> ustr" where
  "apply_patch_error_message ops (ParseError e) = parse_error_message e"
| "apply_patch_error_message ops (IoError context src) = context @ lit '': '' @ source_message ops src"
| "apply_patch_error_message ops (ComputeReplacements m) = m"
| "apply_patch_error_message ops ImplicitInvocation =
     lit ''patch detected without explicit call to apply_patch. Rerun as ['' @
     [34] @ lit ''apply_patch'' @ [34] @ lit '', '' @ [34] @ lit ''<patch>'' @ [34] @ lit '']''"

fun anyhow_message :: "('e, 'w) world_ops \<Rightarrow> 'e anyhow \<Rightarrow> ustr" where
  "anyhow_message ops (Bail m) = m"
| "anyhow_message ops (WithContext context e) = context"
| "anyhow_message ops (Converted e) = apply_patch_error_message ops e"

section \<open>Replacements\<close>

type_synonym replacement = "nat \<times> nat \<times> ustr list"

definition ends_blank :: "ustr list \<Rightarrow> bool" where
  "ends_blank ls \<longleftrightarrow> ls \<noteq> [] \<and> last ls = []"

definition insertion_index :: "ustr list \<Rightarrow> nat" where
  "insertion_index original_lines =
     (if ends_blank original_lines then length original_lines - 1 else length original_lines)"

definition locate_context :: "ustr list \<Rightarrow> ustr \<Rightarrow> ustr option \<Rightarrow> nat \<Rightarrow> 'e apply_patch_error + nat" where
  "locate_context original_lines p ctx line_index =
     (case ctx of
        None \<Rightarrow> Inr line_index
      | Some ctx_line \<Rightarrow>
          (case seek_sequence original_lines [ctx_line] line_index False of
             Some idx \<Rightarrow> Inr (idx + 1)
           | None \<Rightarrow> Inl (ComputeReplacements
               (lit ''Failed to find context '' @ [39] @ ctx_line @ [39] @ lit '' in '' @ p))))"

text \<open>The region a chunk replaces, with the lines that replace it: the old lines, or, where
  they are not found and end in an empty line, the old lines without it.\<close>

definition locate_chunk :: "ustr list \<Rightarrow> update_file_chunk \<Rightarrow> nat \<Rightarrow> replacement option" where
  "locate_chunk original_lines chunk line_index =
     (let pattern = old_lines chunk; new_slice = new_lines chunk
      in case seek_sequence original_lines pattern line_index (is_end_of_file chunk) of
           Some start_idx \<Rightarrow> Some (start_idx, length pattern, new_slice)
         | None \<Rightarrow>
             if ends_blank pattern then
               (let pattern = butlast pattern;
                    new_slice = (if ends_blank new_slice then butlast new_slice else new_slice)
                in map_option (\<lambda>start_idx. (start_idx, length pattern, new_slice))
                     (seek_sequence original_lines pattern line_index (is_end_of_file chunk)))
             else None)"

fun collect_replacements ::
  "ustr list \<Rightarrow> ustr \<Rightarrow> update_file_chunk list \<Rightarrow> nat \<Rightarrow> 'e apply_patch_error + replacement list" where
  "collect_replacements original_lines p [] line_index = Inr []"
| "collect_replacements original_lines p (chunk # chunks) line_index =
     bindE (locate_context original_lines p (change_context chunk) line_index) (\<lambda>line_index.
       if old_lines chunk = [] then
         bindE (collect_replacements original_lines p chunks line_index)
           (\<lambda>rs. Inr ((insertion_index original_lines, 0, new_lines chunk) # rs))
       else
         case locate_chunk original_lines chunk line_index of
           Some (start_idx, old_len, new_slice) \<Rightarrow>
             bindE (collect_replacements original_lines p chunks (start_idx + old_len))
               (\<lambda>rs. Inr ((start_idx, old_len, new_slice) # rs))
         | None \<Rightarrow> Inl (ComputeReplacements
             (lit ''Failed to find expected lines in '' @ p @ lit '':'' @ newline @
              join_with newline (old_lines chunk))))"

text \<open>\<open>sort_by\<close> is stable.\<close>

definition compute_replacements ::
  "ustr list \<Rightarrow> ustr \<Rightarrow> update_file_chunk list \<Rightarrow> 'e apply_patch_error + replacement list" where
  "compute_replacements original_lines p chunks =
     bindE (collect_replacements original_lines p chunks 0) (\<lambda>rs. Inr (sort_key fst rs))"

text \<open>\<open>Vec::remove\<close> guarded by the index test, and \<open>Vec::insert\<close>, which panics (\<open>None\<close>)
  past the end.\<close>

fun remove_lines :: "nat \<Rightarrow> nat \<Rightarrow> ustr list \<Rightarrow> ustr list" where
  "remove_lines 0 start_idx ls = ls"
| "remove_lines (Suc n) start_idx ls =
     remove_lines n start_idx
       (if start_idx < length ls then take start_idx ls @ drop (Suc start_idx) ls else ls)"

fun insert_lines :: "ustr list \<Rightarrow> nat \<Rightarrow> ustr list \<Rightarrow> ustr list option" where
  "insert_lines [] i ls = Some ls"
| "insert_lines (x # xs) i ls =
     (if i \<le> length ls then insert_lines xs (Suc i) (take i ls @ x # drop i ls) else None)"

fun apply_reversed :: "ustr list \<Rightarrow> replacement list \<Rightarrow> ustr list option" where
  "apply_reversed ls [] = Some ls"
| "apply_reversed ls ((start_idx, old_len, new_segment) # rs) =
     Option.bind (insert_lines new_segment start_idx (remove_lines old_len start_idx ls))
       (\<lambda>ls. apply_reversed ls rs)"

definition apply_replacements :: "ustr list \<Rightarrow> replacement list \<Rightarrow> ustr list option" where
  "apply_replacements ls replacements = apply_reversed ls (rev replacements)"

text \<open>The lines of the file, without the empty one after a final newline.\<close>

definition original_lines_of :: "ustr \<Rightarrow> ustr list" where
  "original_lines_of contents =
     (let ls = split_on 10 contents in if ends_blank ls then butlast ls else ls)"

definition finish_lines :: "ustr list \<Rightarrow> ustr" where
  "finish_lines ls = join_with newline (if ends_blank ls then ls else ls @ [[]])"

definition patched_contents ::
  "ustr \<Rightarrow> ustr \<Rightarrow> update_file_chunk list \<Rightarrow> ('e apply_patch_error + ustr) option" where
  "patched_contents original_contents p chunks =
     (case compute_replacements (original_lines_of original_contents) p chunks of
        Inl e \<Rightarrow> Some (Inl e)
      | Inr replacements \<Rightarrow>
          map_option (\<lambda>ls. Inr (finish_lines ls))
            (apply_replacements (original_lines_of original_contents) replacements))"

text \<open>The result is \<open>None\<close> for a panic, and else the original and new contents.\<close>

definition derive_new_contents_from_chunks ::
  "('e, 'w) world_ops \<Rightarrow> 'w \<Rightarrow> ustr \<Rightarrow> update_file_chunk list
    \<Rightarrow> ('e apply_patch_error + ustr \<times> ustr) option" where
  "derive_new_contents_from_chunks ops w p chunks =
     (case read_to_string ops w p of
        Inl e \<Rightarrow> Some (Inl (IoError (lit ''Failed to read file to update '' @ p) (Os e)))
      | Inr original_contents \<Rightarrow>
          map_option (map_sum (\<lambda>e. e) (\<lambda>new_contents. (original_contents, new_contents)))
            (patched_contents original_contents p chunks))"

section \<open>Applying replacements never panics\<close>

lemma remove_lines_eq: "s \<le> length ls \<Longrightarrow> remove_lines n s ls = take s ls @ drop (s + n) ls"
proof (induction n arbitrary: ls)
  case (Suc n)
  show ?case
  proof (cases "s < length ls")
    case True
    then have "remove_lines (Suc n) s ls = remove_lines n s (take s ls @ drop (Suc s) ls)" by simp
    also have "\<dots> = take s ls @ drop (s + Suc n) ls"
      using True by (subst Suc.IH) (simp_all add: add.commute)
    finally show ?thesis .
  qed (use Suc in simp)
qed simp

lemma insert_lines_eq:
  "i \<le> length ls \<Longrightarrow> insert_lines xs i ls = Some (take i ls @ xs @ drop i ls)"
proof (induction xs arbitrary: i ls)
  case (Cons x xs)
  have "insert_lines (x # xs) i ls = insert_lines xs (Suc i) (take i ls @ x # drop i ls)"
    using Cons.prems by simp
  also have "\<dots> = Some (take i ls @ (x # xs) @ drop i ls)"
    using Cons.prems by (subst Cons.IH) simp_all
  finally show ?case .
qed simp

lemma apply_reversed_append:
  "apply_reversed ls (rs @ [r]) = Option.bind (apply_reversed ls rs) (\<lambda>ls. apply_reversed ls [r])"
  by (induction rs arbitrary: ls) (auto simp: bind_assoc)

lemma apply_replacements_Cons:
  "apply_replacements ls ((s, n, new) # rs) =
     Option.bind (apply_replacements ls rs) (\<lambda>ls'. insert_lines new s (remove_lines n s ls'))"
  by (simp add: apply_replacements_def apply_reversed_append bind_assoc) 

lemma apply_replacements_Nil [simp]: "apply_replacements ls [] = Some ls"
  by (simp add: apply_replacements_def)

lemma replace_one:
  "s \<le> length ls \<Longrightarrow>
   insert_lines new s (remove_lines n s ls) = Some (take s ls @ new @ drop (s + n) ls)"
  by (simp add: remove_lines_eq insert_lines_eq)

text \<open>Sorted replacements that start inside the file leave the lines before them alone, so the
  next start is still inside it.\<close>

lemma apply_replacements_total:
  "sorted (map fst rs) \<Longrightarrow> \<forall>r \<in> set rs. fst r \<le> length ls \<Longrightarrow>
   \<exists>ls'. apply_replacements ls rs = Some ls' \<and>
     (\<forall>k \<le> length ls. (\<forall>r \<in> set rs. k \<le> fst r) \<longrightarrow> k \<le> length ls' \<and> take k ls' = take k ls)"
proof (induction rs)
  case (Cons r rs)
  obtain s n new where r: "r = (s, n, new)" by (cases r) auto
  from Cons obtain ls' where ls': "apply_replacements ls rs = Some ls'"
    "\<forall>k \<le> length ls. (\<forall>r \<in> set rs. k \<le> fst r) \<longrightarrow> k \<le> length ls' \<and> take k ls' = take k ls"
    by auto
  then have s: "s \<le> length ls'" using Cons.prems r by auto
  let ?res = "take s ls' @ new @ drop (s + n) ls'"
  have "apply_replacements ls (r # rs) = Some ?res"
    using ls'(1) s r by (simp add: apply_replacements_Cons replace_one)
  moreover have "k \<le> length ?res \<and> take k ?res = take k ls"
    if "k \<le> length ls" "\<forall>x \<in> set (r # rs). k \<le> fst x" for k
    using ls'(2) that s r by (auto simp: min_def)
  ultimately show ?case by blast
qed simp

lemma locate_context_bounds:
  assumes "locate_context ls p ctx k = Inr k'" and "k \<le> length ls"
  shows "k \<le> k' \<and> k' \<le> length ls"
  using assms seek_sequence_bound [of ls _ k False] seek_sequence_ge_start [of ls _ k]
  by (fastforce simp: locate_context_def split: option.splits)

lemma locate_chunk_bounds:
  assumes "locate_chunk ls chunk k = Some (s, n, new)" and "k \<le> length ls"
  shows "s + n \<le> length ls \<and> (\<not> is_end_of_file chunk \<longrightarrow> k \<le> s)"
  using assms seek_sequence_bound [of ls _ k "is_end_of_file chunk"] seek_sequence_ge_start [of ls _ k]
  by (fastforce simp: locate_chunk_def Let_def split: option.splits if_splits)

text \<open>What a located region holds: the old lines, up to blanks and punctuation.\<close>

lemma locate_chunk_agrees:
  assumes "locate_chunk ls chunk k = Some (s, n, new)"
  shows "lines_agree normalise_line ls s (take n (old_lines chunk)) \<and>
    (n = length (old_lines chunk) \<or> Suc n = length (old_lines chunk) \<and> last (old_lines chunk) = [])"
proof -
  have agree: "lines_agree normalise_line ls i pat"
    if "seek_sequence ls pat k eof = Some i" for pat i eof
    using that seek_sequence_SomeD(3) [of ls pat k eof i] by (cases "pat = []") auto
  show ?thesis
    using assms
    by (auto simp: locate_chunk_def Let_def ends_blank_def butlast_conv_take dest: agree
        split: option.splits if_splits)
qed

lemma collect_replacements_bounds:
  "(collect_replacements ls p chunks k :: 'e apply_patch_error + replacement list) = Inr rs \<Longrightarrow>
   k \<le> length ls \<Longrightarrow> \<forall>r \<in> set rs. fst r + fst (snd r) \<le> length ls"
proof (induction chunks arbitrary: k rs)
  case (Cons chunk chunks)
  from Cons.prems obtain k' where
    k': "(locate_context ls p (change_context chunk) k :: 'e apply_patch_error + nat) = Inr k'"
    by (auto simp: bindE_eq_Inr_iff)
  then have le: "k' \<le> length ls"
    using locate_context_bounds Cons.prems by blast
  show ?case
  proof (cases "old_lines chunk = []")
    case True
    with Cons.prems k' obtain rs' where
      "(collect_replacements ls p chunks k' :: 'e apply_patch_error + replacement list) = Inr rs'"
      "rs = (insertion_index ls, 0, new_lines chunk) # rs'"
      by (auto simp: bindE_eq_Inr_iff)
    then show ?thesis using Cons.IH le by (auto simp: insertion_index_def)
  next
    case False
    with Cons.prems k' obtain s n new rs' where
      loc: "locate_chunk ls chunk k' = Some (s, n, new)"
      and rec: "(collect_replacements ls p chunks (s + n) :: 'e apply_patch_error + replacement list) = Inr rs'"
        "rs = (s, n, new) # rs'"
      by (auto simp: bindE_eq_Inr_iff split: option.splits)
    from locate_chunk_bounds [OF loc le] have "s + n \<le> length ls" by simp
    then show ?thesis using Cons.IH rec by auto
  qed
qed simp

lemma compute_replacements_ok:
  assumes "(compute_replacements ls p chunks :: 'e apply_patch_error + replacement list) = Inr rs"
  shows "sorted (map fst rs) \<and> (\<forall>r \<in> set rs. fst r \<le> length ls)"
proof -
  from assms obtain rs0 where
    "(collect_replacements ls p chunks 0 :: 'e apply_patch_error + replacement list) = Inr rs0"
    "rs = sort_key fst rs0"
    by (auto simp: compute_replacements_def bindE_eq_Inr_iff)
  with collect_replacements_bounds [of ls p chunks 0 rs0] show ?thesis by fastforce
qed

text \<open>C40: Deriving the new contents of a file never panics, whatever the file holds and whatever
  the chunks ask for (overlapping regions and end-of-file chunks included): every insertion
  happens inside the lines that are there.\<close>

theorem derive_new_contents_total:
  "derive_new_contents_from_chunks ops w p chunks \<noteq> None"
proof -
  have "apply_replacements ls rs \<noteq> None" if "(compute_replacements ls p chunks :: 'a apply_patch_error + replacement list) = Inr rs"
    for ls rs
    using compute_replacements_ok [OF that] apply_replacements_total [of rs ls] by auto
  then show ?thesis
    by (auto simp: derive_new_contents_from_chunks_def patched_contents_def split: sum.split)
qed

section \<open>What the replacements do\<close>

text \<open>The specification: the file read from position \<open>p\<close> on, each region in turn swapped
  for its new lines.\<close>

fun splice :: "nat \<Rightarrow> ustr list \<Rightarrow> replacement list \<Rightarrow> ustr list" where
  "splice p ls [] = drop p ls"
| "splice p ls ((s, n, new) # rs) = take (s - p) (drop p ls) @ new @ splice (s + n) ls rs"

fun disjoint_from :: "nat \<Rightarrow> nat \<Rightarrow> replacement list \<Rightarrow> bool" where
  "disjoint_from l p [] \<longleftrightarrow> p \<le> l"
| "disjoint_from l p ((s, n, new) # rs) \<longleftrightarrow> p \<le> s \<and> disjoint_from l (s + n) rs"

lemma disjoint_from_le: "disjoint_from l p rs \<Longrightarrow> p \<le> l"
  by (induction l p rs rule: disjoint_from.induct) auto

lemma apply_replacements_splice:
  "disjoint_from (length ls) p rs \<Longrightarrow> apply_replacements ls rs = Some (take p ls @ splice p ls rs)"
proof (induction rs arbitrary: p)
  case (Cons r rs)
  obtain s n new where r: "r = (s, n, new)" by (cases r) auto
  with Cons have ps: "p \<le> s" and rec: "apply_replacements ls rs = Some (take (s + n) ls @ splice (s + n) ls rs)"
    and "disjoint_from (length ls) (s + n) rs" by auto
  then have sn: "s + n \<le> length ls" by (auto dest: disjoint_from_le)
  let ?ls = "take (s + n) ls @ splice (s + n) ls rs"
  have "apply_replacements ls (r # rs) = Some (take s ?ls @ new @ drop (s + n) ?ls)"
    using rec sn r by (simp add: apply_replacements_Cons replace_one)
  also have "take s ?ls = take p ls @ take (s - p) (drop p ls)"
    using ps sn by (simp add: min_def take_add [symmetric])
  finally show ?case using r sn by simp
qed simp

text \<open>Chunks without an end-of-file mark are located one after the other; those that land at
  the very end of the file take nothing away.\<close>

fun chained :: "nat \<Rightarrow> nat \<Rightarrow> replacement list \<Rightarrow> bool" where
  "chained l p [] = True"
| "chained l p ((s, n, new) # rs) \<longleftrightarrow>
     s + n \<le> l \<and> (if s = l then chained l p rs else p \<le> s \<and> chained l (s + n) rs)"

lemma chained_mono: "chained l q rs \<Longrightarrow> p \<le> q \<Longrightarrow> chained l p rs"
  by (induction l q rs arbitrary: p rule: chained.induct) (auto split: if_splits)

lemma disjoint_tail:
  "\<forall>r \<in> set rs. fst r = l \<and> fst (snd r) = 0 \<Longrightarrow> p \<le> l \<Longrightarrow> disjoint_from l p rs"
  by (induction rs arbitrary: p) auto

lemma insort_after: "\<forall>x \<in> set xs. f x < f r \<Longrightarrow> insort_key f r (xs @ ys) = xs @ insort_key f r ys"
  by (induction xs) auto

lemma sort_split:
  fixes rs :: "replacement list"
  assumes "sorted (map fst (filter (\<lambda>r. fst r < l) rs))" and "\<forall>r \<in> set rs. fst r \<le> l"
  shows "sort_key fst rs = filter (\<lambda>r. fst r < l) rs @ filter (\<lambda>r. fst r = l) rs"
  using assms
proof (induction rs)
  case (Cons r rs)
  then have IH: "sort_key fst rs = filter (\<lambda>r. fst r < l) rs @ filter (\<lambda>r. fst r = l) rs"
    by (auto split: if_splits)
  show ?case
  proof (cases "fst r < l")
    case True
    with Cons.prems have "\<forall>x \<in> set (sort_key fst rs). fst r \<le> fst x" by fastforce
    then show ?thesis using IH True by (simp add: insort_is_Cons)
  next
    case False
    with Cons.prems have "fst r = l" by auto
    then show ?thesis
      using IH by (simp add: insort_after insort_is_Cons)
  qed
qed simp

lemma chained_sort:
  assumes "chained l p rs" and "p \<le> l"
  shows "disjoint_from l p (sort_key fst rs)"
proof -
  let ?low = "filter (\<lambda>r. fst r < l) rs" and ?high = "filter (\<lambda>r. fst r = l) rs"
  have bound: "chained l p rs \<Longrightarrow> \<forall>r \<in> set rs. fst r + fst (snd r) \<le> l" for p
    by (induction rs arbitrary: p) (fastforce split: if_splits)+
  have low: "chained l p rs \<Longrightarrow> sorted (map fst (filter (\<lambda>r. fst r < l) rs)) \<and>
      (\<forall>r \<in> set (filter (\<lambda>r. fst r < l) rs). p \<le> fst r)" for p
    by (induction rs arbitrary: p) (fastforce split: if_splits)+
  have "chained l p rs \<Longrightarrow> p \<le> l \<Longrightarrow> disjoint_from l p (filter (\<lambda>r. fst r < l) rs @ hs)"
    if "\<forall>r \<in> set hs. fst r = l \<and> fst (snd r) = 0" for p hs
    using that by (induction rs arbitrary: p) (auto simp: disjoint_tail split: if_splits)
  moreover have "\<forall>r \<in> set ?high. fst r = l \<and> fst (snd r) = 0"
    using bound [OF assms(1)] by auto
  ultimately have "disjoint_from l p (?low @ ?high)" using assms by blast
  moreover have "sort_key fst rs = ?low @ ?high"
    using low [OF assms(1)] bound [OF assms(1)] by (intro sort_split) auto
  ultimately show ?thesis by simp
qed

lemma collect_replacements_chained:
  "(collect_replacements ls p chunks k :: 'e apply_patch_error + replacement list) = Inr rs \<Longrightarrow>
   k \<le> length ls \<Longrightarrow> \<not> ends_blank ls \<Longrightarrow> list_all (\<lambda>c. \<not> is_end_of_file c) chunks \<Longrightarrow>
   chained (length ls) k rs"
proof (induction chunks arbitrary: k rs)
  case (Cons chunk chunks)
  from Cons.prems obtain k' where
    k': "(locate_context ls p (change_context chunk) k :: 'e apply_patch_error + nat) = Inr k'"
    by (auto simp: bindE_eq_Inr_iff)
  then have le: "k \<le> k'" "k' \<le> length ls"
    using locate_context_bounds Cons.prems by blast+
  show ?case
  proof (cases "old_lines chunk = []")
    case True
    with Cons.prems k' obtain rs' where
      "(collect_replacements ls p chunks k' :: 'e apply_patch_error + replacement list) = Inr rs'"
      "rs = (insertion_index ls, 0, new_lines chunk) # rs'"
      by (auto simp: bindE_eq_Inr_iff)
    then show ?thesis
      using Cons.IH [of k' rs'] Cons.prems le chained_mono [of "length ls" k' rs' k]
      by (auto simp: insertion_index_def)
  next
    case False
    with Cons.prems k' obtain s n new rs' where
      loc: "locate_chunk ls chunk k' = Some (s, n, new)"
      and rec: "(collect_replacements ls p chunks (s + n) :: 'e apply_patch_error + replacement list) = Inr rs'"
        "rs = (s, n, new) # rs'"
      by (auto simp: bindE_eq_Inr_iff split: option.splits)
    from locate_chunk_bounds [OF loc le(2)] Cons.prems le have "s + n \<le> length ls" "k \<le> s" by auto
    moreover from this have "chained (length ls) (s + n) rs'"
      using Cons.IH [OF rec(1)] Cons.prems by simp
    ultimately show ?thesis
      using rec(2) chained_mono [of "length ls" "s + n" rs' k] by auto
  qed
qed simp

lemma compute_replacements_disjoint:
  assumes "(compute_replacements ls p chunks :: 'e apply_patch_error + replacement list) = Inr rs"
    and "\<not> ends_blank ls" and "list_all (\<lambda>c. \<not> is_end_of_file c) chunks"
  shows "disjoint_from (length ls) 0 rs"
proof -
  from assms(1) obtain rs0 where
    "(collect_replacements ls p chunks 0 :: 'e apply_patch_error + replacement list) = Inr rs0"
    and rs: "rs = sort_key fst rs0"
    by (auto simp: compute_replacements_def bindE_eq_Inr_iff)
  then have "chained (length ls) 0 rs0"
    using assms by (intro collect_replacements_chained) auto
  then show ?thesis unfolding rs by (rule chained_sort) simp
qed


definition quiet_ops :: "ustr \<Rightarrow> (unit, 'w) world_ops" where
  "quiet_ops contents =
     \<lparr>read_to_string = (\<lambda>w p. Inr contents), write_file = (\<lambda>w p c. (w, Inr ())),
      remove_file = (\<lambda>w p. (w, Inr ())), create_dir_all = (\<lambda>w p. (w, Inr ())),
      write_stdout = (\<lambda>w t. (w, Inr ())), write_stderr = (\<lambda>w t. (w, Inr ())),
      io_message = (\<lambda>e. [])\<rparr>"

definition two_chunks :: "update_file_chunk list" where
  "two_chunks =
     [\<lparr>change_context = None, old_lines = [[97]], new_lines = [[98]], is_end_of_file = False\<rparr>,
      \<lparr>change_context = None, old_lines = [], new_lines = [[99]], is_end_of_file = False\<rparr>]"

lemma two_chunks_replacements:
  "(compute_replacements [[97], [100]] p two_chunks :: unit apply_patch_error + replacement list) =
     Inr [(0, 1, [[98]]), (2, 0, [[99]])]"
  by (simp add: compute_replacements_def two_chunks_def locate_context_def locate_chunk_def
      seek_sequence_def seek_pass_def search_start_of_def insertion_index_def ends_blank_def upt_rec)


text \<open>Without the hypothesis on blank lines it fails: where the file ends in a blank line, a
  chunk that only adds lines is scheduled before that line, inside the region of a chunk that
  replaces it, and its lines are dropped without an error.\<close>

definition overlapping_chunks :: "update_file_chunk list" where
  "overlapping_chunks =
     [\<lparr>change_context = None, old_lines = [[97], []], new_lines = [[98], []], is_end_of_file = False\<rparr>,
      \<lparr>change_context = None, old_lines = [], new_lines = [[99]], is_end_of_file = False\<rparr>]"

lemma addition_lost:
  "derive_new_contents_from_chunks (quiet_ops [97, 10, 10]) w p overlapping_chunks =
     Some (Inr ([97, 10, 10], [98, 10, 10]))"
proof -
  have lines: "original_lines_of [97, 10, 10] = [[97], []]"
    by (simp add: original_lines_of_def ends_blank_def)
  have "(compute_replacements [[97], []] p overlapping_chunks
      :: unit apply_patch_error + replacement list) = Inr [(0, 2, [[98], []]), (1, 0, [[99]])]"
    by (simp add: compute_replacements_def overlapping_chunks_def locate_context_def locate_chunk_def
        seek_sequence_def seek_pass_def search_start_of_def insertion_index_def ends_blank_def upt_rec
        numeral_2_eq_2)
  then show ?thesis
    by (simp add: derive_new_contents_from_chunks_def patched_contents_def quiet_ops_def lines apply_replacements_def
        numeral_2_eq_2 finish_lines_def ends_blank_def)
qed

section \<open>Applying the hunks\<close>

record affected_paths =
  added :: "ustr list"
  modified :: "ustr list"
  deleted :: "ustr list"

definition create_parents ::
  "('e, 'w) world_ops \<Rightarrow> ustr \<Rightarrow> 'w \<Rightarrow> 'w \<times> ('e anyhow + unit)" where
  "create_parents ops p w =
     (case parent (components p) of
        Some dir \<Rightarrow>
          if dir \<noteq> [] then
            on_error (WithContext (lit ''Failed to create parent directories for '' @ p))
              (create_dir_all ops w dir)
          else (w, Inr ())
      | None \<Rightarrow> (w, Inr ()))"

definition write_contents ::
  "('e, 'w) world_ops \<Rightarrow> ustr \<Rightarrow> ustr \<Rightarrow> 'w \<Rightarrow> 'w \<times> ('e anyhow + unit)" where
  "write_contents ops p contents w =
     on_error (WithContext (lit ''Failed to write file '' @ p)) (write_file ops w p contents)"

text \<open>Writing an update: in place, or to the destination of a move and then removing the
  original.\<close>

definition write_update ::
  "('e, 'w) world_ops \<Rightarrow> ustr \<Rightarrow> ustr option \<Rightarrow> ustr \<Rightarrow> affected_paths \<Rightarrow> 'w
    \<Rightarrow> 'w \<times> ('e anyhow + affected_paths)" where
  "write_update ops p move_path new_contents a w =
     (case move_path of
        Some dest \<Rightarrow>
          and_then (create_parents ops dest w) (\<lambda>_ w.
          and_then (write_contents ops dest new_contents w) (\<lambda>_ w.
          and_then
            (on_error (WithContext (lit ''Failed to remove original '' @ p)) (remove_file ops w p))
            (\<lambda>_ w. (w, Inr (a\<lparr>modified := modified a @ [dest]\<rparr>)))))
      | None \<Rightarrow>
          and_then (write_contents ops p new_contents w) (\<lambda>_ w.
            (w, Inr (a\<lparr>modified := modified a @ [p]\<rparr>))))"

text \<open>One iteration of the loop over the hunks; \<open>None\<close> is a panic.\<close>

fun apply_hunk ::
  "('e, 'w) world_ops \<Rightarrow> hunk \<Rightarrow> affected_paths \<Rightarrow> 'w \<Rightarrow> ('w \<times> ('e anyhow + affected_paths)) option" where
  "apply_hunk ops (AddFile p contents) a w =
     Some (and_then (create_parents ops p w) (\<lambda>_ w.
           and_then (write_contents ops p contents w) (\<lambda>_ w.
             (w, Inr (a\<lparr>added := added a @ [p]\<rparr>)))))"
| "apply_hunk ops (DeleteFile p) a w =
     Some (and_then
       (on_error (WithContext (lit ''Failed to delete file '' @ p)) (remove_file ops w p)) (\<lambda>_ w.
         (w, Inr (a\<lparr>deleted := deleted a @ [p]\<rparr>))))"
| "apply_hunk ops (UpdateFile p move_path chunks) a w =
     map_option (\<lambda>r. case r of
         Inl e \<Rightarrow> (w, Inl (Converted e))
       | Inr (_, new_contents) \<Rightarrow> write_update ops p move_path new_contents a w)
       (derive_new_contents_from_chunks ops w p chunks)"

fun apply_each_hunk ::
  "('e, 'w) world_ops \<Rightarrow> hunk list \<Rightarrow> affected_paths \<Rightarrow> 'w
    \<Rightarrow> ('w \<times> ('e anyhow + affected_paths)) option" where
  "apply_each_hunk ops [] a w = Some (w, Inr a)"
| "apply_each_hunk ops (h # hs) a w =
     (case apply_hunk ops h a w of
        None \<Rightarrow> None
      | Some (w, Inl e) \<Rightarrow> Some (w, Inl e)
      | Some (w, Inr a) \<Rightarrow> apply_each_hunk ops hs a w)"

definition nothing_affected :: affected_paths where
  "nothing_affected = \<lparr>added = [], modified = [], deleted = []\<rparr>"

definition apply_hunks_to_files ::
  "('e, 'w) world_ops \<Rightarrow> hunk list \<Rightarrow> 'w \<Rightarrow> ('w \<times> ('e anyhow + affected_paths)) option" where
  "apply_hunks_to_files ops hunks w =
     (if hunks = [] then Some (w, Inl (Bail (lit ''No files were modified.'')))
      else apply_each_hunk ops hunks nothing_affected w)"

fun write_out_lines ::
  "('w \<Rightarrow> ustr \<Rightarrow> 'w \<times> ('e + unit)) \<Rightarrow> ustr list \<Rightarrow> 'w \<Rightarrow> 'w \<times> ('e + unit)" where
  "write_out_lines put [] w = (w, Inr ())"
| "write_out_lines put (l # ls) w =
     and_then (put w (l @ newline)) (\<lambda>_ w. write_out_lines put ls w)"

definition print_summary :: "('e, 'w) world_ops \<Rightarrow> affected_paths \<Rightarrow> 'w \<Rightarrow> 'w \<times> ('e + unit)" where
  "print_summary ops affected w =
     write_out_lines (write_stdout ops)
       (lit ''Success. Updated the following files:'' #
        map (\<lambda>p. lit ''A '' @ p) (added affected) @
        map (\<lambda>p. lit ''M '' @ p) (modified affected) @
        map (\<lambda>p. lit ''D '' @ p) (deleted affected)) w"

text \<open>\<open>ApplyPatchError::from(io::Error)\<close>, of an owned error and of a reference, and the error
  \<open>apply_hunks\<close> returns for a failed helper.\<close>

definition io_error_of :: "'e \<Rightarrow> 'e apply_patch_error" where
  "io_error_of e = IoError (lit ''I/O error'') (Os e)"

fun hunks_error :: "('e, 'w) world_ops \<Rightarrow> 'e anyhow \<Rightarrow> 'e apply_patch_error" where
  "hunks_error ops (WithContext context e) = IoError (lit ''I/O error'') (Custom (io_message ops e))"
| "hunks_error ops err = IoError (anyhow_message ops err) (Custom (anyhow_message ops err))"

definition apply_hunks ::
  "('e, 'w) world_ops \<Rightarrow> hunk list \<Rightarrow> 'w \<Rightarrow> ('w \<times> ('e apply_patch_error + unit)) option" where
  "apply_hunks ops hunks w =
     map_option (\<lambda>r. case r of
         (w, Inr affected) \<Rightarrow> on_error io_error_of (print_summary ops affected w)
       | (w, Inl err) \<Rightarrow>
           and_then (on_error io_error_of (write_stderr ops w (anyhow_message ops err @ newline)))
             (\<lambda>_ w. (w, Inl (hunks_error ops err))))
       (apply_hunks_to_files ops hunks w)"

fun rejected_patch_message :: "parse_error \<Rightarrow> ustr" where
  "rejected_patch_message (InvalidPatchError m) = lit ''Invalid patch: '' @ m @ newline"
| "rejected_patch_message (InvalidHunkError m n) =
     lit ''Invalid patch hunk on line '' @ show_nat n @ lit '': '' @ m @ newline"

definition apply_patch ::
  "('e, 'w) world_ops \<Rightarrow> ustr \<Rightarrow> 'w \<Rightarrow> ('w \<times> ('e apply_patch_error + unit)) option" where
  "apply_patch ops patch w =
     (case parse_patch patch of
        Inr args \<Rightarrow> apply_hunks ops (args_hunks args) w
      | Inl e \<Rightarrow>
          Some (and_then (on_error io_error_of (write_stderr ops w (rejected_patch_message e)))
            (\<lambda>_ w. (w, Inl (ParseError e)))))"

text \<open>The standalone executable: its arguments after the program name (\<open>None\<close> for one that is
  not UTF-8) and what reading standard input gives; the result is the exit code, \<open>None\<close> a
  panic. Failures to write the diagnostics are the runtime's (\<open>eprintln\<close>).\<close>

definition run_main ::
  "('e, 'w) world_ops \<Rightarrow> ustr option list \<Rightarrow> 'e + ustr \<Rightarrow> 'w \<Rightarrow> ('w \<times> int) option" where
  "run_main ops args stdin w =
     (let say = (\<lambda>w t. fst (write_stderr ops w (t @ newline)));
          patch_arg =
            (case args of
               Some s # _ \<Rightarrow> Inr s
             | None # _ \<Rightarrow> Inl (say w (lit ''Error: apply_patch requires a UTF-8 PATCH argument.''), 1)
             | [] \<Rightarrow>
                 (case stdin of
                    Inr buf \<Rightarrow>
                      if buf = [] then
                        Inl (say w (lit ''Usage: apply_patch '' @ [39] @ lit ''PATCH'' @ [39] @ newline @
                          lit ''       echo '' @ [39] @ lit ''PATCH'' @ [39] @ lit '' | apply_patch''), 2)
                      else Inr buf
                  | Inl err \<Rightarrow>
                      Inl (say w (lit ''Error: Failed to read PATCH from stdin.'' @ newline @
                        io_message ops err), 1)))
      in case patch_arg of
           Inl r \<Rightarrow> Some r
         | Inr patch \<Rightarrow>
             if 1 < length args then
               Some (say w (lit ''Error: apply_patch accepts exactly one argument.''), 2)
             else map_option (\<lambda>(w, r). (w, case r of Inr _ \<Rightarrow> 0 | Inl _ \<Rightarrow> 1)) (apply_patch ops patch w))"

section \<open>Effect on the file system\<close>

text \<open>
  What the sources rely on: \<open>entry\<close> is the file a path denotes (no two of them share their
  contents by links) and \<open>view\<close> its contents in a world. A write changes at most the file written
  and a removal at most the file removed, failed ones included; creating directories and
  printing change no file.
\<close>

definition file_laws ::
  "('e, 'w) world_ops \<Rightarrow> (ustr \<Rightarrow> 'f) \<Rightarrow> ('w \<Rightarrow> 'f \<Rightarrow> ustr option) \<Rightarrow> bool" where
  "file_laws ops entry view \<longleftrightarrow>
     (\<forall>w p c. (\<forall>f. f \<noteq> entry p \<longrightarrow> view (fst (write_file ops w p c)) f = view w f) \<and>
        (snd (write_file ops w p c) = Inr () \<longrightarrow> view (fst (write_file ops w p c)) (entry p) = Some c)) \<and>
     (\<forall>w p. (\<forall>f. f \<noteq> entry p \<longrightarrow> view (fst (remove_file ops w p)) f = view w f) \<and>
        (snd (remove_file ops w p) = Inr () \<longrightarrow> view (fst (remove_file ops w p)) (entry p) = None)) \<and>
     (\<forall>w d. view (fst (create_dir_all ops w d)) = view w) \<and>
     (\<forall>w t. view (fst (write_stdout ops w t)) = view w \<and> view (fst (write_stderr ops w t)) = view w) \<and>
     (\<forall>w p c. read_to_string ops w p = Inr c \<longrightarrow> view w (entry p) = Some c)"

fun touched_by :: "(ustr \<Rightarrow> 'f) \<Rightarrow> hunk \<Rightarrow> 'f set" where
  "touched_by entry (AddFile p c) = {entry p}"
| "touched_by entry (DeleteFile p) = {entry p}"
| "touched_by entry (UpdateFile p mv cs) = insert (entry p) (entry ` set_option mv)"

lemma and_then_cases:
  assumes "and_then r k = (w', x)"
  obtains e w where "r = (w, Inl e)" "w' = w" "x = Inl e"
        | a w where "r = (w, Inr a)" "k a w = (w', x)"
  using assms by (cases r; cases "snd r") (auto simp: and_then_def)

lemma fst_on_error [simp]: "fst (on_error f r) = fst r"
  by (simp add: on_error_def)

lemma on_error_Inr_iff: "on_error f r = (w, Inr x) \<longleftrightarrow> r = (w, Inr x)"
  by (cases r) (auto simp: on_error_def)

lemma view_create_parents:
  "file_laws ops entry view \<Longrightarrow> view (fst (create_parents ops p w)) = view w"
  by (auto simp: create_parents_def file_laws_def split: option.split)

lemma view_write_contents:
  "file_laws ops entry view \<Longrightarrow> f \<noteq> entry p \<Longrightarrow> view (fst (write_contents ops p c w)) f = view w f"
  by (simp add: write_contents_def file_laws_def)

lemma view_remove:
  "file_laws ops entry view \<Longrightarrow> f \<noteq> entry p \<Longrightarrow> view (fst (remove_file ops w p)) f = view w f"
  by (simp add: file_laws_def)

lemma view_streams:
  "file_laws ops entry view \<Longrightarrow> view (fst (write_stdout ops w t)) = view w"
  "file_laws ops entry view \<Longrightarrow> view (fst (write_stderr ops w t)) = view w"
  by (simp_all add: file_laws_def)

lemma view_and_then:
  assumes "view (fst r) f = view w f" and "\<And>x w'. view w' f = view w f \<Longrightarrow> view (fst (k x w')) f = view w f"
  shows "view (fst (and_then r k)) f = view w f"
  using assms by (cases r; cases "snd r") (auto simp: and_then_def)

lemma apply_hunk_frame:
  assumes "file_laws ops entry view" and "apply_hunk ops h a w = Some res"
    and "f \<notin> touched_by entry h"
  shows "view (fst res) f = view w f"
proof -
  note frame = view_create_parents [OF assms(1)] view_write_contents [OF assms(1)] view_remove [OF assms(1)]
  show ?thesis
  proof (cases h)
    case (UpdateFile p mv chunks)
    have "f \<noteq> entry p" "\<forall>dest. mv = Some dest \<longrightarrow> f \<noteq> entry dest"
      using assms(3) UpdateFile by auto
    then have update: "view (fst (write_update ops p mv new a w)) f = view w f" for new
      by (auto simp: write_update_def frame intro!: view_and_then split: option.split)
    show ?thesis
    proof (cases "derive_new_contents_from_chunks ops w p chunks")
      case (Some z)
      with assms(2) UpdateFile update show ?thesis by (cases z) auto
    qed (use assms(2) UpdateFile in simp)
  qed (use assms(2,3) in \<open>auto simp: frame intro!: view_and_then\<close>)
qed

lemma apply_each_hunk_frame:
  assumes "file_laws ops entry view"
  shows "apply_each_hunk ops hs a w = Some (w', r) \<Longrightarrow> \<forall>h \<in> set hs. f \<notin> touched_by entry h \<Longrightarrow>
    view w' f = view w f"
proof (induction hs arbitrary: a w)
  case (Cons h hs)
  then show ?case
    using apply_hunk_frame [OF assms, of h a w _ f]
    by (fastforce split: option.splits sum.splits prod.splits)
qed simp

lemma view_write_out_lines:
  assumes "\<And>w t. view (fst (put w t)) f = view w f"
  shows "view (fst (write_out_lines put ls w)) f = view w f"
proof (induction ls arbitrary: w)
  case (Cons l ls)
  then show ?case by (auto simp: assms intro!: view_and_then)
qed simp

lemma apply_hunks_frame:
  assumes "file_laws ops entry view" and "apply_hunks ops hs w = Some (w', r)"
    and "\<forall>h \<in> set hs. f \<notin> touched_by entry h"
  shows "view w' f = view w f"
proof -
  note stderr = view_streams(2) [OF assms(1)]
  have stdout: "view (fst (print_summary ops a w)) f = view w f" for w a
    unfolding print_summary_def by (rule view_write_out_lines) (simp add: view_streams(1) [OF assms(1)])
  obtain w1 r1 where files: "apply_hunks_to_files ops hs w = Some (w1, r1)"
    using assms(2) by (cases "apply_hunks_to_files ops hs w") (auto simp: apply_hunks_def)
  with assms(2) have out: "(w', r) = (case r1 of
         Inr affected \<Rightarrow> on_error io_error_of (print_summary ops affected w1)
       | Inl err \<Rightarrow>
           and_then (on_error io_error_of (write_stderr ops w1 (anyhow_message ops err @ newline)))
             (\<lambda>_ w. (w, Inl (hunks_error ops err))))"
    by (simp add: apply_hunks_def)
  have "view w1 f = view w f"
    using files assms(3) apply_each_hunk_frame [OF assms(1)]
    by (auto simp: apply_hunks_to_files_def split: if_splits)
  moreover have "view (fst (w', r)) f = view w1 f"
    unfolding out by (auto split: sum.split simp: stdout stderr intro!: view_and_then)
  ultimately show ?thesis by simp
qed

text \<open>C36: A patch changes no file it does not name: whether it succeeds, is rejected by the
  parser or fails half-way with an error, every file other than those its hunks add, delete,
  update or move to has the contents it had before.\<close>

theorem apply_patch_confined:
  assumes "file_laws ops entry view" and "apply_patch ops patch w = Some (w', r)"
    and "case parse_patch patch of Inl e \<Rightarrow> True
         | Inr args \<Rightarrow> (\<forall>h \<in> set (args_hunks args). f \<notin> touched_by entry h)"
  shows "view w' f = view w f"
proof (cases "parse_patch patch")
  case (Inl e)
  with assms(2) have out: "and_then (on_error io_error_of (write_stderr ops w (rejected_patch_message e)))
      (\<lambda>_ w. (w, Inl (ParseError e))) = (w', r)"
    by (simp add: apply_patch_def)
  have "view (fst (w', r)) f = view w f"
    unfolding out [symmetric] by (intro view_and_then) (simp_all add: view_streams [OF assms(1)])
  then show ?thesis by simp
next
  case (Inr args)
  with assms show ?thesis
    by (auto simp: apply_patch_def intro: apply_hunks_frame)
qed

section \<open>A successful patch\<close>

text \<open>What a hunk promises, from the contents before (\<open>v\<close>) and after (\<open>v'\<close>) the patch.\<close>

fun hunk_applied :: "(ustr \<Rightarrow> 'f) \<Rightarrow> ('f \<Rightarrow> ustr option) \<Rightarrow> ('f \<Rightarrow> ustr option) \<Rightarrow> hunk \<Rightarrow> bool" where
  "hunk_applied entry v v' (AddFile p contents) \<longleftrightarrow> v' (entry p) = Some contents"
| "hunk_applied entry v v' (DeleteFile p) \<longleftrightarrow> v' (entry p) = None"
| "hunk_applied entry v v' (UpdateFile p move_path chunks) \<longleftrightarrow>
     (\<exists>original new_contents. v (entry p) = Some original \<and>
        (patched_contents original p chunks :: (unit apply_patch_error + ustr) option) = Some (Inr new_contents) \<and>
        (case move_path of
           None \<Rightarrow> v' (entry p) = Some new_contents
         | Some dest \<Rightarrow> v' (entry dest) = Some new_contents \<and> v' (entry p) = None))"

text \<open>Hunks about different files; a move goes to another file.\<close>

fun hunks_separate :: "(ustr \<Rightarrow> 'f) \<Rightarrow> hunk list \<Rightarrow> bool" where
  "hunks_separate entry [] = True"
| "hunks_separate entry (h # hs) \<longleftrightarrow>
     (\<forall>h' \<in> set hs. touched_by entry h \<inter> touched_by entry h' = {}) \<and>
     (case h of UpdateFile p (Some dest) cs \<Rightarrow> entry dest \<noteq> entry p | _ \<Rightarrow> True) \<and>
     hunks_separate entry hs"

lemma hunk_applied_cong:
  assumes "\<forall>f \<in> touched_by entry h. v f = u f" and "\<forall>f \<in> touched_by entry h. v' f = u' f"
  shows "hunk_applied entry v v' h \<longleftrightarrow> hunk_applied entry u u' h"
  using assms by (cases h) (auto split: option.splits)

lemma collect_replacements_any_error:
  "(collect_replacements ls p chunks k :: 'a apply_patch_error + replacement list) = Inr rs \<longleftrightarrow>
   (collect_replacements ls p chunks k :: 'b apply_patch_error + replacement list) = Inr rs"
proof (induction chunks arbitrary: k rs)
  case (Cons chunk chunks)
  have ctx: "(locate_context ls p c k :: 'a apply_patch_error + nat) = Inr k' \<longleftrightarrow>
    (locate_context ls p c k :: 'b apply_patch_error + nat) = Inr k'" for c k'
    by (auto simp: locate_context_def split: option.splits)
  show ?case
    by (auto simp: bindE_eq_Inr_iff ctx Cons.IH split: option.splits)
qed simp

lemma patched_contents_any_error:
  assumes "(patched_contents original p chunks :: ('a apply_patch_error + ustr) option) = Some (Inr new)"
  shows "(patched_contents original p chunks :: ('b apply_patch_error + ustr) option) = Some (Inr new)"
proof -
  let ?ls = "original_lines_of original"
  have "\<exists>rs. (compute_replacements ?ls p chunks :: 'a apply_patch_error + replacement list) = Inr rs \<and>
      map_option (\<lambda>ls. Inr (finish_lines ls) :: 'a apply_patch_error + ustr) (apply_replacements ?ls rs) = Some (Inr new)"
    using assms by (auto simp: patched_contents_def split: sum.splits)
  then obtain rs where
    "(compute_replacements ?ls p chunks :: 'a apply_patch_error + replacement list) = Inr rs"
    and new: "\<exists>ls. apply_replacements ?ls rs = Some ls \<and> finish_lines ls = new" by auto
  then have "(compute_replacements ?ls p chunks :: 'b apply_patch_error + replacement list) = Inr rs"
    using collect_replacements_any_error
    by (auto simp: compute_replacements_def bindE_eq_Inr_iff) blast
  with new show ?thesis by (auto simp: patched_contents_def)
qed

lemma derive_InrD:
  assumes "file_laws ops entry view"
    and "derive_new_contents_from_chunks (ops :: ('e, 'w) world_ops) w p chunks = Some (Inr (original, new))"
  shows "view w (entry p) = Some original \<and>
    (patched_contents original p chunks :: (unit apply_patch_error + ustr) option) = Some (Inr new)"
proof (cases "read_to_string ops w p")
  case (Inr c)
  with assms(2) obtain r where
    "(patched_contents c p chunks :: ('e apply_patch_error + ustr) option) = Some r"
    "map_sum (\<lambda>e. e) (\<lambda>n. (c, n)) r = Inr (original, new)"
    by (auto simp: derive_new_contents_from_chunks_def)
  then have "c = original" "(patched_contents c p chunks :: ('e apply_patch_error + ustr) option) = Some (Inr new)"
    by (cases r; simp)+
  moreover have "view w (entry p) = Some c"
    using assms(1) Inr unfolding file_laws_def by blast
  ultimately show ?thesis
    using patched_contents_any_error by auto
qed (use assms(2) in \<open>simp add: derive_new_contents_from_chunks_def\<close>)

lemma and_then_Inr:
  assumes "and_then r k = (w', Inr y)"
  obtains a w where "r = (w, Inr a)" "k a w = (w', Inr y)"
  using assms by (cases r; cases "snd r") (auto simp: and_then_def)

lemma view_written:
  assumes "file_laws ops entry view" and "write_contents ops p c w = (w', Inr u)"
  shows "view w' (entry p) = Some c"
proof -
  from assms(2) have "write_file ops w p c = (w', Inr ())" by (simp add: write_contents_def on_error_Inr_iff)
  then show ?thesis using assms(1) unfolding file_laws_def by (metis fst_conv snd_conv)
qed

lemma view_removed:
  assumes "file_laws ops entry view" and "on_error g (remove_file ops w p) = (w', Inr u)"
  shows "view w' (entry p) = None"
proof -
  from assms(2) have "remove_file ops w p = (w', Inr ())" by (simp add: on_error_Inr_iff)
  then show ?thesis using assms(1) unfolding file_laws_def by (metis fst_conv snd_conv)
qed

lemma write_update_effect:
  assumes "file_laws ops entry view" and "write_update ops p mv new a w = (w', Inr a')"
  shows "case mv of
      None \<Rightarrow> view w' (entry p) = Some new
    | Some dest \<Rightarrow> view w' (entry p) = None \<and> (entry dest \<noteq> entry p \<longrightarrow> view w' (entry dest) = Some new)"
proof (cases mv)
  case None
  with assms(2) show ?thesis
    by (auto simp: write_update_def elim!: and_then_Inr dest: view_written [OF assms(1)])
next
  case (Some dest)
  with assms(2) obtain w1 w2 u v where
    w1: "write_contents ops dest new w1 = (w2, Inr u)"
    and w2: "on_error (WithContext (lit ''Failed to remove original '' @ p)) (remove_file ops w2 p) = (w', Inr v)"
    by (auto simp: write_update_def elim!: and_then_Inr)
  have "view w' (entry dest) = view w2 (entry dest)" if "entry dest \<noteq> entry p"
    using view_remove [OF assms(1) that, of w2] w2 by (metis fst_conv fst_on_error)
  with view_written [OF assms(1) w1] view_removed [OF assms(1) w2] Some show ?thesis by auto
qed

lemma apply_hunk_applied:
  assumes "file_laws ops entry view" and "apply_hunk ops h a w = Some (w', Inr a')"
    and "hunks_separate entry [h]"
  shows "hunk_applied entry (view w) (view w') h"
proof (cases h)
  case (AddFile p c)
  with assms(2) show ?thesis
    by (auto elim!: and_then_Inr dest: view_written [OF assms(1)])
next
  case (DeleteFile p)
  with assms(2) show ?thesis
    by (auto elim!: and_then_Inr dest: view_removed [OF assms(1)])
next
  case (UpdateFile p mv chunks)
  then obtain original new where
    d: "derive_new_contents_from_chunks ops w p chunks = Some (Inr (original, new))"
    and upd: "write_update ops p mv new a w = (w', Inr a')"
    using assms(2)
    by (cases "derive_new_contents_from_chunks ops w p chunks"; cases "the (derive_new_contents_from_chunks ops w p chunks)")
      auto
  from derive_InrD [OF assms(1) d] write_update_effect [OF assms(1) upd] UpdateFile assms(3)
  show ?thesis by (auto split: option.splits)
qed

lemma apply_each_hunk_applied:
  assumes "file_laws ops entry view"
  shows "apply_each_hunk ops hs a w = Some (w', Inr a') \<Longrightarrow> hunks_separate entry hs \<Longrightarrow> h \<in> set hs \<Longrightarrow>
    hunk_applied entry (view w) (view w') h"
proof (induction hs arbitrary: a w)
  case (Cons h0 hs)
  then obtain w1 a1 where first: "apply_hunk ops h0 a w = Some (w1, Inr a1)"
    and rest: "apply_each_hunk ops hs a1 w1 = Some (w', Inr a')"
    by (auto split: option.splits sum.splits prod.splits)
  show ?case
  proof (cases "h = h0")
    case True
    have "hunk_applied entry (view w) (view w1) h0"
      using apply_hunk_applied [OF assms first] Cons.prems(2) by simp
    moreover have "\<forall>f \<in> touched_by entry h0. view w' f = view w1 f"
      using apply_each_hunk_frame [OF assms rest] Cons.prems(2) by auto
    ultimately show ?thesis
      using True hunk_applied_cong [of entry h0 "view w" "view w" "view w1" "view w'"] by auto
  next
    case False
    with Cons.prems have h: "h \<in> set hs" by simp
    have "hunk_applied entry (view w1) (view w') h"
      using Cons.IH [OF rest _ h] Cons.prems(2) by simp
    moreover have "\<forall>f \<in> touched_by entry h. view w1 f = view w f"
      using apply_hunk_frame [OF assms first] Cons.prems(2) h by auto
    ultimately show ?thesis
      using hunk_applied_cong [of entry h "view w1" "view w" "view w'" "view w'"] by auto
  qed
qed simp

text \<open>C16: A patch whose hunks are about different files does what it says when it succeeds:
  each added file has its contents, each deleted file is gone, and each updated file, or the
  destination of its move, has the contents derived from its original, the original of a move
  being gone.\<close>

theorem apply_patch_effect:
  assumes "file_laws ops entry view" and "parse_patch patch = Inr args"
    and "hunks_separate entry (args_hunks args)"
    and "apply_patch ops patch w = Some (w', Inr ())"
    and "h \<in> set (args_hunks args)"
  shows "hunk_applied entry (view w) (view w') h"
proof -
  from assms(2,4) have hunks: "apply_hunks ops (args_hunks args) w = Some (w', Inr ())"
    by (simp add: apply_patch_def)
  then obtain w1 r1 where "apply_hunks_to_files ops (args_hunks args) w = Some (w1, r1)"
    by (cases "apply_hunks_to_files ops (args_hunks args) w") (auto simp: apply_hunks_def)
  moreover from this hunks obtain affected where "r1 = Inr affected"
    and summary: "print_summary ops affected w1 = (w', Inr ())"
    by (cases r1) (auto simp: apply_hunks_def on_error_Inr_iff elim!: and_then_Inr)
  ultimately have files: "apply_each_hunk ops (args_hunks args) nothing_affected w = Some (w1, Inr affected)"
    by (auto simp: apply_hunks_to_files_def split: if_splits)
  have "view w' f = view w1 f" for f
  proof -
    have "view (fst (print_summary ops affected w1)) f = view w1 f"
      unfolding print_summary_def by (rule view_write_out_lines) (simp add: view_streams(1) [OF assms(1)])
    then show ?thesis using summary by simp
  qed
  then have "view w' = view w1" by blast
  with apply_each_hunk_applied [OF assms(1) files assms(3,5)] show ?thesis by simp
qed

text \<open>Moving a file to itself deletes it: the new contents are written and then removed, and the
  file is reported as modified.\<close>

lemma move_to_itself_deletes:
  assumes "file_laws ops entry view" and "entry dest = entry p"
    and "apply_hunk ops (UpdateFile p (Some dest) chunks) a w = Some (w', Inr a')"
  shows "view w' (entry p) = None"
proof (cases "derive_new_contents_from_chunks ops w p chunks")
  case (Some z)
  with assms(3) obtain new where "write_update ops p (Some dest) new a w = (w', Inr a')"
    by (cases z) auto
  from write_update_effect [OF assms(1) this] show ?thesis by simp
qed (use assms(3) in simp)

section \<open>An instance\<close>

definition map_ops :: "(unit, ustr \<Rightarrow> ustr option) world_ops" where
  "map_ops =
     \<lparr>read_to_string = (\<lambda>w p. case w p of None \<Rightarrow> Inl () | Some c \<Rightarrow> Inr c),
      write_file = (\<lambda>w p c. (w(p \<mapsto> c), Inr ())),
      remove_file = (\<lambda>w p. if w p = None then (w, Inl ()) else (w(p := None), Inr ())),
      create_dir_all = (\<lambda>w d. (w, Inr ())),
      write_stdout = (\<lambda>w t. (w, Inr ())), write_stderr = (\<lambda>w t. (w, Inr ())),
      io_message = (\<lambda>e. [])\<rparr>"

lemma map_ops_laws: "file_laws map_ops (\<lambda>p. p) (\<lambda>w. w)"
  by (auto simp: file_laws_def map_ops_def split: option.splits)

definition small_doc :: "hunk_doc list" where
  "small_doc = [AddDoc (lit ''a'') [lit ''x''], DeleteDoc (lit ''b'')]"

definition small_patch :: ustr where
  "small_patch = join_with newline (patch_lines small_doc)"

lemma small_patch_parsed:
  "parse_patch small_patch =
     Inr \<lparr>args_patch = small_patch,
          args_hunks = [AddFile (lit ''a'') (lit ''x'' @ newline), DeleteFile (lit ''b'')],
          args_workdir = None\<rparr>"
proof -
  have "list_all hunk_doc_ok small_doc"
    by (simp add: small_doc_def path_ok_def one_line_def lit_def is_whitespace_def ends_with_def)
  from parse_patch_lines [OF this] show ?thesis
    by (simp add: small_patch_def small_doc_def)
qed

lemma small_patch_applied:
  "apply_patch map_ops small_patch [lit ''b'' \<mapsto> [], lit ''c'' \<mapsto> []] =
     Some ([lit ''a'' \<mapsto> lit ''x'' @ newline, lit ''c'' \<mapsto> []], Inr ())"
proof -
  have "parent (components (lit ''a'')) = Some []"
    by (simp add: parent_def components_def segment_component_def is_absolute_def Let_def str_ops)
  then show ?thesis
    by (simp add: apply_patch_def small_patch_parsed apply_hunks_def apply_hunks_to_files_def
        create_parents_def write_contents_def and_then_def on_error_def map_ops_def print_summary_def
        nothing_affected_def fun_eq_iff)
qed

theorem apply_patch_confined_witness:
  "(case apply_patch map_ops small_patch [lit ''b'' \<mapsto> [], lit ''c'' \<mapsto> []] of
      Some (w, r) \<Rightarrow> w (lit ''c'') = Some []
    | None \<Rightarrow> False)"
proof -
  have "[lit ''a'' \<mapsto> lit ''x'' @ newline, lit ''c'' \<mapsto> []] (lit ''c'') =
      [lit ''b'' \<mapsto> [], lit ''c'' \<mapsto> []] (lit ''c'')"
    by (rule apply_patch_confined [OF map_ops_laws small_patch_applied]) (simp add: small_patch_parsed)
  then show ?thesis by (simp add: small_patch_applied)
qed

theorem apply_patch_effect_witness:
  "hunk_applied (\<lambda>p. p) [lit ''b'' \<mapsto> [], lit ''c'' \<mapsto> []]
     [lit ''a'' \<mapsto> lit ''x'' @ newline, lit ''c'' \<mapsto> []] (DeleteFile (lit ''b''))"
  by (rule apply_patch_effect [OF map_ops_laws small_patch_parsed _ small_patch_applied]) simp_all

end
