(* ===== verification/PatchInvocation.thy ===== *)
theory PatchInvocation
  imports ApplyPatch ExecApproval
begin

text \<open>
  Recognising a patch in a command and deciding what to do with it
  (\<open>apply-patch/src/invocation.rs\<close> and \<open>core/src/apply_patch.rs\<close>). The tree-sitter query that
  finds the heredoc of a shell script is the parameter \<open>bash_query\<close>: it gives the matches of
  the query, each a list of captures (name, and text or the UTF-8 error), or the error of
  loading the grammar or parsing. The diff printer is the parameter \<open>text_diff\<close>.
\<close>

section \<open>Recognising an invocation\<close>

definition apply_patch_commands :: "ustr list" where
  "apply_patch_commands = [lit ''apply_patch'', lit ''applypatch'']"

datatype apply_patch_shell = Unix | PowerShell | Cmd

datatype extract_heredoc_error =
    CommandDidNotStartWithApplyPatch
  | FailedToLoadBashGrammar ustr
  | HeredocNotUtf8 ustr
  | FailedToParsePatchIntoAst
  | FailedToFindHeredocBody

datatype maybe_apply_patch =
    Body apply_patch_args
  | ShellParseError extract_heredoc_error
  | PatchParseError parse_error
  | NotApplyPatch

type_synonym captures = "(ustr \<times> (ustr + ustr)) list"

definition eq_ignore_ascii_case :: "ustr \<Rightarrow> ustr \<Rightarrow> bool" where
  "eq_ignore_ascii_case a b \<longleftrightarrow> to_ascii_lowercase a = to_ascii_lowercase b"

definition classify_shell_name :: "ustr \<Rightarrow> ustr option" where
  "classify_shell_name shell = map_option to_ascii_lowercase (file_stem shell)"

definition classify_shell :: "ustr \<Rightarrow> ustr \<Rightarrow> apply_patch_shell option" where
  "classify_shell shell flag =
     Option.bind (classify_shell_name shell) (\<lambda>name.
       if (name = lit ''bash'' \<or> name = lit ''zsh'' \<or> name = lit ''sh'') \<and>
          (flag = lit ''-lc'' \<or> flag = lit ''-c'') then Some Unix
       else if (name = lit ''pwsh'' \<or> name = lit ''powershell'') \<and>
          eq_ignore_ascii_case flag (lit ''-command'') then Some PowerShell
       else if name = lit ''cmd'' \<and> eq_ignore_ascii_case flag (lit ''/c'') then Some Cmd
       else None)"

definition can_skip_flag :: "ustr \<Rightarrow> ustr \<Rightarrow> bool" where
  "can_skip_flag shell flag =
     (case classify_shell_name shell of
        None \<Rightarrow> False
      | Some name \<Rightarrow>
          (name = lit ''pwsh'' \<or> name = lit ''powershell'') \<and>
          eq_ignore_ascii_case flag (lit ''-noprofile''))"

definition parse_shell_script :: "ustr list \<Rightarrow> (apply_patch_shell \<times> ustr) option" where
  "parse_shell_script argv =
     (case argv of
        [shell, flag, script] \<Rightarrow> map_option (\<lambda>t. (t, script)) (classify_shell shell flag)
      | [shell, skip_flag, flag, script] \<Rightarrow>
          if can_skip_flag shell skip_flag
          then map_option (\<lambda>t. (t, script)) (classify_shell shell flag) else None
      | _ \<Rightarrow> None)"

text \<open>The captures of one match: the heredoc text and the \<open>cd\<close> path.\<close>

fun read_captures ::
  "captures \<Rightarrow> ustr option \<Rightarrow> ustr option \<Rightarrow> extract_heredoc_error + (ustr option \<times> ustr option)" where
  "read_captures [] heredoc_text cd_path = Inr (heredoc_text, cd_path)"
| "read_captures ((name, text) # cs) heredoc_text cd_path =
     (if name = lit ''heredoc'' then
        bindE (map_errE HeredocNotUtf8 text) (\<lambda>t.
          read_captures cs (Some (trim_end_by (\<lambda>c. c = 10) t)) cd_path)
      else if name = lit ''cd_path'' then
        bindE (map_errE HeredocNotUtf8 text) (\<lambda>t. read_captures cs heredoc_text (Some t))
      else if name = lit ''cd_raw_string'' then
        bindE (map_errE HeredocNotUtf8 text) (\<lambda>raw.
          let trimmed = (case Option.bind (strip_prefix raw [39]) (\<lambda>s. strip_suffix s [39]) of
                           Some s \<Rightarrow> s | None \<Rightarrow> raw)
          in read_captures cs heredoc_text (Some trimmed))
      else read_captures cs heredoc_text cd_path)"

fun first_heredoc :: "captures list \<Rightarrow> extract_heredoc_error + (ustr \<times> ustr option)" where
  "first_heredoc [] = Inl CommandDidNotStartWithApplyPatch"
| "first_heredoc (m # ms) =
     bindE (read_captures m None None) (\<lambda>(heredoc_text, cd_path).
       case heredoc_text of Some heredoc \<Rightarrow> Inr (heredoc, cd_path) | None \<Rightarrow> first_heredoc ms)"

definition extract_apply_patch_from_bash ::
  "(ustr \<Rightarrow> extract_heredoc_error + captures list) \<Rightarrow> ustr
    \<Rightarrow> extract_heredoc_error + (ustr \<times> ustr option)" where
  "extract_apply_patch_from_bash bash_query src = bindE (bash_query src) first_heredoc"

definition extract_apply_patch_from_shell ::
  "(ustr \<Rightarrow> extract_heredoc_error + captures list) \<Rightarrow> apply_patch_shell \<Rightarrow> ustr
    \<Rightarrow> extract_heredoc_error + (ustr \<times> ustr option)" where
  "extract_apply_patch_from_shell bash_query shell script =
     (case shell of
        Unix \<Rightarrow> extract_apply_patch_from_bash bash_query script
      | PowerShell \<Rightarrow> extract_apply_patch_from_bash bash_query script
      | Cmd \<Rightarrow> extract_apply_patch_from_bash bash_query script)"

definition parse_shell_patch ::
  "(ustr \<Rightarrow> extract_heredoc_error + captures list) \<Rightarrow> ustr list \<Rightarrow> maybe_apply_patch" where
  "parse_shell_patch bash_query argv =
     (case parse_shell_script argv of
        Some (shell, script) \<Rightarrow>
          (case extract_apply_patch_from_shell bash_query shell script of
             Inr (body, workdir) \<Rightarrow>
               (case parse_patch body of
                  Inr source \<Rightarrow> Body (source\<lparr>args_workdir := workdir\<rparr>)
                | Inl e \<Rightarrow> PatchParseError e)
           | Inl e \<Rightarrow> if e = CommandDidNotStartWithApplyPatch then NotApplyPatch else ShellParseError e)
      | None \<Rightarrow> NotApplyPatch)"

definition maybe_parse_apply_patch ::
  "(ustr \<Rightarrow> extract_heredoc_error + captures list) \<Rightarrow> ustr list \<Rightarrow> maybe_apply_patch" where
  "maybe_parse_apply_patch bash_query argv =
     (case argv of
        [cmd, body] \<Rightarrow>
          if cmd \<in> set apply_patch_commands then
            (case parse_patch body of Inr source \<Rightarrow> Body source | Inl e \<Rightarrow> PatchParseError e)
          else parse_shell_patch bash_query argv
      | _ \<Rightarrow> parse_shell_patch bash_query argv)"

section \<open>Verifying the patch\<close>

text \<open>The change map is a \<open>HashMap<PathBuf, _>\<close>: its keys are compared by components, and
  inserting at a present key replaces the value and keeps the key.\<close>

type_synonym changes = "(ustr \<times> file_change) list"

fun changes_insert :: "ustr \<Rightarrow> file_change \<Rightarrow> changes \<Rightarrow> changes" where
  "changes_insert p c [] = [(p, c)]"
| "changes_insert p c ((q, d) # rest) =
     (if components q = components p then (q, c) # rest else (q, d) # changes_insert p c rest)"

record apply_patch_action =
  action_changes :: changes
  action_patch :: ustr
  action_cwd :: ustr

datatype 'e maybe_apply_patch_verified =
    VerifiedBody apply_patch_action
  | VerifiedShellParseError extract_heredoc_error
  | CorrectnessError "'e apply_patch_error"
  | VerifiedNotApplyPatch

fun hunk_path :: "hunk \<Rightarrow> ustr" where
  "hunk_path (AddFile p _) = p"
| "hunk_path (DeleteFile p) = p"
| "hunk_path (UpdateFile p _ _) = p"

definition hunk_resolve_path :: "hunk \<Rightarrow> ustr \<Rightarrow> ustr" where
  "hunk_resolve_path h cwd = join cwd (hunk_path h)"

definition unified_diff_from_chunks ::
  "('e, 'w) world_ops \<Rightarrow> (ustr \<Rightarrow> ustr \<Rightarrow> nat \<Rightarrow> ustr) \<Rightarrow> 'w \<Rightarrow> ustr \<Rightarrow> update_file_chunk list
    \<Rightarrow> ('e apply_patch_error + ustr \<times> ustr) option" where
  "unified_diff_from_chunks ops text_diff w p chunks =
     map_option (map_sum (\<lambda>e. e) (\<lambda>(original_contents, new_contents).
         (text_diff original_contents new_contents 1, new_contents)))
       (derive_new_contents_from_chunks ops w p chunks)"

definition hunk_change ::
  "('e, 'w) world_ops \<Rightarrow> (ustr \<Rightarrow> ustr \<Rightarrow> nat \<Rightarrow> ustr) \<Rightarrow> 'w \<Rightarrow> ustr \<Rightarrow> hunk
    \<Rightarrow> ('e apply_patch_error + file_change) option" where
  "hunk_change ops text_diff w cwd h =
     (let p = hunk_resolve_path h cwd
      in case h of
           AddFile _ contents \<Rightarrow> Some (Inr (Add contents))
         | DeleteFile _ \<Rightarrow>
             Some (case read_to_string ops w p of
                Inr content \<Rightarrow> Inr (Delete content)
              | Inl e \<Rightarrow> Inl (IoError (lit ''Failed to read '' @ p) (Os e)))
         | UpdateFile _ mv chunks \<Rightarrow>
             map_option (map_sum (\<lambda>e. e) (\<lambda>(diff, contents).
                 Update diff (map_option (join cwd) mv) contents))
               (unified_diff_from_chunks ops text_diff w p chunks))"

fun verify_hunks ::
  "('e, 'w) world_ops \<Rightarrow> (ustr \<Rightarrow> ustr \<Rightarrow> nat \<Rightarrow> ustr) \<Rightarrow> 'w \<Rightarrow> ustr \<Rightarrow> hunk list \<Rightarrow> changes
    \<Rightarrow> ('e apply_patch_error + changes) option" where
  "verify_hunks ops text_diff w cwd [] cs = Some (Inr cs)"
| "verify_hunks ops text_diff w cwd (h # hs) cs =
     (case hunk_change ops text_diff w cwd h of
        None \<Rightarrow> None
      | Some (Inl e) \<Rightarrow> Some (Inl e)
      | Some (Inr c) \<Rightarrow>
          verify_hunks ops text_diff w cwd hs (changes_insert (hunk_resolve_path h cwd) c cs))"

definition effective_cwd :: "ustr \<Rightarrow> ustr option \<Rightarrow> ustr" where
  "effective_cwd cwd workdir =
     (case workdir of None \<Rightarrow> cwd | Some dir \<Rightarrow> if is_absolute dir then dir else join cwd dir)"

definition raw_patch_body :: "ustr list \<Rightarrow> bool" where
  "raw_patch_body argv =
     ((case argv of [body] \<Rightarrow> is_ok (parse_patch body) | _ \<Rightarrow> False) \<or>
      (case parse_shell_script argv of Some (_, script) \<Rightarrow> is_ok (parse_patch script) | None \<Rightarrow> False))"

definition maybe_parse_apply_patch_verified ::
  "(ustr \<Rightarrow> extract_heredoc_error + captures list) \<Rightarrow> (ustr \<Rightarrow> ustr \<Rightarrow> nat \<Rightarrow> ustr) \<Rightarrow>
   ('e, 'w) world_ops \<Rightarrow> 'w \<Rightarrow> ustr list \<Rightarrow> ustr \<Rightarrow> 'e maybe_apply_patch_verified option" where
  "maybe_parse_apply_patch_verified bash_query text_diff ops w argv cwd =
     (if raw_patch_body argv then Some (CorrectnessError ImplicitInvocation)
      else case maybe_parse_apply_patch bash_query argv of
          Body args \<Rightarrow>
            map_option (\<lambda>r. case r of
                Inl e \<Rightarrow> CorrectnessError e
              | Inr cs \<Rightarrow> VerifiedBody \<lparr>action_changes = cs, action_patch = args_patch args,
                                    action_cwd = effective_cwd cwd (args_workdir args)\<rparr>)
              (verify_hunks ops text_diff w (effective_cwd cwd (args_workdir args)) (args_hunks args) [])
        | ShellParseError e \<Rightarrow> Some (VerifiedShellParseError e)
        | PatchParseError e \<Rightarrow> Some (CorrectnessError (ParseError e))
        | NotApplyPatch \<Rightarrow> Some VerifiedNotApplyPatch)"

section \<open>Deciding on the patch\<close>

datatype apply_patch_invocation =
    Output ustr
  | DelegateToExec apply_patch_action bool exec_approval_requirement

fun requirement_of_safety :: "apply_patch_action \<Rightarrow> safety_check \<Rightarrow> apply_patch_invocation" where
  "requirement_of_safety action (AutoApprove _ user_approved) =
     DelegateToExec action (\<not> user_approved) (Skip False None)"
| "requirement_of_safety action AskUser = DelegateToExec action False (NeedsApproval None None)"
| "requirement_of_safety action (Reject reason) = Output (lit ''patch rejected: '' @ reason)"

definition core_apply_patch ::
  "('e, 'z) path_env_scheme \<Rightarrow> apply_patch_action \<Rightarrow> ask_for_approval \<Rightarrow> sandbox_policy \<Rightarrow> ustr \<Rightarrow> bool
    \<Rightarrow> apply_patch_invocation option" where
  "core_apply_patch env action approval sandbox cwd windows_sandbox_enabled =
     map_option (requirement_of_safety action)
       (assess_patch_safety env (action_changes action) approval sandbox cwd windows_sandbox_enabled)"

datatype protocol_file_change =
    ProtocolAdd ustr
  | ProtocolDelete ustr
  | ProtocolUpdate ustr "ustr option"

fun protocol_change :: "file_change \<Rightarrow> protocol_file_change" where
  "protocol_change (Add content) = ProtocolAdd content"
| "protocol_change (Delete content) = ProtocolDelete content"
| "protocol_change (Update diff mv _) = ProtocolUpdate diff mv"

definition convert_apply_patch_to_protocol ::
  "apply_patch_action \<Rightarrow> (ustr \<times> protocol_file_change) list" where
  "convert_apply_patch_to_protocol action =
     map (\<lambda>(p, c). (p, protocol_change c)) (action_changes action)"

section \<open>The change map covers the patch\<close>

lemma is_absolute_join: "is_absolute base \<Longrightarrow> is_absolute (join base p)"
  by (cases base) (auto simp: join_def is_absolute_def starts_with_def slash_def)

lemma is_absolute_effective_cwd: "is_absolute cwd \<Longrightarrow> is_absolute (effective_cwd cwd workdir)"
  by (auto simp: effective_cwd_def is_absolute_join split: option.split)

definition keys_distinct :: "changes \<Rightarrow> bool" where
  "keys_distinct cs \<longleftrightarrow> distinct (map (\<lambda>(p, c). components p) cs)"

lemma changes_insert_keys:
  "(\<lambda>(p, c). components p) ` set (changes_insert p c cs) =
   insert (components p) ((\<lambda>(p, c). components p) ` set cs)"
  by (induction p c cs rule: changes_insert.induct) auto

lemma changes_insert_distinct: "keys_distinct cs \<Longrightarrow> keys_distinct (changes_insert p c cs)"
proof (induction p c cs rule: changes_insert.induct)
  case (2 p c q d rest)
  then show ?case
    using changes_insert_keys [of p c rest] by (auto simp: keys_distinct_def)
qed (simp add: keys_distinct_def)

text \<open>Every entry stands at a key of one of the hunks; the entry of a hunk's path is there, and
  is the hunk's own change unless a later hunk is about the same path.\<close>

lemma changes_insert_fresh:
  "components p \<notin> (\<lambda>(p, c). components p) ` set cs \<Longrightarrow> changes_insert p c cs = cs @ [(p, c)]"
  by (induction p c cs rule: changes_insert.induct) auto

lemma changes_insert_subset:
  "(q, d) \<in> set (changes_insert p c cs) \<Longrightarrow> q = p \<or> q \<in> fst ` set cs"
proof (induction p c cs rule: changes_insert.induct)
  case (2 p c q' d' rest)
  then show ?case by (force split: if_splits)
qed simp

lemma verify_hunks_keys:
  "verify_hunks ops text_diff w cwd hs cs = Some (Inr cs') \<Longrightarrow> keys_distinct cs \<Longrightarrow>
   keys_distinct cs' \<and>
   (\<lambda>(p, c). components p) ` set cs' =
     (\<lambda>(p, c). components p) ` set cs \<union> (\<lambda>h. components (hunk_resolve_path h cwd)) ` set hs \<and>
   fst ` set cs' \<subseteq> fst ` set cs \<union> (\<lambda>h. hunk_resolve_path h cwd) ` set hs"
proof (induction hs arbitrary: cs)
  case (Cons h hs)
  then obtain c where c: "hunk_change ops text_diff w cwd h = Some (Inr c)"
    "verify_hunks ops text_diff w cwd hs (changes_insert (hunk_resolve_path h cwd) c cs) = Some (Inr cs')"
    by (auto split: option.splits sum.splits)
  let ?cs = "changes_insert (hunk_resolve_path h cwd) c cs"
  have sub: "fst ` set ?cs \<subseteq> insert (hunk_resolve_path h cwd) (fst ` set cs)"
    using changes_insert_subset by fastforce
  have IH: "keys_distinct cs'"
    "(\<lambda>(p, c). components p) ` set cs' =
       (\<lambda>(p, c). components p) ` set ?cs \<union> (\<lambda>h. components (hunk_resolve_path h cwd)) ` set hs"
    "fst ` set cs' \<subseteq> fst ` set ?cs \<union> (\<lambda>h. hunk_resolve_path h cwd) ` set hs"
    using Cons.IH [OF c(2) changes_insert_distinct [OF Cons.prems(2)]] by (simp_all only:)
  have "fst ` set cs' \<subseteq> fst ` set cs \<union> (\<lambda>h. hunk_resolve_path h cwd) ` set (h # hs)"
    unfolding list.set image_insert using order_trans [OF IH(3) Un_mono [OF sub order_refl]] by blast
  with IH show ?case
    unfolding changes_insert_keys by (simp add: insert_commute)
qed simp

lemma verify_hunks_distinct:
  "verify_hunks ops text_diff w cwd hs cs = Some (Inr cs') \<Longrightarrow>
   distinct (map (\<lambda>h. components (hunk_resolve_path h cwd)) hs) \<Longrightarrow>
   \<forall>h \<in> set hs. components (hunk_resolve_path h cwd) \<notin> (\<lambda>(p, c). components p) ` set cs \<Longrightarrow>
   \<exists>news. cs' = cs @ news \<and>
     list_all2 (\<lambda>h (p, c). p = hunk_resolve_path h cwd \<and> hunk_change ops text_diff w cwd h = Some (Inr c)) hs news"
proof (induction hs arbitrary: cs)
  case (Cons h hs)
  then obtain c where c: "hunk_change ops text_diff w cwd h = Some (Inr c)"
    "verify_hunks ops text_diff w cwd hs (changes_insert (hunk_resolve_path h cwd) c cs) = Some (Inr cs')"
    by (auto split: option.splits sum.splits)
  have ins: "changes_insert (hunk_resolve_path h cwd) c cs = cs @ [(hunk_resolve_path h cwd, c)]"
    using Cons.prems(3) by (intro changes_insert_fresh) simp
  from Cons.prems have "\<exists>news. cs' = (cs @ [(hunk_resolve_path h cwd, c)]) @ news \<and>
     list_all2 (\<lambda>h (p, c). p = hunk_resolve_path h cwd \<and> hunk_change ops text_diff w cwd h = Some (Inr c)) hs news"
    using c(2) unfolding ins by (intro Cons.IH) (auto, metis image_eqI)
  then show ?case using c(1) by auto
qed simp

lemma verified_body_D:
  assumes "maybe_parse_apply_patch_verified bash_query text_diff ops w argv cwd = Some (VerifiedBody action)"
  shows "\<exists>args. maybe_parse_apply_patch bash_query argv = Body args \<and>
    action_patch action = args_patch args \<and> action_cwd action = effective_cwd cwd (args_workdir args) \<and>
    verify_hunks ops text_diff w (action_cwd action) (args_hunks args) [] = Some (Inr (action_changes action)) \<and>
    \<not> raw_patch_body argv"
proof (cases "maybe_parse_apply_patch bash_query argv")
  case (Body args)
  show ?thesis
  proof (cases "verify_hunks ops text_diff w (effective_cwd cwd (args_workdir args)) (args_hunks args) []")
    case (Some z)
    with assms Body show ?thesis
      by (cases z) (auto simp: maybe_parse_apply_patch_verified_def split: if_splits)
  qed (use assms Body in \<open>simp add: maybe_parse_apply_patch_verified_def split: if_splits\<close>)
qed (use assms in \<open>simp_all add: maybe_parse_apply_patch_verified_def split: if_splits\<close>)

text \<open>The change map that the safety check and the user see is about the paths of the patch:
  every hunk's path, resolved against the directory the patch runs in, has an entry, there is
  one entry per path, and every key is an absolute path of a hunk.\<close>

theorem verified_action_covers_patch:
  assumes "maybe_parse_apply_patch_verified bash_query text_diff ops w argv cwd = Some (VerifiedBody action)"
    and "is_absolute cwd"
  shows "\<exists>args. maybe_parse_apply_patch bash_query argv = Body args \<and>
    action_patch action = args_patch args \<and> keys_distinct (action_changes action) \<and>
    (\<lambda>(p, c). components p) ` set (action_changes action) =
      (\<lambda>h. components (hunk_resolve_path h (action_cwd action))) ` set (args_hunks args) \<and>
    (\<forall>p \<in> fst ` set (action_changes action). is_absolute p \<and>
       (\<exists>h \<in> set (args_hunks args). p = hunk_resolve_path h (action_cwd action)))"
proof -
  from verified_body_D [OF assms(1)] obtain args where
    args: "maybe_parse_apply_patch bash_query argv = Body args" "action_patch action = args_patch args"
      "action_cwd action = effective_cwd cwd (args_workdir args)"
    and verify: "verify_hunks ops text_diff w (action_cwd action) (args_hunks args) [] =
      Some (Inr (action_changes action))"
    by blast
  have "keys_distinct []" by (simp add: keys_distinct_def)
  from verify_hunks_keys [OF verify this] have keys: "keys_distinct (action_changes action)"
    "(\<lambda>(p, c). components p) ` set (action_changes action) =
      (\<lambda>h. components (hunk_resolve_path h (action_cwd action))) ` set (args_hunks args)"
    "fst ` set (action_changes action) \<subseteq>
      (\<lambda>h. hunk_resolve_path h (action_cwd action)) ` set (args_hunks args)"
    by simp_all
  have "is_absolute (hunk_resolve_path h (action_cwd action))" for h
    unfolding hunk_resolve_path_def args(3)
    using assms(2) by (intro is_absolute_join is_absolute_effective_cwd)
  then have "is_absolute p \<and> (\<exists>h \<in> set (args_hunks args). p = hunk_resolve_path h (action_cwd action))"
    if "p \<in> fst ` set (action_changes action)" for p
    using subsetD [OF keys(3) that] by auto
  with args(1,2) keys(1,2) show ?thesis by (intro exI [of _ args] conjI ballI) simp_all
qed

lemma hunk_change_touched:
  "hunk_change (ops :: ('e, 'w) world_ops) text_diff w cwd h = Some (Inr c) \<Longrightarrow>
   touched_paths (hunk_resolve_path h cwd, c) = touched_by (join cwd) h"
proof (cases h)
  case (UpdateFile p mv chunks)
  assume "hunk_change ops text_diff w cwd h = Some (Inr c)"
  with UpdateFile obtain z :: "'e apply_patch_error + ustr \<times> ustr" where
    "map_sum (\<lambda>e. e) (\<lambda>(diff, contents). Update diff (map_option (join cwd) mv) contents) z = Inr c"
    by (auto simp: hunk_change_def)
  then show ?thesis
    using UpdateFile by (cases z) (auto simp: hunk_resolve_path_def)
qed (auto simp: hunk_change_def hunk_resolve_path_def Let_def split: sum.splits)

lemma auto_approved_writable:
  assumes "core_apply_patch env action approval (WorkspaceWrite a b c d e) cwd win =
      Some (DelegateToExec action' True req)"
    and "approval \<noteq> OnFailure"
  shows "req = Skip False None \<and>
    (\<exists>roots. get_writable_roots_with_cwd env (WorkspaceWrite a b c d e) cwd = Some roots \<and>
      (\<forall>change \<in> set (action_changes action). \<forall>q \<in> touched_paths change. patch_path_writable roots cwd q))"
proof -
  from assms(1) obtain check where
    check: "assess_patch_safety env (action_changes action) approval (WorkspaceWrite a b c d e) cwd win = Some check"
    "requirement_of_safety action check = DelegateToExec action' True req"
    by (auto simp: core_apply_patch_def)
  then obtain s where "check = AutoApprove s False" "req = Skip False None"
    by (cases check) auto
  with check(1) assms(2) show ?thesis
    by (auto simp: assess_patch_safety_def bind_eq_Some_conv list_all_iff change_writable_iff
        split: if_splits option.splits simp del: get_writable_roots_with_cwd.simps)
qed

text \<open>C3: End to end, for a patch whose hunks are about different paths: if it is approved
  without asking under a workspace-write policy (and an approval policy other than on-failure),
  then every file the patch adds, deletes, updates or moves to, resolved in the directory it
  runs in, is writable under the policy, and the execution it is delegated to keeps the
  sandbox.\<close>

theorem auto_approved_patch_stays_writable:
  assumes "maybe_parse_apply_patch_verified bash_query text_diff ops w argv cwd = Some (VerifiedBody action)"
    and "core_apply_patch env action approval (WorkspaceWrite configured access net no_tmpdir no_slash_tmp) cwd win =
      Some (DelegateToExec action' True req)"
    and "approval \<noteq> OnFailure"
    and "maybe_parse_apply_patch bash_query argv = Body args"
    and "distinct (map (\<lambda>h. components (hunk_resolve_path h (action_cwd action))) (args_hunks args))"
  shows "req = Skip False None \<and>
    (\<exists>roots. get_writable_roots_with_cwd env (WorkspaceWrite configured access net no_tmpdir no_slash_tmp) cwd = Some roots \<and>
      (\<forall>h \<in> set (args_hunks args). \<forall>q \<in> touched_by (join (action_cwd action)) h. patch_path_writable roots cwd q))"
proof -
  from verified_body_D [OF assms(1)] assms(4) have
    "verify_hunks ops text_diff w (action_cwd action) (args_hunks args) [] = Some (Inr (action_changes action))"
    by auto
  then have "list_all2 (\<lambda>h (p, c). p = hunk_resolve_path h (action_cwd action) \<and>
      hunk_change ops text_diff w (action_cwd action) h = Some (Inr c)) (args_hunks args) (action_changes action)"
    using verify_hunks_distinct [OF _ assms(5)] by fastforce
  then have "\<exists>change \<in> set (action_changes action). touched_paths change = touched_by (join (action_cwd action)) h"
    if "h \<in> set (args_hunks args)" for h
    using that by (induction rule: list_all2_induct) (auto dest: hunk_change_touched)
  with auto_approved_writable [OF assms(2,3)] show ?thesis
    by (metis (no_types, lifting))
qed

text \<open>Without distinct paths it fails: a later hunk about the same path replaces the entry of an
  earlier one, and with it the destination the earlier one moves the file to.\<close>

lemma later_hunk_hides_move:
  "verify_hunks (quiet_ops [97, 10]) (\<lambda>old new n. []) w (lit ''/w'')
     [UpdateFile (lit ''f'') (Some (lit ''/outside''))
        [\<lparr>change_context = None, old_lines = [], new_lines = [], is_end_of_file = False\<rparr>],
      AddFile (lit ''f'') []] [] =
   Some (Inr [(lit ''/w/f'', Add [])])"
proof -
  have "lit ''/w'' \<noteq> []" "last (lit ''/w'') \<noteq> slash" "\<not> is_absolute (lit ''f'')"
    by (simp_all add: lit_def slash_def is_absolute_def starts_with_def)
  then have j: "join (lit ''/w'') (lit ''f'') = lit ''/w/f''"
    by (simp add: join_def) (simp add: lit_def slash_def)
  obtain r where r: "hunk_change (quiet_ops [97, 10]) (\<lambda>old new n. []) w (lit ''/w'')
      (UpdateFile (lit ''f'') (Some (lit ''/outside''))
        [\<lparr>change_context = None, old_lines = [], new_lines = [], is_end_of_file = False\<rparr>]) = Some (Inr r)"
    by (simp add: hunk_change_def unified_diff_from_chunks_def derive_new_contents_from_chunks_def
        patched_contents_def compute_replacements_def locate_context_def insertion_index_def
        quiet_ops_def original_lines_of_def ends_blank_def apply_replacements_def Let_def)
  show ?thesis
    by (simp add: r) (simp add: hunk_change_def hunk_resolve_path_def j)
qed

section \<open>An instance\<close>

abbreviation small_argv :: "ustr list" where
  "small_argv \<equiv> [lit ''apply_patch'', small_patch]"

definition small_args :: apply_patch_args where
  "small_args =
     \<lparr>args_patch = small_patch,
      args_hunks = [AddFile (lit ''a'') (lit ''x'' @ newline), DeleteFile (lit ''b'')],
      args_workdir = None\<rparr>"

definition small_action :: apply_patch_action where
  "small_action =
     \<lparr>action_changes = [(lit ''/w/a'', Add (lit ''x'' @ newline)), (lit ''/w/b'', Delete [])],
      action_patch = small_patch, action_cwd = lit ''/w''\<rparr>"

lemma small_joins [simp]:
  "join (lit ''/w'') (lit ''a'') = lit ''/w/a''" "join (lit ''/w'') (lit ''b'') = lit ''/w/b''"
  by (simp_all add: join_def is_absolute_def starts_with_def slash_def lit_def)

lemma small_components:
  "components (lit ''/w/a'') = [RootDir, Normal (lit ''w''), Normal (lit ''a'')]"
  "components (lit ''/w/b'') = [RootDir, Normal (lit ''w''), Normal (lit ''b'')]"
  by (simp_all add: components_def segment_component_def is_absolute_def Let_def str_ops)

lemma small_body: "maybe_parse_apply_patch q small_argv = Body small_args"
  by (simp add: maybe_parse_apply_patch_def apply_patch_commands_def small_patch_parsed small_args_def)

lemma small_verified:
  "maybe_parse_apply_patch_verified q d map_ops [lit ''/w/b'' \<mapsto> []] small_argv (lit ''/w'') =
     Some (VerifiedBody small_action)"
proof -
  have "\<not> raw_patch_body small_argv"
    by (simp add: raw_patch_body_def parse_shell_script_def)
  then show ?thesis
    by (simp add: maybe_parse_apply_patch_verified_def small_body)
      (simp add: small_args_def effective_cwd_def hunk_change_def hunk_resolve_path_def
        map_ops_def small_components small_action_def)
qed

theorem verified_action_covers_patch_witness:
  "keys_distinct (action_changes small_action) \<and>
   list_all is_absolute (map fst (action_changes small_action))"
  using verified_action_covers_patch [OF small_verified] by (auto simp: list_all_iff)

lemma small_approved:
  "core_apply_patch (plain_env (\<lambda>_. False) (\<lambda>_. False) []) small_action OnRequest workspace_only
     (lit ''/w'') False = Some (DelegateToExec small_action True (Skip False None))"
proof -
  have abs: "is_absolute (lit ''/w/a'')" "is_absolute (lit ''/w/b'')"
    by (simp_all add: is_absolute_def starts_with_def slash_def lit_def)
  have "patch_path_writable [\<lparr>root = [RootDir, Normal (lit ''w'')], read_only_subpaths = []\<rparr>] (lit ''/w'') p"
    if "p = lit ''/w/a'' \<or> p = lit ''/w/b''" for p
    using that by (auto simp: patch_path_writable_def is_path_writable_def path_starts_with_def
        resolve_path_def abs small_components normalize_def)
  then show ?thesis
    using plain_workspace_roots [of "\<lambda>_. False" "\<lambda>_. False" "[]"]
    by (simp add: core_apply_patch_def assess_patch_safety_def small_action_def git_subpaths_def
        del: get_writable_roots_with_cwd.simps)
qed

theorem auto_approved_patch_stays_writable_witness:
  "\<exists>roots. get_writable_roots_with_cwd (plain_env (\<lambda>_. False) (\<lambda>_. False) []) workspace_only (lit ''/w'') = Some roots \<and>
     patch_path_writable roots (lit ''/w'') (lit ''/w/a'') \<and> patch_path_writable roots (lit ''/w'') (lit ''/w/b'')"
proof -
  have "distinct (map (\<lambda>h. components (hunk_resolve_path h (action_cwd small_action))) (args_hunks small_args))"
    by (simp add: small_args_def small_action_def hunk_resolve_path_def small_components)
  from auto_approved_patch_stays_writable [OF small_verified small_approved _ small_body this]
  obtain roots where r: "get_writable_roots_with_cwd (plain_env (\<lambda>_. False) (\<lambda>_. False) []) workspace_only (lit ''/w'') = Some roots"
    "\<forall>h \<in> set (args_hunks small_args). \<forall>q \<in> touched_by (join (action_cwd small_action)) h.
       patch_path_writable roots (lit ''/w'') q"
    by (auto simp del: get_writable_roots_with_cwd.simps)
  then have "patch_path_writable roots (lit ''/w'') (lit ''/w/a'')" "patch_path_writable roots (lit ''/w'') (lit ''/w/b'')"
    by (simp_all add: small_args_def small_action_def del: get_writable_roots_with_cwd.simps)
  with r(1) show ?thesis by blast
qed

end
