(* ===== verification/LegacyArgs.thy ===== *)
theory LegacyArgs
  imports Prelude
begin

text \<open>
  The argument patterns of the original policy engine
  (\<open>execpolicy-legacy/src/arg_matcher.rs\<close>, \<open>arg_type.rs\<close>, \<open>sed_command.rs\<close>,
  \<open>valid_exec.rs\<close>, \<open>error.rs\<close>, \<open>arg_resolver.rs\<close>): how the positional arguments of
  a call are assigned to the patterns of a program specification. The resolver indexes
  slices, so a run that would panic is \<open>None\<close>; the theory shows that none does, and that
  the three loops of the resolver compute the one assignment the patterns describe
  (\<open>pattern_types\<close>).
\<close>

section \<open>Patterns and types\<close>

datatype arg_matcher =
    Literal ustr
  | OpaqueNonFile
  | ReadableFile
  | WriteableFile
  | ReadableFiles
  | ReadableFilesOrCwd
  | PositiveInteger
  | SedCommand
  | UnverifiedVarargs

text \<open>\<open>ArgType\<close> repeats most names of \<open>ArgMatcher\<close>; its variants carry a \<open>T\<close> here.\<close>

datatype arg_type =
    LiteralT ustr
  | OpaqueNonFileT
  | ReadableFileT
  | WriteableFileT
  | PositiveIntegerT
  | SedCommandT
  | UnknownT

datatype cardinality = One | AtLeastOne | ZeroOrMore

fun cardinality_of :: "arg_matcher \<Rightarrow> cardinality" where
  "cardinality_of (Literal _) = One"
| "cardinality_of OpaqueNonFile = One"
| "cardinality_of ReadableFile = One"
| "cardinality_of WriteableFile = One"
| "cardinality_of PositiveInteger = One"
| "cardinality_of SedCommand = One"
| "cardinality_of ReadableFiles = AtLeastOne"
| "cardinality_of ReadableFilesOrCwd = ZeroOrMore"
| "cardinality_of UnverifiedVarargs = ZeroOrMore"

fun is_exact :: "cardinality \<Rightarrow> nat option" where
  "is_exact One = Some 1"
| "is_exact AtLeastOne = None"
| "is_exact ZeroOrMore = None"

fun arg_type_of :: "arg_matcher \<Rightarrow> arg_type" where
  "arg_type_of (Literal value) = LiteralT value"
| "arg_type_of OpaqueNonFile = OpaqueNonFileT"
| "arg_type_of ReadableFile = ReadableFileT"
| "arg_type_of WriteableFile = WriteableFileT"
| "arg_type_of ReadableFiles = ReadableFileT"
| "arg_type_of ReadableFilesOrCwd = ReadableFileT"
| "arg_type_of PositiveInteger = PositiveIntegerT"
| "arg_type_of SedCommand = SedCommandT"
| "arg_type_of UnverifiedVarargs = UnknownT"

section \<open>Errors\<close>

record positional_arg =
  pos_index :: nat
  pos_value :: ustr

text \<open>\<open>std::io::ErrorKind\<close> is the parameter \<open>'k\<close>.\<close>

datatype 'k legacy_error =
    NoSpecForProgram ustr
  | OptionMissingValue ustr ustr
  | OptionFollowedByOptionInsteadOfValue ustr ustr ustr
  | UnknownOption ustr ustr
  | UnexpectedArguments ustr "positional_arg list"
  | DoubleDashNotSupportedYet ustr
  | MultipleVarargPatterns ustr arg_matcher arg_matcher
  | RangeStartExceedsEnd nat nat
  | RangeEndOutOfBounds nat nat
  | PrefixOverlapsSuffix
  | NotEnoughArgs ustr "positional_arg list" "arg_matcher list"
  | InternalInvariantViolation ustr
  | VarargMatcherDidNotMatchAnything ustr arg_matcher
  | EmptyFileName
  | LiteralValueDidNotMatch ustr ustr
  | InvalidPositiveInteger ustr
  | MissingRequiredOptions ustr "ustr list"
  | SedCommandNotProvablySafe ustr
  | ReadablePathNotInReadableFolders ustr "ustr list"
  | WriteablePathNotInWriteableFolders ustr "ustr list"
  | CannotCheckRelativePath ustr
  | CannotCanonicalizePath ustr 'k

section \<open>Validation of one value\<close>

text \<open>\<open>str::parse::<u64>()\<close>: an optional plus sign, then at least one ASCII digit, within
  64 bits.\<close>

definition decimal_value :: "ustr \<Rightarrow> nat" where
  [str_ops]: "decimal_value ds = foldl (\<lambda>n d. 10 * n + (d - 48)) 0 ds"

definition parse_u64 :: "ustr \<Rightarrow> nat option" where
  [str_ops]: "parse_u64 s =
     (let ds = (case s of c # r \<Rightarrow> if c = 43 \<and> r \<noteq> [] then r else s | [] \<Rightarrow> [])
      in if ds \<noteq> [] \<and> list_all is_ascii_digit ds \<and> decimal_value ds < 2 ^ 64
         then Some (decimal_value ds) else None)"

definition parse_sed_command :: "ustr \<Rightarrow> 'k legacy_error + unit" where
  "parse_sed_command sed_command =
     (if (case strip_suffix sed_command (lit ''p'') of
            None \<Rightarrow> False
          | Some stripped \<Rightarrow>
              (case split_once 44 stripped of
                 None \<Rightarrow> False
               | Some (first, rest) \<Rightarrow> is_some (parse_u64 first) \<and> is_some (parse_u64 rest)))
      then Inr () else Inl (SedCommandNotProvablySafe sed_command))"

fun validate :: "arg_type \<Rightarrow> ustr \<Rightarrow> 'k legacy_error + unit" where
  "validate (LiteralT literal_value) v =
     (if v \<noteq> literal_value then Inl (LiteralValueDidNotMatch literal_value v) else Inr ())"
| "validate ReadableFileT v = (if v = [] then Inl EmptyFileName else Inr ())"
| "validate WriteableFileT v = (if v = [] then Inl EmptyFileName else Inr ())"
| "validate OpaqueNonFileT v = Inr ()"
| "validate UnknownT v = Inr ()"
| "validate PositiveIntegerT v =
     (case parse_u64 v of
        Some n \<Rightarrow> if n = 0 then Inl (InvalidPositiveInteger v) else Inr ()
      | None \<Rightarrow> Inl (InvalidPositiveInteger v))"
| "validate SedCommandT v = parse_sed_command v"

fun might_write_file :: "arg_type \<Rightarrow> bool" where
  "might_write_file WriteableFileT = True"
| "might_write_file UnknownT = True"
| "might_write_file (LiteralT _) = False"
| "might_write_file OpaqueNonFileT = False"
| "might_write_file PositiveIntegerT = False"
| "might_write_file ReadableFileT = False"
| "might_write_file SedCommandT = False"

section \<open>Accepted calls\<close>

record matched_arg =
  marg_index :: nat
  marg_type :: arg_type
  marg_value :: ustr

record matched_opt =
  mopt_name :: ustr
  mopt_value :: ustr
  mopt_type :: arg_type

record valid_exec =
  ve_program :: ustr
  ve_flags :: "ustr list"
  ve_opts :: "matched_opt list"
  ve_args :: "matched_arg list"
  ve_system_path :: "ustr list"

definition matched_arg_new :: "nat \<Rightarrow> arg_type \<Rightarrow> ustr \<Rightarrow> 'k legacy_error + matched_arg" where
  "matched_arg_new i ty v =
     bindE (validate ty v) (\<lambda>_. Inr \<lparr>marg_index = i, marg_type = ty, marg_value = v\<rparr>)"

definition matched_opt_new :: "ustr \<Rightarrow> ustr \<Rightarrow> arg_type \<Rightarrow> 'k legacy_error + matched_opt" where
  "matched_opt_new name v ty =
     bindE (validate ty v) (\<lambda>_. Inr \<lparr>mopt_name = name, mopt_value = v, mopt_type = ty\<rparr>)"

definition might_write_files :: "valid_exec \<Rightarrow> bool" where
  "might_write_files e \<longleftrightarrow>
     list_ex (\<lambda>opt. might_write_file (mopt_type opt)) (ve_opts e) \<or>
     list_ex (\<lambda>arg. might_write_file (marg_type arg)) (ve_args e)"

section \<open>The resolver\<close>

record partitioned_args =
  num_prefix_args :: nat
  num_suffix_args :: nat
  prefix_patterns :: "arg_matcher list"
  suffix_patterns :: "arg_matcher list"
  vararg_pattern :: "arg_matcher option"

definition no_args :: partitioned_args where
  "no_args = \<lparr>num_prefix_args = 0, num_suffix_args = 0, prefix_patterns = [],
     suffix_patterns = [], vararg_pattern = None\<rparr>"

fun partition_loop ::
  "ustr \<Rightarrow> bool \<Rightarrow> partitioned_args \<Rightarrow> arg_matcher list \<Rightarrow> 'k legacy_error + partitioned_args" where
  "partition_loop prog in_prefix pa [] = Inr pa"
| "partition_loop prog in_prefix pa (p # ps) =
     (case is_exact (cardinality_of p) of
        Some n \<Rightarrow>
          if in_prefix then partition_loop prog in_prefix
            (pa\<lparr>prefix_patterns := prefix_patterns pa @ [p], num_prefix_args := num_prefix_args pa + n\<rparr>) ps
          else partition_loop prog in_prefix
            (pa\<lparr>suffix_patterns := suffix_patterns pa @ [p], num_suffix_args := num_suffix_args pa + n\<rparr>) ps
      | None \<Rightarrow>
          (case vararg_pattern pa of
             None \<Rightarrow> partition_loop prog False (pa\<lparr>vararg_pattern := Some p\<rparr>) ps
           | Some existing_pattern \<Rightarrow> Inl (MultipleVarargPatterns prog existing_pattern p)))"

definition partition_args :: "ustr \<Rightarrow> arg_matcher list \<Rightarrow> 'k legacy_error + partitioned_args" where
  "partition_args prog arg_patterns = partition_loop prog True no_args arg_patterns"

definition get_range_checked :: "'a list \<Rightarrow> nat \<Rightarrow> nat \<Rightarrow> 'k legacy_error + 'a list" where
  "get_range_checked vec a b =
     (if a > b then Inl (RangeStartExceedsEnd a b)
      else if b > length vec then Inl (RangeEndOutOfBounds b (length vec))
      else Inr (take (b - a) (drop a vec)))"

text \<open>The inner loops push one \<open>MatchedArg\<close> per positional argument and stop at the first
  value that does not validate.\<close>

fun push_matched ::
  "arg_type \<Rightarrow> positional_arg list \<Rightarrow> matched_arg list \<Rightarrow> 'k legacy_error + matched_arg list" where
  "push_matched ty [] matched = Inr matched"
| "push_matched ty (a # as) matched =
     bindE (matched_arg_new (pos_index a) ty (pos_value a)) (\<lambda>m. push_matched ty as (matched @ [m]))"

text \<open>The loops over the prefix and the suffix patterns; \<open>&slice[i..i + n]\<close> panics out of
  bounds.\<close>

fun match_exact ::
  "positional_arg list \<Rightarrow> arg_matcher list \<Rightarrow> nat \<Rightarrow> matched_arg list
    \<Rightarrow> ('k legacy_error + matched_arg list \<times> nat) option" where
  "match_exact args [] i matched = Some (Inr (matched, i))"
| "match_exact args (p # ps) i matched =
     (case is_exact (cardinality_of p) of
        None \<Rightarrow> Some (Inl (InternalInvariantViolation (lit ''expected exact cardinality'')))
      | Some n \<Rightarrow>
          if i + n > length args then None
          else (case push_matched (arg_type_of p) (take n (drop i args)) matched of
                  Inl e \<Rightarrow> Some (Inl e)
                | Inr matched' \<Rightarrow> match_exact args ps (i + n) matched'))"

definition match_vararg ::
  "ustr \<Rightarrow> positional_arg list \<Rightarrow> arg_matcher option \<Rightarrow> nat \<Rightarrow> nat \<Rightarrow> matched_arg list
    \<Rightarrow> 'k legacy_error + matched_arg list" where
  "match_vararg prog args vararg a b matched =
     (case vararg of
        None \<Rightarrow> Inr matched
      | Some p \<Rightarrow>
          bindE (get_range_checked args a b) (\<lambda>va.
            case cardinality_of p of
              One \<Rightarrow> Inl (InternalInvariantViolation (lit ''vararg pattern should not have cardinality of one''))
            | AtLeastOne \<Rightarrow>
                if va = [] then Inl (VarargMatcherDidNotMatchAnything prog p)
                else push_matched (arg_type_of p) va matched
            | ZeroOrMore \<Rightarrow> push_matched (arg_type_of p) va matched))"

text \<open>What follows the prefix loop, and what follows the suffix loop.\<close>

definition resolve_suffix ::
  "ustr \<Rightarrow> positional_arg list \<Rightarrow> partitioned_args \<Rightarrow> nat \<Rightarrow> matched_arg list
    \<Rightarrow> ('k legacy_error + matched_arg list) option" where
  "resolve_suffix prog args pa initial_suffix matched =
     (case get_range_checked args initial_suffix (length args) of
        Inl e \<Rightarrow> Some (Inl e)
      | Inr suffix_args \<Rightarrow>
          map_option (\<lambda>r. bindE r (\<lambda>(matched, _).
            if length matched < length args then
              bindE (get_range_checked args (length matched) (length args)) (\<lambda>extra_args.
                Inl (UnexpectedArguments prog extra_args))
            else Inr matched))
          (match_exact suffix_args (suffix_patterns pa) 0 matched))"

definition resolve_after_prefix ::
  "ustr \<Rightarrow> positional_arg list \<Rightarrow> arg_matcher list \<Rightarrow> partitioned_args \<Rightarrow> matched_arg list \<Rightarrow> nat
    \<Rightarrow> ('k legacy_error + matched_arg list) option" where
  "resolve_after_prefix prog args arg_patterns pa matched prefix_arg_index =
     (if num_suffix_args pa > length args then Some (Inl (NotEnoughArgs prog args arg_patterns))
      else
        let initial_suffix = length args - num_suffix_args pa
        in if prefix_arg_index > initial_suffix then Some (Inl PrefixOverlapsSuffix)
           else case match_vararg prog args (vararg_pattern pa) prefix_arg_index initial_suffix matched of
             Inl e \<Rightarrow> Some (Inl e)
           | Inr matched \<Rightarrow> resolve_suffix prog args pa initial_suffix matched)"

definition resolve_observed_args_with_patterns ::
  "ustr \<Rightarrow> positional_arg list \<Rightarrow> arg_matcher list \<Rightarrow> ('k legacy_error + matched_arg list) option" where
  "resolve_observed_args_with_patterns prog args arg_patterns =
     (case partition_args prog arg_patterns of
        Inl e \<Rightarrow> Some (Inl e)
      | Inr pa \<Rightarrow>
          (case get_range_checked args 0 (num_prefix_args pa) of
             Inl e \<Rightarrow> Some (Inl e)
           | Inr prefix_args \<Rightarrow>
               (case match_exact prefix_args (prefix_patterns pa) 0 [] of
                  None \<Rightarrow> None
                | Some (Inl e) \<Rightarrow> Some (Inl e)
                | Some (Inr (matched, prefix_arg_index)) \<Rightarrow>
                    resolve_after_prefix prog args arg_patterns pa matched prefix_arg_index)))"

section \<open>What the patterns describe\<close>

text \<open>The values a type accepts.\<close>

fun value_ok :: "arg_type \<Rightarrow> ustr \<Rightarrow> bool" where
  "value_ok (LiteralT l) v = (v = l)"
| "value_ok ReadableFileT v = (v \<noteq> [])"
| "value_ok WriteableFileT v = (v \<noteq> [])"
| "value_ok OpaqueNonFileT v = True"
| "value_ok UnknownT v = True"
| "value_ok PositiveIntegerT v = (\<exists>n. parse_u64 v = Some (Suc n))"
| "value_ok SedCommandT v =
     (\<exists>first rest. v = first @ lit '','' @ rest @ lit ''p'' \<and> is_some (parse_u64 first) \<and> is_some (parse_u64 rest))"

text \<open>The type of each positional argument when the pattern of variable length takes
  \<open>k\<close> of them, and the assignment that follows: at most one pattern has variable length,
  the non-empty one takes at least one argument, and every argument has its type.\<close>

definition varies :: "arg_matcher \<Rightarrow> bool" where
  "varies p \<longleftrightarrow> cardinality_of p \<noteq> One"

fun pattern_types :: "nat \<Rightarrow> arg_matcher list \<Rightarrow> arg_type list" where
  "pattern_types k [] = []"
| "pattern_types k (p # ps) = replicate (if varies p then k else 1) (arg_type_of p) @ pattern_types k ps"

definition assign :: "positional_arg \<Rightarrow> arg_type \<Rightarrow> matched_arg" where
  "assign a ty = \<lparr>marg_index = pos_index a, marg_type = ty, marg_value = pos_value a\<rparr>"

definition fits :: "positional_arg \<Rightarrow> arg_type \<Rightarrow> bool" where
  "fits a ty \<longleftrightarrow> value_ok ty (pos_value a)"

definition assigns :: "arg_matcher list \<Rightarrow> positional_arg list \<Rightarrow> nat \<Rightarrow> bool" where
  "assigns ps args k \<longleftrightarrow>
     length (filter varies ps) \<le> 1 \<and> (0 < k \<or> list_all (\<lambda>p. cardinality_of p \<noteq> AtLeastOne) ps) \<and>
     list_all2 fits args (pattern_types k ps)"

section \<open>The resolver computes it\<close>

lemma u64_no_comma: "is_some (parse_u64 s) \<Longrightarrow> 44 \<notin> set s"
  by (auto simp: parse_u64_def Let_def list_all_iff is_ascii_digit_def split: list.splits if_splits)

lemma split_once_eq_Some_iff: "split_once c s = Some (a, b) \<longleftrightarrow> s = a @ c # b \<and> c \<notin> set a"
proof
  assume "split_once c s = Some (a, b)"
  then have c: "c \<in> set s" and a: "a = takeWhile (\<lambda>x. x \<noteq> c) s" and b: "b = tl (dropWhile (\<lambda>x. x \<noteq> c) s)"
    by (auto simp: split_once_def drop_Suc split: if_splits)
  have ne: "dropWhile (\<lambda>x. x \<noteq> c) s \<noteq> []"
    using c by (auto simp: dropWhile_eq_Nil_conv)
  then have "dropWhile (\<lambda>x. x \<noteq> c) s = c # b"
    using hd_dropWhile [OF ne] b by (cases "dropWhile (\<lambda>x. x \<noteq> c) s") auto
  then show "s = a @ c # b \<and> c \<notin> set a"
    using a takeWhile_dropWhile_id [of "\<lambda>x. x \<noteq> c" s] by (auto dest: set_takeWhileD)
next
  assume s: "s = a @ c # b \<and> c \<notin> set a"
  then have "dropWhile (\<lambda>x. x \<noteq> c) (a @ c # b) = c # b" "takeWhile (\<lambda>x. x \<noteq> c) (a @ c # b) = a"
    by (induction a arbitrary: s) auto
  then show "split_once c s = Some (a, b)"
    using s by (simp add: split_once_def)
qed

lemma parse_sed_command_ok_iff:
  "parse_sed_command s = Inr () \<longleftrightarrow> value_ok SedCommandT s"
proof -
  have "value_ok SedCommandT s \<longleftrightarrow>
      (\<exists>first rest. strip_suffix s (lit ''p'') = Some (first @ 44 # rest) \<and>
         is_some (parse_u64 first) \<and> is_some (parse_u64 rest))"
    by (simp add: strip_suffix_eq_Some_iff lit_def)
  also have "\<dots> \<longleftrightarrow> parse_sed_command s = Inr ()"
    by (auto simp: parse_sed_command_def split_once_eq_Some_iff u64_no_comma split: option.splits)
      (metis split_once_eq_Some_iff u64_no_comma option.distinct(1) option.inject prod.inject)+
  finally show ?thesis by (rule sym)
qed

lemma validate_ok_iff: "validate ty v = Inr u \<longleftrightarrow> value_ok ty v"
  by (cases ty) (auto simp: parse_sed_command_ok_iff gr0_conv_Suc split: option.splits)

lemma matched_arg_new_ok_iff:
  "matched_arg_new (pos_index a) ty (pos_value a) = Inr m \<longleftrightarrow> fits a ty \<and> m = assign a ty"
  by (auto simp: matched_arg_new_def bindE_eq_Inr_iff validate_ok_iff fits_def assign_def)

lemma push_matched_ok_iff:
  "push_matched ty as matched = Inr ms \<longleftrightarrow>
     list_all (\<lambda>a. fits a ty) as \<and> ms = matched @ map (\<lambda>a. assign a ty) as"
  by (induction ty as matched rule: push_matched.induct)
    (auto simp: bindE_eq_Inr_iff matched_arg_new_ok_iff)

lemma match_exact_total:
  "\<forall>p \<in> set ps. \<not> varies p \<Longrightarrow> i + length ps \<le> length args \<Longrightarrow> match_exact args ps i matched \<noteq> None"
  by (induction ps arbitrary: i matched) (auto simp: varies_def split: sum.splits)

lemma match_exact_ok_iff:
  assumes "\<forall>p \<in> set ps. \<not> varies p" and "i + length ps \<le> length args"
  shows "match_exact args ps i matched = Some (Inr (ms, j) :: 'k legacy_error + _) \<longleftrightarrow>
    list_all2 fits (take (length ps) (drop i args)) (map arg_type_of ps) \<and>
    ms = matched @ map2 assign (take (length ps) (drop i args)) (map arg_type_of ps) \<and> j = i + length ps"
  using assms
proof (induction ps arbitrary: i matched)
  case Nil
  then show ?case by auto
next
  case (Cons p ps)
  obtain a where a: "take (length (p # ps)) (drop i args) = a # take (length ps) (drop (i + 1) args)"
    "take 1 (drop i args) = [a]"
    using Cons.prems(2) Cons_nth_drop_Suc [of i args, symmetric] by force
  have one: "is_exact (cardinality_of p) = Some 1"
    using Cons.prems(1) by (simp add: varies_def)
  show ?case
  proof (cases "fits a (arg_type_of p)")
    case True
    then have "push_matched (arg_type_of p) [a] matched =
        (Inr (matched @ [assign a (arg_type_of p)]) :: 'k legacy_error + _)"
      unfolding push_matched_ok_iff by simp
    then have "match_exact args (p # ps) i matched =
        (match_exact args ps (i + 1) (matched @ [assign a (arg_type_of p)]) :: ('k legacy_error + _) option)"
      using one a(2) Cons.prems(2) by simp
    then show ?thesis
      using Cons.IH [of "i + 1"] Cons.prems a(1) True by auto
  next
    case False
    then obtain e where "push_matched (arg_type_of p) [a] matched = (Inl e :: 'k legacy_error + _)"
      by (cases "push_matched (arg_type_of p) [a] matched :: 'k legacy_error + _")
        (auto simp: push_matched_ok_iff simp del: push_matched.simps)
    then show ?thesis
      using one a Cons.prems(2) False by simp
  qed
qed

lemma pattern_types_exact: "\<forall>p \<in> set ps. \<not> varies p \<Longrightarrow> pattern_types k ps = map arg_type_of ps"
  by (induction ps) auto

lemma pattern_types_append: "pattern_types k (ps @ qs) = pattern_types k ps @ pattern_types k qs"
  by (induction ps) auto

lemma partition_loop_prefix:
  "\<forall>p \<in> set ps. \<not> varies p \<Longrightarrow> partition_loop prog True pa (ps @ qs) =
     partition_loop prog True (pa\<lparr>prefix_patterns := prefix_patterns pa @ ps,
       num_prefix_args := num_prefix_args pa + length ps\<rparr>) qs"
  by (induction ps arbitrary: pa) (auto simp: varies_def)

lemma partition_loop_suffix:
  "\<forall>p \<in> set ps. \<not> varies p \<Longrightarrow> partition_loop prog False pa ps =
     Inr (pa\<lparr>suffix_patterns := suffix_patterns pa @ ps, num_suffix_args := num_suffix_args pa + length ps\<rparr>)"
  by (induction ps arbitrary: pa) (auto simp: varies_def)

lemma partition_loop_second_vararg:
  "vararg_pattern pa = Some v \<Longrightarrow> \<exists>p \<in> set ps. varies p \<Longrightarrow> \<exists>e. partition_loop prog b pa ps = Inl e"
proof (induction ps arbitrary: pa)
  case (Cons p ps)
  then show ?case
    by (cases "cardinality_of p"; cases b) (auto simp: varies_def)
qed simp

lemma partition_args_exact:
  "\<forall>p \<in> set ps. \<not> varies p \<Longrightarrow>
     partition_args prog ps = Inr (no_args\<lparr>num_prefix_args := length ps, prefix_patterns := ps\<rparr>)"
  using partition_loop_prefix [of ps prog no_args "[]"] by (simp add: partition_args_def no_args_def)

lemma partition_args_vararg:
  assumes "\<forall>p \<in> set pre. \<not> varies p" and "varies v" and "\<forall>p \<in> set post. \<not> varies p"
  shows "partition_args prog (pre @ v # post) =
    Inr \<lparr>num_prefix_args = length pre, num_suffix_args = length post, prefix_patterns = pre,
       suffix_patterns = post, vararg_pattern = Some v\<rparr>"
proof -
  have "is_exact (cardinality_of v) = None"
    using assms(2) by (cases "cardinality_of v") (auto simp: varies_def)
  then show ?thesis
    using partition_loop_prefix [OF assms(1), of prog no_args "v # post"] assms(3)
    by (simp add: partition_args_def no_args_def partition_loop_suffix)
qed

lemma partition_args_two_varargs:
  assumes "\<forall>p \<in> set pre. \<not> varies p" and "varies v" and "\<exists>p \<in> set post. varies p"
  shows "\<exists>e. partition_args prog (pre @ v # post) = (Inl e :: 'k legacy_error + _)"
proof -
  have "is_exact (cardinality_of v) = None"
    using assms(2) by (cases "cardinality_of v") (auto simp: varies_def)
  moreover have
    "\<exists>e. partition_loop prog False \<lparr>num_prefix_args = length pre, num_suffix_args = 0, prefix_patterns = pre,
       suffix_patterns = [], vararg_pattern = Some v\<rparr> post = (Inl e :: 'k legacy_error + _)"
    by (rule partition_loop_second_vararg [where v = v]) (simp_all add: assms(3))
  ultimately show ?thesis
    unfolding partition_args_def partition_loop_prefix [OF assms(1)] by (simp add: no_args_def)
qed

lemma patterns_cases:
  obtains (exact) "\<forall>p \<in> set ps. \<not> varies p"
  | (vararg) pre v post where "ps = pre @ v # post" "\<forall>p \<in> set pre. \<not> varies p" "varies v" "\<forall>p \<in> set post. \<not> varies p"
  | (two) pre v post where "ps = pre @ v # post" "\<forall>p \<in> set pre. \<not> varies p" "varies v" "\<exists>p \<in> set post. varies p"
  using split_list_first_prop [of ps varies] by blast

lemma get_range_middle [simp]:
  "get_range_checked (xs @ ys @ zs) (length xs) (length xs + length ys) = Inr ys"
  "get_range_checked (ys @ zs) 0 (length ys) = Inr ys"
  "get_range_checked (xs @ ys) (length xs) (length xs + length ys) = Inr ys"
  by (simp_all add: get_range_checked_def)

lemma match_exact_all:
  assumes "\<forall>p \<in> set ps. \<not> varies p" and "length args = length ps"
  shows "(\<exists>e. match_exact args ps 0 matched = Some (Inl e :: 'k legacy_error + _) \<and>
       \<not> list_all2 fits args (map arg_type_of ps)) \<or>
    (match_exact args ps 0 matched = Some (Inr (matched @ map2 assign args (map arg_type_of ps), length ps) :: 'k legacy_error + _) \<and>
       list_all2 fits args (map arg_type_of ps))"
proof -
  obtain r :: "'k legacy_error + matched_arg list \<times> nat" where r: "match_exact args ps 0 matched = Some r"
    using match_exact_total [of ps 0 args matched] assms by fastforce
  have iff: "match_exact args ps 0 matched = Some (Inr (ms, j) :: 'k legacy_error + _) \<longleftrightarrow>
      list_all2 fits args (map arg_type_of ps) \<and>
      ms = matched @ map2 assign args (map arg_type_of ps) \<and> j = length ps" for ms j
    using match_exact_ok_iff [of ps 0 args matched ms j] assms by simp
  show ?thesis
    using r iff by (cases r) auto
qed

text \<open>The stages after the prefix loop, on arguments cut where the resolver cuts them.\<close>

lemma resolve_suffix_ok_iff:
  assumes "\<forall>p \<in> set (suffix_patterns pa). \<not> varies p" and "length S = length (suffix_patterns pa)"
  shows "resolve_suffix prog (xs @ S) pa (length xs) matched \<noteq> (None :: ('k legacy_error + _) option) \<and>
    (resolve_suffix prog (xs @ S) pa (length xs) matched = Some (Inr ms :: 'k legacy_error + _) \<longleftrightarrow>
      list_all2 fits S (map arg_type_of (suffix_patterns pa)) \<and>
      ms = matched @ map2 assign S (map arg_type_of (suffix_patterns pa)) \<and> length xs \<le> length matched)"
proof -
  let ?tys = "map arg_type_of (suffix_patterns pa)"
  let ?new = "matched @ map2 assign S ?tys"
  have range: "get_range_checked (xs @ S) (length xs) (length (xs @ S)) = (Inr S :: 'k legacy_error + _)"
    by (simp add: get_range_checked_def)
  have len: "length ?new = length matched + length S"
    using assms(2) by simp
  have extra: "\<exists>ex. get_range_checked (xs @ S) (length ?new) (length (xs @ S)) = (Inr ex :: 'k legacy_error + _)"
    if "length matched < length xs"
    using that len by (simp add: get_range_checked_def)
  show ?thesis
  proof (rule disjE [OF match_exact_all [OF assms, of matched]])
    assume "\<exists>e. match_exact S (suffix_patterns pa) 0 matched = Some (Inl e :: 'k legacy_error + _) \<and>
       \<not> list_all2 fits S ?tys"
    then show ?thesis
      using range by (auto simp: resolve_suffix_def)
  next
    assume m: "match_exact S (suffix_patterns pa) 0 matched =
        Some (Inr (?new, length (suffix_patterns pa)) :: 'k legacy_error + _) \<and> list_all2 fits S ?tys"
    show ?thesis
    proof (cases "length matched < length xs")
      case True
      from extra [OF True] obtain ex where
        "get_range_checked (xs @ S) (length ?new) (length (xs @ S)) = (Inr ex :: 'k legacy_error + _)" ..
      then have "resolve_suffix prog (xs @ S) pa (length xs) matched =
          Some (Inl (UnexpectedArguments prog ex) :: 'k legacy_error + _)"
        using m range len True by (simp add: resolve_suffix_def)
      then show ?thesis using True by simp
    next
      case False
      then have "resolve_suffix prog (xs @ S) pa (length xs) matched = Some (Inr ?new :: 'k legacy_error + _)"
        using m range len by (simp add: resolve_suffix_def)
      then show ?thesis using m False by auto
    qed
  qed
qed

lemma resolve_exact:
  assumes "\<forall>p \<in> set ps. \<not> varies p"
  shows "resolve_observed_args_with_patterns prog args ps \<noteq> (None :: ('k legacy_error + _) option) \<and>
    (resolve_observed_args_with_patterns prog args ps = Some (Inr ms :: 'k legacy_error + _) \<longleftrightarrow>
      list_all2 fits args (map arg_type_of ps) \<and> ms = map2 assign args (map arg_type_of ps))"
proof (cases "length ps \<le> length args")
  case False
  then show ?thesis
    by (auto simp: resolve_observed_args_with_patterns_def partition_args_exact [OF assms] no_args_def
        get_range_checked_def dest: list_all2_lengthD)
next
  case True
  let ?tys = "map arg_type_of ps"
  obtain A S where args: "args = A @ S" "length A = length ps"
    using True by (metis append_take_drop_id length_take min.absorb2)
  let ?m = "map2 assign A ?tys" and ?pa = "no_args\<lparr>num_prefix_args := length ps, prefix_patterns := ps\<rparr>"
  have fits: "list_all2 fits args ?tys \<longleftrightarrow> list_all2 fits A ?tys \<and> S = []"
    using args by (cases "S = []") (auto dest: list_all2_lengthD)
  have after: "resolve_after_prefix prog args ps ?pa ?m (length ps) =
      (resolve_suffix prog (args @ []) ?pa (length args) ?m :: ('k legacy_error + _) option)"
    using True by (simp add: resolve_after_prefix_def no_args_def match_vararg_def)
  have suffix: "resolve_suffix prog (args @ []) ?pa (length args) ?m \<noteq> (None :: ('k legacy_error + _) option) \<and>
      (resolve_suffix prog (args @ []) ?pa (length args) ?m = Some (Inr ms :: 'k legacy_error + _) \<longleftrightarrow>
        ms = ?m \<and> S = [])"
    using resolve_suffix_ok_iff [of ?pa "[]" prog args ?m ms] args by (auto simp: no_args_def)
  have range: "get_range_checked args 0 (length ps) = (Inr A :: 'k legacy_error + _)"
    using args by (simp add: get_range_checked_def)
  note run = resolve_observed_args_with_patterns_def partition_args_exact [OF assms]
  show ?thesis
  proof (rule disjE [OF match_exact_all [OF assms args(2), of "[]"]])
    assume "\<exists>e. match_exact A ps 0 [] = Some (Inl e :: 'k legacy_error + _) \<and> \<not> list_all2 fits A ?tys"
    then show ?thesis
      using range fits by (auto simp: run no_args_def)
  next
    assume m: "match_exact A ps 0 [] = Some (Inr ([] @ ?m, length ps) :: 'k legacy_error + _) \<and> list_all2 fits A ?tys"
    then have "resolve_observed_args_with_patterns prog args ps =
        (resolve_suffix prog (args @ []) ?pa (length args) ?m :: ('k legacy_error + _) option)"
      using range after by (simp add: run no_args_def)
    then show ?thesis
      using suffix m fits args by auto
  qed
qed

lemma list_all2_replicate_iff: "list_all2 r xs (replicate (length xs) y) \<longleftrightarrow> list_all (\<lambda>x. r x y) xs"
  by (induction xs) auto

lemma map2_replicate: "map2 f xs (replicate (length xs) y) = map (\<lambda>x. f x y) xs"
  by (induction xs) auto

lemma match_vararg_ok_iff:
  assumes "varies v"
  shows "match_vararg prog (A @ V @ S) (Some v) (length A) (length A + length V) matched =
      (Inr ms :: 'k legacy_error + _) \<longleftrightarrow>
    (V \<noteq> [] \<or> cardinality_of v \<noteq> AtLeastOne) \<and> list_all (\<lambda>a. fits a (arg_type_of v)) V \<and>
    ms = matched @ map (\<lambda>a. assign a (arg_type_of v)) V"
  using assms
  by (cases "cardinality_of v") (auto simp: match_vararg_def varies_def push_matched_ok_iff)

lemma resolve_vararg_cut:
  fixes args :: "positional_arg list"
  assumes "\<forall>p \<in> set pre. \<not> varies p" and "varies v" and "\<forall>p \<in> set post. \<not> varies p"
    and args: "args = A @ V @ S" "length A = length pre" "length S = length post"
  shows "resolve_observed_args_with_patterns prog args (pre @ v # post) \<noteq> (None :: ('k legacy_error + _) option) \<and>
    (resolve_observed_args_with_patterns prog args (pre @ v # post) = Some (Inr ms :: 'k legacy_error + _) \<longleftrightarrow>
      (V \<noteq> [] \<or> cardinality_of v \<noteq> AtLeastOne) \<and>
      list_all2 fits A (map arg_type_of pre) \<and> list_all (\<lambda>a. fits a (arg_type_of v)) V \<and>
      list_all2 fits S (map arg_type_of post) \<and>
      ms = map2 assign A (map arg_type_of pre) @ map (\<lambda>a. assign a (arg_type_of v)) V @
        map2 assign S (map arg_type_of post))"
proof -
  let ?m = "map2 assign A (map arg_type_of pre)" and ?vs = "map (\<lambda>a. assign a (arg_type_of v)) V"
  let ?pa = "\<lparr>num_prefix_args = length pre, num_suffix_args = length post, prefix_patterns = pre,
       suffix_patterns = post, vararg_pattern = Some v\<rparr>"
  note run = resolve_observed_args_with_patterns_def partition_args_vararg [OF assms(1-3)]
  have range: "get_range_checked args 0 (length pre) = (Inr A :: 'k legacy_error + _)"
    using args by (simp add: get_range_checked_def)
  have after: "resolve_after_prefix prog args (pre @ v # post) ?pa matched (length pre) =
      ((case match_vararg prog args (Some v) (length pre) (length pre + length V) matched of
         Inl e \<Rightarrow> Some (Inl e)
       | Inr matched \<Rightarrow> resolve_suffix prog args ?pa (length pre + length V) matched)
         :: ('k legacy_error + _) option)" for matched
  proof -
    have "length post \<le> length args" "length args - length post = length pre + length V"
      using args by simp_all
    then show ?thesis by (simp add: resolve_after_prefix_def Let_def)
  qed
  have suffix: "resolve_suffix prog args ?pa (length pre + length V) matched \<noteq> (None :: ('k legacy_error + _) option) \<and>
      (resolve_suffix prog args ?pa (length pre + length V) matched = Some (Inr ms :: 'k legacy_error + _) \<longleftrightarrow>
        list_all2 fits S (map arg_type_of post) \<and> ms = matched @ map2 assign S (map arg_type_of post) \<and>
        length pre + length V \<le> length matched)" for matched
    using resolve_suffix_ok_iff [of ?pa S prog "A @ V" matched ms] assms(3) args by simp
  have vararg: "match_vararg prog args (Some v) (length pre) (length pre + length V) matched =
      (Inr ms' :: 'k legacy_error + _) \<longleftrightarrow>
      (V \<noteq> [] \<or> cardinality_of v \<noteq> AtLeastOne) \<and> list_all (\<lambda>a. fits a (arg_type_of v)) V \<and>
      ms' = matched @ ?vs" for matched ms'
    using match_vararg_ok_iff [OF assms(2), of prog A V S matched ms'] args by simp
  show ?thesis
  proof (rule disjE [OF match_exact_all [OF assms(1) args(2), of "[]"]])
    assume "\<exists>e. match_exact A pre 0 [] = Some (Inl e :: 'k legacy_error + _) \<and> \<not> list_all2 fits A (map arg_type_of pre)"
    then show ?thesis
      using range by (auto simp: run)
  next
    assume m: "match_exact A pre 0 [] = Some (Inr ([] @ ?m, length pre) :: 'k legacy_error + _) \<and>
      list_all2 fits A (map arg_type_of pre)"
    then have eq: "resolve_observed_args_with_patterns prog args (pre @ v # post) =
        (resolve_after_prefix prog args (pre @ v # post) ?pa ?m (length pre) :: ('k legacy_error + _) option)"
      using range by (simp add: run)
    show ?thesis
    proof (cases "match_vararg prog args (Some v) (length pre) (length pre + length V) ?m :: 'k legacy_error + _")
      case (Inl e)
      then show ?thesis
        using vararg [of ?m "?m @ ?vs"] by (auto simp: eq after)
    next
      case (Inr ms')
      then have ms': "ms' = ?m @ ?vs" and ok: "(V \<noteq> [] \<or> cardinality_of v \<noteq> AtLeastOne) \<and>
          list_all (\<lambda>a. fits a (arg_type_of v)) V"
        using vararg by blast+
      have "length pre + length V \<le> length ms'"
        using args by (simp add: ms')
      then show ?thesis
        using suffix [of ms'] ok m by (simp add: eq after Inr ms')
    qed
  qed
qed

lemma resolve_vararg:
  assumes "\<forall>p \<in> set pre. \<not> varies p" and "varies v" and "\<forall>p \<in> set post. \<not> varies p"
  shows "resolve_observed_args_with_patterns prog args (pre @ v # post) \<noteq> (None :: ('k legacy_error + _) option) \<and>
    (resolve_observed_args_with_patterns prog args (pre @ v # post) = Some (Inr ms :: 'k legacy_error + _) \<longleftrightarrow>
      (\<exists>k. (0 < k \<or> cardinality_of v \<noteq> AtLeastOne) \<and>
         list_all2 fits args (map arg_type_of pre @ replicate k (arg_type_of v) @ map arg_type_of post) \<and>
         ms = map2 assign args (map arg_type_of pre @ replicate k (arg_type_of v) @ map arg_type_of post)))"
proof (cases "length pre + length post \<le> length args")
  case False
  note run = resolve_observed_args_with_patterns_def partition_args_vararg [OF assms]
  have after: "\<exists>e. resolve_after_prefix prog args (pre @ v # post)
      \<lparr>num_prefix_args = length pre, num_suffix_args = length post, prefix_patterns = pre,
       suffix_patterns = post, vararg_pattern = Some v\<rparr> matched (length pre) =
      Some (Inl e :: 'k legacy_error + _)" for matched
    using False by (auto simp: resolve_after_prefix_def Let_def)
  have "\<exists>e. resolve_observed_args_with_patterns prog args (pre @ v # post) = Some (Inl e :: 'k legacy_error + _)"
  proof (cases "length pre \<le> length args")
    case True
    then have "length (take (length pre) args) = length pre" by simp
    from match_exact_all [where 'k = 'k, OF assms(1) this, of "[]"] show ?thesis
      using True after [of "map2 assign (take (length pre) args) (map arg_type_of pre)"]
      by (auto simp: run get_range_checked_def)
  qed (simp add: run get_range_checked_def)
  then show ?thesis
    using False by (auto dest: list_all2_lengthD)
next
  case True
  define k where "k = length args - (length pre + length post)"
  define A where "A = take (length pre) args"
  define V where "V = take k (drop (length pre) args)"
  define S where "S = drop (length pre + k) args"
  have "drop (length pre) args = V @ S"
    by (simp add: V_def S_def add.commute flip: drop_drop)
  then have "args = A @ V @ S"
    by (metis A_def append_take_drop_id)
  moreover have "length A = length pre" "length V = k" "length S = length post"
    using True by (simp_all add: A_def V_def S_def k_def)
  ultimately have args: "args = A @ V @ S" "length A = length pre" "length S = length post" and V: "length V = k"
    by simp_all
  have k_unique: "j = k" if "list_all2 fits args (map arg_type_of pre @ replicate j (arg_type_of v) @ map arg_type_of post)" for j
    using list_all2_lengthD [OF that] by (simp add: k_def)
  have fits: "list_all2 fits args (map arg_type_of pre @ replicate k (arg_type_of v) @ map arg_type_of post) \<longleftrightarrow>
      list_all2 fits A (map arg_type_of pre) \<and> list_all (\<lambda>a. fits a (arg_type_of v)) V \<and>
      list_all2 fits S (map arg_type_of post)"
    using args by (simp add: list_all2_append list_all2_replicate_iff V [symmetric])
  have assign: "map2 assign args (map arg_type_of pre @ replicate k (arg_type_of v) @ map arg_type_of post) =
      map2 assign A (map arg_type_of pre) @ map (\<lambda>a. assign a (arg_type_of v)) V @ map2 assign S (map arg_type_of post)"
    using args(2,3) V map2_replicate [of assign V "arg_type_of v"] by (simp add: args(1))
  have nonempty: "0 < k \<longleftrightarrow> V \<noteq> []"
    using V by auto
  let ?types = "\<lambda>j. map arg_type_of pre @ replicate j (arg_type_of v) @ map arg_type_of post"
  have "(\<exists>j. (0 < j \<or> cardinality_of v \<noteq> AtLeastOne) \<and> list_all2 fits args (?types j) \<and>
        ms = map2 assign args (?types j)) \<longleftrightarrow>
      (0 < k \<or> cardinality_of v \<noteq> AtLeastOne) \<and> list_all2 fits args (?types k) \<and> ms = map2 assign args (?types k)"
    using k_unique by blast
  then show ?thesis
    using resolve_vararg_cut [where 'k = 'k, OF assms args(1-3), of prog ms]
    unfolding fits assign nonempty by simp
qed

lemma resolve_spec:
  shows resolve_total: "resolve_observed_args_with_patterns prog args ps \<noteq> (None :: ('k legacy_error + _) option)"
    and resolve_ok_iff: "resolve_observed_args_with_patterns prog args ps = Some (Inr ms :: 'k legacy_error + _) \<longleftrightarrow>
      (\<exists>k. assigns ps args k \<and> ms = map2 assign args (pattern_types k ps))"
proof -
  have "resolve_observed_args_with_patterns prog args ps \<noteq> (None :: ('k legacy_error + _) option) \<and>
    (resolve_observed_args_with_patterns prog args ps = Some (Inr ms :: 'k legacy_error + _) \<longleftrightarrow>
     (\<exists>k. assigns ps args k \<and> ms = map2 assign args (pattern_types k ps)))"
  proof (cases rule: patterns_cases [of ps])
    case exact
    then have "filter varies ps = []" "list_all (\<lambda>p. cardinality_of p \<noteq> AtLeastOne) ps"
      by (auto simp: list_all_iff varies_def filter_empty_conv)
    then show ?thesis
      using resolve_exact [OF exact, where 'k = 'k, of prog args ms]
      by (simp add: assigns_def pattern_types_exact [OF exact])
  next
    case (vararg pre v post)
    then have "filter varies pre = []" "filter varies post = []"
      "list_all (\<lambda>p. cardinality_of p \<noteq> AtLeastOne) pre" "list_all (\<lambda>p. cardinality_of p \<noteq> AtLeastOne) post"
      by (auto simp: list_all_iff varies_def filter_empty_conv)
    then show ?thesis
      using resolve_vararg [OF vararg(2-4), where 'k = 'k, of prog args ms] vararg
      by (simp add: assigns_def pattern_types_append pattern_types_exact)
  next
    case (two pre v post)
    from two(4) have "filter varies post \<noteq> []"
      by (auto simp: filter_empty_conv)
    then have "\<not> length (filter varies ps) \<le> 1"
      using two(1,3) by (cases "filter varies post") auto
    moreover obtain e where "partition_args prog ps = (Inl e :: 'k legacy_error + _)"
      using partition_args_two_varargs [OF two(2-4), of prog] two(1) by blast
    ultimately show ?thesis
      by (simp add: resolve_observed_args_with_patterns_def assigns_def)
  qed
  then show "resolve_observed_args_with_patterns prog args ps \<noteq> (None :: ('k legacy_error + _) option)"
    and "resolve_observed_args_with_patterns prog args ps = Some (Inr ms :: 'k legacy_error + _) \<longleftrightarrow>
      (\<exists>k. assigns ps args k \<and> ms = map2 assign args (pattern_types k ps))" by simp_all
qed

text \<open>The resolver never panics, and it accepts the positional arguments exactly when the
  patterns describe them: at most one pattern of variable length, which takes the arguments the
  others leave (at least one where the pattern demands it), and every argument of the type of its
  pattern. What it returns are then the arguments in their order, each with its index and the type
  of its pattern: none is dropped, repeated or left untyped.\<close>

theorem resolver_assigns_every_argument:
  "resolve_observed_args_with_patterns prog args ps \<noteq> (None :: ('k legacy_error + _) option) \<and>
   (resolve_observed_args_with_patterns prog args ps = Some (Inr ms :: 'k legacy_error + _) \<longleftrightarrow>
     (\<exists>k. assigns ps args k \<and> ms = map2 assign args (pattern_types k ps)))"
  using resolve_total resolve_ok_iff by blast

text \<open>The values of an assignment are those of the arguments, each of the type it is given.\<close>

lemma assigned_args:
  assumes "list_all2 fits args tys"
  shows "map marg_value (map2 assign args tys) = map pos_value args"
    and "\<forall>m \<in> set (map2 assign args tys). value_ok (marg_type m) (marg_value m) \<and>
      (\<exists>a \<in> set args. marg_index m = pos_index a \<and> marg_value m = pos_value a)"
  using assms by (induction rule: list_all2_induct) (auto simp: assign_def fits_def)

text \<open>Reading the working directory leaves no trace: a call without arguments is accepted for
  \<open>ReadableFilesOrCwd\<close> with nothing matched, although the pattern stands for the readable
  working directory.\<close>

lemma cwd_reading_leaves_no_argument:
  "resolve_observed_args_with_patterns prog [] [ReadableFilesOrCwd] = Some (Inr [])"
  by (simp add: resolve_observed_args_with_patterns_def partition_args_def no_args_def
      get_range_checked_def resolve_after_prefix_def match_vararg_def resolve_suffix_def)

end
