(* ===== verification/LegacyPolicy.thy ===== *)
theory LegacyPolicy
  imports LegacyArgs Paths ExecPolicy "HOL-Library.Multiset"
begin

text \<open>
  The original policy engine (\<open>execpolicy-legacy/src/opt.rs\<close>, \<open>program.rs\<close>,
  \<open>policy.rs\<close>, \<open>policy_parser.rs\<close>, \<open>execv_checker.rs\<close>, \<open>main.rs\<close>): a call is
  checked against the specifications registered for its program, and an accepted call
  against the folders it may read and write. Parameters: the multimap of the
  \<open>multimap\<close> crate (\<open>multimap_ops\<close>, as in \<open>ExecPolicy\<close>), \<open>regex_lite\<close>
  (\<open>regex_ops\<close>), \<open>path_absolutize\<close> and the file metadata (\<open>fs_ops\<close>). A hash map
  with string keys is an association list.
\<close>

section \<open>Program specifications\<close>

datatype opt_meta = Flag | Value arg_type

record legacy_opt =
  opt_name :: ustr
  opt_meta :: opt_meta
  opt_required :: bool

record exec_call =
  call_program :: ustr
  call_args :: "ustr list"

record program_spec =
  ps_program :: ustr
  ps_system_path :: "ustr list"
  ps_option_bundling :: bool
  ps_combined_format :: bool
  ps_allowed_options :: "(ustr \<times> legacy_opt) list"
  ps_arg_patterns :: "arg_matcher list"
  ps_forbidden :: "ustr option"
  ps_required_options :: "ustr set"
  ps_should_match :: "ustr list list"
  ps_should_not_match :: "ustr list list"

definition program_spec_new ::
  "ustr \<Rightarrow> ustr list \<Rightarrow> bool \<Rightarrow> bool \<Rightarrow> (ustr \<times> legacy_opt) list \<Rightarrow> arg_matcher list \<Rightarrow> ustr option
    \<Rightarrow> ustr list list \<Rightarrow> ustr list list \<Rightarrow> program_spec" where
  "program_spec_new prog system_path option_bundling combined_format allowed_options arg_patterns
     forbidden should_match should_not_match =
     \<lparr>ps_program = prog, ps_system_path = system_path, ps_option_bundling = option_bundling,
      ps_combined_format = combined_format, ps_allowed_options = allowed_options,
      ps_arg_patterns = arg_patterns, ps_forbidden = forbidden,
      ps_required_options = set (map fst (filter (\<lambda>(name, opt). opt_required opt) allowed_options)),
      ps_should_match = should_match, ps_should_not_match = should_not_match\<rparr>"

datatype forbidden =
    ForbiddenProgram ustr exec_call
  | ForbiddenArg ustr exec_call
  | ForbiddenExec valid_exec

datatype matched_exec =
    Match valid_exec
  | ForbiddenMatch forbidden ustr

subsection \<open>Checking a call\<close>

record scanned =
  sc_expecting :: "(ustr \<times> arg_type) option"
  sc_args :: "positional_arg list"
  sc_flags :: "ustr list"
  sc_opts :: "matched_opt list"

definition scan_start :: scanned where
  "scan_start = \<lparr>sc_expecting = None, sc_args = [], sc_flags = [], sc_opts = []\<rparr>"

fun scan_args ::
  "program_spec \<Rightarrow> nat \<Rightarrow> ustr list \<Rightarrow> scanned \<Rightarrow> 'k legacy_error + scanned" where
  "scan_args spec i [] st = Inr st"
| "scan_args spec i (arg # rest) st =
     (case sc_expecting st of
        Some (name, arg_type) \<Rightarrow>
          if starts_with arg (lit ''-'')
          then Inl (OptionFollowedByOptionInsteadOfValue (ps_program spec) name arg)
          else bindE (matched_opt_new name arg arg_type) (\<lambda>opt.
            scan_args spec (i + 1) rest (st\<lparr>sc_opts := sc_opts st @ [opt], sc_expecting := None\<rparr>))
      | None \<Rightarrow>
          if arg = lit ''--'' then Inl (DoubleDashNotSupportedYet (ps_program spec))
          else if starts_with arg (lit ''-'') then
            (case map_of (ps_allowed_options spec) arg of
               Some opt \<Rightarrow>
                 (case opt_meta opt of
                    Flag \<Rightarrow> scan_args spec (i + 1) rest (st\<lparr>sc_flags := sc_flags st @ [arg]\<rparr>)
                  | Value arg_type \<Rightarrow>
                      scan_args spec (i + 1) rest (st\<lparr>sc_expecting := Some (arg, arg_type)\<rparr>))
             | None \<Rightarrow> Inl (UnknownOption (ps_program spec) arg))
          else scan_args spec (i + 1) rest
            (st\<lparr>sc_args := sc_args st @ [\<lparr>pos_index = i, pos_value = arg\<rparr>]\<rparr>))"

definition exec_of_scan :: "program_spec \<Rightarrow> scanned \<Rightarrow> matched_arg list \<Rightarrow> valid_exec" where
  "exec_of_scan spec st matched_args =
     \<lparr>ve_program = ps_program spec, ve_flags = sc_flags st, ve_opts = sc_opts st,
      ve_args = matched_args, ve_system_path = ps_system_path spec\<rparr>"

definition spec_check ::
  "program_spec \<Rightarrow> exec_call \<Rightarrow> ('k legacy_error + matched_exec) option" where
  "spec_check spec exec_call =
     (case scan_args spec 0 (call_args exec_call) scan_start of
        Inl e \<Rightarrow> Some (Inl e)
      | Inr st \<Rightarrow>
          (case sc_expecting st of
             Some (name, _) \<Rightarrow> Some (Inl (OptionMissingValue (ps_program spec) name))
           | None \<Rightarrow>
               map_option (\<lambda>r. bindE r (\<lambda>matched_args.
                 let missing = ps_required_options spec - set (map mopt_name (sc_opts st))
                 in if missing \<noteq> {} then
                      Inl (MissingRequiredOptions (ps_program spec) (sorted_list_of_set missing))
                    else case ps_forbidden spec of
                      Some reason \<Rightarrow>
                        Inr (ForbiddenMatch (ForbiddenExec (exec_of_scan spec st matched_args)) reason)
                    | None \<Rightarrow> Inr (Match (exec_of_scan spec st matched_args))))
               (resolve_observed_args_with_patterns (ps_program spec) (sc_args st) (ps_arg_patterns spec))))"

text \<open>The examples of a specification; a check that panics would panic here too.\<close>

record 'k positive_example_failed =
  pef_program :: ustr
  pef_args :: "ustr list"
  pef_error :: "'k legacy_error"

record negative_example_passed =
  nep_program :: ustr
  nep_args :: "ustr list"

fun verify_should_match ::
  "program_spec \<Rightarrow> ustr list list \<Rightarrow> 'k positive_example_failed list \<Rightarrow> 'k positive_example_failed list option" where
  "verify_should_match spec [] violations = Some violations"
| "verify_should_match spec (good # rest) violations =
     Option.bind (spec_check spec \<lparr>call_program = ps_program spec, call_args = good\<rparr>) (\<lambda>r.
       case r of
         Inr _ \<Rightarrow> verify_should_match spec rest violations
       | Inl error \<Rightarrow> verify_should_match spec rest
           (violations @ [\<lparr>pef_program = ps_program spec, pef_args = good, pef_error = error\<rparr>]))"

definition verify_should_match_list :: "program_spec \<Rightarrow> 'k positive_example_failed list option" where
  "verify_should_match_list spec = verify_should_match spec (ps_should_match spec) []"

fun verify_should_not_match ::
  "program_spec \<Rightarrow> ustr list list \<Rightarrow> negative_example_passed list \<Rightarrow> negative_example_passed list option" where
  "verify_should_not_match spec [] violations = Some violations"
| "verify_should_not_match spec (bad # rest) violations =
     Option.bind (spec_check spec \<lparr>call_program = ps_program spec, call_args = bad\<rparr>) (\<lambda>r.
       if is_ok (r :: unit legacy_error + matched_exec)
       then verify_should_not_match spec rest
         (violations @ [\<lparr>nep_program = ps_program spec, nep_args = bad\<rparr>])
       else verify_should_not_match spec rest violations)"

definition verify_should_not_match_list :: "program_spec \<Rightarrow> negative_example_passed list option" where
  "verify_should_not_match_list spec = verify_should_not_match spec (ps_should_not_match spec) []"

section \<open>Policies\<close>

text \<open>\<open>regex_lite\<close>: compiling, matching and escaping. Compiled patterns have type \<open>'r\<close>,
  the errors of the compiler type \<open>'x\<close>.\<close>

record ('r, 'x) regex_ops =
  re_new :: "ustr \<Rightarrow> 'x + 'r"
  re_is_match :: "'r \<Rightarrow> ustr \<Rightarrow> bool"
  re_escape :: "ustr \<Rightarrow> ustr"

record 'r forbidden_program_regex =
  fpr_regex :: 'r
  fpr_reason :: ustr

record ('m, 'r) legacy_policy =
  lp_programs :: 'm
  lp_forbidden_program_regexes :: "'r forbidden_program_regex list"
  lp_forbidden_substrings_pattern :: "'r option"

definition legacy_policy_new ::
  "('r, 'x) regex_ops \<Rightarrow> 'm \<Rightarrow> 'r forbidden_program_regex list \<Rightarrow> ustr list \<Rightarrow> 'x + ('m, 'r) legacy_policy" where
  "legacy_policy_new re programs forbidden_program_regexes forbidden_substrings =
     bindE (if forbidden_substrings = [] then Inr None
            else bindE (re_new re (lit ''('' @ join_with (lit ''|'') (map (re_escape re) forbidden_substrings) @ lit '')''))
                   (\<lambda>r. Inr (Some r)))
       (\<lambda>pattern. Inr \<lparr>lp_programs = programs, lp_forbidden_program_regexes = forbidden_program_regexes,
                       lp_forbidden_substrings_pattern = pattern\<rparr>)"

text \<open>The specifications registered for the program are tried in order; the last error is
  returned when none accepts.\<close>

fun check_specs ::
  "exec_call \<Rightarrow> program_spec list \<Rightarrow> 'k legacy_error \<Rightarrow> ('k legacy_error + matched_exec) option" where
  "check_specs exec_call [] last_err = Some (Inl last_err)"
| "check_specs exec_call (spec # specs) last_err =
     Option.bind (spec_check spec exec_call) (\<lambda>r.
       case r of Inr m \<Rightarrow> Some (Inr m) | Inl err \<Rightarrow> check_specs exec_call specs err)"

definition legacy_check ::
  "('m, program_spec) multimap_ops \<Rightarrow> ('r, 'x) regex_ops \<Rightarrow> ('m, 'r) legacy_policy \<Rightarrow> exec_call
    \<Rightarrow> ('k legacy_error + matched_exec) option" where
  "legacy_check mm re pol exec_call =
     (case find (\<lambda>f. re_is_match re (fpr_regex f) (call_program exec_call)) (lp_forbidden_program_regexes pol) of
        Some f \<Rightarrow> Some (Inr (ForbiddenMatch (ForbiddenProgram (call_program exec_call) exec_call) (fpr_reason f)))
      | None \<Rightarrow>
          (case find (\<lambda>arg. case lp_forbidden_substrings_pattern pol of
                         Some r \<Rightarrow> re_is_match re r arg | None \<Rightarrow> False) (call_args exec_call) of
             Some arg \<Rightarrow> Some (Inr (ForbiddenMatch (ForbiddenArg arg exec_call)
               (lit ''arg `'' @ arg @ lit ''` contains forbidden substring'')))
           | None \<Rightarrow>
               (let last_err = NoSpecForProgram (call_program exec_call)
                in case mm_get_vec mm (lp_programs pol) (call_program exec_call) of
                     Some spec_list \<Rightarrow> check_specs exec_call spec_list last_err
                   | None \<Rightarrow> Some (Inl last_err))))"

text \<open>\<open>MultiMap::flat_iter\<close> visits every value of every key.\<close>

definition flat_iter :: "('m, 'v) multimap_ops \<Rightarrow> 'm \<Rightarrow> 'v list" where
  "flat_iter mm m = concat (map snd (mm_iter_all mm m))"

fun concat_options :: "'a list option list \<Rightarrow> 'a list option" where
  "concat_options [] = Some []"
| "concat_options (x # xs) = Option.bind x (\<lambda>a. map_option (append a) (concat_options xs))"

definition check_each_good_list_individually ::
  "('m, program_spec) multimap_ops \<Rightarrow> ('m, 'r) legacy_policy \<Rightarrow> 'k positive_example_failed list option" where
  "check_each_good_list_individually mm pol =
     concat_options (map verify_should_match_list (flat_iter mm (lp_programs pol)))"

definition check_each_bad_list_individually ::
  "('m, program_spec) multimap_ops \<Rightarrow> ('m, 'r) legacy_policy \<Rightarrow> negative_example_passed list option" where
  "check_each_bad_list_individually mm pol =
     concat_options (map verify_should_not_match_list (flat_iter mm (lp_programs pol)))"

section \<open>The policy builder\<close>

text \<open>What the built-in functions of a \<open>.policy\<close> file do to the builder; their arguments are
  already unpacked from Starlark values, an absent optional argument is \<open>None\<close>.\<close>

record ('m, 'r) policy_builder =
  pb_programs :: 'm
  pb_forbidden_program_regexes :: "'r forbidden_program_regex list"
  pb_forbidden_substrings :: "ustr list"

definition policy_builder_new :: "('m, program_spec) multimap_ops \<Rightarrow> ('m, 'r) policy_builder" where
  "policy_builder_new mm =
     \<lparr>pb_programs = mm_new mm, pb_forbidden_program_regexes = [], pb_forbidden_substrings = []\<rparr>"

definition policy_builder_build ::
  "('r, 'x) regex_ops \<Rightarrow> ('m, 'r) policy_builder \<Rightarrow> 'x + ('m, 'r) legacy_policy" where
  "policy_builder_build re pb =
     legacy_policy_new re (pb_programs pb) (pb_forbidden_program_regexes pb) (pb_forbidden_substrings pb)"

definition add_program_spec ::
  "('m, program_spec) multimap_ops \<Rightarrow> program_spec \<Rightarrow> ('m, 'r) policy_builder \<Rightarrow> ('m, 'r) policy_builder" where
  "add_program_spec mm spec pb =
     pb\<lparr>pb_programs := mm_insert mm (pb_programs pb) (ps_program spec) spec\<rparr>"

definition add_forbidden_substrings ::
  "ustr list \<Rightarrow> ('m, 'r) policy_builder \<Rightarrow> ('m, 'r) policy_builder" where
  "add_forbidden_substrings substrings pb =
     pb\<lparr>pb_forbidden_substrings := pb_forbidden_substrings pb @ substrings\<rparr>"

definition add_forbidden_program_regex ::
  "'r \<Rightarrow> ustr \<Rightarrow> ('m, 'r) policy_builder \<Rightarrow> ('m, 'r) policy_builder" where
  "add_forbidden_program_regex regex reason pb =
     pb\<lparr>pb_forbidden_program_regexes :=
       pb_forbidden_program_regexes pb @ [\<lparr>fpr_regex = regex, fpr_reason = reason\<rparr>]\<rparr>"

fun collect_options ::
  "legacy_opt list \<Rightarrow> (ustr \<times> legacy_opt) list \<Rightarrow> ustr + (ustr \<times> legacy_opt) list" where
  "collect_options [] allowed = Inr allowed"
| "collect_options (opt # opts) allowed =
     (if map_of allowed (opt_name opt) \<noteq> None then Inl (lit ''duplicate flag: '' @ opt_name opt)
      else collect_options opts (allowed @ [(opt_name opt, opt)]))"

definition or_empty :: "'a list option \<Rightarrow> 'a list" where
  "or_empty xs = (case xs of Some ys \<Rightarrow> ys | None \<Rightarrow> [])"

definition define_program ::
  "('m, program_spec) multimap_ops \<Rightarrow> ustr \<Rightarrow> ustr list option \<Rightarrow> bool option \<Rightarrow> bool option
    \<Rightarrow> legacy_opt list option \<Rightarrow> arg_matcher list option \<Rightarrow> ustr option
    \<Rightarrow> ustr list list option \<Rightarrow> ustr list list option
    \<Rightarrow> ('m, 'r) policy_builder \<Rightarrow> ustr + ('m, 'r) policy_builder" where
  "define_program mm prog system_path option_bundling combined_format options args forbidden
     should_match should_not_match pb =
     bindE (collect_options (or_empty options) []) (\<lambda>allowed_options.
       Inr (add_program_spec mm
         (program_spec_new prog (or_empty system_path)
            (case option_bundling of Some b \<Rightarrow> b | None \<Rightarrow> False)
            (case combined_format of Some b \<Rightarrow> b | None \<Rightarrow> False)
            allowed_options (or_empty args) forbidden
            (or_empty should_match) (or_empty should_not_match)) pb))"

definition forbid_substrings ::
  "ustr list \<Rightarrow> ('m, 'r) policy_builder \<Rightarrow> 'x + ('m, 'r) policy_builder" where
  "forbid_substrings strings pb = Inr (add_forbidden_substrings strings pb)"

definition forbid_program_regex ::
  "('r, 'x) regex_ops \<Rightarrow> ustr \<Rightarrow> ustr \<Rightarrow> ('m, 'r) policy_builder \<Rightarrow> 'x + ('m, 'r) policy_builder" where
  "forbid_program_regex re regex reason pb =
     bindE (re_new re regex) (\<lambda>compiled. Inr (add_forbidden_program_regex compiled reason pb))"

definition opt_builtin :: "ustr \<Rightarrow> arg_matcher \<Rightarrow> bool option \<Rightarrow> legacy_opt" where
  "opt_builtin name ty required =
     \<lparr>opt_name = name, opt_meta = Value (arg_type_of ty),
      opt_required = (case required of Some b \<Rightarrow> b | None \<Rightarrow> False)\<rparr>"

definition flag_builtin :: "ustr \<Rightarrow> legacy_opt" where
  "flag_builtin name = \<lparr>opt_name = name, opt_meta = Flag, opt_required = False\<rparr>"

section \<open>The exec checker\<close>

text \<open>\<open>path_absolutize\<close> resolves a path lexically, against the working directory of the
  process or a given one; the file system answers whether a path is a regular file and what its
  mode is.\<close>

record 'k fs_ops =
  absolutize :: "ustr \<Rightarrow> 'k + ustr"
  absolutize_from :: "ustr \<Rightarrow> ustr \<Rightarrow> 'k + ustr"
  metadata :: "ustr \<Rightarrow> (bool \<times> 32 word) option"

definition is_executable_file :: "'k fs_ops \<Rightarrow> ustr \<Rightarrow> bool" where
  "is_executable_file fs p =
     (case metadata fs p of
        Some (is_file, mode) \<Rightarrow> is_file \<and> and mode 73 \<noteq> 0
      | None \<Rightarrow> False)"

definition ensure_absolute_path :: "'k fs_ops \<Rightarrow> ustr \<Rightarrow> ustr option \<Rightarrow> 'k legacy_error + ustr" where
  "ensure_absolute_path fs p cwd =
     (if \<not> is_absolute p then
        (case cwd of
           Some cwd \<Rightarrow> map_errE (CannotCanonicalizePath p) (absolutize_from fs p cwd)
         | None \<Rightarrow> Inl (CannotCheckRelativePath p))
      else map_errE (CannotCanonicalizePath p) (absolutize fs p))"

definition in_folders :: "ustr \<Rightarrow> ustr list \<Rightarrow> bool" where
  "in_folders file folders \<longleftrightarrow>
     list_ex (\<lambda>folder. path_starts_with (components file) (components folder)) folders"

fun check_types ::
  "'k fs_ops \<Rightarrow> ustr option \<Rightarrow> ustr list \<Rightarrow> ustr list \<Rightarrow> (arg_type \<times> ustr) list
    \<Rightarrow> 'k legacy_error + unit" where
  "check_types fs cwd readable_folders writeable_folders [] = Inr ()"
| "check_types fs cwd readable_folders writeable_folders ((arg_type, v) # rest) =
     (case arg_type of
        ReadableFileT \<Rightarrow>
          bindE (ensure_absolute_path fs v cwd) (\<lambda>readable_file.
            if \<not> in_folders readable_file readable_folders
            then Inl (ReadablePathNotInReadableFolders readable_file readable_folders)
            else check_types fs cwd readable_folders writeable_folders rest)
      | WriteableFileT \<Rightarrow>
          bindE (ensure_absolute_path fs v cwd) (\<lambda>writeable_file.
            if \<not> in_folders writeable_file writeable_folders
            then Inl (WriteablePathNotInWriteableFolders writeable_file writeable_folders)
            else check_types fs cwd readable_folders writeable_folders rest)
      | _ \<Rightarrow> check_types fs cwd readable_folders writeable_folders rest)"

definition execv_check ::
  "'k fs_ops \<Rightarrow> valid_exec \<Rightarrow> ustr option \<Rightarrow> ustr list \<Rightarrow> ustr list \<Rightarrow> 'k legacy_error + ustr" where
  "execv_check fs valid_exec cwd readable_folders writeable_folders =
     bindE (check_types fs cwd readable_folders writeable_folders
         (map (\<lambda>arg. (marg_type arg, marg_value arg)) (ve_args valid_exec) @
          map (\<lambda>opt. (mopt_type opt, mopt_value opt)) (ve_opts valid_exec)))
       (\<lambda>_. Inr (case find (is_executable_file fs) (ve_system_path valid_exec) of
                   Some system_path \<Rightarrow> system_path
                 | None \<Rightarrow> ve_program valid_exec))"

section \<open>The command line tool\<close>

datatype 'k check_output =
    Safe valid_exec
  | MatchOutput valid_exec
  | ForbiddenOutput ustr forbidden
  | Unverified "'k legacy_error"

definition check_command ::
  "('m, program_spec) multimap_ops \<Rightarrow> ('r, 'x) regex_ops \<Rightarrow> ('m, 'r) legacy_policy \<Rightarrow> exec_call \<Rightarrow> bool
    \<Rightarrow> ('k check_output \<times> int) option" where
  "check_command mm re pol exec_call require_safe =
     map_option (\<lambda>r. case r of
         Inr (Match e) \<Rightarrow>
           if might_write_files e then (MatchOutput e, if require_safe then 12 else 0) else (Safe e, 0)
       | Inr (ForbiddenMatch cause reason) \<Rightarrow> (ForbiddenOutput reason cause, if require_safe then 14 else 0)
       | Inl err \<Rightarrow> (Unverified err, if require_safe then 13 else 0))
     (legacy_check mm re pol exec_call)"

section \<open>Every argument is accounted for\<close>

text \<open>What a scan has taken from the call so far, and what it has checked of it.\<close>

definition taken :: "scanned \<Rightarrow> ustr multiset" where
  "taken st = mset (sc_flags st) + mset (map mopt_name (sc_opts st)) + mset (map mopt_value (sc_opts st)) +
     mset (map pos_value (sc_args st)) +
     (case sc_expecting st of Some (name, _) \<Rightarrow> {#name#} | None \<Rightarrow> {#})"

definition declared_flag :: "program_spec \<Rightarrow> ustr \<Rightarrow> bool" where
  "declared_flag spec name \<longleftrightarrow> (\<exists>opt. map_of (ps_allowed_options spec) name = Some opt \<and> opt_meta opt = Flag)"

definition declared_opt :: "program_spec \<Rightarrow> ustr \<Rightarrow> arg_type \<Rightarrow> bool" where
  "declared_opt spec name ty \<longleftrightarrow>
     (\<exists>opt. map_of (ps_allowed_options spec) name = Some opt \<and> opt_meta opt = Value ty)"

abbreviation dashed :: "ustr \<Rightarrow> bool" where
  "dashed s \<equiv> starts_with s (lit ''-'')"

definition scan_ok :: "program_spec \<Rightarrow> scanned \<Rightarrow> bool" where
  "scan_ok spec st \<longleftrightarrow>
     list_all (declared_flag spec) (sc_flags st) \<and>
     list_all (\<lambda>m. declared_opt spec (mopt_name m) (mopt_type m) \<and> value_ok (mopt_type m) (mopt_value m) \<and>
        \<not> dashed (mopt_value m)) (sc_opts st) \<and>
     list_all (\<lambda>a. \<not> dashed (pos_value a)) (sc_args st) \<and>
     (case sc_expecting st of Some (name, ty) \<Rightarrow> declared_opt spec name ty | None \<Rightarrow> True)"

text \<open>The case analysis of one step of the scan.\<close>

lemma scan_args_step:
  assumes "scan_args spec i (arg # rest) st = (Inr st' :: 'k legacy_error + scanned)"
  obtains (opt_value) name ty where "sc_expecting st = Some (name, ty)" "\<not> dashed arg" "value_ok ty arg"
      "scan_args spec (i + 1) rest (st\<lparr>sc_opts := sc_opts st @ [\<lparr>mopt_name = name, mopt_value = arg, mopt_type = ty\<rparr>],
         sc_expecting := None\<rparr>) = (Inr st' :: 'k legacy_error + scanned)"
  | (flag) "sc_expecting st = None" "declared_flag spec arg"
      "scan_args spec (i + 1) rest (st\<lparr>sc_flags := sc_flags st @ [arg]\<rparr>) = (Inr st' :: 'k legacy_error + scanned)"
  | (opt) ty where "sc_expecting st = None" "declared_opt spec arg ty"
      "scan_args spec (i + 1) rest (st\<lparr>sc_expecting := Some (arg, ty)\<rparr>) = (Inr st' :: 'k legacy_error + scanned)"
  | (positional) "sc_expecting st = None" "\<not> dashed arg"
      "scan_args spec (i + 1) rest (st\<lparr>sc_args := sc_args st @ [\<lparr>pos_index = i, pos_value = arg\<rparr>]\<rparr>) =
        (Inr st' :: 'k legacy_error + scanned)"
proof (cases "sc_expecting st")
  case (Some e)
  then show thesis
    using assms opt_value by (cases e) (auto simp: bindE_eq_Inr_iff matched_opt_new_def validate_ok_iff split: if_splits)
next
  case None
  then show thesis
    using assms flag opt positional
    by (auto simp: declared_flag_def declared_opt_def split: if_splits option.splits opt_meta.splits)
qed

lemma scan_args_taken:
  "scan_args spec i rest st = (Inr st' :: 'k legacy_error + scanned) \<Longrightarrow> taken st' = taken st + mset rest"
proof (induction rest arbitrary: i st)
  case (Cons arg rest)
  from Cons.prems show ?case
    by (cases rule: scan_args_step) (auto dest!: Cons.IH simp: taken_def)
qed simp

lemma scan_args_ok:
  "scan_args spec i rest st = (Inr st' :: 'k legacy_error + scanned) \<Longrightarrow> scan_ok spec st \<Longrightarrow> scan_ok spec st'"
proof (induction rest arbitrary: i st)
  case (Cons arg rest)
  from Cons.prems(1) show ?case
    by (cases rule: scan_args_step) (use Cons.prems(2) Cons.IH in \<open>fastforce simp: scan_ok_def\<close>)+
qed simp

lemma scan_args_index:
  "scan_args spec i rest st = (Inr st' :: 'k legacy_error + scanned) \<Longrightarrow> drop i args = rest \<Longrightarrow>
   \<forall>a \<in> set (sc_args st). pos_index a < length args \<and> args ! pos_index a = pos_value a \<Longrightarrow>
   \<forall>a \<in> set (sc_args st'). pos_index a < length args \<and> args ! pos_index a = pos_value a"
proof (induction rest arbitrary: i st)
  case (Cons arg rest)
  have "tl (drop i args) = rest" "drop i args \<noteq> []" and arg: "args ! i = arg"
    using Cons.prems(2) by (simp_all add: nth_via_drop)
  then have next_rest: "drop (i + 1) args = rest" "i < length args"
    by (simp_all add: drop_Suc tl_drop)
  from Cons.prems(1) show ?case
  proof (cases rule: scan_args_step)
    case (opt_value name ty)
    from Cons.IH [OF opt_value(4) next_rest(1)] Cons.prems(3) show ?thesis by simp
  next
    case flag
    from Cons.IH [OF flag(3) next_rest(1)] Cons.prems(3) show ?thesis by simp
  next
    case (opt ty)
    from Cons.IH [OF opt(3) next_rest(1)] Cons.prems(3) show ?thesis by simp
  next
    case positional
    from Cons.IH [OF positional(3) next_rest(1)] Cons.prems(3) next_rest(2) arg show ?thesis by simp
  qed
qed simp

text \<open>An accepted call, and what it has to do with the call it was accepted for.\<close>

fun exec_of :: "matched_exec \<Rightarrow> valid_exec option" where
  "exec_of (Match e) = Some e"
| "exec_of (ForbiddenMatch (ForbiddenExec e) reason) = Some e"
| "exec_of (ForbiddenMatch cause reason) = None"

definition explains :: "program_spec \<Rightarrow> exec_call \<Rightarrow> valid_exec \<Rightarrow> bool" where
  "explains spec call e \<longleftrightarrow>
     mset (call_args call) = mset (ve_flags e) + mset (map mopt_name (ve_opts e)) +
       mset (map mopt_value (ve_opts e)) + mset (map marg_value (ve_args e)) \<and>
     list_all (declared_flag spec) (ve_flags e) \<and>
     list_all (\<lambda>m. declared_opt spec (mopt_name m) (mopt_type m) \<and>
        value_ok (mopt_type m) (mopt_value m) \<and> \<not> dashed (mopt_value m)) (ve_opts e) \<and>
     list_all (\<lambda>m. marg_index m < length (call_args call) \<and> call_args call ! marg_index m = marg_value m \<and>
        value_ok (marg_type m) (marg_value m) \<and> \<not> dashed (marg_value m)) (ve_args e) \<and>
     ps_required_options spec \<subseteq> set (map mopt_name (ve_opts e)) \<and>
     map marg_type (ve_args e) \<in> {pattern_types k (ps_arg_patterns spec) | k. True}"

lemma spec_check_total: "spec_check spec call \<noteq> (None :: ('k legacy_error + matched_exec) option)"
  using resolve_total by (fastforce simp: spec_check_def split: sum.splits option.splits)

lemma map2_assign_types: "length args = length tys \<Longrightarrow> map marg_type (map2 assign args tys) = tys"
  by (induction args tys rule: list_induct2) (auto simp: assign_def)

lemma spec_check_explains:
  assumes "spec_check spec call = Some (Inr m :: 'k legacy_error + matched_exec)"
  shows "\<exists>e. exec_of m = Some e \<and> explains spec call e \<and> (m = Match e \<longleftrightarrow> ps_forbidden spec = None)"
proof -
  from assms obtain st ms where scan: "scan_args spec 0 (call_args call) scan_start = (Inr st :: 'k legacy_error + scanned)"
    and idle: "sc_expecting st = None"
    and resolve: "resolve_observed_args_with_patterns (ps_program spec) (sc_args st) (ps_arg_patterns spec) =
      Some (Inr ms :: 'k legacy_error + _)"
    and required: "ps_required_options spec - set (map mopt_name (sc_opts st)) = {}"
    and m: "m = (case ps_forbidden spec of
        Some reason \<Rightarrow> ForbiddenMatch (ForbiddenExec (exec_of_scan spec st ms)) reason
      | None \<Rightarrow> Match (exec_of_scan spec st ms))"
    by (fastforce simp: spec_check_def Let_def bindE_eq_Inr_iff split: sum.splits option.splits if_splits)
  from resolve obtain k where k: "list_all2 fits (sc_args st) (pattern_types k (ps_arg_patterns spec))"
    and ms: "ms = map2 assign (sc_args st) (pattern_types k (ps_arg_patterns spec))"
    by (auto simp: resolve_ok_iff assigns_def)
  have "scan_ok spec st"
    using scan_args_ok [OF scan] by (simp add: scan_ok_def scan_start_def)
  then have ok: "list_all (declared_flag spec) (sc_flags st)"
    "list_all (\<lambda>m. declared_opt spec (mopt_name m) (mopt_type m) \<and> value_ok (mopt_type m) (mopt_value m) \<and>
        \<not> dashed (mopt_value m)) (sc_opts st)"
    "\<forall>a \<in> set (sc_args st). \<not> dashed (pos_value a)"
    by (simp_all add: scan_ok_def list_all_iff)
  have taken: "mset (call_args call) = taken st"
    using scan_args_taken [OF scan] by (simp add: taken_def scan_start_def)
  have index: "\<forall>a \<in> set (sc_args st). pos_index a < length (call_args call) \<and> call_args call ! pos_index a = pos_value a"
    using scan_args_index [OF scan, of "call_args call"] by (simp add: scan_start_def)
  have args: "list_all (\<lambda>m. marg_index m < length (call_args call) \<and> call_args call ! marg_index m = marg_value m \<and>
        value_ok (marg_type m) (marg_value m) \<and> \<not> dashed (marg_value m)) ms"
    using assigned_args(2) [OF k] index ok(3) unfolding ms list_all_iff by metis
  have "mset (map marg_value ms) = mset (map pos_value (sc_args st))"
    unfolding ms assigned_args(1) [OF k] ..
  moreover have "map marg_type ms = pattern_types k (ps_arg_patterns spec)"
    unfolding ms by (rule map2_assign_types [OF list_all2_lengthD [OF k]])
  ultimately have "explains spec call (exec_of_scan spec st ms)"
    using ok(1,2) args required taken idle
    unfolding explains_def exec_of_scan_def by (auto simp: taken_def)
  then show ?thesis
    using m by (cases "ps_forbidden spec") auto
qed

text \<open>Checking a call against a specification never panics, and what it accepts accounts for
  the call: its arguments are, as a multiset, the flags, the option names and values and the
  positional values of the result; every flag and option is declared with that kind and type, every
  option the specification requires is present, each positional value is the argument at the index
  recorded for it and has the type its pattern gives, and no value begins with a dash.\<close>

theorem spec_accounts_for_every_argument:
  assumes "spec_check spec call = Some (Inr m :: 'k legacy_error + matched_exec)"
  shows "\<exists>e. exec_of m = Some e \<and> explains spec call e"
  using spec_check_explains [OF assms] by blast

section \<open>Policies forbid first\<close>

text \<open>The documented behaviour of \<open>regex_lite\<close> the policy relies on: the alternation of the
  escaped texts compiles to a pattern that is found in a text when one of them occurs in it.\<close>

definition regex_laws :: "('r, 'x) regex_ops \<Rightarrow> bool" where
  "regex_laws re \<longleftrightarrow>
     (\<forall>texts r arg. texts \<noteq> [] \<and>
        re_new re (lit ''('' @ join_with (lit ''|'') (map (re_escape re) texts) @ lit '')'') = Inr r \<longrightarrow>
        re_is_match re r arg = list_ex (\<lambda>t. sublist t arg) texts)"

lemma regex_lawsD:
  "regex_laws re \<Longrightarrow> texts \<noteq> [] \<Longrightarrow>
   re_new re (lit ''('' @ join_with (lit ''|'') (map (re_escape re) texts) @ lit '')'') = Inr r \<Longrightarrow>
   re_is_match re r arg = list_ex (\<lambda>t. sublist t arg) texts"
  by (auto simp: regex_laws_def)

lemma check_specs_InrD:
  "check_specs call specs err = Some (Inr m :: 'k legacy_error + matched_exec) \<Longrightarrow>
   \<exists>spec \<in> set specs. spec_check spec call = Some (Inr m :: 'k legacy_error + matched_exec)"
proof (induction specs arbitrary: err)
  case (Cons spec specs)
  obtain r where r: "spec_check spec call = Some (r :: 'k legacy_error + matched_exec)"
    using spec_check_total by fastforce
  then show ?case
    using Cons by (cases r) auto
qed simp

lemma find_None_list_all: "find p xs = None \<longleftrightarrow> list_all (\<lambda>x. \<not> p x) xs"
  by (auto simp: find_None_iff list_all_iff)

text \<open>A call that a policy matches uses a program that none of its forbidden expressions
  matches, has no argument containing a forbidden substring, and is accounted for by one of the
  specifications registered for its program, which does not forbid it.\<close>

theorem legacy_match_respects_policy:
  assumes "regex_laws re"
    and "legacy_policy_new re programs regexes substrings = Inr pol"
    and "legacy_check mm re pol call = Some (Inr (Match e) :: 'k legacy_error + matched_exec)"
  shows "list_all (\<lambda>f. \<not> re_is_match re (fpr_regex f) (call_program call)) regexes \<and>
    list_all (\<lambda>arg. list_all (\<lambda>t. \<not> sublist t arg) substrings) (call_args call) \<and>
    (\<exists>specs spec. mm_get_vec mm programs (call_program call) = Some specs \<and> spec \<in> set specs \<and>
       ps_forbidden spec = None \<and> explains spec call e)"
proof -
  from assms(2) obtain pattern where pol: "pol = \<lparr>lp_programs = programs, lp_forbidden_program_regexes = regexes,
      lp_forbidden_substrings_pattern = pattern\<rparr>"
    and pattern: "substrings = [] \<and> pattern = None \<or> substrings \<noteq> [] \<and> (\<exists>r. pattern = Some r \<and>
      re_new re (lit ''('' @ join_with (lit ''|'') (map (re_escape re) substrings) @ lit '')'') = Inr r)"
    by (auto simp: legacy_policy_new_def bindE_eq_Inr_iff split: if_splits)
  from assms(3) obtain specs where no_regex: "find (\<lambda>f. re_is_match re (fpr_regex f) (call_program call)) regexes = None"
    and no_sub: "find (\<lambda>arg. case pattern of Some r \<Rightarrow> re_is_match re r arg | None \<Rightarrow> False) (call_args call) = None"
    and specs: "mm_get_vec mm programs (call_program call) = Some specs"
    and ok: "check_specs call specs (NoSpecForProgram (call_program call)) = Some (Inr (Match e) :: 'k legacy_error + _)"
    by (auto simp: legacy_check_def pol Let_def split: option.splits)
  have "list_all (\<lambda>t. \<not> sublist t arg) substrings" if "arg \<in> set (call_args call)" for arg
    using pattern that no_sub regex_lawsD [OF assms(1)]
    by (auto simp: find_None_list_all list_all_iff list_ex_iff)
  moreover obtain spec where spec: "spec \<in> set specs"
    and accepted: "spec_check spec call = Some (Inr (Match e) :: 'k legacy_error + _)"
    using check_specs_InrD [OF ok] by blast
  have "ps_forbidden spec = None" "explains spec call e"
    using spec_check_explains [OF accepted] by auto
  ultimately show ?thesis
    using no_regex specs spec by (auto simp: find_None_list_all list_all_iff)
qed

section \<open>The folders of an accepted call\<close>

definition typed_values :: "valid_exec \<Rightarrow> (arg_type \<times> ustr) list" where
  "typed_values e =
     map (\<lambda>arg. (marg_type arg, marg_value arg)) (ve_args e) @
     map (\<lambda>opt. (mopt_type opt, mopt_value opt)) (ve_opts e)"

definition resolves_into :: "'k fs_ops \<Rightarrow> ustr option \<Rightarrow> ustr list \<Rightarrow> ustr \<Rightarrow> bool" where
  "resolves_into fs cwd folders v \<longleftrightarrow>
     (case ensure_absolute_path fs v cwd of Inr file \<Rightarrow> in_folders file folders | Inl e \<Rightarrow> False)"

lemma check_types_ok_iff:
  "check_types fs cwd rd wr tvs = Inr u \<longleftrightarrow>
     list_all (\<lambda>(ty, v). case ty of
        ReadableFileT \<Rightarrow> resolves_into fs cwd rd v
      | WriteableFileT \<Rightarrow> resolves_into fs cwd wr v
      | _ \<Rightarrow> True) tvs"
proof (induction tvs)
  case (Cons tv tvs)
  obtain ty v where tv: "tv = (ty, v)" by fastforce
  show ?case
    using Cons unfolding tv
    by (cases ty; cases "ensure_absolute_path fs v cwd") (auto simp: resolves_into_def)
qed simp

text \<open>The exec checker accepts a matched call exactly when every argument and option value
  typed as a readable file resolves to an absolute path below a readable folder, and every one
  typed as a writeable file to one below a writeable folder; it then answers with the first
  executable file of the system path, or with the name of the program when there is none.\<close>

theorem execv_check_confines_files:
  "execv_check fs e cwd readable_folders writeable_folders = Inr prog \<longleftrightarrow>
     list_all (\<lambda>(ty, v). case ty of
        ReadableFileT \<Rightarrow> resolves_into fs cwd readable_folders v
      | WriteableFileT \<Rightarrow> resolves_into fs cwd writeable_folders v
      | _ \<Rightarrow> True) (typed_values e) \<and>
     prog = hd (filter (is_executable_file fs) (ve_system_path e) @ [ve_program e])"
proof -
  have "(case find p xs of Some x \<Rightarrow> x | None \<Rightarrow> y) = hd (filter p xs @ [y])" for p :: "ustr \<Rightarrow> bool" and xs y
    by (induction xs) auto
  then show ?thesis
    by (auto simp: execv_check_def bindE_eq_Inr_iff typed_values_def check_types_ok_iff)
qed

text \<open>With \<open>--require-safe\<close> the tool exits with 0 exactly when it reports the call as safe,
  and a call reported as safe has no value typed as a writeable file or of unknown type; without the
  flag it always exits with 0.\<close>

theorem exit_code_reports_safety:
  "\<exists>result code. check_command mm re pol call require_safe = Some (result :: 'k check_output, code) \<and>
     (code = 0 \<longleftrightarrow> (if require_safe then \<exists>e. result = Safe e \<and>
        list_all (\<lambda>(ty, v). ty \<noteq> WriteableFileT \<and> ty \<noteq> UnknownT) (typed_values e) \<and>
        legacy_check mm re pol call = Some (Inr (Match e) :: 'k legacy_error + matched_exec) else True))"
proof -
  have writes: "might_write_file ty \<longleftrightarrow> ty = WriteableFileT \<or> ty = UnknownT" for ty
    by (cases ty) auto
  have safe: "list_all (\<lambda>(ty, v). ty \<noteq> WriteableFileT \<and> ty \<noteq> UnknownT) (typed_values e) \<longleftrightarrow> \<not> might_write_files e" for e
    by (auto simp: typed_values_def might_write_files_def list_all_iff list_ex_iff writes)
  have specs: "check_specs call specs err \<noteq> (None :: ('k legacy_error + matched_exec) option)" for specs err
  proof (induction specs arbitrary: err)
    case (Cons spec specs)
    obtain r where "spec_check spec call = Some (r :: 'k legacy_error + matched_exec)"
      using spec_check_total by fastforce
    then show ?case
      using Cons by (cases r) auto
  qed simp
  then have "legacy_check mm re pol call \<noteq> (None :: ('k legacy_error + matched_exec) option)"
    by (simp add: legacy_check_def Let_def split: option.splits)
  then obtain r where r: "legacy_check mm re pol call = Some (r :: 'k legacy_error + matched_exec)"
    by auto
  show ?thesis
  proof (cases r)
    case (Inl err)
    then show ?thesis by (simp add: check_command_def r)
  next
    case (Inr m)
    then show ?thesis
      by (cases m) (simp_all add: check_command_def r safe)
  qed
qed

section \<open>A concrete policy\<close>

text \<open>A matcher for patterns of the one shape the policy builds: escaping moves every character
  out of the range of the separators.\<close>

definition shifted_regex :: "(ustr, unit) regex_ops" where
  "shifted_regex =
     \<lparr>re_new = Inr,
      re_is_match = (\<lambda>r arg. list_ex (\<lambda>p. sublist (map (\<lambda>c. c - 1000) p) arg) (split_on 124 (butlast (tl r)))),
      re_escape = map (\<lambda>c. c + 1000)\<rparr>"

lemma shifted_regex_laws: "regex_laws shifted_regex"
proof -
  have "split_on 124 (butlast (tl (40 # join_with [124] (map (map (\<lambda>c. c + 1000)) texts) @ [41]))) =
      map (map (\<lambda>c. c + 1000)) texts" if "texts \<noteq> []" for texts :: "ustr list"
  proof -
    have "124 \<notin> (\<lambda>c. c + 1000) ` A" for A :: "nat set" by auto
    then show ?thesis
      using split_join [of "map (map (\<lambda>c. c + 1000)) texts" 124] that by simp
  qed
  moreover have "map ((\<lambda>c. c - 1000) \<circ> (\<lambda>c. c + 1000)) t = t" for t :: ustr
    by (simp add: comp_def)
  ultimately show ?thesis
    by (auto simp: regex_laws_def shifted_regex_def lit_def list_ex_iff)
qed

definition cat_spec :: program_spec where
  "cat_spec = program_spec_new (lit ''cat'') [lit ''/bin/cat''] False False
     [(lit ''-n'', flag_builtin (lit ''-n''))] [ReadableFiles] None [] []"

definition ls_spec :: program_spec where
  "ls_spec = program_spec_new (lit ''ls'') [] False False [] [ReadableFilesOrCwd] None [] []"

definition cat_exec :: valid_exec where
  "cat_exec = \<lparr>ve_program = lit ''cat'', ve_flags = [lit ''-n''], ve_opts = [],
     ve_args = [\<lparr>marg_index = 1, marg_type = ReadableFileT, marg_value = lit ''a.txt''\<rparr>],
     ve_system_path = [lit ''/bin/cat'']\<rparr>"

definition cat_call :: exec_call where
  "cat_call = \<lparr>call_program = lit ''cat'', call_args = [lit ''-n'', lit ''a.txt'']\<rparr>"

lemma cat_accepted: "spec_check cat_spec cat_call = Some (Inr (Match cat_exec) :: 'k legacy_error + _)"
  by (simp add: spec_check_def cat_spec_def cat_call_def cat_exec_def program_spec_new_def scan_start_def
      starts_with_def flag_builtin_def resolve_observed_args_with_patterns_def partition_args_def no_args_def
      get_range_checked_def resolve_after_prefix_def match_vararg_def resolve_suffix_def matched_arg_new_def
      exec_of_scan_def lit_def)

theorem spec_accounts_for_every_argument_witness:
  "\<exists>e. exec_of (Match cat_exec) = Some e \<and> explains cat_spec cat_call e"
  by (rule spec_accounts_for_every_argument [OF cat_accepted])

definition cat_policy :: "((ustr \<times> program_spec list) list, ustr) legacy_policy" where
  "cat_policy = \<lparr>lp_programs = [(lit ''cat'', [cat_spec])], lp_forbidden_program_regexes = [],
     lp_forbidden_substrings_pattern = Some (lit ''('' @ map (\<lambda>c. c + 1000) (lit ''&&'') @ lit '')'')\<rparr>"

lemma cat_policy_new: "legacy_policy_new shifted_regex [(lit ''cat'', [cat_spec])] [] [lit ''&&''] = Inr cat_policy"
  by (simp add: legacy_policy_new_def shifted_regex_def cat_policy_def)

lemma cat_policy_match: "legacy_check alist_multimap shifted_regex cat_policy cat_call =
    Some (Inr (Match cat_exec) :: 'k legacy_error + _)"
proof -
  have "re_is_match shifted_regex (lit ''('' @ map (\<lambda>c. c + 1000) (lit ''&&'') @ lit '')'') arg = sublist (lit ''&&'') arg" for arg
  proof -
    have "re_new shifted_regex r = Inr r" "re_escape shifted_regex t = map (\<lambda>c. c + 1000) t" for r t
      by (simp_all add: shifted_regex_def)
    then show ?thesis
      using regex_lawsD [OF shifted_regex_laws, of "[lit ''&&'']"] by simp
  qed
  then show ?thesis
    using cat_accepted [where 'k = 'k]
    by (simp add: legacy_check_def cat_policy_def cat_call_def alist_multimap_def sublist_Cons_right lit_def)
qed

theorem legacy_match_respects_policy_witness:
  "list_all (\<lambda>arg. \<not> sublist (lit ''&&'') arg) (call_args cat_call) \<and>
   (\<exists>specs spec. mm_get_vec alist_multimap [(lit ''cat'', [cat_spec])] (call_program cat_call) = Some specs \<and>
      spec \<in> set specs \<and> ps_forbidden spec = None \<and> explains spec cat_call cat_exec)"
  using legacy_match_respects_policy [OF shifted_regex_laws cat_policy_new cat_policy_match] by simp

text \<open>The pattern \<open>ReadableFilesOrCwd\<close> stands for reading the working directory when there is
  no argument, but the exec checker looks at the matched values only: \<open>ls\<close> without arguments
  passes with no readable folder at all, whatever the working directory is.\<close>

lemma cwd_reading_unchecked:
  "\<exists>e. spec_check ls_spec \<lparr>call_program = lit ''ls'', call_args = []\<rparr> = Some (Inr (Match e) :: 'k legacy_error + _) \<and>
     execv_check fs e cwd [] [] = (Inr (lit ''ls'') :: 'k legacy_error + _)"
  by (simp add: cwd_reading_leaves_no_argument spec_check_def ls_spec_def program_spec_new_def scan_start_def exec_of_scan_def execv_check_def)

end
