(* ===== verification/OutputBuffer.thy ===== *)
theory OutputBuffer
  imports Prelude
begin

text \<open>
  The buffer of a long-running process (\<open>core/src/unified_exec/head_tail_buffer.rs\<close>): at most
  \<open>max_bytes\<close> bytes, half of them the first ones the process wrote and half the last ones. A
  byte is an 8-bit word, the two deques are lists of chunks, and the counters are \<open>usize\<close>
  naturals with the saturating operations of the source. The abstract buffer is the whole
  stream the process has written: the locale \<open>capped_stream\<close> states what a buffer that shows a
  function of the stream promises for any sequence of operations, and the interpretation at
  the end discharges it for the code's buffer.
\<close>

type_synonym byte = "8 word"

record head_tail_buffer =
  max_bytes :: nat
  head_budget :: nat
  tail_budget :: nat
  head_chunks :: "byte list list"
  tail_chunks :: "byte list list"
  head_bytes :: nat
  tail_bytes :: nat
  omitted_bytes :: nat

definition unified_exec_output_max_bytes :: nat where
  "unified_exec_output_max_bytes = 1024 * 1024"

definition buffer_new :: "nat \<Rightarrow> head_tail_buffer" where
  "buffer_new n =
     \<lparr>max_bytes = n, head_budget = n div 2, tail_budget = n - n div 2, head_chunks = [],
      tail_chunks = [], head_bytes = 0, tail_bytes = 0, omitted_bytes = 0\<rparr>"

definition buffer_default :: head_tail_buffer where
  "buffer_default = buffer_new unified_exec_output_max_bytes"

definition retained_bytes :: "head_tail_buffer \<Rightarrow> nat" where
  "retained_bytes b = sat_add (head_bytes b) (tail_bytes b)"

text \<open>The loop of \<open>trim_tail_to_budget\<close> pops the oldest chunks of the tail.\<close>

fun trim_loop :: "nat \<Rightarrow> byte list list \<Rightarrow> nat \<Rightarrow> nat \<Rightarrow> byte list list \<times> nat \<times> nat" where
  "trim_loop excess [] tb om = ([], tb, om)"
| "trim_loop excess (front # rest) tb om =
     (if excess = 0 then (front # rest, tb, om)
      else if excess \<ge> length front
      then trim_loop (excess - length front) rest (tb - length front) (sat_add om (length front))
      else (drop excess front # rest, tb - excess, sat_add om excess))"

definition trim_tail_to_budget :: "head_tail_buffer \<Rightarrow> head_tail_buffer" where
  "trim_tail_to_budget b =
     (case trim_loop (tail_bytes b - tail_budget b) (tail_chunks b) (tail_bytes b) (omitted_bytes b) of
        (chunks, tb, om) \<Rightarrow> b\<lparr>tail_chunks := chunks, tail_bytes := tb, omitted_bytes := om\<rparr>)"

definition push_to_tail :: "byte list \<Rightarrow> head_tail_buffer \<Rightarrow> head_tail_buffer" where
  "push_to_tail chunk b =
     (if tail_budget b = 0 then b\<lparr>omitted_bytes := sat_add (omitted_bytes b) (length chunk)\<rparr>
      else if length chunk \<ge> tail_budget b then
        let start = length chunk - tail_budget b;
            kept = drop start chunk;
            dropped = length chunk - length kept
        in b\<lparr>omitted_bytes := sat_add (sat_add (omitted_bytes b) (tail_bytes b)) dropped,
             tail_bytes := length kept, tail_chunks := [kept]\<rparr>
      else trim_tail_to_budget
        (b\<lparr>tail_bytes := sat_add (tail_bytes b) (length chunk), tail_chunks := tail_chunks b @ [chunk]\<rparr>))"

definition push_chunk :: "byte list \<Rightarrow> head_tail_buffer \<Rightarrow> head_tail_buffer" where
  "push_chunk chunk b =
     (if max_bytes b = 0 then b\<lparr>omitted_bytes := sat_add (omitted_bytes b) (length chunk)\<rparr>
      else if head_bytes b < head_budget b then
        let remaining_head = head_budget b - head_bytes b
        in if length chunk \<le> remaining_head
           then b\<lparr>head_bytes := sat_add (head_bytes b) (length chunk), head_chunks := head_chunks b @ [chunk]\<rparr>
           else
             let head_part = take remaining_head chunk;
                 tail_part = drop remaining_head chunk;
                 b' = (if head_part \<noteq> []
                       then b\<lparr>head_bytes := sat_add (head_bytes b) (length head_part),
                              head_chunks := head_chunks b @ [head_part]\<rparr>
                       else b)
             in push_to_tail tail_part b'
      else push_to_tail chunk b)"

definition snapshot_chunks :: "head_tail_buffer \<Rightarrow> byte list list" where
  "snapshot_chunks b = head_chunks b @ tail_chunks b"

definition to_bytes :: "head_tail_buffer \<Rightarrow> byte list" where
  "to_bytes b = concat (head_chunks b) @ concat (tail_chunks b)"

definition drain_chunks :: "head_tail_buffer \<Rightarrow> byte list list \<times> head_tail_buffer" where
  "drain_chunks b =
     (head_chunks b @ tail_chunks b,
      b\<lparr>head_chunks := [], tail_chunks := [], head_bytes := 0, tail_bytes := 0, omitted_bytes := 0\<rparr>)"

section \<open>The interface\<close>

text \<open>A process writes chunks and its readers drain the buffer; the stream is what was written
  since the last drain.\<close>

datatype buffer_op = Push "byte list" | Drain

fun stream_step :: "buffer_op \<Rightarrow> byte list \<Rightarrow> byte list" where
  "stream_step (Push chunk) s = s @ chunk"
| "stream_step Drain s = []"

fun buffer_step :: "buffer_op \<Rightarrow> head_tail_buffer \<Rightarrow> head_tail_buffer" where
  "buffer_step (Push chunk) b = push_chunk chunk b"
| "buffer_step Drain b = snd (drain_chunks b)"

locale capped_stream =
  fixes rep :: "'b \<Rightarrow> byte list \<Rightarrow> bool"
    and step :: "buffer_op \<Rightarrow> 'b \<Rightarrow> 'b"
  assumes step_refines: "rep b s \<Longrightarrow> rep (step op b) (stream_step op s)"
begin

lemma run_refines: "rep b s \<Longrightarrow> rep (fold step ops b) (fold stream_step ops s)"
  by (induction ops arbitrary: b s) (auto intro: step_refines)

end

section \<open>The buffer shows the ends of the stream\<close>

definition last_n :: "nat \<Rightarrow> 'a list \<Rightarrow> 'a list" where
  "last_n n xs = drop (length xs - n) xs"

definition ends :: "nat \<Rightarrow> byte list \<Rightarrow> byte list" where
  "ends n s = take (n div 2) s @ last_n (n - n div 2) (drop (n div 2) s)"

text \<open>The representation of a stream: both halves, their counters and what was left out.\<close>

definition represents :: "nat \<Rightarrow> nat \<Rightarrow> head_tail_buffer \<Rightarrow> byte list \<Rightarrow> bool" where
  "represents hb tb b s \<longleftrightarrow>
     max_bytes b = hb + tb \<and> head_budget b = hb \<and> tail_budget b = tb \<and>
     concat (head_chunks b) = take hb s \<and>
     concat (tail_chunks b) = last_n tb (drop hb s) \<and>
     head_bytes b = min hb (length s) \<and>
     tail_bytes b = min tb (length s - hb) \<and>
     omitted_bytes b = min usize_max (length s - (hb + tb))"

lemma length_last_n [simp]: "length (last_n n xs) = min n (length xs)"
  by (simp add: last_n_def min_def)

lemma last_n_all [simp]: "length xs \<le> n \<Longrightarrow> last_n n xs = xs"
  by (simp add: last_n_def)

lemma last_n_append: "last_n n (xs @ ys) = last_n (n - length ys) xs @ last_n n ys"
  by (cases "n \<le> length ys") (auto simp: last_n_def)

text \<open>The loop drops exactly the oldest \<open>excess\<close> bytes.\<close>

lemma trim_loop_drops:
  assumes "excess \<le> length (concat chunks)" and "length (concat chunks) \<le> tb"
  shows "\<exists>chunks'. trim_loop excess chunks tb (min usize_max om) = (chunks', tb - excess, min usize_max (om + excess)) \<and>
    concat chunks' = drop excess (concat chunks)"
  using assms
proof (induction chunks arbitrary: excess tb om)
  case (Cons front rest)
  show ?case
  proof (cases "excess \<ge> length front")
    case True
    then show ?thesis
      using Cons.prems Cons.IH [of "excess - length front" "tb - length front" "om + length front"]
      by (cases "excess = 0") (auto simp: algebra_simps)
  next
    case False
    then show ?thesis by auto
  qed
qed simp

lemma last_n_0 [simp]: "last_n 0 xs = []"
  by (simp add: last_n_def)

lemma drop_last_n: "j + (length xs - m) = length xs - k \<Longrightarrow> drop j (last_n m xs) = last_n k xs"
  by (simp add: last_n_def)

lemma represents_new: "represents (n div 2) (n - n div 2) (buffer_new n) []"
  by (simp add: represents_def buffer_new_def)

lemma represents_drain: "represents hb tb b s \<Longrightarrow> represents hb tb (snd (drain_chunks b)) []"
  by (simp add: represents_def drain_chunks_def)

text \<open>Once the head is full, bytes go to the tail. The tail budget is at most half of the range
  of \<open>usize\<close>, so that the sum of two tails does not saturate.\<close>

lemma push_to_tail_represents:
  assumes rep: "represents hb tb b s" and full: "hb \<le> length s" and tb: "2 * tb \<le> usize_max + 1"
  shows "represents hb tb (push_to_tail chunk b) (s @ chunk)"
proof -
  obtain t where s: "s = take hb s @ t" "length (take hb s) = hb" "t = drop hb s"
    using full by simp
  have len: "length s - hb = length t" "length s - (hb + tb) = length t - tb" "length s = hb + length t"
    using full s(3) by simp_all
  have head: "take hb (s @ chunk) = take hb s" and tail: "drop hb (s @ chunk) = t @ chunk"
    using full s(3) by simp_all
  note rep = rep [unfolded represents_def len, folded s(3)]
  have goal: "represents hb tb b' (s @ chunk)"
    if "max_bytes b' = hb + tb" "head_budget b' = hb" "tail_budget b' = tb" "head_chunks b' = head_chunks b"
      "head_bytes b' = head_bytes b" "concat (tail_chunks b') = last_n tb (t @ chunk)"
      "tail_bytes b' = min tb (length t + length chunk)"
      "omitted_bytes b' = min usize_max (length t + length chunk - tb)" for b'
    using that rep by (simp add: represents_def head tail len flip: s(3))
  consider (none) "tb = 0" | (large) "tb \<noteq> 0" "tb \<le> length chunk" | (small) "length chunk < tb" by linarith
  then show ?thesis
  proof cases
    case none
    then show ?thesis
      by (intro goal) (use rep in \<open>simp_all add: push_to_tail_def\<close>)
  next
    case large
    have "length t - tb + min tb (length t) + (length chunk - tb) = length t + length chunk - tb"
      using large by linarith
    moreover have "push_to_tail chunk b =
        b\<lparr>omitted_bytes := sat_add (sat_add (omitted_bytes b) (tail_bytes b)) (length chunk - tb),
          tail_bytes := tb, tail_chunks := [last_n tb chunk]\<rparr>"
      using rep large by (simp add: push_to_tail_def last_n_def Let_def)
    ultimately show ?thesis
      by (intro goal) (use rep large in \<open>simp_all add: last_n_append\<close>)
  next
    case small
    define excess where "excess = min tb (length t) + length chunk - tb"
    let ?chunks = "tail_chunks b @ [chunk]" and ?bytes = "min tb (length t) + length chunk"
    have bytes: "sat_add (tail_bytes b) (length chunk) = ?bytes"
      using rep small tb by (simp add: sat_add_def)
    have chunks: "concat ?chunks = last_n tb t @ chunk"
      using rep by simp
    have "excess \<le> length (concat ?chunks)" "length (concat ?chunks) \<le> ?bytes"
      unfolding chunks excess_def by simp_all
    from trim_loop_drops [OF this, of "length t - tb"] obtain chunks' where
      loop: "trim_loop excess ?chunks ?bytes (min usize_max (length t - tb)) =
        (chunks', ?bytes - excess, min usize_max (length t - tb + excess))"
      and cut: "concat chunks' = drop excess (last_n tb t @ chunk)"
      unfolding chunks by blast
    have "excess + (length t - tb) = length t - (tb - length chunk)" "excess \<le> length (last_n tb t)"
      using small unfolding excess_def length_last_n by linarith+
    then have "concat chunks' = last_n tb (t @ chunk)"
      using cut small by (simp add: last_n_append drop_last_n)
    moreover have "?bytes - excess = min tb (length t + length chunk)"
        "length t - tb + excess = length t + length chunk - tb"
      using small unfolding excess_def by linarith+
    moreover have "push_to_tail chunk b = b\<lparr>tail_chunks := chunks', tail_bytes := ?bytes - excess,
        omitted_bytes := min usize_max (length t - tb + excess)\<rparr>"
      using rep small bytes loop by (simp add: push_to_tail_def trim_tail_to_budget_def excess_def)
    ultimately show ?thesis
      by (intro goal) (use rep in simp_all)
  qed
qed

lemma push_chunk_represents:
  assumes rep: "represents hb tb b s" and hb: "hb \<le> usize_max" and tb: "2 * tb \<le> usize_max + 1"
  shows "represents hb tb (push_chunk chunk b) (s @ chunk)"
proof -
  consider (none) "hb + tb = 0" | (full) "hb + tb \<noteq> 0" "hb \<le> length s"
    | (fits) "length s < hb" "length chunk \<le> hb - length s"
    | (splits) "length s < hb" "hb - length s < length chunk" by linarith
  then show ?thesis
  proof cases
    case none
    then show ?thesis
      using rep by (simp add: represents_def push_chunk_def)
  next
    case full
    then have "push_chunk chunk b = push_to_tail chunk b"
      using rep by (auto simp: represents_def push_chunk_def)
    then show ?thesis
      using push_to_tail_represents [OF rep full(2) tb] by simp
  next
    case fits
    then show ?thesis
      using rep hb by (simp add: represents_def push_chunk_def)
  next
    case splits
    let ?rem = "hb - length s"
    let ?b = "b\<lparr>head_bytes := hb, head_chunks := head_chunks b @ [take ?rem chunk]\<rparr>"
    have "represents hb tb ?b (s @ take ?rem chunk)"
      using rep splits by (simp add: represents_def)
    from push_to_tail_represents [OF this _ tb, of "drop ?rem chunk"]
    have "represents hb tb (push_to_tail (drop ?rem chunk) ?b) (s @ chunk)"
      using splits by simp
    moreover have "take ?rem chunk \<noteq> []" "sat_add (length s) ?rem = hb"
      using splits hb by auto
    ultimately show ?thesis
      using rep splits by (simp add: represents_def push_chunk_def Let_def)
  qed
qed

definition represents_half :: "nat \<Rightarrow> head_tail_buffer \<Rightarrow> byte list \<Rightarrow> bool" where
  "represents_half n b s \<longleftrightarrow> n \<le> usize_max \<and> represents (n div 2) (n - n div 2) b s"

interpretation halves: capped_stream "represents_half n" buffer_step for n
proof
  fix b s op
  assume r: "represents_half n b s"
  have "2 * (n - n div 2) \<le> usize_max + 1" "n div 2 \<le> usize_max"
    using r by (auto simp: represents_half_def)
  then show "represents_half n (buffer_step op b) (stream_step op s)"
    using r by (cases op) (auto simp: represents_half_def intro: push_chunk_represents represents_drain)
qed

text \<open>C38: Whatever is pushed into a buffer of at most \<open>n\<close> bytes and whenever it is drained, the
  buffer shows the first half and the last half of the stream since the last drain (all of it while
  it has no more than \<open>n\<close> bytes), it retains the smaller of the length of the stream and \<open>n\<close>,
  and it counts every byte it left out, up to the range of the counter.\<close>

theorem buffer_shows_both_ends:
  assumes "n \<le> usize_max"
  shows "let b = fold buffer_step ops (buffer_new n); s = fold stream_step ops []
    in to_bytes b = ends n s \<and> concat (snapshot_chunks b) = to_bytes b \<and>
       retained_bytes b = min n (length s) \<and> length (to_bytes b) = min n (length s) \<and>
       omitted_bytes b = min usize_max (length s - n)"
proof -
  define b where "b = fold buffer_step ops (buffer_new n)"
  define s where "s = fold stream_step ops []"
  have "represents_half n (buffer_new n) []"
    using assms represents_new by (simp add: represents_half_def)
  then have "represents_half n b s"
    unfolding b_def s_def by (rule halves.run_refines)
  then have rep: "represents (n div 2) (n - n div 2) b s"
    by (simp add: represents_half_def)
  have "min (n div 2) (length s) + min (n - n div 2) (length s - n div 2) = min n (length s)"
    by linarith
  then have "retained_bytes b = min n (length s)" "length (ends n s) = min n (length s)"
    using rep assms by (simp_all add: represents_def retained_bytes_def sat_add_def ends_def min.commute)
  moreover have "to_bytes b = ends n s"
    using rep by (simp add: represents_def to_bytes_def ends_def)
  moreover have "omitted_bytes b = min usize_max (length s - n)"
    using rep by (simp add: represents_def)
  moreover have "concat (snapshot_chunks b) = to_bytes b"
    by (simp add: snapshot_chunks_def to_bytes_def)
  ultimately show ?thesis
    unfolding b_def [symmetric] s_def [symmetric] by simp
qed

lemma ends_short: "length s \<le> n \<Longrightarrow> ends n s = s"
  by (simp add: ends_def)

theorem buffer_shows_both_ends_witness:
  "let b = fold buffer_step [Push [1, 2, 3], Push [4, 5, 6, 7]] (buffer_new 4)
   in to_bytes b = [1, 2, 6, 7] \<and> retained_bytes b = 4 \<and> omitted_bytes b = 3"
  using buffer_shows_both_ends [of 4 "[Push [1, 2, 3], Push [4, 5, 6, 7]]"]
  by (simp add: usize_max_def ends_def last_n_def Let_def)

end
