(* ===== verification/OutputStreaming.thy ===== *)
theory OutputStreaming
  imports OutputBuffer
begin

text \<open>
  The task that streams the output of a process
  (\<open>core/src/unified_exec/async_watcher.rs\<close>): every chunk received from the terminal is cut into
  pieces, each piece is pushed into the transcript (\<open>OutputBuffer\<close>) and, up to a limit, emitted
  as a delta event. The branches of the task's \<open>select!\<close> loop are the steps of a relation.
\<close>

section \<open>Cutting at UTF-8 boundaries\<close>

text \<open>\<open>std::str::from_utf8\<close> accepts well-formed UTF-8: no overlong forms, no surrogates, nothing
  above the last scalar value.\<close>

definition between :: "byte \<Rightarrow> nat \<Rightarrow> nat \<Rightarrow> bool" where
  "between b lo hi \<longleftrightarrow> lo \<le> unat b \<and> unat b \<le> hi"

definition continuation :: "byte \<Rightarrow> bool" where
  "continuation b \<longleftrightarrow> between b 128 191"

definition second_of_three :: "byte \<Rightarrow> byte \<Rightarrow> bool" where
  "second_of_three a b \<longleftrightarrow>
     (if unat a = 224 then between b 160 191 else if unat a = 237 then between b 128 159 else continuation b)"

definition second_of_four :: "byte \<Rightarrow> byte \<Rightarrow> bool" where
  "second_of_four a b \<longleftrightarrow>
     (if unat a = 240 then between b 144 191 else if unat a = 244 then between b 128 143 else continuation b)"

fun from_utf8_ok :: "byte list \<Rightarrow> bool" where
  "from_utf8_ok [] = True"
| "from_utf8_ok (a # rest) =
     (if unat a < 128 then from_utf8_ok rest
      else case rest of
        [] \<Rightarrow> False
      | b # rest2 \<Rightarrow>
          if between a 194 223 then continuation b \<and> from_utf8_ok rest2
          else case rest2 of
            [] \<Rightarrow> False
          | c # rest3 \<Rightarrow>
              if between a 224 239 then second_of_three a b \<and> continuation c \<and> from_utf8_ok rest3
              else case rest3 of
                [] \<Rightarrow> False
              | d # rest4 \<Rightarrow>
                  between a 240 244 \<and> second_of_four a b \<and> continuation c \<and> continuation d \<and>
                  from_utf8_ok rest4)"

declare from_utf8_ok.simps(2) [simp del]

definition delta_max_bytes :: nat where
  "delta_max_bytes = 8192"

definition max_exec_output_deltas :: nat where
  "max_exec_output_deltas = 10000"

text \<open>The search for the longest valid prefix, from \<open>max_len\<close> downwards; \<open>None\<close> when it gives
  up.\<close>

fun find_split :: "byte list \<Rightarrow> nat \<Rightarrow> nat \<Rightarrow> nat option" where
  "find_split buffer max_len 0 = None"
| "find_split buffer max_len (Suc n) =
     (if from_utf8_ok (take (Suc n) buffer) then Some (Suc n)
      else if max_len - Suc n > 4 then None
      else find_split buffer max_len n)"

definition split_valid_utf8_prefix_with_max :: "byte list \<Rightarrow> nat \<Rightarrow> byte list option \<times> byte list" where
  "split_valid_utf8_prefix_with_max buffer limit =
     (if buffer = [] then (None, buffer)
      else let max_len = min (length buffer) limit
           in case find_split buffer max_len max_len of
                Some split \<Rightarrow> (Some (take split buffer), drop split buffer)
              | None \<Rightarrow> (Some (take 1 buffer), drop 1 buffer))"

definition split_valid_utf8_prefix :: "byte list \<Rightarrow> byte list option \<times> byte list" where
  "split_valid_utf8_prefix buffer = split_valid_utf8_prefix_with_max buffer delta_max_bytes"

lemma find_split_bound: "find_split buffer m n = Some k \<Longrightarrow> 0 < k \<and> k \<le> n \<and> from_utf8_ok (take k buffer)"
  by (induction buffer m n rule: find_split.induct) (auto split: if_splits)

lemma split_prefix_SomeD:
  assumes "split_valid_utf8_prefix buffer = (Some piece, rest)"
  shows "buffer = piece @ rest \<and> piece \<noteq> [] \<and> length piece \<le> delta_max_bytes \<and>
    length rest < length buffer \<and> (from_utf8_ok piece \<or> length piece = 1)"
proof -
  have "buffer \<noteq> []"
    using assms by (auto simp: split_valid_utf8_prefix_def split_valid_utf8_prefix_with_max_def)
  moreover from this have "min (length buffer) (Suc 0) = Suc 0"
    by (cases buffer) auto
  ultimately show ?thesis
    using assms
    by (auto simp: split_valid_utf8_prefix_def split_valid_utf8_prefix_with_max_def Let_def delta_max_bytes_def
        split: option.splits if_splits dest!: find_split_bound)
qed

lemma split_prefix_NoneD: "split_valid_utf8_prefix buffer = (None, rest) \<Longrightarrow> buffer = [] \<and> rest = []"
  by (auto simp: split_valid_utf8_prefix_def split_valid_utf8_prefix_with_max_def Let_def split: if_splits option.splits)

section \<open>One chunk\<close>

record watcher =
  w_pending :: "byte list"
  w_transcript :: head_tail_buffer
  w_emitted :: nat
  w_deltas :: "byte list list"
  w_grace :: bool
  w_drained :: bool
  w_stopped :: bool

text \<open>\<open>w_deltas\<close> lists the events sent to the session, \<open>w_drained\<close> that the readers were
  notified.\<close>

definition watcher_new :: "head_tail_buffer \<Rightarrow> watcher" where
  "watcher_new transcript =
     \<lparr>w_pending = [], w_transcript = transcript, w_emitted = 0, w_deltas = [],
      w_grace = False, w_drained = False, w_stopped = False\<rparr>"

function process_pending :: "watcher \<Rightarrow> watcher" where
  "process_pending w =
     (case split_valid_utf8_prefix (w_pending w) of
        (None, rest) \<Rightarrow> w\<lparr>w_pending := rest\<rparr>
      | (Some piece, rest) \<Rightarrow>
          let w1 = w\<lparr>w_pending := rest, w_transcript := push_chunk piece (w_transcript w)\<rparr>
          in process_pending
               (if w_emitted w1 \<ge> max_exec_output_deltas then w1
                else w1\<lparr>w_deltas := w_deltas w1 @ [piece], w_emitted := w_emitted w1 + 1\<rparr>))"
  by pat_completeness auto

termination
proof (relation "measure (\<lambda>w. length (w_pending w))", goal_cases)
  case (2 w q rest piece w1)
  then show ?case
    using split_prefix_SomeD [of "w_pending w" piece rest] by auto
qed simp

declare process_pending.simps [simp del]

definition process_chunk :: "byte list \<Rightarrow> watcher \<Rightarrow> watcher" where
  "process_chunk chunk w = process_pending (w\<lparr>w_pending := w_pending w @ chunk\<rparr>)"

text \<open>A piece is well-formed UTF-8 or a single byte, and never longer than the limit.\<close>

definition piece_ok :: "byte list \<Rightarrow> bool" where
  "piece_ok p \<longleftrightarrow> p \<noteq> [] \<and> length p \<le> delta_max_bytes \<and> (from_utf8_ok p \<or> length p = 1)"

lemma process_pending_spec:
  "\<exists>pieces. concat pieces = w_pending w \<and> list_all piece_ok pieces \<and>
     process_pending w = w\<lparr>w_pending := [], w_transcript := fold push_chunk pieces (w_transcript w),
       w_emitted := w_emitted w + min (max_exec_output_deltas - w_emitted w) (length pieces),
       w_deltas := w_deltas w @ take (max_exec_output_deltas - w_emitted w) pieces\<rparr>"
proof (induction w rule: process_pending.induct)
  case (1 w)
  obtain piece rest where cut: "split_valid_utf8_prefix (w_pending w) = (piece, rest)" by fastforce
  show ?case
  proof (cases piece)
    case None
    then have "w_pending w = []" "rest = []"
      using cut split_prefix_NoneD by auto
    then show ?thesis
      using cut None by (intro exI [of _ "[]"]) (simp add: process_pending.simps [of w])
  next
    case (Some p)
    have p: "w_pending w = p @ rest" "piece_ok p"
      using split_prefix_SomeD [of "w_pending w" p rest] cut Some by (auto simp: piece_ok_def)
    let ?w1 = "w\<lparr>w_pending := rest, w_transcript := push_chunk p (w_transcript w)\<rparr>"
    let ?w2 = "if w_emitted ?w1 \<ge> max_exec_output_deltas then ?w1
        else ?w1\<lparr>w_deltas := w_deltas ?w1 @ [p], w_emitted := w_emitted ?w1 + 1\<rparr>"
    have step: "process_pending w = process_pending ?w2"
      using cut Some by (subst process_pending.simps) (simp add: Let_def)
    from 1 [OF cut [symmetric] Some refl] obtain pieces where
      pieces: "concat pieces = rest" "list_all piece_ok pieces" and
      run: "process_pending ?w2 = ?w2\<lparr>w_pending := [], w_transcript := fold push_chunk pieces (w_transcript ?w2),
        w_emitted := w_emitted ?w2 + min (max_exec_output_deltas - w_emitted ?w2) (length pieces),
        w_deltas := w_deltas ?w2 @ take (max_exec_output_deltas - w_emitted ?w2) pieces\<rparr>"
      by (auto split: if_splits)
    show ?thesis
    proof (intro exI [of _ "p # pieces"] conjI)
      show "concat (p # pieces) = w_pending w" "list_all piece_ok (p # pieces)"
        using p pieces by simp_all
      show "process_pending w = w\<lparr>w_pending := [], w_transcript := fold push_chunk (p # pieces) (w_transcript w),
          w_emitted := w_emitted w + min (max_exec_output_deltas - w_emitted w) (length (p # pieces)),
          w_deltas := w_deltas w @ take (max_exec_output_deltas - w_emitted w) (p # pieces)\<rparr>"
        unfolding step run by (cases "max_exec_output_deltas \<le> w_emitted w") (auto simp: take_Cons' min_def)
    qed
  qed
qed

lemma concat_take_prefix: "prefix (concat (take k xs)) (concat xs)"
  by (metis append_take_drop_id concat_append prefixI)

section \<open>The task\<close>

text \<open>The branches of the loop: the exit token is cancelled (enabled until the grace period
  starts), the grace period ends, or the receiver yields a chunk, reports that it lagged behind
  (messages were lost), or is closed. The second component of the state is what the receiver
  delivered.\<close>

inductive watch_step :: "watcher \<times> byte list \<Rightarrow> watcher \<times> byte list \<Rightarrow> bool" where
  cancelled: "\<not> w_stopped w \<Longrightarrow> \<not> w_grace w \<Longrightarrow> watch_step (w, s) (w\<lparr>w_grace := True\<rparr>, s)"
| grace_over: "\<not> w_stopped w \<Longrightarrow> w_grace w \<Longrightarrow> watch_step (w, s) (w\<lparr>w_drained := True, w_stopped := True\<rparr>, s)"
| received: "\<not> w_stopped w \<Longrightarrow> watch_step (w, s) (process_chunk chunk w, s @ chunk)"
| lagged: "\<not> w_stopped w \<Longrightarrow> watch_step (w, s) (w, s)"
| closed: "\<not> w_stopped w \<Longrightarrow> watch_step (w, s) (w\<lparr>w_drained := True, w_stopped := True\<rparr>, s)"

inductive watch_reach :: "nat \<Rightarrow> watcher \<times> byte list \<Rightarrow> bool" for n where
  start: "watch_reach n (watcher_new (buffer_new n), [])"
| step: "watch_reach n p \<Longrightarrow> watch_step p q \<Longrightarrow> watch_reach n q"

inductive_cases watch_stepE: "watch_step (w, s) q"

text \<open>The invariant of the task.\<close>

definition watch_inv :: "nat \<Rightarrow> watcher \<times> byte list \<Rightarrow> bool" where
  "watch_inv n p \<longleftrightarrow> (case p of (w, s) \<Rightarrow>
     represents_half n (w_transcript w) s \<and> w_pending w = [] \<and>
     (\<exists>pieces. concat pieces = s \<and> list_all piece_ok pieces \<and>
        w_deltas w = take max_exec_output_deltas pieces \<and>
        w_emitted w = min max_exec_output_deltas (length pieces)) \<and>
     w_stopped w = w_drained w)"

lemma fold_push_represents:
  "represents_half n b s \<Longrightarrow> represents_half n (fold push_chunk pieces b) (s @ concat pieces)"
proof -
  assume "represents_half n b s"
  from halves.run_refines [OF this, of "map Push pieces"]
  have "represents_half n (fold buffer_step (map Push pieces) b) (fold stream_step (map Push pieces) s)" .
  moreover have "fold buffer_step (map Push pieces) b = fold push_chunk pieces b" for b
    by (induction pieces arbitrary: b) auto
  moreover have "fold stream_step (map Push pieces) s = s @ concat pieces" for s
    by (induction pieces arbitrary: s) auto
  ultimately show ?thesis by simp
qed

lemma watch_inv_chunk:
  assumes "watch_inv n (w, s)"
  shows "watch_inv n (process_chunk chunk w, s @ chunk)"
proof -
  from assms obtain old where rep: "represents_half n (w_transcript w) s" and idle: "w_pending w = []"
    and old: "concat old = s" "list_all piece_ok old" "w_deltas w = take max_exec_output_deltas old"
      "w_emitted w = min max_exec_output_deltas (length old)"
    and stopped: "w_stopped w = w_drained w"
    by (auto simp: watch_inv_def)
  obtain new where new: "concat new = chunk" "list_all piece_ok new"
    and run: "process_chunk chunk w = w\<lparr>w_pending := [], w_transcript := fold push_chunk new (w_transcript w),
       w_emitted := w_emitted w + min (max_exec_output_deltas - w_emitted w) (length new),
       w_deltas := w_deltas w @ take (max_exec_output_deltas - w_emitted w) new\<rparr>"
    using process_pending_spec [of "w\<lparr>w_pending := w_pending w @ chunk\<rparr>"] idle
    unfolding process_chunk_def by auto
  have "represents_half n (fold push_chunk new (w_transcript w)) (s @ chunk)"
    using fold_push_represents [OF rep, of new] new(1) by simp
  moreover have "w_deltas w @ take (max_exec_output_deltas - w_emitted w) new = take max_exec_output_deltas (old @ new)"
    "w_emitted w + min (max_exec_output_deltas - w_emitted w) (length new) = min max_exec_output_deltas (length (old @ new))"
    using old(3,4) by (auto simp: min_def)
  ultimately show ?thesis
    unfolding watch_inv_def run using old(1,2) new stopped
    by (auto intro!: exI [of _ "old @ new"])
qed

lemma watch_inv_reach:
  assumes "watch_reach n p" and "n \<le> usize_max"
  shows "watch_inv n p"
  using assms(1)
proof induction
  case start
  have "represents_half n (buffer_new n) []"
    using assms(2) represents_new by (simp add: represents_half_def)
  then show ?case
    by (auto simp: watch_inv_def watcher_new_def intro!: exI [of _ "[]"])
next
  case (step p q)
  obtain w s where p: "p = (w, s)" by fastforce
  from step.hyps(2) show ?case
    unfolding p using step.IH
    by (cases rule: watch_stepE) (auto simp: p watch_inv_chunk, auto simp: watch_inv_def)
qed

text \<open>In every state the task can reach, whatever the interleaving of chunks, lost messages
  and the end of the process: nothing received waits to be processed, the transcript shows the
  first and the last half megabyte of what was received, at most 10,000 deltas were sent, each of
  them a single byte or well-formed UTF-8 of at most 8,192 bytes, and together they are a prefix
  of what was received, all of it while fewer were sent than allowed.\<close>

theorem transcript_keeps_received_stream:
  assumes "watch_reach unified_exec_output_max_bytes (w, s)"
  shows "to_bytes (w_transcript w) = ends unified_exec_output_max_bytes s \<and>
      omitted_bytes (w_transcript w) = min usize_max (length s - unified_exec_output_max_bytes) \<and>
      w_pending w = [] \<and> length (w_deltas w) = w_emitted w \<and> w_emitted w \<le> max_exec_output_deltas \<and>
      list_all piece_ok (w_deltas w) \<and> prefix (concat (w_deltas w)) s \<and>
      (w_emitted w = max_exec_output_deltas \<or> concat (w_deltas w) = s)"
proof -
  have inv: "watch_inv unified_exec_output_max_bytes (w, s)"
    using watch_inv_reach [OF assms] by (simp add: unified_exec_output_max_bytes_def usize_max_def)
  then obtain pieces where pieces: "concat pieces = s" "list_all piece_ok pieces"
      "w_deltas w = take max_exec_output_deltas pieces" "w_emitted w = min max_exec_output_deltas (length pieces)"
    by (auto simp: watch_inv_def)
  have "prefix (concat (w_deltas w)) s"
    unfolding pieces(1) [symmetric] pieces(3) by (rule concat_take_prefix)
  moreover have "list_all piece_ok (w_deltas w)"
    using pieces(2) unfolding pieces(3) by (auto simp: list_all_iff dest: in_set_takeD)
  moreover have "to_bytes (w_transcript w) = ends unified_exec_output_max_bytes s"
      "omitted_bytes (w_transcript w) = min usize_max (length s - unified_exec_output_max_bytes)"
    using inv by (simp_all add: watch_inv_def represents_half_def represents_def to_bytes_def ends_def
        unified_exec_output_max_bytes_def)
  moreover have "w_pending w = []"
    using inv by (simp add: watch_inv_def)
  moreover have "length (w_deltas w) = w_emitted w" "w_emitted w \<le> max_exec_output_deltas"
    unfolding pieces(3,4) by simp_all
  moreover have "w_emitted w = max_exec_output_deltas \<or> concat (w_deltas w) = s"
    unfolding pieces(1) [symmetric] pieces(3,4) by (cases "max_exec_output_deltas \<le> length pieces") auto
  ultimately show ?thesis by blast
qed

theorem transcript_keeps_received_stream_witness:
  "\<exists>w. watch_reach unified_exec_output_max_bytes (w, [104, 105]) \<and> to_bytes (w_transcript w) = [104, 105] \<and>
     w_pending w = [] \<and> w_emitted w \<le> max_exec_output_deltas"
proof -
  let ?w = "watcher_new (buffer_new unified_exec_output_max_bytes)"
  have "watch_step (?w, []) (process_chunk [104, 105] ?w, [] @ [104, 105])"
    by (rule received) (simp add: watcher_new_def)
  then have "watch_reach unified_exec_output_max_bytes (process_chunk [104, 105] ?w, [104, 105])"
    using watch_reach.step [OF watch_reach.start] by simp
  moreover from transcript_keeps_received_stream [OF this]
  have "to_bytes (w_transcript (process_chunk [104, 105] ?w)) = [104, 105] \<and>
      w_pending (process_chunk [104, 105] ?w) = [] \<and> w_emitted (process_chunk [104, 105] ?w) \<le> max_exec_output_deltas"
    by (simp add: ends_short unified_exec_output_max_bytes_def)
  ultimately show ?thesis by blast
qed

text \<open>The events are documented to fall on UTF-8 boundaries, but an incomplete character at the
  end of a chunk does not wait for the rest: its bytes are sent one by one.\<close>

lemma incomplete_character_is_sent:
  "w_deltas (process_chunk [195] (watcher_new b)) = [[195]] \<and> \<not> from_utf8_ok [195]"
proof -
  have bad: "\<not> from_utf8_ok [195]"
    by (simp add: from_utf8_ok.simps(2))
  then have cut: "split_valid_utf8_prefix [195] = (Some [195], [])" and idle: "split_valid_utf8_prefix [] = (None, [])"
    by (simp_all add: split_valid_utf8_prefix_def split_valid_utf8_prefix_with_max_def delta_max_bytes_def)
  have "process_pending w = w" if "w_pending w = []" for w
    using that idle by (subst process_pending.simps) simp
  then have "w_deltas (process_pending w) = w_deltas w @ [[195]]"
    if "w_pending w = [195]" "w_emitted w = 0" for w
    using that cut by (subst process_pending.simps) (simp add: Let_def max_exec_output_deltas_def)
  then show ?thesis
    using bad by (simp add: process_chunk_def watcher_new_def)
qed

end
