(* ===== verification/Truncation.thy ===== *)
theory Truncation
  imports Prelude
begin

text \<open>
  Cutting text to a budget: \<open>core/src/truncate.rs\<close>, which keeps both ends of a tool's output and
  puts a marker between them, and the helpers of \<open>utils/string/src/lib.rs\<close>. Offsets are byte
  offsets into the UTF-8 text, so a slice that does not fall on a character boundary panics
  (\<open>None\<close>); the theory shows that none does, by relating each loop to the longest prefix and
  suffix within a budget (\<open>fit_prefix\<close>, \<open>fit_suffix\<close>).
\<close>

section \<open>Budgets\<close>

datatype truncation_policy = Bytes nat | Tokens nat

datatype truncation_mode = BytesMode | TokensMode

record truncation_policy_config =
  tpc_mode :: truncation_mode
  tpc_limit :: "64 word"

text \<open>The cast of the \<open>i64\<close> limit to \<open>usize\<close> keeps its bits.\<close>

definition policy_of_config :: "truncation_policy_config \<Rightarrow> truncation_policy" where
  "policy_of_config cfg =
     (case tpc_mode cfg of BytesMode \<Rightarrow> Bytes (unat (tpc_limit cfg)) | TokensMode \<Rightarrow> Tokens (unat (tpc_limit cfg)))"

definition approx_bytes_per_token :: nat where
  "approx_bytes_per_token = 4"

definition approx_token_count :: "ustr \<Rightarrow> nat" where
  "approx_token_count text =
     sat_add (byte_len text) (approx_bytes_per_token - 1) div approx_bytes_per_token"

definition approx_bytes_for_tokens :: "nat \<Rightarrow> nat" where
  "approx_bytes_for_tokens tokens = sat_mul tokens approx_bytes_per_token"

definition approx_tokens_from_byte_count :: "nat \<Rightarrow> nat" where
  "approx_tokens_from_byte_count n = sat_add n (approx_bytes_per_token - 1) div approx_bytes_per_token"

definition approx_tokens_from_byte_count_i64 :: "int \<Rightarrow> int" where
  "approx_tokens_from_byte_count_i64 n =
     (if n \<le> 0 then 0 else min (2 ^ 63 - 1) (int (approx_tokens_from_byte_count (nat n))))"

fun token_budget :: "truncation_policy \<Rightarrow> nat" where
  "token_budget (Bytes n) = approx_tokens_from_byte_count n"
| "token_budget (Tokens n) = n"

fun byte_budget :: "truncation_policy \<Rightarrow> nat" where
  "byte_budget (Bytes n) = n"
| "byte_budget (Tokens n) = approx_bytes_for_tokens n"

text \<open>
  \<open>Mul<f64>\<close>: the budget is converted to binary64, multiplied and rounded up. A natural is rounded to
  the 53 bits of a mantissa, ties to even; a multiplier is its mantissa over a power of two, so
  that the product is rounded like the integer product. \<open>f64_1_2\<close> is the literal \<open>1.2\<close>.
\<close>

fun bit_length :: "nat \<Rightarrow> nat" where
  "bit_length n = (if n = 0 then 0 else bit_length (n div 2) + 1)"

declare bit_length.simps [simp del]

definition round_f64 :: "nat \<Rightarrow> nat" where
  "round_f64 n =
     (let s = bit_length n - 53
      in if s = 0 then n
         else
           let q = n div 2 ^ s; r = n mod 2 ^ s; half = 2 ^ (s - 1)
           in (if half < r \<or> (r = half \<and> odd q) then q + 1 else q) * 2 ^ s)"

definition f64_1_2 :: "nat \<times> nat" where
  "f64_1_2 = (5404319552844595, 52)"

definition scale_budget :: "nat \<times> nat \<Rightarrow> nat \<Rightarrow> nat" where
  "scale_budget multiplier n =
     (let p = round_f64 (round_f64 n * fst multiplier)
      in min usize_max ((p + (2 ^ snd multiplier - 1)) div 2 ^ snd multiplier))"

fun policy_mul :: "truncation_policy \<Rightarrow> nat \<times> nat \<Rightarrow> truncation_policy" where
  "policy_mul (Bytes n) multiplier = Bytes (scale_budget multiplier n)"
| "policy_mul (Tokens n) multiplier = Tokens (scale_budget multiplier n)"

definition split_budget :: "nat \<Rightarrow> nat \<times> nat" where
  "split_budget budget = (let left = budget div 2 in (left, budget - left))"

section \<open>Truncating a text\<close>

text \<open>The state of the loop over \<open>char_indices\<close>: the end of the prefix, the start of the suffix
  and whether it was found, and the number of characters between them.\<close>

record split_state =
  prefix_end :: nat
  suffix_start :: nat
  suffix_started :: bool
  removed_chars :: nat

fun split_loop :: "nat \<Rightarrow> nat \<Rightarrow> nat \<Rightarrow> ustr \<Rightarrow> split_state \<Rightarrow> split_state" where
  "split_loop beginning target idx [] st = st"
| "split_loop beginning target idx (c # cs) st =
     (let char_end = idx + utf8_len c
      in split_loop beginning target char_end cs
           (if char_end \<le> beginning then st\<lparr>prefix_end := char_end\<rparr>
            else if idx \<ge> target then
              (if \<not> suffix_started st then st\<lparr>suffix_start := idx, suffix_started := True\<rparr> else st)
            else st\<lparr>removed_chars := sat_add (removed_chars st) 1\<rparr>))"

definition split_string :: "ustr \<Rightarrow> nat \<Rightarrow> nat \<Rightarrow> (nat \<times> ustr \<times> ustr) option" where
  "split_string s beginning_bytes end_bytes =
     (if s = [] then Some (0, [], [])
      else
        let len = byte_len s;
            st = split_loop beginning_bytes (len - end_bytes) 0 s
              \<lparr>prefix_end = 0, suffix_start = len, suffix_started = False, removed_chars = 0\<rparr>;
            start = (if suffix_start st < prefix_end st then prefix_end st else suffix_start st)
        in Option.bind (slice_to s (prefix_end st)) (\<lambda>before.
           Option.bind (slice_from s start) (\<lambda>after. Some (removed_chars st, before, after))))"

definition ellipsis :: nat where
  "ellipsis = 8230"

fun format_truncation_marker :: "truncation_policy \<Rightarrow> nat \<Rightarrow> ustr" where
  "format_truncation_marker (Tokens _) removed_count =
     ellipsis # show_nat removed_count @ lit '' tokens truncated'' @ [ellipsis]"
| "format_truncation_marker (Bytes _) removed_count =
     ellipsis # show_nat removed_count @ lit '' chars truncated'' @ [ellipsis]"

fun removed_units_for_source :: "truncation_policy \<Rightarrow> nat \<Rightarrow> nat \<Rightarrow> nat" where
  "removed_units_for_source (Tokens _) removed_bytes removed = approx_tokens_from_byte_count removed_bytes"
| "removed_units_for_source (Bytes _) removed_bytes removed = removed"

definition assemble_truncated_output :: "ustr \<Rightarrow> ustr \<Rightarrow> ustr \<Rightarrow> ustr" where
  "assemble_truncated_output before after marker = before @ marker @ after"

definition truncate_with_byte_estimate :: "ustr \<Rightarrow> truncation_policy \<Rightarrow> ustr option" where
  "truncate_with_byte_estimate s pol =
     (if s = [] then Some []
      else
        let total_chars = length s;
            limit = byte_budget pol
        in if limit = 0 then
             Some (format_truncation_marker pol (removed_units_for_source pol (byte_len s) total_chars))
           else if byte_len s \<le> limit then Some s
           else
             let (left_budget, right_budget) = split_budget limit
             in map_option (\<lambda>(removed, left, right).
                  assemble_truncated_output left right
                    (format_truncation_marker pol
                      (removed_units_for_source pol (byte_len s - limit) removed)))
                  (split_string s left_budget right_budget))"

definition truncate_with_token_budget :: "ustr \<Rightarrow> truncation_policy \<Rightarrow> (ustr \<times> nat option) option" where
  "truncate_with_token_budget s pol =
     (if s = [] then Some ([], None)
      else
        let max_tokens = token_budget pol
        in if max_tokens > 0 \<and> byte_len s \<le> approx_bytes_for_tokens max_tokens then Some (s, None)
           else map_option (\<lambda>truncated.
             if truncated = s then (truncated, None) else (truncated, Some (approx_token_count s)))
             (truncate_with_byte_estimate s pol))"

definition truncate_text :: "ustr \<Rightarrow> truncation_policy \<Rightarrow> ustr option" where
  "truncate_text content pol =
     (case pol of
        Bytes _ \<Rightarrow> truncate_with_byte_estimate content pol
      | Tokens _ \<Rightarrow> map_option fst (truncate_with_token_budget content pol))"

definition formatted_truncate_text :: "ustr \<Rightarrow> truncation_policy \<Rightarrow> ustr option" where
  "formatted_truncate_text content pol =
     (if byte_len content \<le> byte_budget pol then Some content
      else map_option (\<lambda>result.
        lit ''Total output lines: '' @ show_nat (length (str_lines content)) @ newline @ newline @ result)
        (truncate_text content pol))"

section \<open>Truncating the items of an output\<close>

datatype content_item = InputText ustr | InputImage ustr

definition item_cost :: "truncation_policy \<Rightarrow> ustr \<Rightarrow> nat" where
  "item_cost pol text = (case pol of Bytes _ \<Rightarrow> byte_len text | Tokens _ \<Rightarrow> approx_token_count text)"

definition snippet_policy :: "truncation_policy \<Rightarrow> nat \<Rightarrow> truncation_policy" where
  "snippet_policy pol remaining = (case pol of Bytes _ \<Rightarrow> Bytes remaining | Tokens _ \<Rightarrow> Tokens remaining)"

fun truncate_items ::
  "truncation_policy \<Rightarrow> content_item list \<Rightarrow> nat \<Rightarrow> nat \<Rightarrow> content_item list
    \<Rightarrow> (content_item list \<times> nat) option" where
  "truncate_items pol [] remaining omitted out = Some (out, omitted)"
| "truncate_items pol (InputImage url # rest) remaining omitted out =
     truncate_items pol rest remaining omitted (out @ [InputImage url])"
| "truncate_items pol (InputText text # rest) remaining omitted out =
     (if remaining = 0 then truncate_items pol rest remaining (omitted + 1) out
      else if item_cost pol text \<le> remaining then
        truncate_items pol rest (remaining - item_cost pol text) omitted (out @ [InputText text])
      else Option.bind (truncate_text text (snippet_policy pol remaining)) (\<lambda>snippet.
        if snippet = [] then truncate_items pol rest 0 (omitted + 1) out
        else truncate_items pol rest 0 omitted (out @ [InputText snippet])))"

definition truncate_function_output_items_with_policy ::
  "content_item list \<Rightarrow> truncation_policy \<Rightarrow> content_item list option" where
  "truncate_function_output_items_with_policy items pol =
     (let budget = (case pol of Bytes _ \<Rightarrow> byte_budget pol | Tokens _ \<Rightarrow> token_budget pol)
      in map_option (\<lambda>(out, omitted).
           if omitted > 0
           then out @ [InputText (lit ''[omitted '' @ show_nat omitted @ lit '' text items ...]'')]
           else out)
         (truncate_items pol items budget 0 []))"

section \<open>String helpers\<close>

fun prefix_loop :: "nat \<Rightarrow> nat \<Rightarrow> ustr \<Rightarrow> nat \<Rightarrow> nat" where
  "prefix_loop maxb i [] last_ok = last_ok"
| "prefix_loop maxb i (c # cs) last_ok =
     (let nb = i + utf8_len c in if nb > maxb then last_ok else prefix_loop maxb nb cs nb)"

definition take_bytes_at_char_boundary :: "ustr \<Rightarrow> nat \<Rightarrow> ustr option" where
  "take_bytes_at_char_boundary s maxb =
     (if byte_len s \<le> maxb then Some s else slice_to s (prefix_loop maxb 0 s 0))"

text \<open>The loop over \<open>char_indices().rev()\<close>: the list holds the characters from the last one, and
  \<open>i\<close> is the offset at the end of the next one.\<close>

fun suffix_loop :: "nat \<Rightarrow> nat \<Rightarrow> ustr \<Rightarrow> nat \<Rightarrow> nat \<Rightarrow> nat" where
  "suffix_loop maxb i [] start used = start"
| "suffix_loop maxb i (c # cs) start used =
     (let nb = utf8_len c
      in if used + nb > maxb then start
         else if i - nb = 0 then i - nb
         else suffix_loop maxb (i - nb) cs (i - nb) (used + nb))"

definition take_last_bytes_at_char_boundary :: "ustr \<Rightarrow> nat \<Rightarrow> ustr option" where
  "take_last_bytes_at_char_boundary s maxb =
     (if byte_len s \<le> maxb then Some s
      else slice_from s (suffix_loop maxb (byte_len s) (rev s) (byte_len s) 0))"

definition is_ascii_alphanumeric :: "nat \<Rightarrow> bool" where
  [str_ops]: "is_ascii_alphanumeric c \<longleftrightarrow> is_ascii_digit c \<or> (65 \<le> c \<and> c \<le> 90) \<or> (97 \<le> c \<and> c \<le> 122)"

definition metric_tag_char :: "nat \<Rightarrow> bool" where
  "metric_tag_char c \<longleftrightarrow> is_ascii_alphanumeric c \<or> c \<in> set (lit ''._-/'')"

definition metric_tag_max_len :: nat where
  "metric_tag_max_len = 256"

definition sanitize_metric_tag_value :: "ustr \<Rightarrow> ustr option" where
  "sanitize_metric_tag_value v =
     (let sanitized = map (\<lambda>c. if metric_tag_char c then c else 95) v;
          trimmed = trim_start_by (\<lambda>c. c = 95) (trim_end_by (\<lambda>c. c = 95) sanitized)
      in if trimmed = [] \<or> list_all (\<lambda>c. \<not> is_ascii_alphanumeric c) trimmed
         then Some (lit ''unspecified'')
         else if byte_len trimmed \<le> metric_tag_max_len then Some trimmed
         else slice_to trimmed metric_tag_max_len)"

section \<open>The longest prefix and suffix within a budget\<close>

fun fit_prefix :: "nat \<Rightarrow> ustr \<Rightarrow> ustr" where
  "fit_prefix n [] = []"
| "fit_prefix n (c # cs) = (if utf8_len c \<le> n then c # fit_prefix (n - utf8_len c) cs else [])"

fun fit_suffix :: "nat \<Rightarrow> ustr \<Rightarrow> ustr" where
  "fit_suffix n [] = []"
| "fit_suffix n (c # cs) = (if byte_len (c # cs) \<le> n then c # cs else fit_suffix n cs)"

lemma fit_prefix_prefix: "fit_prefix n s @ drop (length (fit_prefix n s)) s = s"
  by (induction n s rule: fit_prefix.induct) auto

lemma fit_prefix_bound: "byte_len (fit_prefix n s) \<le> n"
  by (induction n s rule: fit_prefix.induct) auto

lemma fit_prefix_next:
  "drop (length (fit_prefix n s)) s = c # r \<Longrightarrow> n < byte_len (fit_prefix n s) + utf8_len c"
  by (induction n s rule: fit_prefix.induct) (auto split: if_splits)

lemma fit_prefix_all: "byte_len s \<le> n \<Longrightarrow> fit_prefix n s = s"
  by (induction n s rule: fit_prefix.induct) auto

lemma fit_suffix_suffix: "\<exists>m. s = m @ fit_suffix n s"
proof (induction s)
  case (Cons c s)
  then obtain m where "s = m @ fit_suffix n s" ..
  then show ?case
    by (cases "byte_len (c # s) \<le> n") (auto intro: exI [of _ "c # m"])
qed simp

lemma fit_suffix_bound: "byte_len (fit_suffix n s) \<le> n"
  by (induction s) auto

lemma fit_suffix_all: "byte_len s \<le> n \<Longrightarrow> fit_suffix n s = s"
  by (cases s) auto

lemma fit_suffix_longest: "s = m @ t \<Longrightarrow> byte_len t \<le> n \<Longrightarrow> length t \<le> length (fit_suffix n s)"
proof (induction s arbitrary: m)
  case (Cons c s)
  then show ?case
    by (cases m) auto
qed simp

subsection \<open>The loop finds them\<close>

lemma split_loop_prefix:
  assumes "idx \<le> b"
  shows "split_loop b t idx s st =
    split_loop b t (idx + byte_len (fit_prefix (b - idx) s)) (drop (length (fit_prefix (b - idx) s)) s)
      (if fit_prefix (b - idx) s = [] then st else st\<lparr>prefix_end := idx + byte_len (fit_prefix (b - idx) s)\<rparr>)"
  using assms
proof (induction s arbitrary: idx st)
  case (Cons c s)
  show ?case
  proof (cases "idx + utf8_len c \<le> b")
    case True
    let ?idx = "idx + utf8_len c" and ?st = "st\<lparr>prefix_end := idx + utf8_len c\<rparr>"
    have "utf8_len c \<le> b - idx" "b - idx - utf8_len c = b - ?idx"
      using True by linarith+
    then have fit: "fit_prefix (b - idx) (c # s) = c # fit_prefix (b - ?idx) s"
      by simp
    have "split_loop b t idx (c # s) st = split_loop b t ?idx s ?st"
      using True by (simp add: Let_def)
    also note Cons.IH [OF True, of ?st]
    finally show ?thesis
      unfolding fit by (cases "fit_prefix (b - ?idx) s") (simp_all add: add.assoc del: split_loop.simps)
  next
    case False
    then have "\<not> utf8_len c \<le> b - idx"
      using Cons.prems by linarith
    then show ?thesis by simp
  qed
qed simp

lemma split_loop_started:
  "suffix_started st \<Longrightarrow> t \<le> idx \<Longrightarrow> (\<forall>c r. s = c # r \<longrightarrow> b < idx + utf8_len c) \<Longrightarrow> split_loop b t idx s st = st"
proof (induction s arbitrary: idx)
  case (Cons c s)
  then have "b < idx + utf8_len c" by simp
  then show ?case
    using Cons by (simp add: Let_def)
qed simp

lemma split_loop_suffix:
  assumes "\<not> suffix_started st" and "\<forall>c q. s = c # q \<longrightarrow> b < idx + utf8_len c"
    and "removed_chars st = min usize_max n"
  shows "\<exists>m. s = m @ fit_suffix r s \<and> (let st' = split_loop b (idx + byte_len s - r) idx s st in
    prefix_end st' = prefix_end st \<and> removed_chars st' = min usize_max (n + length m) \<and>
    suffix_start st' = (if fit_suffix r s = [] then suffix_start st else idx + byte_len m))"
  using assms
proof (induction s arbitrary: idx st n)
  case (Cons c s)
  have b: "\<not> idx + utf8_len c \<le> b"
    using Cons.prems(2) by simp
  show ?case
  proof (cases "byte_len (c # s) \<le> r")
    case True
    then have "split_loop b (idx + byte_len (c # s) - r) idx (c # s) st = st\<lparr>suffix_start := idx, suffix_started := True\<rparr>"
      using b Cons.prems(1) by (auto simp: Let_def intro!: split_loop_started)
    then show ?thesis
      using True Cons.prems(3) by (intro exI [of _ "[]"]) (simp add: Let_def)
  next
    case False
    let ?st = "st\<lparr>removed_chars := sat_add (removed_chars st) 1\<rparr>"
    have "split_loop b (idx + byte_len (c # s) - r) idx (c # s) st =
        split_loop b ((idx + utf8_len c) + byte_len s - r) (idx + utf8_len c) s ?st"
      using b False by (simp add: Let_def add.assoc)
    moreover have "\<forall>d q. s = d # q \<longrightarrow> b < idx + utf8_len c + utf8_len d"
      using b by simp
    moreover have "\<not> suffix_started ?st" "removed_chars ?st = min usize_max (n + 1)"
      using Cons.prems by simp_all
    moreover note Cons.IH [of ?st "idx + utf8_len c" "n + 1"]
    ultimately obtain m where "s = m @ fit_suffix r s"
      "prefix_end (split_loop b (idx + byte_len (c # s) - r) idx (c # s) st) = prefix_end st"
      "removed_chars (split_loop b (idx + byte_len (c # s) - r) idx (c # s) st) = min usize_max (n + 1 + length m)"
      "suffix_start (split_loop b (idx + byte_len (c # s) - r) idx (c # s) st) =
        (if fit_suffix r s = [] then suffix_start st else idx + utf8_len c + byte_len m)"
      by (auto simp: Let_def simp del: split_loop.simps byte_len_Cons)
    then show ?thesis
      using False by (intro exI [of _ "c # m"]) (simp add: Let_def add.assoc del: split_loop.simps)
  qed
qed simp

text \<open>What the loop leaves of a text, and what its slices are.\<close>

definition kept_prefix :: "nat \<Rightarrow> ustr \<Rightarrow> ustr" where
  "kept_prefix l s = fit_prefix l s"

definition kept_suffix :: "nat \<Rightarrow> nat \<Rightarrow> ustr \<Rightarrow> ustr" where
  "kept_suffix l r s = fit_suffix r (drop (length (fit_prefix l s)) s)"

lemma kept_parts:
  obtains m where "s = kept_prefix l s @ m @ kept_suffix l r s"
proof -
  obtain m where "drop (length (fit_prefix l s)) s = m @ kept_suffix l r s"
    using fit_suffix_suffix unfolding kept_suffix_def by blast
  then show thesis
    using that [of m] fit_prefix_prefix [of l s] by (simp add: kept_prefix_def)
qed

lemma split_string_kept:
  assumes "s = kept_prefix l s @ m @ kept_suffix l r s"
  shows "split_string s l r = Some (min usize_max (length m), kept_prefix l s, kept_suffix l r s)"
proof (cases "s = []")
  case True
  then show ?thesis
    using assms by (auto simp: split_string_def kept_prefix_def kept_suffix_def)
next
  case False
  let ?p = "kept_prefix l s" and ?q = "kept_suffix l r s" and ?rest = "drop (length (kept_prefix l s)) s"
  let ?st0 = "\<lparr>prefix_end = 0, suffix_start = byte_len s, suffix_started = False, removed_chars = 0\<rparr>"
  let ?st1 = "if ?p = [] then ?st0 else ?st0\<lparr>prefix_end := byte_len ?p\<rparr>"
  define st where "st = split_loop l (byte_len s - r) 0 s ?st0"
  have rest: "?rest = m @ ?q"
    by (metis append_eq_conv_conj assms)
  have s: "s = ?p @ ?rest"
    unfolding rest by (rule assms)
  have len: "byte_len s = byte_len ?p + byte_len ?rest"
    by (metis s byte_len_append)
  have "st = split_loop l (byte_len ?p + byte_len ?rest - r) (byte_len ?p) ?rest ?st1"
    unfolding st_def len [symmetric]
    by (rule trans [OF split_loop_prefix [OF le0]]) (simp add: kept_prefix_def del: split_loop.simps)
  moreover have "\<forall>c q. ?rest = c # q \<longrightarrow> l < byte_len ?p + utf8_len c"
    using fit_prefix_next by (auto simp: kept_prefix_def)
  moreover have "\<not> suffix_started ?st1" "removed_chars ?st1 = min usize_max 0" "suffix_start ?st1 = byte_len s"
      "prefix_end ?st1 = byte_len ?p"
    by simp_all
  ultimately obtain m' where m': "?rest = m' @ ?q" and
    st: "prefix_end st = byte_len ?p" "removed_chars st = min usize_max (length m')"
      "suffix_start st = (if ?q = [] then byte_len s else byte_len ?p + byte_len m')"
    using split_loop_suffix [of ?st1 ?rest l "byte_len ?p" 0 r]
    unfolding kept_suffix_def kept_prefix_def Let_def by auto
  have "m' = m"
    using m' rest by simp
  have start: "suffix_start st = byte_len (?p @ m)"
    using st(3) len rest \<open>m' = m\<close> by simp
  have "slice_to s (prefix_end st) = Some ?p"
    unfolding st(1) using s slice_to_boundary [of ?p ?rest] by simp
  moreover have "slice_from s (suffix_start st) = Some ?q"
    unfolding start using assms slice_from_boundary [of "?p @ m" ?q] by simp
  moreover have "\<not> suffix_start st < prefix_end st"
    unfolding start st(1) by simp
  ultimately show ?thesis
    using False st(2) \<open>m' = m\<close> by (simp add: split_string_def Let_def flip: st_def)
qed

text \<open>What a truncation leaves of a text: the text itself when it is empty or within a positive
  budget, otherwise both ends around a marker.\<close>

definition truncated :: "truncation_policy \<Rightarrow> ustr \<Rightarrow> ustr \<Rightarrow> ustr \<Rightarrow> ustr \<Rightarrow> bool" where
  "truncated pol s p m q \<longleftrightarrow>
     s = p @ m @ q \<and> byte_len p + byte_len q \<le> byte_budget pol \<and> m \<noteq> [] \<and>
     p = fit_prefix (byte_budget pol div 2) s \<and>
     q = fit_suffix (byte_budget pol - byte_budget pol div 2) (m @ q)"

definition truncation_marker :: "truncation_policy \<Rightarrow> ustr \<Rightarrow> ustr \<Rightarrow> ustr" where
  "truncation_marker pol s m =
     format_truncation_marker pol
       (removed_units_for_source pol (byte_len s - byte_budget pol) (length m))"

lemma fit_prefix_0: "fit_prefix 0 s = []"
  by (cases s) (auto simp: not_le)

lemma fit_suffix_0: "fit_suffix 0 s = []"
proof -
  have "byte_len (fit_suffix 0 s) \<le> 0" by (rule fit_suffix_bound)
  then show ?thesis by simp
qed

lemma truncate_with_byte_estimate_cut:
  assumes "s \<noteq> []" and "byte_budget pol = 0 \<or> byte_budget pol < byte_len s" and "length s \<le> usize_max"
  shows "\<exists>p m q. truncated pol s p m q \<and>
    truncate_with_byte_estimate s pol = Some (p @ truncation_marker pol s m @ q)"
proof (cases "byte_budget pol = 0")
  case True
  then have "truncated pol s [] s []"
    using assms(1) by (simp add: truncated_def fit_prefix_0 fit_suffix_0)
  moreover have "truncate_with_byte_estimate s pol = Some ([] @ truncation_marker pol s s @ [])"
    using True assms(1) by (simp add: truncate_with_byte_estimate_def truncation_marker_def)
  ultimately show ?thesis by blast
next
  case False
  let ?l = "byte_budget pol div 2" and ?r = "byte_budget pol - byte_budget pol div 2"
  obtain m where m: "s = kept_prefix ?l s @ m @ kept_suffix ?l ?r s"
    by (rule kept_parts)
  have "drop (length (kept_prefix ?l s)) s = m @ kept_suffix ?l ?r s"
    by (metis append_eq_conv_conj m)
  then have q: "kept_suffix ?l ?r s = fit_suffix ?r (m @ kept_suffix ?l ?r s)"
    by (simp add: kept_suffix_def kept_prefix_def)
  have bound: "byte_len (kept_prefix ?l s) + byte_len (kept_suffix ?l ?r s) \<le> byte_budget pol"
    using fit_prefix_bound [of ?l s] fit_suffix_bound [of ?r "drop (length (fit_prefix ?l s)) s"]
    unfolding kept_prefix_def kept_suffix_def by linarith
  have "byte_len s = byte_len (kept_prefix ?l s) + byte_len m + byte_len (kept_suffix ?l ?r s)"
    by (subst m) simp
  then have "m \<noteq> []"
    using bound assms(2) False by auto
  then have "truncated pol s (kept_prefix ?l s) m (kept_suffix ?l ?r s)"
    using m q bound by (simp add: truncated_def kept_prefix_def)
  moreover have "length m \<le> usize_max"
    using assms(3) by (subst (asm) m) simp
  then have "truncate_with_byte_estimate s pol =
      Some (kept_prefix ?l s @ truncation_marker pol s m @ kept_suffix ?l ?r s)"
    using False assms(1,2) split_string_kept [OF m]
    by (simp add: truncate_with_byte_estimate_def split_budget_def Let_def assemble_truncated_output_def truncation_marker_def)
  ultimately show ?thesis by blast
qed

lemma split_string_total: "\<exists>r. split_string s l r' = Some r"
  by (metis kept_parts split_string_kept)

lemma truncate_text_by_bytes:
  "truncate_text s pol =
     (if s = [] \<or> 0 < byte_budget pol \<and> byte_len s \<le> byte_budget pol then Some s
      else truncate_with_byte_estimate s pol)"
proof (cases pol)
  case (Bytes n)
  then show ?thesis
    by (auto simp: truncate_text_def truncate_with_byte_estimate_def Let_def)
next
  case (Tokens n)
  have "0 < approx_bytes_for_tokens n \<longleftrightarrow> 0 < n"
    by (simp add: approx_bytes_for_tokens_def sat_mul_def usize_max_def approx_bytes_per_token_def)
  moreover have "map_option fst (map_option (\<lambda>t. if t = s then (t, None) else (t, Some k)) r) = r" for r :: "ustr option" and k :: nat
    by (cases r) auto
  ultimately show ?thesis
    using Tokens by (auto simp: truncate_text_def truncate_with_token_budget_def Let_def)
qed

lemma truncate_text_total: "\<exists>t. truncate_text s pol = Some t"
  using split_string_total
  by (fastforce simp: truncate_text_by_bytes truncate_with_byte_estimate_def split_budget_def Let_def)

text \<open>Truncating a text never panics. A text within a positive byte budget comes back
  unchanged; any other text loses a non-empty middle part, which is replaced by a marker with the
  size of what was removed: the rest are the longest prefix within one half of the budget and the
  longest suffix of the remainder within the other, both on character boundaries.\<close>

theorem truncate_text_keeps_both_ends:
  assumes "length s \<le> usize_max"
  shows "\<exists>t. truncate_text s pol = Some t \<and>
    (if s = [] \<or> 0 < byte_budget pol \<and> byte_len s \<le> byte_budget pol then t = s
     else \<exists>p m q. truncated pol s p m q \<and> t = p @ truncation_marker pol s m @ q)"
proof (cases "s = [] \<or> 0 < byte_budget pol \<and> byte_len s \<le> byte_budget pol")
  case True
  then show ?thesis by (simp add: truncate_text_by_bytes)
next
  case False
  then obtain p m q where "truncated pol s p m q"
    "truncate_with_byte_estimate s pol = Some (p @ truncation_marker pol s m @ q)"
    using truncate_with_byte_estimate_cut [of s pol] assms by (auto simp: not_le)
  with False show ?thesis
    by (auto simp: truncate_text_by_bytes)
qed

theorem truncate_text_keeps_both_ends_witness:
  "\<exists>t p m q. truncate_text (lit ''abcde'') (Bytes 4) = Some t \<and> truncated (Bytes 4) (lit ''abcde'') p m q \<and>
     t = p @ truncation_marker (Bytes 4) (lit ''abcde'') m @ q"
  using truncate_text_keeps_both_ends [of "lit ''abcde''" "Bytes 4"]
  by (auto simp: usize_max_def lit_def utf8_len_def)

text \<open>The marker is not charged to the budget, so a text just over it grows.\<close>

lemma truncated_text_exceeds_budget:
  "truncate_text (lit ''abcde'') (Bytes 4) = Some (lit ''ab'' @ [8230] @ lit ''1 chars truncated'' @ [8230] @ lit ''de'')"
  by (simp add: truncate_text_def truncate_with_byte_estimate_def split_budget_def split_string_def
      lit_def utf8_len_def Let_def sat_add_def usize_max_def assemble_truncated_output_def ellipsis_def show_nat.simps)

section \<open>Items\<close>

definition is_image :: "content_item \<Rightarrow> bool" where
  "is_image item \<longleftrightarrow> (\<exists>url. item = InputImage url)"

definition item_texts :: "content_item list \<Rightarrow> ustr list" where
  "item_texts items = concat (map (\<lambda>item. case item of InputText text \<Rightarrow> [text] | InputImage _ \<Rightarrow> []) items)"

lemma item_texts_simps [simp]:
  "item_texts [] = []"
  "item_texts (InputText text # items) = text # item_texts items"
  "item_texts (InputImage url # items) = item_texts items"
  "item_texts (xs @ ys) = item_texts xs @ item_texts ys"
  by (simp_all add: item_texts_def)

lemma is_image_simps [simp]: "is_image (InputImage url)" "\<not> is_image (InputText text)"
  by (simp_all add: is_image_def)

lemma truncate_items_spec:
  "\<exists>new omitted'. truncate_items pol items remaining omitted out = Some (out @ new, omitted') \<and>
     filter is_image new = filter is_image items \<and>
     omitted' + length (item_texts new) = omitted + length (item_texts items)"
proof (induction pol items remaining omitted out rule: truncate_items.induct)
  case (2 pol url rest remaining omitted out)
  then show ?case by auto
next
  case (3 pol t rest remaining omitted out)
  obtain snippet where "truncate_text t (snippet_policy pol remaining) = Some snippet"
    using truncate_text_total by blast
  with 3 show ?case
    by (cases "remaining = 0"; cases "item_cost pol t \<le> remaining"; cases "snippet = []") auto
qed simp

lemma truncate_items_within:
  "list_all (\<lambda>t. t \<noteq> []) (item_texts items) \<Longrightarrow> sum_list (map (item_cost pol) (item_texts items)) \<le> remaining \<Longrightarrow>
   truncate_items pol items remaining omitted out = Some (out @ items, omitted)"
proof (induction pol items remaining omitted out rule: truncate_items.induct)
  case (3 pol t rest remaining omitted out)
  have "0 < byte_len t"
    using "3.prems"(1) length_le_byte_len [of t] by (cases t) auto
  then have "0 < item_cost pol t"
    by (cases pol) (auto simp: item_cost_def approx_token_count_def approx_bytes_per_token_def sat_add_def usize_max_def)
  with 3 show ?case by auto
qed auto

text \<open>Truncating the items of an output never panics; every image is kept, in order, and every
  text is kept (at most cut) or counted: when some are left out, a last item says how many. Items
  whose non-empty texts are within the budget come back unchanged.\<close>

theorem truncated_items_account_for_texts:
  "\<exists>kept omitted. truncate_function_output_items_with_policy items pol =
       Some (kept @ (if omitted = 0 then []
         else [InputText (lit ''[omitted '' @ show_nat omitted @ lit '' text items ...]'')])) \<and>
     filter is_image kept = filter is_image items \<and>
     length (item_texts kept) + omitted = length (item_texts items) \<and>
     (if list_all (\<lambda>t. t \<noteq> []) (item_texts items) \<and>
         sum_list (map (item_cost pol) (item_texts items)) \<le> (case pol of Bytes n \<Rightarrow> n | Tokens n \<Rightarrow> n)
      then kept = items \<and> omitted = 0 else True)"
proof -
  let ?budget = "case pol of Bytes n \<Rightarrow> n | Tokens n \<Rightarrow> n"
  have budget: "(case pol of Bytes _ \<Rightarrow> byte_budget pol | Tokens _ \<Rightarrow> token_budget pol) = ?budget"
    by (cases pol) auto
  obtain kept omitted where run: "truncate_items pol items ?budget 0 [] = Some (kept, omitted)"
    and kept: "filter is_image kept = filter is_image items" "omitted + length (item_texts kept) = length (item_texts items)"
    using truncate_items_spec [of pol items ?budget 0 "[]"] by auto
  have "kept = items \<and> omitted = 0"
    if "list_all (\<lambda>t. t \<noteq> []) (item_texts items)" "sum_list (map (item_cost pol) (item_texts items)) \<le> ?budget"
    using truncate_items_within [OF that, of 0 "[]"] run by simp
  then show ?thesis
    using run kept
    by (intro exI [of _ kept] exI [of _ omitted])
      (auto simp: truncate_function_output_items_with_policy_def budget Let_def add.commute)
qed

section \<open>The string helpers\<close>

lemma fit_prefix_unique:
  "byte_len t \<le> n \<Longrightarrow> r = [] \<or> n < byte_len t + utf8_len (hd r) \<Longrightarrow> fit_prefix n (t @ r) = t"
proof (induction t arbitrary: n)
  case Nil
  then show ?case by (cases r) auto
next
  case (Cons a t)
  have "byte_len t \<le> n - utf8_len a" "r = [] \<or> n - utf8_len a < byte_len t + utf8_len (hd r)"
    using Cons.prems by auto
  from Cons.IH [OF this] show ?case
    using Cons.prems(1) by simp
qed

lemma fit_suffix_cut:
  "\<exists>m. s = m @ fit_suffix n s \<and> (m = [] \<or> n < byte_len (fit_suffix n s) + utf8_len (last m))"
proof (induction s)
  case (Cons c s)
  then obtain m where m: "s = m @ fit_suffix n s" "m = [] \<or> n < byte_len (fit_suffix n s) + utf8_len (last m)"
    by blast
  show ?case
  proof (cases "byte_len (c # s) \<le> n")
    case True
    then show ?thesis by (intro exI [of _ "[]"]) simp
  next
    case False
    have "n < byte_len (fit_suffix n s) + utf8_len (last (c # m))"
    proof (cases m)
      case Nil
      then have "fit_suffix n s = s" using m(1) by simp
      then show ?thesis using Nil False by simp
    qed (use m(2) in auto)
    then show ?thesis
      using False m(1) by (intro exI [of _ "c # m"]) simp
  qed
qed simp

lemma byte_len_rev [simp]: "byte_len (rev s) = byte_len s"
  by (induction s) auto

lemma fit_suffix_rev: "fit_prefix n (rev s) = rev (fit_suffix n s)"
proof -
  obtain m where m: "s = m @ fit_suffix n s" "m = [] \<or> n < byte_len (fit_suffix n s) + utf8_len (last m)"
    using fit_suffix_cut by blast
  have "rev s = rev (fit_suffix n s) @ rev m"
    by (metis m(1) rev_append)
  then show ?thesis
    using fit_prefix_unique [of "rev (fit_suffix n s)" n "rev m"] m(2) fit_suffix_bound [of n s]
    by (auto simp: hd_rev)
qed

lemma prefix_loop_fit:
  "i \<le> n \<Longrightarrow> prefix_loop n i s i = i + byte_len (fit_prefix (n - i) s)"
proof (induction s arbitrary: i)
  case (Cons c s)
  show ?case
  proof (cases "i + utf8_len c \<le> n")
    case True
    then have "utf8_len c \<le> n - i" "n - i - utf8_len c = n - (i + utf8_len c)"
      by linarith+
    then show ?thesis
      using True Cons.IH [OF True] by (simp add: Let_def)
  next
    case False
    then show ?thesis
      using Cons.prems by (simp add: Let_def)
  qed
qed simp

lemma suffix_loop_fit:
  "used \<le> n \<Longrightarrow> suffix_loop n (byte_len s) s (byte_len s) used = byte_len s - byte_len (fit_prefix (n - used) s)"
proof (induction s arbitrary: used)
  case (Cons c s)
  show ?case
  proof (cases "used + utf8_len c \<le> n")
    case True
    then have *: "utf8_len c \<le> n - used" "n - used - utf8_len c = n - (used + utf8_len c)"
      by linarith+
    show ?thesis
      using True Cons.IH [OF True] * by (cases s) (simp_all add: Let_def del: suffix_loop.simps(2), simp_all add: Let_def)
  next
    case False
    then show ?thesis
      using Cons.prems by (simp add: Let_def)
  qed
qed simp

text \<open>The two helpers never cut inside a character: they return the longest prefix and the
  longest suffix of the text that fit the byte budget.\<close>

theorem char_boundary_helpers_fit:
  "take_bytes_at_char_boundary s n = Some (fit_prefix n s) \<and>
   take_last_bytes_at_char_boundary s n = Some (fit_suffix n s)"
proof
  show "take_bytes_at_char_boundary s n = Some (fit_prefix n s)"
    using slice_to_boundary [of "fit_prefix n s" "drop (length (fit_prefix n s)) s"] prefix_loop_fit [of 0 n s]
    by (simp add: take_bytes_at_char_boundary_def fit_prefix_all fit_prefix_prefix)
next
  obtain m where m: "s = m @ fit_suffix n s"
    using fit_suffix_suffix by blast
  have "byte_len s = byte_len m + byte_len (fit_suffix n s)"
    by (metis m byte_len_append)
  then have "suffix_loop n (byte_len s) (rev s) (byte_len s) 0 = byte_len m"
    using suffix_loop_fit [of 0 n "rev s"] by (simp add: fit_suffix_rev)
  moreover have "slice_from s (byte_len m) = Some (fit_suffix n s)"
    by (metis m slice_from_boundary)
  ultimately show "take_last_bytes_at_char_boundary s n = Some (fit_suffix n s)"
    by (simp add: take_last_bytes_at_char_boundary_def fit_suffix_all)
qed

text \<open>A sanitized tag value is a non-empty text of at most 256 valid characters.\<close>

lemma metric_tag_char_ascii: "metric_tag_char c \<Longrightarrow> utf8_len c = 1"
  by (auto simp: metric_tag_char_def is_ascii_alphanumeric_def is_ascii_digit_def utf8_len_def lit_def)

lemma slice_to_ascii: "list_all (\<lambda>c. utf8_len c = 1) s \<Longrightarrow> n \<le> length s \<Longrightarrow> slice_to s n = Some (take n s)"
  by (induction s n rule: slice_to.induct) (auto simp: take_Cons')

lemma byte_len_ascii: "list_all (\<lambda>c. utf8_len c = 1) s \<Longrightarrow> byte_len s = length s"
  by (induction s) auto

lemma sanitized_metric_tag_valid:
  "\<exists>r. sanitize_metric_tag_value v = Some r \<and> r \<noteq> [] \<and> byte_len r \<le> metric_tag_max_len \<and> list_all metric_tag_char r"
proof -
  define trimmed where "trimmed = trim_start_by (\<lambda>c. c = 95) (trim_end_by (\<lambda>c. c = 95)
    (map (\<lambda>c. if metric_tag_char c then c else 95) v))"
  have "metric_tag_char 95"
    by (simp add: metric_tag_char_def lit_def)
  then have valid: "list_all metric_tag_char trimmed"
    by (auto simp: trimmed_def trim_start_by_def trim_end_by_def list_all_iff dest!: set_dropWhileD)
  then have ascii: "list_all (\<lambda>c. utf8_len c = 1) trimmed"
    by (auto simp: list_all_iff metric_tag_char_ascii)
  show ?thesis
  proof (cases "trimmed = [] \<or> list_all (\<lambda>c. \<not> is_ascii_alphanumeric c) trimmed")
    case True
    have "list_all metric_tag_char (lit ''unspecified'')" "byte_len (lit ''unspecified'') \<le> metric_tag_max_len"
      by (simp_all add: lit_def metric_tag_char_def is_ascii_alphanumeric_def is_ascii_digit_def utf8_len_def
          metric_tag_max_len_def)
    then show ?thesis
      using True by (simp add: sanitize_metric_tag_value_def Let_def flip: trimmed_def)
  next
    case False
    let ?cut = "take metric_tag_max_len trimmed"
    have "list_all (\<lambda>c. utf8_len c = 1) ?cut" "list_all metric_tag_char ?cut"
      using ascii valid by (auto simp: list_all_iff dest: in_set_takeD)
    moreover have "?cut \<noteq> []" "length ?cut \<le> metric_tag_max_len"
      using False by (auto simp: metric_tag_max_len_def)
    moreover have "sanitize_metric_tag_value v = Some ?cut"
      using False byte_len_ascii [OF ascii] slice_to_ascii [OF ascii, of metric_tag_max_len]
      by (auto simp: sanitize_metric_tag_value_def Let_def simp flip: trimmed_def)
    ultimately show ?thesis
      by (auto simp: byte_len_ascii)
  qed
qed

end
