(* ===== verification/WindowsDanger.thy ===== *)
theory WindowsDanger
  imports Prelude
begin

text \<open>
  The Windows part of the danger list
  (\<open>shell-command/src/command_safety/windows_dangerous_commands.rs\<close>): PowerShell and CMD
  invocations that open a URL or delete by force, and programs launched with a URL. What the
  source takes from elsewhere is the record \<open>win_env\<close>: the file name of a Windows path, the
  \<open>shlex\<close> splitter, the capture of the URL expression and the scheme the \<open>url\<close> crate
  parses.
\<close>

record win_env =
  we_file_name :: "ustr \<Rightarrow> ustr option"
  we_shlex_split :: "ustr \<Rightarrow> ustr list option"
  we_url_capture :: "ustr \<Rightarrow> ustr option"
  we_url_scheme :: "ustr \<Rightarrow> ustr option"

definition eq_ignore_ascii_case :: "ustr \<Rightarrow> ustr \<Rightarrow> bool" where
  [str_ops]: "eq_ignore_ascii_case a b \<longleftrightarrow> to_ascii_lowercase a = to_ascii_lowercase b"

definition trim_matches :: "nat \<Rightarrow> ustr \<Rightarrow> ustr" where
  [str_ops]: "trim_matches c s = trim_start_by (\<lambda>x. x = c) (trim_end_by (\<lambda>x. x = c) s)"

text \<open>\<open>str::find\<close> followed by the slice from the position found.\<close>

fun from_first :: "ustr \<Rightarrow> ustr \<Rightarrow> ustr option" where
  "from_first pat [] = (if pat = [] then Some [] else None)"
| "from_first pat (c # cs) = (if starts_with (c # cs) pat then Some (c # cs) else from_first pat cs)"

text \<open>\<open>slice::split\<close> with a predicate.\<close>

fun split_where :: "('a \<Rightarrow> bool) \<Rightarrow> 'a list \<Rightarrow> 'a list list" where
  "split_where p [] = [[]]"
| "split_where p (x # xs) =
     (if p x then [] # split_where p xs
      else (x # hd (split_where p xs)) # tl (split_where p xs))"

section \<open>URLs and programs\<close>

definition looks_like_url :: "win_env \<Rightarrow> ustr \<Rightarrow> bool" where
  "looks_like_url env token =
     (let urlish = (case from_first (lit ''https://'') token of
                      Some s \<Rightarrow> s
                    | None \<Rightarrow> (case from_first (lit ''http://'') token of Some s \<Rightarrow> s | None \<Rightarrow> token));
          candidate = (case we_url_capture env urlish of Some s \<Rightarrow> s | None \<Rightarrow> urlish)
      in case we_url_scheme env candidate of
           None \<Rightarrow> False
         | Some scheme \<Rightarrow> scheme = lit ''http'' \<or> scheme = lit ''https'')"

definition args_have_url :: "win_env \<Rightarrow> ustr list \<Rightarrow> bool" where
  "args_have_url env args = list_ex (looks_like_url env) args"

definition executable_basename :: "win_env \<Rightarrow> ustr \<Rightarrow> ustr option" where
  "executable_basename env exe = map_option to_ascii_lowercase (we_file_name env exe)"

definition is_powershell_executable :: "win_env \<Rightarrow> ustr \<Rightarrow> bool" where
  "is_powershell_executable env exe \<longleftrightarrow>
     executable_basename env exe \<in>
       set (map (Some \<circ> lit) [''powershell'', ''powershell.exe'', ''pwsh'', ''pwsh.exe''])"

definition is_browser_executable :: "ustr \<Rightarrow> bool" where
  "is_browser_executable name \<longleftrightarrow>
     name \<in> set (map lit [''chrome'', ''chrome.exe'', ''msedge'', ''msedge.exe'', ''firefox'',
                          ''firefox.exe'', ''iexplore'', ''iexplore.exe''])"

section \<open>PowerShell\<close>

text \<open>The loop over the arguments, by the suffix that starts at \<open>idx\<close>.\<close>

fun parse_powershell_invocation :: "win_env \<Rightarrow> ustr list \<Rightarrow> ustr list option" where
  "parse_powershell_invocation env [] = None"
| "parse_powershell_invocation env (arg # rest) =
     (let lower = to_ascii_lowercase arg
      in if lower \<in> set (map lit [''-command'', ''/command'', ''-c'']) then
           (case rest of
              [] \<Rightarrow> None
            | script # extra \<Rightarrow> if extra \<noteq> [] then None else we_shlex_split env script)
         else if starts_with lower (lit ''-command:'') \<or> starts_with lower (lit ''/command:'') then
           (if rest \<noteq> [] then None
            else case split_once 58 arg of
                   None \<Rightarrow> None
                 | Some (_, script) \<Rightarrow> we_shlex_split env script)
         else if lower \<in> set (map lit [''-nologo'', ''-noprofile'', ''-noninteractive'', ''-mta'', ''-sta'']) then
           parse_powershell_invocation env rest
         else if starts_with lower (lit ''-'') then parse_powershell_invocation env rest
         else Some (arg # rest))"

definition delete_cmdlets :: "ustr list" where
  "delete_cmdlets = map lit [''remove-item'', ''ri'', ''rm'', ''del'', ''erase'', ''rd'', ''rmdir'']"

definition is_segment_separator :: "nat \<Rightarrow> bool" where
  "is_segment_separator c \<longleftrightarrow> c \<in> {59, 124, 38, 10, 13, 9}"

definition is_soft_separator :: "nat \<Rightarrow> bool" where
  "is_soft_separator c \<longleftrightarrow> c \<in> set (lit ''{}()[],;'')"

text \<open>Pushing a trimmed, non-empty token onto the last segment, and starting a new segment
  unless the last one is empty.\<close>

definition push_segment_token :: "ustr \<Rightarrow> ustr list list \<Rightarrow> ustr list list" where
  "push_segment_token cur segments =
     (let s = trim cur
      in if segments \<noteq> [] \<and> s \<noteq> [] then butlast segments @ [last segments @ [s]] else segments)"

definition start_segment :: "ustr list list \<Rightarrow> ustr list list" where
  "start_segment segments = (if segments \<noteq> [] \<and> last segments \<noteq> [] then segments @ [[]] else segments)"

fun scan_token :: "ustr \<Rightarrow> ustr \<Rightarrow> ustr list list \<Rightarrow> ustr list list" where
  "scan_token [] cur segments = push_segment_token cur segments"
| "scan_token (ch # chs) cur segments =
     (if is_segment_separator ch then scan_token chs [] (start_segment (push_segment_token cur segments))
      else scan_token chs (cur @ [ch]) segments)"

definition delete_segments :: "ustr list \<Rightarrow> ustr list list" where
  "delete_segments tokens = fold (\<lambda>tok segments. scan_token tok [] segments) tokens [[]]"

definition segment_atoms :: "ustr list \<Rightarrow> ustr list" where
  "segment_atoms seg = filter (\<lambda>s. s \<noteq> []) (map trim (concat (map (split_where is_soft_separator) seg)))"

definition is_delete_cmdlet :: "ustr \<Rightarrow> bool" where
  "is_delete_cmdlet a \<longleftrightarrow> list_ex (eq_ignore_ascii_case a) delete_cmdlets"

definition is_force_flag :: "ustr \<Rightarrow> bool" where
  "is_force_flag a \<longleftrightarrow>
     eq_ignore_ascii_case a (lit ''-force'') \<or>
     (case slice_to a 7 of Some p \<Rightarrow> eq_ignore_ascii_case p (lit ''-force:'') | None \<Rightarrow> False)"

definition has_force_delete_cmdlet :: "ustr list \<Rightarrow> bool" where
  "has_force_delete_cmdlet tokens \<longleftrightarrow>
     list_ex (\<lambda>seg. list_ex is_delete_cmdlet (segment_atoms seg) \<and> list_ex is_force_flag (segment_atoms seg))
       (delete_segments tokens)"

definition is_dangerous_powershell :: "win_env \<Rightarrow> ustr list \<Rightarrow> bool" where
  "is_dangerous_powershell env command =
     (case command of
        [] \<Rightarrow> False
      | exe # rest \<Rightarrow>
          if \<not> is_powershell_executable env exe then False
          else case parse_powershell_invocation env rest of
            None \<Rightarrow> False
          | Some tokens \<Rightarrow>
              let tokens_lc = map (\<lambda>t. to_ascii_lowercase (trim_matches 34 (trim_matches 39 t))) tokens;
                  has_url = args_have_url env tokens
              in if has_url \<and> list_ex (\<lambda>t. t \<in> set (map lit [''start-process'', ''start'', ''saps'', ''invoke-item'', ''ii'']) \<or>
                      sublist (lit ''start-process'') t \<or> sublist (lit ''invoke-item'') t) tokens_lc then True
                 else if has_url \<and> list_ex (\<lambda>t. sublist (lit ''shellexecute'') t \<or>
                      sublist (lit ''shell.application'') t) tokens_lc then True
                 else if (case tokens_lc of
                            [] \<Rightarrow> False
                          | first # _ \<Rightarrow>
                              (first = lit ''rundll32'' \<and>
                                 list_ex (sublist (lit ''url.dll,fileprotocolhandler'')) tokens_lc \<and> has_url) \<or>
                              (first = lit ''mshta'' \<and> has_url) \<or>
                              (is_browser_executable first \<and> has_url) \<or>
                              ((first = lit ''explorer'' \<or> first = lit ''explorer.exe'') \<and> has_url)) then True
                 else has_force_delete_cmdlet tokens_lc)"

section \<open>CMD\<close>

text \<open>The loop over the characters of a token; \<open>cur\<close> is the text from \<open>start\<close> to the
  current position.\<close>

fun split_operators :: "ustr \<Rightarrow> ustr \<Rightarrow> ustr list" where
  "split_operators [] cur = (if cur \<noteq> [] then [cur] else [])"
| "split_operators (ch # chs) cur =
     (if ch = 38 \<or> ch = 124 then
        (if cur \<noteq> [] then [cur] else []) @
        (case chs of
           d # ds \<Rightarrow> if d = ch then [ch, d] # split_operators ds [] else [ch] # split_operators chs []
         | [] \<Rightarrow> [ch] # split_operators chs [])
      else split_operators chs (cur @ [ch]))"

definition split_embedded_cmd_operators :: "ustr \<Rightarrow> ustr list" where
  "split_embedded_cmd_operators token = filter (\<lambda>s. trim s \<noteq> []) (split_operators token [])"

definition has_force_flag_cmd :: "ustr list \<Rightarrow> bool" where
  "has_force_flag_cmd args = list_ex (\<lambda>a. eq_ignore_ascii_case a (lit ''/f'')) args"

definition has_recursive_flag_cmd :: "ustr list \<Rightarrow> bool" where
  "has_recursive_flag_cmd args = list_ex (\<lambda>a. eq_ignore_ascii_case a (lit ''/s'')) args"

definition has_quiet_flag_cmd :: "ustr list \<Rightarrow> bool" where
  "has_quiet_flag_cmd args = list_ex (\<lambda>a. eq_ignore_ascii_case a (lit ''/q'')) args"

text \<open>The options before the body of the command: \<open>None\<close> bails out, \<open>Some\<close> is what the iterator
  has left.\<close>

fun cmd_body :: "ustr list \<Rightarrow> ustr list option" where
  "cmd_body [] = Some []"
| "cmd_body (arg # rest) =
     (let lower = to_ascii_lowercase arg
      in if lower \<in> set (map lit [''/c'', ''/r'', ''-c'']) then Some rest
         else if starts_with lower (lit ''/'') then cmd_body rest
         else None)"

definition is_cmd_separator :: "ustr \<Rightarrow> bool" where
  "is_cmd_separator t \<longleftrightarrow> t \<in> set (map lit [''&'', ''&&'', ''|'', ''||''])"

definition dangerous_cmd_segment :: "win_env \<Rightarrow> ustr list \<Rightarrow> bool" where
  "dangerous_cmd_segment env segment =
     (case segment of
        [] \<Rightarrow> False
      | cmd # _ \<Rightarrow>
          if eq_ignore_ascii_case cmd (lit ''start'') \<and> args_have_url env segment then True
          else if (eq_ignore_ascii_case cmd (lit ''del'') \<or> eq_ignore_ascii_case cmd (lit ''erase'')) \<and>
            has_force_flag_cmd segment then True
          else (eq_ignore_ascii_case cmd (lit ''rd'') \<or> eq_ignore_ascii_case cmd (lit ''rmdir'')) \<and>
            has_recursive_flag_cmd segment \<and> has_quiet_flag_cmd segment)"

definition cmd_tokens :: "win_env \<Rightarrow> ustr list \<Rightarrow> ustr list" where
  "cmd_tokens env remaining =
     concat (map split_embedded_cmd_operators
       (case remaining of
          [only] \<Rightarrow> (case we_shlex_split env only of Some ts \<Rightarrow> ts | None \<Rightarrow> [only])
        | _ \<Rightarrow> remaining))"

definition is_dangerous_cmd :: "win_env \<Rightarrow> ustr list \<Rightarrow> bool" where
  "is_dangerous_cmd env command =
     (case command of
        [] \<Rightarrow> False
      | exe # rest \<Rightarrow>
          (case executable_basename env exe of
             None \<Rightarrow> False
           | Some base \<Rightarrow>
               if base \<noteq> lit ''cmd'' \<and> base \<noteq> lit ''cmd.exe'' then False
               else case cmd_body rest of
                 None \<Rightarrow> False
               | Some remaining \<Rightarrow>
                   if remaining = [] then False
                   else list_ex (dangerous_cmd_segment env)
                     (split_where is_cmd_separator (cmd_tokens env remaining))))"

section \<open>Programs launched directly\<close>

definition is_direct_gui_launch :: "win_env \<Rightarrow> ustr list \<Rightarrow> bool" where
  "is_direct_gui_launch env command =
     (case command of
        [] \<Rightarrow> False
      | exe # rest \<Rightarrow>
          (case executable_basename env exe of
             None \<Rightarrow> False
           | Some base \<Rightarrow>
               if (base = lit ''explorer'' \<or> base = lit ''explorer.exe'') \<and> args_have_url env rest then True
               else if (base = lit ''mshta'' \<or> base = lit ''mshta.exe'') \<and> args_have_url env rest then True
               else if (base = lit ''rundll32'' \<or> base = lit ''rundll32.exe'') \<and>
                 list_ex (\<lambda>t. sublist (lit ''url.dll,fileprotocolhandler'') (to_ascii_lowercase t)) rest \<and>
                 args_have_url env rest then True
               else is_browser_executable base \<and> args_have_url env rest))"

definition is_dangerous_command_windows :: "win_env \<Rightarrow> ustr list \<Rightarrow> bool" where
  "is_dangerous_command_windows env command =
     (if is_dangerous_powershell env command then True
      else if is_dangerous_cmd env command then True
      else is_direct_gui_launch env command)"

section \<open>Operators are split off without loss\<close>

definition is_operator :: "ustr \<Rightarrow> bool" where
  "is_operator t \<longleftrightarrow> t \<in> {[38], [38, 38], [124], [124, 124]}"

lemma split_operators_spec:
  "38 \<notin> set cur \<Longrightarrow> 124 \<notin> set cur \<Longrightarrow>
   concat (split_operators s cur) = cur @ s \<and>
   list_all (\<lambda>t. is_operator t \<or> t \<noteq> [] \<and> 38 \<notin> set t \<and> 124 \<notin> set t) (split_operators s cur)"
proof (induction s cur rule: split_operators.induct)
  case (2 ch chs cur)
  show ?case
  proof (cases "ch = 38 \<or> ch = 124")
    case True
    with 2 show ?thesis
      by (cases chs) (auto simp: is_operator_def)
  next
    case False
    with 2 show ?thesis by auto
  qed
qed auto

lemma split_where_ne [simp]: "split_where p xs \<noteq> []"
  by (induction xs) auto

lemma split_where_append_sep:
  "p x \<Longrightarrow> split_where p (xs @ x # ys) = split_where p xs @ split_where p ys"
  by (induction xs) auto

lemma is_cmd_separator_split: "is_cmd_separator t \<Longrightarrow> split_embedded_cmd_operators t = [t]"
  by (auto simp: is_cmd_separator_def split_embedded_cmd_operators_def lit_def trim_def trim_start_def
      trim_start_by_def trim_end_def trim_end_by_def is_whitespace_def)

lemma cmd_tokens_several: "2 \<le> length ws \<Longrightarrow> cmd_tokens env ws = concat (map split_embedded_cmd_operators ws)"
  by (auto simp: cmd_tokens_def split: list.splits)

text \<open>The operators embedded in a token are cut out without losing a character: what is left
  between them is free of operators, and only blank pieces are dropped.\<close>

lemma embedded_operators_split:
  "\<exists>parts. concat parts = token \<and> split_embedded_cmd_operators token = filter (\<lambda>s. trim s \<noteq> []) parts \<and>
     list_all (\<lambda>t. is_operator t \<or> t \<noteq> [] \<and> 38 \<notin> set t \<and> 124 \<notin> set t) parts"
  using split_operators_spec [of "[]" token]
  by (intro exI [of _ "split_operators token []"]) (simp add: split_embedded_cmd_operators_def)

lemma cmd_tokens_chain:
  assumes "is_cmd_separator sep" and "is_cmd_separator sep'" and "2 \<le> length ws"
  shows "cmd_tokens env (pre @ sep # ws @ sep' # post) =
    concat (map split_embedded_cmd_operators pre) @ sep # cmd_tokens env ws @
    sep' # concat (map split_embedded_cmd_operators post)"
  using assms by (simp add: cmd_tokens_several is_cmd_separator_split)

lemma is_dangerous_cmd_body:
  assumes "executable_basename env exe = Some (lit ''cmd'')" and "to_ascii_lowercase switch = lit ''/c''"
  shows "is_dangerous_cmd env (exe # switch # ws) \<longleftrightarrow>
    ws \<noteq> [] \<and> list_ex (dangerous_cmd_segment env) (split_where is_cmd_separator (cmd_tokens env ws))"
  using assms by (simp add: is_dangerous_cmd_def)

text \<open>Chaining hides nothing from the danger list of CMD: when a body of at least two words
  is dangerous by itself, it stays dangerous with any words and an operator before it and an
  operator and any words after it.\<close>

theorem chaining_keeps_cmd_dangerous:
  assumes "executable_basename env exe = Some (lit ''cmd'')" and "to_ascii_lowercase switch = lit ''/c''"
    and "2 \<le> length ws" and "is_dangerous_cmd env (exe # switch # ws)"
    and "is_cmd_separator sep" and "is_cmd_separator sep'"
  shows "is_dangerous_command_windows env (exe # switch # pre @ sep # ws @ sep' # post)"
proof -
  have "list_ex (dangerous_cmd_segment env) (split_where is_cmd_separator (cmd_tokens env ws))"
    using assms(4) by (simp add: is_dangerous_cmd_body [OF assms(1,2)])
  then have "is_dangerous_cmd env (exe # switch # pre @ sep # ws @ sep' # post)"
    using assms(3,5,6)
    by (simp add: is_dangerous_cmd_body [OF assms(1,2)] cmd_tokens_chain split_where_append_sep)
  then show ?thesis
    by (simp add: is_dangerous_command_windows_def)
qed

definition plain_win_env :: win_env where
  "plain_win_env = \<lparr>we_file_name = Some, we_shlex_split = (\<lambda>s. Some [s]), we_url_capture = (\<lambda>_. None),
     we_url_scheme = (\<lambda>_. None)\<rparr>"

lemma no_url [simp]: "\<not> args_have_url plain_win_env args"
  by (induction args) (auto simp: args_have_url_def looks_like_url_def plain_win_env_def)

lemma plain_basename [simp]: "executable_basename plain_win_env exe = Some (to_ascii_lowercase exe)"
  by (simp add: executable_basename_def plain_win_env_def)

theorem chaining_keeps_cmd_dangerous_witness:
  "is_dangerous_command_windows plain_win_env
     (map lit [''CMD'', ''/C'', ''echo'', ''hi'', ''&&'', ''del'', ''/f'', ''&'', ''dir''])"
proof -
  have "is_dangerous_cmd plain_win_env (lit ''CMD'' # lit ''/C'' # map lit [''del'', ''/f''])"
    by (simp add: is_dangerous_cmd_def cmd_tokens_def split_embedded_cmd_operators_def is_cmd_separator_def
        dangerous_cmd_segment_def has_force_flag_cmd_def str_ops)
  then show ?thesis
    using chaining_keeps_cmd_dangerous [of plain_win_env "lit ''CMD''" "lit ''/C''" "map lit [''del'', ''/f'']"
        "lit ''&&''" "lit ''&''" "map lit [''echo'', ''hi'']" "map lit [''dir'']"]
    by (simp add: is_cmd_separator_def str_ops)
qed

text \<open>CMD accepts switches without a space between them; the words are compared whole, so the
  usual spelling of a recursive, quiet removal is not on the list.\<close>

lemma joined_switches_missed:
  "\<not> is_dangerous_command_windows plain_win_env (map lit [''cmd'', ''/c'', ''rd'', ''/s/q'', ''work''])"
  by (simp add: is_dangerous_command_windows_def is_dangerous_powershell_def is_powershell_executable_def
      is_direct_gui_launch_def is_browser_executable_def is_dangerous_cmd_def cmd_tokens_def split_embedded_cmd_operators_def is_cmd_separator_def
      dangerous_cmd_segment_def has_recursive_flag_cmd_def has_quiet_flag_cmd_def str_ops)

end
