(* ===== verification/TaggedBlocks.thy ===== *)
theory TaggedBlocks
  imports Prelude
begin

text \<open>
  Splitting a streamed message into text and tagged blocks: \<open>core/src/tagged_block_parser.rs\<close> and
  its use for plans, \<open>core/src/proposed_plan_parser.rs\<close>. The parser keeps the characters of a line
  back until the line can no longer be a tag line. The lemmas show that cutting the message into
  deltas does not matter: up to joining neighbouring texts the segments are those of reading the
  whole message line by line (\<open>tagged_lines\<close>).
\<close>

section \<open>The line parser\<close>

record 'a tag_spec =
  spec_open :: ustr
  spec_close :: ustr
  spec_tag :: 'a

datatype 'a tagged_segment = Normal ustr | TagStart 'a | TagDelta 'a ustr | TagEnd 'a

record 'a line_parser =
  tag_specs :: "'a tag_spec list"
  active_tag :: "'a option"
  detect_tag :: bool
  line_buffer :: ustr

definition line_parser_new :: "'a tag_spec list \<Rightarrow> 'a line_parser" where
  "line_parser_new specs =
     \<lparr>tag_specs = specs, active_tag = None, detect_tag = True, line_buffer = []\<rparr>"

fun push_segment :: "'a tagged_segment list \<Rightarrow> 'a tagged_segment \<Rightarrow> 'a tagged_segment list" where
  "push_segment segs (Normal delta) =
     (if delta = [] then segs
      else case rev segs of
        Normal existing # before \<Rightarrow> rev before @ [Normal (existing @ delta)]
      | _ \<Rightarrow> segs @ [Normal delta])"
| "push_segment segs (TagDelta tag delta) =
     (if delta = [] then segs
      else case rev segs of
        TagDelta existing_tag existing # before \<Rightarrow>
          if existing_tag = tag then rev before @ [TagDelta existing_tag (existing @ delta)]
          else segs @ [TagDelta tag delta]
      | _ \<Rightarrow> segs @ [TagDelta tag delta])"
| "push_segment segs (TagStart tag) = segs @ [TagStart tag]"
| "push_segment segs (TagEnd tag) = segs @ [TagEnd tag]"

text \<open>\<open>push_text\<close> wraps the text in the segment of the open block, if one is open.\<close>

fun text_segment :: "'a option \<Rightarrow> ustr \<Rightarrow> 'a tagged_segment" where
  "text_segment (Some tag) s = TagDelta tag s"
| "text_segment None s = Normal s"

definition push_text ::
  "'a line_parser \<Rightarrow> ustr \<Rightarrow> 'a tagged_segment list \<Rightarrow> 'a tagged_segment list" where
  "push_text p s segs = push_segment segs (text_segment (active_tag p) s)"

definition is_tag_prefix :: "'a tag_spec list \<Rightarrow> ustr \<Rightarrow> bool" where
  "is_tag_prefix specs s =
     (let slug = trim_end s
      in list_ex (\<lambda>spec. starts_with (spec_open spec) slug \<or> starts_with (spec_close spec) slug) specs)"

definition match_open :: "'a tag_spec list \<Rightarrow> ustr \<Rightarrow> 'a option" where
  "match_open specs slug = map_option spec_tag (List.find (\<lambda>spec. spec_open spec = slug) specs)"

definition match_close :: "'a tag_spec list \<Rightarrow> ustr \<Rightarrow> 'a option" where
  "match_close specs slug = map_option spec_tag (List.find (\<lambda>spec. spec_close spec = slug) specs)"

definition line_slug :: "ustr \<Rightarrow> ustr" where
  "line_slug line = trim_end (trim_start (case strip_suffix line newline of Some s \<Rightarrow> s | None \<Rightarrow> line))"

fun finish_line ::
  "'a line_parser \<Rightarrow> 'a tagged_segment list \<Rightarrow> 'a line_parser \<times> 'a tagged_segment list" where
  "finish_line p segs =
     (let line = line_buffer p; slug = line_slug line; p = p\<lparr>line_buffer := [], detect_tag := True\<rparr>
      in case (match_open (tag_specs p) slug, active_tag p) of
           (Some tag, None) \<Rightarrow> (p\<lparr>active_tag := Some tag\<rparr>, push_segment segs (TagStart tag))
         | _ \<Rightarrow>
           (case match_close (tag_specs p) slug of
              Some tag \<Rightarrow>
                if active_tag p = Some tag
                then (p\<lparr>active_tag := None\<rparr>, push_segment segs (TagEnd tag))
                else (p, push_text p line segs)
            | None \<Rightarrow> (p, push_text p line segs)))"

fun parse_chars ::
  "'a line_parser \<Rightarrow> 'a tagged_segment list \<Rightarrow> ustr \<Rightarrow> ustr
    \<Rightarrow> 'a line_parser \<times> 'a tagged_segment list" where
  "parse_chars p segs run [] = (p, if run = [] then segs else push_text p run segs)"
| "parse_chars p segs run (ch # cs) =
     (if detect_tag p then
        let segs = (if run = [] then segs else push_text p run segs);
            p = p\<lparr>line_buffer := line_buffer p @ [ch]\<rparr>
        in if ch = 10 then (let (p, segs) = finish_line p segs in parse_chars p segs [] cs)
           else
             let slug = trim_start (line_buffer p)
             in if slug = [] \<or> is_tag_prefix (tag_specs p) slug then parse_chars p segs [] cs
                else
                  let buffered = line_buffer p; p = p\<lparr>line_buffer := [], detect_tag := False\<rparr>
                  in parse_chars p (push_text p buffered segs) [] cs
      else if ch = 10
        then parse_chars (p\<lparr>detect_tag := True\<rparr>) (push_text p (run @ [ch]) segs) [] cs
        else parse_chars p segs (run @ [ch]) cs)"

definition parse_delta :: "'a line_parser \<Rightarrow> ustr \<Rightarrow> 'a line_parser \<times> 'a tagged_segment list" where
  "parse_delta p delta = parse_chars p [] [] delta"

definition finish_parser :: "'a line_parser \<Rightarrow> 'a line_parser \<times> 'a tagged_segment list" where
  "finish_parser p =
     (let (p, segs) =
            (if line_buffer p = [] then (p, [])
             else
               let buffered = line_buffer p; slug = line_slug buffered; p = p\<lparr>line_buffer := []\<rparr>
               in case (match_open (tag_specs p) slug, active_tag p) of
                    (Some tag, None) \<Rightarrow> (p\<lparr>active_tag := Some tag\<rparr>, push_segment [] (TagStart tag))
                  | _ \<Rightarrow>
                    (case match_close (tag_specs p) slug of
                       Some tag \<Rightarrow>
                         if active_tag p = Some tag
                         then (p\<lparr>active_tag := None\<rparr>, push_segment [] (TagEnd tag))
                         else (p, push_text p buffered [])
                     | None \<Rightarrow> (p, push_text p buffered [])));
          segs = (case active_tag p of Some tag \<Rightarrow> push_segment segs (TagEnd tag) | None \<Rightarrow> segs)
      in (p\<lparr>active_tag := None, detect_tag := True\<rparr>, segs))"

text \<open>A stream: the deltas in order, then the end.\<close>

fun parse_deltas :: "'a line_parser \<Rightarrow> ustr list \<Rightarrow> 'a line_parser \<times> 'a tagged_segment list" where
  "parse_deltas p [] = finish_parser p"
| "parse_deltas p (d # ds) =
     (let (p, segs) = parse_delta p d; (p, more_segs) = parse_deltas p ds in (p, segs @ more_segs))"

section \<open>Plans\<close>

datatype plan_tag = ProposedPlan

datatype plan_segment =
  PlanNormal ustr | ProposedPlanStart | ProposedPlanDelta ustr | ProposedPlanEnd

definition plan_specs :: "plan_tag tag_spec list" where
  "plan_specs =
     [\<lparr>spec_open = lit ''<proposed_plan>'', spec_close = lit ''</proposed_plan>'', spec_tag = ProposedPlan\<rparr>]"

fun map_plan_segment :: "plan_tag tagged_segment \<Rightarrow> plan_segment" where
  "map_plan_segment (Normal s) = PlanNormal s"
| "map_plan_segment (TagStart ProposedPlan) = ProposedPlanStart"
| "map_plan_segment (TagDelta ProposedPlan s) = ProposedPlanDelta s"
| "map_plan_segment (TagEnd ProposedPlan) = ProposedPlanEnd"

definition plan_parser_new :: "plan_tag line_parser" where
  "plan_parser_new = line_parser_new plan_specs"

definition plan_parse :: "plan_tag line_parser \<Rightarrow> ustr \<Rightarrow> plan_tag line_parser \<times> plan_segment list" where
  "plan_parse p delta = (let (p, segs) = parse_delta p delta in (p, map map_plan_segment segs))"

definition plan_finish :: "plan_tag line_parser \<Rightarrow> plan_tag line_parser \<times> plan_segment list" where
  "plan_finish p = (let (p, segs) = finish_parser p in (p, map map_plan_segment segs))"

definition plan_segments :: "ustr \<Rightarrow> plan_segment list" where
  "plan_segments s = (let (p, segs) = plan_parse plan_parser_new s in segs @ snd (plan_finish p))"

fun strip_step :: "ustr \<Rightarrow> plan_segment \<Rightarrow> ustr" where
  "strip_step out (PlanNormal delta) = out @ delta"
| "strip_step out _ = out"

definition strip_proposed_plan_blocks :: "ustr \<Rightarrow> ustr" where
  "strip_proposed_plan_blocks s = foldl strip_step [] (plan_segments s)"

fun extract_step :: "bool \<times> ustr \<Rightarrow> plan_segment \<Rightarrow> bool \<times> ustr" where
  "extract_step (saw, plan) ProposedPlanStart = (True, [])"
| "extract_step (saw, plan) (ProposedPlanDelta delta) = (saw, plan @ delta)"
| "extract_step (saw, plan) ProposedPlanEnd = (saw, plan)"
| "extract_step (saw, plan) (PlanNormal _) = (saw, plan)"

definition extract_proposed_plan_text :: "ustr \<Rightarrow> ustr option" where
  "extract_proposed_plan_text s =
     (let (saw, plan) = foldl extract_step (False, []) (plan_segments s)
      in if saw then Some plan else None)"

section \<open>Reading whole lines\<close>

text \<open>The reference: the message is cut after its newlines; a line whose trimmed text is the opening
  tag (outside a block) or the closing tag of the open block is a tag line, any other line is text.\<close>

definition text_lines :: "ustr \<Rightarrow> ustr list" where
  "text_lines s =
     (let parts = split_on 10 s
      in map (\<lambda>l. l @ newline) (butlast parts) @ (if last parts = [] then [] else [last parts]))"

definition line_segment :: "'a tag_spec list \<Rightarrow> 'a option \<Rightarrow> ustr \<Rightarrow> 'a option \<times> 'a tagged_segment" where
  "line_segment specs active line =
     (case (match_open specs (line_slug line), active) of
        (Some tag, None) \<Rightarrow> (Some tag, TagStart tag)
      | _ \<Rightarrow>
        (case match_close specs (line_slug line) of
           Some tag \<Rightarrow> if active = Some tag then (None, TagEnd tag) else (active, text_segment active line)
         | None \<Rightarrow> (active, text_segment active line)))"

fun line_segments :: "'a tag_spec list \<Rightarrow> 'a option \<Rightarrow> ustr list \<Rightarrow> 'a tagged_segment list" where
  "line_segments specs active [] = (case active of Some tag \<Rightarrow> [TagEnd tag] | None \<Rightarrow> [])"
| "line_segments specs active (l # ls) =
     (let (active, seg) = line_segment specs active l in seg # line_segments specs active ls)"

definition join_segments :: "'a tagged_segment list \<Rightarrow> 'a tagged_segment list" where
  "join_segments segs = foldl push_segment [] segs"

definition tagged_lines :: "'a tag_spec list \<Rightarrow> ustr \<Rightarrow> 'a tagged_segment list" where
  "tagged_lines specs s = join_segments (line_segments specs None (text_lines s))"

section \<open>Joining texts\<close>

lemma push_segment_empty [simp]: "push_segment segs (text_segment active []) = segs"
  by (cases active) auto

lemma push_segment_text_text:
  "push_segment (push_segment segs (text_segment active s)) (text_segment active t) =
   push_segment segs (text_segment active (s @ t))"
  by (cases active; cases segs rule: rev_cases) (auto split: tagged_segment.splits)

lemma push_segment_cases:
  obtains active where "seg = text_segment active []"
  | "push_segment segs seg = segs @ [seg]"
  | before active s t where "segs = before @ [text_segment active s]" and "seg = text_segment active t"
      and "push_segment segs seg = before @ [text_segment active (s @ t)]"
proof (cases "\<exists>active t. seg = text_segment active t")
  case True
  then obtain active t where seg: "seg = text_segment active t" by blast
  show ?thesis
  proof (cases "t = []")
    case True
    with seg that(1) show ?thesis by blast
  next
    case ne: False
    show ?thesis
    proof (cases "\<exists>before u. segs = before @ [text_segment active u]")
      case True
      then obtain before u where "segs = before @ [text_segment active u]" by blast
      with seg ne that(3) [of before active u t] show ?thesis
        by (cases active) auto
    next
      case False
      with seg ne that(2) show ?thesis
        by (cases active; cases segs rule: rev_cases) (auto split: tagged_segment.splits)
    qed
  qed
next
  case False
  then have "push_segment segs seg = segs @ [seg]"
    by (cases seg) (metis text_segment.simps | simp)+
  then show ?thesis by (rule that(2))
qed

lemma push_segments_nested:
  "foldl push_segment acc (foldl push_segment [] segs) = foldl push_segment acc segs"
proof (induction segs rule: rev_induct)
  case (snoc seg segs)
  show ?case
    by (rule push_segment_cases [where seg = seg and segs = "foldl push_segment [] segs"])
      (use snoc in \<open>auto simp: push_segment_text_text simp flip: snoc.IH\<close>)
qed simp

lemma join_segments_append: "join_segments (a @ b) = foldl push_segment (join_segments a) b"
  by (simp add: join_segments_def)

lemma foldl_push_join [simp]: "foldl push_segment acc (join_segments segs) = foldl push_segment acc segs"
  by (simp add: join_segments_def push_segments_nested)

lemma join_segments_joined: "join_segments (join_segments a @ b) = join_segments (a @ b)"
  by (simp add: join_segments_append) (simp add: join_segments_def push_segments_nested)

section \<open>A line at a time\<close>

lemma finish_line_segment:
  "finish_line p segs =
     (let (active, seg) = line_segment (tag_specs p) (active_tag p) (line_buffer p)
      in (p\<lparr>line_buffer := [], detect_tag := True, active_tag := active\<rparr>, push_segment segs seg))"
  by (cases p) (auto simp: line_segment_def push_text_def Let_def split: option.splits)

lemma finish_parser_segment:
  "finish_parser p =
     (let (active, seg) = (if line_buffer p = [] then (active_tag p, Normal [])
            else line_segment (tag_specs p) (active_tag p) (line_buffer p))
      in (p\<lparr>line_buffer := [], detect_tag := True, active_tag := None\<rparr>,
          join_segments (seg # line_segments (tag_specs p) active [])))"
  by (cases p) (auto simp: finish_parser_def line_segment_def push_text_def join_segments_def Let_def
      split: option.splits)

section \<open>A character at a time\<close>

text \<open>The segments of one character, and of a list of them, before they are joined.\<close>

definition char_step :: "'a line_parser \<Rightarrow> nat \<Rightarrow> 'a line_parser \<times> 'a tagged_segment list" where
  "char_step p ch =
     (if detect_tag p then
        let line = line_buffer p @ [ch]; slug = trim_start line
        in if ch = 10 then
             let (active, seg) = line_segment (tag_specs p) (active_tag p) line
             in (p\<lparr>line_buffer := [], detect_tag := True, active_tag := active\<rparr>, [seg])
           else if slug = [] \<or> is_tag_prefix (tag_specs p) slug then (p\<lparr>line_buffer := line\<rparr>, [])
           else (p\<lparr>line_buffer := [], detect_tag := False\<rparr>, [text_segment (active_tag p) line])
      else (if ch = 10 then p\<lparr>detect_tag := True\<rparr> else p, [text_segment (active_tag p) [ch]]))"

fun char_steps :: "'a line_parser \<Rightarrow> ustr \<Rightarrow> 'a line_parser \<times> 'a tagged_segment list" where
  "char_steps p [] = (p, [])"
| "char_steps p (ch # cs) =
     (let (p, segs) = char_step p ch; (p, more_segs) = char_steps p cs in (p, segs @ more_segs))"

lemma char_steps_append:
  "char_steps p (a @ b) =
     (let (p, segs) = char_steps p a; (p, more_segs) = char_steps p b in (p, segs @ more_segs))"
  by (induction a arbitrary: p) (auto simp: Let_def split: prod.splits)

lemma push_text_empty [simp]: "push_text p [] segs = segs"
  by (simp add: push_text_def)

lemma parse_chars_steps:
  "parse_chars p segs run cs =
     (fst (char_steps p cs), foldl push_segment (push_text p run segs) (snd (char_steps p cs)))"
proof (induction cs arbitrary: p segs run)
  case (Cons ch cs)
  show ?case
  proof (cases "detect_tag p")
    case True
    then show ?thesis
      by (auto simp: Cons.IH char_step_def finish_line_segment push_text_def Let_def simp del: finish_line.simps
          split: prod.splits)
  next
    case False
    then show ?thesis
      by (auto simp: Cons.IH char_step_def push_text_def push_segment_text_text Let_def
          split: prod.splits)
  qed
qed simp

lemma parse_delta_steps:
  "parse_delta p delta = (fst (char_steps p delta), join_segments (snd (char_steps p delta)))"
  by (simp add: parse_delta_def parse_chars_steps join_segments_def)

lemma parse_deltas_steps:
  "join_segments (snd (parse_deltas p ds)) =
     join_segments (snd (char_steps p (concat ds)) @ snd (finish_parser (fst (char_steps p (concat ds)))))"
proof (induction ds arbitrary: p)
  case (Cons d ds)
  show ?case
    by (auto simp: parse_delta_steps char_steps_append join_segments_joined Let_def split: prod.splits)
      (metis Cons.IH fst_conv join_segments_append snd_conv foldl_push_join append.assoc)
qed simp

section \<open>Lines that can be tags\<close>

lemma trim_end_append:
  "trim_end (a @ b) = (if list_all is_whitespace b then trim_end a else a @ trim_end b)"
  by (auto simp: trim_end_def trim_end_by_def list_all_iff dropWhile_append)

lemma trim_end_take: "\<exists>n. trim_end s = take n s"
proof -
  obtain w where "rev s = w @ dropWhile is_whitespace (rev s)"
    by (metis takeWhile_dropWhile_id)
  then have "s = trim_end s @ rev w"
    by (metis rev_append rev_rev_ident trim_end_by_def trim_end_def)
  then show ?thesis
    by (metis append_eq_conv_conj)
qed

lemma slug_prefix:
  "trim_start q = [] \<or> starts_with (trim_end (trim_start (q @ r))) (trim_end (trim_start q))"
proof (cases "trim_start q = []")
  case False
  then have "trim_start (q @ r) = trim_start q @ r"
    by (auto simp: trim_start_def trim_start_by_def dropWhile_append)
  moreover obtain n where "trim_end (trim_start q) = take n (trim_start q)"
    using trim_end_take by blast
  ultimately show ?thesis
    by (simp add: trim_end_append starts_with_def min_def)
qed simp

lemma newline_whitespace [simp]: "is_whitespace 10"
  by (simp add: is_whitespace_def)

lemma trim_end_Nil [simp]: "trim_end [] = []"
  by (simp add: trim_end_def trim_end_by_def)

lemma trim_end_newline [simp]: "trim_end (s @ newline) = trim_end s"
  by (simp add: trim_end_append)

lemma trim_start_newline: "trim_end (trim_start (s @ newline)) = trim_end (trim_start s)"
proof (cases "trim_start s = []")
  case True
  then have "trim_start (s @ newline) = []"
    by (auto simp: trim_start_def trim_start_by_def dropWhile_append)
  with True show ?thesis by simp
next
  case False
  then have "trim_start (s @ newline) = trim_start s @ newline"
    by (auto simp: trim_start_def trim_start_by_def dropWhile_append)
  then show ?thesis by simp
qed

lemma line_slug_trim: "line_slug s = trim_end (trim_start s)"
proof (cases "strip_suffix s newline")
  case (Some r)
  then have "s = r @ newline"
    by (simp add: strip_suffix_eq_Some_iff)
  with Some show ?thesis
    by (simp add: line_slug_def trim_start_newline)
qed (simp add: line_slug_def)

lemma match_SomeD:
  "match_open specs slug = Some tag \<Longrightarrow> \<exists>spec \<in> set specs. spec_open spec = slug"
  "match_close specs slug = Some tag \<Longrightarrow> \<exists>spec \<in> set specs. spec_close spec = slug"
  by (auto simp: match_open_def match_close_def find_Some_iff)

lemma match_tag_prefix:
  assumes "match_open specs (line_slug (q @ r)) = Some tag \<or> match_close specs (line_slug (q @ r)) = Some tag"
  shows "trim_start q = [] \<or> is_tag_prefix specs (trim_start q)"
proof -
  from assms obtain spec where "spec \<in> set specs"
    "spec_open spec = line_slug (q @ r) \<or> spec_close spec = line_slug (q @ r)"
    by (auto dest: match_SomeD)
  with slug_prefix [of q r] show ?thesis
    unfolding is_tag_prefix_def line_slug_trim list_ex_iff Let_def by metis
qed

lemma decided_line_is_text:
  assumes "trim_start q \<noteq> []" and "\<not> is_tag_prefix specs (trim_start q)"
  shows "line_segment specs active (q @ r) = (active, text_segment active (q @ r))"
proof -
  have "match_open specs (line_slug (q @ r)) = None" "match_close specs (line_slug (q @ r)) = None"
    using match_tag_prefix [of specs q r] assms by (metis not_None_eq)+
  then show ?thesis
    by (simp add: line_segment_def)
qed

section \<open>The stream is read line by line\<close>

text \<open>The parser at the start of a line, with the characters of the line that it holds back.\<close>

definition at_line :: "'a tag_spec list \<Rightarrow> 'a option \<Rightarrow> ustr \<Rightarrow> 'a line_parser" where
  "at_line specs active held =
     \<lparr>tag_specs = specs, active_tag = active, detect_tag = True, line_buffer = held\<rparr>"

definition in_text :: "'a tag_spec list \<Rightarrow> 'a option \<Rightarrow> 'a line_parser" where
  "in_text specs active = \<lparr>tag_specs = specs, active_tag = active, detect_tag = False, line_buffer = []\<rparr>"

lemma text_steps:
  "10 \<notin> set cs \<Longrightarrow> char_steps (in_text specs active) cs = (in_text specs active, map (\<lambda>c. text_segment active [c]) cs)"
  by (induction cs) (auto simp: char_step_def in_text_def)

lemma push_text_chars:
  "foldl push_segment (push_segment acc (text_segment active s)) (map (\<lambda>c. text_segment active [c]) cs) =
   push_segment acc (text_segment active (s @ cs))"
  by (induction cs arbitrary: s) (simp_all add: push_segment_text_text)

lemma held_step:
  assumes "c \<noteq> 10"
  shows "char_step (at_line specs active held) c =
    (if trim_start (held @ [c]) = [] \<or> is_tag_prefix specs (trim_start (held @ [c]))
     then (at_line specs active (held @ [c]), [])
     else (in_text specs active, [text_segment active (held @ [c])]))"
  using assms by (simp add: char_step_def at_line_def in_text_def Let_def)

text \<open>The characters of a line: they are all held back, or the line is text.\<close>

lemma line_chars:
  assumes "10 \<notin> set cs"
  shows "char_steps (at_line specs active held) cs = (at_line specs active (held @ cs), []) \<or>
    (fst (char_steps (at_line specs active held) cs) = in_text specs active \<and>
     (\<forall>acc. foldl push_segment acc (snd (char_steps (at_line specs active held) cs)) =
        push_segment acc (text_segment active (held @ cs))) \<and>
     (\<forall>r. line_segment specs active (held @ cs @ r) = (active, text_segment active (held @ cs @ r))))"
  using assms
proof (induction cs arbitrary: held)
  case (Cons c cs)
  then have c: "c \<noteq> 10" "10 \<notin> set cs" by auto
  show ?case
  proof (cases "trim_start (held @ [c]) = [] \<or> is_tag_prefix specs (trim_start (held @ [c]))")
    case True
    with Cons.IH [of "held @ [c]"] c show ?thesis
      by (auto simp: held_step split: prod.splits)
  next
    case False
    with decided_line_is_text [of "held @ [c]" specs active] c show ?thesis
      by (auto simp: held_step text_steps push_text_chars)
  qed
qed simp

lemma whole_line:
  assumes "10 \<notin> set cs" and "line_segment specs active (cs @ newline) = (active', seg)"
  shows "fst (char_steps (at_line specs active []) (cs @ newline)) = at_line specs active' []"
    and "foldl push_segment acc (snd (char_steps (at_line specs active []) (cs @ newline))) = push_segment acc seg"
  using line_chars [OF assms(1), of specs active "[]"] assms(2)
  by (auto simp: char_steps_append char_step_def at_line_def in_text_def push_segment_text_text Let_def
      split: prod.splits)

lemma last_line:
  assumes "10 \<notin> set cs" and "cs \<noteq> []"
  shows "foldl push_segment acc (snd (char_steps (at_line specs active []) cs) @
      snd (finish_parser (fst (char_steps (at_line specs active []) cs)))) =
    foldl push_segment acc (line_segments specs active [cs])"
  using line_chars [OF assms(1), of specs active "[]"]
proof (elim disjE conjE)
  assume "\<forall>r. line_segment specs active ([] @ cs @ r) = (active, text_segment active ([] @ cs @ r))"
  then have "line_segment specs active cs = (active, text_segment active cs)"
    by (metis append_Nil append_Nil2)
  moreover assume "fst (char_steps (at_line specs active []) cs) = in_text specs active"
    and "\<forall>acc. foldl push_segment acc (snd (char_steps (at_line specs active []) cs)) =
      push_segment acc (text_segment active ([] @ cs))"
  ultimately show ?thesis
    by (simp add: finish_parser_segment in_text_def)
qed (use assms(2) in \<open>simp add: finish_parser_segment at_line_def Let_def split: prod.splits\<close>)

lemma text_lines_Nil [simp]: "text_lines [] = []"
  by (simp add: text_lines_def)

lemma text_lines_no_newline: "10 \<notin> set s \<Longrightarrow> s \<noteq> [] \<Longrightarrow> text_lines s = [s]"
  by (simp add: text_lines_def split_on_no_sep)

lemma text_lines_append: "10 \<notin> set s \<Longrightarrow> text_lines (s @ 10 # t) = (s @ newline) # text_lines t"
  by (simp add: text_lines_def split_on_append_sep Let_def)

lemma steps_by_lines:
  "foldl push_segment acc (snd (char_steps (at_line specs active []) s) @
      snd (finish_parser (fst (char_steps (at_line specs active []) s)))) =
   foldl push_segment acc (line_segments specs active (text_lines s))"
proof (induction "length s" arbitrary: s acc active rule: less_induct)
  case less
  show ?case
  proof (cases "10 \<in> set s")
    case False
    then show ?thesis
      using last_line [OF False, of acc specs active]
      by (cases "s = []")
        (simp_all add: text_lines_no_newline finish_parser_segment at_line_def join_segments_def
          push_segments_nested split: option.splits)
  next
    case True
    then obtain cs t where s: "s = (cs @ newline) @ t" and cs: "10 \<notin> set cs"
      by (metis append.assoc append_Cons append_Nil split_list_first)
    obtain active' seg where seg: "line_segment specs active (cs @ newline) = (active', seg)"
      by fastforce
    have "char_steps (at_line specs active []) s = (fst (char_steps (at_line specs active' []) t),
        snd (char_steps (at_line specs active []) (cs @ newline)) @ snd (char_steps (at_line specs active' []) t))"
      using whole_line(1) [OF cs seg] unfolding s char_steps_append by (auto split: prod.splits)
    then show ?thesis
      using less [of t "push_segment acc seg" active'] whole_line(2) [OF cs seg, of acc]
      by (simp add: s seg text_lines_append cs)
  qed
qed

text \<open>C30: cutting a streamed message into deltas does not change what is read: for every list of
  tags and every way to cut the message, the segments of the stream, with neighbouring texts
  joined, are those of reading the whole message line by line, where a line counts as a tag exactly
  when its trimmed text is the opening tag outside a block or the closing tag of the open block,
  and an unfinished block is closed at the end.\<close>
theorem stream_reads_lines:
  "join_segments (snd (parse_deltas (line_parser_new specs) deltas)) = tagged_lines specs (concat deltas)"
proof -
  have "line_parser_new specs = at_line specs None []"
    by (simp add: line_parser_new_def at_line_def)
  then show ?thesis
    using steps_by_lines [of "[]" specs None "concat deltas"]
    unfolding parse_deltas_steps tagged_lines_def by (simp add: join_segments_def)
qed

section \<open>Plans are read back\<close>

definition whole_lines :: "ustr \<Rightarrow> bool" where
  "whole_lines s \<longleftrightarrow> s = [] \<or> last s = 10"

lemma text_lines_whole: "whole_lines a \<Longrightarrow> text_lines (a @ b) = text_lines a @ text_lines b"
proof (cases a rule: rev_cases)
  case (snoc a' c)
  assume "whole_lines a"
  with snoc have a: "a = a' @ [10]"
    by (simp add: whole_lines_def)
  have "split_on 10 (a' @ [10]) = split_on 10 a' @ [[]]"
    by (simp add: split_on_append)
  then show ?thesis
    unfolding a by (simp add: text_lines_def split_on_append Let_def butlast_append)
qed simp

lemma concat_text_lines: "concat (text_lines s) = s"
proof (induction "length s" arbitrary: s rule: less_induct)
  case less
  show ?case
  proof (cases "10 \<in> set s")
    case True
    then obtain cs t where "s = cs @ 10 # t" and "10 \<notin> set cs"
      by (meson split_list_first)
    with less [of t] show ?thesis
      by (simp add: text_lines_append)
  qed (cases "s = []"; simp add: text_lines_no_newline)
qed

text \<open>A reader of segments that does not see how a text is cut.\<close>

lemma foldl_joined:
  assumes "\<And>x active. f x (m (text_segment active [])) = x"
    and "\<And>x active s t. f (f x (m (text_segment active s))) (m (text_segment active t)) = f x (m (text_segment active (s @ t)))"
  shows "foldl f x (map m (join_segments segs)) = foldl f x (map m segs)"
proof (induction segs rule: rev_induct)
  case (snoc seg segs)
  show ?case
  proof (rule push_segment_cases [where seg = seg and segs = "join_segments segs"])
    fix active assume "seg = text_segment active []"
    with snoc assms(1) show ?thesis
      by (simp add: join_segments_append)
  next
    fix before active s t
    assume *: "join_segments segs = before @ [text_segment active s]" "seg = text_segment active t"
      "push_segment (join_segments segs) seg = before @ [text_segment active (s @ t)]"
    with snoc assms(2) show ?thesis
      by (simp add: join_segments_append flip: snoc.IH)
  qed (use snoc in \<open>simp add: join_segments_append\<close>)
qed (simp add: join_segments_def)

lemma text_segment_None: "text_segment None s = Normal s"
  by simp

lemma strip_step_joined:
  "foldl strip_step out (map map_plan_segment (join_segments segs)) = foldl strip_step out (map map_plan_segment segs)"
proof (rule foldl_joined)
  show "strip_step x (map_plan_segment (text_segment active [])) = x" for x and active :: "plan_tag option"
    by (cases active; cases "the active") auto
  show "strip_step (strip_step x (map_plan_segment (text_segment active s))) (map_plan_segment (text_segment active t)) =
      strip_step x (map_plan_segment (text_segment active (s @ t)))" for x s t and active :: "plan_tag option"
    by (cases active; cases "the active") auto
qed

lemma extract_step_joined:
  "foldl extract_step st (map map_plan_segment (join_segments segs)) = foldl extract_step st (map map_plan_segment segs)"
proof (rule foldl_joined)
  show "extract_step x (map_plan_segment (text_segment active [])) = x" for x and active :: "plan_tag option"
    by (cases active; cases "the active"; cases x) auto
  show "extract_step (extract_step x (map_plan_segment (text_segment active s))) (map_plan_segment (text_segment active t)) =
      extract_step x (map_plan_segment (text_segment active (s @ t)))" for x s t and active :: "plan_tag option"
    by (cases active; cases "the active"; cases x) auto
qed

lemma plan_segments_lines:
  "\<exists>segs. plan_segments s = map map_plan_segment segs \<and>
    join_segments segs = join_segments (line_segments plan_specs None (text_lines s))"
proof -
  have p: "plan_parser_new = at_line plan_specs None []"
    by (simp add: plan_parser_new_def line_parser_new_def at_line_def)
  have "plan_segments s = map map_plan_segment (snd (parse_deltas plan_parser_new [s]))"
    by (auto simp: plan_segments_def plan_parse_def plan_finish_def Let_def split: prod.splits)
  moreover have "join_segments (snd (parse_deltas plan_parser_new [s])) =
      join_segments (line_segments plan_specs None (text_lines s))"
    using steps_by_lines [of "[]" plan_specs None s]
    unfolding parse_deltas_steps p by (simp add: join_segments_def)
  ultimately show ?thesis by blast
qed

lemma strip_lines:
  "strip_proposed_plan_blocks s =
   foldl strip_step [] (map map_plan_segment (line_segments plan_specs None (text_lines s)))"
  using plan_segments_lines [of s] unfolding strip_proposed_plan_blocks_def by (metis strip_step_joined)

lemma extract_lines:
  "extract_proposed_plan_text s =
   (let (saw, plan) = foldl extract_step (False, []) (map map_plan_segment (line_segments plan_specs None (text_lines s)))
    in if saw then Some plan else None)"
  using plan_segments_lines [of s] unfolding extract_proposed_plan_text_def by (metis extract_step_joined)

definition is_open_line :: "ustr \<Rightarrow> bool" where
  "is_open_line l \<longleftrightarrow> line_slug l = lit ''<proposed_plan>''"

definition is_close_line :: "ustr \<Rightarrow> bool" where
  "is_close_line l \<longleftrightarrow> line_slug l = lit ''</proposed_plan>''"

lemma plan_matches:
  "match_open plan_specs (line_slug l) = (if is_open_line l then Some ProposedPlan else None)"
  "match_close plan_specs (line_slug l) = (if is_close_line l then Some ProposedPlan else None)"
  by (auto simp: match_open_def match_close_def plan_specs_def is_open_line_def is_close_line_def)

lemma outside_lines:
  "list_all (\<lambda>l. \<not> is_open_line l) ls \<Longrightarrow>
   line_segments plan_specs None (ls @ rest) = map Normal ls @ line_segments plan_specs None rest"
  by (induction ls) (auto simp: line_segment_def plan_matches)

lemma inside_lines:
  "list_all (\<lambda>l. \<not> is_close_line l) ls \<Longrightarrow>
   line_segments plan_specs (Some ProposedPlan) (ls @ rest) =
   map (TagDelta ProposedPlan) ls @ line_segments plan_specs (Some ProposedPlan) rest"
  by (induction ls) (auto simp: line_segment_def plan_matches)

lemma foldl_strip:
  "foldl strip_step out (map (\<lambda>l. PlanNormal l) ls) = out @ concat ls"
  "foldl strip_step out (map (\<lambda>l. ProposedPlanDelta l) ls) = out"
  by (induction ls arbitrary: out) auto

lemma foldl_extract:
  "foldl extract_step (saw, plan) (map (\<lambda>l. PlanNormal l) ls) = (saw, plan)"
  "foldl extract_step (saw, plan) (map (\<lambda>l. ProposedPlanDelta l) ls) = (saw, plan @ concat ls)"
  by (induction ls arbitrary: plan) auto

lemmas plan_lines_simps = line_segment_def plan_matches outside_lines inside_lines text_lines_whole
  foldl_strip foldl_extract concat_text_lines

text \<open>A plan is read back from the message that carries it. When the plan stands between an
  opening and a closing tag line, has no closing tag line of its own and ends with a newline, and
  no line around the block is an opening tag line, extracting the plan gives exactly its text and
  stripping the plans gives exactly the text around it; when the message ends before the closing
  tag the plan is still read.\<close>
theorem plan_is_read_back:
  assumes "whole_lines before" and "list_all (\<lambda>l. \<not> is_open_line l) (text_lines before)"
    and "whole_lines plan" and "list_all (\<lambda>l. \<not> is_close_line l) (text_lines plan)"
    and "list_all (\<lambda>l. \<not> is_open_line l) (text_lines after)"
    and "is_open_line open_line" and "text_lines open_line = [open_line]" and "whole_lines open_line"
    and "is_close_line close_line" and "text_lines close_line = [close_line]" and "whole_lines close_line"
  shows "extract_proposed_plan_text (before @ open_line @ plan @ close_line @ after) = Some plan \<and>
    strip_proposed_plan_blocks (before @ open_line @ plan @ close_line @ after) = before @ after \<and>
    extract_proposed_plan_text (before @ open_line @ plan) = Some plan \<and>
    strip_proposed_plan_blocks (before @ open_line @ plan) = before"
proof -
  have after: "line_segments plan_specs None (text_lines after) = map Normal (text_lines after)"
    using outside_lines [OF assms(5), of "[]"] by simp
  have plan: "line_segments plan_specs (Some ProposedPlan) (text_lines plan) =
      map (TagDelta ProposedPlan) (text_lines plan) @ [TagEnd ProposedPlan]"
    using inside_lines [OF assms(4), of "[]"] by simp
  have not_open: "\<not> is_open_line close_line"
    using assms(9) by (simp add: is_open_line_def is_close_line_def)
  show ?thesis
    using assms after plan not_open
    by (simp_all add: extract_lines strip_lines plan_lines_simps comp_def Let_def)
qed

theorem plan_is_read_back_witness:
  "extract_proposed_plan_text (lit ''Hi'' @ [10] @ lit ''<proposed_plan>'' @ [10] @ lit ''1. Go'' @ [10] @
     lit '' </proposed_plan> '' @ [10] @ lit ''Ok'') = Some (lit ''1. Go'' @ [10]) \<and>
   strip_proposed_plan_blocks (lit ''Hi'' @ [10] @ lit ''<proposed_plan>'' @ [10] @ lit ''1. Go'' @ [10] @
     lit '' </proposed_plan> '' @ [10] @ lit ''Ok'') = lit ''Hi'' @ [10] @ lit ''Ok''"
proof -
  have "10 \<notin> set (lit ''Hi'')" "10 \<notin> set (lit ''<proposed_plan>'')" "10 \<notin> set (lit ''1. Go'')"
    "10 \<notin> set (lit '' </proposed_plan> '')" "10 \<notin> set (lit ''Ok'')"
    by (simp_all add: lit_def)
  then have "whole_lines (lit ''Hi'' @ [10])" "list_all (\<lambda>l. \<not> is_open_line l) (text_lines (lit ''Hi'' @ [10]))"
    "whole_lines (lit ''1. Go'' @ [10])" "list_all (\<lambda>l. \<not> is_close_line l) (text_lines (lit ''1. Go'' @ [10]))"
    "list_all (\<lambda>l. \<not> is_open_line l) (text_lines (lit ''Ok''))"
    "is_open_line (lit ''<proposed_plan>'' @ [10])" "whole_lines (lit ''<proposed_plan>'' @ [10])"
    "text_lines (lit ''<proposed_plan>'' @ [10]) = [lit ''<proposed_plan>'' @ [10]]"
    "is_close_line (lit '' </proposed_plan> '' @ [10])" "whole_lines (lit '' </proposed_plan> '' @ [10])"
    "text_lines (lit '' </proposed_plan> '' @ [10]) = [lit '' </proposed_plan> '' @ [10]]"
    by (simp_all add: whole_lines_def is_open_line_def is_close_line_def line_slug_trim trim_start_newline
        text_lines_append text_lines_no_newline)
      (simp_all add: str_ops)
  then show ?thesis
    using plan_is_read_back [of "lit ''Hi'' @ [10]" "lit ''1. Go'' @ [10]" "lit ''Ok''"
        "lit ''<proposed_plan>'' @ [10]" "lit '' </proposed_plan> '' @ [10]"] by simp
qed

end
