(* ===== verification/ResponseItems.thy ===== *)
theory ResponseItems
  imports Truncation
begin

text \<open>
  The items of a conversation: \<open>protocol/src/models.rs\<close>, what a front end shows of them,
  \<open>core/src/event_mapping.rs\<close>, \<open>protocol/src/items.rs\<close> and \<open>core/src/web_search.rs\<close>, and the
  marks that tell a user's message from one the program wrote, \<open>core/src/session_prefix.rs\<close>,
  \<open>core/src/user_shell_command.rs\<close> and \<open>core/src/instructions/user_instructions.rs\<close>. The identifiers
  that \<open>uuid\<close> draws are an argument.
\<close>

section \<open>Items\<close>

datatype message_content = MsgInputText ustr | MsgInputImage ustr | MsgOutputText ustr

datatype message_phase = Commentary | FinalAnswer

datatype fco_body = BodyText ustr | BodyContentItems "content_item list"

record fco_payload =
  fco_body :: fco_body
  fco_success :: "bool option"

datatype local_shell_status = Completed | InProgress | Incomplete

record local_shell_exec_action =
  lse_command :: "ustr list"
  lse_timeout_ms :: "nat option"
  lse_working_directory :: "ustr option"
  lse_env :: "(ustr \<times> ustr) list option"
  lse_user :: "ustr option"

datatype local_shell_action = LocalShellExec local_shell_exec_action

datatype web_search_action =
    SearchAction "ustr option" "ustr list option"
  | OpenPage "ustr option"
  | FindInPage "ustr option" "ustr option"
  | OtherAction

datatype reasoning_summary = SummaryText ustr

datatype reasoning_content = ReasoningText ustr | ReasoningPlain ustr

record ghost_commit =
  ghost_id :: ustr
  ghost_parent :: "ustr option"
  ghost_untracked_files :: "ustr list"
  ghost_untracked_dirs :: "ustr list"

datatype response_item =
    Message "ustr option" ustr "message_content list" "bool option" "message_phase option"
  | Reasoning ustr "reasoning_summary list" "reasoning_content list option" "ustr option"
  | LocalShellCall "ustr option" "ustr option" local_shell_status local_shell_action
  | FunctionCall "ustr option" ustr ustr ustr
  | FunctionCallOutput ustr fco_payload
  | CustomToolCall "ustr option" "ustr option" ustr ustr ustr
  | CustomToolCallOutput ustr ustr
  | WebSearchCall "ustr option" "ustr option" "web_search_action option"
  | GhostSnapshot ghost_commit
  | CompactionItem ustr
  | OtherItem

text \<open>The arguments of \<open>FunctionCall\<close> are the id, the name, the arguments and the call id; those of
  \<open>CustomToolCall\<close> the id, the status, the call id, the name and the input.\<close>

definition text_payload :: "ustr \<Rightarrow> fco_payload" where
  "text_payload s = \<lparr>fco_body = BodyText s, fco_success = None\<rparr>"

definition fco_items_to_text :: "content_item list \<Rightarrow> ustr option" where
  "fco_items_to_text items =
     (let segments = List.map_filter
            (\<lambda>item. case item of InputText s \<Rightarrow> if trim s \<noteq> [] then Some s else None | InputImage _ \<Rightarrow> None) items
      in if segments = [] then None else Some (join_with newline segments))"

fun fco_body_to_text :: "fco_body \<Rightarrow> ustr option" where
  "fco_body_to_text (BodyText s) = Some s"
| "fco_body_to_text (BodyContentItems items) = fco_items_to_text items"

section \<open>Messages the program wrote\<close>

definition is_session_prefix :: "ustr \<Rightarrow> bool" where
  "is_session_prefix s =
     (let lowered = to_ascii_lowercase (trim_start s)
      in starts_with lowered (lit ''<environment_context>'') \<or> starts_with lowered (lit ''<turn_aborted>''))"

definition is_user_shell_command_text :: "ustr \<Rightarrow> bool" where
  "is_user_shell_command_text s =
     starts_with (to_ascii_lowercase (trim_start s)) (lit ''<user_shell_command>'')"

definition is_user_instructions :: "message_content list \<Rightarrow> bool" where
  "is_user_instructions message =
     (case message of
        [MsgInputText s] \<Rightarrow>
          starts_with s (lit ''# AGENTS.md instructions for '') \<or> starts_with s (lit ''<user_instructions>'')
      | _ \<Rightarrow> False)"

definition is_skill_instructions :: "message_content list \<Rightarrow> bool" where
  "is_skill_instructions message =
     (case message of [MsgInputText s] \<Rightarrow> starts_with s (lit ''<skill'') | _ \<Rightarrow> False)"

record user_instructions =
  ui_directory :: ustr
  ui_text :: ustr

definition user_message :: "ustr \<Rightarrow> response_item" where
  "user_message s = Message None (lit ''user'') [MsgInputText s] None None"

definition user_instructions_item :: "user_instructions \<Rightarrow> response_item" where
  "user_instructions_item ui = user_message
     (lit ''# AGENTS.md instructions for '' @ ui_directory ui @ newline @ newline @
      lit ''<INSTRUCTIONS>'' @ newline @ ui_text ui @ newline @ lit ''</INSTRUCTIONS>'')"

record skill_instructions =
  si_name :: ustr
  si_path :: ustr
  si_contents :: ustr

definition skill_instructions_item :: "skill_instructions \<Rightarrow> response_item" where
  "skill_instructions_item si = user_message
     (lit ''<skill>'' @ newline @ lit ''<name>'' @ si_name si @ lit ''</name>'' @ newline @
      lit ''<path>'' @ si_path si @ lit ''</path>'' @ newline @ si_contents si @ newline @ lit ''</skill>'')"

section \<open>Image marks\<close>

definition is_image_open_tag_text :: "ustr \<Rightarrow> bool" where
  "is_image_open_tag_text s \<longleftrightarrow> s = lit ''<image>''"

definition is_image_close_tag_text :: "ustr \<Rightarrow> bool" where
  "is_image_close_tag_text s \<longleftrightarrow> s = lit ''</image>''"

definition local_image_open_tag_text :: "nat \<Rightarrow> ustr" where
  "local_image_open_tag_text n = lit ''<image name='' @ (lit ''[Image #'' @ show_nat n @ lit '']'') @ lit ''>''"

definition is_local_image_open_tag_text :: "ustr \<Rightarrow> bool" where
  "is_local_image_open_tag_text s =
     (case strip_prefix s (lit ''<image name='') of Some rest \<Rightarrow> ends_with rest (lit ''>'') | None \<Rightarrow> False)"

definition is_local_image_close_tag_text :: "ustr \<Rightarrow> bool" where
  "is_local_image_close_tag_text s = is_image_close_tag_text s"

section \<open>User input\<close>

record text_element =
  byte_range :: "nat \<times> nat"
  placeholder :: "ustr option"

datatype user_input =
    UserText ustr "text_element list"
  | UserImage ustr
  | UserLocalImage ustr
  | UserSkill ustr ustr
  | UserMention ustr ustr

text \<open>\<open>From<Vec<UserInput>>\<close>: the loop carries the number of the last image; loading a local image is
  the argument \<open>local_items\<close>, whose second argument is the label.\<close>

fun input_content ::
  "(ustr \<Rightarrow> nat option \<Rightarrow> message_content list) \<Rightarrow> nat \<Rightarrow> user_input list \<Rightarrow> message_content list" where
  "input_content local_items n [] = []"
| "input_content local_items n (UserText s elems # inputs) =
     MsgInputText s # input_content local_items n inputs"
| "input_content local_items n (UserImage url # inputs) =
     [MsgInputText (lit ''<image>''), MsgInputImage url, MsgInputText (lit ''</image>'')] @
     input_content local_items (n + 1) inputs"
| "input_content local_items n (UserLocalImage path # inputs) =
     local_items path (Some (n + 1)) @ input_content local_items (n + 1) inputs"
| "input_content local_items n (UserSkill name path # inputs) = input_content local_items n inputs"
| "input_content local_items n (UserMention name path # inputs) = input_content local_items n inputs"

definition input_message ::
  "(ustr \<Rightarrow> nat option \<Rightarrow> message_content list) \<Rightarrow> user_input list \<Rightarrow> response_item" where
  "input_message local_items inputs =
     Message None (lit ''user'') (input_content local_items 0 inputs) None None"

text \<open>\<open>str::get\<close> of a byte range.\<close>

definition str_get :: "ustr \<Rightarrow> nat \<times> nat \<Rightarrow> ustr option" where
  "str_get s r =
     (if fst r \<le> snd r
      then Option.bind (slice_to s (snd r)) (\<lambda>head. slice_from head (fst r)) else None)"

definition element_placeholder :: "text_element \<Rightarrow> ustr \<Rightarrow> ustr option" where
  "element_placeholder e s = (case placeholder e of Some p \<Rightarrow> Some p | None \<Rightarrow> str_get s (byte_range e))"

section \<open>Turn items\<close>

record user_message_item =
  um_id :: ustr
  um_content :: "user_input list"

record agent_message_item =
  am_id :: ustr
  am_content :: "ustr list"
  am_phase :: "message_phase option"

record reasoning_item =
  ri_id :: ustr
  ri_summary_text :: "ustr list"
  ri_raw_content :: "ustr list"

record web_search_item =
  ws_id :: ustr
  ws_query :: ustr
  ws_action :: web_search_action

datatype turn_item =
    UserMessage user_message_item
  | AgentMessage agent_message_item
  | Plan ustr ustr
  | ReasoningTurn reasoning_item
  | WebSearch web_search_item
  | ContextCompaction ustr

definition um_message :: "user_message_item \<Rightarrow> ustr" where
  "um_message u = concat (map (\<lambda>c. case c of UserText s _ \<Rightarrow> s | _ \<Rightarrow> []) (um_content u))"

fun um_elements :: "nat \<Rightarrow> user_input list \<Rightarrow> text_element list" where
  "um_elements offset [] = []"
| "um_elements offset (UserText s elems # inputs) =
     map (\<lambda>e. \<lparr>byte_range = (offset + fst (byte_range e), offset + snd (byte_range e)),
               placeholder = element_placeholder e s\<rparr>) elems @
     um_elements (offset + byte_len s) inputs"
| "um_elements offset (_ # inputs) = um_elements offset inputs"

definition um_text_elements :: "user_message_item \<Rightarrow> text_element list" where
  "um_text_elements u = um_elements 0 (um_content u)"

definition um_image_urls :: "user_message_item \<Rightarrow> ustr list" where
  "um_image_urls u = List.map_filter (\<lambda>c. case c of UserImage url \<Rightarrow> Some url | _ \<Rightarrow> None) (um_content u)"

definition um_local_image_paths :: "user_message_item \<Rightarrow> ustr list" where
  "um_local_image_paths u =
     List.map_filter (\<lambda>c. case c of UserLocalImage path \<Rightarrow> Some path | _ \<Rightarrow> None) (um_content u)"

section \<open>Event mapping\<close>

fun nth_opt :: "'a list \<Rightarrow> nat \<Rightarrow> 'a option" where
  "nth_opt [] i = None"
| "nth_opt (x # xs) i = (if i = 0 then Some x else nth_opt xs (i - 1))"

fun is_input_image :: "message_content option \<Rightarrow> bool" where
  "is_input_image (Some (MsgInputImage url)) = True"
| "is_input_image _ = False"

fun parse_user_content ::
  "message_content list \<Rightarrow> nat \<Rightarrow> message_content list \<Rightarrow> user_input list \<Rightarrow> user_input list option" where
  "parse_user_content message idx [] content = Some content"
| "parse_user_content message idx (MsgInputText s # rest) content =
     (if ((is_local_image_open_tag_text s \<or> is_image_open_tag_text s) \<and>
            is_input_image (nth_opt message (idx + 1))) \<or>
         (idx > 0 \<and> (is_local_image_close_tag_text s \<or> is_image_close_tag_text s) \<and>
            is_input_image (nth_opt message (idx - 1)))
      then parse_user_content message (idx + 1) rest content
      else if is_session_prefix s \<or> is_user_shell_command_text s then None
      else parse_user_content message (idx + 1) rest (content @ [UserText s []]))"
| "parse_user_content message idx (MsgInputImage url # rest) content =
     parse_user_content message (idx + 1) rest (content @ [UserImage url])"
| "parse_user_content message idx (MsgOutputText s # rest) content =
     (if is_session_prefix s then None else parse_user_content message (idx + 1) rest content)"

definition parse_user_message :: "ustr \<Rightarrow> message_content list \<Rightarrow> user_message_item option" where
  "parse_user_message uuid message =
     (if is_user_instructions message \<or> is_skill_instructions message then None
      else map_option (\<lambda>content. \<lparr>um_id = uuid, um_content = content\<rparr>)
             (parse_user_content message 0 message []))"

definition parse_agent_message ::
  "ustr \<Rightarrow> ustr option \<Rightarrow> message_content list \<Rightarrow> message_phase option \<Rightarrow> agent_message_item" where
  "parse_agent_message uuid item_id message ph =
     \<lparr>am_id = (case item_id of Some i \<Rightarrow> i | None \<Rightarrow> uuid),
      am_content = List.map_filter (\<lambda>c. case c of MsgOutputText s \<Rightarrow> Some s | _ \<Rightarrow> None) message,
      am_phase = ph\<rparr>"

definition search_action_detail :: "ustr option \<Rightarrow> ustr list option \<Rightarrow> ustr" where
  "search_action_detail query queries =
     (case Option.bind query (\<lambda>q. if q = [] then None else Some q) of
        Some q \<Rightarrow> q
      | None \<Rightarrow>
          (let items = (case queries of Some qs \<Rightarrow> qs | None \<Rightarrow> []);
               first = (case items of f # _ \<Rightarrow> f | [] \<Rightarrow> [])
           in if length items > 1 \<and> first \<noteq> [] then first @ lit '' ...'' else first))"

fun web_search_action_detail :: "web_search_action \<Rightarrow> ustr" where
  "web_search_action_detail (SearchAction query queries) = search_action_detail query queries"
| "web_search_action_detail (OpenPage url) = (case url of Some u \<Rightarrow> u | None \<Rightarrow> [])"
| "web_search_action_detail (FindInPage url pat) =
     (case (pat, url) of
        (Some p, Some u) \<Rightarrow> [39] @ p @ [39] @ lit '' in '' @ u
      | (Some p, None) \<Rightarrow> [39] @ p @ [39]
      | (None, Some u) \<Rightarrow> u
      | (None, None) \<Rightarrow> [])"
| "web_search_action_detail OtherAction = []"

definition web_search_detail :: "web_search_action option \<Rightarrow> ustr \<Rightarrow> ustr" where
  "web_search_detail action query =
     (let detail = (case action of Some a \<Rightarrow> web_search_action_detail a | None \<Rightarrow> [])
      in if detail = [] then query else detail)"

fun summary_text :: "reasoning_summary \<Rightarrow> ustr" where
  "summary_text (SummaryText s) = s"

fun reasoning_text :: "reasoning_content \<Rightarrow> ustr" where
  "reasoning_text (ReasoningText s) = s"
| "reasoning_text (ReasoningPlain s) = s"

fun parse_turn_item :: "ustr \<Rightarrow> response_item \<Rightarrow> turn_item option" where
  "parse_turn_item uuid (Message item_id role content end_turn ph) =
     (if role = lit ''user'' then map_option UserMessage (parse_user_message uuid content)
      else if role = lit ''assistant''
        then Some (AgentMessage (parse_agent_message uuid item_id content ph))
      else None)"
| "parse_turn_item uuid (Reasoning item_id summary content encrypted) =
     Some (ReasoningTurn
       \<lparr>ri_id = item_id, ri_summary_text = map summary_text summary,
        ri_raw_content = map reasoning_text (case content of Some c \<Rightarrow> c | None \<Rightarrow> [])\<rparr>)"
| "parse_turn_item uuid (WebSearchCall item_id status action) =
     (let (act, query) = (case action of
            Some a \<Rightarrow> (a, web_search_action_detail a) | None \<Rightarrow> (OtherAction, []))
      in Some (WebSearch
           \<lparr>ws_id = (case item_id of Some i \<Rightarrow> i | None \<Rightarrow> []), ws_query = query, ws_action = act\<rparr>))"
| "parse_turn_item uuid _ = None"

section \<open>What the user typed is read back\<close>

lemma nth_opt_append: "nth_opt (xs @ ys) (length xs + i) = nth_opt ys i"
  by (induction xs) auto

lemma nth_opt_last: "xs \<noteq> [] \<Longrightarrow> nth_opt (xs @ ys) (length xs - 1) = Some (last xs)"
  using nth_opt_append [of "butlast xs" "last xs # ys" 0] by (cases xs rule: rev_cases) auto

text \<open>Inputs without local images, skills and mentions, whose texts do not carry a mark of the
  program.\<close>

fun typed_input :: "user_input \<Rightarrow> bool" where
  "typed_input (UserText s _) \<longleftrightarrow> \<not> is_session_prefix s \<and> \<not> is_user_shell_command_text s"
| "typed_input (UserImage _) \<longleftrightarrow> True"
| "typed_input _ \<longleftrightarrow> False"

fun without_elements :: "user_input \<Rightarrow> user_input" where
  "without_elements (UserText s _) = UserText s []"
| "without_elements i = i"

lemma input_content_no_image:
  "list_all typed_input inputs \<Longrightarrow> \<not> is_input_image (nth_opt (input_content li k inputs) 0)"
  by (cases inputs; cases "hd inputs") auto

lemma parse_typed_content:
  assumes "list_all typed_input inputs" and "n = length before"
    and "before = [] \<or> \<not> is_input_image (Some (last before))"
    and "message = before @ input_content li k inputs"
  shows "parse_user_content message n (input_content li k inputs) acc = Some (acc @ map without_elements inputs)"
  using assms
proof (induction inputs arbitrary: n before k acc)
  case (Cons i inputs)
  have prev: "\<not> (n > 0 \<and> is_input_image (nth_opt message (n - 1)))"
    using Cons.prems nth_opt_last [of before] by auto
  have at: "nth_opt message (n + j) = nth_opt (input_content li k (i # inputs)) j" for j
    using Cons.prems nth_opt_append by metis
  show ?case
  proof (cases i)
    case (UserText s elems)
    have "\<not> is_input_image (nth_opt message (n + 1))"
      using Cons.prems(1) input_content_no_image [of inputs li k] at [of 1] UserText by simp
    moreover have "parse_user_content message (n + 1) (input_content li k inputs) (acc @ [UserText s []]) =
        Some ((acc @ [UserText s []]) @ map without_elements inputs)"
      using Cons.prems UserText by (intro Cons.IH [of _ "before @ [MsgInputText s]"]) auto
    ultimately show ?thesis
      using Cons.prems(1) prev UserText by auto
  next
    case (UserImage url)
    have tags: "is_image_open_tag_text (lit ''<image>'')" "is_image_close_tag_text (lit ''</image>'')"
      by (simp_all add: is_image_open_tag_text_def is_image_close_tag_text_def)
    have "parse_user_content message (n + 3) (input_content li (k + 1) inputs) (acc @ [UserImage url]) =
        Some ((acc @ [UserImage url]) @ map without_elements inputs)"
      using Cons.prems UserImage
      by (intro Cons.IH [of _ "before @ [MsgInputText (lit ''<image>''), MsgInputImage url, MsgInputText (lit ''</image>'')]"]) auto
    moreover have "n + 1 + 1 + 1 = n + 3" by simp
    ultimately show ?thesis
      using at [of 1] UserImage tags by (simp add: numeral_eq_Suc)
  qed (use Cons.prems in auto)
qed simp

text \<open>What the user typed is read back from the message sent to the model. For texts and images
  in any order, when no text carries a mark of the program and the message as a whole does not
  start like user or skill instructions, parsing the message that was built from the inputs gives
  those inputs: the image tags wrapped around each image are removed again, a text that looks like
  such a tag is kept, and only the element ranges of the interface are dropped.\<close>
theorem typed_message_read_back:
  assumes "list_all typed_input inputs"
    and "\<not> is_user_instructions (input_content li 0 inputs)"
    and "\<not> is_skill_instructions (input_content li 0 inputs)"
  shows "parse_turn_item uuid (input_message li inputs) =
    Some (UserMessage \<lparr>um_id = uuid, um_content = map without_elements inputs\<rparr>)"
  using assms parse_typed_content [OF assms(1), of 0 "[]" "input_content li 0 inputs" li 0 "[]"]
  by (simp add: input_message_def parse_user_message_def)

theorem typed_message_read_back_witness:
  "parse_turn_item (lit ''u'') (input_message (\<lambda>_ _. []) [UserText (lit ''<image>'') [], UserImage (lit ''data:x'')]) =
   Some (UserMessage \<lparr>um_id = lit ''u'', um_content = [UserText (lit ''<image>'') [], UserImage (lit ''data:x'')]\<rparr>)"
proof -
  have "list_all typed_input [UserText (lit ''<image>'') [], UserImage (lit ''data:x'')]"
    by (simp add: is_session_prefix_def is_user_shell_command_text_def str_ops)
  moreover have "\<not> is_user_instructions (input_content (\<lambda>_ _. []) 0 [UserText (lit ''<image>'') [], UserImage (lit ''data:x'')])"
    "\<not> is_skill_instructions (input_content (\<lambda>_ _. []) 0 [UserText (lit ''<image>'') [], UserImage (lit ''data:x'')])"
    by (simp_all add: is_user_instructions_def is_skill_instructions_def)
  ultimately show ?thesis
    using typed_message_read_back [of "[UserText (lit ''<image>'') [], UserImage (lit ''data:x'')]"] by simp
qed

end
