(* ===== verification/History.thy ===== *)
theory History
  imports ResponseItems
begin

text \<open>
  The conversation a session keeps: \<open>core/src/context_manager/history.rs\<close> and \<open>normalize.rs\<close>, and the
  token counts of \<open>protocol/src/protocol.rs\<close>. The JSON length of an item is an argument. A panic is
  \<open>None\<close>; \<open>error_or_panic\<close> panics in a build with debug assertions, which is the argument \<open>dbg\<close>.
\<close>

section \<open>Token counts\<close>

text \<open>\<open>i64\<close>: wrapping and saturating addition.\<close>

definition i64_max :: int where
  "i64_max = 2 ^ 63 - 1"

definition i64_min :: int where
  "i64_min = - (2 ^ 63)"

definition i64_wrap :: "int \<Rightarrow> int" where
  "i64_wrap x = (x + 2 ^ 63) mod 2 ^ 64 - 2 ^ 63"

definition i64_sat_add :: "int \<Rightarrow> int \<Rightarrow> int" where
  "i64_sat_add x y = max i64_min (min i64_max (x + y))"

definition i64_of_usize :: "nat \<Rightarrow> int" where
  "i64_of_usize n = min i64_max (int n)"

record token_usage =
  input_tokens :: int
  cached_input_tokens :: int
  output_tokens :: int
  reasoning_output_tokens :: int
  total_tokens :: int

definition no_tokens :: token_usage where
  "no_tokens = \<lparr>input_tokens = 0, cached_input_tokens = 0, output_tokens = 0,
     reasoning_output_tokens = 0, total_tokens = 0\<rparr>"

definition usage_add :: "token_usage \<Rightarrow> token_usage \<Rightarrow> token_usage" where
  "usage_add u v =
     \<lparr>input_tokens = i64_wrap (input_tokens u + input_tokens v),
      cached_input_tokens = i64_wrap (cached_input_tokens u + cached_input_tokens v),
      output_tokens = i64_wrap (output_tokens u + output_tokens v),
      reasoning_output_tokens = i64_wrap (reasoning_output_tokens u + reasoning_output_tokens v),
      total_tokens = i64_wrap (total_tokens u + total_tokens v)\<rparr>"

definition cached_input :: "token_usage \<Rightarrow> int" where
  "cached_input u = max (cached_input_tokens u) 0"

definition non_cached_input :: "token_usage \<Rightarrow> int" where
  "non_cached_input u = max (i64_wrap (input_tokens u - cached_input u)) 0"

definition blended_total :: "token_usage \<Rightarrow> int" where
  "blended_total u = max (i64_wrap (non_cached_input u + max (output_tokens u) 0)) 0"

record token_usage_info =
  total_usage :: token_usage
  last_usage :: token_usage
  model_window :: "int option"

definition append_last_usage :: "token_usage_info \<Rightarrow> token_usage \<Rightarrow> token_usage_info" where
  "append_last_usage info last_use =
     info\<lparr>total_usage := usage_add (total_usage info) last_use, last_usage := last_use\<rparr>"

definition new_or_append ::
  "token_usage_info option \<Rightarrow> token_usage option \<Rightarrow> int option \<Rightarrow> token_usage_info option" where
  "new_or_append info last_use window =
     (if info = None \<and> last_use = None then None
      else
        let info = (case info of
              Some i \<Rightarrow> i
            | None \<Rightarrow> \<lparr>total_usage = no_tokens, last_usage = no_tokens, model_window = window\<rparr>);
            info = (case last_use of Some u \<Rightarrow> append_last_usage info u | None \<Rightarrow> info)
        in Some (case window of Some w \<Rightarrow> info\<lparr>model_window := Some w\<rparr> | None \<Rightarrow> info))"

definition fill_to_context_window :: "token_usage_info \<Rightarrow> int \<Rightarrow> token_usage_info" where
  "fill_to_context_window info window =
     (let delta = max (i64_wrap (window - total_tokens (total_usage info))) 0
      in info\<lparr>model_window := Some window, total_usage := no_tokens\<lparr>total_tokens := window\<rparr>,
              last_usage := no_tokens\<lparr>total_tokens := delta\<rparr>\<rparr>)"

definition full_context_window :: "int \<Rightarrow> token_usage_info" where
  "full_context_window window =
     fill_to_context_window
       \<lparr>total_usage = no_tokens, last_usage = no_tokens, model_window = Some window\<rparr> window"

section \<open>Calls and outputs\<close>

datatype input_modality = TextModality | ImageModality

text \<open>\<open>Vec::insert\<close> and \<open>Vec::remove\<close> panic out of range.\<close>

definition vec_insert :: "'a list \<Rightarrow> nat \<Rightarrow> 'a \<Rightarrow> 'a list option" where
  "vec_insert xs i x = (if i \<le> length xs then Some (take i xs @ [x] @ drop i xs) else None)"

definition vec_remove :: "'a list \<Rightarrow> nat \<Rightarrow> 'a list option" where
  "vec_remove xs i = (if i < length xs then Some (take i xs @ drop (i + 1) xs) else None)"

definition has_function_output :: "response_item list \<Rightarrow> ustr \<Rightarrow> bool" where
  "has_function_output items call_id =
     list_ex (\<lambda>i. case i of FunctionCallOutput existing _ \<Rightarrow> existing = call_id | _ \<Rightarrow> False) items"

definition has_custom_output :: "response_item list \<Rightarrow> ustr \<Rightarrow> bool" where
  "has_custom_output items call_id =
     list_ex (\<lambda>i. case i of CustomToolCallOutput existing _ \<Rightarrow> existing = call_id | _ \<Rightarrow> False) items"

text \<open>The output to insert after an item, and whether \<open>error_or_panic\<close> is called for it.\<close>

fun missing_output :: "response_item list \<Rightarrow> response_item \<Rightarrow> (response_item \<times> bool) option" where
  "missing_output items (FunctionCall item_id name arguments call_id) =
     (if has_function_output items call_id then None
      else Some (FunctionCallOutput call_id (text_payload (lit ''aborted'')), False))"
| "missing_output items (CustomToolCall item_id status call_id name input) =
     (if has_custom_output items call_id then None
      else Some (CustomToolCallOutput call_id (lit ''aborted''), True))"
| "missing_output items (LocalShellCall item_id call_id status action) =
     (case call_id of
        Some c \<Rightarrow>
          if has_function_output items c then None
          else Some (FunctionCallOutput c (text_payload (lit ''aborted'')), True)
      | None \<Rightarrow> None)"
| "missing_output items _ = None"

fun collect_missing ::
  "bool \<Rightarrow> response_item list \<Rightarrow> nat \<Rightarrow> response_item list \<Rightarrow> (nat \<times> response_item) list option" where
  "collect_missing dbg items idx [] = Some []"
| "collect_missing dbg items idx (item # rest) =
     (case missing_output items item of
        Some (output_item, reported) \<Rightarrow>
          if reported \<and> dbg then None
          else map_option ((#) (idx, output_item)) (collect_missing dbg items (idx + 1) rest)
      | None \<Rightarrow> collect_missing dbg items (idx + 1) rest)"

fun insert_outputs :: "response_item list \<Rightarrow> (nat \<times> response_item) list \<Rightarrow> response_item list option" where
  "insert_outputs items [] = Some items"
| "insert_outputs items ((idx, output_item) # rest) =
     Option.bind (vec_insert items (idx + 1) output_item) (\<lambda>items. insert_outputs items rest)"

definition ensure_call_outputs_present :: "bool \<Rightarrow> response_item list \<Rightarrow> response_item list option" where
  "ensure_call_outputs_present dbg items =
     Option.bind (collect_missing dbg items 0 items) (\<lambda>missing. insert_outputs items (rev missing))"

definition function_call_ids :: "response_item list \<Rightarrow> ustr list" where
  "function_call_ids items =
     List.map_filter (\<lambda>i. case i of FunctionCall _ _ _ c \<Rightarrow> Some c | _ \<Rightarrow> None) items"

definition local_shell_call_ids :: "response_item list \<Rightarrow> ustr list" where
  "local_shell_call_ids items =
     List.map_filter (\<lambda>i. case i of LocalShellCall _ c _ _ \<Rightarrow> c | _ \<Rightarrow> None) items"

definition custom_tool_call_ids :: "response_item list \<Rightarrow> ustr list" where
  "custom_tool_call_ids items =
     List.map_filter (\<lambda>i. case i of CustomToolCall _ _ c _ _ \<Rightarrow> Some c | _ \<Rightarrow> None) items"

definition is_orphan :: "response_item list \<Rightarrow> response_item \<Rightarrow> bool" where
  "is_orphan items item =
     (case item of
        FunctionCallOutput c _ \<Rightarrow> \<not> (c \<in> set (function_call_ids items) \<or> c \<in> set (local_shell_call_ids items))
      | CustomToolCallOutput c _ \<Rightarrow> c \<notin> set (custom_tool_call_ids items)
      | _ \<Rightarrow> False)"

definition remove_orphan_outputs :: "bool \<Rightarrow> response_item list \<Rightarrow> response_item list option" where
  "remove_orphan_outputs dbg items =
     (if dbg \<and> list_ex (is_orphan items) items then None
      else Some (filter (\<lambda>item. \<not> is_orphan items item) items))"

definition remove_first_matching :: "(response_item \<Rightarrow> bool) \<Rightarrow> response_item list \<Rightarrow> response_item list option" where
  "remove_first_matching p items =
     (case position p items of Some pos \<Rightarrow> vec_remove items pos | None \<Rightarrow> Some items)"

fun is_function_output_of :: "ustr \<Rightarrow> response_item \<Rightarrow> bool" where
  "is_function_output_of c (FunctionCallOutput existing _) \<longleftrightarrow> existing = c"
| "is_function_output_of c _ \<longleftrightarrow> False"

fun is_function_call_of :: "ustr \<Rightarrow> response_item \<Rightarrow> bool" where
  "is_function_call_of c (FunctionCall _ _ _ existing) \<longleftrightarrow> existing = c"
| "is_function_call_of c _ \<longleftrightarrow> False"

fun is_local_shell_call_of :: "ustr \<Rightarrow> response_item \<Rightarrow> bool" where
  "is_local_shell_call_of c (LocalShellCall _ existing _ _) \<longleftrightarrow> existing = Some c"
| "is_local_shell_call_of c _ \<longleftrightarrow> False"

fun is_custom_call_of :: "ustr \<Rightarrow> response_item \<Rightarrow> bool" where
  "is_custom_call_of c (CustomToolCall _ _ existing _ _) \<longleftrightarrow> existing = c"
| "is_custom_call_of c _ \<longleftrightarrow> False"

fun is_custom_output_of :: "ustr \<Rightarrow> response_item \<Rightarrow> bool" where
  "is_custom_output_of c (CustomToolCallOutput existing _) \<longleftrightarrow> existing = c"
| "is_custom_output_of c _ \<longleftrightarrow> False"

fun remove_corresponding_for :: "response_item list \<Rightarrow> response_item \<Rightarrow> response_item list option" where
  "remove_corresponding_for items (FunctionCall _ _ _ c) =
     remove_first_matching (is_function_output_of c) items"
| "remove_corresponding_for items (FunctionCallOutput c _) =
     (case position (is_function_call_of c) items of
        Some pos \<Rightarrow> vec_remove items pos
      | None \<Rightarrow>
        (case position (is_local_shell_call_of c) items of
           Some pos \<Rightarrow> vec_remove items pos
         | None \<Rightarrow> Some items))"
| "remove_corresponding_for items (CustomToolCall _ _ c _ _) =
     remove_first_matching (is_custom_output_of c) items"
| "remove_corresponding_for items (CustomToolCallOutput c _) =
     remove_first_matching (is_custom_call_of c) items"
| "remove_corresponding_for items (LocalShellCall _ (Some c) _ _) =
     remove_first_matching (is_function_output_of c) items"
| "remove_corresponding_for items _ = Some items"

section \<open>Images\<close>

definition image_omitted :: ustr where
  "image_omitted = lit ''image content omitted because you do not support image input''"

fun strip_message_image :: "message_content \<Rightarrow> message_content" where
  "strip_message_image (MsgInputImage url) = MsgInputText image_omitted"
| "strip_message_image c = c"

fun replace_output_image :: "ustr \<Rightarrow> content_item \<Rightarrow> content_item" where
  "replace_output_image replacement (InputImage url) = InputText replacement"
| "replace_output_image replacement c = c"

fun strip_item_images :: "response_item \<Rightarrow> response_item" where
  "strip_item_images (Message item_id role content end_turn ph) =
     Message item_id role (map strip_message_image content) end_turn ph"
| "strip_item_images (FunctionCallOutput c payload) =
     (case fco_body payload of
        BodyContentItems items \<Rightarrow>
          FunctionCallOutput c (payload\<lparr>fco_body := BodyContentItems (map (replace_output_image image_omitted) items)\<rparr>)
      | BodyText _ \<Rightarrow> FunctionCallOutput c payload)"
| "strip_item_images item = item"

definition strip_images_when_unsupported ::
  "input_modality list \<Rightarrow> response_item list \<Rightarrow> response_item list" where
  "strip_images_when_unsupported modalities items =
     (if ImageModality \<in> set modalities then items else map strip_item_images items)"

section \<open>The context manager\<close>

record context_manager =
  ctx_items :: "response_item list"
  token_info :: "token_usage_info option"

definition context_new :: context_manager where
  "context_new = \<lparr>ctx_items = [], token_info = new_or_append None None None\<rparr>"

definition set_token_info :: "context_manager \<Rightarrow> token_usage_info option \<Rightarrow> context_manager" where
  "set_token_info cm info = cm\<lparr>token_info := info\<rparr>"

definition set_token_usage_full :: "context_manager \<Rightarrow> int \<Rightarrow> context_manager" where
  "set_token_usage_full cm window =
     (case token_info cm of
        Some info \<Rightarrow> cm\<lparr>token_info := Some (fill_to_context_window info window)\<rparr>
      | None \<Rightarrow> cm\<lparr>token_info := Some (full_context_window window)\<rparr>)"

definition update_token_info :: "context_manager \<Rightarrow> token_usage \<Rightarrow> int option \<Rightarrow> context_manager" where
  "update_token_info cm usage window =
     cm\<lparr>token_info := new_or_append (token_info cm) (Some usage) window\<rparr>"

fun is_api_message :: "response_item \<Rightarrow> bool" where
  "is_api_message (Message _ role _ _ _) \<longleftrightarrow> role \<noteq> lit ''system''"
| "is_api_message (GhostSnapshot _) \<longleftrightarrow> False"
| "is_api_message OtherItem \<longleftrightarrow> False"
| "is_api_message _ \<longleftrightarrow> True"

fun is_ghost :: "response_item \<Rightarrow> bool" where
  "is_ghost (GhostSnapshot _) \<longleftrightarrow> True"
| "is_ghost _ \<longleftrightarrow> False"

fun process_item :: "response_item \<Rightarrow> truncation_policy \<Rightarrow> response_item option" where
  "process_item (FunctionCallOutput c payload) pol =
     (let pol = policy_mul pol f64_1_2
      in map_option (\<lambda>body. FunctionCallOutput c \<lparr>fco_body = body, fco_success = fco_success payload\<rparr>)
           (case fco_body payload of
              BodyText content \<Rightarrow> map_option BodyText (truncate_text content pol)
            | BodyContentItems items \<Rightarrow>
                map_option BodyContentItems (truncate_function_output_items_with_policy items pol)))"
| "process_item (CustomToolCallOutput c content) pol =
     map_option (CustomToolCallOutput c) (truncate_text content (policy_mul pol f64_1_2))"
| "process_item item pol = Some item"

fun record_items ::
  "context_manager \<Rightarrow> response_item list \<Rightarrow> truncation_policy \<Rightarrow> context_manager option" where
  "record_items cm [] pol = Some cm"
| "record_items cm (item # items) pol =
     (if \<not> is_api_message item \<and> \<not> is_ghost item then record_items cm items pol
      else Option.bind (process_item item pol) (\<lambda>processed.
        record_items (cm\<lparr>ctx_items := ctx_items cm @ [processed]\<rparr>) items pol))"

definition normalize_history ::
  "bool \<Rightarrow> input_modality list \<Rightarrow> context_manager \<Rightarrow> context_manager option" where
  "normalize_history dbg modalities cm =
     Option.bind (ensure_call_outputs_present dbg (ctx_items cm)) (\<lambda>items.
     Option.bind (remove_orphan_outputs dbg items) (\<lambda>items.
     Some (cm\<lparr>ctx_items := strip_images_when_unsupported modalities items\<rparr>)))"

definition for_prompt ::
  "bool \<Rightarrow> input_modality list \<Rightarrow> context_manager \<Rightarrow> response_item list option" where
  "for_prompt dbg modalities cm =
     map_option (\<lambda>cm. filter (\<lambda>item. \<not> is_ghost item) (ctx_items cm)) (normalize_history dbg modalities cm)"

definition remove_first_item :: "context_manager \<Rightarrow> context_manager option" where
  "remove_first_item cm =
     (case ctx_items cm of
        [] \<Rightarrow> Some cm
      | removed # rest \<Rightarrow>
          map_option (\<lambda>items. cm\<lparr>ctx_items := items\<rparr>) (remove_corresponding_for rest removed))"

definition remove_last_item :: "context_manager \<Rightarrow> (context_manager \<times> bool) option" where
  "remove_last_item cm =
     (if ctx_items cm = [] then Some (cm, False)
      else map_option (\<lambda>items. (cm\<lparr>ctx_items := items\<rparr>, True))
             (remove_corresponding_for (butlast (ctx_items cm)) (last (ctx_items cm))))"

definition replace_items :: "context_manager \<Rightarrow> response_item list \<Rightarrow> context_manager" where
  "replace_items cm items = cm\<lparr>ctx_items := items\<rparr>"

text \<open>\<open>Iterator::rposition\<close>.\<close>

definition rposition :: "('a \<Rightarrow> bool) \<Rightarrow> 'a list \<Rightarrow> nat option" where
  "rposition p xs = map_option (\<lambda>i. length xs - 1 - i) (position p (rev xs))"

fun is_user_role :: "response_item \<Rightarrow> bool" where
  "is_user_role (Message _ role _ _ _) \<longleftrightarrow> role = lit ''user''"
| "is_user_role _ \<longleftrightarrow> False"

fun is_function_output :: "response_item \<Rightarrow> bool" where
  "is_function_output (FunctionCallOutput _ _) \<longleftrightarrow> True"
| "is_function_output _ \<longleftrightarrow> False"

fun is_output_image :: "content_item \<Rightarrow> bool" where
  "is_output_image (InputImage _) \<longleftrightarrow> True"
| "is_output_image (InputText _) \<longleftrightarrow> False"

definition replace_last_turn_images :: "context_manager \<Rightarrow> ustr \<Rightarrow> context_manager \<times> bool" where
  "replace_last_turn_images cm replacement =
     (case rposition (\<lambda>item. is_function_output item \<or> is_user_role item) (ctx_items cm) of
        None \<Rightarrow> (cm, False)
      | Some index \<Rightarrow>
          (case ctx_items cm ! index of
             FunctionCallOutput c payload \<Rightarrow>
               (case fco_body payload of
                  BodyText _ \<Rightarrow> (cm, False)
                | BodyContentItems items \<Rightarrow>
                    (cm\<lparr>ctx_items := (ctx_items cm)[index := FunctionCallOutput c
                        (payload\<lparr>fco_body := BodyContentItems (map (replace_output_image replacement) items)\<rparr>)]\<rparr>,
                     list_ex is_output_image items))
           | _ \<Rightarrow> (cm, False)))"

section \<open>User turns\<close>

fun boundary_content :: "message_content list \<Rightarrow> bool" where
  "boundary_content [] \<longleftrightarrow> True"
| "boundary_content (MsgInputText s # rest) \<longleftrightarrow>
     (if is_session_prefix s \<or> is_user_shell_command_text s then False else boundary_content rest)"
| "boundary_content (MsgOutputText s # rest) \<longleftrightarrow>
     (if is_session_prefix s then False else boundary_content rest)"
| "boundary_content (MsgInputImage url # rest) \<longleftrightarrow> boundary_content rest"

fun is_user_turn_boundary :: "response_item \<Rightarrow> bool" where
  "is_user_turn_boundary (Message _ role content _ _) \<longleftrightarrow>
     role = lit ''user'' \<and> \<not> (is_user_instructions content \<or> is_skill_instructions content) \<and>
     boundary_content content"
| "is_user_turn_boundary _ \<longleftrightarrow> False"

fun user_positions_from :: "nat \<Rightarrow> response_item list \<Rightarrow> nat list" where
  "user_positions_from idx [] = []"
| "user_positions_from idx (item # items) =
     (if is_user_turn_boundary item then idx # user_positions_from (idx + 1) items
      else user_positions_from (idx + 1) items)"

definition user_message_positions :: "response_item list \<Rightarrow> nat list" where
  "user_message_positions items = user_positions_from 0 items"

definition drop_last_n_user_turns :: "context_manager \<Rightarrow> 32 word \<Rightarrow> context_manager" where
  "drop_last_n_user_turns cm num_turns =
     (if num_turns = 0 then cm
      else
        let snapshot = ctx_items cm; positions = user_message_positions snapshot
        in case positions of
             [] \<Rightarrow> replace_items cm snapshot
           | first_user_idx # _ \<Rightarrow>
               let n_from_end = unat num_turns;
                   cut_idx = (if n_from_end \<ge> length positions then first_user_idx
                              else positions ! (length positions - n_from_end))
               in replace_items cm (take cut_idx snapshot))"

section \<open>Estimates\<close>

definition estimate_reasoning_length :: "nat \<Rightarrow> nat" where
  "estimate_reasoning_length encoded_len = sat_mul encoded_len 3 div 4 - 650"

definition serialized_bytes :: "(response_item \<Rightarrow> nat option) \<Rightarrow> response_item \<Rightarrow> int" where
  "serialized_bytes json_len item = (case json_len item of Some n \<Rightarrow> i64_of_usize n | None \<Rightarrow> 0)"

fun model_visible_bytes :: "(response_item \<Rightarrow> nat option) \<Rightarrow> response_item \<Rightarrow> int" where
  "model_visible_bytes json_len (GhostSnapshot g) = 0"
| "model_visible_bytes json_len (Reasoning item_id summary content (Some encrypted)) =
     i64_of_usize (estimate_reasoning_length (byte_len encrypted))"
| "model_visible_bytes json_len (CompactionItem encrypted) =
     i64_of_usize (estimate_reasoning_length (byte_len encrypted))"
| "model_visible_bytes json_len item = serialized_bytes json_len item"

definition estimate_item_tokens :: "(response_item \<Rightarrow> nat option) \<Rightarrow> response_item \<Rightarrow> int" where
  "estimate_item_tokens json_len item = approx_tokens_from_byte_count_i64 (model_visible_bytes json_len item)"

definition sum_sat :: "('a \<Rightarrow> int) \<Rightarrow> 'a list \<Rightarrow> int" where
  "sum_sat f items = foldl (\<lambda>acc item. i64_sat_add acc (f item)) 0 items"

definition estimate_token_count ::
  "(response_item \<Rightarrow> nat option) \<Rightarrow> context_manager \<Rightarrow> ustr \<Rightarrow> int" where
  "estimate_token_count json_len cm base_instructions =
     i64_sat_add (i64_of_usize (approx_token_count base_instructions))
       (sum_sat (estimate_item_tokens json_len) (ctx_items cm))"

fun is_encrypted_reasoning :: "response_item \<Rightarrow> bool" where
  "is_encrypted_reasoning (Reasoning _ _ _ (Some _)) \<longleftrightarrow> True"
| "is_encrypted_reasoning _ \<longleftrightarrow> False"

definition non_last_reasoning_tokens :: "(response_item \<Rightarrow> nat option) \<Rightarrow> context_manager \<Rightarrow> int" where
  "non_last_reasoning_tokens json_len cm =
     (case rposition is_user_role (ctx_items cm) of
        None \<Rightarrow> 0
      | Some last_user_index \<Rightarrow>
          sum_sat (estimate_item_tokens json_len)
            (filter is_encrypted_reasoning (take last_user_index (ctx_items cm))))"

fun is_model_generated_item :: "response_item \<Rightarrow> bool" where
  "is_model_generated_item (Message _ role _ _ _) \<longleftrightarrow> role = lit ''assistant''"
| "is_model_generated_item (FunctionCallOutput _ _) \<longleftrightarrow> False"
| "is_model_generated_item (CustomToolCallOutput _ _) \<longleftrightarrow> False"
| "is_model_generated_item (GhostSnapshot _) \<longleftrightarrow> False"
| "is_model_generated_item OtherItem \<longleftrightarrow> False"
| "is_model_generated_item _ \<longleftrightarrow> True"

fun is_codex_generated_item :: "response_item \<Rightarrow> bool" where
  "is_codex_generated_item (FunctionCallOutput _ _) \<longleftrightarrow> True"
| "is_codex_generated_item (CustomToolCallOutput _ _) \<longleftrightarrow> True"
| "is_codex_generated_item (Message _ role _ _ _) \<longleftrightarrow> role = lit ''developer''"
| "is_codex_generated_item _ \<longleftrightarrow> False"

definition items_after_last_model_generated :: "context_manager \<Rightarrow> response_item list" where
  "items_after_last_model_generated cm =
     (let start = (case rposition is_model_generated_item (ctx_items cm) of
            Some index \<Rightarrow> sat_add index 1 | None \<Rightarrow> length (ctx_items cm))
      in drop start (ctx_items cm))"

definition get_total_token_usage :: "(response_item \<Rightarrow> nat option) \<Rightarrow> context_manager \<Rightarrow> bool \<Rightarrow> int" where
  "get_total_token_usage json_len cm server_reasoning_included =
     (let last_tokens = (case token_info cm of Some info \<Rightarrow> total_tokens (last_usage info) | None \<Rightarrow> 0);
          after_tokens = sum_sat (estimate_item_tokens json_len) (items_after_last_model_generated cm)
      in if server_reasoning_included then i64_sat_add last_tokens after_tokens
         else i64_sat_add (i64_sat_add last_tokens (non_last_reasoning_tokens json_len cm)) after_tokens)"

record usage_breakdown =
  last_response_tokens :: int
  all_items_bytes :: int
  added_items_tokens :: int
  added_items_bytes :: int

definition get_total_token_usage_breakdown ::
  "(response_item \<Rightarrow> nat option) \<Rightarrow> context_manager \<Rightarrow> usage_breakdown" where
  "get_total_token_usage_breakdown json_len cm =
     (let last_use = (case token_info cm of Some info \<Rightarrow> last_usage info | None \<Rightarrow> no_tokens);
          added = items_after_last_model_generated cm
      in \<lparr>last_response_tokens = total_tokens last_use,
          all_items_bytes = sum_sat (model_visible_bytes json_len) (ctx_items cm),
          added_items_tokens = sum_sat (estimate_item_tokens json_len) added,
          added_items_bytes = sum_sat (model_visible_bytes json_len) added\<rparr>)"

section \<open>Pairs of calls and outputs\<close>

text \<open>A call and its output carry the same key.\<close>

datatype call_kind = FunctionKind | CustomKind

fun call_key :: "response_item \<Rightarrow> (call_kind \<times> ustr) option" where
  "call_key (FunctionCall _ _ _ c) = Some (FunctionKind, c)"
| "call_key (LocalShellCall _ (Some c) _ _) = Some (FunctionKind, c)"
| "call_key (CustomToolCall _ _ c _ _) = Some (CustomKind, c)"
| "call_key _ = None"

fun output_key :: "response_item \<Rightarrow> (call_kind \<times> ustr) option" where
  "output_key (FunctionCallOutput c _) = Some (FunctionKind, c)"
| "output_key (CustomToolCallOutput c _) = Some (CustomKind, c)"
| "output_key _ = None"

abbreviation call_keys :: "response_item list \<Rightarrow> (call_kind \<times> ustr) list" where
  "call_keys items \<equiv> List.map_filter call_key items"

abbreviation output_keys :: "response_item list \<Rightarrow> (call_kind \<times> ustr) list" where
  "output_keys items \<equiv> List.map_filter output_key items"

fun aborted_output :: "call_kind \<times> ustr \<Rightarrow> response_item" where
  "aborted_output (FunctionKind, c) = FunctionCallOutput c (text_payload (lit ''aborted''))"
| "aborted_output (CustomKind, c) = CustomToolCallOutput c (lit ''aborted'')"

text \<open>Only a missing output of a plain function call is not reported as an error.\<close>

fun is_function_call :: "response_item \<Rightarrow> bool" where
  "is_function_call (FunctionCall _ _ _ _) \<longleftrightarrow> True"
| "is_function_call _ \<longleftrightarrow> False"

lemma map_filter_Nil [simp]: "List.map_filter f [] = []"
  by (simp add: List.map_filter_def)

lemma map_filter_Cons [simp]:
  "List.map_filter f (x # xs) = (case f x of Some y \<Rightarrow> y # List.map_filter f xs | None \<Rightarrow> List.map_filter f xs)"
  by (simp add: List.map_filter_def split: option.splits)

lemma map_filter_append [simp]: "List.map_filter f (xs @ ys) = List.map_filter f xs @ List.map_filter f ys"
  by (simp add: List.map_filter_def)

lemma has_output_keys:
  "has_function_output items c \<longleftrightarrow> (FunctionKind, c) \<in> set (output_keys items)"
  "has_custom_output items c \<longleftrightarrow> (CustomKind, c) \<in> set (output_keys items)"
proof (induction items)
  case (Cons i items)
  { case 1 then show ?case using Cons(1) by (cases i) (auto simp: has_function_output_def) }
  { case 2 then show ?case using Cons(2) by (cases i) (auto simp: has_custom_output_def) }
qed (simp_all add: has_function_output_def has_custom_output_def)

lemma call_ids_keys:
  "c \<in> set (function_call_ids items) \<or> c \<in> set (local_shell_call_ids items) \<longleftrightarrow>
     (FunctionKind, c) \<in> set (call_keys items)"
  "c \<in> set (custom_tool_call_ids items) \<longleftrightarrow> (CustomKind, c) \<in> set (call_keys items)"
proof (induction items)
  case (Cons i items)
  { case 1 then show ?case
      using Cons(1) by (cases i rule: call_key.cases) (auto simp: function_call_ids_def local_shell_call_ids_def) }
  { case 2 then show ?case
      using Cons(2) by (cases i rule: call_key.cases) (auto simp: custom_tool_call_ids_def) }
qed (simp_all add: function_call_ids_def local_shell_call_ids_def custom_tool_call_ids_def)

lemma missing_output_key:
  "missing_output items item =
     (case call_key item of
        Some k \<Rightarrow> if k \<in> set (output_keys items) then None
                  else Some (aborted_output k, \<not> is_function_call item)
      | None \<Rightarrow> None)"
  by (cases "(items, item)" rule: missing_output.cases) (auto simp: has_output_keys split: option.splits)

lemma is_orphan_key:
  "is_orphan items item =
     (case output_key item of Some k \<Rightarrow> k \<notin> set (call_keys items) | None \<Rightarrow> False)"
  by (cases item) (auto simp: is_orphan_def call_ids_keys)

lemma aborted_output_keys [simp]:
  "output_key (aborted_output k) = Some k" "call_key (aborted_output k) = None" "\<not> is_ghost (aborted_output k)"
  by (cases k rule: aborted_output.cases; simp)+

lemma call_not_output: "call_key item = Some k \<Longrightarrow> output_key item = None"
  by (cases item rule: call_key.cases) auto

section \<open>Inserting the missing outputs\<close>

definition with_output :: "response_item list \<Rightarrow> response_item \<Rightarrow> response_item list" where
  "with_output items item =
     item # (case call_key item of
               Some k \<Rightarrow> if k \<in> set (output_keys items) then [] else [aborted_output k]
             | None \<Rightarrow> [])"

definition reports_missing :: "response_item list \<Rightarrow> response_item \<Rightarrow> bool" where
  "reports_missing items item \<longleftrightarrow>
     (case call_key item of
        Some k \<Rightarrow> k \<notin> set (output_keys items) \<and> \<not> is_function_call item | None \<Rightarrow> False)"

lemma insert_outputs_append:
  "insert_outputs items (a @ b) = Option.bind (insert_outputs items a) (\<lambda>items. insert_outputs items b)"
  by (induction items a rule: insert_outputs.induct) (auto split: bind_split)

lemma insert_missing:
  "collect_missing dbg items (length before) rest = Some missing \<Longrightarrow>
   insert_outputs (before @ rest) (rev missing) = Some (before @ concat (map (with_output items) rest))"
proof (induction rest arbitrary: before missing)
  case (Cons item rest)
  have IH: "collect_missing dbg items (Suc (length before)) rest = Some m \<Longrightarrow>
      insert_outputs (before @ item # rest) (rev m) = Some (before @ item # concat (map (with_output items) rest))" for m
    using Cons.IH [of "before @ [item]" m] by simp
  show ?case
    using Cons.prems IH
    by (auto simp: missing_output_key with_output_def [of items item] insert_outputs_append vec_insert_def
        split: option.splits if_splits)
qed simp

lemma collect_missing_ok_iff:
  "collect_missing dbg items idx rest = None \<longleftrightarrow> dbg \<and> list_ex (reports_missing items) rest"
  by (induction rest arbitrary: idx)
    (auto simp: missing_output_key reports_missing_def split: option.splits)

lemma ensure_call_outputs_spec:
  "ensure_call_outputs_present dbg items =
     (if dbg \<and> list_ex (reports_missing items) items then None
      else Some (concat (map (with_output items) items)))"
proof (cases "collect_missing dbg items 0 items")
  case None
  then have "dbg \<and> list_ex (reports_missing items) items"
    by (simp only: collect_missing_ok_iff)
  with None show ?thesis
    by (simp add: ensure_call_outputs_present_def)
next
  case (Some missing)
  then have "\<not> (dbg \<and> list_ex (reports_missing items) items)"
    by (metis collect_missing_ok_iff option.distinct(1))
  with Some insert_missing [of dbg items "[]" items missing] show ?thesis
    by (simp add: ensure_call_outputs_present_def)
qed

lemma call_keys_with_output [simp]: "call_keys (concat (map (with_output items) xs)) = call_keys xs"
  by (induction xs) (auto simp: with_output_def split: option.splits)

lemma is_orphan_with_output:
  "is_orphan (concat (map (with_output items) items)) item = is_orphan items item"
  by (cases "output_key item") (simp_all add: is_orphan_key)

section \<open>The prompt\<close>

text \<open>What becomes of each item: an orphaned output and a snapshot are dropped, a call without an
  output gets one, and images are replaced when the model does not read them.\<close>

definition prompt_entry :: "input_modality list \<Rightarrow> response_item list \<Rightarrow> response_item \<Rightarrow> response_item list" where
  "prompt_entry modalities items item =
     (if is_ghost item \<or> is_orphan items item then []
      else strip_images_when_unsupported modalities (with_output items item))"

fun image_free :: "response_item \<Rightarrow> bool" where
  "image_free (Message _ _ content _ _) \<longleftrightarrow> list_all (\<lambda>c. \<not> is_input_image (Some c)) content"
| "image_free (FunctionCallOutput _ payload) \<longleftrightarrow>
     (case fco_body payload of BodyContentItems items \<Rightarrow> list_all (\<lambda>c. \<not> is_output_image c) items | BodyText _ \<Rightarrow> True)"
| "image_free _ \<longleftrightarrow> True"

lemma strip_item_keys [simp]:
  "call_key (strip_item_images item) = call_key item" "output_key (strip_item_images item) = output_key item"
  "is_ghost (strip_item_images item) = is_ghost item"
  by (cases item rule: call_key.cases; simp split: fco_body.splits)+

lemma strip_item_image_free: "image_free (strip_item_images item)"
proof (cases item)
  case (Message item_id role content end_turn ph)
  have "\<not> is_input_image (Some (strip_message_image c))" for c
    by (cases c) auto
  with Message show ?thesis by (simp add: list_all_iff)
next
  case (FunctionCallOutput c payload)
  have "\<not> is_output_image (replace_output_image image_omitted c)" for c
    by (cases c) auto
  with FunctionCallOutput show ?thesis
    by (auto simp: list_all_iff split: fco_body.splits)
qed auto

lemma strip_images_map_filter [simp]:
  "call_keys (strip_images_when_unsupported modalities items) = call_keys items"
  "output_keys (strip_images_when_unsupported modalities items) = output_keys items"
  by (induction items) (auto simp: strip_images_when_unsupported_def split: option.splits)

lemma strip_images_concat:
  "strip_images_when_unsupported modalities (concat xss) = concat (map (strip_images_when_unsupported modalities) xss)"
  by (simp add: strip_images_when_unsupported_def [abs_def] map_concat)

lemma strip_images_filter:
  "filter (\<lambda>i. \<not> is_ghost i) (strip_images_when_unsupported modalities items) =
   strip_images_when_unsupported modalities (filter (\<lambda>i. \<not> is_ghost i) items)"
  by (simp add: strip_images_when_unsupported_def filter_map comp_def)

lemma filter_orphans_with_output:
  assumes "item \<in> set items"
  shows "filter (\<lambda>i. \<not> is_orphan items i) (with_output items item) =
    (if is_orphan items item then [] else with_output items item)"
proof (cases "call_key item")
  case (Some k)
  then have "\<not> is_orphan items item" "\<not> is_orphan items (aborted_output k)"
    using assms call_not_output [OF Some] by (auto simp: is_orphan_key set_map_filter)
  with Some show ?thesis by (simp add: with_output_def)
qed (simp add: with_output_def)

lemma orphans_with_output:
  assumes "item \<in> set items"
  shows "list_ex (is_orphan items) (with_output items item) \<longleftrightarrow> is_orphan items item"
  using filter_orphans_with_output [OF assms]
  by (metis (no_types, lifting) filter_False list.set_intros(1) list_ex_iff filter_id_conv with_output_def)

lemma filter_ghosts_with_output:
  "filter (\<lambda>i. \<not> is_ghost i) (with_output items item) = (if is_ghost item then [] else with_output items item)"
  by (cases item) (auto simp: with_output_def split: option.splits)

lemma normalize_history_spec:
  "normalize_history dbg modalities cm =
     (let items = ctx_items cm
      in if dbg \<and> list_ex (\<lambda>i. reports_missing items i \<or> is_orphan items i) items then None
         else Some (cm\<lparr>ctx_items := strip_images_when_unsupported modalities
           (concat (map (\<lambda>i. if is_orphan items i then [] else with_output items i) items))\<rparr>))"
proof -
  let ?items = "ctx_items cm"
  have "filter (\<lambda>i. \<not> is_orphan ?items i) (concat (map (with_output ?items) ?items)) =
      concat (map (\<lambda>i. if is_orphan ?items i then [] else with_output ?items i) ?items)"
    by (simp add: filter_concat comp_def filter_orphans_with_output cong: map_cong)
  moreover have "list_ex (is_orphan ?items) (concat (map (with_output ?items) ?items)) \<longleftrightarrow>
      list_ex (is_orphan ?items) ?items"
    using orphans_with_output [of _ ?items] by (auto simp: list_ex_iff)
  ultimately show ?thesis
    by (auto simp: normalize_history_def ensure_call_outputs_spec remove_orphan_outputs_def
        is_orphan_with_output list_ex_iff Let_def)
qed

lemma prompt_entries:
  "filter (\<lambda>i. \<not> is_ghost i)
     (strip_images_when_unsupported modalities
       (concat (map (\<lambda>i. if is_orphan items i then [] else with_output items i) xs))) =
   concat (map (prompt_entry modalities items) xs)"
  unfolding strip_images_filter filter_concat strip_images_concat
  by (rule arg_cong [where f = concat])
    (auto simp: prompt_entry_def filter_ghosts_with_output strip_images_when_unsupported_def filter_map comp_def)

text \<open>C21: the prompt is the history with its calls and outputs paired, and nothing else. Each item
  of the history becomes, in order, nothing (a snapshot or an output without a call), itself, or
  itself followed by an aborted output (a call without an output), with images replaced when the
  model does not read them; only a build with debug assertions panics, exactly when an output has
  no call or a call other than a plain function call has no output.\<close>
theorem prompt_pairs_history:
  "for_prompt dbg modalities cm =
     (if dbg \<and> list_ex (\<lambda>i. reports_missing (ctx_items cm) i \<or> is_orphan (ctx_items cm) i) (ctx_items cm)
      then None
      else Some (concat (map (prompt_entry modalities (ctx_items cm)) (ctx_items cm))))"
  by (simp add: for_prompt_def normalize_history_spec prompt_entries Let_def)

lemma map_filter_concat: "List.map_filter f (concat xss) = concat (map (List.map_filter f) xss)"
  by (induction xss) auto

lemma prompt_entry_call_keys: "call_keys (prompt_entry modalities items item) = (if is_orphan items item then [] else call_keys [item])"
  by (cases item rule: call_key.cases) (auto simp: prompt_entry_def with_output_def split: option.splits)

lemma orphan_call_keys: "is_orphan items item \<Longrightarrow> call_key item = None"
  by (cases "call_key item") (auto simp: is_orphan_key dest: call_not_output split: option.splits)

lemma prompt_call_keys: "call_keys (concat (map (prompt_entry modalities items) xs)) = call_keys xs"
  by (induction xs) (auto simp: prompt_entry_call_keys dest: orphan_call_keys split: option.splits)

lemma prompt_entry_output_keys:
  "item \<in> set items \<Longrightarrow> set (output_keys (prompt_entry modalities items item)) =
     {k. output_key item = Some k \<and> k \<in> set (call_keys items)} \<union>
     {k. call_key item = Some k \<and> k \<notin> set (output_keys items)}"
  by (cases item rule: call_key.cases)
    (auto simp: prompt_entry_def with_output_def is_orphan_key split: option.splits)

lemma prompt_output_keys: "set (output_keys (concat (map (prompt_entry modalities items) items))) = set (call_keys items)"
proof -
  have "set (output_keys (concat (map (prompt_entry modalities items) items))) =
      (\<Union>item \<in> set items. set (output_keys (prompt_entry modalities items item)))"
    by (simp add: map_filter_concat)
  also have "\<dots> = (\<Union>item \<in> set items. {k. output_key item = Some k \<and> k \<in> set (call_keys items)} \<union>
      {k. call_key item = Some k \<and> k \<notin> set (output_keys items)})"
    by (simp add: prompt_entry_output_keys cong: SUP_cong_simp)
  also have "\<dots> = set (call_keys items)"
    by (auto simp: set_map_filter)
  finally show ?thesis .
qed

text \<open>Whatever happened in the session, a release build always produces a prompt, in which every
  call has an output and every output a call, no snapshot occurs and, for a model that does not
  read images, no image.\<close>
theorem prompt_always_well_formed:
  "\<exists>out. for_prompt False modalities cm = Some out \<and>
     set (call_keys out) = set (output_keys out) \<and> list_all (\<lambda>i. \<not> is_ghost i) out \<and>
     (ImageModality \<in> set modalities \<or> list_all image_free out)"
proof -
  let ?norm = "concat (map (\<lambda>i. if is_orphan (ctx_items cm) i then [] else with_output (ctx_items cm) i) (ctx_items cm))"
  let ?out = "filter (\<lambda>i. \<not> is_ghost i) (strip_images_when_unsupported modalities ?norm)"
  have "for_prompt False modalities cm = Some ?out"
    by (simp add: for_prompt_def normalize_history_spec Let_def)
  moreover have "list_all (\<lambda>i. \<not> is_ghost i) ?out"
    by (simp add: list_all_iff)
  moreover have "ImageModality \<in> set modalities \<or> list_all image_free ?out"
    by (auto simp: strip_images_when_unsupported_def list_all_iff strip_item_image_free)
  ultimately show ?thesis
    by (metis prompt_entries prompt_call_keys prompt_output_keys)
qed

section \<open>Trimming keeps the pairs\<close>

definition paired :: "response_item list \<Rightarrow> bool" where
  "paired items \<longleftrightarrow> set (call_keys items) = set (output_keys items)"

text \<open>No call id is used twice.\<close>

definition unique_keys :: "response_item list \<Rightarrow> bool" where
  "unique_keys items \<longleftrightarrow> distinct (call_keys items) \<and> distinct (output_keys items)"

lemma vec_remove_position: "position p xs = Some i \<Longrightarrow> \<exists>a x b. xs = a @ x # b \<and> p x \<and> vec_remove xs i = Some (a @ b)"
proof -
  assume pos: "position p xs = Some i"
  then have "i < length xs" "p (xs ! i)"
    by (simp_all add: position_SomeD)
  then show ?thesis
    by (intro exI [of _ "take i xs"] exI [of _ "xs ! i"] exI [of _ "drop (i + 1) xs"])
      (simp add: vec_remove_def id_take_nth_drop [symmetric])
qed

lemma remove_first_matching_cases:
  obtains (none) "remove_first_matching p items = Some items" and "\<forall>i \<in> set items. \<not> p i"
  | (removed) a x b where "items = a @ x # b" and "p x" and "remove_first_matching p items = Some (a @ b)"
proof (cases "position p items")
  case None
  with none show ?thesis
    by (simp add: remove_first_matching_def position_None_iff)
next
  case (Some i)
  with vec_remove_position [OF Some] removed show ?thesis
    by (auto simp: remove_first_matching_def)
qed

lemma call_of_key:
  "is_function_output_of c i \<longleftrightarrow> output_key i = Some (FunctionKind, c)"
  "is_custom_output_of c i \<longleftrightarrow> output_key i = Some (CustomKind, c)"
  "is_function_call_of c i \<or> is_local_shell_call_of c i \<longleftrightarrow> call_key i = Some (FunctionKind, c)"
  "is_custom_call_of c i \<longleftrightarrow> call_key i = Some (CustomKind, c)"
  by (cases i rule: call_key.cases; auto)+

lemma remove_function_call:
  "remove_corresponding_for items (FunctionCallOutput c payload) =
     (if \<exists>i \<in> set items. is_function_call_of c i then remove_first_matching (is_function_call_of c) items
      else remove_first_matching (is_local_shell_call_of c) items)"
  by (auto simp: remove_first_matching_def position_None_iff split: option.splits dest: position_SomeD nth_mem)

text \<open>The counterpart of an item is removed: what is left has the item's key neither as a call nor as
  an output.\<close>

lemma remove_corresponding_call:
  assumes "call_key item = Some k"
  shows "\<exists>out. remove_corresponding_for items item = Some out \<and>
    ((out = items \<and> k \<notin> set (output_keys items)) \<or>
     (\<exists>a x b. items = a @ x # b \<and> output_key x = Some k \<and> out = a @ b))"
proof -
  obtain kind c where k: "k = (kind, c)" by fastforce
  have "remove_corresponding_for items item = remove_first_matching (\<lambda>i. output_key i = Some k) items"
    using assms k
    by (cases item rule: call_key.cases) (auto simp flip: call_of_key)
  then show ?thesis
    by (cases rule: remove_first_matching_cases [where p = "\<lambda>i. output_key i = Some k" and items = items])
      (auto simp: set_map_filter)
qed

lemma remove_corresponding_output:
  assumes "output_key item = Some k"
  shows "\<exists>out. remove_corresponding_for items item = Some out \<and>
    ((out = items \<and> k \<notin> set (call_keys items)) \<or>
     (\<exists>a x b. items = a @ x # b \<and> call_key x = Some k \<and> out = a @ b))"
proof (cases item)
  case (FunctionCallOutput c payload)
  then have k: "k = (FunctionKind, c)"
    using assms by simp
  show ?thesis
  proof (cases "\<exists>i \<in> set items. is_function_call_of c i")
    case True
    then have "remove_corresponding_for items item = remove_first_matching (is_function_call_of c) items"
      unfolding FunctionCallOutput remove_function_call by simp
    with True k call_of_key(3) show ?thesis
      by (cases rule: remove_first_matching_cases [where p = "is_function_call_of c" and items = items]) metis+
  next
    case False
    then have "remove_corresponding_for items item = remove_first_matching (is_local_shell_call_of c) items"
      unfolding FunctionCallOutput remove_function_call by simp
    moreover have "k \<notin> set (call_keys items)" if "\<forall>i \<in> set items. \<not> is_local_shell_call_of c i"
      using False that k call_of_key(3) by (auto simp: set_map_filter)
    ultimately show ?thesis
      using k call_of_key(3)
      by (cases rule: remove_first_matching_cases [where p = "is_local_shell_call_of c" and items = items]) metis+
  qed
next
  case (CustomToolCallOutput c s)
  then have k: "k = (CustomKind, c)"
    using assms by simp
  then show ?thesis
    unfolding CustomToolCallOutput
    by (cases rule: remove_first_matching_cases [where p = "is_custom_call_of c" and items = items])
      (auto simp: call_of_key set_map_filter)
qed (use assms in auto)

lemma remove_corresponding_other:
  "call_key item = None \<Longrightarrow> output_key item = None \<Longrightarrow> remove_corresponding_for items item = Some items"
  by (cases item rule: call_key.cases) auto

text \<open>The key of an item, as a call or as an output, and the items left when a pair goes.\<close>

definition pair_key :: "response_item \<Rightarrow> (call_kind \<times> ustr) option" where
  "pair_key item = (case call_key item of Some k \<Rightarrow> Some k | None \<Rightarrow> output_key item)"

definition without_pair :: "response_item \<Rightarrow> response_item list \<Rightarrow> response_item list" where
  "without_pair item items = filter (\<lambda>i. pair_key i = None \<or> pair_key i \<noteq> pair_key item) items"

lemma without_no_pair: "pair_key item = None \<Longrightarrow> without_pair item items = items"
  unfolding without_pair_def by (rule filter_True) metis

lemma without_pair_absent:
  "pair_key item = Some k \<Longrightarrow> k \<notin> set (call_keys items) \<Longrightarrow> k \<notin> set (output_keys items) \<Longrightarrow> without_pair item items = items"
  unfolding without_pair_def
  by (rule filter_True) (auto simp: pair_key_def set_map_filter split: option.splits)

lemma without_pair_split:
  assumes "pair_key item = Some k" and "pair_key x = Some k"
    and "k \<notin> set (call_keys (a @ b))" and "k \<notin> set (output_keys (a @ b))"
  shows "without_pair item (a @ x # b) = a @ b"
  using assms without_pair_absent [OF assms(1), of a] without_pair_absent [OF assms(1), of b]
  by (simp add: without_pair_def)

lemma pair_key_call: "call_key item = Some k \<Longrightarrow> pair_key item = Some k"
  by (simp add: pair_key_def)

lemma pair_key_output: "output_key item = Some k \<Longrightarrow> pair_key item = Some k"
  by (cases "call_key item") (auto simp: pair_key_def dest: call_not_output)

lemma pair_key_None: "pair_key item = None \<longleftrightarrow> call_key item = None \<and> output_key item = None"
  by (auto simp: pair_key_def split: option.splits)

lemma output_not_call: "output_key item = Some k \<Longrightarrow> call_key item = None"
  by (cases item) auto

text \<open>With every call id used once, an item and its counterpart are removed together.\<close>

lemma remove_pair:
  assumes "paired (item # rest)" and "unique_keys (item # rest)"
  shows "\<exists>out. remove_corresponding_for rest item = Some out \<and> out = without_pair item rest \<and>
    paired out \<and> unique_keys out"
proof (cases "call_key item")
  case (Some k)
  note call = Some
  have k: "k \<notin> set (call_keys rest)" "insert k (set (call_keys rest)) = set (output_keys rest)"
    "distinct (call_keys rest)" "distinct (output_keys rest)"
    using assms call call_not_output [OF call] by (auto simp: paired_def unique_keys_def)
  from remove_corresponding_call [OF call, of rest] k obtain a x b where
    out: "remove_corresponding_for rest item = Some (a @ b)" and rest: "rest = a @ x # b" and x: "output_key x = Some k"
    by auto
  have ab: "k \<notin> set (call_keys (a @ b))" "k \<notin> set (output_keys (a @ b))"
    using k(1,4) x by (auto simp: rest output_not_call)
  have "set (call_keys (a @ b)) = set (output_keys (a @ b))"
    using k(2) x ab by (auto simp: rest output_not_call)
  moreover have "unique_keys (a @ b)"
    using k(3,4) x by (auto simp: unique_keys_def rest output_not_call)
  ultimately show ?thesis
    using out without_pair_split [OF pair_key_call [OF call] pair_key_output [OF x] ab] rest
    by (simp add: paired_def)
next
  case None
  note no_call = None
  show ?thesis
  proof (cases "output_key item")
    case None
    with no_call assms show ?thesis
      by (simp add: remove_corresponding_other without_no_pair pair_key_None paired_def unique_keys_def)
  next
    case (Some k)
    have k: "k \<notin> set (output_keys rest)" "insert k (set (output_keys rest)) = set (call_keys rest)"
      "distinct (call_keys rest)" "distinct (output_keys rest)"
      using assms no_call Some by (auto simp: paired_def unique_keys_def)
    from remove_corresponding_output [OF Some, of rest] k obtain a x b where
      out: "remove_corresponding_for rest item = Some (a @ b)" and rest: "rest = a @ x # b" and x: "call_key x = Some k"
      by auto
    have ab: "k \<notin> set (call_keys (a @ b))" "k \<notin> set (output_keys (a @ b))"
      using k(1,3) x by (auto simp: rest call_not_output)
    have "set (call_keys (a @ b)) = set (output_keys (a @ b))"
      using k(2) x ab by (auto simp: rest call_not_output)
    moreover have "unique_keys (a @ b)"
      using k(3,4) x by (auto simp: unique_keys_def rest call_not_output)
    ultimately show ?thesis
      using out without_pair_split [OF pair_key_output [OF Some] pair_key_call [OF x] ab] rest
      by (simp add: paired_def)
  qed
qed

lemma remove_last_pair:
  assumes "paired (rest @ [item])" and "unique_keys (rest @ [item])"
  shows "\<exists>out. remove_corresponding_for rest item = Some out \<and> out = without_pair item rest \<and>
    paired out \<and> unique_keys out"
proof (rule remove_pair)
  show "paired (item # rest)"
    using assms(1) by (auto simp: paired_def split: option.splits)
  show "unique_keys (item # rest)"
    using assms(2) by (auto simp: unique_keys_def split: option.splits)
qed

text \<open>Trimming the history at either end keeps it well paired. As long as no call id is used
  twice, removing the oldest or the newest item of a history in which every call has an output and
  every output a call removes that item together with its counterpart and nothing else, and leaves
  a history of the same kind.\<close>
theorem trimming_keeps_pairs:
  assumes "paired (ctx_items cm)" and "unique_keys (ctx_items cm)" and "ctx_items cm \<noteq> []"
  shows "remove_first_item cm = Some (cm\<lparr>ctx_items := without_pair (hd (ctx_items cm)) (tl (ctx_items cm))\<rparr>) \<and>
    remove_last_item cm = Some (cm\<lparr>ctx_items := without_pair (last (ctx_items cm)) (butlast (ctx_items cm))\<rparr>, True) \<and>
    paired (without_pair (hd (ctx_items cm)) (tl (ctx_items cm))) \<and>
    unique_keys (without_pair (hd (ctx_items cm)) (tl (ctx_items cm))) \<and>
    paired (without_pair (last (ctx_items cm)) (butlast (ctx_items cm))) \<and>
    unique_keys (without_pair (last (ctx_items cm)) (butlast (ctx_items cm)))"
proof -
  obtain item rest where first: "ctx_items cm = item # rest"
    using assms(3) by (cases "ctx_items cm") auto
  obtain front final where last: "ctx_items cm = front @ [final]"
    using assms(3) by (cases "ctx_items cm" rule: rev_cases) auto
  have "paired (item # rest)" "unique_keys (item # rest)" "paired (front @ [final])" "unique_keys (front @ [final])"
    using assms first last by simp_all
  then have "remove_corresponding_for rest item = Some (without_pair item rest)"
      "paired (without_pair item rest)" "unique_keys (without_pair item rest)"
    and "remove_corresponding_for front final = Some (without_pair final front)"
      "paired (without_pair final front)" "unique_keys (without_pair final front)"
    using remove_pair [of item rest] remove_last_pair [of front final] by auto
  moreover have "hd (ctx_items cm) = item" "tl (ctx_items cm) = rest"
    by (simp_all add: first)
  moreover have "last (ctx_items cm) = final" "butlast (ctx_items cm) = front"
    by (simp_all add: last)
  ultimately show ?thesis
    using assms(3) by (auto simp: remove_first_item_def remove_last_item_def split: list.splits)
qed

theorem trimming_keeps_pairs_witness:
  "remove_first_item \<lparr>ctx_items = [FunctionCall None (lit ''ls'') [] (lit ''a''), OtherItem,
     FunctionCallOutput (lit ''a'') (text_payload [])], token_info = None\<rparr> =
   Some \<lparr>ctx_items = [OtherItem], token_info = None\<rparr>"
  using trimming_keeps_pairs [of "\<lparr>ctx_items = [FunctionCall None (lit ''ls'') [] (lit ''a''), OtherItem,
     FunctionCallOutput (lit ''a'') (text_payload [])], token_info = None\<rparr>"]
  by (simp add: paired_def unique_keys_def without_pair_def pair_key_def)

text \<open>Without that, the counterpart removed is the first with the id, and a pair is broken: after
  removing the oldest item the second output of a reused call id is left without a call.\<close>

lemma reused_call_id_breaks_pairs:
  "remove_first_item \<lparr>ctx_items = [FunctionCall None (lit ''ls'') [] (lit ''a''),
     FunctionCallOutput (lit ''a'') (text_payload []), FunctionCallOutput (lit ''a'') (text_payload [])], token_info = None\<rparr> =
   Some \<lparr>ctx_items = [FunctionCallOutput (lit ''a'') (text_payload [])], token_info = None\<rparr>"
  by (simp add: remove_first_item_def remove_first_matching_def vec_remove_def)

section \<open>Dropping turns\<close>

definition turn_count :: "response_item list \<Rightarrow> nat" where
  "turn_count items = length (filter is_user_turn_boundary items)"

lemma user_positions_filter:
  "user_positions_from idx items =
     map (\<lambda>i. idx + i) (filter (\<lambda>i. is_user_turn_boundary (items ! i)) [0..<length items])"
proof (induction items arbitrary: idx)
  case (Cons item items)
  have "[0..<length (item # items)] = 0 # map Suc [0..<length items]"
    by (simp add: map_Suc_upt upt_conv_Cons del: upt_Suc)
  then show ?case
    by (simp add: Cons.IH filter_map comp_def del: upt_Suc)
qed simp

lemma length_user_positions: "length (user_positions_from idx items) = turn_count items"
  by (induction items arbitrary: idx) (auto simp: turn_count_def)

text \<open>The position of a boundary counts the boundaries before it.\<close>

lemma nth_user_position:
  "k < length (user_positions_from idx items) \<Longrightarrow>
   \<exists>before b after. items = before @ b # after \<and> user_positions_from idx items ! k = idx + length before \<and>
     is_user_turn_boundary b \<and> turn_count before = k"
proof (induction items arbitrary: idx k)
  case (Cons item items)
  show ?case
  proof (cases "is_user_turn_boundary item \<and> k = 0")
    case True
    then show ?thesis
      by (intro exI [of _ "[]"]) (simp add: turn_count_def)
  next
    case False
    let ?k = "if is_user_turn_boundary item then k - 1 else k"
    have "?k < length (user_positions_from (idx + 1) items)"
      using Cons.prems False by auto
    from Cons.IH [OF this] obtain before b after where
      "items = before @ b # after" "user_positions_from (idx + 1) items ! ?k = idx + 1 + length before"
      "is_user_turn_boundary b" "turn_count before = ?k"
      by blast
    then show ?thesis
      using False by (intro exI [of _ "item # before"] exI [of _ b] exI [of _ after])
        (auto simp: turn_count_def nth_Cons')
  qed
qed simp

text \<open>Rolling back drops exactly the last turns. The history splits into what is kept and what is
  dropped; without turns, or when none is to be dropped, all is kept, and otherwise the dropped
  part starts at the boundary of a user turn and holds as many turns as were asked for, or all of
  them when there are fewer; what came before the first turn is always kept.\<close>
theorem rollback_drops_last_turns:
  "\<exists>dropped. ctx_items cm = ctx_items (drop_last_n_user_turns cm n) @ dropped \<and>
     turn_count dropped = min (unat n) (turn_count (ctx_items cm)) \<and>
     (dropped = [] \<or> is_user_turn_boundary (hd dropped)) \<and>
     token_info (drop_last_n_user_turns cm n) = token_info cm"
proof (cases "n = 0 \<or> turn_count (ctx_items cm) = 0")
  case True
  then have "drop_last_n_user_turns cm n = cm"
    using length_user_positions [of 0 "ctx_items cm"]
    by (auto simp: drop_last_n_user_turns_def user_message_positions_def replace_items_def Let_def
        split: list.splits)
  with True show ?thesis
    by (auto simp: turn_count_def)
next
  case False
  let ?items = "ctx_items cm"
  let ?positions = "user_positions_from 0 ?items"
  let ?k = "if unat n \<ge> turn_count ?items then 0 else turn_count ?items - unat n"
  have len: "length ?positions = turn_count ?items"
    by (rule length_user_positions)
  have n: "unat n \<noteq> 0"
    using False by (simp add: unat_eq_zero)
  have "?k < length ?positions"
    using False n len by auto
  from nth_user_position [OF this] obtain before b after where
    split: "?items = before @ b # after" and pos: "?positions ! ?k = length before"
    and b: "is_user_turn_boundary b" and count: "turn_count before = ?k"
    by auto
  obtain p ps where positions: "?positions = p # ps"
    using False len by (cases ?positions) auto
  have "(if unat n \<ge> length ?positions then p else ?positions ! (length ?positions - unat n)) = length before"
    using pos positions len by (auto split: if_splits)
  then have "drop_last_n_user_turns cm n = replace_items cm (take (length before) ?items)"
    using False positions by (simp add: drop_last_n_user_turns_def user_message_positions_def Let_def)
  moreover have "turn_count (b # after) = turn_count ?items - ?k"
    using count by (simp add: split turn_count_def)
  ultimately show ?thesis
    using split b n False by (intro exI [of _ "b # after"]) (auto simp: replace_items_def min_def)
qed

section \<open>Boundaries are the user's messages\<close>

lemma to_ascii_lowercase_image_tag:
  assumes "is_local_image_open_tag_text s \<or> is_image_open_tag_text s \<or> is_local_image_close_tag_text s \<or>
    is_image_close_tag_text s"
  shows "\<not> is_session_prefix s" and "\<not> is_user_shell_command_text s"
proof -
  from assms obtain r where "s = lit ''<i'' @ r \<or> s = lit ''</'' @ r"
    by (auto simp: is_local_image_open_tag_text_def is_image_open_tag_text_def is_local_image_close_tag_text_def
        is_image_close_tag_text_def strip_prefix_eq_Some_iff lit_def split: option.splits)
  then show "\<not> is_session_prefix s" and "\<not> is_user_shell_command_text s"
    by (auto simp: is_session_prefix_def is_user_shell_command_text_def trim_start_def trim_start_by_def
        is_whitespace_def to_ascii_lowercase_def ascii_lower_def starts_with_def lit_def Let_def)
qed

lemma parse_user_content_boundary:
  "(\<exists>out. parse_user_content message idx content acc = Some out) \<longleftrightarrow> boundary_content content"
proof (induction content arbitrary: idx acc)
  case (Cons c content)
  then show ?case
    using to_ascii_lowercase_image_tag by (cases c) auto
qed simp

text \<open>The turns that a rollback counts are the messages a front end shows as the user's. For every
  item, it is the boundary of a user turn exactly when mapping it to a turn item gives a user
  message, although the one decides by the marks alone and the other also skips image tags.\<close>
theorem boundary_iff_user_message:
  "is_user_turn_boundary item \<longleftrightarrow> (\<exists>u. parse_turn_item uuid item = Some (UserMessage u))"
proof (cases item)
  case (Message item_id role content end_turn ph)
  show ?thesis
    using parse_user_content_boundary [of content 0 content "[]"]
    by (auto simp: Message parse_user_message_def)
qed (auto split: prod.splits)

text \<open>So a message with role \<open>user\<close> is not always a turn: one that carries an environment context is
  none, and a rollback does not count it.\<close>

lemma context_message_is_no_turn:
  assumes "is_session_prefix s"
  shows "is_user_role (user_message s) \<and> \<not> is_user_turn_boundary (user_message s)"
  using assms by (simp add: user_message_def)

section \<open>Recording never fails\<close>

lemma truncate_output_items_total: "\<exists>out. truncate_function_output_items_with_policy items pol = Some out"
  using truncate_items_spec [of pol items _ 0 "[]"]
  by (fastforce simp: truncate_function_output_items_with_policy_def Let_def)

lemma process_item_total: "\<exists>out. process_item item pol = Some out"
proof (cases "(item, pol)" rule: process_item.cases)
  case (1 c payload pol)
  then show ?thesis
    using truncate_text_total truncate_output_items_total
    by (auto simp: Let_def split: fco_body.splits)
next
  case (2 c content pol)
  then show ?thesis
    using truncate_text_total by auto
qed auto

lemma process_item_other:
  "output_key item = None \<Longrightarrow> process_item item pol = Some item"
  by (cases item) auto

lemma record_items_spec:
  "\<exists>out. record_items cm items pol = Some (cm\<lparr>ctx_items := ctx_items cm @ out\<rparr>) \<and>
     list_all2 (\<lambda>item o'. process_item item pol = Some o') (filter (\<lambda>i. is_api_message i \<or> is_ghost i) items) out"
proof (induction items arbitrary: cm)
  case (Cons item items)
  obtain p where p: "process_item item pol = Some p"
    using process_item_total by blast
  obtain out where "record_items (if is_api_message item \<or> is_ghost item
      then cm\<lparr>ctx_items := ctx_items cm @ [p]\<rparr> else cm) items pol = Some ((if is_api_message item \<or> is_ghost item
      then cm\<lparr>ctx_items := ctx_items cm @ [p]\<rparr> else cm)\<lparr>ctx_items := ctx_items (if is_api_message item \<or> is_ghost item
      then cm\<lparr>ctx_items := ctx_items cm @ [p]\<rparr> else cm) @ out\<rparr>)"
    "list_all2 (\<lambda>item o'. process_item item pol = Some o') (filter (\<lambda>i. is_api_message i \<or> is_ghost i) items) out"
    using Cons.IH by blast
  with p show ?case
    by (cases "is_api_message item \<or> is_ghost item") (auto intro: exI [of _ "p # out"])
qed simp

lemma record_items_append:
  "record_items cm (a @ b) pol = Option.bind (record_items cm a pol) (\<lambda>cm. record_items cm b pol)"
proof (induction a arbitrary: cm)
  case (Cons item a)
  then show ?case
    by (cases "process_item item pol") auto
qed simp

end
