(* ===== verification/SessionState.thy ===== *)
theory SessionState
  imports History
begin

text \<open>
  The state of a session: \<open>core/src/state/session.rs\<close>, over the history of \<open>History\<close>. The startup
  task is a handle of the runtime and is left out. Maps and sets are those of HOL.
\<close>

section \<open>Rate limits\<close>

text \<open>The percentage is an IEEE number that is only carried along: its bits.\<close>

record rate_limit_window =
  used_percent :: "64 word"
  window_minutes :: "int option"
  resets_at :: "int option"

record credits_snapshot =
  has_credits :: bool
  unlimited :: bool
  balance :: "ustr option"

datatype plan_type =
    FreePlan | GoPlan | PlusPlan | ProPlan | TeamPlan | BusinessPlan | EnterprisePlan | EduPlan | UnknownPlan

record rate_limit_snapshot =
  limit_id :: "ustr option"
  limit_name :: "ustr option"
  primary_window :: "rate_limit_window option"
  secondary_window :: "rate_limit_window option"
  credits :: "credits_snapshot option"
  plan :: "plan_type option"

definition merge_rate_limit_fields ::
  "rate_limit_snapshot option \<Rightarrow> rate_limit_snapshot \<Rightarrow> rate_limit_snapshot" where
  "merge_rate_limit_fields previous snapshot =
     (let snapshot = (if limit_id snapshot = None then snapshot\<lparr>limit_id := Some (lit ''codex'')\<rparr> else snapshot);
          snapshot = (if credits snapshot = None
            then snapshot\<lparr>credits := Option.bind previous credits\<rparr> else snapshot)
      in if plan snapshot = None then snapshot\<lparr>plan := Option.bind previous plan\<rparr> else snapshot)"

section \<open>The state\<close>

record session_state =
  base_instructions :: ustr
  session_history :: context_manager
  latest_rate_limits :: "rate_limit_snapshot option"
  reasoning_included :: bool
  dependency_env :: "ustr \<Rightarrow> ustr option"
  mcp_prompted :: "ustr set"
  context_seeded :: bool
  previous_model :: "ustr option"
  tool_selection :: "ustr list option"
  connector_selection :: "ustr set"

definition session_new :: "ustr \<Rightarrow> session_state" where
  "session_new instructions =
     \<lparr>base_instructions = instructions, session_history = context_new, latest_rate_limits = None,
      reasoning_included = False, dependency_env = (\<lambda>_. None), mcp_prompted = {}, context_seeded = False,
      previous_model = None, tool_selection = None, connector_selection = {}\<rparr>"

definition session_record_items ::
  "session_state \<Rightarrow> response_item list \<Rightarrow> truncation_policy \<Rightarrow> session_state option" where
  "session_record_items s items pol =
     map_option (\<lambda>cm. s\<lparr>session_history := cm\<rparr>) (record_items (session_history s) items pol)"

definition session_replace_history :: "session_state \<Rightarrow> response_item list \<Rightarrow> session_state" where
  "session_replace_history s items = s\<lparr>session_history := replace_items (session_history s) items\<rparr>"

definition session_set_token_info :: "session_state \<Rightarrow> token_usage_info option \<Rightarrow> session_state" where
  "session_set_token_info s info = s\<lparr>session_history := set_token_info (session_history s) info\<rparr>"

definition update_token_info_from_usage ::
  "session_state \<Rightarrow> token_usage \<Rightarrow> int option \<Rightarrow> session_state" where
  "update_token_info_from_usage s usage window =
     s\<lparr>session_history := update_token_info (session_history s) usage window\<rparr>"

definition session_set_token_usage_full :: "session_state \<Rightarrow> int \<Rightarrow> session_state" where
  "session_set_token_usage_full s window =
     s\<lparr>session_history := set_token_usage_full (session_history s) window\<rparr>"

definition set_rate_limits :: "session_state \<Rightarrow> rate_limit_snapshot \<Rightarrow> session_state" where
  "set_rate_limits s snapshot =
     s\<lparr>latest_rate_limits := Some (merge_rate_limit_fields (latest_rate_limits s) snapshot)\<rparr>"

definition session_total_token_usage :: "(response_item \<Rightarrow> nat option) \<Rightarrow> session_state \<Rightarrow> int" where
  "session_total_token_usage json_len s =
     get_total_token_usage json_len (session_history s) (reasoning_included s)"

definition record_mcp_prompted :: "session_state \<Rightarrow> ustr list \<Rightarrow> session_state" where
  "record_mcp_prompted s names = s\<lparr>mcp_prompted := mcp_prompted s \<union> set names\<rparr>"

definition set_dependency_env :: "session_state \<Rightarrow> (ustr \<times> ustr) list \<Rightarrow> session_state" where
  "set_dependency_env s values =
     s\<lparr>dependency_env := foldl (\<lambda>m (k, v). m(k \<mapsto> v)) (dependency_env s) values\<rparr>"

subsection \<open>Selected tools\<close>

text \<open>The loop over the names: the set of those seen and the list in order.\<close>

fun add_unseen :: "ustr set \<Rightarrow> ustr list \<Rightarrow> ustr list \<Rightarrow> ustr list" where
  "add_unseen seen acc [] = acc"
| "add_unseen seen acc (name # names) =
     (if name \<in> seen then add_unseen seen acc names
      else add_unseen (insert name seen) (acc @ [name]) names)"

definition merge_mcp_tool_selection :: "session_state \<Rightarrow> ustr list \<Rightarrow> session_state \<times> ustr list" where
  "merge_mcp_tool_selection s names =
     (let current = (case tool_selection s of Some ns \<Rightarrow> ns | None \<Rightarrow> [])
      in if names = [] then (s, current)
         else let merged = add_unseen (set current) current names
              in (s\<lparr>tool_selection := Some merged\<rparr>, merged))"

definition set_mcp_tool_selection :: "session_state \<Rightarrow> ustr list \<Rightarrow> session_state" where
  "set_mcp_tool_selection s names =
     (if names = [] then s\<lparr>tool_selection := None\<rparr>
      else let selected = add_unseen {} [] names
           in s\<lparr>tool_selection := (if selected = [] then None else Some selected)\<rparr>)"

definition clear_mcp_tool_selection :: "session_state \<Rightarrow> session_state" where
  "clear_mcp_tool_selection s = s\<lparr>tool_selection := None\<rparr>"

definition merge_connector_selection :: "session_state \<Rightarrow> ustr list \<Rightarrow> session_state \<times> ustr set" where
  "merge_connector_selection s ids =
     (let all_ids = connector_selection s \<union> set ids in (s\<lparr>connector_selection := all_ids\<rparr>, all_ids))"

definition clear_connector_selection :: "session_state \<Rightarrow> session_state" where
  "clear_connector_selection s = s\<lparr>connector_selection := {}\<rparr>"

lemma add_unseen_spec:
  "set acc \<subseteq> seen \<Longrightarrow> distinct acc \<Longrightarrow>
   distinct (add_unseen seen acc names) \<and> (\<exists>new. add_unseen seen acc names = acc @ new \<and> subseq new names) \<and>
   set (add_unseen seen acc names) = set acc \<union> (set names - seen)"
proof (induction names arbitrary: seen acc)
  case (Cons name names)
  show ?case
  proof (cases "name \<in> seen")
    case True
    with Cons.IH [of acc seen] Cons.prems show ?thesis by auto
  next
    case False
    have "set (acc @ [name]) \<subseteq> insert name seen" "distinct (acc @ [name])"
      using Cons.prems False by auto
    from Cons.IH [OF this] obtain new where
      "distinct (add_unseen (insert name seen) (acc @ [name]) names)"
      "add_unseen (insert name seen) (acc @ [name]) names = (acc @ [name]) @ new" "subseq new names"
      "set (add_unseen (insert name seen) (acc @ [name]) names) = set (acc @ [name]) \<union> (set names - insert name seen)"
      by blast
    with False show ?thesis
      by (auto intro!: exI [of _ "name # new"])
  qed
qed auto

text \<open>The selection has no duplicates, keeps the earlier names in front, in their order, and appends
  the new ones in the order they came.\<close>

lemma merged_tool_selection:
  assumes "case tool_selection s of Some ns \<Rightarrow> distinct ns | None \<Rightarrow> True"
  shows "distinct (snd (merge_mcp_tool_selection s names)) \<and>
    (\<exists>new. snd (merge_mcp_tool_selection s names) = (case tool_selection s of Some ns \<Rightarrow> ns | None \<Rightarrow> []) @ new \<and>
       subseq new names)"
  using assms add_unseen_spec [of "case tool_selection s of Some ns \<Rightarrow> ns | None \<Rightarrow> []"
      "set (case tool_selection s of Some ns \<Rightarrow> ns | None \<Rightarrow> [])" names]
  by (auto simp: merge_mcp_tool_selection_def Let_def split: option.splits)

end
