(* ===== verification/Compaction.thy ===== *)
theory Compaction
  imports SessionState
begin

text \<open>
  Replacing a long conversation by a summary: \<open>core/src/compact.rs\<close> and the part of
  \<open>compact_remote.rs\<close> that works on the history. The model service is an argument: what it streams
  for the prompt of each attempt. Events that only report progress are collected in order.
\<close>

section \<open>The compacted history\<close>

definition summary_prefix :: ustr where
  "summary_prefix = lit ''Another language model started to solve this problem and produced a summary of its thinking process. You also have access to the state of the tools that were used by that language model. Use this to build on the work that has already been done and avoid duplicating work. Here is the summary produced by the other language model, use the information in this summary to assist with your own analysis:''"

definition content_items_to_text :: "message_content list \<Rightarrow> ustr option" where
  "content_items_to_text content =
     (let pieces = List.map_filter
            (\<lambda>c. case c of
               MsgInputText s \<Rightarrow> if s \<noteq> [] then Some s else None
             | MsgOutputText s \<Rightarrow> if s \<noteq> [] then Some s else None
             | MsgInputImage _ \<Rightarrow> None) content
      in if pieces = [] then None else Some (join_with newline pieces))"

definition is_summary_message :: "ustr \<Rightarrow> bool" where
  "is_summary_message message = starts_with message (summary_prefix @ newline)"

text \<open>The identifier drawn for the turn item is dropped again, so any will do.\<close>

definition collect_user_messages :: "response_item list \<Rightarrow> ustr list" where
  "collect_user_messages items =
     List.map_filter
       (\<lambda>item. case parse_turn_item [] item of
          Some (UserMessage u) \<Rightarrow> if is_summary_message (um_message u) then None else Some (um_message u)
        | _ \<Rightarrow> None) items"

fun is_user_message_item :: "response_item \<Rightarrow> bool" where
  "is_user_message_item item \<longleftrightarrow> (case parse_turn_item [] item of Some (UserMessage _) \<Rightarrow> True | _ \<Rightarrow> False)"

fun should_keep_compacted :: "response_item \<Rightarrow> bool" where
  "should_keep_compacted (Message item_id role content end_turn ph) \<longleftrightarrow>
     (if role = lit ''developer'' then False
      else if role = lit ''user'' then is_user_message_item (Message item_id role content end_turn ph)
      else True)"
| "should_keep_compacted _ \<longleftrightarrow> True"

definition process_compacted_history :: "response_item list \<Rightarrow> response_item list \<Rightarrow> response_item list" where
  "process_compacted_history compacted initial_context =
     (let compacted = filter should_keep_compacted compacted
      in case rposition is_user_message_item compacted of
           Some last_user_index \<Rightarrow>
             take last_user_index compacted @ initial_context @ drop last_user_index compacted
         | None \<Rightarrow> compacted @ initial_context)"

text \<open>The loop over the messages, from the last one; the list selected is in that order.\<close>

fun select_messages :: "ustr list \<Rightarrow> nat \<Rightarrow> ustr list \<Rightarrow> ustr list option" where
  "select_messages [] remaining selected = Some selected"
| "select_messages (message # messages) remaining selected =
     (if remaining = 0 then Some selected
      else
        let tokens = approx_token_count message
        in if tokens \<le> remaining
           then select_messages messages (remaining - tokens) (selected @ [message])
           else map_option (\<lambda>cut. selected @ [cut]) (truncate_text message (Tokens remaining)))"

definition build_compacted_history_with_limit ::
  "response_item list \<Rightarrow> ustr list \<Rightarrow> ustr \<Rightarrow> nat \<Rightarrow> response_item list option" where
  "build_compacted_history_with_limit history user_messages summary max_tokens =
     Option.bind (if max_tokens > 0 then map_option rev (select_messages (rev user_messages) max_tokens [])
                  else Some [])
       (\<lambda>selected.
         let history = history @ map user_message selected;
             summary = (if summary = [] then lit ''(no summary available)'' else summary)
         in Some (history @ [user_message summary]))"

definition compact_user_message_max_tokens :: nat where
  "compact_user_message_max_tokens = 20000"

definition build_compacted_history ::
  "response_item list \<Rightarrow> ustr list \<Rightarrow> ustr \<Rightarrow> response_item list option" where
  "build_compacted_history initial_context user_messages summary =
     build_compacted_history_with_limit initial_context user_messages summary compact_user_message_max_tokens"

section \<open>Model switches\<close>

fun is_model_switch_message :: "response_item \<Rightarrow> bool" where
  "is_model_switch_message (Message _ role content _ _) \<longleftrightarrow>
     role = lit ''developer'' \<and>
     list_ex (\<lambda>c. case c of MsgInputText s \<Rightarrow> starts_with s (lit ''<model_switch>'') | _ \<Rightarrow> False) content"
| "is_model_switch_message _ \<longleftrightarrow> False"

definition extract_trailing_model_switch ::
  "context_manager \<Rightarrow> (context_manager \<times> response_item option) option" where
  "extract_trailing_model_switch cm =
     (let items = ctx_items cm;
          boundary = rposition is_user_turn_boundary items;
          switch_index = find_map
            (\<lambda>(i, item). if (case boundary of None \<Rightarrow> True | Some b \<Rightarrow> b < i) \<and> is_model_switch_message item
                         then Some i else None)
            (rev (zip [0..<length items] items))
      in case switch_index of
           None \<Rightarrow> Some (cm, None)
         | Some i \<Rightarrow> map_option (\<lambda>rest. (replace_items cm rest, nth_opt items i)) (vec_remove items i))"

definition last_assistant_message :: "response_item list \<Rightarrow> ustr option" where
  "last_assistant_message items =
     find_map
       (\<lambda>item. case item of
          Message _ role content _ _ \<Rightarrow>
            if role = lit ''assistant''
            then find_map (\<lambda>c. case c of MsgOutputText s \<Rightarrow> Some s | _ \<Rightarrow> None) (rev content)
            else None
        | _ \<Rightarrow> None) (rev items)"

section \<open>A compaction\<close>

text \<open>The errors of \<open>core/src/error.rs\<close>. Errors of other libraries and responses are kept as the text
  they are shown with, a usage limit as the rate limits that came with it, delays in milliseconds.\<close>

datatype codex_err =
    TurnAborted
  | StreamErr ustr "nat option"
  | ContextWindowExceeded
  | ThreadNotFound ustr
  | AgentLimitReached nat
  | SessionConfiguredNotFirstEvent
  | TimeoutErr
  | SpawnErr
  | Interrupted
  | UnexpectedStatus ustr
  | InvalidRequest ustr
  | InvalidImageRequest
  | UsageLimitReached "rate_limit_snapshot option"
  | ServerOverloaded
  | ResponseStreamFailed ustr
  | ConnectionFailed ustr
  | QuotaExceeded
  | UsageNotIncluded
  | InternalServerError
  | RetryLimit ustr
  | InternalAgentDied
  | SandboxFailure ustr
  | LandlockExecutableNotProvided
  | UnsupportedOperation ustr
  | RefreshTokenFailed ustr
  | FatalErr ustr
  | IoErr ustr
  | JsonErr ustr
  | LandlockRuleset ustr
  | LandlockPathFd ustr
  | TokioJoin ustr
  | EnvVarErr ustr

definition stream_closed :: codex_err where
  "stream_closed = StreamErr (lit ''stream closed before response.completed'') None"

datatype stream_event =
    OutputItemDone response_item
  | ServerReasoningIncluded bool
  | RateLimits rate_limit_snapshot
  | StreamCompleted "token_usage option"
  | StreamFailed codex_err
  | StreamCreated
  | OutputItemAdded response_item
  | ModelsEtag ustr
  | OutputTextDelta ustr
  | ReasoningSummaryDelta ustr int
  | ReasoningSummaryPartAdded int
  | ReasoningContentDelta ustr int

text \<open>The events that a session sends while it compacts or runs a turn.\<close>

datatype session_event =
    CompactionStarted
  | CompactionCompleted
  | TokenCountEvent
  | TrimmedNotice nat
  | Reconnecting nat nat codex_err
  | ErrorEvent codex_err
  | LongThreadWarning
  | OtherModelWarning ustr ustr
  | TurnStarted
  | ItemStarted turn_item
  | ItemCompleted turn_item
  | MessageDelta ustr ustr
  | PlanDelta ustr ustr
  | ReasoningDeltaEvent ustr ustr int
  | ReasoningSectionBreak ustr int
  | ReasoningRawDelta ustr ustr int
  | TurnDiffEvent ustr
  | FallbackWarning codex_err
  | SkillWarning ustr
  | ErrorMessage ustr

datatype rollout_item =
    RolloutResponse response_item
  | RolloutCompacted ustr "response_item list option"
  | RolloutRolledBack "32 word"
  | RolloutTokenCount "token_usage_info option"
  | RolloutTurnContext ustr
  | RolloutOther

text \<open>The turn: its debug assertions, retries, model, context window, modalities, truncation policy and
  initial context, and what the service streams (or the error of starting the stream) for the
  attempt of a given number with a given prompt.\<close>

record compact_env =
  env_debug :: bool
  env_max_retries :: nat
  env_model :: ustr
  env_window :: "int option"
  env_modalities :: "input_modality list"
  env_policy :: truncation_policy
  env_initial_context :: "response_item list"
  env_json_len :: "response_item \<Rightarrow> nat option"
  env_stream :: "nat \<Rightarrow> response_item list \<Rightarrow> codex_err + stream_event list"

text \<open>The session with the events it sent and the items it wrote to the rollout, less the copies of
  events that a replay ignores.\<close>

record session_run =
  run_session :: session_state
  run_events :: "session_event list"
  run_rollout :: "rollout_item list"

definition send_event :: "session_event \<Rightarrow> session_run \<Rightarrow> session_run" where
  "send_event e r = r\<lparr>run_events := run_events r @ [e]\<rparr>"

definition persist_rollout :: "rollout_item \<Rightarrow> session_run \<Rightarrow> session_run" where
  "persist_rollout item r = r\<lparr>run_rollout := run_rollout r @ [item]\<rparr>"

definition set_session :: "session_state \<Rightarrow> session_run \<Rightarrow> session_run" where
  "set_session s r = r\<lparr>run_session := s\<rparr>"

definition set_total_tokens_full :: "compact_env \<Rightarrow> session_run \<Rightarrow> session_run" where
  "set_total_tokens_full env r =
     send_event TokenCountEvent
       (case env_window env of
          Some w \<Rightarrow> set_session (session_set_token_usage_full (run_session r) w) r
        | None \<Rightarrow> r)"

definition update_token_usage_info :: "compact_env \<Rightarrow> token_usage option \<Rightarrow> session_run \<Rightarrow> session_run" where
  "update_token_usage_info env usage r =
     send_event TokenCountEvent
       (case usage of
          Some u \<Rightarrow> set_session (update_token_info_from_usage (run_session r) u (env_window env)) r
        | None \<Rightarrow> r)"

definition recompute_token_usage :: "compact_env \<Rightarrow> session_run \<Rightarrow> session_run" where
  "recompute_token_usage env r =
     (let s = run_session r;
          estimated = estimate_token_count (env_json_len env) (session_history s) (base_instructions s);
          info = (case token_info (session_history s) of
                    Some i \<Rightarrow> i
                  | None \<Rightarrow> \<lparr>total_usage = no_tokens, last_usage = no_tokens, model_window = None\<rparr>);
          info = info\<lparr>last_usage := no_tokens\<lparr>total_tokens := max estimated 0\<rparr>\<rparr>;
          info = (case env_window env of Some w \<Rightarrow> info\<lparr>model_window := Some w\<rparr> | None \<Rightarrow> info)
      in send_event TokenCountEvent (set_session (session_set_token_info s (Some info)) r))"

fun drain_events ::
  "compact_env \<Rightarrow> stream_event list \<Rightarrow> session_run \<Rightarrow> (session_run \<times> (codex_err + unit)) option" where
  "drain_events env [] r = Some (r, Inl stream_closed)"
| "drain_events env (OutputItemDone item # events) r =
     Option.bind (session_record_items (run_session r) [item] (env_policy env))
       (\<lambda>s. drain_events env events (set_session s r))"
| "drain_events env (ServerReasoningIncluded b # events) r =
     drain_events env events (set_session ((run_session r)\<lparr>reasoning_included := b\<rparr>) r)"
| "drain_events env (RateLimits snapshot # events) r =
     drain_events env events (send_event TokenCountEvent (set_session (set_rate_limits (run_session r) snapshot) r))"
| "drain_events env (StreamCompleted usage # events) r =
     Some (update_token_usage_info env usage r, Inr ())"
| "drain_events env (StreamFailed e # events) r = Some (r, Inl e)"
| "drain_events env (_ # events) r = drain_events env events r"

definition drain_to_completed ::
  "compact_env \<Rightarrow> nat \<Rightarrow> response_item list \<Rightarrow> session_run \<Rightarrow> (session_run \<times> (codex_err + unit)) option" where
  "drain_to_completed env k prompt r =
     (case env_stream env k prompt of
        Inl e \<Rightarrow> Some (r, Inl e)
      | Inr events \<Rightarrow> drain_events env events r)"

text \<open>The loop is over attempts: trimming the oldest item starts the retries again. It ends because
  trimming shortens the history and a history without items gives an empty prompt.\<close>

lemma remove_corresponding_length:
  "remove_corresponding_for items item = Some out \<Longrightarrow> length out \<le> length items"
proof -
  have remove: "length out \<le> length items" if "remove_first_matching p items = Some out" for p
    using that by (cases rule: remove_first_matching_cases [where p = p and items = items]) auto
  show "remove_corresponding_for items item = Some out \<Longrightarrow> length out \<le> length items"
    by (cases "(items, item)" rule: remove_corresponding_for.cases)
      (auto simp del: remove_corresponding_for.simps(2) simp: remove_function_call split: if_splits intro: remove)
qed

lemma remove_first_item_shorter:
  "remove_first_item cm = Some cm' \<Longrightarrow> ctx_items cm \<noteq> [] \<Longrightarrow> length (ctx_items cm') < length (ctx_items cm)"
  by (auto simp: remove_first_item_def less_Suc_eq_le dest: remove_corresponding_length split: list.splits)

lemma prompt_of_nothing: "ctx_items cm = [] \<Longrightarrow> for_prompt dbg modalities cm = Some []"
  by (simp add: for_prompt_def normalize_history_spec strip_images_when_unsupported_def)

datatype loop_next =
    Stop session_run "codex_err + unit"
  | Again session_run context_manager nat nat

definition compact_attempt ::
  "compact_env \<Rightarrow> nat \<Rightarrow> session_run \<Rightarrow> context_manager \<Rightarrow> nat \<Rightarrow> nat \<Rightarrow> loop_next option" where
  "compact_attempt env k r history trimmed retries =
     Option.bind (for_prompt (env_debug env) (env_modalities env) history) (\<lambda>prompt.
     Option.bind (drain_to_completed env k prompt r) (\<lambda>(r, res).
       case res of
         Inr _ \<Rightarrow> Some (Stop (if trimmed > 0 then send_event (TrimmedNotice trimmed) r else r) (Inr ()))
       | Inl e \<Rightarrow>
           if e = Interrupted then Some (Stop r (Inl Interrupted))
           else if e = ContextWindowExceeded then
             if length prompt > 1
             then map_option (\<lambda>history. Again r history (trimmed + 1) 0) (remove_first_item history)
             else Some (Stop (send_event (ErrorEvent ContextWindowExceeded) (set_total_tokens_full env r))
                         (Inl ContextWindowExceeded))
           else if retries < env_max_retries env
           then Some (Again (send_event (Reconnecting (retries + 1) (env_max_retries env) e) r)
                       history trimmed (retries + 1))
           else Some (Stop (send_event (ErrorEvent e) r) (Inl e))))"

lemma attempt_again:
  "compact_attempt env k r history trimmed retries = Some (Again r' history' trimmed' retries') \<Longrightarrow>
   (length (ctx_items history') < length (ctx_items history) \<and> retries' = 0) \<or>
   (history' = history \<and> retries' = retries + 1 \<and> retries < env_max_retries env)"
  using prompt_of_nothing [of history "env_debug env" "env_modalities env"] remove_first_item_shorter [of history]
  by (fastforce simp: compact_attempt_def split: bind_splits sum.splits if_splits)

function compact_loop ::
  "compact_env \<Rightarrow> nat \<Rightarrow> session_run \<Rightarrow> context_manager \<Rightarrow> nat \<Rightarrow> nat
    \<Rightarrow> (session_run \<times> (codex_err + unit) \<times> nat) option" where
  "compact_loop env k r history trimmed retries =
     (case compact_attempt env k r history trimmed retries of
        None \<Rightarrow> None
      | Some (Stop r res) \<Rightarrow> Some (r, res, k + 1)
      | Some (Again r history trimmed retries) \<Rightarrow> compact_loop env (k + 1) r history trimmed retries)"
  by pat_completeness auto

termination
proof (relation "measures [\<lambda>(env, k, r, history, trimmed, retries). length (ctx_items history),
    \<lambda>(env, k, r, history, trimmed, retries). env_max_retries env - retries]")
  fix env k r history trimmed retries and next_step :: loop_next and r' history' trimmed' retries'
  assume "compact_attempt env k r history trimmed retries = Some next_step"
    and "next_step = Again r' history' trimmed' retries'"
  then show "((env, k + 1, r', history', trimmed', retries'), (env, k, r, history, trimmed, retries))
    \<in> measures [\<lambda>(env, k, r, history, trimmed, retries). length (ctx_items history),
       \<lambda>(env, k, r, history, trimmed, retries). env_max_retries env - retries]"
    using attempt_again [of env k r history trimmed retries r' history' trimmed' retries'] by auto
qed simp

declare compact_loop.simps [simp del]

definition run_compact_task_inner ::
  "compact_env \<Rightarrow> (ustr \<Rightarrow> nat option \<Rightarrow> message_content list) \<Rightarrow> user_input list \<Rightarrow> session_run
    \<Rightarrow> (session_run \<times> (codex_err + unit)) option" where
  "run_compact_task_inner env local_items inputs r =
     (let r = send_event CompactionStarted r
      in Option.bind (extract_trailing_model_switch (session_history (run_session r))) (\<lambda>(history, stripped).
         Option.bind (record_items history [input_message local_items inputs] (env_policy env)) (\<lambda>history.
         let r = persist_rollout (RolloutTurnContext (env_model env)) r
         in Option.bind (compact_loop env 0 r history 0 0) (\<lambda>(r, res, attempts).
            case res of
              Inl e \<Rightarrow> Some (r, Inl e)
            | Inr _ \<Rightarrow>
                let items = ctx_items (session_history (run_session r));
                    summary_suffix = (case last_assistant_message items of Some t \<Rightarrow> t | None \<Rightarrow> []);
                    summary = summary_prefix @ newline @ summary_suffix
                in Option.bind
                     (build_compacted_history (env_initial_context env) (collect_user_messages items) summary)
                     (\<lambda>new_history.
                       let new_history = new_history @ (case stripped of Some i \<Rightarrow> [i] | None \<Rightarrow> []) @
                             filter is_ghost items;
                           r = set_session (session_replace_history (run_session r) new_history) r;
                           r = recompute_token_usage env r;
                           r = persist_rollout (RolloutCompacted summary None) r
                       in Some (send_event LongThreadWarning (send_event CompactionCompleted r), Inr ()))))))"

section \<open>Compaction by the service\<close>

lemma remove_last_item_shorter:
  "remove_last_item cm = Some (cm', True) \<Longrightarrow> length (ctx_items cm') < length (ctx_items cm)"
proof -
  assume removed: "remove_last_item cm = Some (cm', True)"
  then have ne: "ctx_items cm \<noteq> []"
    by (auto simp: remove_last_item_def split: if_splits)
  with removed obtain out where out: "remove_corresponding_for (butlast (ctx_items cm)) (last (ctx_items cm)) = Some out"
    and cm': "cm' = cm\<lparr>ctx_items := out\<rparr>"
    by (auto simp: remove_last_item_def)
  have "length out \<le> length (butlast (ctx_items cm))"
    using remove_corresponding_length [OF out] .
  moreover have "length (butlast (ctx_items cm)) < length (ctx_items cm)"
    using ne by simp
  ultimately show ?thesis
    using cm' by simp
qed

function trim_to_window ::
  "(response_item \<Rightarrow> nat option) \<Rightarrow> ustr \<Rightarrow> int \<Rightarrow> context_manager \<Rightarrow> nat \<Rightarrow> (context_manager \<times> nat) option" where
  "trim_to_window json_len instructions window cm deleted =
     (if estimate_token_count json_len cm instructions \<le> window then Some (cm, deleted)
      else if ctx_items cm = [] then Some (cm, deleted)
      else if \<not> is_codex_generated_item (last (ctx_items cm)) then Some (cm, deleted)
      else
        (case remove_last_item cm of
           None \<Rightarrow> None
         | Some (cm', removed) \<Rightarrow>
             if removed then trim_to_window json_len instructions window cm' (deleted + 1)
             else Some (cm', deleted)))"
  by pat_completeness auto

termination
  by (relation "measure (\<lambda>(json_len, instructions, window, cm, deleted). length (ctx_items cm))")
    (auto dest: remove_last_item_shorter)

declare trim_to_window.simps [simp del]

definition trim_function_call_history ::
  "compact_env \<Rightarrow> context_manager \<Rightarrow> ustr \<Rightarrow> (context_manager \<times> nat) option" where
  "trim_function_call_history env cm instructions =
     (case env_window env of
        None \<Rightarrow> Some (cm, 0)
      | Some window \<Rightarrow> trim_to_window (env_json_len env) instructions window cm 0)"

definition failing_request_bytes :: "(response_item \<Rightarrow> nat option) \<Rightarrow> response_item list \<Rightarrow> ustr \<Rightarrow> int" where
  "failing_request_bytes json_len input instructions =
     foldl (\<lambda>acc item. i64_sat_add acc (model_visible_bytes json_len item)) (i64_of_usize (byte_len instructions)) input"

text \<open>The service is given the prompt and answers with a new history; the log line of a failure is
  left out.\<close>

definition remote_compact_inner ::
  "compact_env \<Rightarrow> (response_item list \<Rightarrow> codex_err + response_item list) \<Rightarrow> session_run
    \<Rightarrow> (session_run \<times> (codex_err + unit)) option" where
  "remote_compact_inner env compact_request r =
     (let r = send_event CompactionStarted r
      in Option.bind (extract_trailing_model_switch (session_history (run_session r))) (\<lambda>(history, stripped).
         Option.bind (trim_function_call_history env history (base_instructions (run_session r))) (\<lambda>(history, deleted).
         let ghosts = filter is_ghost (ctx_items history)
         in Option.bind (for_prompt (env_debug env) (env_modalities env) history) (\<lambda>prompt.
            case compact_request prompt of
              Inl e \<Rightarrow> Some (r, Inl e)
            | Inr compacted \<Rightarrow>
                let new_history = process_compacted_history compacted (env_initial_context env) @
                      (case stripped of Some i \<Rightarrow> [i] | None \<Rightarrow> []) @ ghosts;
                    r = set_session (session_replace_history (run_session r) new_history) r;
                    r = recompute_token_usage env r;
                    r = persist_rollout (RolloutCompacted [] (Some new_history)) r
                in Some (send_event CompactionCompleted r, Inr ())))))"

definition run_remote_compact ::
  "compact_env \<Rightarrow> (response_item list \<Rightarrow> codex_err + response_item list) \<Rightarrow> session_run
    \<Rightarrow> (session_run \<times> (codex_err + unit)) option" where
  "run_remote_compact env compact_request r =
     map_option (\<lambda>(r, res). case res of Inl e \<Rightarrow> (send_event (ErrorEvent e) r, Inl e) | Inr _ \<Rightarrow> (r, res))
       (remote_compact_inner env compact_request r)"

section \<open>Compaction ends\<close>

lemma remove_corresponding_total: "\<exists>out. remove_corresponding_for items item = Some out"
proof -
  have first: "\<exists>out. remove_first_matching p items = Some out" for p
    by (cases rule: remove_first_matching_cases [where p = p and items = items]) auto
  show ?thesis
    by (cases "(items, item)" rule: remove_corresponding_for.cases)
      (auto simp del: remove_corresponding_for.simps(2) simp: remove_function_call first)
qed

lemma remove_first_item_total: "\<exists>cm'. remove_first_item cm = Some cm'"
  using remove_corresponding_total by (auto simp: remove_first_item_def split: list.splits)

lemma for_prompt_total: "\<exists>prompt. for_prompt False modalities cm = Some prompt"
  by (simp add: for_prompt_def normalize_history_spec Let_def)

text \<open>What a stream can do to the session: append recorded items to the history.\<close>

definition grows :: "session_run \<Rightarrow> session_run \<Rightarrow> bool" where
  "grows r r' \<longleftrightarrow> (\<exists>more_items.
     ctx_items (session_history (run_session r')) = ctx_items (session_history (run_session r)) @ more_items) \<and>
     run_rollout r' = run_rollout r"

lemma grows_refl [simp]: "grows r r"
  by (simp add: grows_def)

lemma grows_trans: "grows a b \<Longrightarrow> grows b c \<Longrightarrow> grows a c"
  by (auto simp: grows_def)

lemma grows_event [simp]:
  "grows r (send_event e r') \<longleftrightarrow> grows r r'" "grows (send_event e r) r' \<longleftrightarrow> grows r r'"
  by (simp_all add: grows_def send_event_def)

lemma grows_tokens [simp]:
  "grows r (set_total_tokens_full env r') \<longleftrightarrow> grows r r'"
  "grows r (update_token_usage_info env usage r') \<longleftrightarrow> grows r r'"
  by (auto simp: grows_def send_event_def set_total_tokens_full_def update_token_usage_info_def set_session_def
      session_set_token_usage_full_def set_token_usage_full_def update_token_info_from_usage_def update_token_info_def
      split: option.splits)

lemma drain_events_total: "\<exists>r' res. drain_events env events r = Some (r', res) \<and> grows r r'"
proof (induction env events r rule: drain_events.induct)
  case (2 env item events r)
  obtain out where out: "record_items (session_history (run_session r)) [item] (env_policy env) =
      Some ((session_history (run_session r))\<lparr>ctx_items := ctx_items (session_history (run_session r)) @ out\<rparr>)"
    using record_items_spec by blast
  let ?s = "(run_session r)\<lparr>session_history := (session_history (run_session r))\<lparr>ctx_items := ctx_items (session_history (run_session r)) @ out\<rparr>\<rparr>"
  have s: "session_record_items (run_session r) [item] (env_policy env) = Some ?s"
    by (simp add: session_record_items_def out del: record_items.simps)
  have "grows r (set_session ?s r)"
    by (simp add: grows_def set_session_def)
  with 2 [of ?s] s show ?case
    by (auto intro: grows_trans)
next
  case (3 env b events r)
  have "grows r (set_session ((run_session r)\<lparr>reasoning_included := b\<rparr>) r)"
    by (simp add: grows_def set_session_def)
  with 3 show ?case
    by (auto intro: grows_trans)
next
  case (4 env snapshot events r)
  have "grows r (send_event TokenCountEvent (set_session (set_rate_limits (run_session r) snapshot) r))"
    by (simp add: grows_def set_session_def set_rate_limits_def send_event_def)
  with 4 show ?case
    by (auto intro: grows_trans)
qed auto

lemma drain_total: "\<exists>r' res. drain_to_completed env k prompt r = Some (r', res) \<and> grows r r'"
  using drain_events_total by (auto simp: drain_to_completed_def split: sum.splits)

lemma attempt_total:
  assumes "\<not> env_debug env"
  shows "\<exists>next_step. compact_attempt env k r history trimmed retries = Some next_step \<and>
    (case next_step of Stop r' res \<Rightarrow> grows r r' | Again r' history' trimmed' retries' \<Rightarrow> grows r r')"
proof -
  obtain prompt where prompt: "for_prompt (env_debug env) (env_modalities env) history = Some prompt"
    using for_prompt_total assms by auto
  obtain r1 res where "drain_to_completed env k prompt r = Some (r1, res)" and "grows r r1"
    using drain_total by blast
  moreover obtain history' where "remove_first_item history = Some history'"
    using remove_first_item_total by blast
  ultimately show ?thesis
    using prompt by (auto simp: compact_attempt_def split: sum.splits)
qed

text \<open>How many attempts are left.\<close>

definition attempts_left :: "compact_env \<Rightarrow> context_manager \<Rightarrow> nat \<Rightarrow> nat" where
  "attempts_left env history retries =
     length (ctx_items history) * (env_max_retries env + 1) + (env_max_retries env - retries) + 1"

lemma attempts_left_again:
  assumes "compact_attempt env k r history trimmed retries = Some (Again r' history' trimmed' retries')"
  shows "attempts_left env history' retries' < attempts_left env history retries"
  using attempt_again [OF assms]
proof (elim disjE conjE)
  assume "length (ctx_items history') < length (ctx_items history)" and "retries' = 0"
  then have "(length (ctx_items history') + 1) * (env_max_retries env + 1) \<le> length (ctx_items history) * (env_max_retries env + 1)"
    by (intro mult_le_mono1) simp
  with \<open>retries' = 0\<close> show ?thesis
    by (simp add: attempts_left_def)
qed (simp add: attempts_left_def)

lemma compact_loop_ends:
  assumes "\<not> env_debug env"
  shows "\<exists>r' res n. compact_loop env k r history trimmed retries = Some (r', res, n) \<and>
    n \<le> k + attempts_left env history retries \<and> grows r r'"
  using assms
proof (induction env k r history trimmed retries rule: compact_loop.induct)
  case (1 env k r history trimmed retries)
  obtain next_step where step: "compact_attempt env k r history trimmed retries = Some next_step"
    and grows: "case next_step of Stop r' res \<Rightarrow> grows r r' | Again r' history' trimmed' retries' \<Rightarrow> grows r r'"
    using attempt_total "1.prems" by blast
  show ?case
  proof (cases next_step)
    case (Stop r' res)
    with step grows show ?thesis
      by (simp add: compact_loop.simps attempts_left_def)
  next
    case (Again r' history' trimmed' retries')
    from "1.IH" [OF step Again "1.prems"] obtain r'' res n where
      "compact_loop env (k + 1) r' history' trimmed' retries' = Some (r'', res, n)"
      "n \<le> k + 1 + attempts_left env history' retries'" "grows r' r''"
      by blast
    with attempts_left_again [of env k r history trimmed retries r' history' trimmed' retries'] step grows Again show ?thesis
      by (subst compact_loop.simps) (auto intro: grows_trans)
  qed
qed


section \<open>What compaction keeps\<close>

lemma nth_opt_nth: "nth_opt xs i = (if i < length xs then Some (xs ! i) else None)"
  by (induction xs arbitrary: i) (auto simp: nth_Cons')

lemma extract_trailing_total:
  "\<exists>cm' stripped. extract_trailing_model_switch cm = Some (cm', stripped) \<and>
     (stripped = None \<longrightarrow> cm' = cm) \<and>
     (\<forall>i. stripped = Some i \<longrightarrow> is_model_switch_message i \<and> i \<in> set (ctx_items cm))"
proof -
  let ?items = "ctx_items cm"
  let ?p = "\<lambda>(i, item). if (case rposition is_user_turn_boundary ?items of None \<Rightarrow> True | Some b \<Rightarrow> b < i) \<and>
      is_model_switch_message item then Some i else None"
  show ?thesis
  proof (cases "find_map ?p (rev (zip [0..<length ?items] ?items))")
    case (Some i)
    then obtain j item where "(j, item) \<in> set (zip [0..<length ?items] ?items)" "?p (j, item) = Some i"
      using find_map_SomeD [OF Some] by auto
    then have i: "i < length ?items" "?items ! i = item" "is_model_switch_message item"
      by (auto simp: set_zip split: if_splits)
    moreover have "nth_opt ?items i = Some (?items ! i)"
      using i(1) by (simp add: nth_opt_nth)
    ultimately show ?thesis
      using Some by (auto simp: extract_trailing_model_switch_def vec_remove_def Let_def)
  qed (simp add: extract_trailing_model_switch_def Let_def)
qed

lemma select_messages_spec:
  "\<exists>kept cut older. select_messages messages remaining selected = Some (selected @ kept @ cut) \<and>
     messages = kept @ older \<and> sum_list (map approx_token_count kept) \<le> remaining \<and>
     (let left = remaining - sum_list (map approx_token_count kept)
      in if older = [] \<or> left = 0 then cut = []
         else left < approx_token_count (hd older) \<and>
           map Some cut = [truncate_text (hd older) (Tokens left)])"
proof (induction messages arbitrary: remaining selected)
  case (Cons message messages)
  consider "remaining = 0" | "remaining \<noteq> 0" "approx_token_count message \<le> remaining"
    | "remaining \<noteq> 0" "remaining < approx_token_count message"
    by linarith
  then show ?case
  proof cases
    case 1
    then show ?thesis
      by (intro exI [of _ "[]"] exI [of _ "message # messages"]) simp
  next
    case 2
    let ?left = "remaining - approx_token_count message"
    from Cons.IH [of ?left "selected @ [message]"] obtain kept cut older where
      "select_messages messages ?left (selected @ [message]) = Some ((selected @ [message]) @ kept @ cut)"
      "messages = kept @ older" "sum_list (map approx_token_count kept) \<le> ?left"
      "let left = ?left - sum_list (map approx_token_count kept)
        in if older = [] \<or> left = 0 then cut = []
           else left < approx_token_count (hd older) \<and> map Some cut = [truncate_text (hd older) (Tokens left)]"
      by blast
    with 2 show ?thesis
      by (intro exI [of _ "message # kept"] exI [of _ cut] exI [of _ older]) (auto simp: Let_def diff_diff_add)
  next
    case 3
    obtain t where "truncate_text message (Tokens remaining) = Some t"
      using truncate_text_total by blast
    with 3 show ?thesis
      by (intro exI [of _ "[]"] exI [of _ "[t]"] exI [of _ "message # messages"]) (simp add: Let_def)
  qed
qed (simp add: Let_def)

text \<open>The compacted history holds the newest user messages that fit. Building it never fails; it
  is the initial context, the selected user messages in their order, and the summary. The messages
  selected whole are the last ones and together within the budget of tokens; if an older message
  is left and some budget remains, the newest of the older ones does not fit in it and stands in
  front, truncated to the budget that remains.\<close>
theorem compacted_history_keeps_newest:
  "\<exists>older cut kept.
     build_compacted_history_with_limit initial_context user_messages summary max_tokens =
       Some (initial_context @ map user_message (cut @ kept) @
         [user_message (if summary = [] then lit ''(no summary available)'' else summary)]) \<and>
     user_messages = older @ kept \<and> sum_list (map approx_token_count kept) \<le> max_tokens \<and>
     (let left = max_tokens - sum_list (map approx_token_count kept)
      in if older = [] \<or> left = 0 then cut = []
         else left < approx_token_count (last older) \<and> map Some cut = [truncate_text (last older) (Tokens left)])"
proof -
  from select_messages_spec [of "rev user_messages" max_tokens "[]"] obtain kept cut older where
    sel: "select_messages (rev user_messages) max_tokens [] = Some (kept @ cut)" "rev user_messages = kept @ older"
      "sum_list (map approx_token_count kept) \<le> max_tokens"
    and left: "let left = max_tokens - sum_list (map approx_token_count kept)
        in if older = [] \<or> left = 0 then cut = []
           else left < approx_token_count (hd older) \<and> map Some cut = [truncate_text (hd older) (Tokens left)]"
    by auto
  have cut: "rev cut = cut"
    using left by (cases cut) (auto simp: Let_def split: if_splits)
  have messages: "user_messages = rev older @ rev kept"
    using sel(2) by (metis rev_append rev_rev_ident)
  have sum: "sum_list (map approx_token_count (rev kept)) = sum_list (map approx_token_count kept)"
    by (simp flip: rev_map)
  show ?thesis
  proof (cases "max_tokens > 0")
    case True
    show ?thesis
      using True sel left cut messages sum
      by (intro exI [of _ "rev older"] exI [of _ cut] exI [of _ "rev kept"])
        (simp add: build_compacted_history_with_limit_def Let_def last_rev)
  next
    case False
    then show ?thesis
      by (intro exI [of _ user_messages] exI [of _ "[]"] exI [of _ "[]"])
        (simp add: build_compacted_history_with_limit_def)
  qed
qed

abbreviation run_items :: "session_run \<Rightarrow> response_item list" where
  "run_items r \<equiv> ctx_items (session_history (run_session r))"

lemma run_simps [simp]:
  "run_items (send_event e r) = run_items r" "run_rollout (send_event e r) = run_rollout r"
  "run_items (persist_rollout item r) = run_items r" "run_rollout (persist_rollout item r) = run_rollout r @ [item]"
  "run_items (recompute_token_usage env r) = run_items r" "run_rollout (recompute_token_usage env r) = run_rollout r"
  "run_items (set_session (session_replace_history s items) r) = items" "run_rollout (set_session s r) = run_rollout r"
  by (simp_all add: send_event_def persist_rollout_def recompute_token_usage_def set_session_def Let_def
      session_replace_history_def replace_items_def session_set_token_info_def set_token_info_def)

lemma build_compacted_shape:
  "summary \<noteq> [] \<Longrightarrow> \<exists>msgs. build_compacted_history initial_context user_messages summary =
     Some (initial_context @ map user_message msgs @ [user_message summary])"
proof -
  assume ne: "summary \<noteq> []"
  obtain sel where sel: "select_messages (rev user_messages) compact_user_message_max_tokens [] = Some sel"
    using select_messages_spec [of "rev user_messages" compact_user_message_max_tokens "[]"] by blast
  then have "build_compacted_history initial_context user_messages summary =
      Some (initial_context @ map user_message (rev sel) @ [user_message summary])"
    using ne by (simp add: build_compacted_history_def build_compacted_history_with_limit_def
        compact_user_message_max_tokens_def)
  then show ?thesis by blast
qed


section \<open>Compaction by the service\<close>

lemma remove_last_item_total:
  "\<exists>cm'. remove_last_item cm = Some (cm', ctx_items cm \<noteq> [])"
  using remove_corresponding_total [of "butlast (ctx_items cm)" "last (ctx_items cm)"]
  by (auto simp: remove_last_item_def)

text \<open>Trimming ends with a history that fits, or that does not end with an item the program wrote.\<close>

lemma trim_to_window_spec:
  "\<exists>cm' n. trim_to_window json_len instructions window cm deleted = Some (cm', deleted + n) \<and>
     length (ctx_items cm') + n \<le> length (ctx_items cm) \<and>
     (estimate_token_count json_len cm' instructions \<le> window \<or> ctx_items cm' = [] \<or>
      \<not> is_codex_generated_item (last (ctx_items cm')))"
proof (induction json_len instructions window cm deleted rule: trim_to_window.induct)
  case (1 json_len instructions window cm deleted)
  show ?case
  proof (cases "estimate_token_count json_len cm instructions \<le> window \<or> ctx_items cm = [] \<or>
      \<not> is_codex_generated_item (last (ctx_items cm))")
    case True
    then show ?thesis
      by (subst trim_to_window.simps) (auto intro!: exI [of _ cm] exI [of _ 0])
  next
    case False
    obtain cm' where removed: "remove_last_item cm = Some (cm', True)"
      using remove_last_item_total [of cm] False by auto
    with "1.IH" False obtain cm'' n where
      "trim_to_window json_len instructions window cm' (deleted + 1) = Some (cm'', deleted + 1 + n)"
      "length (ctx_items cm'') + n \<le> length (ctx_items cm')"
      "estimate_token_count json_len cm'' instructions \<le> window \<or> ctx_items cm'' = [] \<or>
       \<not> is_codex_generated_item (last (ctx_items cm''))"
      by blast
    with removed False remove_last_item_shorter [OF removed] show ?thesis
      by (subst trim_to_window.simps) (auto intro!: exI [of _ cm''] exI [of _ "n + 1"])
  qed
qed

text \<open>The history that the service answers with: its developer messages and the user messages that
  the program wrote are dropped, and the current initial context stands before the last message of
  the user, or at the end.\<close>

lemma rposition_SomeD:
  assumes "rposition p xs = Some i"
  shows "i < length xs \<and> p (xs ! i) \<and> (\<forall>j. i < j \<and> j < length xs \<longrightarrow> \<not> p (xs ! j))"
proof -
  obtain k where k: "position p (rev xs) = Some k" and i: "i = length xs - 1 - k"
    using assms by (auto simp: rposition_def)
  have "k < length xs" "p (rev xs ! k)" "\<forall>j < k. \<not> p (rev xs ! j)"
    using position_SomeD [OF k] by auto
  moreover have "\<not> p (xs ! j)" if "i < j" "j < length xs" for j
  proof -
    have "length xs - 1 - j < k" "rev xs ! (length xs - 1 - j) = xs ! j"
      using that i \<open>k < length xs\<close> by (auto simp: rev_nth)
    with \<open>\<forall>j < k. \<not> p (rev xs ! j)\<close> show ?thesis by metis
  qed
  ultimately show ?thesis
    using i by (auto simp: rev_nth)
qed

lemma rposition_None: "rposition p xs = None \<longleftrightarrow> (\<forall>x \<in> set xs. \<not> p x)"
  by (simp add: rposition_def position_None_iff)

theorem service_history_gets_current_context:
  "\<exists>before after. process_compacted_history compacted context_items = before @ context_items @ after \<and>
     before @ after = filter should_keep_compacted compacted \<and>
     (if list_ex is_user_message_item (before @ after)
      then after \<noteq> [] \<and> is_user_message_item (hd after) \<and> \<not> list_ex is_user_message_item (tl after)
      else after = [])"
proof (cases "rposition is_user_message_item (filter should_keep_compacted compacted)")
  case None
  then have "\<not> list_ex is_user_message_item (filter should_keep_compacted compacted)"
    unfolding rposition_None list_ex_iff by blast
  with None show ?thesis
    by - (rule exI [of _ "filter should_keep_compacted compacted"], rule exI [of _ "[]"],
      simp add: process_compacted_history_def Let_def del: is_user_message_item.simps)
next
  case (Some i)
  let ?items = "filter should_keep_compacted compacted"
  have i: "i < length ?items" "is_user_message_item (?items ! i)"
    "\<forall>j. i < j \<and> j < length ?items \<longrightarrow> \<not> is_user_message_item (?items ! j)"
    using rposition_SomeD [OF Some] by auto
  have "\<not> list_ex is_user_message_item (tl (drop i ?items))"
  proof -
    have "tl (drop i ?items) = drop (Suc i) ?items"
      by (simp add: drop_Suc tl_drop)
    moreover have "\<not> is_user_message_item x" if x: "x \<in> set (drop (Suc i) ?items)" for x
    proof -
      obtain j where "j < length ?items - Suc i" "x = ?items ! (Suc i + j)"
        using x unfolding in_set_conv_nth by auto
      then show ?thesis
        using i(3) by (simp del: is_user_message_item.simps)
    qed
    ultimately show ?thesis
      by (auto simp: list_ex_iff simp del: is_user_message_item.simps)
  qed
  moreover have "list_ex is_user_message_item ?items"
    using i(1,2) nth_mem [OF i(1)] unfolding list_ex_iff by blast
  ultimately show ?thesis
    using Some i(1,2)
    by - (rule exI [of _ "take i ?items"], rule exI [of _ "drop i ?items"],
      simp add: process_compacted_history_def Let_def hd_drop_conv_nth del: is_user_message_item.simps)
qed

end
