(* ===== verification/Rollout.thy ===== *)
theory Rollout
  imports Compaction
begin

text \<open>
  Writing the conversation to the rollout and reading it back: the functions of \<open>core/src/codex.rs\<close>
  that record items, roll a thread back and resume it, and \<open>core/src/rollout/policy.rs\<close>. Reading a
  tool's JSON answer is an argument.
\<close>

section \<open>What is written\<close>

fun should_persist_response_item :: "response_item \<Rightarrow> bool" where
  "should_persist_response_item OtherItem \<longleftrightarrow> False"
| "should_persist_response_item _ \<longleftrightarrow> True"

fun should_persist_for_memories :: "response_item \<Rightarrow> bool" where
  "should_persist_for_memories (Message _ role _ _ _) \<longleftrightarrow> role \<noteq> lit ''developer''"
| "should_persist_for_memories (Reasoning _ _ _ _) \<longleftrightarrow> False"
| "should_persist_for_memories (GhostSnapshot _) \<longleftrightarrow> False"
| "should_persist_for_memories (CompactionItem _) \<longleftrightarrow> False"
| "should_persist_for_memories OtherItem \<longleftrightarrow> False"
| "should_persist_for_memories _ \<longleftrightarrow> True"

definition record_into_history ::
  "compact_env \<Rightarrow> response_item list \<Rightarrow> session_run \<Rightarrow> session_run option" where
  "record_into_history env items r =
     map_option (\<lambda>s. set_session s r) (session_record_items (run_session r) items (env_policy env))"

definition persist_response_items :: "response_item list \<Rightarrow> session_run \<Rightarrow> session_run" where
  "persist_response_items items r =
     r\<lparr>run_rollout := run_rollout r @ map RolloutResponse (filter should_persist_response_item items)\<rparr>"

definition record_conversation_items ::
  "compact_env \<Rightarrow> response_item list \<Rightarrow> session_run \<Rightarrow> session_run option" where
  "record_conversation_items env items r =
     map_option (persist_response_items items) (record_into_history env items r)"

section \<open>Rolling back\<close>

definition session_set_previous_model :: "session_state \<Rightarrow> ustr option \<Rightarrow> session_state" where
  "session_set_previous_model s model = s\<lparr>previous_model := model\<rparr>"

definition thread_rollback :: "compact_env \<Rightarrow> bool \<Rightarrow> 32 word \<Rightarrow> session_run \<Rightarrow> ustr + session_run" where
  "thread_rollback env has_active_turn num_turns r =
     (if num_turns = 0 then Inl (lit ''num_turns must be >= 1'')
      else if has_active_turn then Inl (lit ''Cannot rollback while a turn is in progress.'')
      else
        let r = set_session (session_set_previous_model (run_session r) (Some (env_model env))) r;
            history = drop_last_n_user_turns (session_history (run_session r)) num_turns;
            r = set_session (session_replace_history (run_session r) (ctx_items history)) r;
            r = recompute_token_usage env r
        in Inr (persist_rollout (RolloutRolledBack num_turns) r))"

section \<open>Resuming\<close>

fun replay_item :: "compact_env \<Rightarrow> context_manager \<Rightarrow> rollout_item \<Rightarrow> context_manager option" where
  "replay_item env cm (RolloutResponse item) = record_items cm [item] (env_policy env)"
| "replay_item env cm (RolloutCompacted message replacement) =
     (case replacement of
        Some items \<Rightarrow> Some (replace_items cm items)
      | None \<Rightarrow>
          map_option (replace_items cm)
            (build_compacted_history (env_initial_context env) (collect_user_messages (ctx_items cm)) message))"
| "replay_item env cm (RolloutRolledBack n) = Some (drop_last_n_user_turns cm n)"
| "replay_item env cm _ = Some cm"

fun replay :: "compact_env \<Rightarrow> context_manager \<Rightarrow> rollout_item list \<Rightarrow> context_manager option" where
  "replay env cm [] = Some cm"
| "replay env cm (item # items) = Option.bind (replay_item env cm item) (\<lambda>cm. replay env cm items)"

definition reconstruct_history :: "compact_env \<Rightarrow> rollout_item list \<Rightarrow> response_item list option" where
  "reconstruct_history env items = map_option ctx_items (replay env context_new items)"

definition last_rollout_model :: "rollout_item list \<Rightarrow> ustr option" where
  "last_rollout_model items =
     find_map (\<lambda>item. case item of RolloutTurnContext m \<Rightarrow> Some m | _ \<Rightarrow> None) (rev items)"

definition last_token_info :: "rollout_item list \<Rightarrow> token_usage_info option" where
  "last_token_info items =
     find_map (\<lambda>item. case item of RolloutTokenCount info \<Rightarrow> info | _ \<Rightarrow> None) (rev items)"

text \<open>The tools that the last readable answer of a tool search selected; \<open>read_tools\<close> reads the JSON.\<close>

fun selected_tools ::
  "(ustr \<Rightarrow> ustr list option) \<Rightarrow> ustr \<Rightarrow> ustr set \<Rightarrow> ustr list option \<Rightarrow> rollout_item list \<Rightarrow> ustr list option" where
  "selected_tools read_tools search_tool ids active [] = active"
| "selected_tools read_tools search_tool ids active (RolloutResponse (FunctionCall _ name _ call_id) # items) =
     selected_tools read_tools search_tool (if name = search_tool then insert call_id ids else ids) active items"
| "selected_tools read_tools search_tool ids active (RolloutResponse (FunctionCallOutput call_id payload) # items) =
     selected_tools read_tools search_tool ids
       (if call_id \<notin> ids then active
        else case Option.bind (fco_body_to_text (fco_body payload)) read_tools of
          Some tools \<Rightarrow> Some tools | None \<Rightarrow> active) items"
| "selected_tools read_tools search_tool ids active (_ # items) =
     selected_tools read_tools search_tool ids active items"

definition clear_selected_tools :: "session_run \<Rightarrow> session_run" where
  "clear_selected_tools r = set_session (clear_mcp_tool_selection (run_session r)) r"

definition record_new_history :: "compact_env \<Rightarrow> session_run \<Rightarrow> session_run option" where
  "record_new_history env r =
     map_option
       (\<lambda>r. set_session (session_set_previous_model ((run_session r)\<lparr>context_seeded := True\<rparr>) None) r)
       (record_conversation_items env (env_initial_context env) (clear_selected_tools r))"

text \<open>What resuming and forking have in common: the history, the token counts and the selected tools
  of the rollout.\<close>

definition restore_history ::
  "compact_env \<Rightarrow> (ustr \<Rightarrow> ustr list option) \<Rightarrow> ustr \<Rightarrow> rollout_item list \<Rightarrow> session_run \<Rightarrow> session_run option" where
  "restore_history env read_tools search_tool items r =
     Option.bind (reconstruct_history env items) (\<lambda>history.
     Option.bind (if history = [] then Some r else record_into_history env history r) (\<lambda>r.
     let s = run_session r;
         s = (case last_token_info items of Some info \<Rightarrow> session_set_token_info s (Some info) | None \<Rightarrow> s);
         s = (case selected_tools read_tools search_tool {} None items of
                Some tools \<Rightarrow> set_mcp_tool_selection s tools | None \<Rightarrow> s)
     in Some (set_session s r)))"

definition resume_session ::
  "compact_env \<Rightarrow> (ustr \<Rightarrow> ustr list option) \<Rightarrow> ustr \<Rightarrow> rollout_item list \<Rightarrow> session_run \<Rightarrow> session_run option" where
  "resume_session env read_tools search_tool items r =
     (let r = clear_selected_tools r;
          s = (run_session r)\<lparr>context_seeded := False\<rparr>;
          r = set_session (session_set_previous_model s (last_rollout_model items)) r;
          r = (case last_rollout_model items of
                 Some prev \<Rightarrow>
                   if prev \<noteq> env_model env then send_event (OtherModelWarning prev (env_model env)) r else r
               | None \<Rightarrow> r)
      in restore_history env read_tools search_tool items r)"

fun is_persisted :: "rollout_item \<Rightarrow> bool" where
  "is_persisted (RolloutResponse item) \<longleftrightarrow> should_persist_response_item item"
| "is_persisted _ \<longleftrightarrow> True"

text \<open>A fork writes the items that it was given; those read from a rollout were persisted before.\<close>

definition fork_session ::
  "compact_env \<Rightarrow> (ustr \<Rightarrow> ustr list option) \<Rightarrow> ustr \<Rightarrow> rollout_item list \<Rightarrow> session_run \<Rightarrow> session_run option" where
  "fork_session env read_tools search_tool items r =
     (let r = clear_selected_tools r;
          r = set_session (session_set_previous_model (run_session r) (last_rollout_model items)) r
      in Option.bind (restore_history env read_tools search_tool items r) (\<lambda>r.
         let r = r\<lparr>run_rollout := run_rollout r @ filter is_persisted items\<rparr>
         in map_option (\<lambda>r. set_session ((run_session r)\<lparr>context_seeded := True\<rparr>) r)
              (record_conversation_items env (env_initial_context env) r)))"

definition record_model_warning :: "compact_env \<Rightarrow> ustr \<Rightarrow> session_run \<Rightarrow> session_run option" where
  "record_model_warning env message r =
     record_conversation_items env [user_message (lit ''Warning: '' @ message)] r"

definition seed_initial_context :: "compact_env \<Rightarrow> session_run \<Rightarrow> session_run option" where
  "seed_initial_context env r =
     (if context_seeded (run_session r) then Some r
      else record_conversation_items env (env_initial_context env)
             (set_session ((run_session r)\<lparr>context_seeded := True\<rparr>) r))"

section \<open>Reading back what was written\<close>

lemma replay_append: "replay env cm (a @ b) = Option.bind (replay env cm a) (\<lambda>cm. replay env cm b)"
proof (induction a arbitrary: cm)
  case (Cons item a)
  then show ?case
    by (cases "replay_item env cm item") auto
qed simp

lemma not_persisted: "\<not> should_persist_response_item item \<Longrightarrow> \<not> is_api_message item \<and> \<not> is_ghost item"
  by (cases item) auto

lemma replay_responses:
  "replay env cm (map RolloutResponse (filter should_persist_response_item items)) = record_items cm items (env_policy env)"
proof (induction items arbitrary: cm)
  case (Cons item items)
  show ?case
  proof (cases "should_persist_response_item item")
    case True
    then show ?thesis
      using Cons record_items_append [of cm "[item]" items "env_policy env"] by simp
  next
    case False
    with not_persisted [OF False] Cons show ?thesis by simp
  qed
qed simp

text \<open>Only the items of the history matter to the operations on them.\<close>

lemma record_items_cong:
  "ctx_items cm = ctx_items cm' \<Longrightarrow>
   map_option ctx_items (record_items cm items pol) = map_option ctx_items (record_items cm' items pol)"
proof (induction items arbitrary: cm cm')
  case (Cons item items)
  show ?case
  proof (cases "is_api_message item \<or> is_ghost item")
    case True
    obtain p where p: "process_item item pol = Some p"
      using process_item_total by blast
    have "ctx_items (cm\<lparr>ctx_items := ctx_items cm @ [p]\<rparr>) = ctx_items (cm'\<lparr>ctx_items := ctx_items cm' @ [p]\<rparr>)"
      using Cons.prems by simp
    from Cons.IH [OF this] True p show ?thesis by auto
  next
    case False
    with Cons.IH [OF Cons.prems] show ?thesis by simp
  qed
qed simp

lemma drop_turns_cong:
  "ctx_items cm = ctx_items cm' \<Longrightarrow> ctx_items (drop_last_n_user_turns cm n) = ctx_items (drop_last_n_user_turns cm' n)"
  by (cases "user_message_positions (ctx_items cm')")
    (simp_all add: drop_last_n_user_turns_def replace_items_def Let_def)

text \<open>The operations of a new session between two compactions by summary.\<close>

inductive session_reach :: "compact_env \<Rightarrow> session_run \<Rightarrow> bool" for env where
  start: "record_new_history env \<lparr>run_session = session_new instructions, run_events = [], run_rollout = []\<rparr> = Some r \<Longrightarrow>
    session_reach env r"
| deferred_start: "session_reach env \<lparr>run_session = session_new instructions, run_events = [], run_rollout = []\<rparr>"
| recorded: "session_reach env r \<Longrightarrow> record_conversation_items env items r = Some r' \<Longrightarrow> session_reach env r'"
| seeded: "session_reach env r \<Longrightarrow> seed_initial_context env r = Some r' \<Longrightarrow> session_reach env r'"
| rolled_back: "session_reach env r \<Longrightarrow> thread_rollback env active n r = Inr r' \<Longrightarrow> session_reach env r'"
| service_compacted:
    "session_reach env r \<Longrightarrow> run_remote_compact env request r = Some (r', res) \<Longrightarrow> session_reach env r'"

text \<open>The rollout replays the history: what a run keeps.\<close>

definition replayable :: "compact_env \<Rightarrow> session_run \<Rightarrow> bool" where
  "replayable env r \<longleftrightarrow> reconstruct_history env (run_rollout r) = Some (run_items r)"

lemma replayable_cong:
  "run_items r = run_items r' \<Longrightarrow> run_rollout r = run_rollout r' \<Longrightarrow> replayable env r \<longleftrightarrow> replayable env r'"
  by (simp add: replayable_def)

lemma recording_replayable:
  assumes "replayable env r" and "record_conversation_items env items r = Some r'"
  shows "replayable env r'"
proof -
  from assms(1) obtain cm where cm: "replay env context_new (run_rollout r) = Some cm" "ctx_items cm = run_items r"
    by (auto simp: replayable_def reconstruct_history_def)
  from assms(2) obtain cm' where rec: "record_items (session_history (run_session r)) items (env_policy env) = Some cm'"
    and r': "run_items r' = ctx_items cm'"
      "run_rollout r' = run_rollout r @ map RolloutResponse (filter should_persist_response_item items)"
    by (auto simp: record_conversation_items_def record_into_history_def session_record_items_def
        persist_response_items_def set_session_def)
  with record_items_cong [OF cm(2), of items "env_policy env"] cm(1) show ?thesis
    by (auto simp: replayable_def reconstruct_history_def replay_append replay_responses)
qed

lemma rollback_replayable:
  assumes "replayable env r" and "thread_rollback env active n r = Inr r'"
  shows "replayable env r'"
proof -
  from assms(1) obtain cm where cm: "replay env context_new (run_rollout r) = Some cm" "ctx_items cm = run_items r"
    by (auto simp: replayable_def reconstruct_history_def)
  from assms(2) have "run_items r' = ctx_items (drop_last_n_user_turns (session_history (run_session r)) n)"
      "run_rollout r' = run_rollout r @ [RolloutRolledBack n]"
    by (auto simp: thread_rollback_def Let_def set_session_def session_set_previous_model_def
        session_replace_history_def replace_items_def split: if_splits)
  then show ?thesis
    using cm drop_turns_cong [OF cm(2), of n] by (simp add: replayable_def reconstruct_history_def replay_append)
qed

lemma empty_replayable:
  "replayable env \<lparr>run_session = session_new instructions, run_events = [], run_rollout = []\<rparr>"
  by (simp add: replayable_def reconstruct_history_def session_new_def)

lemma new_history_replayable:
  assumes "replayable env r" and "record_new_history env r = Some r'"
  shows "replayable env r'"
proof -
  from assms(2) obtain r1 where
    r1: "record_conversation_items env (env_initial_context env) (clear_selected_tools r) = Some r1"
    and r': "run_items r' = run_items r1" "run_rollout r' = run_rollout r1"
    by (auto simp: record_new_history_def set_session_def session_set_previous_model_def)
  have "replayable env (clear_selected_tools r)"
    using assms(1) replayable_cong [of "clear_selected_tools r" r env]
    by (simp add: clear_selected_tools_def clear_mcp_tool_selection_def set_session_def)
  from recording_replayable [OF this r1] replayable_cong [OF r'] show ?thesis by simp
qed

definition replaced_or_same :: "session_run \<Rightarrow> session_run \<Rightarrow> bool" where
  "replaced_or_same r r' \<longleftrightarrow>
     (run_items r' = run_items r \<and> run_rollout r' = run_rollout r) \<or>
     (\<exists>new_history. run_items r' = new_history \<and> run_rollout r' = run_rollout r @ [RolloutCompacted [] (Some new_history)])"

lemma remote_compact_inner_effect:
  assumes "remote_compact_inner env request r = Some (r', res)"
  shows "replaced_or_same r r'"
proof -
  let ?r = "send_event CompactionStarted r"
  obtain history0 stripped where s1: "extract_trailing_model_switch (session_history (run_session ?r)) = Some (history0, stripped)"
    using extract_trailing_total by blast
  with assms obtain history deleted where
    s2: "trim_function_call_history env history0 (base_instructions (run_session ?r)) = Some (history, deleted)"
    by (cases "trim_function_call_history env history0 (base_instructions (run_session ?r))")
      (auto simp: remote_compact_inner_def)
  with assms s1 obtain prompt where s3: "for_prompt (env_debug env) (env_modalities env) history = Some prompt"
    by (cases "for_prompt (env_debug env) (env_modalities env) history") (auto simp: remote_compact_inner_def Let_def)
  note run = assms [unfolded remote_compact_inner_def Let_def s1 s2 s3 bind.bind_lunit prod.case]
  show ?thesis
  proof (cases "request prompt")
    case (Inl e)
    with run show ?thesis
      by (auto simp: replaced_or_same_def)
  next
    case (Inr compacted)
    with run show ?thesis
      by (auto simp: replaced_or_same_def)
  qed
qed

lemma remote_compact_effect:
  assumes "run_remote_compact env request r = Some (r', res)"
  shows "replaced_or_same r r'"
proof -
  from assms obtain r1 res1 where "remote_compact_inner env request r = Some (r1, res1)"
    and "run_items r' = run_items r1" "run_rollout r' = run_rollout r1"
    by (cases "remote_compact_inner env request r") (auto simp: run_remote_compact_def split: sum.splits)
  with remote_compact_inner_effect show ?thesis
    by (simp add: replaced_or_same_def)
qed

text \<open>C20: resuming reads back the history of the session. After the session started, and any sequence of recording
  items, seeding the initial context, rolling turns back and compactions by the service, replaying what the session wrote to the
  rollout, with the same turn settings, gives exactly the items of its history.\<close>
theorem rollout_replays_history:
  assumes "session_reach env r"
  shows "reconstruct_history env (run_rollout r) = Some (run_items r)"
proof -
  have "replayable env r"
    using assms
  proof induction
    case (start instructions r)
    then show ?case
      by (rule new_history_replayable [OF empty_replayable])
  next
    case (deferred_start instructions)
    show ?case by (rule empty_replayable)
  next
    case (recorded r items r')
    then show ?case
      by (blast intro: recording_replayable)
  next
    case (seeded r r')
    then show ?case
      using recording_replayable [of env "set_session ((run_session r)\<lparr>context_seeded := True\<rparr>) r"
          "env_initial_context env" r']
        replayable_cong [of "set_session ((run_session r)\<lparr>context_seeded := True\<rparr>) r" r env]
      by (simp add: seed_initial_context_def set_session_def split: if_splits)
  next
    case (rolled_back r active n r')
    then show ?case
      by (blast intro: rollback_replayable)
  next
    case (service_compacted r request r' res)
    then show ?case
      using remote_compact_effect [OF service_compacted(2)]
      by (auto simp: replaced_or_same_def replayable_def reconstruct_history_def replay_append replace_items_def)
  qed
  then show ?thesis
    by (simp add: replayable_def)
qed

text \<open>Settings to try the session on: a service that never answers.\<close>

definition quiet_env :: compact_env where
  "quiet_env =
     \<lparr>env_debug = False, env_max_retries = 0, env_model = [], env_window = None, env_modalities = [],
      env_policy = Bytes 10, env_initial_context = [], env_json_len = (\<lambda>_. None),
      env_stream = (\<lambda>_ _. Inl stream_closed)\<rparr>"

definition fresh_run :: session_run where
  "fresh_run = \<lparr>run_session = session_new [], run_events = [], run_rollout = []\<rparr>"

theorem rollout_replays_history_witness:
  "reconstruct_history quiet_env [RolloutResponse (user_message (lit ''hi''))] = Some [user_message (lit ''hi'')]"
proof -
  obtain r where r: "record_conversation_items quiet_env [user_message (lit ''hi'')] fresh_run = Some r"
    "run_items r = [user_message (lit ''hi'')]" "run_rollout r = [RolloutResponse (user_message (lit ''hi''))]"
    by (auto simp: record_conversation_items_def record_into_history_def session_record_items_def fresh_run_def
        session_new_def context_new_def persist_response_items_def set_session_def user_message_def)
  have "session_reach quiet_env r"
    using session_reach.deferred_start r(1) unfolding fresh_run_def by (rule session_reach.recorded)
  from rollout_replays_history [OF this] show ?thesis
    by (simp add: r)
qed

section \<open>Where resuming differs\<close>

text \<open>A compaction by summary keeps the snapshots of the history
  (\<open>filter is_ghost\<close> in \<open>compaction_replaces_or_keeps\<close>), but writes only the summary to the
  rollout: after replaying it no snapshot is left, so undoing is lost on resume.\<close>

lemma user_message_not_ghost [simp]: "\<not> is_ghost (user_message s)"
  by (simp add: user_message_def)

lemma summary_replay_loses_snapshots:
  assumes "list_all (\<lambda>i. \<not> is_ghost i) (env_initial_context env)"
    and "replay_item env cm (RolloutCompacted message None) = Some cm'"
  shows "list_all (\<lambda>i. \<not> is_ghost i) (ctx_items cm')"
  using assms by (auto simp: build_compacted_history_def build_compacted_history_with_limit_def Let_def
      bind_eq_Some_conv replace_items_def list_all_iff)

text \<open>The history that a resume reconstructs is recorded once more, so that outputs are truncated a
  second time: the marker of the first truncation is cut again, and the number of characters that
  it names changes.\<close>

definition shown_output :: "string \<Rightarrow> ustr" where
  "shown_output count = lit ''aaaaaa'' @ [8230] @ lit count @ lit '' chars truncated'' @ [8230] @ lit ''aaaaaa''"

lemma scaled_budget: "policy_mul (Bytes 10) f64_1_2 = Bytes 12"
  by (simp add: scale_budget_def f64_1_2_def round_f64_def bit_length.simps usize_max_def Let_def)

text \<open>Cutting to a budget of 12 bytes, when what is kept at both ends is known.\<close>

lemma truncate_to_12:
  assumes "s = p @ m @ q" and "kept_prefix 6 s = p" and "kept_suffix 6 6 s = q" and "12 < byte_len s"
    and "length m \<le> usize_max"
  shows "truncate_text s (Bytes 12) =
    Some (p @ (ellipsis # show_nat (length m) @ lit '' chars truncated'' @ [ellipsis]) @ q)"
proof -
  have "s \<noteq> []"
    using assms(4) by auto
  then show ?thesis
    using split_string_kept [of s 6 m 6] assms
    by (simp add: truncate_text_def truncate_with_byte_estimate_def split_budget_def assemble_truncated_output_def)
qed

lemma first_truncation: "truncate_text (lit ''aaaaaaaaaaaaaaaaaaaaaaaaaaaaaa'') (Bytes 12) = Some (shown_output ''18'')"
  by (subst truncate_to_12 [of _ "lit ''aaaaaa''" "lit ''aaaaaaaaaaaaaaaaaa''" "lit ''aaaaaa''"])
    (simp_all add: kept_prefix_def kept_suffix_def shown_output_def ellipsis_def lit_def utf8_len_def usize_max_def
      show_nat.simps)

lemma second_truncation: "truncate_text (shown_output ''18'') (Bytes 12) = Some (shown_output ''20'')"
  by (subst truncate_to_12 [of _ "lit ''aaaaaa''" "[8230] @ lit ''18 chars truncated'' @ [8230]" "lit ''aaaaaa''"])
    (simp_all add: kept_prefix_def kept_suffix_def shown_output_def ellipsis_def lit_def utf8_len_def usize_max_def
      show_nat.simps)

lemma resume_truncates_again:
  "let output_item = CustomToolCallOutput [] (lit ''aaaaaaaaaaaaaaaaaaaaaaaaaaaaaa'')
   in map_option run_items (record_conversation_items quiet_env [output_item] fresh_run) =
        Some [CustomToolCallOutput [] (shown_output ''18'')] \<and>
      map_option run_items (resume_session quiet_env (\<lambda>_. None) [] [RolloutResponse output_item] fresh_run) =
        Some [CustomToolCallOutput [] (shown_output ''20'')]"
  by (simp add: record_conversation_items_def record_into_history_def session_record_items_def fresh_run_def
      session_new_def context_new_def persist_response_items_def set_session_def quiet_env_def
      resume_session_def restore_history_def clear_selected_tools_def last_rollout_model_def reconstruct_history_def
      clear_mcp_tool_selection_def session_set_previous_model_def
      last_token_info_def scaled_budget first_truncation second_truncation Let_def del: policy_mul.simps)

end
