(* ===== verification/CommandSummary.thy ===== *)
theory CommandSummary
  imports CommandSafety "HOL-Library.Sublist"
begin

text \<open>
  Summaries of commands for display: \<open>shell-command/src/parse_command.rs\<close> and the extraction of
  PowerShell scripts in \<open>powershell.rs\<close>. The \<open>shlex\<close> crate and the tree-sitter parser are the
  parameter \<open>summary_env\<close>; a \<open>PathBuf\<close> is the text it was built from.
\<close>

datatype parsed_command =
    Read ustr ustr ustr
  | ListFiles ustr "ustr option"
  | Search ustr "ustr option" "ustr option"
  | Unknown ustr

record summary_env =
  se_split :: "ustr \<Rightarrow> ustr list option"
  se_try_join :: "ustr list \<Rightarrow> ustr option"
  se_parse :: "ustr \<Rightarrow> ts_tree option"

definition shlex_join :: "summary_env \<Rightarrow> ustr list \<Rightarrow> ustr" where
  "shlex_join env tokens =
     (case se_try_join env tokens of Some s \<Rightarrow> s | None \<Rightarrow> lit ''<command included NUL byte>'')"

definition str_contains :: "ustr \<Rightarrow> ustr \<Rightarrow> bool" where
  "str_contains s t \<longleftrightarrow> sublist t s"

section \<open>PowerShell scripts\<close>

definition powershell_flags :: "ustr list" where
  "powershell_flags = map lit [''-nologo'', ''-noprofile'', ''-command'', ''-c'']"

text \<open>The loop over the flags; the last argument is never read as one.\<close>

fun powershell_script :: "ustr list \<Rightarrow> ustr option" where
  "powershell_script (flag # next # rest) =
     (if to_ascii_lowercase flag \<notin> set powershell_flags then None
      else if to_ascii_lowercase flag = lit ''-command'' \<or> to_ascii_lowercase flag = lit ''-c'' then Some next
      else powershell_script (next # rest))"
| "powershell_script _ = None"

definition extract_powershell_command :: "ustr list \<Rightarrow> (ustr \<times> ustr) option" where
  "extract_powershell_command command =
     (if length command < 3 then None
      else if detect_shell_type (hd command) \<noteq> Some PowerShell then None
      else map_option (Pair (hd command)) (powershell_script (tl command)))"

definition utf8_output_prefix :: ustr where
  "utf8_output_prefix = lit ''[Console]::OutputEncoding=[System.Text.Encoding]::UTF8;'' @ newline"

definition prefix_powershell_script_with_utf8 :: "ustr list \<Rightarrow> ustr list" where
  "prefix_powershell_script_with_utf8 command =
     (case extract_powershell_command command of
        None \<Rightarrow> command
      | Some (_, script) \<Rightarrow>
          (let script = (if starts_with (trim_start script) utf8_output_prefix then script
                         else utf8_output_prefix @ script)
           in butlast command @ [script]))"

definition extract_shell_command :: "ustr list \<Rightarrow> (ustr \<times> ustr) option" where
  "extract_shell_command command =
     (case extract_bash_command command of Some r \<Rightarrow> Some r | None \<Rightarrow> extract_powershell_command command)"

section \<open>Arguments\<close>

definition connectors :: "ustr list" where
  "connectors = map lit [''&&'', ''||'', ''|'', '';'']"

definition contains_connectors :: "ustr list \<Rightarrow> bool" where
  "contains_connectors tokens \<longleftrightarrow> list_ex (\<lambda>t. t \<in> set connectors) tokens"

fun split_loop_connectors :: "ustr list \<Rightarrow> ustr list \<Rightarrow> ustr list list" where
  "split_loop_connectors cur [] = (if cur \<noteq> [] then [cur] else [])"
| "split_loop_connectors cur (t # ts) =
     (if t \<in> set connectors then (if cur \<noteq> [] then cur # split_loop_connectors [] ts else split_loop_connectors cur ts)
      else split_loop_connectors (cur @ [t]) ts)"

definition split_on_connectors :: "ustr list \<Rightarrow> ustr list list" where
  "split_on_connectors tokens = split_loop_connectors [] tokens"

definition trim_at_connector :: "ustr list \<Rightarrow> ustr list" where
  "trim_at_connector tokens =
     take (case position (\<lambda>t. t \<in> set connectors) tokens of Some i \<Rightarrow> i | None \<Rightarrow> length tokens) tokens"

definition is_flag :: "ustr \<Rightarrow> bool" where
  "is_flag a \<longleftrightarrow> starts_with a (lit ''-'')"

definition is_flag_with_value :: "ustr \<Rightarrow> bool" where
  "is_flag_with_value a \<longleftrightarrow> starts_with a (lit ''--'') \<and> 61 \<in> set a"

text \<open>A flag that takes a value skips the next argument when there is one.\<close>

fun skip_flag_values :: "ustr list \<Rightarrow> ustr list \<Rightarrow> ustr list" where
  "skip_flag_values flags_with_vals [] = []"
| "skip_flag_values flags_with_vals (a # rest) =
     (if a = lit ''--'' then rest
      else if is_flag_with_value a then skip_flag_values flags_with_vals rest
      else if a \<in> set flags_with_vals then skip_flag_values flags_with_vals (drop 1 rest)
      else a # skip_flag_values flags_with_vals rest)"

fun positional_operands :: "ustr list \<Rightarrow> ustr list \<Rightarrow> ustr list" where
  "positional_operands flags_with_vals [] = []"
| "positional_operands flags_with_vals (a # rest) =
     (if a = lit ''--'' then rest
      else if is_flag_with_value a then positional_operands flags_with_vals rest
      else if a \<in> set flags_with_vals then positional_operands flags_with_vals (drop 1 rest)
      else if is_flag a then positional_operands flags_with_vals rest
      else a # positional_operands flags_with_vals rest)"

definition head_option :: "'a list \<Rightarrow> 'a option" where
  "head_option xs = (case xs of x # _ \<Rightarrow> Some x | [] \<Rightarrow> None)"

definition first_non_flag_operand :: "ustr list \<Rightarrow> ustr list \<Rightarrow> ustr option" where
  "first_non_flag_operand args flags_with_vals = head_option (positional_operands flags_with_vals args)"

definition single_non_flag_operand :: "ustr list \<Rightarrow> ustr list \<Rightarrow> ustr option" where
  "single_non_flag_operand args flags_with_vals =
     (case positional_operands flags_with_vals args of [x] \<Rightarrow> Some x | _ \<Rightarrow> None)"

definition non_flags :: "ustr list \<Rightarrow> ustr list" where
  "non_flags args = filter (\<lambda>a. \<not> is_flag a) args"

definition short_display_path :: "ustr \<Rightarrow> ustr" where
  "short_display_path path =
     (let normalized = map (\<lambda>c. if c = 92 then 47 else c) path;
          trimmed = trim_end_by (\<lambda>c. c = 47) normalized
      in case filter (\<lambda>p. p \<noteq> [] \<and> p \<notin> set (map lit [''build'', ''dist'', ''node_modules'', ''src'']))
                (rev (split_on 47 trimmed)) of
           p # _ \<Rightarrow> p
         | [] \<Rightarrow> trimmed)"

section \<open>Single commands\<close>

fun has_range_option :: "ustr list \<Rightarrow> bool" where
  "has_range_option [] \<longleftrightarrow> False"
| "has_range_option (arg # rest) \<longleftrightarrow>
     (if arg \<in> set (map lit [''-e'', ''--expression''])
      then is_valid_sed_n_arg (head_option rest) \<or> has_range_option (drop 1 rest)
      else if arg \<in> set (map lit [''-f'', ''--file'']) then has_range_option (drop 1 rest)
      else has_range_option rest)"

definition sed_read_path :: "ustr list \<Rightarrow> ustr option" where
  "sed_read_path args =
     (let args_no_connector = trim_at_connector args
      in if lit ''-n'' \<notin> set args_no_connector then None
         else if \<not> (has_range_option args_no_connector \<or>
                    list_ex (\<lambda>arg. \<not> is_flag arg \<and> is_valid_sed_n_arg (Some arg)) args_no_connector) then None
         else case non_flags (skip_flag_values (map lit [''-e'', ''-f'', ''--expression'', ''--file'']) args_no_connector) of
                [] \<Rightarrow> None
              | first # rest \<Rightarrow> if is_valid_sed_n_arg (Some first) then head_option rest else Some first)"

definition normalize_tokens :: "summary_env \<Rightarrow> ustr list \<Rightarrow> ustr list" where
  "normalize_tokens env cmd =
     (case cmd of
        first # pipe # rest \<Rightarrow>
          if first \<in> set (map lit [''yes'', ''y'', ''no'', ''n'']) \<and> pipe = lit ''|'' then rest
          else
            (case rest of
               [script] \<Rightarrow>
                 if first \<in> set (map lit [''bash'', ''zsh'']) \<and> pipe \<in> set (map lit [''-c'', ''-lc''])
                 then (case se_split env script of Some ts \<Rightarrow> ts | None \<Rightarrow> [first, pipe, script])
                 else cmd
             | _ \<Rightarrow> cmd)
      | _ \<Rightarrow> cmd)"

text \<open>The loop of \<open>parse_grep_like\<close>: the pattern so far and the operands.\<close>

fun grep_scan :: "ustr option \<Rightarrow> ustr list \<Rightarrow> ustr option \<times> ustr list" where
  "grep_scan pattern [] = (pattern, [])"
| "grep_scan pattern (arg # rest) =
     (if arg = lit ''--'' then (pattern, rest)
      else if arg \<in> set (map lit [''-e'', ''--regexp'', ''-f'', ''--file''])
      then grep_scan (case pattern of Some p \<Rightarrow> Some p | None \<Rightarrow> head_option rest) (drop 1 rest)
      else if arg \<in> set (map lit [''-m'', ''--max-count'', ''-C'', ''--context'', ''-A'', ''--after-context'',
                                   ''-B'', ''--before-context''])
      then grep_scan pattern (drop 1 rest)
      else if is_flag arg then grep_scan pattern rest
      else (let (p, operands) = grep_scan pattern rest in (p, arg # operands)))"

definition nth_option :: "'a list \<Rightarrow> nat \<Rightarrow> 'a option" where
  "nth_option xs i = (if i < length xs then Some (xs ! i) else None)"

definition parse_grep_like :: "summary_env \<Rightarrow> ustr list \<Rightarrow> ustr list \<Rightarrow> parsed_command" where
  "parse_grep_like env main_cmd args =
     (let (pattern, operands) = grep_scan None (trim_at_connector args);
          query = (case pattern of Some p \<Rightarrow> Some p | None \<Rightarrow> head_option operands);
          path_index = (if pattern \<noteq> None then 0 else 1)
      in Search (shlex_join env main_cmd) query (map_option short_display_path (nth_option operands path_index)))"

definition awk_data_file_operand :: "ustr list \<Rightarrow> ustr option" where
  "awk_data_file_operand args =
     (if args = [] then None
      else
        let args_no_connector = trim_at_connector args;
            operands = non_flags (skip_flag_values
              (map lit [''-F'', ''-v'', ''-f'', ''--field-separator'', ''--assign'', ''--file'']) args_no_connector)
        in if list_ex (\<lambda>arg. arg \<in> set (map lit [''-f'', ''--file''])) args_no_connector then head_option operands
           else nth_option operands 1)"

definition walks_files :: "ustr \<Rightarrow> bool" where
  "walks_files script \<longleftrightarrow>
     list_ex (str_contains script)
       (map lit [''os.walk'', ''os.listdir'', ''os.scandir'', ''glob.glob'', ''glob.iglob'', ''pathlib.Path'', ''.rglob(''])"

fun python_scan :: "ustr list \<Rightarrow> bool" where
  "python_scan [] \<longleftrightarrow> False"
| "python_scan (arg # rest) \<longleftrightarrow>
     (case rest of script # _ \<Rightarrow> if arg = lit ''-c'' then walks_files script else python_scan rest
      | [] \<Rightarrow> False)"

definition python_walks_files :: "ustr list \<Rightarrow> bool" where
  "python_walks_files args \<longleftrightarrow> python_scan (trim_at_connector args)"

definition is_python_command :: "ustr \<Rightarrow> bool" where
  "is_python_command cmd \<longleftrightarrow>
     cmd \<in> set (map lit [''python'', ''python2'', ''python3'']) \<or>
     starts_with cmd (lit ''python2.'') \<or> starts_with cmd (lit ''python3.'')"

fun cd_loop :: "ustr option \<Rightarrow> ustr list \<Rightarrow> ustr option" where
  "cd_loop target [] = target"
| "cd_loop target (arg # rest) =
     (if arg = lit ''--'' then head_option rest
      else if is_flag arg then cd_loop target rest
      else cd_loop (Some arg) rest)"

definition cd_target :: "ustr list \<Rightarrow> ustr option" where
  "cd_target args = cd_loop None args"

definition is_pathish :: "ustr \<Rightarrow> bool" where
  "is_pathish s \<longleftrightarrow>
     s = lit ''.'' \<or> s = lit ''..'' \<or> starts_with s (lit ''./'') \<or> starts_with s (lit ''../'') \<or> 47 \<in> set s \<or> 92 \<in> set s"

definition parse_fd_query_and_path :: "ustr list \<Rightarrow> ustr option \<times> ustr option" where
  "parse_fd_query_and_path tail =
     (case non_flags (skip_flag_values
         (map lit [''-t'', ''--type'', ''-e'', ''--extension'', ''-E'', ''--exclude'', ''--search-path''])
         (trim_at_connector tail)) of
        [one] \<Rightarrow> if is_pathish one then (None, Some (short_display_path one)) else (Some one, None)
      | q # p # _ \<Rightarrow> (Some q, Some (short_display_path p))
      | [] \<Rightarrow> (None, None))"

fun find_name_pattern :: "ustr list \<Rightarrow> ustr option" where
  "find_name_pattern [] = None"
| "find_name_pattern (a # rest) =
     (if a \<in> set (map lit [''-name'', ''-iname'', ''-path'', ''-regex'']) then head_option rest
      else find_name_pattern rest)"

definition parse_find_query_and_path :: "ustr list \<Rightarrow> ustr option \<times> ustr option" where
  "parse_find_query_and_path tail =
     (let args_no_connector = trim_at_connector tail
      in (find_name_pattern args_no_connector,
          map_option short_display_path
            (List.find (\<lambda>a. \<not> is_flag a \<and> a \<notin> set (map lit [''!'', ''('', '')''])) args_no_connector)))"

section \<open>Summary of one command\<close>

definition all_digits :: "ustr \<Rightarrow> bool" where
  "all_digits s \<longleftrightarrow> list_all is_ascii_digit s"

definition read_of :: "summary_env \<Rightarrow> ustr list \<Rightarrow> ustr \<Rightarrow> parsed_command" where
  "read_of env main_cmd path = Read (shlex_join env main_cmd) (short_display_path path) path"

definition read_or_unknown :: "summary_env \<Rightarrow> ustr list \<Rightarrow> ustr option \<Rightarrow> parsed_command" where
  "read_or_unknown env main_cmd path =
     (case path of Some p \<Rightarrow> read_of env main_cmd p | None \<Rightarrow> Unknown (shlex_join env main_cmd))"

definition list_of :: "summary_env \<Rightarrow> ustr list \<Rightarrow> ustr option \<Rightarrow> parsed_command" where
  "list_of env main_cmd path = ListFiles (shlex_join env main_cmd) (map_option short_display_path path)"

text \<open>The operand of \<open>head\<close> and \<open>tail\<close>: what counts as a number differs.\<close>

definition head_count :: "ustr \<Rightarrow> bool" where
  "head_count n \<longleftrightarrow> all_digits n"

definition tail_count :: "ustr \<Rightarrow> bool" where
  "tail_count n \<longleftrightarrow>
     (let s = (case strip_prefix n (lit ''+'') of Some r \<Rightarrow> r | None \<Rightarrow> n) in s \<noteq> [] \<and> all_digits s)"

definition has_valid_n :: "(ustr \<Rightarrow> bool) \<Rightarrow> ustr list \<Rightarrow> bool" where
  "has_valid_n is_count args \<longleftrightarrow>
     (case args of
        [] \<Rightarrow> False
      | first # rest \<Rightarrow>
          if first = lit ''-n'' then (case rest of n # _ \<Rightarrow> is_count n | [] \<Rightarrow> False)
          else if starts_with first (lit ''-n'') then is_count (drop 2 first)
          else False)"

definition skip_count :: "(ustr \<Rightarrow> bool) \<Rightarrow> ustr list \<Rightarrow> ustr list" where
  "skip_count is_count args =
     (case args of
        first # n # rest \<Rightarrow> if first = lit ''-n'' \<and> is_count n then rest else args
      | _ \<Rightarrow> args)"

definition head_tail_path :: "(ustr \<Rightarrow> bool) \<Rightarrow> ustr list \<Rightarrow> ustr option" where
  "head_tail_path is_count args =
     (case (if has_valid_n is_count args then List.find (\<lambda>p. \<not> is_flag p) (skip_count is_count args) else None) of
        Some p \<Rightarrow> Some p
      | None \<Rightarrow> (case args of [path] \<Rightarrow> if is_flag path then None else Some path | _ \<Rightarrow> None))"

definition ls_flags :: "ustr \<Rightarrow> ustr list" where
  "ls_flags head =
     (if head = lit ''ls''
      then map lit [''-I'', ''-w'', ''--block-size'', ''--format'', ''--time-style'', ''--color'', ''--quoting-style'']
      else map lit [''-I'', ''--ignore-glob'', ''--color'', ''--sort'', ''--time-style'', ''--time''])"

definition rg_summary :: "summary_env \<Rightarrow> ustr list \<Rightarrow> ustr list \<Rightarrow> parsed_command" where
  "rg_summary env main_cmd tail =
     (let args_no_connector = trim_at_connector tail;
          operands = non_flags (skip_flag_values
            (map lit [''-g'', ''--glob'', ''--iglob'', ''-t'', ''--type'', ''--type-add'', ''--type-not'', ''-m'',
                      ''--max-count'', ''-A'', ''-B'', ''-C'', ''--context'', ''--max-depth'']) args_no_connector)
      in if lit ''--files'' \<in> set args_no_connector then list_of env main_cmd (head_option operands)
         else Search (shlex_join env main_cmd) (head_option operands)
                (map_option short_display_path (nth_option operands 1)))"

definition git_summary :: "summary_env \<Rightarrow> ustr list \<Rightarrow> ustr list \<Rightarrow> parsed_command" where
  "git_summary env main_cmd tail =
     (case tail of
        subcmd # sub_tail \<Rightarrow>
          if subcmd = lit ''grep'' then parse_grep_like env main_cmd sub_tail
          else if subcmd = lit ''ls-files''
          then list_of env main_cmd (first_non_flag_operand sub_tail
                 (map lit [''--exclude'', ''--exclude-from'', ''--pathspec-from-file'']))
          else Unknown (shlex_join env main_cmd)
      | [] \<Rightarrow> Unknown (shlex_join env main_cmd))"

definition query_summary :: "summary_env \<Rightarrow> ustr list \<Rightarrow> ustr option \<times> ustr option \<Rightarrow> parsed_command" where
  "query_summary env main_cmd qp =
     (case qp of
        (Some query, path) \<Rightarrow> Search (shlex_join env main_cmd) (Some query) path
      | (None, path) \<Rightarrow> ListFiles (shlex_join env main_cmd) path)"

definition ag_summary :: "summary_env \<Rightarrow> ustr list \<Rightarrow> ustr list \<Rightarrow> parsed_command" where
  "ag_summary env main_cmd tail =
     (let operands = non_flags (skip_flag_values
            (map lit [''-G'', ''-g'', ''--file-search-regex'', ''--ignore-dir'', ''--ignore-file'', ''--path-to-ignore''])
            (trim_at_connector tail))
      in Search (shlex_join env main_cmd) (head_option operands) (map_option short_display_path (nth_option operands 1)))"

text \<open>The programs that show a file, with their operand: \<open>None\<close> for any other program.\<close>

definition pager_operand :: "ustr \<Rightarrow> ustr list \<Rightarrow> ustr option option" where
  "pager_operand head tail =
     (if head = lit ''cat'' then Some (single_non_flag_operand tail [])
      else if head \<in> set (map lit [''bat'', ''batcat'']) then Some (single_non_flag_operand tail
        (map lit [''--theme'', ''--language'', ''--style'', ''--terminal-width'', ''--tabs'', ''--line-range'',
                  ''--map-syntax'']))
      else if head = lit ''less'' then Some (single_non_flag_operand tail
        (map lit [''-p'', ''-P'', ''-x'', ''-y'', ''-z'', ''-j'', ''--pattern'', ''--prompt'', ''--tabs'',
                  ''--shift'', ''--jump-target'']))
      else if head = lit ''more'' then Some (single_non_flag_operand tail [])
      else None)"

definition filter_operand :: "ustr \<Rightarrow> ustr list \<Rightarrow> ustr option option" where
  "filter_operand head tail =
     (if head = lit ''head'' then Some (head_tail_path head_count tail)
      else if head = lit ''tail'' then Some (head_tail_path tail_count tail)
      else if head = lit ''awk'' then Some (awk_data_file_operand tail)
      else if head = lit ''nl'' then Some (List.find (\<lambda>p. \<not> is_flag p)
        (skip_flag_values (map lit [''-s'', ''-w'', ''-v'', ''-i'', ''-b'']) tail))
      else if head = lit ''sed'' then Some (sed_read_path tail)
      else None)"

definition summarize_main_tokens :: "summary_env \<Rightarrow> ustr list \<Rightarrow> parsed_command" where
  "summarize_main_tokens env main_cmd =
     (case main_cmd of
        [] \<Rightarrow> Unknown (shlex_join env main_cmd)
      | head # tail \<Rightarrow>
          let read = read_or_unknown env main_cmd; listing = list_of env main_cmd
          in if head \<in> set (map lit [''ls'', ''eza'', ''exa'']) then listing (first_non_flag_operand tail (ls_flags head))
             else if head = lit ''tree'' then listing (first_non_flag_operand tail
               (map lit [''-L'', ''-P'', ''-I'', ''--charset'', ''--filelimit'', ''--sort'']))
             else if head = lit ''du'' then listing (first_non_flag_operand tail
               (map lit [''-d'', ''--max-depth'', ''-B'', ''--block-size'', ''--exclude'', ''--time-style'']))
             else if head \<in> set (map lit [''rg'', ''rga'', ''ripgrep-all'']) then rg_summary env main_cmd tail
             else if head = lit ''git'' then git_summary env main_cmd tail
             else if head = lit ''fd'' then query_summary env main_cmd (parse_fd_query_and_path tail)
             else if head = lit ''find'' then query_summary env main_cmd (parse_find_query_and_path tail)
             else if head \<in> set (map lit [''grep'', ''egrep'', ''fgrep'']) then parse_grep_like env main_cmd tail
             else if head \<in> set (map lit [''ag'', ''ack'', ''pt'']) then ag_summary env main_cmd tail
             else if pager_operand head tail \<noteq> None then read (the (pager_operand head tail))
             else if filter_operand head tail \<noteq> None then read (the (filter_operand head tail))
             else if is_python_command head then
               (if python_walks_files tail then ListFiles (shlex_join env main_cmd) None
                else Unknown (shlex_join env main_cmd))
             else Unknown (shlex_join env main_cmd))"

section \<open>Formatting helpers\<close>

fun xargs_rest :: "ustr list \<Rightarrow> ustr list option" where
  "xargs_rest [] = None"
| "xargs_rest (token # rest) =
     (if token = lit ''--'' then (if rest \<noteq> [] then Some rest else None)
      else if \<not> is_flag token then Some (token # rest)
      else if token \<in> set (map lit [''-E'', ''-e'', ''-I'', ''-L'', ''-n'', ''-P'', ''-s''])
      then xargs_rest (drop 1 rest)
      else xargs_rest rest)"

definition xargs_subcommand :: "ustr list \<Rightarrow> ustr list option" where
  "xargs_subcommand tokens =
     (case tokens of head # rest \<Rightarrow> if head = lit ''xargs'' then xargs_rest rest else None | [] \<Rightarrow> None)"

definition xargs_has_in_place_flag :: "ustr list \<Rightarrow> bool" where
  "xargs_has_in_place_flag tokens \<longleftrightarrow>
     list_ex (\<lambda>t. starts_with t (lit ''-i'') \<or> starts_with t (lit ''-pi'')) tokens"

definition xargs_is_mutating_subcommand :: "ustr list \<Rightarrow> bool" where
  "xargs_is_mutating_subcommand tokens \<longleftrightarrow>
     (case tokens of
        [] \<Rightarrow> False
      | head # tail \<Rightarrow>
          if head \<in> set (map lit [''perl'', ''ruby'']) then xargs_has_in_place_flag tail
          else if head = lit ''sed'' then xargs_has_in_place_flag tail \<or> lit ''--in-place'' \<in> set tail
          else if head = lit ''rg'' then lit ''--replace'' \<in> set tail
          else False)"

definition is_mutating_xargs_command :: "ustr list \<Rightarrow> bool" where
  "is_mutating_xargs_command tokens \<longleftrightarrow>
     (case xargs_subcommand tokens of Some sub \<Rightarrow> xargs_is_mutating_subcommand sub | None \<Rightarrow> False)"

definition plus_digits :: "ustr \<Rightarrow> bool" where
  "plus_digits num \<longleftrightarrow>
     all_digits num \<or> (starts_with num (lit ''+'') \<and> all_digits (drop 1 num))"

definition is_small_formatting_command :: "ustr list \<Rightarrow> bool" where
  "is_small_formatting_command tokens \<longleftrightarrow>
     (case tokens of
        [] \<Rightarrow> False
      | cmd # args \<Rightarrow>
          if cmd \<in> set (map lit [''wc'', ''tr'', ''cut'', ''sort'', ''uniq'', ''tee'', ''column'', ''yes'', ''printf''])
          then True
          else if cmd = lit ''xargs'' then \<not> is_mutating_xargs_command tokens
          else if cmd = lit ''awk'' then awk_data_file_operand args = None
          else if cmd = lit ''head'' then
            (case args of
               [] \<Rightarrow> True
             | [arg] \<Rightarrow> is_flag arg
             | [flag, num] \<Rightarrow> flag \<in> set (map lit [''-n'', ''-c'']) \<and> all_digits num
             | _ \<Rightarrow> False)
          else if cmd = lit ''tail'' then
            (case args of
               [] \<Rightarrow> True
             | [arg] \<Rightarrow> is_flag arg
             | [flag, num] \<Rightarrow> flag \<in> set (map lit [''-n'', ''-c'']) \<and> plus_digits num
             | _ \<Rightarrow> False)
          else if cmd = lit ''sed'' then sed_read_path args = None
          else False)"

definition drop_small_formatting_commands :: "ustr list list \<Rightarrow> ustr list list" where
  "drop_small_formatting_commands commands = filter (\<lambda>t. \<not> is_small_formatting_command t) commands"

section \<open>Simplification\<close>

definition first_word_is :: "summary_env \<Rightarrow> ustr \<Rightarrow> parsed_command \<Rightarrow> bool" where
  "first_word_is env word pc \<longleftrightarrow>
     (case pc of
        Unknown cmd \<Rightarrow> (case se_split env cmd of Some ts \<Rightarrow> head_option ts = Some word | None \<Rightarrow> False)
      | _ \<Rightarrow> False)"

definition is_bare_nl :: "summary_env \<Rightarrow> parsed_command \<Rightarrow> bool" where
  "is_bare_nl env pc \<longleftrightarrow>
     (case pc of
        Unknown cmd \<Rightarrow>
          (case se_split env cmd of
             Some (t # ts) \<Rightarrow> t = lit ''nl'' \<and> list_all is_flag ts
           | _ \<Rightarrow> False)
      | _ \<Rightarrow> False)"

definition remove_at :: "nat \<Rightarrow> 'a list \<Rightarrow> 'a list" where
  "remove_at i xs = take i xs @ drop (i + 1) xs"

definition simplify_once :: "summary_env \<Rightarrow> parsed_command list \<Rightarrow> parsed_command list option" where
  "simplify_once env commands =
     (if length commands \<le> 1 then None
      else if first_word_is env (lit ''echo'') (hd commands) then Some (tl commands)
      else
        (case (case position (first_word_is env (lit ''cd'')) commands of
                 Some idx \<Rightarrow> if length commands > idx + 1 then Some idx else None
               | None \<Rightarrow> None) of
           Some idx \<Rightarrow> Some (remove_at idx commands)
         | None \<Rightarrow>
             (case position (\<lambda>pc. pc = Unknown (lit ''true'')) commands of
                Some idx \<Rightarrow> Some (remove_at idx commands)
              | None \<Rightarrow> map_option (\<lambda>idx. remove_at idx commands) (position (is_bare_nl env) commands))))"

text \<open>\<open>while let Some(next) = simplify_once(...)\<close>.\<close>

lemma remove_at_length: "i < length xs \<Longrightarrow> length (remove_at i xs) < length xs"
  by (simp add: remove_at_def)

lemma simplify_once_removes:
  assumes "simplify_once env commands = Some next_commands"
  shows "\<exists>i. i < length commands \<and> next_commands = remove_at i commands \<and>
    (first_word_is env (lit ''echo'') (commands ! i) \<or> first_word_is env (lit ''cd'') (commands ! i) \<or>
     commands ! i = Unknown (lit ''true'') \<or> is_bare_nl env (commands ! i))"
proof -
  from assms have long: "1 < length commands"
    by (auto simp: simplify_once_def split: if_splits)
  show ?thesis
  proof (cases "first_word_is env (lit ''echo'') (hd commands)")
    case True
    with assms long show ?thesis
      by (intro exI [of _ 0]) (cases commands; auto simp: simplify_once_def remove_at_def)
  next
    case False
    with assms long show ?thesis
      by (auto simp: simplify_once_def dest!: position_SomeD split: option.splits if_splits)
  qed
qed

function simplify :: "summary_env \<Rightarrow> parsed_command list \<Rightarrow> parsed_command list" where
  "simplify env commands =
     (case simplify_once env commands of Some next_commands \<Rightarrow> simplify env next_commands | None \<Rightarrow> commands)"
  by pat_completeness auto

termination
  by (relation "measure (length \<circ> snd)") (auto dest!: simplify_once_removes simp: remove_at_length)

declare simplify.simps [simp del]

section \<open>Summary of a command line\<close>

definition is_abs_like :: "ustr \<Rightarrow> bool" where
  "is_abs_like path \<longleftrightarrow>
     is_absolute path \<or>
     (case path of
        d # c # b # _ \<Rightarrow> (((65 \<le> d \<and> d \<le> 90) \<or> (97 \<le> d \<and> d \<le> 122)) \<and> c = 58 \<and> b = 92) \<or> (d = 92 \<and> c = 92)
      | [d, c] \<Rightarrow> d = 92 \<and> c = 92
      | _ \<Rightarrow> False)"

definition join_paths :: "ustr \<Rightarrow> ustr \<Rightarrow> ustr" where
  "join_paths base rel = (if is_abs_like rel then rel else if base = [] then rel else join base rel)"

definition enter_dir :: "ustr option \<Rightarrow> ustr list \<Rightarrow> ustr option" where
  "enter_dir cwd tail =
     (case cd_target tail of
        Some dir \<Rightarrow> Some (case cwd of Some base \<Rightarrow> join_paths base dir | None \<Rightarrow> dir)
      | None \<Rightarrow> cwd)"

fun in_dir :: "ustr option \<Rightarrow> parsed_command \<Rightarrow> parsed_command" where
  "in_dir (Some base) (Read cmd name path) = Read cmd name (join_paths base path)"
| "in_dir cwd pc = pc"

text \<open>The loop over the parts, which both entry points have.\<close>

fun summarize_parts :: "summary_env \<Rightarrow> ustr option \<Rightarrow> ustr list list \<Rightarrow> parsed_command list" where
  "summarize_parts env cwd [] = []"
| "summarize_parts env cwd (tokens # parts) =
     (if tokens \<noteq> [] \<and> hd tokens = lit ''cd'' then summarize_parts env (enter_dir cwd (tl tokens)) parts
      else in_dir cwd (summarize_main_tokens env tokens) # summarize_parts env cwd parts)"

fun has_sed_n :: "ustr list \<Rightarrow> bool" where
  "has_sed_n (a # b # rest) \<longleftrightarrow> (a = lit ''sed'' \<and> b = lit ''-n'') \<or> has_sed_n (b # rest)"
| "has_sed_n _ \<longleftrightarrow> False"

text \<open>Which text a summary that is left alone shows.\<close>

fun attribute_script :: "summary_env \<Rightarrow> bool \<Rightarrow> ustr \<Rightarrow> ustr list \<Rightarrow> parsed_command \<Rightarrow> parsed_command" where
  "attribute_script env had_connectors script script_tokens (Read cmd name path) =
     (if had_connectors then
        (if lit ''|'' \<in> set script_tokens \<and> has_sed_n script_tokens then Read script name path else Read cmd name path)
      else Read (shlex_join env script_tokens) name path)"
| "attribute_script env had_connectors script script_tokens (ListFiles cmd path) =
     (if had_connectors then ListFiles cmd path else ListFiles (shlex_join env script_tokens) path)"
| "attribute_script env had_connectors script script_tokens (Search cmd query path) =
     (if had_connectors then Search cmd query path else Search (shlex_join env script_tokens) query path)"
| "attribute_script env had_connectors script script_tokens (Unknown cmd) = Unknown cmd"

definition summarize_script :: "summary_env \<Rightarrow> ustr \<Rightarrow> ustr list list \<Rightarrow> parsed_command list" where
  "summarize_script env script all_commands =
     (let script_tokens = (case se_split env script of Some ts \<Rightarrow> ts | None \<Rightarrow> [script]);
          had_multiple_commands = (length all_commands > 1);
          filtered_commands = drop_small_formatting_commands all_commands
      in if filtered_commands = [] then [Unknown script]
         else
           let commands = summarize_parts env None filtered_commands;
               commands = (if length commands > 1
                           then simplify env (filter (\<lambda>pc. pc \<noteq> Unknown (lit ''true'')) commands) else commands);
               had_connectors = (had_multiple_commands \<or> contains_connectors script_tokens)
           in if length commands = 1 then map (attribute_script env had_connectors script script_tokens) commands
              else commands)"

definition parse_shell_lc_commands :: "summary_env \<Rightarrow> ustr list \<Rightarrow> parsed_command list option" where
  "parse_shell_lc_commands env original =
     map_option (\<lambda>(_, script).
       case Option.bind (se_parse env script) try_parse_word_only_commands_sequence of
         Some all_commands \<Rightarrow>
           if all_commands \<noteq> [] then summarize_script env script all_commands else [Unknown script]
       | None \<Rightarrow> [Unknown script])
     (extract_bash_command original)"

definition parse_command_impl :: "summary_env \<Rightarrow> ustr list \<Rightarrow> parsed_command list" where
  "parse_command_impl env command =
     (case parse_shell_lc_commands env command of
        Some commands \<Rightarrow> commands
      | None \<Rightarrow>
          (case extract_powershell_command command of
             Some (_, script) \<Rightarrow> [Unknown script]
           | None \<Rightarrow>
               (let normalized = normalize_tokens env command;
                    parts = (if contains_connectors normalized then split_on_connectors normalized else [normalized])
                in simplify env (summarize_parts env None parts))))"

fun dedup :: "parsed_command list \<Rightarrow> parsed_command list \<Rightarrow> parsed_command list" where
  "dedup deduped [] = deduped"
| "dedup deduped (cmd # rest) =
     (if deduped \<noteq> [] \<and> last deduped = cmd then dedup deduped rest else dedup (deduped @ [cmd]) rest)"

definition parse_command :: "summary_env \<Rightarrow> ustr list \<Rightarrow> parsed_command list" where
  "parse_command env command = dedup [] (parse_command_impl env command)"

section \<open>What a summary leaves out\<close>

text \<open>The summaries that simplification may drop; a read, a listing or a search is none of them.\<close>

definition droppable :: "summary_env \<Rightarrow> parsed_command \<Rightarrow> bool" where
  "droppable env pc \<longleftrightarrow>
     first_word_is env (lit ''echo'') pc \<or> first_word_is env (lit ''cd'') pc \<or>
     pc = Unknown (lit ''true'') \<or> is_bare_nl env pc"

lemma droppable_unknown: "droppable env pc \<Longrightarrow> \<exists>cmd. pc = Unknown cmd"
  by (cases pc) (auto simp: droppable_def first_word_is_def is_bare_nl_def)

lemma remove_at_subseq: "subseq (remove_at i xs) xs"
  unfolding remove_at_def
  by (metis append_take_drop_id drop_drop list_emb_append2 subseq_append subseq_order.refl add.commute
      subseq_append_iff subseq_append' list_emb_Nil2)

lemma filter_remove_at: "i < length xs \<Longrightarrow> \<not> P (xs ! i) \<Longrightarrow> filter P (remove_at i xs) = filter P xs"
  by (metis (no_types, lifting) remove_at_def filter.simps(2) filter_append id_take_nth_drop Suc_eq_plus1)

lemma simplify_keeps:
  "subseq (simplify env cs) cs \<and>
   filter (\<lambda>pc. \<not> droppable env pc) (simplify env cs) = filter (\<lambda>pc. \<not> droppable env pc) cs"
proof (induction env cs rule: simplify.induct)
  case (1 env cs)
  show ?case
  proof (cases "simplify_once env cs")
    case None
    then show ?thesis
      by (simp add: simplify.simps [of env cs])
  next
    case (Some cs')
    from simplify_once_removes [OF Some] obtain i where
      i: "i < length cs" "cs' = remove_at i cs" "droppable env (cs ! i)"
      by (auto simp: droppable_def)
    with 1 [OF Some] remove_at_subseq [of i cs] filter_remove_at [of i cs "\<lambda>pc. \<not> droppable env pc"] show ?thesis
      by (simp add: simplify.simps [of env cs] Some) (metis subseq_order.trans)
  qed
qed

text \<open>A summary without the text of the command and the exact path: its kind, name, query and listed
  path. The path of a read depends on the directory entered before it, and the text of a single
  summary may be the whole script.\<close>

fun shown_as :: "parsed_command \<Rightarrow> parsed_command" where
  "shown_as (Read cmd name path) = Read [] name []"
| "shown_as (ListFiles cmd path) = ListFiles [] path"
| "shown_as (Search cmd query path) = Search [] query path"
| "shown_as (Unknown cmd) = Unknown []"

fun is_lookup :: "parsed_command \<Rightarrow> bool" where
  "is_lookup (Unknown _) \<longleftrightarrow> False"
| "is_lookup _ \<longleftrightarrow> True"

definition lookups :: "parsed_command list \<Rightarrow> parsed_command list" where
  "lookups commands = map shown_as (filter is_lookup commands)"

text \<open>The simple commands a summary is made from.\<close>

definition segments :: "summary_env \<Rightarrow> ustr list \<Rightarrow> ustr list list" where
  "segments env command =
     (case extract_bash_command command of
        Some (_, script) \<Rightarrow>
          (case Option.bind (se_parse env script) try_parse_word_only_commands_sequence of
             Some commands \<Rightarrow> filter (\<lambda>t. \<not> is_small_formatting_command t) commands
           | None \<Rightarrow> [])
      | None \<Rightarrow>
          if extract_powershell_command command \<noteq> None then []
          else
            (let normalized = normalize_tokens env command
             in if contains_connectors normalized then split_on_connectors normalized else [normalized]))"

definition is_cd :: "ustr list \<Rightarrow> bool" where
  "is_cd tokens \<longleftrightarrow> tokens \<noteq> [] \<and> hd tokens = lit ''cd''"

lemma in_dir_shown [simp]: "shown_as (in_dir cwd pc) = shown_as pc" "is_lookup (in_dir cwd pc) = is_lookup pc"
  by (cases "(cwd, pc)" rule: in_dir.cases; simp)+

lemma attribute_shown [simp]:
  "shown_as (attribute_script env c script tokens pc) = shown_as pc"
  "is_lookup (attribute_script env c script tokens pc) = is_lookup pc"
  by (cases pc; simp)+

lemma lookups_simps [simp]:
  "lookups [] = []" "lookups (pc # pcs) = (if is_lookup pc then shown_as pc # lookups pcs else lookups pcs)"
  by (simp_all add: lookups_def)

lemma lookups_parts:
  "lookups (summarize_parts env cwd parts) =
     lookups (map (summarize_main_tokens env) (filter (\<lambda>t. \<not> is_cd t) parts))"
  by (induction env cwd parts rule: summarize_parts.induct) (simp_all add: is_cd_def)

lemma lookup_not_droppable: "is_lookup pc \<Longrightarrow> \<not> droppable env pc"
  using droppable_unknown by (cases pc) fastforce+

lemma lookups_filter: "(\<And>pc. is_lookup pc \<Longrightarrow> P pc) \<Longrightarrow> lookups (filter P pcs) = lookups pcs"
  by (induction pcs) auto

lemma lookups_simplify: "lookups (simplify env pcs) = lookups pcs"
  using lookups_filter [of "\<lambda>pc. \<not> droppable env pc", OF lookup_not_droppable] simplify_keeps [of env pcs]
  by metis

lemma lookups_attributed: "lookups (map (attribute_script env c script tokens) pcs) = lookups pcs"
  by (induction pcs) simp_all

lemma lookups_script:
  "lookups (summarize_script env script commands) =
     lookups (map (summarize_main_tokens env)
       (filter (\<lambda>t. \<not> is_cd t) (filter (\<lambda>t. \<not> is_small_formatting_command t) commands)))"
proof -
  have kept: "lookups (if b then simplify env (filter (\<lambda>pc. pc \<noteq> Unknown (lit ''true'')) pcs) else pcs) = lookups pcs"
    for b pcs
    using lookups_filter [of "\<lambda>pc. pc \<noteq> Unknown (lit ''true'')" pcs] by (fastforce simp: lookups_simplify)
  have single: "lookups (if b then map (attribute_script env c script tokens) pcs else pcs) = lookups pcs"
    for b c tokens pcs
    by (simp add: lookups_attributed)
  show ?thesis
    by (cases "filter (\<lambda>t. \<not> is_small_formatting_command t) commands = []")
      (simp_all only: summarize_script_def Let_def drop_small_formatting_commands_def single kept lookups_parts
        if_True if_False, simp add: lookups_def)
qed

lemma dedup_remdups_adj:
  "dedup deduped pcs = (if deduped = [] then remdups_adj pcs else butlast deduped @ remdups_adj (last deduped # pcs))"
proof (induction pcs arbitrary: deduped)
  case (Cons pc pcs)
  then show ?case
    by (cases deduped rule: rev_cases) (auto simp: butlast_append)
qed (auto simp: snoc_eq_iff_butlast)

text \<open>A summary hides nothing that reads, lists or searches. Whatever the command line, the reads,
  listings and searches that its summary shows are, in order, those of its simple commands, where only
  changes of directory and small formatting helpers are set aside; what is printed is that list
  without repetitions in a row.\<close>
theorem summary_shows_every_lookup:
  "lookups (parse_command_impl env command) =
     lookups (map (summarize_main_tokens env) (filter (\<lambda>t. \<not> is_cd t) (segments env command))) \<and>
   parse_command env command = remdups_adj (parse_command_impl env command)"
proof
  show "lookups (parse_command_impl env command) =
      lookups (map (summarize_main_tokens env) (filter (\<lambda>t. \<not> is_cd t) (segments env command)))"
  proof (cases "extract_bash_command command")
    case None
    then show ?thesis
      by (auto simp: parse_command_impl_def parse_shell_lc_commands_def segments_def Let_def lookups_simplify
          lookups_parts simp del: summarize_parts.simps filter.simps split: option.splits)
  next
    case (Some sc)
    then obtain shell script where "extract_bash_command command = Some (shell, script)"
      by (cases sc) auto
    then show ?thesis
      by (auto simp: parse_command_impl_def parse_shell_lc_commands_def segments_def lookups_script
          split: option.splits)
  qed
  show "parse_command env command = remdups_adj (parse_command_impl env command)"
    by (simp add: parse_command_def dedup_remdups_adj)
qed

text \<open>Of the commands \<open>xargs\<close> may run only four programs count as changing files; any other makes
  the call a formatting helper, which a pipeline's summary leaves out.\<close>

lemma xargs_rm_is_hidden:
  "summarize_script env script [map lit [''find'', ''.''], map lit [''xargs'', ''rm'']] =
     [ListFiles (shlex_join env (map lit [''find'', ''.''])) (Some (lit ''.''))]"
proof -
  have small: "is_small_formatting_command (map lit [''xargs'', ''rm''])"
    by (simp add: is_small_formatting_command_def is_mutating_xargs_command_def xargs_subcommand_def is_flag_def
        starts_with_def xargs_is_mutating_subcommand_def)
  have not_small: "\<not> is_small_formatting_command (map lit [''find'', ''.''])"
    by (simp add: is_small_formatting_command_def)
  have dot: "short_display_path (lit ''.'') = lit ''.''"
    by (simp add: short_display_path_def Let_def str_ops)
  have "summarize_main_tokens env (map lit [''find'', ''.'']) =
      ListFiles (shlex_join env (map lit [''find'', ''.''])) (Some (lit ''.''))"
    by (simp add: summarize_main_tokens_def query_summary_def parse_find_query_and_path_def trim_at_connector_def
        connectors_def is_flag_def starts_with_def dot)
  with small not_small show ?thesis
    by (simp add: summarize_script_def drop_small_formatting_commands_def)
qed

end
