(* ===== verification/ExecEnvironment.thy ===== *)
theory ExecEnvironment
  imports CommandSummary SandboxPolicies
begin

text \<open>
  What a spawned command sees of the environment (\<open>core/src/exec_env.rs\<close> and the shell environment
  policy of \<open>core/src/config/types.rs\<close>), and the form of a command under which its approval is
  remembered (\<open>core/src/command_canonicalization.rs\<close>). The \<open>wildmatch\<close> crate is the parameter
  \<open>wild\<close>: whether a case-insensitive pattern matches a name.
\<close>

section \<open>The environment of a command\<close>

datatype env_inherit = CoreVars | AllVars | NoVars

record env_policy_toml =
  et_inherit :: "env_inherit option"
  et_ignore_default_excludes :: "bool option"
  et_exclude :: "ustr list option"
  et_set :: "(ustr \<rightharpoonup> ustr) option"
  et_include_only :: "ustr list option"
  et_use_profile :: "bool option"

record env_policy =
  ep_inherit :: env_inherit
  ep_ignore_default_excludes :: bool
  ep_exclude :: "ustr list"
  ep_set :: "ustr \<rightharpoonup> ustr"
  ep_include_only :: "ustr list"
  ep_use_profile :: bool

definition unwrap_or :: "'a option \<Rightarrow> 'a \<Rightarrow> 'a" where
  "unwrap_or m d = (case m of Some x \<Rightarrow> x | None \<Rightarrow> d)"

definition env_policy_of :: "env_policy_toml \<Rightarrow> env_policy" where
  "env_policy_of t =
     \<lparr>ep_inherit = unwrap_or (et_inherit t) AllVars,
      ep_ignore_default_excludes = unwrap_or (et_ignore_default_excludes t) True,
      ep_exclude = unwrap_or (et_exclude t) [], ep_set = unwrap_or (et_set t) Map.empty,
      ep_include_only = unwrap_or (et_include_only t) [],
      ep_use_profile = unwrap_or (et_use_profile t) False\<rparr>"

definition env_policy_default :: env_policy where
  "env_policy_default =
     \<lparr>ep_inherit = AllVars, ep_ignore_default_excludes = True, ep_exclude = [], ep_set = Map.empty,
      ep_include_only = [], ep_use_profile = False\<rparr>"

definition core_vars :: "ustr list" where
  "core_vars = map lit
     [''HOME'', ''LOGNAME'', ''PATH'', ''SHELL'', ''USER'', ''USERNAME'', ''TMPDIR'', ''TEMP'', ''TMP'']"

definition is_core_var :: "target_os \<Rightarrow> ustr \<Rightarrow> bool" where
  "is_core_var target name \<longleftrightarrow>
     (if target = WindowsOS then list_ex (\<lambda>v. to_ascii_lowercase v = to_ascii_lowercase name) core_vars
      else name \<in> set core_vars)"

definition matches_any :: "(ustr \<Rightarrow> ustr \<Rightarrow> bool) \<Rightarrow> ustr \<Rightarrow> ustr list \<Rightarrow> bool" where
  "matches_any wild name patterns \<longleftrightarrow> list_ex (\<lambda>p. wild p name) patterns"

definition default_excludes :: "ustr list" where
  "default_excludes = map lit [''*KEY*'', ''*SECRET*'', ''*TOKEN*'']"

text \<open>\<open>collect\<close> into a map keeps the last value of a name, \<open>retain\<close> restricts the map.\<close>

definition collect_vars :: "(ustr \<times> ustr) list \<Rightarrow> ustr \<rightharpoonup> ustr" where
  "collect_vars vars = map_of (rev vars)"

definition retain :: "(ustr \<Rightarrow> bool) \<Rightarrow> (ustr \<rightharpoonup> ustr) \<Rightarrow> ustr \<rightharpoonup> ustr" where
  "retain keep env = (\<lambda>k. if keep k then env k else None)"

definition thread_id_var :: ustr where
  "thread_id_var = lit ''CODEX_THREAD_ID''"

definition populate_env ::
  "(ustr \<Rightarrow> ustr \<Rightarrow> bool) \<Rightarrow> target_os \<Rightarrow> (ustr \<times> ustr) list \<Rightarrow> env_policy \<Rightarrow> ustr option \<Rightarrow> ustr \<rightharpoonup> ustr" where
  "populate_env wild target vars policy thread_id =
     (let env_map = (case ep_inherit policy of
                       AllVars \<Rightarrow> collect_vars vars
                     | NoVars \<Rightarrow> Map.empty
                     | CoreVars \<Rightarrow> collect_vars (filter (\<lambda>(k, _). is_core_var target k) vars));
          env_map = (if \<not> ep_ignore_default_excludes policy
                     then retain (\<lambda>k. \<not> matches_any wild k default_excludes) env_map else env_map);
          env_map = (if ep_exclude policy \<noteq> []
                     then retain (\<lambda>k. \<not> matches_any wild k (ep_exclude policy)) env_map else env_map);
          env_map = env_map ++ ep_set policy;
          env_map = (if ep_include_only policy \<noteq> []
                     then retain (\<lambda>k. matches_any wild k (ep_include_only policy)) env_map else env_map)
      in case thread_id of Some t \<Rightarrow> env_map(thread_id_var \<mapsto> t) | None \<Rightarrow> env_map)"

lemma collect_filter:
  "collect_vars (filter (\<lambda>(k, _). P k) vars) = retain P (collect_vars vars)"
proof -
  have "map_of (filter (\<lambda>(k, _). P k) xs) = retain P (map_of xs)" for xs :: "(ustr \<times> ustr) list"
    by (induction xs) (auto simp: retain_def)
  then show ?thesis
    by (simp add: collect_vars_def rev_filter)
qed

text \<open>What the policy lets through of the inherited variables.\<close>

definition inherits_var :: "(ustr \<Rightarrow> ustr \<Rightarrow> bool) \<Rightarrow> target_os \<Rightarrow> env_policy \<Rightarrow> ustr \<Rightarrow> bool" where
  "inherits_var wild target policy k \<longleftrightarrow>
     (case ep_inherit policy of AllVars \<Rightarrow> True | NoVars \<Rightarrow> False | CoreVars \<Rightarrow> is_core_var target k) \<and>
     (ep_ignore_default_excludes policy \<or> \<not> matches_any wild k default_excludes) \<and>
     \<not> matches_any wild k (ep_exclude policy)"


section \<open>The form of a command that is remembered\<close>

definition script_prefix :: ustr where
  "script_prefix = lit ''__codex_shell_script__''"

definition powershell_prefix :: ustr where
  "powershell_prefix = lit ''__codex_powershell_script__''"

definition canonicalize_command_for_approval :: "(ustr \<Rightarrow> ts_tree option) \<Rightarrow> ustr list \<Rightarrow> ustr list" where
  "canonicalize_command_for_approval ts_parse command =
     (case parse_shell_lc_plain_commands ts_parse command of
        Some [single_command] \<Rightarrow> single_command
      | _ \<Rightarrow>
          (case extract_bash_command command of
             Some (_, script) \<Rightarrow>
               [script_prefix, (if 1 < length command then command ! 1 else []), script]
           | None \<Rightarrow>
               (case extract_powershell_command command of
                  Some (_, script) \<Rightarrow> [powershell_prefix, script]
                | None \<Rightarrow> command)))"

text \<open>What a command runs: the words of the one plain command of its script, the script of a shell
  with its flag, a PowerShell script, or its own words.\<close>

datatype what_runs = Words "ustr list" | Script ustr ustr | PowershellScript ustr

definition runs :: "(ustr \<Rightarrow> ts_tree option) \<Rightarrow> ustr list \<Rightarrow> what_runs" where
  "runs ts_parse command =
     (case parse_shell_lc_plain_commands ts_parse command of
        Some [single_command] \<Rightarrow> Words single_command
      | _ \<Rightarrow>
          (case (extract_bash_command command, extract_powershell_command command) of
             (Some (_, script), _) \<Rightarrow> Script (command ! 1) script
           | (None, Some (_, script)) \<Rightarrow> PowershellScript script
           | _ \<Rightarrow> Words command))"

text \<open>Words that look like one of the two reserved forms.\<close>

fun reserved :: "what_runs \<Rightarrow> bool" where
  "reserved (Words (w # _)) \<longleftrightarrow> w = script_prefix \<or> w = powershell_prefix"
| "reserved _ \<longleftrightarrow> False"

fun remembered_form :: "what_runs \<Rightarrow> ustr list" where
  "remembered_form (Words ws) = ws"
| "remembered_form (Script flag script) = [script_prefix, flag, script]"
| "remembered_form (PowershellScript script) = [powershell_prefix, script]"

lemma canonical_form: "canonicalize_command_for_approval ts_parse command = remembered_form (runs ts_parse command)"
proof -
  have "1 < length command" if "extract_bash_command command = Some x" for x
    using that by (auto simp: extract_bash_command_def split: list.splits)
  then show ?thesis
    by (auto simp: canonicalize_command_for_approval_def runs_def split: option.splits list.splits prod.splits)
qed

lemma remembered_form_inj:
  "\<not> reserved a \<Longrightarrow> \<not> reserved b \<Longrightarrow> remembered_form a = remembered_form b \<Longrightarrow> a = b"
  by (cases a; cases b) (auto simp: script_prefix_def powershell_prefix_def)


lemma script_runs:
  "runs (\<lambda>_. None) [lit ''bash'', lit ''-lc'', s] = Script (lit ''-lc'') s"
  "runs (\<lambda>_. None) [lit ''sh'', lit ''-lc'', s] = Script (lit ''-lc'') s"
  using detect_shell_literals
  by (simp_all add: runs_def parse_shell_lc_plain_commands_def extract_bash_command_def detect_shell_type.simps)


end
