(* ===== verification/Requirements.thy ===== *)
theory Requirements
  imports SandboxPolicies ExecPolicy
begin

text \<open>
  Configuration that an administrator enforces: \<open>config/src/constraint.rs\<close>,
  \<open>config/src/config_requirements.rs\<close> and \<open>config/src/requirements_exec_policy.rs\<close>. Reading the
  TOML is serde's work: the structures it fills are the inputs. A \<open>BTreeMap\<close> is an association list.
\<close>

section \<open>Constrained values\<close>

datatype requirement_source =
    UnknownSource
  | MdmManagedPreferences ustr ustr
  | CloudRequirements
  | SystemRequirementsToml path
  | LegacyManagedConfigTomlFromFile path
  | LegacyManagedConfigTomlFromMdm

fun show_source :: "(path \<Rightarrow> ustr) \<Rightarrow> requirement_source \<Rightarrow> ustr" where
  "show_source display UnknownSource = lit ''<unspecified>''"
| "show_source display (MdmManagedPreferences domain key) = lit ''MDM '' @ domain @ lit '':'' @ key"
| "show_source display CloudRequirements = lit ''cloud requirements''"
| "show_source display (SystemRequirementsToml file) = display file"
| "show_source display (LegacyManagedConfigTomlFromFile file) = display file"
| "show_source display LegacyManagedConfigTomlFromMdm = lit ''MDM managed_config.toml (legacy)''"

datatype constraint_error =
    InvalidValue ustr ustr ustr requirement_source
  | EmptyField ustr
  | ExecPolicyParse requirement_source ustr

fun show_constraint_error :: "(path \<Rightarrow> ustr) \<Rightarrow> constraint_error \<Rightarrow> ustr" where
  "show_constraint_error display (InvalidValue field candidate allowed source) =
     lit ''invalid value for `'' @ field @ lit ''`: `'' @ candidate @ lit ''` is not in the allowed set '' @
     allowed @ lit '' (set by '' @ show_source display source @ lit '')''"
| "show_constraint_error display (EmptyField field) = lit ''field `'' @ field @ lit ''` cannot be empty''"
| "show_constraint_error display (ExecPolicyParse source reason) =
     lit ''invalid rules in requirements (set by '' @ show_source display source @ lit ''): '' @ reason"

record 'a constrained =
  c_value :: 'a
  c_validator :: "'a \<Rightarrow> constraint_error + unit"
  c_normalizer :: "('a \<Rightarrow> 'a) option"

definition constrained_new :: "'a \<Rightarrow> ('a \<Rightarrow> constraint_error + unit) \<Rightarrow> constraint_error + 'a constrained" where
  "constrained_new initial_value validator =
     bindE (validator initial_value)
       (\<lambda>_. Inr \<lparr>c_value = initial_value, c_validator = validator, c_normalizer = None\<rparr>)"

definition normalized :: "'a \<Rightarrow> ('a \<Rightarrow> 'a) \<Rightarrow> constraint_error + 'a constrained" where
  "normalized initial_value normalizer =
     (let validator = (\<lambda>_. Inr ()); value = normalizer initial_value
      in bindE (validator value)
           (\<lambda>_. Inr \<lparr>c_value = value, c_validator = validator, c_normalizer = Some normalizer\<rparr>))"

definition allow_any :: "'a \<Rightarrow> 'a constrained" where
  "allow_any initial_value = \<lparr>c_value = initial_value, c_validator = (\<lambda>_. Inr ()), c_normalizer = None\<rparr>"

definition allow_only :: "('a \<Rightarrow> ustr) \<Rightarrow> 'a \<Rightarrow> 'a constrained" where
  "allow_only debug only_value =
     \<lparr>c_value = only_value,
      c_validator = (\<lambda>candidate. if candidate = only_value then Inr ()
        else Inl (InvalidValue (lit ''<unknown>'') (debug candidate) (lit ''['' @ debug only_value @ lit '']'')
                    UnknownSource)),
      c_normalizer = None\<rparr>"

definition can_set :: "'a constrained \<Rightarrow> 'a \<Rightarrow> constraint_error + unit" where
  "can_set c candidate = c_validator c candidate"

definition set_value :: "'a constrained \<Rightarrow> 'a \<Rightarrow> constraint_error + 'a constrained" where
  "set_value c value =
     (let value = (case c_normalizer c of Some normalizer \<Rightarrow> normalizer value | None \<Rightarrow> value)
      in bindE (c_validator c value) (\<lambda>_. Inr (c\<lparr>c_value := value\<rparr>)))"

text \<open>A client that keeps trying values; a refused one leaves the old value.\<close>

definition try_set :: "'a constrained \<Rightarrow> 'a \<Rightarrow> 'a constrained" where
  "try_set c value = (case set_value c value of Inr c' \<Rightarrow> c' | Inl _ \<Rightarrow> c)"

section \<open>What a requirement may be\<close>

datatype sandbox_mode = SandboxReadOnly | SandboxWorkspaceWrite | SandboxDangerFullAccess

datatype sandbox_mode_requirement = ModeReadOnly | ModeWorkspaceWrite | ModeDangerFullAccess | ModeExternalSandbox

fun requirement_of_mode :: "sandbox_mode \<Rightarrow> sandbox_mode_requirement" where
  "requirement_of_mode SandboxReadOnly = ModeReadOnly"
| "requirement_of_mode SandboxWorkspaceWrite = ModeWorkspaceWrite"
| "requirement_of_mode SandboxDangerFullAccess = ModeDangerFullAccess"

fun mode_of_policy :: "sandbox_policy \<Rightarrow> sandbox_mode_requirement" where
  "mode_of_policy (ReadOnly _) = ModeReadOnly"
| "mode_of_policy (WorkspaceWrite _ _ _ _ _) = ModeWorkspaceWrite"
| "mode_of_policy DangerFullAccess = ModeDangerFullAccess"
| "mode_of_policy (ExternalSandbox _) = ModeExternalSandbox"

datatype web_search_mode = WebDisabled | WebCached | WebLive

text \<open>\<open>WebSearchModeRequirement\<close> has the variants of \<open>WebSearchMode\<close>, and the two conversions match
  them up; one type stands for both.\<close>

datatype residency_requirement = Us

datatype mcp_server_identity = CommandIdentity ustr | UrlIdentity ustr

record mcp_server_requirement =
  mcp_identity :: mcp_server_identity

record network_requirements =
  net_enabled :: "bool option"
  net_http_port :: "16 word option"
  net_socks_port :: "16 word option"
  net_allow_upstream_proxy :: "bool option"
  net_allow_non_loopback_proxy :: "bool option"
  net_allow_non_loopback_admin :: "bool option"
  net_allowed_domains :: "ustr list option"
  net_denied_domains :: "ustr list option"
  net_allow_unix_sockets :: "ustr list option"
  net_allow_local_binding :: "bool option"

text \<open>The derived \<open>Debug\<close> of these types, which the messages quote.\<close>

fun debug_approval :: "ask_for_approval \<Rightarrow> ustr" where
  "debug_approval UnlessTrusted = lit ''UnlessTrusted''"
| "debug_approval OnFailure = lit ''OnFailure''"
| "debug_approval OnRequest = lit ''OnRequest''"
| "debug_approval Never = lit ''Never''"

fun debug_mode :: "sandbox_mode_requirement \<Rightarrow> ustr" where
  "debug_mode ModeReadOnly = lit ''ReadOnly''"
| "debug_mode ModeWorkspaceWrite = lit ''WorkspaceWrite''"
| "debug_mode ModeDangerFullAccess = lit ''DangerFullAccess''"
| "debug_mode ModeExternalSandbox = lit ''ExternalSandbox''"

fun debug_web :: "web_search_mode \<Rightarrow> ustr" where
  "debug_web WebDisabled = lit ''Disabled''"
| "debug_web WebCached = lit ''Cached''"
| "debug_web WebLive = lit ''Live''"

fun debug_residency :: "residency_requirement option \<Rightarrow> ustr" where
  "debug_residency None = lit ''None''"
| "debug_residency (Some Us) = lit ''Some(Us)''"

definition debug_list :: "('a \<Rightarrow> ustr) \<Rightarrow> 'a list \<Rightarrow> ustr" where
  "debug_list debug xs = lit ''['' @ join_with (lit '', '') (map debug xs) @ lit '']''"

section \<open>Rules in requirements\<close>

record pattern_token_toml =
  pt_token :: "ustr option"
  pt_any_of :: "ustr list option"

record prefix_rule_toml =
  pr_pattern :: "pattern_token_toml list"
  pr_decision :: "decision option"
  pr_justification :: "ustr option"

datatype rules_error =
    EmptyPrefixRules
  | EmptyPattern nat
  | InvalidPatternToken nat nat ustr
  | EmptyJustification nat
  | MissingDecision nat
  | AllowDecisionNotAllowed nat

fun show_rules_error :: "rules_error \<Rightarrow> ustr" where
  "show_rules_error EmptyPrefixRules = lit ''rules prefix_rules cannot be empty''"
| "show_rules_error (EmptyPattern i) =
     lit ''rules prefix_rule at index '' @ show_nat i @ lit '' has an empty pattern''"
| "show_rules_error (InvalidPatternToken i j reason) =
     lit ''rules prefix_rule at index '' @ show_nat i @ lit '' has an invalid pattern token at index '' @
     show_nat j @ lit '': '' @ reason"
| "show_rules_error (EmptyJustification i) =
     lit ''rules prefix_rule at index '' @ show_nat i @ lit '' has an empty justification''"
| "show_rules_error (MissingDecision i) =
     lit ''rules prefix_rule at index '' @ show_nat i @ lit '' is missing a decision''"
| "show_rules_error (AllowDecisionNotAllowed i) =
     lit ''rules prefix_rule at index '' @ show_nat i @
     lit '' has decision 'allow', which is not permitted in requirements.toml: Codex merges these rules with other config and uses the most restrictive result (use 'prompt' or 'forbidden')''"

definition parse_token_toml :: "pattern_token_toml \<Rightarrow> nat \<Rightarrow> nat \<Rightarrow> rules_error + pattern_token" where
  "parse_token_toml tok rule_index token_index =
     (let invalid = (\<lambda>reason. Inl (InvalidPatternToken rule_index token_index (lit reason)))
      in case (pt_token tok, pt_any_of tok) of
           (Some single, None) \<Rightarrow>
             if trim single = [] then invalid ''token cannot be empty'' else Inr (Single single)
         | (None, Some alts) \<Rightarrow>
             if alts = [] then invalid ''any_of cannot be empty''
             else if list_ex (\<lambda>alt. trim alt = []) alts then invalid ''any_of cannot include empty tokens''
             else Inr (Alts alts)
         | (Some _, Some _) \<Rightarrow> invalid ''set either token or any_of, not both''
         | (None, None) \<Rightarrow> invalid ''set either token or any_of'')"

fun parse_tokens_toml :: "nat \<Rightarrow> nat \<Rightarrow> pattern_token_toml list \<Rightarrow> rules_error + pattern_token list" where
  "parse_tokens_toml rule_index token_index [] = Inr []"
| "parse_tokens_toml rule_index token_index (tok # toks) =
     bindE (parse_token_toml tok rule_index token_index) (\<lambda>t.
     bindE (parse_tokens_toml rule_index (token_index + 1) toks) (\<lambda>ts. Inr (t # ts)))"

definition insert_rule_toml ::
  "('m, prefix_rule) multimap_ops \<Rightarrow> nat \<Rightarrow> prefix_rule_toml \<Rightarrow> 'm \<Rightarrow> rules_error + 'm" where
  "insert_rule_toml mm rule_index rule rules =
     (if (case pr_justification rule of Some j \<Rightarrow> trim j = [] | None \<Rightarrow> False)
      then Inl (EmptyJustification rule_index)
      else if pr_pattern rule = [] then Inl (EmptyPattern rule_index)
      else
        bindE (parse_tokens_toml rule_index 0 (pr_pattern rule)) (\<lambda>tokens.
        bindE (case pr_decision rule of
                 Some Allow \<Rightarrow> Inl (AllowDecisionNotAllowed rule_index)
               | Some d \<Rightarrow> Inr d
               | None \<Rightarrow> Inl (MissingDecision rule_index)) (\<lambda>d.
        case tokens of
          [] \<Rightarrow> Inl (EmptyPattern rule_index)
        | first_token # remaining \<Rightarrow>
            Inr (foldl (\<lambda>rules head. mm_insert mm rules head
                   \<lparr>rule_pattern = \<lparr>pat_first = head, pat_rest = remaining\<rparr>, rule_decision = d,
                    rule_justification = pr_justification rule\<rparr>) rules (alternatives first_token)))))"

fun insert_rules_toml ::
  "('m, prefix_rule) multimap_ops \<Rightarrow> nat \<Rightarrow> prefix_rule_toml list \<Rightarrow> 'm \<Rightarrow> rules_error + 'm" where
  "insert_rules_toml mm rule_index [] rules = Inr rules"
| "insert_rules_toml mm rule_index (rule # rest) rules =
     bindE (insert_rule_toml mm rule_index rule rules) (insert_rules_toml mm (rule_index + 1) rest)"

definition to_policy :: "('m, prefix_rule) multimap_ops \<Rightarrow> prefix_rule_toml list \<Rightarrow> rules_error + 'm policy" where
  "to_policy mm prefix_rules =
     (if prefix_rules = [] then Inl EmptyPrefixRules
      else bindE (insert_rules_toml mm 0 prefix_rules (mm_new mm)) (\<lambda>rules. Inr \<lparr>rules_by_program = rules\<rparr>))"

section \<open>Merging the sources\<close>

record config_requirements_toml =
  allowed_approval_policies :: "ask_for_approval list option"
  allowed_sandbox_modes :: "sandbox_mode_requirement list option"
  allowed_web_search_modes :: "web_search_mode list option"
  mcp_servers_toml :: "(ustr \<times> mcp_server_requirement) list option"
  rules_toml :: "prefix_rule_toml list option"
  residency_toml :: "residency_requirement option"
  network_toml :: "network_requirements option"

definition requirements_toml_default :: config_requirements_toml where
  "requirements_toml_default =
     \<lparr>allowed_approval_policies = None, allowed_sandbox_modes = None, allowed_web_search_modes = None,
      mcp_servers_toml = None, rules_toml = None, residency_toml = None, network_toml = None\<rparr>"

definition toml_is_empty :: "config_requirements_toml \<Rightarrow> bool" where
  "toml_is_empty t \<longleftrightarrow>
     allowed_approval_policies t = None \<and> allowed_sandbox_modes t = None \<and> allowed_web_search_modes t = None \<and>
     mcp_servers_toml t = None \<and> rules_toml t = None \<and> residency_toml t = None \<and> network_toml t = None"

record 'a sourced =
  sourced_value :: 'a
  sourced_from :: requirement_source

record requirements_with_sources =
  approval_policies_from :: "ask_for_approval list sourced option"
  sandbox_modes_from :: "sandbox_mode_requirement list sourced option"
  web_search_modes_from :: "web_search_mode list sourced option"
  mcp_servers_from :: "(ustr \<times> mcp_server_requirement) list sourced option"
  rules_from :: "prefix_rule_toml list sourced option"
  residency_from :: "residency_requirement sourced option"
  network_from :: "network_requirements sourced option"

definition with_sources_default :: requirements_with_sources where
  "with_sources_default =
     \<lparr>approval_policies_from = None, sandbox_modes_from = None, web_search_modes_from = None,
      mcp_servers_from = None, rules_from = None, residency_from = None, network_from = None\<rparr>"

text \<open>The macro \<open>fill_missing_take\<close> for one field.\<close>

fun fill_missing :: "requirement_source \<Rightarrow> 'a sourced option \<Rightarrow> 'a option \<Rightarrow> 'a sourced option" where
  "fill_missing source (Some s) other = Some s"
| "fill_missing source None other = map_option (\<lambda>v. \<lparr>sourced_value = v, sourced_from = source\<rparr>) other"

definition merge_unset_fields ::
  "requirements_with_sources \<Rightarrow> requirement_source \<Rightarrow> config_requirements_toml \<Rightarrow> requirements_with_sources" where
  "merge_unset_fields base source other =
     \<lparr>approval_policies_from = fill_missing source (approval_policies_from base) (allowed_approval_policies other),
      sandbox_modes_from = fill_missing source (sandbox_modes_from base) (allowed_sandbox_modes other),
      web_search_modes_from = fill_missing source (web_search_modes_from base) (allowed_web_search_modes other),
      mcp_servers_from = fill_missing source (mcp_servers_from base) (mcp_servers_toml other),
      rules_from = fill_missing source (rules_from base) (rules_toml other),
      residency_from = fill_missing source (residency_from base) (residency_toml other),
      network_from = fill_missing source (network_from base) (network_toml other)\<rparr>"

definition into_toml :: "requirements_with_sources \<Rightarrow> config_requirements_toml" where
  "into_toml r =
     \<lparr>allowed_approval_policies = map_option sourced_value (approval_policies_from r),
      allowed_sandbox_modes = map_option sourced_value (sandbox_modes_from r),
      allowed_web_search_modes = map_option sourced_value (web_search_modes_from r),
      mcp_servers_toml = map_option sourced_value (mcp_servers_from r),
      rules_toml = map_option sourced_value (rules_from r),
      residency_toml = map_option sourced_value (residency_from r),
      network_toml = map_option sourced_value (network_from r)\<rparr>"

section \<open>The requirements in force\<close>

record 'a constrained_with_source =
  cs_value :: "'a constrained"
  cs_source :: "requirement_source option"

record 'm config_requirements =
  approval_policy :: "ask_for_approval constrained_with_source"
  sandbox_policy :: "sandbox_policy constrained_with_source"
  web_search_mode :: "web_search_mode constrained_with_source"
  mcp_servers :: "(ustr \<times> mcp_server_requirement) list sourced option"
  exec_policy :: "'m policy sourced option"
  enforce_residency :: "residency_requirement option constrained_with_source"
  network :: "network_requirements sourced option"

definition unconstrained :: "'a \<Rightarrow> 'a constrained_with_source" where
  "unconstrained initial_value = \<lparr>cs_value = allow_any initial_value, cs_source = None\<rparr>"

definition config_requirements_default :: "'m config_requirements" where
  "config_requirements_default =
     \<lparr>approval_policy = unconstrained OnRequest, sandbox_policy = unconstrained new_read_only_policy,
      web_search_mode = unconstrained WebCached, mcp_servers = None, exec_policy = None,
      enforce_residency = unconstrained None, network = None\<rparr>"

text \<open>The validator of an allow list, whose error quotes the candidate and the list.\<close>

definition allow_list ::
  "ustr \<Rightarrow> ('a \<Rightarrow> bool) \<Rightarrow> ('a \<Rightarrow> ustr) \<Rightarrow> ustr \<Rightarrow> requirement_source \<Rightarrow> 'a \<Rightarrow> constraint_error + unit" where
  "allow_list field permits debug shown source candidate =
     (if permits candidate then Inr () else Inl (InvalidValue field (debug candidate) shown source))"

definition approval_requirement ::
  "ask_for_approval list \<Rightarrow> requirement_source \<Rightarrow> constraint_error + ask_for_approval constrained" where
  "approval_requirement policies source =
     (case policies of
        [] \<Rightarrow> Inl (EmptyField (lit ''allowed_approval_policies''))
      | initial_value # _ \<Rightarrow>
          constrained_new initial_value
            (allow_list (lit ''approval_policy'') (\<lambda>c. c \<in> set policies) debug_approval
               (debug_list debug_approval policies) source))"

definition sandbox_requirement ::
  "sandbox_mode_requirement list \<Rightarrow> requirement_source \<Rightarrow> constraint_error + sandbox_policy constrained" where
  "sandbox_requirement modes source =
     (if ModeReadOnly \<notin> set modes
      then Inl (InvalidValue (lit ''allowed_sandbox_modes'') (debug_list debug_mode modes)
                  (lit ''must include 'read-only' to allow any SandboxPolicy'') source)
      else constrained_new new_read_only_policy
             (allow_list (lit ''sandbox_mode'') (\<lambda>c. mode_of_policy c \<in> set modes) (debug_mode \<circ> mode_of_policy)
                (debug_list debug_mode modes) source))"

text \<open>The accepted modes are a \<open>BTreeSet\<close>, iterated in the order of the enumeration.\<close>

definition accepted_web_modes :: "web_search_mode list \<Rightarrow> web_search_mode list" where
  "accepted_web_modes modes = filter (\<lambda>m. m \<in> set (WebDisabled # modes)) [WebDisabled, WebCached, WebLive]"

definition web_requirement ::
  "web_search_mode list \<Rightarrow> requirement_source \<Rightarrow> constraint_error + web_search_mode constrained" where
  "web_requirement modes source =
     (let accepted = accepted_web_modes modes;
          initial_value = (if WebCached \<in> set accepted then WebCached
                           else if WebLive \<in> set accepted then WebLive else WebDisabled)
      in constrained_new initial_value
           (allow_list (lit ''web_search_mode'') (\<lambda>c. c \<in> set accepted) debug_web (debug_list debug_web accepted) source))"

definition residency_constraint ::
  "residency_requirement \<Rightarrow> requirement_source \<Rightarrow> constraint_error + residency_requirement option constrained" where
  "residency_constraint residency source =
     (let required = Some residency
      in constrained_new required
           (allow_list (lit ''enforce_residency'') (\<lambda>c. c = required) debug_residency (debug_residency required) source))"

definition constrain_field ::
  "('r \<Rightarrow> requirement_source \<Rightarrow> constraint_error + 'a constrained) \<Rightarrow> 'r sourced option \<Rightarrow> 'a
    \<Rightarrow> constraint_error + 'a constrained_with_source" where
  "constrain_field build field default_value =
     (case field of
        Some s \<Rightarrow>
          bindE (build (sourced_value s) (sourced_from s))
            (\<lambda>c. Inr \<lparr>cs_value = c, cs_source = Some (sourced_from s)\<rparr>)
      | None \<Rightarrow> Inr (unconstrained default_value))"

definition rules_requirement ::
  "('m, prefix_rule) multimap_ops \<Rightarrow> prefix_rule_toml list sourced option
    \<Rightarrow> constraint_error + 'm policy sourced option" where
  "rules_requirement mm rules =
     (case rules of
        Some s \<Rightarrow>
          bindE (map_errE (\<lambda>err. ExecPolicyParse (sourced_from s) (show_rules_error err))
                   (to_policy mm (sourced_value s)))
            (\<lambda>pol. Inr (Some \<lparr>sourced_value = pol, sourced_from = sourced_from s\<rparr>))
      | None \<Rightarrow> Inr None)"

definition requirements_of ::
  "('m, prefix_rule) multimap_ops \<Rightarrow> requirements_with_sources \<Rightarrow> constraint_error + 'm config_requirements" where
  "requirements_of mm t =
     bindE (constrain_field approval_requirement (approval_policies_from t) OnRequest) (\<lambda>approval.
     bindE (constrain_field sandbox_requirement (sandbox_modes_from t) new_read_only_policy) (\<lambda>sandbox.
     bindE (rules_requirement mm (rules_from t)) (\<lambda>rules.
     bindE (constrain_field web_requirement (web_search_modes_from t) WebCached) (\<lambda>web.
     bindE (constrain_field residency_constraint (residency_from t) None) (\<lambda>residency.
     Inr \<lparr>approval_policy = approval, sandbox_policy = sandbox, web_search_mode = web,
          mcp_servers = mcp_servers_from t, exec_policy = rules, enforce_residency = residency,
          network = network_from t\<rparr>)))))"

section \<open>A constraint holds whatever is tried\<close>

lemma is_ok_iff: "is_ok r \<longleftrightarrow> (\<exists>x. r = Inr x)"
  by (cases r) auto

lemma allow_list_ok [simp]: "is_ok (allow_list field permits debug shown source v) \<longleftrightarrow> permits v"
  by (simp add: allow_list_def)

lemma constrained_new_allow_list:
  "constrained_new v (allow_list field permits debug shown source) = Inr c \<longleftrightarrow>
   permits v \<and> c = \<lparr>c_value = v, c_validator = allow_list field permits debug shown source, c_normalizer = None\<rparr>"
  by (auto simp: constrained_new_def allow_list_def)

text \<open>What the fields of the requirements promise, each for its own lists: the value is permitted, and
  the validator accepts exactly what is.\<close>

locale requirement =
  fixes build :: "'r \<Rightarrow> requirement_source \<Rightarrow> constraint_error + 'a constrained"
    and permits :: "'r \<Rightarrow> 'a \<Rightarrow> bool"
  assumes value_permitted: "build r source = Inr c \<Longrightarrow> permits r (c_value c)"
    and validator_exact: "build r source = Inr c \<Longrightarrow> is_ok (c_validator c v) \<longleftrightarrow> permits r v"
    and not_normalized: "build r source = Inr c \<Longrightarrow> c_normalizer c = None"
begin

definition in_force :: "'r \<Rightarrow> 'a constrained \<Rightarrow> bool" where
  "in_force r c \<longleftrightarrow>
     permits r (c_value c) \<and> (\<forall>v. is_ok (c_validator c v) \<longleftrightarrow> permits r v) \<and> c_normalizer c = None"

lemma built_in_force: "build r source = Inr c \<Longrightarrow> in_force r c"
  using value_permitted validator_exact not_normalized by (auto simp: in_force_def)

lemma set_value_in_force:
  assumes "in_force r c"
  shows "set_value c v = (if permits r v then Inr (c\<lparr>c_value := v\<rparr>) else Inl (projl (c_validator c v)))"
proof -
  from assms have "is_ok (c_validator c v) \<longleftrightarrow> permits r v" "c_normalizer c = None"
    unfolding in_force_def by blast+
  then show ?thesis
    by (cases "c_validator c v") (simp_all add: set_value_def)
qed

lemma try_set_in_force: "in_force r c \<Longrightarrow> in_force r (try_set c v)"
  by (simp add: try_set_def set_value_in_force [of r]) (simp add: in_force_def)

lemma tried_in_force: "in_force r c \<Longrightarrow> in_force r (foldl try_set c vs)"
proof (induction vs arbitrary: c)
  case (Cons v vs)
  then show ?case
    by (simp add: try_set_in_force)
qed simp

lemma can_set_in_force: "in_force r c \<Longrightarrow> is_ok (can_set c v) \<longleftrightarrow> permits r v"
  by (simp add: in_force_def can_set_def)

lemma field_in_force:
  "constrain_field build (Some s) d = Inr f \<Longrightarrow> in_force (sourced_value s) (foldl try_set (cs_value f) vs)"
  unfolding constrain_field_def
  by (auto simp: res_ops simp del: foldl_Cons intro!: tried_in_force dest: built_in_force)

lemma field_keeps:
  assumes "constrain_field build field d = Inr f" and "field = Some s"
  shows "permits (sourced_value s) (c_value (foldl try_set (cs_value f) vs)) \<and>
    (is_ok (can_set (foldl try_set (cs_value f) vs) v) \<longleftrightarrow> permits (sourced_value s) v)"
  using field_in_force [of s d f vs] can_set_in_force [of "sourced_value s" "foldl try_set (cs_value f) vs" v] assms
  by (auto simp: in_force_def)

end

definition web_permitted :: "web_search_mode list \<Rightarrow> web_search_mode \<Rightarrow> bool" where
  "web_permitted modes m \<longleftrightarrow> m = WebDisabled \<or> m \<in> set modes"

lemma accepted_web_modes_iff: "m \<in> set (accepted_web_modes modes) \<longleftrightarrow> web_permitted modes m"
  by (cases m) (auto simp: accepted_web_modes_def web_permitted_def)

interpretation approval_field: requirement approval_requirement "\<lambda>policies p. p \<in> set policies"
  by unfold_locales (auto simp: approval_requirement_def constrained_new_allow_list split: list.splits)

interpretation sandbox_field: requirement sandbox_requirement "\<lambda>modes p. mode_of_policy p \<in> set modes"
  by unfold_locales
    (auto simp: sandbox_requirement_def constrained_new_allow_list new_read_only_policy_def split: if_splits)

interpretation web_field: requirement web_requirement web_permitted
  by unfold_locales (auto simp: web_requirement_def constrained_new_allow_list accepted_web_modes_iff Let_def)

interpretation residency_field: requirement residency_constraint "\<lambda>residency p. p = Some residency"
  by unfold_locales (auto simp: residency_constraint_def constrained_new_allow_list Let_def)

text \<open>C23: a requirement holds whatever a client tries. When the requirements are accepted, then after
  any attempts to set the approval policy, the sandbox policy, the web search mode and the residency,
  each has a value that its list permits; and exactly the permitted values can be set, where search
  can always be turned off.\<close>
theorem requirements_always_respected:
  assumes "requirements_of mm t = Inr cfg"
  shows "(\<forall>s. approval_policies_from t = Some s \<longrightarrow>
      (let c = foldl try_set (cs_value (approval_policy cfg)) approvals
       in c_value c \<in> set (sourced_value s) \<and> (is_ok (can_set c a) \<longleftrightarrow> a \<in> set (sourced_value s)))) \<and>
    (\<forall>s. sandbox_modes_from t = Some s \<longrightarrow>
      (let c = foldl try_set (cs_value (sandbox_policy cfg)) sandboxes
       in mode_of_policy (c_value c) \<in> set (sourced_value s) \<and>
          (is_ok (can_set c p) \<longleftrightarrow> mode_of_policy p \<in> set (sourced_value s)))) \<and>
    (\<forall>s. web_search_modes_from t = Some s \<longrightarrow>
      (let c = foldl try_set (cs_value (web_search_mode cfg)) webs
       in c_value c \<in> set (WebDisabled # sourced_value s) \<and>
          (is_ok (can_set c w) \<longleftrightarrow> w \<in> set (WebDisabled # sourced_value s)))) \<and>
    (\<forall>s. residency_from t = Some s \<longrightarrow>
      c_value (foldl try_set (cs_value (enforce_residency cfg)) residencies) = Some (sourced_value s))"
proof -
  from assms have fields:
    "constrain_field approval_requirement (approval_policies_from t) OnRequest = Inr (approval_policy cfg)"
    "constrain_field sandbox_requirement (sandbox_modes_from t) new_read_only_policy = Inr (sandbox_policy cfg)"
    "constrain_field web_requirement (web_search_modes_from t) WebCached = Inr (web_search_mode cfg)"
    "constrain_field residency_constraint (residency_from t) None = Inr (enforce_residency cfg)"
    by (auto simp: requirements_of_def res_ops)
  show ?thesis
    using approval_field.field_keeps [OF fields(1)] sandbox_field.field_keeps [OF fields(2)]
      web_field.field_keeps [OF fields(3)] residency_field.field_keeps [OF fields(4)]
    by (auto simp: Let_def web_permitted_def)
qed

definition managed_example :: requirements_with_sources where
  "managed_example = with_sources_default
     \<lparr>approval_policies_from := Some \<lparr>sourced_value = [OnRequest], sourced_from = CloudRequirements\<rparr>,
      sandbox_modes_from := Some \<lparr>sourced_value = [ModeReadOnly], sourced_from = CloudRequirements\<rparr>\<rparr>"

theorem requirements_always_respected_witness:
  "\<exists>cfg. requirements_of alist_multimap managed_example = Inr cfg \<and>
     c_value (foldl try_set (cs_value (approval_policy cfg)) [Never, OnFailure]) = OnRequest \<and>
     \<not> is_ok (can_set (cs_value (sandbox_policy cfg)) DangerFullAccess)"
proof -
  obtain cfg where cfg: "requirements_of alist_multimap managed_example = Inr cfg"
    by (simp add: requirements_of_def managed_example_def with_sources_default_def constrain_field_def
        approval_requirement_def sandbox_requirement_def constrained_new_allow_list rules_requirement_def
        constrained_new_def allow_list_def new_read_only_policy_def)
  from requirements_always_respected [OF cfg, of "[Never, OnFailure]" Never "[]" DangerFullAccess "[]" WebLive "[]"]
  have "c_value (foldl try_set (cs_value (approval_policy cfg)) [Never, OnFailure]) = OnRequest"
    and "\<not> is_ok (can_set (cs_value (sandbox_policy cfg)) DangerFullAccess)"
    by (simp_all add: managed_example_def with_sources_default_def Let_def)
  with cfg show ?thesis by blast
qed

section \<open>The first source wins\<close>

definition merge_sources :: "(requirement_source \<times> config_requirements_toml) list \<Rightarrow> requirements_with_sources" where
  "merge_sources sources = foldl (\<lambda>r (source, t). merge_unset_fields r source t) with_sources_default sources"

definition first_source ::
  "(config_requirements_toml \<Rightarrow> 'a option) \<Rightarrow> (requirement_source \<times> config_requirements_toml) list \<Rightarrow> 'a sourced option" where
  "first_source field sources =
     find_map (\<lambda>(source, t). map_option (\<lambda>v. \<lparr>sourced_value = v, sourced_from = source\<rparr>) (field t)) sources"

lemma merged_field:
  assumes merge: "\<And>r source t. get (merge_unset_fields r source t) = fill_missing source (get r) (field t)"
    and unset: "get with_sources_default = None"
  shows "get (merge_sources sources) = first_source field sources"
proof -
  have "get (foldl (\<lambda>r (source, t). merge_unset_fields r source t) r sources) =
      (case get r of Some s \<Rightarrow> Some s | None \<Rightarrow> first_source field sources)" for r
  proof (induction sources arbitrary: r)
    case (Cons st sources)
    obtain source t where st: "st = (source, t)"
      by (cases st)
    show ?case
      using Cons.IH [of "merge_unset_fields r source t"]
      by (cases "get r"; cases "field t") (simp_all add: st merge first_source_def)
  qed (simp add: first_source_def split: option.splits)
  from this [of with_sources_default] unset show ?thesis
    by (simp add: merge_sources_def)
qed

text \<open>A requirement of an earlier source cannot be overridden by a later one. Merging the sources in
  order gives each field the value, and the name of the source, of the first source that sets it, and
  what the API reports is the merged value without its source.\<close>
theorem first_source_wins:
  "approval_policies_from (merge_sources sources) = first_source allowed_approval_policies sources \<and>
   sandbox_modes_from (merge_sources sources) = first_source allowed_sandbox_modes sources \<and>
   web_search_modes_from (merge_sources sources) = first_source allowed_web_search_modes sources \<and>
   mcp_servers_from (merge_sources sources) = first_source mcp_servers_toml sources \<and>
   rules_from (merge_sources sources) = first_source rules_toml sources \<and>
   residency_from (merge_sources sources) = first_source residency_toml sources \<and>
   network_from (merge_sources sources) = first_source network_toml sources \<and>
   allowed_sandbox_modes (into_toml (merge_sources sources)) =
     find_map (\<lambda>(source, t). allowed_sandbox_modes t) sources"
proof -
  have reported: "map_option sourced_value (first_source field sources) = find_map (\<lambda>(source, t). field t) sources"
    for field :: "config_requirements_toml \<Rightarrow> 'a option"
    unfolding first_source_def
  proof (induction sources)
    case (Cons st sources)
    then show ?case
      by (cases st; cases "field (snd st)") auto
  qed simp
  have modes: "sandbox_modes_from (merge_sources sources) = first_source allowed_sandbox_modes sources"
    by (rule merged_field) (simp_all add: merge_unset_fields_def with_sources_default_def)
  show ?thesis
    by (intro conjI merged_field modes)
      (simp_all add: merge_unset_fields_def with_sources_default_def into_toml_def modes reported)
qed

section \<open>Rules in requirements only restrict\<close>

definition rules_at :: "('m, 'r) multimap_ops \<Rightarrow> 'm \<Rightarrow> ustr \<Rightarrow> 'r list" where
  "rules_at mm m k = (case mm_get_vec mm m k of Some rules \<Rightarrow> rules | None \<Rightarrow> [])"

lemma rules_at_insert:
  "multimap_laws mm \<Longrightarrow> rules_at mm (mm_insert mm m k v) k' = rules_at mm m k' @ (if k' = k then [v] else [])"
  by (simp add: rules_at_def multimap_get_insert split: option.splits)

lemma rules_at_heads:
  "multimap_laws mm \<Longrightarrow>
   rules_at mm (foldl (\<lambda>m head. mm_insert mm m head (mk head)) m heads) k =
     rules_at mm m k @ map mk (filter (\<lambda>h. h = k) heads)"
  by (induction heads arbitrary: m) (simp_all add: rules_at_insert)

text \<open>The decisions of the rules that match a command.\<close>

definition decisions_for :: "('m, prefix_rule) multimap_ops \<Rightarrow> 'm policy \<Rightarrow> ustr list \<Rightarrow> decision set" where
  "decisions_for mm pol cmd = match_decision ` set (matches_for_command mm pol cmd None)"

lemma decisions_for_iff:
  "d \<in> decisions_for mm pol cmd \<longleftrightarrow>
     (\<exists>c rest r. cmd = c # rest \<and> r \<in> set (rules_at mm (rules_by_program pol) c) \<and> rule_decision r = d \<and>
        rule_matches r cmd \<noteq> None)"
proof (cases cmd)
  case (Cons c rest)
  then have matches: "set (matches_for_command mm pol cmd None) =
      {m. \<exists>r \<in> set (rules_at mm (rules_by_program pol) c). rule_matches r cmd = Some m}"
    by (cases "mm_get_vec mm (rules_by_program pol) c")
      (force simp: matches_for_command_def rules_at_def List.map_filter_def image_iff)+
  have "d \<in> decisions_for mm pol cmd \<longleftrightarrow>
      (\<exists>r \<in> set (rules_at mm (rules_by_program pol) c). \<exists>m. rule_matches r cmd = Some m \<and> match_decision m = d)"
    unfolding decisions_for_def matches by blast
  also have "\<dots> \<longleftrightarrow>
      (\<exists>r \<in> set (rules_at mm (rules_by_program pol) c). rule_decision r = d \<and> rule_matches r cmd \<noteq> None)"
    by (intro bex_cong refl) (auto simp: rule_matches_decision)
  finally show ?thesis
    by (simp add: Cons) blast
qed (simp add: decisions_for_def matches_for_command_Nil)

text \<open>A token of a pattern in TOML and the words that it stands for; when a rule covers a command.\<close>

definition toml_token_matches :: "pattern_token_toml \<Rightarrow> ustr \<Rightarrow> bool" where
  "toml_token_matches tok w \<longleftrightarrow> pt_token tok = Some w \<or> (\<exists>alts. pt_any_of tok = Some alts \<and> w \<in> set alts)"

definition toml_covers :: "prefix_rule_toml \<Rightarrow> ustr list \<Rightarrow> bool" where
  "toml_covers rule cmd \<longleftrightarrow>
     length (pr_pattern rule) \<le> length cmd \<and>
     list_all2 toml_token_matches (pr_pattern rule) (take (length (pr_pattern rule)) cmd)"

lemma parse_token_toml_words:
  "parse_token_toml tok i j = Inr t \<Longrightarrow> w \<in> set (alternatives t) \<longleftrightarrow> toml_token_matches tok w"
  by (auto simp: parse_token_toml_def toml_token_matches_def Let_def split: option.splits if_splits)

lemma parse_tokens_toml_all2:
  "parse_tokens_toml i j toks = Inr ts \<Longrightarrow>
   list_all2 (\<lambda>tok t. \<forall>w. w \<in> set (alternatives t) \<longleftrightarrow> toml_token_matches tok w) toks ts"
  by (induction toks arbitrary: j ts) (auto simp: res_ops parse_token_toml_words)

lemma all2_words:
  assumes "list_all2 (\<lambda>tok t. \<forall>w. w \<in> set (alternatives t) \<longleftrightarrow> toml_token_matches tok w) toks ts"
  shows "list_all2 (\<lambda>t w. w \<in> set (alternatives t)) ts ws \<longleftrightarrow> list_all2 toml_token_matches toks ws"
  using assms by (induction arbitrary: ws rule: list_all2_induct) (auto simp: list_all2_Cons1)

lemma rule_matches_cons:
  "rule_matches \<lparr>rule_pattern = \<lparr>pat_first = c, pat_rest = ts\<rparr>, rule_decision = d, rule_justification = j\<rparr> (c # rest) \<noteq> None
   \<longleftrightarrow> length ts \<le> length rest \<and> list_all2 (\<lambda>t w. w \<in> set (alternatives t)) ts (take (length ts) rest)"
proof -
  have "token_matches = (\<lambda>t w. w \<in> set (alternatives t))"
    by (intro ext) (rule token_matches_iff)
  then show ?thesis
    by (auto simp: rule_matches_def matches_prefix_def Let_def tokens_match_iff)
qed

lemma insert_rule_toml_ok:
  assumes "multimap_laws mm" and "insert_rule_toml mm i rule m = Inr m'"
  obtains d where "pr_decision rule = Some d" and "d \<noteq> Allow"
    and "\<And>cmd. decisions_for mm \<lparr>rules_by_program = m'\<rparr> cmd =
      decisions_for mm \<lparr>rules_by_program = m\<rparr> cmd \<union> (if toml_covers rule cmd then {d} else {})"
proof -
  from assms(2) obtain tokens d where tokens: "parse_tokens_toml i 0 (pr_pattern rule) = Inr tokens"
    and d: "pr_decision rule = Some d" "d \<noteq> Allow" and ne: "pr_pattern rule \<noteq> []" "tokens \<noteq> []"
    and m': "m' = foldl (\<lambda>rules head. mm_insert mm rules head
        \<lparr>rule_pattern = \<lparr>pat_first = head, pat_rest = tl tokens\<rparr>, rule_decision = d,
         rule_justification = pr_justification rule\<rparr>) m (alternatives (hd tokens))"
    by (auto simp: insert_rule_toml_def res_ops split: if_splits option.splits decision.splits list.splits)
  obtain tok toks where pat: "pr_pattern rule = tok # toks"
    using ne(1) by (cases "pr_pattern rule") auto
  obtain t ts where tks: "tokens = t # ts"
    using ne(2) by (cases tokens) auto
  from parse_tokens_toml_all2 [OF tokens]
  have t: "\<And>w. w \<in> set (alternatives t) \<longleftrightarrow> toml_token_matches tok w"
    and ts: "list_all2 (\<lambda>tok t. \<forall>w. w \<in> set (alternatives t) \<longleftrightarrow> toml_token_matches tok w) toks ts"
    by (auto simp: pat tks)
  have len: "length ts = length toks"
    using ts by (auto dest: list_all2_lengthD)
  have "x \<in> decisions_for mm \<lparr>rules_by_program = m'\<rparr> cmd \<longleftrightarrow>
      x \<in> decisions_for mm \<lparr>rules_by_program = m\<rparr> cmd \<or> (toml_covers rule cmd \<and> x = d)" for x cmd
  proof (cases cmd)
    case (Cons c rest)
    have covers: "toml_covers rule (c # rest) \<longleftrightarrow> c \<in> set (alternatives t) \<and> length ts \<le> length rest \<and>
        list_all2 (\<lambda>t w. w \<in> set (alternatives t)) ts (take (length ts) rest)"
      using t all2_words [OF ts] by (auto simp: toml_covers_def pat len)
    let ?new = "\<lparr>rule_pattern = \<lparr>pat_first = c, pat_rest = ts\<rparr>, rule_decision = d,
      rule_justification = pr_justification rule\<rparr>"
    have "set (rules_at mm m' c) = set (rules_at mm m c) \<union> (if c \<in> set (alternatives t) then {?new} else {})"
      by (auto simp: m' rules_at_heads [OF assms(1)] tks)
    then have "x \<in> decisions_for mm \<lparr>rules_by_program = m'\<rparr> (c # rest) \<longleftrightarrow>
        x \<in> decisions_for mm \<lparr>rules_by_program = m\<rparr> (c # rest) \<or>
        (c \<in> set (alternatives t) \<and> x = d \<and> rule_matches ?new (c # rest) \<noteq> None)"
      by (cases "c \<in> set (alternatives t)") (auto simp: decisions_for_iff simp del: not_None_eq)
    then show ?thesis
      by (simp only: Cons covers rule_matches_cons) blast
  qed (simp add: decisions_for_def matches_for_command_Nil toml_covers_def pat)
  then have "decisions_for mm \<lparr>rules_by_program = m'\<rparr> cmd =
      decisions_for mm \<lparr>rules_by_program = m\<rparr> cmd \<union> (if toml_covers rule cmd then {d} else {})" for cmd
    by (intro set_eqI) simp
  with d that show ?thesis by blast
qed

lemma insert_rules_toml_ok:
  assumes "multimap_laws mm" and "insert_rules_toml mm i rules m = Inr m'"
  shows "list_all (\<lambda>rule. pr_decision rule \<in> {Some Prompt, Some Forbidden}) rules \<and>
    decisions_for mm \<lparr>rules_by_program = m'\<rparr> cmd =
      decisions_for mm \<lparr>rules_by_program = m\<rparr> cmd \<union>
      {d. \<exists>rule \<in> set rules. pr_decision rule = Some d \<and> toml_covers rule cmd}"
  using assms(2)
proof (induction rules arbitrary: i m)
  case (Cons rule rules)
  from Cons.prems obtain m1 where m1: "insert_rule_toml mm i rule m = Inr m1"
    and rest: "insert_rules_toml mm (i + 1) rules m1 = Inr m'"
    by (auto simp: res_ops)
  from insert_rule_toml_ok [OF assms(1) m1] obtain d where d: "pr_decision rule = Some d" "d \<noteq> Allow"
    and step: "decisions_for mm \<lparr>rules_by_program = m1\<rparr> cmd =
      decisions_for mm \<lparr>rules_by_program = m\<rparr> cmd \<union> (if toml_covers rule cmd then {d} else {})"
    by metis
  from d have "pr_decision rule \<in> {Some Prompt, Some Forbidden}"
    by (cases d) auto
  with Cons.IH [OF rest] d step show ?case
    by auto
qed simp

text \<open>Rules in requirements only restrict, and each of them bites. When the rules are accepted none of
  them allows anything, and for every command the decisions of the matching rules are exactly those
  that the rules covering the command state, token by token; so no command is allowed by them.\<close>
theorem requirement_rules_only_restrict:
  assumes "multimap_laws mm" and "to_policy mm rules = Inr pol"
  shows "rules \<noteq> [] \<and> Allow \<notin> decisions_for mm pol cmd \<and>
    decisions_for mm pol cmd = {d. \<exists>rule \<in> set rules. pr_decision rule = Some d \<and> toml_covers rule cmd}"
proof -
  from assms(2) obtain m where m: "insert_rules_toml mm 0 rules (mm_new mm) = Inr m"
    and pol: "pol = \<lparr>rules_by_program = m\<rparr>" and ne: "rules \<noteq> []"
    by (auto simp: to_policy_def res_ops split: if_splits)
  have empty: "decisions_for mm \<lparr>rules_by_program = mm_new mm\<rparr> cmd = {}"
    by (auto simp: decisions_for_iff rules_at_def multimap_get_new [OF assms(1)])
  show ?thesis
    using insert_rules_toml_ok [OF assms(1) m, of cmd] ne by (auto simp: pol empty list_all_iff)
qed

definition no_sudo :: prefix_rule_toml where
  "no_sudo = \<lparr>pr_pattern = [\<lparr>pt_token = Some (lit ''sudo''), pt_any_of = None\<rparr>],
     pr_decision = Some Forbidden, pr_justification = None\<rparr>"

theorem requirement_rules_only_restrict_witness:
  "\<exists>pol. to_policy alist_multimap [no_sudo] = Inr pol \<and>
     decisions_for alist_multimap pol [lit ''sudo'', lit ''ls''] = {Forbidden}"
proof -
  have "\<exists>pol. to_policy alist_multimap [no_sudo] = Inr pol"
    by (simp add: to_policy_def insert_rule_toml_def no_sudo_def parse_token_toml_def trim_def trim_start_def
        trim_end_def trim_start_by_def trim_end_by_def is_whitespace_def lit_def)
  then obtain pol where pol: "to_policy alist_multimap [no_sudo] = Inr pol"
    by blast
  from requirement_rules_only_restrict [OF alist_multimap_laws pol, of "[lit ''sudo'', lit ''ls'']"] pol
  show ?thesis
    by (auto simp: toml_covers_def toml_token_matches_def no_sudo_def)
qed

end
