(* ===== verification/ConfigLayers.thy ===== *)
theory ConfigLayers
  imports Requirements "HOL-Library.AList"
begin

text \<open>
  Layers of configuration: \<open>config/src/{merge,state,overrides,fingerprint}.rs\<close> and the sources of
  layers in \<open>app-server-protocol/src/protocol/v2.rs\<close>. A TOML table is an association list with
  distinct keys (\<open>toml_wf\<close>); its order is not observed. The digest of a layer is an argument.
\<close>

section \<open>TOML values\<close>

datatype toml =
    TString ustr
  | TInteger int
  | TFloat "64 word"
  | TBoolean bool
  | TDatetime ustr
  | TArray "toml list"
  | TTable "(ustr \<times> toml) list"

fun is_table :: "toml \<Rightarrow> bool" where
  "is_table (TTable _) \<longleftrightarrow> True"
| "is_table _ \<longleftrightarrow> False"

fun toml_wf :: "toml \<Rightarrow> bool" where
  "toml_wf (TTable t) \<longleftrightarrow> distinct (map fst t) \<and> list_all toml_wf (map snd t)"
| "toml_wf (TArray vs) \<longleftrightarrow> list_all toml_wf vs"
| "toml_wf _ \<longleftrightarrow> True"

text \<open>The value at a path of keys.\<close>

fun toml_get :: "toml \<Rightarrow> ustr list \<Rightarrow> toml option" where
  "toml_get v [] = Some v"
| "toml_get (TTable t) (k # p) = Option.bind (map_of t k) (\<lambda>v. toml_get v p)"
| "toml_get v (k # p) = None"

text \<open>\<open>merge_toml_values\<close>: its loop over the entries of the overlay is \<open>merge_entries\<close>.\<close>

fun merge_toml :: "toml \<Rightarrow> toml \<Rightarrow> toml" and
  merge_entries :: "(ustr \<times> toml) list \<Rightarrow> (ustr \<times> toml) list \<Rightarrow> (ustr \<times> toml) list" where
  "merge_toml (TTable base) (TTable overlay) = TTable (merge_entries base overlay)"
| "merge_toml base overlay = overlay"
| "merge_entries base [] = base"
| "merge_entries base ((key, value) # overlay) =
     (case map_of base key of
        Some existing \<Rightarrow> merge_entries (AList.update key (merge_toml existing value) base) overlay
      | None \<Rightarrow> merge_entries (AList.update key value base) overlay)"

text \<open>Overrides from the command line: a dotted path, created where it is missing.\<close>

fun override_at :: "toml \<Rightarrow> ustr list \<Rightarrow> toml \<Rightarrow> toml" where
  "override_at current [] value = current"
| "override_at current [segment] value =
     (case current of
        TTable t \<Rightarrow> TTable (AList.update segment value t)
      | _ \<Rightarrow> TTable [(segment, value)])"
| "override_at current (segment # s # rest) value =
     (let t = (case current of TTable t \<Rightarrow> t | _ \<Rightarrow> []);
          entry = (case map_of t segment of Some v \<Rightarrow> v | None \<Rightarrow> TTable [])
      in TTable (AList.update segment (override_at entry (s # rest) value) t))"

definition apply_toml_override :: "toml \<Rightarrow> ustr \<Rightarrow> toml \<Rightarrow> toml" where
  "apply_toml_override base path_text value = override_at base (split_on 46 path_text) value"

definition build_cli_overrides_layer :: "(ustr \<times> toml) list \<Rightarrow> toml" where
  "build_cli_overrides_layer overrides =
     foldl (\<lambda>base (path_text, value). apply_toml_override base path_text value) (TTable []) overrides"

section \<open>Layers\<close>

datatype config_layer_source =
    MdmLayer ustr ustr
  | SystemLayer path
  | UserLayer path
  | ProjectLayer path
  | SessionFlags
  | LegacyFileLayer path
  | LegacyMdmLayer

fun precedence :: "config_layer_source \<Rightarrow> int" where
  "precedence (MdmLayer _ _) = 0"
| "precedence (SystemLayer _) = 10"
| "precedence (UserLayer _) = 20"
| "precedence (ProjectLayer _) = 25"
| "precedence SessionFlags = 30"
| "precedence (LegacyFileLayer _) = 40"
| "precedence LegacyMdmLayer = 50"

record config_layer_entry =
  layer_name :: config_layer_source
  layer_config :: toml
  layer_raw_toml :: "ustr option"
  layer_version :: ustr
  layer_disabled_reason :: "ustr option"

definition layer_new :: "(toml \<Rightarrow> ustr) \<Rightarrow> config_layer_source \<Rightarrow> toml \<Rightarrow> config_layer_entry" where
  "layer_new version name config =
     \<lparr>layer_name = name, layer_config = config, layer_raw_toml = None, layer_version = version config,
      layer_disabled_reason = None\<rparr>"

definition layer_new_with_raw :: "(toml \<Rightarrow> ustr) \<Rightarrow> config_layer_source \<Rightarrow> toml \<Rightarrow> ustr \<Rightarrow> config_layer_entry" where
  "layer_new_with_raw version name config raw =
     \<lparr>layer_name = name, layer_config = config, layer_raw_toml = Some raw, layer_version = version config,
      layer_disabled_reason = None\<rparr>"

definition layer_new_disabled :: "(toml \<Rightarrow> ustr) \<Rightarrow> config_layer_source \<Rightarrow> toml \<Rightarrow> ustr \<Rightarrow> config_layer_entry" where
  "layer_new_disabled version name config reason =
     \<lparr>layer_name = name, layer_config = config, layer_raw_toml = None, layer_version = version config,
      layer_disabled_reason = Some reason\<rparr>"

definition is_disabled :: "config_layer_entry \<Rightarrow> bool" where
  "is_disabled l \<longleftrightarrow> layer_disabled_reason l \<noteq> None"

fun config_folder_of :: "config_layer_source \<Rightarrow> path option" where
  "config_folder_of (MdmLayer _ _) = None"
| "config_folder_of (SystemLayer file) = parent file"
| "config_folder_of (UserLayer file) = parent file"
| "config_folder_of (ProjectLayer dot_codex_folder) = Some dot_codex_folder"
| "config_folder_of SessionFlags = None"
| "config_folder_of (LegacyFileLayer _) = None"
| "config_folder_of LegacyMdmLayer = None"

section \<open>The order of layers\<close>

text \<open>\<open>Path::ancestors\<close>.\<close>

function ancestors :: "path \<Rightarrow> path list" where
  "ancestors p = p # (case parent p of Some q \<Rightarrow> ancestors q | None \<Rightarrow> [])"
  by pat_completeness auto

termination
  by (relation "measure length") (auto simp: parent_def split: list.splits component.splits)

declare ancestors.simps [simp del]

fun is_user_layer :: "config_layer_entry \<Rightarrow> bool" where
  "is_user_layer l = (case layer_name l of UserLayer _ \<Rightarrow> True | _ \<Rightarrow> False)"

fun project_folder :: "config_layer_entry \<Rightarrow> path option" where
  "project_folder l = (case layer_name l of ProjectLayer f \<Rightarrow> Some f | _ \<Rightarrow> None)"

definition check_project_order :: "path option \<Rightarrow> path \<Rightarrow> ustr + unit" where
  "check_project_order previous current =
     (case previous of
        None \<Rightarrow> Inr ()
      | Some prev \<Rightarrow>
          (case parent prev of
             None \<Rightarrow> Inl (lit ''project layer has no parent directory'')
           | Some par \<Rightarrow>
               if prev = current \<or> par \<notin> set (ancestors current)
               then Inl (lit ''project layers are not ordered from root to cwd'')
               else Inr ()))"

fun verify_loop :: "nat \<Rightarrow> nat option \<Rightarrow> path option \<Rightarrow> config_layer_entry list \<Rightarrow> ustr + nat option" where
  "verify_loop index user previous [] = Inr user"
| "verify_loop index user previous (l # layers) =
     (if is_user_layer l \<and> user \<noteq> None then Inl (lit ''multiple user config layers found'')
      else
        let user = (if is_user_layer l then Some index else user)
        in case project_folder l of
             None \<Rightarrow> verify_loop (index + 1) user previous layers
           | Some current \<Rightarrow>
               bindE (check_project_order previous current)
                 (\<lambda>_. verify_loop (index + 1) user (Some current) layers))"

definition verify_layer_ordering :: "config_layer_entry list \<Rightarrow> ustr + nat option" where
  "verify_layer_ordering layers =
     (if \<not> sorted (map (precedence \<circ> layer_name) layers)
      then Inl (lit ''config layers are not in correct precedence order'')
      else verify_loop 0 None None layers)"

section \<open>The stack\<close>

record 'm config_layer_stack =
  stack_layers :: "config_layer_entry list"
  user_layer_index :: "nat option"
  stack_requirements :: "'m config_requirements"
  stack_requirements_toml :: config_requirements_toml

definition stack_new ::
  "config_layer_entry list \<Rightarrow> 'm config_requirements \<Rightarrow> config_requirements_toml \<Rightarrow> ustr + 'm config_layer_stack" where
  "stack_new layers reqs reqs_toml =
     bindE (verify_layer_ordering layers)
       (\<lambda>index. Inr \<lparr>stack_layers = layers, user_layer_index = index, stack_requirements = reqs,
                     stack_requirements_toml = reqs_toml\<rparr>)"

definition get_user_layer :: "'m config_layer_stack \<Rightarrow> config_layer_entry option" where
  "get_user_layer s =
     Option.bind (user_layer_index s)
       (\<lambda>i. if i < length (stack_layers s) then Some (stack_layers s ! i) else None)"

text \<open>\<open>None\<close> is the panic of an index out of bounds.\<close>

definition with_user_config ::
  "(toml \<Rightarrow> ustr) \<Rightarrow> 'm config_layer_stack \<Rightarrow> path \<Rightarrow> toml \<Rightarrow> 'm config_layer_stack option" where
  "with_user_config version s config_toml user_config =
     (let user_layer = layer_new version (UserLayer config_toml) user_config; layers = stack_layers s
      in case user_layer_index s of
           Some index \<Rightarrow>
             if index < length layers then Some (s\<lparr>stack_layers := layers[index := user_layer]\<rparr>) else None
         | None \<Rightarrow>
             (case position (\<lambda>l. precedence (layer_name l) > precedence (layer_name user_layer)) layers of
                Some index \<Rightarrow>
                  Some (s\<lparr>stack_layers := take index layers @ user_layer # drop index layers,
                          user_layer_index := Some index\<rparr>)
              | None \<Rightarrow>
                  Some (s\<lparr>stack_layers := layers @ [user_layer], user_layer_index := Some (length layers)\<rparr>)))"

datatype stack_ordering = LowestPrecedenceFirst | HighestPrecedenceFirst

definition get_layers :: "'m config_layer_stack \<Rightarrow> stack_ordering \<Rightarrow> bool \<Rightarrow> config_layer_entry list" where
  "get_layers s dir include_disabled =
     (let layers = filter (\<lambda>l. include_disabled \<or> \<not> is_disabled l) (stack_layers s)
      in if dir = HighestPrecedenceFirst then rev layers else layers)"

definition layers_high_to_low :: "'m config_layer_stack \<Rightarrow> config_layer_entry list" where
  "layers_high_to_low s = get_layers s HighestPrecedenceFirst False"

definition effective_config :: "'m config_layer_stack \<Rightarrow> toml" where
  "effective_config s =
     foldl (\<lambda>merged l. merge_toml merged (layer_config l)) (TTable [])
       (get_layers s LowestPrecedenceFirst False)"

text \<open>Which layer each leaf comes from, keyed by the joined path; the index of an array is an \<open>i32\<close>.\<close>

fun record_origins :: "'v \<Rightarrow> ustr list \<Rightarrow> toml \<Rightarrow> (ustr \<Rightarrow> 'v option) \<Rightarrow> (ustr \<Rightarrow> 'v option)" and
  record_entries :: "'v \<Rightarrow> ustr list \<Rightarrow> (ustr \<times> toml) list \<Rightarrow> (ustr \<Rightarrow> 'v option) \<Rightarrow> (ustr \<Rightarrow> 'v option)" and
  record_array :: "'v \<Rightarrow> ustr list \<Rightarrow> nat \<Rightarrow> toml list \<Rightarrow> (ustr \<Rightarrow> 'v option) \<Rightarrow> (ustr \<Rightarrow> 'v option)" where
  "record_origins meta path (TTable t) origins = record_entries meta path t origins"
| "record_origins meta path (TArray vs) origins = record_array meta path 0 vs origins"
| "record_origins meta path leaf origins =
     (if path = [] then origins else origins(join_with [46] path \<mapsto> meta))"
| "record_entries meta path [] origins = origins"
| "record_entries meta path ((key, v) # t) origins =
     record_entries meta path t (record_origins meta (path @ [key]) v origins)"
| "record_array meta path idx [] origins = origins"
| "record_array meta path idx (v # vs) origins =
     record_array meta path (idx + 1) vs (record_origins meta (path @ [show_nat idx]) v origins)"

definition stack_origins :: "'m config_layer_stack \<Rightarrow> ustr \<Rightarrow> (config_layer_source \<times> ustr) option" where
  "stack_origins s =
     foldl (\<lambda>origins l. record_origins (layer_name l, layer_version l) [] (layer_config l) origins) (\<lambda>_. None)
       (get_layers s LowestPrecedenceFirst False)"

section \<open>Merging keeps tables well formed\<close>

lemma update_wf:
  "toml_wf (TTable t) \<Longrightarrow> toml_wf v \<Longrightarrow> toml_wf (TTable (AList.update k v t))"
proof (induction t)
  case (Cons e t)
  then show ?case
    by (cases e) (auto simp: AList.dom_update)
qed simp

lemma map_of_wf: "toml_wf (TTable t) \<Longrightarrow> map_of t k = Some v \<Longrightarrow> toml_wf v"
  by (auto simp: list_all_iff dest!: map_of_SomeD)

lemma merge_wf:
  "toml_wf base \<Longrightarrow> toml_wf overlay \<Longrightarrow> toml_wf (merge_toml base overlay)"
  "toml_wf (TTable tb) \<Longrightarrow> list_all toml_wf (map snd tov) \<Longrightarrow> toml_wf (TTable (merge_entries tb tov))"
proof (induction base overlay and tb tov rule: merge_toml_merge_entries.induct)
  case (4 base key v overlay)
  then show ?case
    by (auto simp del: toml_wf.simps(1) intro: update_wf map_of_wf split: option.splits)
qed auto

section \<open>What a merged table holds\<close>

lemma map_of_merge_entries:
  "distinct (map fst overlay) \<Longrightarrow>
   map_of (merge_entries base overlay) k =
     (case map_of overlay k of
        None \<Rightarrow> map_of base k
      | Some v \<Rightarrow> Some (case map_of base k of None \<Rightarrow> v | Some existing \<Rightarrow> merge_toml existing v))"
proof (induction overlay arbitrary: base)
  case (Cons e overlay)
  obtain key v where e: "e = (key, v)"
    by (cases e)
  with Cons.prems have absent: "map_of overlay key = None"
    by (simp add: map_of_eq_None_iff)
  show ?case
    using Cons absent by (cases "map_of base key") (auto simp: e update_conv' split: option.splits)
qed simp

text \<open>A configuration has a say at a path when it has a value there, or a value that is not a table on
  the way to it.\<close>

fun has_say :: "toml \<Rightarrow> ustr list \<Rightarrow> bool" where
  "has_say v [] \<longleftrightarrow> True"
| "has_say (TTable t) (k # p) \<longleftrightarrow> (case map_of t k of Some v \<Rightarrow> has_say v p | None \<Rightarrow> False)"
| "has_say v (k # p) \<longleftrightarrow> True"

lemma get_has_say: "toml_get v p = Some w \<Longrightarrow> has_say v p"
  by (induction v p rule: has_say.induct) (auto simp: bind_eq_Some_conv)

lemma merge_toml_leaf:
  "\<not> (is_table base \<and> is_table overlay) \<Longrightarrow> merge_toml base overlay = overlay"
  by (cases "(base, overlay)" rule: merge_toml.cases) auto

lemma merge_get:
  assumes "toml_wf overlay" and "\<not> is_table w"
  shows "toml_get (merge_toml base overlay) p = Some w \<longleftrightarrow>
    toml_get overlay p = Some w \<or> (toml_get base p = Some w \<and> \<not> has_say overlay p)"
  using assms(1)
proof (induction p arbitrary: base overlay)
  case Nil
  show ?case
    using assms(2) by (cases "(base, overlay)" rule: merge_toml.cases) auto
next
  case (Cons k p)
  show ?case
  proof (cases "is_table base \<and> is_table overlay")
    case True
    then obtain tb tov where t: "base = TTable tb" "overlay = TTable tov"
      by (cases base; cases overlay) auto
    with Cons.prems have d: "distinct (map fst tov)"
      by simp
    show ?thesis
    proof (cases "map_of tov k")
      case None
      then show ?thesis
        by (simp add: t map_of_merge_entries [OF d])
    next
      case (Some v)
      with Cons.prems t have "toml_wf v"
        by (metis map_of_wf)
      from Cons.IH [OF this] Some show ?thesis
        by (cases "map_of tb k") (auto simp: t map_of_merge_entries [OF d] dest: get_has_say)
    qed
  next
    case False
    then show ?thesis
      by (subst merge_toml_leaf) (cases overlay; cases base; auto)+
  qed
qed

lemma topmost_snoc:
  "(\<exists>lower d higher. cs @ [c] = lower @ d # higher \<and> P d \<and> list_all Q higher) \<longleftrightarrow>
   P c \<or> (Q c \<and> (\<exists>lower d higher. cs = lower @ d # higher \<and> P d \<and> list_all Q higher))"
proof -
  have split: "cs @ [c] = lower @ d # higher \<longleftrightarrow>
      (higher = [] \<and> lower = cs \<and> d = c) \<or> (\<exists>hs. higher = hs @ [c] \<and> cs = lower @ d # hs)" for lower d higher
    by (cases higher rule: rev_cases) auto
  show ?thesis
  proof
    assume "\<exists>lower d higher. cs @ [c] = lower @ d # higher \<and> P d \<and> list_all Q higher"
    then obtain lower d higher where d: "P d" "list_all Q higher"
      and "(higher = [] \<and> lower = cs \<and> d = c) \<or> (\<exists>hs. higher = hs @ [c] \<and> cs = lower @ d # hs)"
      unfolding split by (elim exE conjE)
    then show "P c \<or> (Q c \<and> (\<exists>lower d higher. cs = lower @ d # higher \<and> P d \<and> list_all Q higher))"
      by (elim disjE conjE exE) auto
  next
    assume "P c \<or> (Q c \<and> (\<exists>lower d higher. cs = lower @ d # higher \<and> P d \<and> list_all Q higher))"
    then show "\<exists>lower d higher. cs @ [c] = lower @ d # higher \<and> P d \<and> list_all Q higher"
    proof (elim disjE conjE exE)
      assume "P c"
      then show ?thesis
        by (intro exI [of _ cs] exI [of _ c] exI [of _ "[]"]) simp
    next
      fix lower d higher
      assume "Q c" "cs = lower @ d # higher" "P d" "list_all Q higher"
      then show ?thesis
        by (intro exI [of _ lower] exI [of _ d] exI [of _ "higher @ [c]"]) simp
    qed
  qed
qed

lemma topmost_map:
  "(\<exists>lower d higher. map f xs = lower @ d # higher \<and> P d \<and> list_all Q higher) \<longleftrightarrow>
   (\<exists>lower l higher. xs = lower @ l # higher \<and> P (f l) \<and> list_all (\<lambda>h. Q (f h)) higher)"
proof (induction xs rule: rev_induct)
  case (snoc x xs)
  then show ?case
    unfolding map_append list.map topmost_snoc by simp
qed simp

lemma foldl_merge_get:
  assumes "list_all toml_wf cs" and "\<not> is_table w"
  shows "toml_get (foldl merge_toml base cs) p = Some w \<longleftrightarrow>
    (\<exists>lower c higher. cs = lower @ c # higher \<and> toml_get c p = Some w \<and> list_all (\<lambda>h. \<not> has_say h p) higher) \<or>
    (toml_get base p = Some w \<and> list_all (\<lambda>c. \<not> has_say c p) cs)"
  using assms(1)
proof (induction cs rule: rev_induct)
  case (snoc c cs)
  have "toml_get (foldl merge_toml base (cs @ [c])) p = Some w \<longleftrightarrow>
      toml_get c p = Some w \<or> (toml_get (foldl merge_toml base cs) p = Some w \<and> \<not> has_say c p)"
    using snoc.prems by (simp add: merge_get [OF _ assms(2)])
  moreover have "list_all toml_wf cs"
    using snoc.prems by simp
  ultimately show ?case
    using snoc.IH by (simp only: topmost_snoc) (auto simp: list_all_append)
qed simp

text \<open>C27: the highest layer that has a say wins. Reading the effective configuration at a path gives a
  value, other than a table, exactly when some enabled layer has that value there and no enabled layer
  above it has a value at the path or a plain value on the way to it; disabled layers count for
  nothing.\<close>
theorem highest_layer_wins:
  assumes "list_all (\<lambda>l. toml_wf (layer_config l)) (stack_layers s)" and "\<not> is_table w"
  shows "toml_get (effective_config s) p = Some w \<longleftrightarrow>
    (\<exists>lower l higher. filter (\<lambda>l. \<not> is_disabled l) (stack_layers s) = lower @ l # higher \<and>
       toml_get (layer_config l) p = Some w \<and> list_all (\<lambda>h. \<not> has_say (layer_config h) p) higher)"
proof -
  let ?on = "filter (\<lambda>l. \<not> is_disabled l) (stack_layers s)"
  have eff: "effective_config s = foldl merge_toml (TTable []) (map layer_config ?on)"
    by (simp add: effective_config_def get_layers_def foldl_map)
  have "list_all toml_wf (map layer_config ?on)"
    using assms(1) by (auto simp: list_all_iff)
  note get = foldl_merge_get [OF this assms(2), of "TTable []" p]
  have none: "toml_get (TTable []) p \<noteq> Some w"
    using assms(2) by (cases p) auto
  note topmost_map [of layer_config ?on "\<lambda>c. toml_get c p = Some w" "\<lambda>h. \<not> has_say h p"]
  with get none show ?thesis
    by (simp add: eff)
qed

definition two_layers :: "unit config_layer_stack" where
  "two_layers =
     \<lparr>stack_layers = [layer_new (\<lambda>_. []) (UserLayer []) (TTable [(lit ''model'', TString (lit ''a''))]),
        layer_new_disabled (\<lambda>_. []) (ProjectLayer []) (TTable [(lit ''model'', TString (lit ''b''))]) []],
      user_layer_index = Some 0, stack_requirements = config_requirements_default,
      stack_requirements_toml = requirements_toml_default\<rparr>"

theorem highest_layer_wins_witness:
  "toml_get (effective_config two_layers) [lit ''model''] = Some (TString (lit ''a''))"
proof -
  have "list_all (\<lambda>l. toml_wf (layer_config l)) (stack_layers two_layers)" and "\<not> is_table (TString (lit ''a''))"
    by (simp_all add: two_layers_def layer_new_def layer_new_disabled_def)
  note get = highest_layer_wins [OF this, of "[lit ''model'']", THEN iffD2]
  show ?thesis
    by (rule get, rule exI [of _ "[]"], rule exI [of _ "hd (stack_layers two_layers)"], rule exI [of _ "[]"])
      (simp add: two_layers_def layer_new_def layer_new_disabled_def is_disabled_def)
qed

section \<open>Overrides\<close>

lemma override_at_get: "p \<noteq> [] \<Longrightarrow> toml_get (override_at t p v) p = Some v"
  by (induction t p v rule: override_at.induct) (auto simp: update_conv' Let_def split: toml.splits)

lemma override_at_table: "p \<noteq> [] \<Longrightarrow> is_table (override_at t p v)"
  by (induction t p v rule: override_at.induct) (auto simp: Let_def split: toml.splits)

text \<open>The last override of a path is what the layer of the command line holds there.\<close>

lemma cli_override_get:
  "toml_get (build_cli_overrides_layer (overrides @ [(path_text, v)])) (split_on 46 path_text) = Some v"
proof -
  have "split_on 46 path_text \<noteq> []"
    by simp
  then show ?thesis
    by (simp add: build_cli_overrides_layer_def apply_toml_override_def override_at_get)
qed

section \<open>The order of the layers\<close>

fun project_chain :: "path option \<Rightarrow> path list \<Rightarrow> bool" where
  "project_chain previous [] \<longleftrightarrow> True"
| "project_chain previous (f # fs) \<longleftrightarrow> check_project_order previous f = Inr () \<and> project_chain (Some f) fs"

definition project_folders :: "config_layer_entry list \<Rightarrow> path list" where
  "project_folders layers = List.map_filter project_folder layers"

definition user_layers :: "config_layer_entry list \<Rightarrow> config_layer_entry list" where
  "user_layers layers = filter is_user_layer layers"

lemma project_folders_simps [simp]:
  "project_folders [] = []"
  "project_folders (l # ls) = (case project_folder l of Some f \<Rightarrow> [f] | None \<Rightarrow> []) @ project_folders ls"
  "project_folders (xs @ ys) = project_folders xs @ project_folders ys"
  by (simp_all add: project_folders_def List.map_filter_def split: option.splits)

lemma user_layers_simps [simp]:
  "user_layers [] = []"
  "user_layers (l # ls) = (if is_user_layer l then [l] else []) @ user_layers ls"
  "user_layers (xs @ ys) = user_layers xs @ user_layers ys"
  by (simp_all add: user_layers_def)

lemma user_layer_no_folder: "is_user_layer l \<Longrightarrow> project_folder l = None"
  by (cases "layer_name l") auto

lemma verify_loop_ok:
  "verify_loop i user previous layers = Inr r \<longleftrightarrow>
     length (user_layers layers) + (if user = None then 0 else 1) \<le> 1 \<and>
     project_chain previous (project_folders layers) \<and>
     r = (case user of Some u \<Rightarrow> Some u | None \<Rightarrow> map_option ((+) i) (position is_user_layer layers))"
proof (induction layers arbitrary: i user previous)
  case (Cons l layers)
  have unit: "bindE (check_project_order previous f) g = Inr r \<longleftrightarrow>
      check_project_order previous f = Inr () \<and> g () = Inr r" for f g
    by (cases "check_project_order previous f") auto
  have shift: "map_option ((+) (Suc i)) m = map_option (\<lambda>x. Suc (i + x)) m" for m
    by (cases m) auto
  show ?case
  proof (cases "is_user_layer l")
    case True
    then show ?thesis
      using Cons [of "i + 1" "Some i" previous] user_layer_no_folder [OF True]
      by (auto simp: option.map_comp simp del: is_user_layer.simps project_folder.simps)
  next
    case False
    then show ?thesis
      using Cons [of "i + 1" user]
      by (auto simp: unit option.map_comp comp_def shift simp del: is_user_layer.simps project_folder.simps
          split: option.splits)
  qed
qed (auto split: option.splits)

definition ordered_layers :: "config_layer_entry list \<Rightarrow> bool" where
  "ordered_layers layers \<longleftrightarrow>
     sorted (map (precedence \<circ> layer_name) layers) \<and> length (user_layers layers) \<le> 1 \<and>
     project_chain None (project_folders layers)"

lemma verify_layer_ordering_ok:
  "verify_layer_ordering layers = Inr r \<longleftrightarrow> ordered_layers layers \<and> r = position is_user_layer layers"
proof -
  have "map_option ((+) (0::nat)) m = m" for m
    by (cases m) auto
  then show ?thesis
    by (auto simp: verify_layer_ordering_def verify_loop_ok ordered_layers_def)
qed

definition ordered_stack :: "'m config_layer_stack \<Rightarrow> bool" where
  "ordered_stack s \<longleftrightarrow> verify_layer_ordering (stack_layers s) = Inr (user_layer_index s)"

lemma stack_new_ordered: "stack_new layers reqs t = Inr s \<Longrightarrow> ordered_stack s \<and> stack_layers s = layers"
  by (auto simp: stack_new_def ordered_stack_def res_ops)

text \<open>The position of the user layer splits the layers.\<close>

lemma position_split:
  assumes "position p xs = Some i"
  shows "\<exists>a x b. xs = a @ x # b \<and> length a = i \<and> p x \<and> list_all (\<lambda>y. \<not> p y) a"
proof -
  from position_SomeD [OF assms] have i: "i < length xs" "p (xs ! i)" "\<forall>j < i. \<not> p (xs ! j)"
    by auto
  then have "list_all (\<lambda>y. \<not> p y) (take i xs)"
    by (auto simp: list_all_length)
  with i id_take_nth_drop [OF i(1)] show ?thesis
    by (intro exI [of _ "take i xs"] exI [of _ "xs ! i"] exI [of _ "drop (Suc i) xs"]) simp
qed

lemma position_append_skip:
  "list_all (\<lambda>y. \<not> p y) a \<Longrightarrow> position p (a @ x # b) = (if p x then Some (length a) else map_option ((+) (length a + 1)) (position p b))"
proof (induction a)
  case Nil
  have "map_option Suc m = map_option ((+) 1) m" for m
    by (cases m) auto
  then show ?case by simp
next
  case (Cons y a)
  then show ?case
    by (auto simp: option.map_comp comp_def)
qed

lemma no_users: "user_layers layers = [] \<longleftrightarrow> list_all (\<lambda>l. \<not> is_user_layer l) layers"
  by (simp add: user_layers_def filter_empty_conv list_all_iff)

lemma ordered_insert_user:
  assumes "ordered_layers (a @ b)" and "user_layers (a @ b) = []" and "layer_name u = UserLayer f"
    and "list_all (\<lambda>l. precedence (layer_name l) \<le> 20) a"
    and "case b of [] \<Rightarrow> True | l # _ \<Rightarrow> 20 < precedence (layer_name l)"
  shows "ordered_layers (a @ u # b) \<and> position is_user_layer (a @ u # b) = Some (length a)"
proof -
  have "sorted (map (precedence \<circ> layer_name) (a @ u # b))"
    using assms by (cases b) (fastforce simp: ordered_layers_def sorted_append list_all_iff)+
  moreover have "position is_user_layer (a @ u # b) = Some (length a)"
    using assms(2,3) by (subst position_append_skip) (auto simp: no_users)
  ultimately show ?thesis
    using assms(1-3) by (auto simp: ordered_layers_def)
qed

lemma ordered_replace_user:
  assumes "ordered_layers (a @ l # b)" and "is_user_layer l" and "layer_name u = UserLayer f"
  shows "ordered_layers (a @ u # b) \<and> position is_user_layer (a @ u # b) = Some (length a)"
proof -
  have users: "user_layers a = []" "user_layers b = []"
    using assms(1,2) by (auto simp: ordered_layers_def)
  have prec: "precedence (layer_name l) = 20"
    using assms(2) by (cases "layer_name l") auto
  have "position is_user_layer (a @ u # b) = Some (length a)"
    using users assms(3) by (subst position_append_skip) (auto simp: no_users)
  then show ?thesis
    using assms users prec user_layer_no_folder [OF assms(2)] by (simp add: ordered_layers_def sorted_append)
qed

lemma user_placed:
  assumes "ordered_layers (a @ u # b) \<and> position is_user_layer (a @ u # b) = Some (length a)"
    and "layer_name u = UserLayer f" and "stack_layers s' = a @ u # b" and "user_layer_index s' = Some (length a)"
  shows "ordered_stack s' \<and> get_user_layer s' = Some u \<and>
    filter (\<lambda>l. \<not> is_user_layer l) (stack_layers s') = filter (\<lambda>l. \<not> is_user_layer l) (a @ b)"
  using assms by (simp add: ordered_stack_def verify_layer_ordering_ok get_user_layer_def)

text \<open>Replacing or adding the user's layer keeps the stack in order. From a stack that passed the
  ordering check, it never fails; the new stack passes the check too, its user layer is the new one,
  and the other layers are as before.\<close>
theorem user_config_keeps_order:
  assumes "ordered_stack s"
  shows "\<exists>s'. with_user_config version s f c = Some s' \<and> ordered_stack s' \<and>
    get_user_layer s' = Some (layer_new version (UserLayer f) c) \<and>
    filter (\<lambda>l. \<not> is_user_layer l) (stack_layers s') = filter (\<lambda>l. \<not> is_user_layer l) (stack_layers s)"
proof -
  let ?u = "layer_new version (UserLayer f) c"
  have u: "layer_name ?u = UserLayer f"
    by (simp add: layer_new_def)
  from assms have ord: "ordered_layers (stack_layers s)"
    and idx: "user_layer_index s = position is_user_layer (stack_layers s)"
    by (auto simp: ordered_stack_def verify_layer_ordering_ok)
  show ?thesis
  proof (cases "user_layer_index s")
    case (Some i)
    with idx position_split [of is_user_layer "stack_layers s" i] obtain a l b where
      l: "stack_layers s = a @ l # b" "length a = i" "is_user_layer l"
      by auto
    let ?s = "s\<lparr>stack_layers := a @ ?u # b\<rparr>"
    have "with_user_config version s f c = Some ?s"
      using l by (simp add: with_user_config_def Some Let_def list_update_append)
    moreover have "ordered_layers (a @ ?u # b) \<and> position is_user_layer (a @ ?u # b) = Some (length a)"
      using ordered_replace_user [OF _ l(3) u] ord l(1) by simp
    from user_placed [OF this u, of ?s] have "ordered_stack ?s \<and> get_user_layer ?s = Some ?u \<and>
        filter (\<lambda>l. \<not> is_user_layer l) (stack_layers ?s) = filter (\<lambda>l. \<not> is_user_layer l) (a @ b)"
      using l Some by simp
    ultimately show ?thesis
      using l by (intro exI [of _ ?s]) simp
  next
    case None
    let ?p = "\<lambda>l. precedence (layer_name l) > precedence (layer_name ?u)"
    from None idx have none: "user_layers (stack_layers s) = []"
      by (auto simp: position_None_iff no_users list_all_iff simp del: is_user_layer.simps)
    have placed: ?thesis
      if ab: "stack_layers s = a @ b" and le: "list_all (\<lambda>l. precedence (layer_name l) \<le> 20) a"
        and gt: "case b of [] \<Rightarrow> True | l # _ \<Rightarrow> 20 < precedence (layer_name l)"
        and run: "with_user_config version s f c =
          Some (s\<lparr>stack_layers := a @ ?u # b, user_layer_index := Some (length a)\<rparr>)" for a b
    proof -
      let ?s = "s\<lparr>stack_layers := a @ ?u # b, user_layer_index := Some (length a)\<rparr>"
      have "ordered_layers (a @ ?u # b) \<and> position is_user_layer (a @ ?u # b) = Some (length a)"
        using ordered_insert_user [OF _ _ u le gt] ord none ab by simp
      from user_placed [OF this u, of ?s] run ab show ?thesis
        by (intro exI [of _ ?s]) simp
    qed
    show ?thesis
    proof (cases "position ?p (stack_layers s)")
      case (Some i)
      from position_split [OF Some] obtain a l b where
        l: "stack_layers s = a @ l # b" "length a = i" "?p l" "list_all (\<lambda>l. \<not> ?p l) a"
        by blast
      then have le: "list_all (\<lambda>l. precedence (layer_name l) \<le> 20) a" and gt: "20 < precedence (layer_name l)"
        by (auto simp: list_all_iff u)
      have "with_user_config version s f c =
          Some (s\<lparr>stack_layers := a @ ?u # l # b, user_layer_index := Some (length a)\<rparr>)"
        unfolding with_user_config_def Let_def None option.case Some by (simp add: l(1) l(2) [symmetric])
      from placed [OF l(1) le _ this] gt show ?thesis
        by simp
    next
      case None': None
      then have le: "list_all (\<lambda>l. precedence (layer_name l) \<le> 20) (stack_layers s)"
        by (auto simp: position_None_iff list_all_iff u not_less)
      have "with_user_config version s f c =
          Some (s\<lparr>stack_layers := stack_layers s @ [?u], user_layer_index := Some (length (stack_layers s))\<rparr>)"
        unfolding with_user_config_def Let_def None option.case None' ..
      from placed [OF _ le _ this] show ?thesis
        by simp
    qed
  qed
qed

lemma two_layers_ordered: "ordered_stack two_layers"
  by (simp add: ordered_stack_def verify_layer_ordering_def two_layers_def layer_new_def layer_new_disabled_def
      check_project_order_def)

theorem user_config_keeps_order_witness:
  "\<exists>s'. with_user_config (\<lambda>_. []) two_layers [RootDir] (TTable []) = Some s' \<and>
     get_user_layer s' = Some (layer_new (\<lambda>_. []) (UserLayer [RootDir]) (TTable []))"
  using user_config_keeps_order [OF two_layers_ordered, of "\<lambda>_. []" "[RootDir]" "TTable []"] by blast

end
