(* ===== verification/ConfigLoader.thy ===== *)
theory ConfigLoader
  imports ConfigLayers
begin

text \<open>
  Loading the layers: \<open>core/src/config_loader/mod.rs\<close> and \<open>layer_io.rs\<close> of a Unix build; the managed
  preferences, which only macOS has, are an argument where they enter. The file system, serde and
  the search for the repository of a directory are the parameter \<open>loader_env\<close>, and so is
  \<open>layer_error\<close>, the more precise error that \<open>diagnostics.rs\<close> reports in place of one of the same load.
\<close>

datatype trust_level = Trusted | Untrusted

record legacy_managed_config =
  legacy_approval_policy :: "ask_for_approval option"
  legacy_sandbox_mode :: "sandbox_mode option"

record 'e loader_env = "'e path_env" +
  is_not_found :: "'e \<Rightarrow> bool"
  canonicalize :: "path \<Rightarrow> path option"
  parse_toml :: "ustr \<Rightarrow> 'e + toml"
  parse_requirements :: "ustr \<Rightarrow> 'e + config_requirements_toml"
  parse_legacy :: "toml \<Rightarrow> 'e + legacy_managed_config"
  as_config_toml :: "toml \<Rightarrow> path \<Rightarrow> ('e + toml) option"
  projects_of :: "toml \<Rightarrow> path \<Rightarrow> 'e + (ustr \<times> trust_level option) list"
  repo_root_of :: "path \<Rightarrow> path option"
  toml_version :: "toml \<Rightarrow> ustr"
  invalid_data :: "ustr \<Rightarrow> 'e"
  with_message :: "'e \<Rightarrow> ustr \<Rightarrow> 'e"
  constraint_failure :: "constraint_error \<Rightarrow> 'e"
  layer_error :: "config_layer_entry list \<Rightarrow> 'e option"

text \<open>An absolute path as text.\<close>

fun show_component :: "component \<Rightarrow> ustr" where
  "show_component (Normal s) = s"
| "show_component ParentDir = lit ''..''"
| "show_component CurDir = lit ''.''"
| "show_component RootDir = []"

definition show_path :: "path \<Rightarrow> ustr" where
  "show_path p =
     (case p of RootDir # rest \<Rightarrow> slash # join_with [slash] (map show_component rest)
      | _ \<Rightarrow> join_with [slash] (map show_component p))"

section \<open>Reading files\<close>

text \<open>\<open>copy_shape_from_original\<close>.\<close>

fun copy_shape :: "toml \<Rightarrow> toml \<Rightarrow> toml" and
  copy_entries :: "(ustr \<times> toml) list \<Rightarrow> (ustr \<times> toml) list \<Rightarrow> (ustr \<times> toml) list" and
  copy_items :: "toml list \<Rightarrow> toml list \<Rightarrow> toml list" where
  "copy_shape (TTable original) (TTable resolved) = TTable (copy_entries original resolved)"
| "copy_shape (TArray original) (TArray resolved) = TArray (copy_items original resolved)"
| "copy_shape original resolved = resolved"
| "copy_entries [] resolved = []"
| "copy_entries ((key, v) # original) resolved =
     (key, copy_shape v (case map_of resolved key of Some r \<Rightarrow> r | None \<Rightarrow> v)) # copy_entries original resolved"
| "copy_items [] resolved = []"
| "copy_items (v # original) resolved =
     copy_shape v (case resolved of r # _ \<Rightarrow> r | [] \<Rightarrow> v) # copy_items original (drop 1 resolved)"

text \<open>A value that is no \<open>ConfigToml\<close> is kept as it is.\<close>

definition resolve_relative_paths :: "'e loader_env \<Rightarrow> toml \<Rightarrow> path \<Rightarrow> 'e + toml" where
  "resolve_relative_paths env v base_dir =
     (case as_config_toml env v base_dir of
        None \<Rightarrow> Inr v
      | Some serialized \<Rightarrow> bindE serialized (\<lambda>resolved. Inr (copy_shape v resolved)))"

definition load_config_toml_for_required_layer ::
  "'e loader_env \<Rightarrow> path \<Rightarrow> (toml \<Rightarrow> config_layer_entry) \<Rightarrow> 'e + config_layer_entry" where
  "load_config_toml_for_required_layer env file create_entry =
     bindE
       (case fs_read_to_string env file of
          Inr contents \<Rightarrow>
            bindE (parse_toml env contents) (\<lambda>config.
            bindE (ok_or (invalid_data env (lit ''Config file '' @ show_path file @ lit '' has no parent directory''))
                     (parent file))
              (resolve_relative_paths env config))
        | Inl e \<Rightarrow>
            if is_not_found env e then Inr (TTable [])
            else Inl (with_message env e (lit ''Failed to read config file '' @ show_path file)))
       (\<lambda>v. Inr (create_entry v))"

definition load_requirements_toml ::
  "'e loader_env \<Rightarrow> requirements_with_sources \<Rightarrow> path \<Rightarrow> 'e + requirements_with_sources" where
  "load_requirements_toml env reqs requirements_toml_file =
     bindE (from_absolute_path env (show_path requirements_toml_file)) (\<lambda>file.
     case fs_read_to_string env file of
        Inr contents \<Rightarrow>
          bindE (map_errE (\<lambda>e. with_message env e (lit ''Error parsing requirements file '' @ show_path file))
                   (parse_requirements env contents))
            (\<lambda>t. Inr (merge_unset_fields reqs (SystemRequirementsToml file) t))
      | Inl e \<Rightarrow>
          if is_not_found env e then Inr reqs
          else Inl (with_message env e (lit ''Failed to read requirements file '' @ show_path file)))"

definition read_config_from_path :: "'e loader_env \<Rightarrow> path \<Rightarrow> 'e + toml option" where
  "read_config_from_path env file =
     (case fs_read_to_string env file of
        Inr contents \<Rightarrow> bindE (parse_toml env contents) (\<lambda>v. Inr (Some v))
      | Inl e \<Rightarrow> if is_not_found env e then Inr None else Inl e)"

section \<open>Managed configuration of the old kind\<close>

record loaded_config_layers =
  managed_config :: "(toml \<times> path) option"
  managed_config_from_mdm :: "(toml \<times> ustr) option"

definition legacy_requirements :: "legacy_managed_config \<Rightarrow> config_requirements_toml" where
  "legacy_requirements legacy =
     requirements_toml_default
       \<lparr>allowed_approval_policies := map_option (\<lambda>p. [p]) (legacy_approval_policy legacy),
        allowed_sandbox_modes := map_option
          (\<lambda>m. let required = requirement_of_mode m
               in [ModeReadOnly] @ (if required \<noteq> ModeReadOnly then [required] else []))
          (legacy_sandbox_mode legacy)\<rparr>"

fun merge_legacy ::
  "'e loader_env \<Rightarrow> requirements_with_sources \<Rightarrow> (requirement_source \<times> toml) list \<Rightarrow> 'e + requirements_with_sources" where
  "merge_legacy env reqs [] = Inr reqs"
| "merge_legacy env reqs ((source, config) # rest) =
     bindE (map_errE (\<lambda>e. with_message env e (lit ''Failed to parse config requirements as TOML'')) (parse_legacy env config))
       (\<lambda>legacy. merge_legacy env (merge_unset_fields reqs source (legacy_requirements legacy)) rest)"

definition load_requirements_from_legacy_scheme ::
  "'e loader_env \<Rightarrow> requirements_with_sources \<Rightarrow> loaded_config_layers \<Rightarrow> 'e + requirements_with_sources" where
  "load_requirements_from_legacy_scheme env reqs loaded =
     merge_legacy env reqs
       ((case managed_config_from_mdm loaded of
           Some (config, raw) \<Rightarrow> [(LegacyManagedConfigTomlFromMdm, config)] | None \<Rightarrow> []) @
        (case managed_config loaded of
           Some (config, file) \<Rightarrow> [(LegacyManagedConfigTomlFromFile file, config)] | None \<Rightarrow> []))"

section \<open>Trust in projects\<close>

fun string_values :: "toml list \<Rightarrow> ustr list option" where
  "string_values [] = Some []"
| "string_values (TString s # vs) = map_option ((#) s) (string_values vs)"
| "string_values (_ # vs) = None"

definition project_root_markers_from_config :: "'e loader_env \<Rightarrow> toml \<Rightarrow> 'e + ustr list option" where
  "project_root_markers_from_config env config =
     (case config of
        TTable t \<Rightarrow>
          (case map_of t (lit ''project_root_markers'') of
             None \<Rightarrow> Inr None
           | Some markers \<Rightarrow>
               (let err = Inl (invalid_data env (lit ''project_root_markers must be an array of strings''))
                in case markers of
                     TArray entries \<Rightarrow>
                       (case string_values entries of Some ms \<Rightarrow> Inr (Some ms) | None \<Rightarrow> err)
                   | _ \<Rightarrow> err))
      | _ \<Rightarrow> Inr None)"

definition default_project_root_markers :: "ustr list" where
  "default_project_root_markers = [lit ''.git'']"

record trust_context =
  tc_project_root :: path
  tc_project_root_key :: ustr
  tc_repo_root_key :: "ustr option"
  tc_projects_trust :: "ustr \<Rightarrow> trust_level option"
  tc_user_config_file :: path

record trust_decision =
  td_trust_level :: "trust_level option"
  td_trust_key :: ustr

definition is_trusted :: "trust_decision \<Rightarrow> bool" where
  "is_trusted d \<longleftrightarrow> td_trust_level d = Some Trusted"

definition decision_for_dir :: "trust_context \<Rightarrow> path \<Rightarrow> trust_decision" where
  "decision_for_dir tc dir =
     (let dir_key = show_path dir
      in case tc_projects_trust tc dir_key of
           Some l \<Rightarrow> \<lparr>td_trust_level = Some l, td_trust_key = dir_key\<rparr>
         | None \<Rightarrow>
             (case tc_projects_trust tc (tc_project_root_key tc) of
                Some l \<Rightarrow> \<lparr>td_trust_level = Some l, td_trust_key = tc_project_root_key tc\<rparr>
              | None \<Rightarrow>
                  (case tc_repo_root_key tc of
                     Some k \<Rightarrow>
                       (case tc_projects_trust tc k of
                          Some l \<Rightarrow> \<lparr>td_trust_level = Some l, td_trust_key = k\<rparr>
                        | None \<Rightarrow> \<lparr>td_trust_level = None, td_trust_key = k\<rparr>)
                   | None \<Rightarrow> \<lparr>td_trust_level = None, td_trust_key = tc_project_root_key tc\<rparr>)))"

definition disabled_reason_for_dir :: "trust_context \<Rightarrow> path \<Rightarrow> ustr option" where
  "disabled_reason_for_dir tc dir =
     (let d = decision_for_dir tc dir; user_config_file = show_path (tc_user_config_file tc)
      in if is_trusted d then None
         else if td_trust_level d = Some Untrusted
           then Some (td_trust_key d @ lit '' is marked as untrusted in '' @ user_config_file @
                      lit ''. To load config.toml, mark it trusted.'')
         else Some (lit ''To load config.toml, add '' @ td_trust_key d @ lit '' as a trusted project in '' @
                    user_config_file @ lit ''.''))"

definition project_layer_entry ::
  "'e loader_env \<Rightarrow> trust_context \<Rightarrow> path \<Rightarrow> path \<Rightarrow> toml \<Rightarrow> bool \<Rightarrow> config_layer_entry" where
  "project_layer_entry env tc dot_codex_folder layer_dir config config_toml_exists =
     (case (if config_toml_exists then disabled_reason_for_dir tc layer_dir else None) of
        Some reason \<Rightarrow> layer_new_disabled (toml_version env) (ProjectLayer dot_codex_folder) config reason
      | None \<Rightarrow> layer_new (toml_version env) (ProjectLayer dot_codex_folder) config)"

fun find_root_in :: "'e loader_env \<Rightarrow> ustr list \<Rightarrow> path list \<Rightarrow> path option" where
  "find_root_in env markers [] = None"
| "find_root_in env markers (ancestor # rest) =
     (if list_ex (\<lambda>marker. fs_exists env (components (join (show_path ancestor) marker))) markers then Some ancestor
      else find_root_in env markers rest)"

definition find_project_root :: "'e loader_env \<Rightarrow> path \<Rightarrow> ustr list \<Rightarrow> 'e + path" where
  "find_project_root env cwd markers =
     (if markers = [] then Inr cwd
      else case find_root_in env markers (ancestors cwd) of
             Some ancestor \<Rightarrow> from_absolute_path env (show_path ancestor)
           | None \<Rightarrow> Inr cwd)"

definition project_trust_context ::
  "'e loader_env \<Rightarrow> toml \<Rightarrow> path \<Rightarrow> ustr list \<Rightarrow> path \<Rightarrow> path \<Rightarrow> 'e + trust_context" where
  "project_trust_context env merged_config cwd markers config_base_dir user_config_file =
     bindE (projects_of env merged_config config_base_dir) (\<lambda>projects.
     bindE (find_project_root env cwd markers) (\<lambda>project_root.
     Inr \<lparr>tc_project_root = project_root, tc_project_root_key = show_path project_root,
          tc_repo_root_key = map_option show_path (repo_root_of env cwd),
          tc_projects_trust = map_of (List.map_filter (\<lambda>(key, l). map_option (Pair key) l) projects),
          tc_user_config_file = user_config_file\<rparr>))"

section \<open>The layers of a project\<close>

text \<open>The directories from the root of the project down to the working directory: \<open>scan\<close> stops after
  the root.\<close>

fun up_to_root :: "path \<Rightarrow> path list \<Rightarrow> path list" where
  "up_to_root root_dir [] = []"
| "up_to_root root_dir (a # rest) = (if a = root_dir then [a] else a # up_to_root root_dir rest)"

definition project_dirs :: "path \<Rightarrow> path \<Rightarrow> path list" where
  "project_dirs cwd project_root = rev (up_to_root project_root (ancestors cwd))"

definition normalized_or_self :: "'e loader_env \<Rightarrow> path \<Rightarrow> path" where
  "normalized_or_self env p = (case canonicalize env p of Some q \<Rightarrow> q | None \<Rightarrow> p)"

definition load_project_layer ::
  "'e loader_env \<Rightarrow> trust_context \<Rightarrow> path \<Rightarrow> path \<Rightarrow> 'e + config_layer_entry option" where
  "load_project_layer env tc codex_home_abs dir =
     (let dot_codex = dir @ [Normal (lit ''.codex'')]
      in if \<not> fs_is_dir env dot_codex then Inr None
         else
           bindE (from_absolute_path env (show_path dir)) (\<lambda>layer_dir.
           let decision = decision_for_dir tc layer_dir
           in bindE (from_absolute_path env (show_path dot_codex)) (\<lambda>dot_codex_abs.
              if dot_codex_abs = codex_home_abs \<or>
                 normalized_or_self env dot_codex_abs = normalized_or_self env codex_home_abs
              then Inr None
              else
                bindE (abs_join env dot_codex_abs (lit ''config.toml'')) (\<lambda>config_file.
                case fs_read_to_string env config_file of
                  Inr contents \<Rightarrow>
                    (case parse_toml env contents of
                       Inr config \<Rightarrow>
                         bindE (resolve_relative_paths env config dot_codex_abs) (\<lambda>config.
                         Inr (Some (project_layer_entry env tc dot_codex_abs layer_dir config True)))
                     | Inl e \<Rightarrow>
                         if is_trusted decision
                         then Inl (with_message env e
                                (lit ''Error parsing project config file '' @ show_path config_file))
                         else Inr (Some (project_layer_entry env tc dot_codex_abs layer_dir (TTable []) True)))
                | Inl e \<Rightarrow>
                    if is_not_found env e
                    then Inr (Some (project_layer_entry env tc dot_codex_abs layer_dir (TTable []) False))
                    else Inl (with_message env e
                           (lit ''Failed to read project config file '' @ show_path config_file))))))"

definition load_project_layers ::
  "'e loader_env \<Rightarrow> path \<Rightarrow> path \<Rightarrow> trust_context \<Rightarrow> path \<Rightarrow> 'e + config_layer_entry list" where
  "load_project_layers env cwd project_root tc codex_home =
     bindE (from_absolute_path env (show_path codex_home)) (\<lambda>codex_home_abs.
     bindE (traverseE (load_project_layer env tc codex_home_abs) (project_dirs cwd project_root))
       (\<lambda>entries. Inr (List.map_filter id entries)))"

section \<open>Loading all layers\<close>

definition load_config_layers_internal ::
  "'e loader_env \<Rightarrow> ustr option \<Rightarrow> (toml \<times> ustr) option \<Rightarrow> 'e + loaded_config_layers" where
  "load_config_layers_internal env managed_config_path managed_preferences =
     bindE (from_absolute_path env
              (case managed_config_path of Some p \<Rightarrow> p | None \<Rightarrow> lit ''/etc/codex/managed_config.toml'')) (\<lambda>file.
     bindE (read_config_from_path env file) (\<lambda>config.
     Inr \<lparr>managed_config = map_option (\<lambda>v. (v, file)) config, managed_config_from_mdm = managed_preferences\<rparr>))"

text \<open>The requirements: of the cloud, of the system, then of the managed configuration.\<close>

definition load_all_requirements ::
  "'e loader_env \<Rightarrow> config_requirements_toml option \<Rightarrow> ustr option \<Rightarrow> (toml \<times> ustr) option
    \<Rightarrow> 'e + requirements_with_sources \<times> loaded_config_layers" where
  "load_all_requirements env cloud managed_config_path managed_preferences =
     (let reqs = (case cloud of
                    Some requirements \<Rightarrow> merge_unset_fields with_sources_default CloudRequirements requirements
                  | None \<Rightarrow> with_sources_default)
      in bindE (from_absolute_path env (lit ''/etc/codex/requirements.toml'')) (\<lambda>requirements_toml_file.
         bindE (load_requirements_toml env reqs requirements_toml_file) (\<lambda>reqs.
         bindE (load_config_layers_internal env managed_config_path managed_preferences) (\<lambda>loaded.
         bindE (load_requirements_from_legacy_scheme env reqs loaded) (\<lambda>reqs. Inr (reqs, loaded))))))"

definition cli_overrides_layer ::
  "'e loader_env \<Rightarrow> path \<Rightarrow> path option \<Rightarrow> (ustr \<times> toml) list \<Rightarrow> 'e + toml option" where
  "cli_overrides_layer env codex_home cwd cli_overrides =
     (if cli_overrides = [] then Inr None
      else bindE (resolve_relative_paths env (build_cli_overrides_layer cli_overrides)
                    (case cwd of Some d \<Rightarrow> d | None \<Rightarrow> codex_home))
             (\<lambda>v. Inr (Some v)))"

definition merged_with_cli :: "config_layer_entry list \<Rightarrow> toml option \<Rightarrow> toml" where
  "merged_with_cli layers cli =
     (let merged = foldl (\<lambda>merged l. merge_toml merged (layer_config l)) (TTable []) layers
      in case cli of Some v \<Rightarrow> merge_toml merged v | None \<Rightarrow> merged)"

definition prefer_layer_error :: "'e loader_env \<Rightarrow> config_layer_entry list \<Rightarrow> 'e + 'a \<Rightarrow> 'e + 'a" where
  "prefer_layer_error env layers =
     map_errE (\<lambda>err. case layer_error env layers of Some e \<Rightarrow> e | None \<Rightarrow> err)"

text \<open>The block under \<open>if let Some(cwd)\<close>: what it sees of the configuration, the trust it derives, the
  layers it adds.\<close>

definition trust_in_project ::
  "'e loader_env \<Rightarrow> config_layer_entry list \<Rightarrow> toml option \<Rightarrow> path \<Rightarrow> path \<Rightarrow> path \<Rightarrow> 'e + trust_context" where
  "trust_in_project env layers cli cwd codex_home user_file =
     (let merged_so_far = merged_with_cli layers cli
      in bindE (prefer_layer_error env layers (project_root_markers_from_config env merged_so_far)) (\<lambda>markers.
         prefer_layer_error env layers
           (project_trust_context env merged_so_far cwd
              (case markers of Some ms \<Rightarrow> ms | None \<Rightarrow> default_project_root_markers) codex_home user_file)))"

definition layers_of_project ::
  "'e loader_env \<Rightarrow> config_layer_entry list \<Rightarrow> toml option \<Rightarrow> path option \<Rightarrow> path \<Rightarrow> path \<Rightarrow> 'e + config_layer_entry list" where
  "layers_of_project env layers cli cwd codex_home user_file =
     (case cwd of
        None \<Rightarrow> Inr []
      | Some cwd \<Rightarrow>
          bindE (trust_in_project env layers cli cwd codex_home user_file)
            (\<lambda>tc. load_project_layers env cwd (tc_project_root tc) tc codex_home))"

definition managed_layers :: "'e loader_env \<Rightarrow> loaded_config_layers \<Rightarrow> 'e + config_layer_entry list" where
  "managed_layers env loaded =
     bindE (case managed_config loaded of
              None \<Rightarrow> Inr []
            | Some (config, file) \<Rightarrow>
                bindE (ok_or (invalid_data env (lit ''Managed config file '' @ show_path file @ lit '' has no parent directory''))
                         (parent file)) (\<lambda>managed_parent.
                bindE (resolve_relative_paths env config managed_parent)
                  (\<lambda>config. Inr [layer_new (toml_version env) (LegacyFileLayer file) config]))) (\<lambda>from_file.
     Inr (from_file @
          (case managed_config_from_mdm loaded of
             Some (config, raw) \<Rightarrow> [layer_new_with_raw (toml_version env) LegacyMdmLayer config raw]
           | None \<Rightarrow> [])))"

text \<open>\<open>load_config_layers_state\<close> up to the construction of the stack.\<close>

definition load_layers ::
  "'e loader_env \<Rightarrow> path \<Rightarrow> path option \<Rightarrow> (ustr \<times> toml) list \<Rightarrow> ustr option \<Rightarrow> (toml \<times> ustr) option
    \<Rightarrow> config_requirements_toml option \<Rightarrow> 'e + config_layer_entry list \<times> requirements_with_sources" where
  "load_layers env codex_home cwd cli_overrides managed_config_path managed_preferences cloud =
     bindE (load_all_requirements env cloud managed_config_path managed_preferences) (\<lambda>(reqs, loaded).
     bindE (cli_overrides_layer env codex_home cwd cli_overrides) (\<lambda>cli.
     bindE (from_absolute_path env (lit ''/etc/codex/config.toml'')) (\<lambda>system_file.
     bindE (load_config_toml_for_required_layer env system_file
              (layer_new (toml_version env) (SystemLayer system_file))) (\<lambda>system_layer.
     bindE (resolve_path_against_base env (lit ''config.toml'') codex_home) (\<lambda>user_file.
     bindE (load_config_toml_for_required_layer env user_file
              (layer_new (toml_version env) (UserLayer user_file))) (\<lambda>user_layer.
     bindE (layers_of_project env [system_layer, user_layer] cli cwd codex_home user_file) (\<lambda>project_layers.
     bindE (managed_layers env loaded) (\<lambda>managed.
     Inr ([system_layer, user_layer] @ project_layers @
          (case cli of Some v \<Rightarrow> [layer_new (toml_version env) SessionFlags v] | None \<Rightarrow> []) @ managed, reqs)))))))))"

definition load_config_layers_state ::
  "'e loader_env \<Rightarrow> ('m, prefix_rule) multimap_ops \<Rightarrow> path \<Rightarrow> path option \<Rightarrow> (ustr \<times> toml) list \<Rightarrow> ustr option
    \<Rightarrow> (toml \<times> ustr) option \<Rightarrow> config_requirements_toml option \<Rightarrow> 'e + 'm config_layer_stack" where
  "load_config_layers_state env mm codex_home cwd cli_overrides managed_config_path managed_preferences cloud =
     bindE (load_layers env codex_home cwd cli_overrides managed_config_path managed_preferences cloud) (\<lambda>(layers, reqs).
     bindE (map_errE (constraint_failure env) (requirements_of mm reqs)) (\<lambda>requirements.
     map_errE (invalid_data env) (stack_new layers requirements (into_toml reqs))))"

section \<open>A project does not trust itself\<close>

text \<open>The trust of a directory, as the configuration without the project layers grants it.\<close>

lemma unwrap_prefer [simp]: "prefer_layer_error env layers r = Inr x \<longleftrightarrow> r = Inr x"
  by (cases r) (auto simp: prefer_layer_error_def)

definition harmless :: "trust_context \<Rightarrow> path \<Rightarrow> config_layer_entry \<Rightarrow> bool" where
  "harmless tc layer_dir l \<longleftrightarrow>
     is_disabled l \<or> layer_config l = TTable [] \<or> td_trust_level (decision_for_dir tc layer_dir) = Some Trusted"

lemma disabled_reason_trusted: "disabled_reason_for_dir tc dir = None \<longleftrightarrow> is_trusted (decision_for_dir tc dir)"
  by (simp add: disabled_reason_for_dir_def Let_def)

lemma project_layer_entry_name: "layer_name (project_layer_entry env tc folder dir c e) = ProjectLayer folder"
  by (simp add: project_layer_entry_def layer_new_def layer_new_disabled_def split: option.splits)

lemma project_layer_entry_harmless:
  "e \<or> c = TTable [] \<Longrightarrow> harmless tc dir (project_layer_entry env tc folder dir c e)"
  using disabled_reason_trusted [of tc dir]
  by (auto simp: project_layer_entry_def layer_new_def layer_new_disabled_def harmless_def is_disabled_def
      is_trusted_def split: option.splits)

lemma load_project_layer_entry:
  assumes "load_project_layer env tc home dir = Inr (Some l)"
  shows "\<exists>layer_dir folder. from_absolute_path env (show_path dir) = Inr layer_dir \<and>
    from_absolute_path env (show_path (dir @ [Normal (lit ''.codex'')])) = Inr folder \<and>
    layer_name l = ProjectLayer folder \<and> harmless tc layer_dir l"
proof -
  from assms obtain layer_dir folder cfg where
    dirs: "from_absolute_path env (show_path dir) = Inr layer_dir"
      "from_absolute_path env (show_path (dir @ [Normal (lit ''.codex'')])) = Inr folder"
    and read: "(case fs_read_to_string env cfg of
        Inr contents \<Rightarrow>
          (case parse_toml env contents of
             Inr config \<Rightarrow> bindE (resolve_relative_paths env config folder)
               (\<lambda>config. Inr (Some (project_layer_entry env tc folder layer_dir config True)))
           | Inl e \<Rightarrow>
               if is_trusted (decision_for_dir tc layer_dir)
               then Inl (with_message env e (lit ''Error parsing project config file '' @ show_path cfg))
               else Inr (Some (project_layer_entry env tc folder layer_dir (TTable []) True)))
      | Inl e \<Rightarrow>
          if is_not_found env e then Inr (Some (project_layer_entry env tc folder layer_dir (TTable []) False))
          else Inl (with_message env e (lit ''Failed to read project config file '' @ show_path cfg))) = Inr (Some l)"
    by (auto simp: load_project_layer_def Let_def bindE_eq_Inr_iff split: if_split_asm)
  from read obtain c e where "l = project_layer_entry env tc folder layer_dir c e" "e \<or> c = TTable []"
    by (cases "fs_read_to_string env cfg"; cases "parse_toml env (projr (fs_read_to_string env cfg))")
      (auto simp: bindE_eq_Inr_iff split: if_split_asm)
  with dirs show ?thesis
    by (auto simp: project_layer_entry_name project_layer_entry_harmless)
qed

lemma traverseE_mem: "traverseE f xs = Inr ys \<Longrightarrow> y \<in> set ys \<Longrightarrow> \<exists>x \<in> set xs. f x = Inr y"
  by (induction xs arbitrary: ys) (auto simp: res_ops)

lemma load_project_layers_entry:
  assumes "load_project_layers env cwd root_dir tc home = Inr layers" and "l \<in> set layers"
  shows "\<exists>dir layer_dir folder. dir \<in> set (project_dirs cwd root_dir) \<and>
    from_absolute_path env (show_path dir) = Inr layer_dir \<and>
    from_absolute_path env (show_path (dir @ [Normal (lit ''.codex'')])) = Inr folder \<and>
    layer_name l = ProjectLayer folder \<and> harmless tc layer_dir l"
proof -
  from assms obtain home_abs entries where
    "traverseE (load_project_layer env tc home_abs) (project_dirs cwd root_dir) = Inr entries"
    and l: "Some l \<in> set entries"
    by (auto simp: load_project_layers_def res_ops List.map_filter_def)
  then obtain dir where "dir \<in> set (project_dirs cwd root_dir)" "load_project_layer env tc home_abs dir = Inr (Some l)"
    using traverseE_mem by metis
  with load_project_layer_entry [of env tc home_abs dir l] show ?thesis
    by blast
qed

lemma up_to_root_sub: "set (up_to_root r ds) \<subseteq> set ds"
  by (induction ds) auto

lemma project_dirs_sub: "set (project_dirs cwd r) \<subseteq> set (ancestors cwd)"
  by (simp add: project_dirs_def up_to_root_sub)

lemma trusted_key:
  assumes "td_trust_level (decision_for_dir tc dir) = Some Trusted"
  shows "\<exists>key. (key = show_path dir \<or> key = tc_project_root_key tc \<or> tc_repo_root_key tc = Some key) \<and>
    tc_projects_trust tc key = Some Trusted"
  using assms by (auto simp: decision_for_dir_def Let_def split: option.splits)

lemma trust_in_project_tc:
  assumes "trust_in_project env layers cli cwd home user_file = Inr tc"
  shows "\<exists>projects markers. projects_of env (merged_with_cli layers cli) home = Inr projects \<and>
    find_project_root env cwd markers = Inr (tc_project_root tc) \<and>
    tc_project_root_key tc = show_path (tc_project_root tc) \<and>
    tc_repo_root_key tc = map_option show_path (repo_root_of env cwd) \<and>
    tc_projects_trust tc = map_of (List.map_filter (\<lambda>(key, l). map_option (Pair key) l) projects)"
  using assms by (auto simp: trust_in_project_def Let_def project_trust_context_def res_ops)

lemma map_of_granted:
  "map_of (List.map_filter (\<lambda>(key, l). map_option (Pair key) l) projects) key = Some l \<Longrightarrow> (key, Some l) \<in> set projects"
  by (auto dest!: map_of_SomeD simp: List.map_filter_def)

definition flags_layer :: "'e loader_env \<Rightarrow> toml option \<Rightarrow> config_layer_entry list" where
  "flags_layer env cli = (case cli of Some v \<Rightarrow> [layer_new (toml_version env) SessionFlags v] | None \<Rightarrow> [])"

lemma required_layer_name:
  "load_config_toml_for_required_layer env cfg (layer_new (toml_version env) name) = Inr l \<Longrightarrow>
     layer_name l = name \<and> \<not> is_disabled l"
  by (auto simp: load_config_toml_for_required_layer_def res_ops layer_new_def is_disabled_def)

lemma loaded_parts:
  assumes "load_layers env codex_home cwd cli_overrides path prefs cloud = Inr (layers, reqs)"
  shows "\<exists>loaded cli sys_layer user_layer system_file user_file projects managed.
    cli_overrides_layer env codex_home cwd cli_overrides = Inr cli \<and>
    layer_name sys_layer = SystemLayer system_file \<and> layer_name user_layer = UserLayer user_file \<and>
    layers_of_project env [sys_layer, user_layer] cli cwd codex_home user_file = Inr projects \<and>
    managed_layers env loaded = Inr managed \<and>
    layers = [sys_layer, user_layer] @ projects @ flags_layer env cli @ managed"
proof -
  from assms obtain loaded cli sys_layer user_layer system_file user_file projects managed where
    cli: "cli_overrides_layer env codex_home cwd cli_overrides = Inr cli"
    and sys: "load_config_toml_for_required_layer env system_file
          (layer_new (toml_version env) (SystemLayer system_file)) = Inr sys_layer"
    and usr: "load_config_toml_for_required_layer env user_file
          (layer_new (toml_version env) (UserLayer user_file)) = Inr user_layer"
    and projects: "layers_of_project env [sys_layer, user_layer] cli cwd codex_home user_file = Inr projects"
    and managed: "managed_layers env loaded = Inr managed"
    and layers: "layers = [sys_layer, user_layer] @ projects @ flags_layer env cli @ managed"
    unfolding load_layers_def flags_layer_def bindE_eq_Inr_iff map_errE_eq_Inr_iff
    by (auto simp: bindE_eq_Inr_iff)
  from required_layer_name [OF sys] required_layer_name [OF usr] show ?thesis
    using cli projects managed layers by blast
qed

lemma other_layers_no_project:
  assumes "managed_layers env loaded = Inr managed" and "l \<in> set (flags_layer env cli @ managed)"
  shows "project_folder l = None"
  using assms
  by (auto simp: managed_layers_def res_ops flags_layer_def layer_new_def layer_new_with_raw_def
      split: option.splits)

lemma loaded_project_layer:
  assumes "load_config_layers_state env mm codex_home cwd cli_overrides path prefs cloud = Inr s"
    and "l \<in> set (stack_layers s)" and "layer_name l = ProjectLayer f"
  shows "\<exists>d cli sys_layer user_layer system_file user_file tc dir layer_dir. cwd = Some d \<and>
    cli_overrides_layer env codex_home cwd cli_overrides = Inr cli \<and>
    take 2 (stack_layers s) = [sys_layer, user_layer] \<and>
    layer_name sys_layer = SystemLayer system_file \<and> layer_name user_layer = UserLayer user_file \<and>
    trust_in_project env [sys_layer, user_layer] cli d codex_home user_file = Inr tc \<and>
    dir \<in> set (ancestors d) \<and> from_absolute_path env (show_path dir) = Inr layer_dir \<and>
    from_absolute_path env (show_path (dir @ [Normal (lit ''.codex'')])) = Inr f \<and> harmless tc layer_dir l"
proof -
  from assms(1) obtain reqs where
    "load_layers env codex_home cwd cli_overrides path prefs cloud = Inr (stack_layers s, reqs)"
    by (auto simp: load_config_layers_state_def res_ops stack_new_def)
  from loaded_parts [OF this] obtain loaded cli sys_layer user_layer system_file user_file projects managed where
    parts: "cli_overrides_layer env codex_home cwd cli_overrides = Inr cli"
      "layer_name sys_layer = SystemLayer system_file" "layer_name user_layer = UserLayer user_file"
      "layers_of_project env [sys_layer, user_layer] cli cwd codex_home user_file = Inr projects"
      "managed_layers env loaded = Inr managed"
      "stack_layers s = [sys_layer, user_layer] @ projects @ flags_layer env cli @ managed"
    by blast
  from other_layers_no_project [OF parts(5), of l] assms(2,3) parts have l: "l \<in> set projects"
    by auto
  with parts(4) obtain d tc where d: "cwd = Some d"
    "trust_in_project env [sys_layer, user_layer] cli d codex_home user_file = Inr tc"
    "load_project_layers env d (tc_project_root tc) tc codex_home = Inr projects"
    by (auto simp: layers_of_project_def res_ops split: option.splits)
  from load_project_layers_entry [OF d(3) l] project_dirs_sub [of d "tc_project_root tc"] assms(3) obtain dir layer_dir where
    "dir \<in> set (ancestors d)" "from_absolute_path env (show_path dir) = Inr layer_dir"
    "from_absolute_path env (show_path (dir @ [Normal (lit ''.codex'')])) = Inr f" "harmless tc layer_dir l"
    by auto
  moreover have "take 2 (stack_layers s) = [sys_layer, user_layer]"
    by (simp add: parts(6))
  ultimately show ?thesis
    using parts(1-3) d(1,2) by blast
qed

section \<open>Paths as text\<close>

definition plain_name :: "ustr \<Rightarrow> bool" where
  "plain_name s \<longleftrightarrow> s \<noteq> [] \<and> slash \<notin> set s \<and> s \<noteq> lit ''.'' \<and> s \<noteq> lit ''..''"

text \<open>What \<open>AbsolutePathBuf\<close> holds on Unix.\<close>

definition normal_path :: "path \<Rightarrow> bool" where
  "normal_path p \<longleftrightarrow> (\<exists>names. p = RootDir # map Normal names \<and> list_all plain_name names)"

lemma show_normal: "show_path (RootDir # map Normal names) = slash # join_with [slash] names"
  by (simp add: show_path_def comp_def)

lemma segments_normal:
  "list_all plain_name names \<Longrightarrow>
     map segment_component (filter (\<lambda>s. s \<noteq> [] \<and> s \<noteq> lit ''.'') names) = map Normal names"
  by (induction names) (simp_all add: segment_component_def plain_name_def)

lemma components_show:
  assumes "normal_path p"
  shows "components (show_path p) = p"
proof -
  from assms obtain names where p: "p = RootDir # map Normal names" "list_all plain_name names"
    by (auto simp: normal_path_def)
  have split: "split_on slash (slash # s) = [] # split_on slash s" for s
    by simp
  have "filter (\<lambda>s. s \<noteq> [] \<and> s \<noteq> lit ''.'') (split_on slash (join_with [slash] names)) =
      filter (\<lambda>s. s \<noteq> [] \<and> s \<noteq> lit ''.'') names"
  proof (cases names)
    case (Cons n ns)
    have "\<forall>x \<in> set names. slash \<notin> set x"
      using p(2) by (auto simp: list_all_iff plain_name_def)
    then show ?thesis
      by (subst split_join) (simp_all add: Cons)
  qed simp
  moreover have "is_absolute (slash # s)" for s
    by (simp add: is_absolute_def starts_with_def)
  ultimately show ?thesis
    using segments_normal [OF p(2)] by (simp add: components_def p(1) show_normal split)
qed

lemma join_with_snoc: "xs \<noteq> [] \<Longrightarrow> join_with sep (xs @ [y]) = join_with sep xs @ sep @ y"
  by (induction sep xs rule: join_with.induct) simp_all

lemma normal_path_snoc: "normal_path p \<Longrightarrow> plain_name n \<Longrightarrow> normal_path (p @ [Normal n])"
  unfolding normal_path_def
proof -
  assume "\<exists>names. p = RootDir # map Normal names \<and> list_all plain_name names" "plain_name n"
  then obtain names where "p = RootDir # map Normal names" "list_all plain_name names"
    by blast
  with \<open>plain_name n\<close> show "\<exists>names. p @ [Normal n] = RootDir # map Normal names \<and> list_all plain_name names"
    by (intro exI [of _ "names @ [n]"]) simp
qed

lemma plain_name_last: "plain_name n \<Longrightarrow> n \<noteq> [] \<and> last n \<noteq> slash"
  by (metis last_in_set plain_name_def)

lemma join_normal:
  assumes "normal_path p" and "p \<noteq> [RootDir]" and "plain_name n"
  shows "join (show_path p) n = show_path (p @ [Normal n])"
proof -
  from assms(1,2) obtain names where p: "p = RootDir # map Normal names" "list_all plain_name names" "names \<noteq> []"
    by (auto simp: normal_path_def)
  have rel: "\<not> is_absolute n"
    using assms(3) by (cases n) (auto simp: is_absolute_def starts_with_def plain_name_def)
  have "last (join_with [slash] names) \<noteq> slash \<and> join_with [slash] names \<noteq> []"
    using p(2,3)
  proof (induction names rule: rev_induct)
    case (snoc x xs)
    then show ?case
      using plain_name_last [of x] by (cases "xs = []") (auto simp: join_with_snoc)
  qed simp
  then show ?thesis
    using p rel show_normal [of names] show_normal [of "names @ [n]"] by (simp add: join_def join_with_snoc)
qed

section \<open>The order of loaded layers\<close>

lemma ancestors_shorter: "b \<in> set (ancestors a) \<Longrightarrow> length b \<le> length a"
proof (induction a rule: ancestors.induct)
  case (1 p)
  then show ?case
    by (subst (asm) ancestors.simps) (auto simp: parent_def split: option.splits list.splits component.splits)
qed

lemma ancestors_chain: "sorted_wrt (\<lambda>a b. b \<noteq> a \<and> b \<in> set (ancestors a)) (ancestors p)"
proof (induction p rule: ancestors.induct)
  case (1 p)
  show ?case
  proof (cases "parent p")
    case None
    then show ?thesis by (subst ancestors.simps) simp
  next
    case (Some q)
    then have "length q < length p"
      by (auto simp: parent_def split: list.splits component.splits)
    then have "p \<notin> set (ancestors q)"
      using ancestors_shorter by (meson not_less)
    with 1 [OF Some] Some show ?thesis
      by (subst ancestors.simps) (auto simp: ancestors.simps [of p])
  qed
qed

lemma up_to_root_take: "\<exists>n. up_to_root r ds = take n ds"
proof (induction ds)
  case (Cons d ds)
  then obtain n where "up_to_root r ds = take n ds" by blast
  then show ?case
    by (intro exI [of _ "if d = r then 1 else Suc n"]) simp
qed simp

lemma project_dirs_chain: "sorted_wrt (\<lambda>a b. a \<noteq> b \<and> a \<in> set (ancestors b)) (project_dirs cwd r)"
proof -
  obtain n where "up_to_root r (ancestors cwd) = take n (ancestors cwd)"
    using up_to_root_take by blast
  with sorted_wrt_take [OF ancestors_chain [of cwd], of n] show ?thesis
    by (simp add: project_dirs_def sorted_wrt_rev)
qed

definition codex_folder :: "path \<Rightarrow> path" where
  "codex_folder dir = dir @ [Normal (lit ''.codex'')]"

lemma codex_folder_order:
  "a \<noteq> b \<Longrightarrow> a \<in> set (ancestors b) \<Longrightarrow> check_project_order (Some (codex_folder a)) (codex_folder b) = Inr ()"
  by (simp add: check_project_order_def codex_folder_def parent_def ancestors.simps [of "b @ _"])

lemma chain_of_dirs:
  "sorted_wrt (\<lambda>a b. a \<noteq> b \<and> a \<in> set (ancestors b)) ds \<Longrightarrow>
   (case previous of None \<Rightarrow> True | Some a \<Rightarrow> list_all (\<lambda>b. a \<noteq> b \<and> a \<in> set (ancestors b)) ds) \<Longrightarrow>
   project_chain (map_option codex_folder previous) (map codex_folder ds)"
proof (induction ds arbitrary: previous)
  case (Cons d ds)
  have "check_project_order (map_option codex_folder previous) (codex_folder d) = Inr ()"
    using Cons.prems(2) codex_folder_order [of _ d]
    by (cases previous) (simp_all add: check_project_order_def [of None])
  moreover have "list_all (\<lambda>b. d \<noteq> b \<and> d \<in> set (ancestors b)) ds"
    using Cons.prems(1) by (auto simp: list_all_iff)
  ultimately show ?case
    using Cons.IH [of "Some d"] Cons.prems(1) by simp
qed simp

lemma loaded_project_folders:
  assumes abs: "\<And>p. normal_path p \<Longrightarrow> from_absolute_path env (show_path p) = Inr p"
    and "list_all normal_path ds"
    and "traverseE (load_project_layer env tc home) ds = Inr entries"
  shows "project_folders (List.map_filter id entries) =
      map codex_folder (filter (\<lambda>d. load_project_layer env tc home d \<noteq> Inr None) ds) \<and>
    list_all (\<lambda>l. precedence (layer_name l) = 25) (List.map_filter id entries)"
  using assms(2,3)
proof (induction ds arbitrary: entries)
  case (Cons d ds)
  from Cons.prems obtain e es where
    e: "load_project_layer env tc home d = Inr e" "traverseE (load_project_layer env tc home) ds = Inr es"
      "entries = e # es"
    by (auto simp: res_ops)
  have "list_all normal_path ds"
    using Cons.prems(1) by simp
  note rest = Cons.IH [OF this e(2)]
  have "normal_path (codex_folder d)"
    using Cons.prems(1) by (simp add: codex_folder_def normal_path_snoc plain_name_def slash_def lit_def)
  then have "layer_name l = ProjectLayer (codex_folder d)" if "e = Some l" for l
    using load_project_layer_entry [of env tc home d l] e(1) that abs by (auto simp: codex_folder_def)
  with rest e show ?case
    by (cases e) (simp_all add: map_filter_simps)
qed (simp add: List.map_filter_def)

lemma ancestors_normal: "normal_path p \<Longrightarrow> list_all normal_path (ancestors p)"
proof (induction p rule: ancestors.induct)
  case (1 p)
  have "normal_path q" if q: "parent p = Some q" for q
  proof -
    from 1(2) obtain names where p: "p = RootDir # map Normal names" "list_all plain_name names"
      by (auto simp: normal_path_def)
    with q obtain ns n where ns: "names = ns @ [n]"
      by (cases names rule: rev_cases) (auto simp: parent_def)
    with p q show ?thesis
      by (auto simp: parent_def normal_path_def)
  qed
  with 1 show ?case
    by (subst ancestors.simps) (auto split: option.splits)
qed

lemma tiers_sorted:
  "sorted xs \<Longrightarrow> list_all ((\<le>) 30) xs \<Longrightarrow> sorted (10 # 20 # replicate n (25::int) @ xs)"
  by (fastforce simp: sorted_append list_all_iff)

lemma loaded_layers_ordered:
  assumes abs: "\<And>p. normal_path p \<Longrightarrow> from_absolute_path env (show_path p) = Inr p"
    and cwd: "\<And>d. cwd = Some d \<Longrightarrow> normal_path d"
    and load: "load_layers env codex_home cwd cli_overrides path prefs cloud = Inr (layers, reqs)"
  shows "verify_layer_ordering layers = Inr (Some 1)"
proof -
  from loaded_parts [OF load] obtain loaded cli sys_layer user_layer system_file user_file projects managed where
    parts: "layer_name sys_layer = SystemLayer system_file" "layer_name user_layer = UserLayer user_file"
      "layers_of_project env [sys_layer, user_layer] cli cwd codex_home user_file = Inr projects"
      "managed_layers env loaded = Inr managed"
      "layers = [sys_layer, user_layer] @ projects @ flags_layer env cli @ managed"
    by blast
  have projects: "\<exists>ds. project_folders projects = map codex_folder ds \<and>
      sorted_wrt (\<lambda>a b. a \<noteq> b \<and> a \<in> set (ancestors b)) ds \<and> list_all (\<lambda>l. precedence (layer_name l) = 25) projects"
  proof (cases cwd)
    case None
    with parts(3) show ?thesis
      by (intro exI [of _ "[]"]) (simp add: layers_of_project_def)
  next
    case (Some d)
    with parts(3) obtain tc home entries where
      entries: "traverseE (load_project_layer env tc home) (project_dirs d (tc_project_root tc)) = Inr entries"
        "projects = List.map_filter id entries"
      by (auto simp: layers_of_project_def load_project_layers_def res_ops)
    have "list_all normal_path (project_dirs d (tc_project_root tc))"
      using ancestors_normal [OF cwd [OF Some]] project_dirs_sub [of d "tc_project_root tc"]
      by (auto simp: list_all_iff)
    from loaded_project_folders [OF abs this entries(1)] sorted_wrt_filter [OF project_dirs_chain] entries(2)
    show ?thesis by blast
  qed
  then obtain ds where ds: "project_folders projects = map codex_folder ds"
    "sorted_wrt (\<lambda>a b. a \<noteq> b \<and> a \<in> set (ancestors b)) ds" "list_all (\<lambda>l. precedence (layer_name l) = 25) projects"
    by blast
  let ?upper = "flags_layer env cli @ managed"
  have upper: "project_folders ?upper = []" "user_layers ?upper = []" "sorted (map (precedence \<circ> layer_name) ?upper)"
      "list_all (\<lambda>l. 30 \<le> precedence (layer_name l)) ?upper"
    using parts(4)
    by (auto simp: managed_layers_def res_ops flags_layer_def layer_new_def layer_new_with_raw_def
        split: option.splits)
  have "user_layers projects = []"
    using ds(3) by (auto simp: user_layers_def filter_empty_conv list_all_iff split: config_layer_source.splits)
  have "map (precedence \<circ> layer_name) projects = replicate (length projects) 25"
    using ds(3) by (induction projects) simp_all
  then have "map (precedence \<circ> layer_name) layers =
      10 # 20 # replicate (length projects) 25 @ map (precedence \<circ> layer_name) ?upper"
    by (simp add: parts)
  moreover have "sorted \<dots>"
    by (rule tiers_sorted [OF upper(3)]) (use upper(4) in \<open>auto simp: list_all_iff\<close>)
  ultimately have "sorted (map (precedence \<circ> layer_name) layers)"
    by (simp only:)
  moreover have "project_chain None (project_folders layers)"
    using chain_of_dirs [OF ds(2), of None] ds(1) upper(1) by (simp add: parts)
  moreover have "user_layers layers = [user_layer]"
    using \<open>user_layers projects = []\<close> upper(2) by (simp add: parts)
  ultimately have "ordered_layers layers"
    by (simp add: ordered_layers_def)
  then show ?thesis
    using parts(1,2,5) by (simp add: verify_layer_ordering_ok)
qed



text \<open>A disk: files by their path, where the contents name a directory to trust or a model.\<close>

definition disk_env :: "(path \<rightharpoonup> ustr) \<Rightarrow> path list \<Rightarrow> ustr loader_env" where
  "disk_env files dirs =
     \<lparr>os = Linux, home_dir = None, absolutize = (\<lambda>p. Inr (components p)),
      absolutize_from = (\<lambda>p base. Inr (components (join (show_path base) p))),
      fs_is_file = (\<lambda>p. files p \<noteq> None), fs_is_dir = (\<lambda>p. p \<in> set dirs),
      fs_exists = (\<lambda>p. p \<in> set dirs \<or> files p \<noteq> None),
      fs_read_to_string = (\<lambda>p. case files p of Some c \<Rightarrow> Inr c | None \<Rightarrow> Inl (lit ''missing'')),
      var_tmpdir = None, is_not_found = (\<lambda>e. e = lit ''missing''), canonicalize = (\<lambda>_. None),
      parse_toml = (\<lambda>c. Inr (TTable [(lit ''trust'', TString c)])),
      parse_requirements = (\<lambda>_. Inr requirements_toml_default),
      parse_legacy = (\<lambda>_. Inr \<lparr>legacy_approval_policy = None, legacy_sandbox_mode = None\<rparr>),
      as_config_toml = (\<lambda>_ _. None),
      projects_of = (\<lambda>v _. Inr (case toml_get v [lit ''trust''] of
                                  Some (TString c) \<Rightarrow> [(c, Some Trusted)] | _ \<Rightarrow> [])),
      repo_root_of = (\<lambda>_. None), toml_version = (\<lambda>_. []), invalid_data = (\<lambda>e. e),
      with_message = (\<lambda>_ e. e), constraint_failure = (\<lambda>_. lit ''constraint''), layer_error = (\<lambda>_. None)\<rparr>"

definition dir_w :: path where "dir_w = [RootDir, Normal (lit ''w'')]"
definition dir_h :: path where "dir_h = [RootDir, Normal (lit ''h'')]"

definition trusted_disk :: "ustr loader_env" where
  "trusted_disk = disk_env
     (map_of [(dir_h @ [Normal (lit ''config.toml'')], lit ''/w''),
              (codex_folder dir_w @ [Normal (lit ''config.toml'')], lit ''x'')])
     [codex_folder dir_w]"

lemma disk_absolute:
  "from_absolute_path trusted_disk p = Inr (components p)"
  "resolve_path_against_base trusted_disk p base = Inr (components (join (show_path base) p))"
  "abs_join trusted_disk base p = Inr (components (join (show_path base) p))"
  by (simp_all add: from_absolute_path_def resolve_path_against_base_def abs_join_def maybe_expand_home_directory_def
      trusted_disk_def disk_env_def)

lemma small_name [simp]:
  "plain_name (lit ''w'')" "plain_name (lit ''h'')" "plain_name (lit ''.codex'')" "plain_name (lit ''config.toml'')"
  "plain_name (lit ''etc'')" "plain_name (lit ''codex'')" "plain_name (lit ''requirements.toml'')"
  "plain_name (lit ''managed_config.toml'')"
  by (simp_all add: plain_name_def slash_def lit_def)

lemma small_path [simp]: "normal_path [RootDir]"
  "normal_path dir_w" "normal_path dir_h" "normal_path (codex_folder dir_w)"
  using normal_path_snoc [of "[RootDir]"] normal_path_snoc [of dir_w]
  by (simp_all add: dir_w_def dir_h_def codex_folder_def normal_path_def)

definition etc_file :: "ustr \<Rightarrow> path" where
  "etc_file name = [RootDir, Normal (lit ''etc''), Normal (lit ''codex''), Normal name]"

lemma etc_files:
  "lit ''/etc/codex/config.toml'' = show_path (etc_file (lit ''config.toml''))"
  "lit ''/etc/codex/requirements.toml'' = show_path (etc_file (lit ''requirements.toml''))"
  "lit ''/etc/codex/managed_config.toml'' = show_path (etc_file (lit ''managed_config.toml''))"
  by (simp_all add: show_path_def etc_file_def slash_def lit_def)

lemma etc_normal: "plain_name n \<Longrightarrow> normal_path (etc_file n)"
  unfolding etc_file_def normal_path_def
  by (intro exI [of _ "[lit ''etc'', lit ''codex'', n]"]) simp

lemma disk_reads:
  "fs_read_to_string trusted_disk (etc_file n) = Inl (lit ''missing'')"
  "is_not_found trusted_disk (lit ''missing'')"
  "fs_read_to_string trusted_disk (dir_h @ [Normal (lit ''config.toml'')]) = Inr (lit ''/w'')"
  "fs_read_to_string trusted_disk (codex_folder dir_w @ [Normal (lit ''config.toml'')]) = Inr (lit ''x'')"
  "parse_toml trusted_disk c = Inr (TTable [(lit ''trust'', TString c)])"
  "resolve_relative_paths trusted_disk v base = Inr v"
  by (simp_all add: trusted_disk_def disk_env_def etc_file_def dir_h_def dir_w_def codex_folder_def lit_def
      resolve_relative_paths_def)

lemma disk_requirements:
  "load_all_requirements trusted_disk None None None =
     Inr (with_sources_default, \<lparr>managed_config = None, managed_config_from_mdm = None\<rparr>)"
  by (simp add: load_all_requirements_def load_requirements_toml_def disk_absolute etc_files components_show
      etc_normal disk_reads load_config_layers_internal_def read_config_from_path_def
      load_requirements_from_legacy_scheme_def)

definition trust_file :: "ustr \<Rightarrow> toml" where
  "trust_file c = TTable [(lit ''trust'', TString c)]"

definition trusted_layers :: "config_layer_entry list" where
  "trusted_layers =
     [layer_new (\<lambda>_. []) (SystemLayer (etc_file (lit ''config.toml''))) (TTable []),
      layer_new (\<lambda>_. []) (UserLayer (dir_h @ [Normal (lit ''config.toml'')])) (trust_file (lit ''/w'')),
      layer_new (\<lambda>_. []) (ProjectLayer (codex_folder dir_w)) (trust_file (lit ''x''))]"

lemma disk_version [simp]: "toml_version trusted_disk = (\<lambda>_. [])"
  by (simp add: trusted_disk_def disk_env_def)

lemma disk_cli: "cli_overrides_layer trusted_disk dir_h cwd [] = Inr None"
  by (simp add: cli_overrides_layer_def)

lemma disk_base:
  "load_config_toml_for_required_layer trusted_disk (etc_file (lit ''config.toml'')) f = Inr (f (TTable []))"
  "load_config_toml_for_required_layer trusted_disk (dir_h @ [Normal (lit ''config.toml'')]) f = Inr (f (trust_file (lit ''/w'')))"
  by (simp_all add: load_config_toml_for_required_layer_def disk_reads trust_file_def parent_def)

lemma disk_ancestors: "ancestors dir_w = [dir_w, [RootDir]]"
  by (simp add: dir_w_def ancestors.simps parent_def)

lemma no_git:
  "components (join (show_path dir_w) (lit ''.git'')) = dir_w @ [Normal (lit ''.git'')]"
  "components (join (show_path [RootDir]) (lit ''.git'')) = [RootDir] @ [Normal (lit ''.git'')]"
proof -
  have git: "plain_name (lit ''.git'')"
    by (simp add: plain_name_def slash_def lit_def)
  then show "components (join (show_path dir_w) (lit ''.git'')) = dir_w @ [Normal (lit ''.git'')]"
    by (subst join_normal) (simp_all add: components_show normal_path_snoc, simp add: dir_w_def)
  have "join (show_path [RootDir]) (lit ''.git'') = show_path ([RootDir] @ [Normal (lit ''.git'')])"
    by (simp add: join_def show_path_def is_absolute_def starts_with_def slash_def lit_def)
  then show "components (join (show_path [RootDir]) (lit ''.git'')) = [RootDir] @ [Normal (lit ''.git'')]"
    using normal_path_snoc [OF _ git, of "[RootDir]"] by (simp add: components_show)
qed

lemma disk_no_git:
  "\<not> fs_exists trusted_disk (dir_w @ [Normal (lit ''.git'')])" "\<not> fs_exists trusted_disk [RootDir, Normal (lit ''.git'')]"
  by (simp_all add: trusted_disk_def disk_env_def dir_w_def dir_h_def codex_folder_def lit_def)

lemma disk_projects:
  "projects_of trusted_disk (trust_file c) base = Inr [(c, Some Trusted)]" "repo_root_of trusted_disk = (\<lambda>_. None)"
  "canonicalize trusted_disk = (\<lambda>_. None)" "fs_is_dir trusted_disk p \<longleftrightarrow> p = codex_folder dir_w"
  by (simp_all add: trusted_disk_def disk_env_def trust_file_def)

lemma disk_trust:
  assumes "layer_config sys_layer = TTable []" and "layer_config user_layer = trust_file (lit ''/w'')"
  shows "trust_in_project trusted_disk [sys_layer, user_layer] None dir_w dir_h f =
    Inr \<lparr>tc_project_root = dir_w, tc_project_root_key = lit ''/w'', tc_repo_root_key = None,
         tc_projects_trust = [lit ''/w'' \<mapsto> Trusted], tc_user_config_file = f\<rparr>"
proof -
  have merged: "merged_with_cli [sys_layer, user_layer] None = trust_file (lit ''/w'')"
    by (simp add: merged_with_cli_def assms trust_file_def)
  have markers: "project_root_markers_from_config trusted_disk (trust_file c) = Inr None" for c
    by (simp add: project_root_markers_from_config_def trust_file_def lit_def)
  have w: "show_path dir_w = lit ''/w''"
    by (simp add: show_path_def dir_w_def slash_def lit_def)
  have "find_project_root trusted_disk dir_w default_project_root_markers = Inr dir_w"
    using no_git disk_no_git by (simp add: find_project_root_def default_project_root_markers_def disk_ancestors)
  then show ?thesis
    by (simp add: trust_in_project_def prefer_layer_error_def merged markers project_trust_context_def disk_projects
        w map_filter_simps)
qed

lemma disk_project_layer:
  assumes "tc_projects_trust tc (lit ''/w'') = Some Trusted"
  shows "load_project_layer trusted_disk tc dir_h dir_w =
    Inr (Some (layer_new (\<lambda>_. []) (ProjectLayer (codex_folder dir_w)) (trust_file (lit ''x''))))"
proof -
  have w: "show_path dir_w = lit ''/w''"
    by (simp add: show_path_def dir_w_def slash_def lit_def)
  have ne: "codex_folder dir_w \<noteq> dir_h" "codex_folder dir_w \<noteq> [RootDir]"
    by (simp_all add: codex_folder_def dir_w_def dir_h_def)
  have "disabled_reason_for_dir tc dir_w = None"
    by (simp add: disabled_reason_trusted is_trusted_def decision_for_dir_def w assms)
  moreover have "components (join (show_path (codex_folder dir_w)) (lit ''config.toml'')) =
      codex_folder dir_w @ [Normal (lit ''config.toml'')]"
    by (simp add: join_normal components_show normal_path_snoc ne)
  ultimately show ?thesis
    unfolding load_project_layer_def Let_def codex_folder_def [symmetric]
    by (simp add: disk_projects disk_absolute components_show ne normalized_or_self_def disk_reads
        project_layer_entry_def trust_file_def)
qed

lemma disk_layers:
  "load_layers trusted_disk dir_h (Some dir_w) [] None None None = Inr (trusted_layers, with_sources_default)"
proof -
  have w: "ancestors dir_w = [dir_w, [RootDir]]"
    by (rule disk_ancestors)
  have user: "components (join (show_path dir_h) (lit ''config.toml'')) = dir_h @ [Normal (lit ''config.toml'')]"
    by (subst join_normal) (simp_all add: components_show normal_path_snoc, simp add: dir_h_def)
  define sys_layer where "sys_layer = layer_new (\<lambda>_. []) (SystemLayer (etc_file (lit ''config.toml''))) (TTable [])"
  define user_layer where
    "user_layer = layer_new (\<lambda>_. []) (UserLayer (dir_h @ [Normal (lit ''config.toml'')])) (trust_file (lit ''/w''))"
  have "layers_of_project trusted_disk [sys_layer, user_layer] None (Some dir_w) dir_h (dir_h @ [Normal (lit ''config.toml'')]) =
      Inr [layer_new (\<lambda>_. []) (ProjectLayer (codex_folder dir_w)) (trust_file (lit ''x''))]"
    using disk_trust [of sys_layer user_layer] disk_project_layer
    by (simp add: layers_of_project_def sys_layer_def user_layer_def layer_new_def load_project_layers_def
        project_dirs_def disk_ancestors disk_absolute components_show map_filter_simps)
  then show ?thesis
    by (simp add: load_layers_def disk_requirements disk_cli disk_absolute etc_files components_show etc_normal
        disk_base user sys_layer_def user_layer_def managed_layers_def trusted_layers_def)
qed

lemma no_requirements:
  "requirements_of mm with_sources_default = Inr config_requirements_default"
  by (simp add: requirements_of_def with_sources_default_def constrain_field_def rules_requirement_def
      config_requirements_default_def)

definition trusted_stack :: "(ustr \<times> prefix_rule list) list config_layer_stack" where
  "trusted_stack = \<lparr>stack_layers = trusted_layers, user_layer_index = Some 1,
     stack_requirements = config_requirements_default, stack_requirements_toml = into_toml with_sources_default\<rparr>"


lemma trusted_loaded:
  "load_config_layers_state trusted_disk alist_multimap dir_h (Some dir_w) [] None None None = Inr trusted_stack"
proof -
  have "verify_layer_ordering trusted_layers = Inr (Some 1)"
    by (rule loaded_layers_ordered [OF _ _ disk_layers]) (auto simp: disk_absolute components_show)
  then show ?thesis
    by (simp add: load_config_layers_state_def disk_layers no_requirements stack_new_def trusted_stack_def)
qed


end
