(* ===== verification/ConfigPermissions.thy ===== *)
theory ConfigPermissions
  imports ConfigLoader
begin

text \<open>
  The permissions of a session (\<open>core/src/config/mod.rs\<close>): what the merged settings, the profile and
  the overrides of the command line choose, under the requirements in force. Of the settings the
  records hold the fields these functions read; the root of the repository and the platform are the
  parameter \<open>settings_env\<close>, features are arguments.
\<close>

section \<open>Settings\<close>

record project_config =
  pc_trust_level :: "trust_level option"

definition pc_is_trusted :: "project_config \<Rightarrow> bool" where
  "pc_is_trusted p \<longleftrightarrow> pc_trust_level p = Some Trusted"

definition pc_is_untrusted :: "project_config \<Rightarrow> bool" where
  "pc_is_untrusted p \<longleftrightarrow> pc_trust_level p = Some Untrusted"

record workspace_write_settings =
  ww_writable_roots :: "path list"
  ww_network_access :: bool
  ww_exclude_tmpdir_env_var :: bool
  ww_exclude_slash_tmp :: bool

datatype server_transport = Stdio ustr | StreamableHttp ustr

datatype disabled_reason = DisabledByRequirements requirement_source

record mcp_server_config =
  ms_transport :: server_transport
  ms_enabled :: bool
  ms_disabled_reason :: "disabled_reason option"

record config_profile =
  cp_sandbox_mode :: "sandbox_mode option"
  cp_approval_policy :: "ask_for_approval option"
  cp_web_search :: "web_search_mode option"
  cp_oss_provider :: "ustr option"

record config_toml =
  ct_sandbox_mode :: "sandbox_mode option"
  ct_workspace_write :: "workspace_write_settings option"
  ct_approval_policy :: "ask_for_approval option"
  ct_projects :: "(ustr \<rightharpoonup> project_config) option"
  ct_profile :: "ustr option"
  ct_profiles :: "ustr \<rightharpoonup> config_profile"
  ct_web_search :: "web_search_mode option"
  ct_oss_provider :: "ustr option"
  ct_mcp_servers :: "(ustr \<times> mcp_server_config) list"

record config_overrides =
  co_approval_policy :: "ask_for_approval option"
  co_sandbox_mode :: "sandbox_mode option"
  co_config_profile :: "ustr option"
  co_additional_writable_roots :: "ustr list"

text \<open>The loader's environment, with the errors this file raises: \<open>NotFound\<close> and \<open>InvalidInput\<close>.\<close>

record 'e settings_env = "'e loader_env" +
  missing_profile :: "ustr \<Rightarrow> 'e"
  invalid_input :: "ustr \<Rightarrow> 'e"

definition profile_default :: config_profile where
  "profile_default =
     \<lparr>cp_sandbox_mode = None, cp_approval_policy = None, cp_web_search = None, cp_oss_provider = None\<rparr>"

fun or_else :: "'a option \<Rightarrow> 'a option \<Rightarrow> 'a option" where
  "or_else (Some x) m = Some x"
| "or_else None m = m"

definition get_config_profile :: "'e settings_env \<Rightarrow> config_toml \<Rightarrow> ustr option \<Rightarrow> 'e + config_profile" where
  "get_config_profile env cfg override_profile =
     (case or_else override_profile (ct_profile cfg) of
        Some key \<Rightarrow> ok_or (missing_profile env (lit ''config profile `'' @ key @ lit ''` not found'')) (ct_profiles cfg key)
      | None \<Rightarrow> Inr profile_default)"

definition resolve_oss_provider :: "'e settings_env \<Rightarrow> ustr option \<Rightarrow> config_toml \<Rightarrow> ustr option \<Rightarrow> ustr option" where
  "resolve_oss_provider env explicit_provider cfg config_profile =
     (case explicit_provider of
        Some provider \<Rightarrow> Some provider
      | None \<Rightarrow>
          (case get_config_profile env cfg config_profile of
             Inr profile \<Rightarrow> or_else (cp_oss_provider profile) (ct_oss_provider cfg)
           | Inl _ \<Rightarrow> ct_oss_provider cfg))"

definition get_active_project :: "'e settings_env \<Rightarrow> config_toml \<Rightarrow> path \<Rightarrow> project_config option" where
  "get_active_project env cfg resolved_cwd =
     (let projects = (case ct_projects cfg of Some p \<Rightarrow> p | None \<Rightarrow> Map.empty)
      in or_else (projects (show_path resolved_cwd))
           (Option.bind (repo_root_of env resolved_cwd) (\<lambda>repo_root. projects (show_path repo_root))))"

section \<open>The sandbox policy\<close>

datatype windows_sandbox_level = SandboxDisabled | RestrictedToken | Elevated

definition unsandboxed_windows :: "'e settings_env \<Rightarrow> windows_sandbox_level \<Rightarrow> bool" where
  "unsandboxed_windows env level \<longleftrightarrow> os env = WindowsOS \<and> level = SandboxDisabled"

text \<open>The mode of a directory with a decision about its trust, either way.\<close>

definition mode_of_project :: "'e settings_env \<Rightarrow> config_toml \<Rightarrow> windows_sandbox_level \<Rightarrow> path \<Rightarrow> sandbox_mode option" where
  "mode_of_project env cfg level resolved_cwd =
     Option.bind (get_active_project env cfg resolved_cwd) (\<lambda>p.
       if pc_is_trusted p \<or> pc_is_untrusted p
       then Some (if unsandboxed_windows env level then SandboxReadOnly else SandboxWorkspaceWrite)
       else None)"

definition policy_of_mode :: "config_toml \<Rightarrow> sandbox_mode \<Rightarrow> sandbox_policy" where
  "policy_of_mode cfg mode =
     (case mode of
        SandboxReadOnly \<Rightarrow> new_read_only_policy
      | SandboxWorkspaceWrite \<Rightarrow>
          (case ct_workspace_write cfg of
             Some w \<Rightarrow> WorkspaceWrite (ww_writable_roots w) FullAccess (ww_network_access w)
                         (ww_exclude_tmpdir_env_var w) (ww_exclude_slash_tmp w)
           | None \<Rightarrow> new_workspace_write_policy)
      | SandboxDangerFullAccess \<Rightarrow> DangerFullAccess)"

definition downgrade_workspace_write :: "'e settings_env \<Rightarrow> windows_sandbox_level \<Rightarrow> sandbox_policy \<Rightarrow> sandbox_policy" where
  "downgrade_workspace_write env level p =
     (case p of
        WorkspaceWrite _ _ _ _ _ \<Rightarrow> if unsandboxed_windows env level then new_read_only_policy else p
      | _ \<Rightarrow> p)"

definition derive_sandbox_policy ::
  "'e settings_env \<Rightarrow> config_toml \<Rightarrow> sandbox_mode option \<Rightarrow> sandbox_mode option \<Rightarrow> windows_sandbox_level \<Rightarrow> path
    \<Rightarrow> sandbox_policy constrained option \<Rightarrow> sandbox_policy" where
  "derive_sandbox_policy env cfg mode_override profile_mode level resolved_cwd constraint =
     (let was_explicit = (mode_override \<noteq> None \<or> profile_mode \<noteq> None \<or> ct_sandbox_mode cfg \<noteq> None);
          mode = (case or_else mode_override (or_else profile_mode
                    (or_else (ct_sandbox_mode cfg) (mode_of_project env cfg level resolved_cwd))) of
                    Some m \<Rightarrow> m | None \<Rightarrow> SandboxReadOnly);
          policy = policy_of_mode cfg mode;
          policy = (if mode = SandboxWorkspaceWrite then downgrade_workspace_write env level policy else policy)
      in case constraint of
           Some c \<Rightarrow>
             if \<not> was_explicit \<and> \<not> is_ok (can_set c policy)
             then downgrade_workspace_write env level (c_value c) else policy
         | None \<Rightarrow> policy)"

section \<open>Web search\<close>

definition resolve_web_search_mode :: "config_toml \<Rightarrow> config_profile \<Rightarrow> bool \<Rightarrow> bool \<Rightarrow> web_search_mode option" where
  "resolve_web_search_mode cfg profile feature_cached feature_request =
     (case or_else (cp_web_search profile) (ct_web_search cfg) of
        Some mode \<Rightarrow> Some mode
      | None \<Rightarrow> if feature_cached then Some WebCached else if feature_request then Some WebLive else None)"

definition resolve_web_search_mode_for_turn :: "web_search_mode constrained \<Rightarrow> sandbox_policy \<Rightarrow> web_search_mode" where
  "resolve_web_search_mode_for_turn c sandbox =
     (let preferred = c_value c;
          first_allowed = (\<lambda>modes. case List.find (\<lambda>m. is_ok (can_set c m)) modes of Some m \<Rightarrow> m | None \<Rightarrow> WebDisabled)
      in if sandbox = DangerFullAccess \<and> preferred \<noteq> WebDisabled
         then first_allowed [WebLive, WebCached, WebDisabled]
         else if is_ok (can_set c preferred) then preferred
         else first_allowed [WebCached, WebLive, WebDisabled])"

section \<open>Servers of tools\<close>

fun mcp_server_matches_requirement :: "mcp_server_requirement \<Rightarrow> mcp_server_config \<Rightarrow> bool" where
  "mcp_server_matches_requirement req server \<longleftrightarrow>
     (case (mcp_identity req, ms_transport server) of
        (CommandIdentity want, Stdio got) \<Rightarrow> got = want
      | (UrlIdentity want, StreamableHttp got) \<Rightarrow> got = want
      | _ \<Rightarrow> False)"

lemma reason_is_no_match [simp]:
  "mcp_server_matches_requirement r (b\<lparr>ms_disabled_reason := x\<rparr>) = mcp_server_matches_requirement r b"
  by simp

declare mcp_server_matches_requirement.simps [simp del]

definition filter_mcp_servers_by_requirements ::
  "(ustr \<times> mcp_server_requirement) list sourced option \<Rightarrow> (ustr \<times> mcp_server_config) list
    \<Rightarrow> (ustr \<times> mcp_server_config) list" where
  "filter_mcp_servers_by_requirements mcp_requirements servers =
     (case mcp_requirements of
        None \<Rightarrow> servers
      | Some allowlist \<Rightarrow>
          map (\<lambda>(name, server).
            (name,
             case map_of (sourced_value allowlist) name of
               Some req \<Rightarrow>
                 if mcp_server_matches_requirement req server then server\<lparr>ms_disabled_reason := None\<rparr>
                 else server\<lparr>ms_enabled := False,
                             ms_disabled_reason := Some (DisabledByRequirements (sourced_from allowlist))\<rparr>
             | None \<Rightarrow> server\<lparr>ms_enabled := False,
                              ms_disabled_reason := Some (DisabledByRequirements (sourced_from allowlist))\<rparr>)) servers)"

definition constrain_mcp_servers ::
  "(ustr \<times> mcp_server_config) list \<Rightarrow> (ustr \<times> mcp_server_requirement) list sourced option
    \<Rightarrow> constraint_error + (ustr \<times> mcp_server_config) list constrained" where
  "constrain_mcp_servers servers mcp_requirements =
     (if mcp_requirements = None then Inr (allow_any servers)
      else normalized servers (filter_mcp_servers_by_requirements mcp_requirements))"

section \<open>Permissions\<close>

text \<open>A refused value falls back on the value of the constraint, with a warning. The warning and the
  errors quote the constraint's error and the value, which \<open>show\<close> renders.\<close>

definition apply_requirement_constrained_value ::
  "'e settings_env \<Rightarrow> ('a \<Rightarrow> ustr) \<Rightarrow> ustr \<Rightarrow> 'a \<Rightarrow> 'a constrained_with_source \<Rightarrow> ustr list
    \<Rightarrow> 'e + 'a constrained_with_source \<times> ustr list" where
  "apply_requirement_constrained_value env show field configured c warnings =
     (case set_value (cs_value c) configured of
        Inr v \<Rightarrow> Inr (c\<lparr>cs_value := v\<rparr>, warnings)
      | Inl err \<Rightarrow>
          (let fallback = c_value (cs_value c);
               shown = show_constraint_error show_path err;
               warning = lit ''Configured value for `'' @ field @
                 lit ''` is disallowed by requirements; falling back to required value '' @ show fallback @
                 lit ''. Details: '' @ shown
           in case set_value (cs_value c) fallback of
                Inr v \<Rightarrow> Inr (c\<lparr>cs_value := v\<rparr>, warnings @ [warning])
              | Inl fallback_err \<Rightarrow>
                  Inl (invalid_input env (lit ''configured value for `'' @ field @
                    lit ''` is disallowed by requirements ('' @ shown @
                    lit ''); fallback to a requirement-compliant value also failed ('' @
                    show_constraint_error show_path fallback_err @ lit '')''))))"

definition add_writable_roots :: "sandbox_policy \<Rightarrow> path list \<Rightarrow> sandbox_policy" where
  "add_writable_roots p additional =
     (case p of
        WorkspaceWrite roots access net tmpdir slash_tmp \<Rightarrow>
          WorkspaceWrite (foldl (\<lambda>roots r. if r \<in> set roots then roots else roots @ [r]) roots additional)
            access net tmpdir slash_tmp
      | _ \<Rightarrow> p)"

definition default_approval :: "project_config \<Rightarrow> ask_for_approval" where
  "default_approval p =
     (if pc_is_trusted p then OnRequest else if pc_is_untrusted p then UnlessTrusted else OnRequest)"

record permissions =
  pm_approval_policy :: "ask_for_approval constrained"
  pm_sandbox_policy :: "sandbox_policy constrained"
  pm_web_search_mode :: "web_search_mode constrained"
  pm_mcp_servers :: "(ustr \<times> mcp_server_config) list constrained"
  pm_residency :: "residency_requirement option constrained"
  pm_warnings :: "ustr list"
  pm_user_chose :: bool

definition session_permissions ::
  "'e settings_env \<Rightarrow> (sandbox_policy \<Rightarrow> ustr) \<Rightarrow> config_toml \<Rightarrow> config_overrides \<Rightarrow> path \<Rightarrow> windows_sandbox_level
    \<Rightarrow> bool \<Rightarrow> bool \<Rightarrow> 'm config_requirements \<Rightarrow> 'e + permissions" where
  "session_permissions env show_sandbox cfg overrides resolved_cwd level feature_cached feature_request reqs =
     bindE (get_config_profile env cfg (co_config_profile overrides)) (\<lambda>profile.
     bindE (traverseE (\<lambda>p. resolve_path_against_base env p resolved_cwd) (co_additional_writable_roots overrides))
       (\<lambda>additional.
     let active_project = (case get_active_project env cfg resolved_cwd of
                             Some p \<Rightarrow> p | None \<Rightarrow> \<lparr>pc_trust_level = None\<rparr>);
         sandbox_was_explicit =
           (co_sandbox_mode overrides \<noteq> None \<or> cp_sandbox_mode profile \<noteq> None \<or> ct_sandbox_mode cfg \<noteq> None);
         sandbox = add_writable_roots
           (derive_sandbox_policy env cfg (co_sandbox_mode overrides) (cp_sandbox_mode profile) level resolved_cwd
             (Some (cs_value (sandbox_policy reqs)))) additional;
         chosen_approval = or_else (co_approval_policy overrides)
           (or_else (cp_approval_policy profile) (ct_approval_policy cfg));
         approval = (case chosen_approval of Some a \<Rightarrow> a | None \<Rightarrow> default_approval active_project);
         approval = (if chosen_approval = None \<and> \<not> is_ok (can_set (cs_value (approval_policy reqs)) approval)
                     then c_value (cs_value (approval_policy reqs)) else approval);
         web = (case resolve_web_search_mode cfg profile feature_cached feature_request of
                  Some m \<Rightarrow> m | None \<Rightarrow> WebCached)
     in bindE (apply_requirement_constrained_value env debug_approval (lit ''approval_policy'') approval
                 (approval_policy reqs) []) (\<lambda>(approval, warnings).
        bindE (apply_requirement_constrained_value env show_sandbox (lit ''sandbox_mode'') sandbox
                 (sandbox_policy reqs) warnings) (\<lambda>(sandbox, warnings).
        bindE (apply_requirement_constrained_value env debug_web (lit ''web_search_mode'') web
                 (web_search_mode reqs) warnings) (\<lambda>(web, warnings).
        bindE (map_errE (\<lambda>e. invalid_input env (show_constraint_error show_path e)) (constrain_mcp_servers (ct_mcp_servers cfg) (mcp_servers reqs)))
          (\<lambda>servers.
        Inr \<lparr>pm_approval_policy = cs_value approval, pm_sandbox_policy = cs_value sandbox,
             pm_web_search_mode = cs_value web, pm_mcp_servers = servers,
             pm_residency = cs_value (enforce_residency reqs), pm_warnings = warnings,
             pm_user_chose = (chosen_approval \<noteq> None \<or> sandbox_was_explicit)\<rparr>))))))"

section \<open>Requirements never keep a session from starting\<close>

text \<open>A constraint whose own value it accepts.\<close>

definition settled :: "'a constrained \<Rightarrow> bool" where
  "settled c \<longleftrightarrow> c_normalizer c = None \<and> is_ok (can_set c (c_value c))"

lemma settled_set: "settled c \<Longrightarrow> set_value c v = (if is_ok (can_set c v) then Inr (try_set c v) else Inl (projl (can_set c v)))"
  by (cases "c_validator c v") (simp_all add: settled_def set_value_def can_set_def try_set_def)

lemma settled_try:
  "settled c \<Longrightarrow> try_set c v = c\<lparr>c_value := if is_ok (can_set c v) then v else c_value c\<rparr>"
  by (cases "c_validator c v") (simp_all add: settled_def set_value_def can_set_def try_set_def)

lemma apply_settled:
  assumes "settled (cs_value c)"
  shows "\<exists>w. apply_requirement_constrained_value env show field v c ws =
      Inr (c\<lparr>cs_value := try_set (cs_value c) v\<rparr>, ws @ w) \<and> (w = [] \<longleftrightarrow> is_ok (can_set (cs_value c) v))"
proof (cases "is_ok (can_set (cs_value c) v)")
  case True
  then show ?thesis
    using settled_set [OF assms, of v] by (intro exI [of _ "[]"]) (simp add: apply_requirement_constrained_value_def)
next
  case False
  have "set_value (cs_value c) (c_value (cs_value c)) = Inr (try_set (cs_value c) v)"
    using settled_set [OF assms, of "c_value (cs_value c)"] settled_try [OF assms] False assms
    by (simp add: settled_def)
  then show ?thesis
    using settled_set [OF assms, of v] False by (simp add: apply_requirement_constrained_value_def Let_def)
qed

context requirement
begin

lemma built_settled: "constrain_field build field d = Inr f \<Longrightarrow> settled (cs_value f)"
  unfolding constrain_field_def
  by (auto simp: res_ops unconstrained_def allow_any_def settled_def can_set_def
      validator_exact value_permitted not_normalized split: option.splits)

lemma tried_keeps:
  assumes "constrain_field build field d = Inr f" and "field = Some s"
  shows "permits (sourced_value s) (c_value (foldl try_set (try_set (cs_value f) v) vs))"
  using field_keeps [OF assms, of "v # vs"] by simp

end

lemma requirement_fields:
  assumes "requirements_of mm t = Inr reqs"
  shows "constrain_field approval_requirement (approval_policies_from t) OnRequest = Inr (approval_policy reqs)"
    and "constrain_field sandbox_requirement (sandbox_modes_from t) new_read_only_policy = Inr (sandbox_policy reqs)"
    and "constrain_field web_requirement (web_search_modes_from t) WebCached = Inr (web_search_mode reqs)"
    and "constrain_field residency_constraint (residency_from t) None = Inr (enforce_residency reqs)"
    and "mcp_servers reqs = mcp_servers_from t"
  using assms by (auto simp: requirements_of_def res_ops)

text \<open>The values a session asks for, before requirements are applied.\<close>

definition wanted_sandbox ::
  "'e settings_env \<Rightarrow> config_toml \<Rightarrow> config_overrides \<Rightarrow> config_profile \<Rightarrow> windows_sandbox_level \<Rightarrow> path \<Rightarrow> path list
    \<Rightarrow> 'm config_requirements \<Rightarrow> sandbox_policy" where
  "wanted_sandbox env cfg overrides profile level resolved_cwd additional reqs =
     add_writable_roots
       (derive_sandbox_policy env cfg (co_sandbox_mode overrides) (cp_sandbox_mode profile) level resolved_cwd
         (Some (cs_value (sandbox_policy reqs)))) additional"

lemma session_permissions_total:
  assumes "requirements_of mm t = Inr reqs" and "get_config_profile env cfg (co_config_profile overrides) = Inr profile"
    and "traverseE (\<lambda>p. resolve_path_against_base env p cwd) (co_additional_writable_roots overrides) = Inr additional"
  shows "\<exists>p approval web servers. session_permissions env show_sandbox cfg overrides cwd level fc fr reqs = Inr p \<and>
    pm_approval_policy p = try_set (cs_value (approval_policy reqs)) approval \<and>
    (\<forall>a. or_else (co_approval_policy overrides) (or_else (cp_approval_policy profile) (ct_approval_policy cfg)) = Some a \<longrightarrow>
       approval = a) \<and>
    pm_sandbox_policy p = try_set (cs_value (sandbox_policy reqs))
      (wanted_sandbox env cfg overrides profile level cwd additional reqs) \<and>
    pm_web_search_mode p = try_set (cs_value (web_search_mode reqs)) web \<and>
    constrain_mcp_servers (ct_mcp_servers cfg) (mcp_servers reqs) = Inr servers \<and> pm_mcp_servers p = servers \<and>
    pm_residency p = cs_value (enforce_residency reqs)"
proof -
  note settled = approval_field.built_settled [OF requirement_fields(1) [OF assms(1)]]
    sandbox_field.built_settled [OF requirement_fields(2) [OF assms(1)]]
    web_field.built_settled [OF requirement_fields(3) [OF assms(1)]]
  obtain servers where servers: "constrain_mcp_servers (ct_mcp_servers cfg) (mcp_servers reqs) = Inr servers"
    by (cases "mcp_servers reqs") (auto simp: constrain_mcp_servers_def normalized_def)
  let ?chosen = "or_else (co_approval_policy overrides) (or_else (cp_approval_policy profile) (ct_approval_policy cfg))"
  define default where "default = default_approval
    (case get_active_project env cfg cwd of Some p \<Rightarrow> p | None \<Rightarrow> \<lparr>pc_trust_level = None\<rparr>)"
  define approval where "approval = (case ?chosen of Some a \<Rightarrow> a | None \<Rightarrow>
    if is_ok (can_set (cs_value (approval_policy reqs)) default) then default
    else c_value (cs_value (approval_policy reqs)))"
  define web where "web = (case resolve_web_search_mode cfg profile fc fr of Some m \<Rightarrow> m | None \<Rightarrow> WebCached)"
  let ?sandbox = "wanted_sandbox env cfg overrides profile level cwd additional reqs"
  obtain w1 where w1: "apply_requirement_constrained_value env debug_approval (lit ''approval_policy'') approval
      (approval_policy reqs) [] = Inr ((approval_policy reqs)
        \<lparr>cs_value := try_set (cs_value (approval_policy reqs)) approval\<rparr>, w1)"
    using apply_settled [OF settled(1), of env debug_approval _ approval "[]"] by force
  obtain w2 where w2: "apply_requirement_constrained_value env show_sandbox (lit ''sandbox_mode'') ?sandbox
      (sandbox_policy reqs) w1 = Inr ((sandbox_policy reqs)
        \<lparr>cs_value := try_set (cs_value (sandbox_policy reqs)) ?sandbox\<rparr>, w2)"
    using apply_settled [OF settled(2), of env show_sandbox _ ?sandbox w1] by force
  obtain w3 where w3: "apply_requirement_constrained_value env debug_web (lit ''web_search_mode'') web
      (web_search_mode reqs) w2 = Inr ((web_search_mode reqs)
        \<lparr>cs_value := try_set (cs_value (web_search_mode reqs)) web\<rparr>, w3)"
    using apply_settled [OF settled(3), of env debug_web _ web w2] by force
  have approval: "(let a = (case ?chosen of Some a \<Rightarrow> a | None \<Rightarrow> default)
      in if ?chosen = None \<and> \<not> is_ok (can_set (cs_value (approval_policy reqs)) a)
         then c_value (cs_value (approval_policy reqs)) else a) = approval"
    by (simp add: approval_def split: option.splits)
  show ?thesis
    unfolding session_permissions_def Let_def assms(2,3) bindE.simps default_def [symmetric] web_def [symmetric]
      wanted_sandbox_def [symmetric] approval [unfolded Let_def] w1 w2 w3 servers prod.case map_errE.simps
    by (intro exI [of _ approval] exI [of _ web] exI [of _ servers] exI conjI, rule refl)
      (simp_all add: approval_def)
qed

text \<open>After the filter a server is enabled only when it matches, and the normalizer applies the filter to
  whatever is set.\<close>

definition permitted_servers ::
  "(ustr \<times> mcp_server_requirement) list \<Rightarrow> (ustr \<times> mcp_server_config) list \<Rightarrow> bool" where
  "permitted_servers allowed servers \<longleftrightarrow>
     (\<forall>(name, server) \<in> set servers. ms_enabled server \<longrightarrow>
        (\<exists>r. map_of allowed name = Some r \<and> mcp_server_matches_requirement r server))"

lemma filter_permitted: "permitted_servers (sourced_value s) (filter_mcp_servers_by_requirements (Some s) servers)"
  by (auto simp: permitted_servers_def filter_mcp_servers_by_requirements_def
      split: option.splits if_splits)

lemma filtered_servers:
  assumes "constrain_mcp_servers servers (Some s) = Inr c"
  shows "\<forall>name server. (name, server) \<in> set (c_value (foldl try_set c tools)) \<longrightarrow> ms_enabled server \<longrightarrow>
    (\<exists>r. map_of (sourced_value s) name = Some r \<and> mcp_server_matches_requirement r server)"
proof -
  let ?ok = "\<lambda>c. permitted_servers (sourced_value s) (c_value c) \<and> (\<forall>v. is_ok (c_validator c v)) \<and>
    c_normalizer c = Some (filter_mcp_servers_by_requirements (Some s))"
  have "?ok c"
    using assms filter_permitted by (auto simp: constrain_mcp_servers_def normalized_def res_ops)
  moreover have "?ok (try_set c v)" if "?ok c" for c v
    using that filter_permitted
    by (auto simp: try_set_def set_value_def res_ops is_ok_iff split: sum.splits)
  ultimately have "?ok (foldl try_set c tools)"
    by (induction tools arbitrary: c) auto
  then show ?thesis
    by (auto simp: permitted_servers_def)
qed

text \<open>C22: requirements bind every session and keep none from starting. When the requirements were
  accepted, the profile exists and the extra roots can be resolved, the permissions of the session
  are established. The approval policy, the sandbox policy and the search mode satisfy their lists,
  whatever the settings said and whatever is tried afterwards, and a server of tools is left enabled
  only if the requirements name it with the same command or address.\<close>
theorem session_respects_requirements:
  assumes "requirements_of mm t = Inr reqs" and "get_config_profile env cfg (co_config_profile overrides) = Inr profile"
    and "traverseE (\<lambda>p. resolve_path_against_base env p cwd) (co_additional_writable_roots overrides) = Inr additional"
  shows "\<exists>p. session_permissions env show_sandbox cfg overrides cwd level fc fr reqs = Inr p \<and>
    (\<forall>s. approval_policies_from t = Some s \<longrightarrow>
       c_value (foldl try_set (pm_approval_policy p) approvals) \<in> set (sourced_value s)) \<and>
    (\<forall>s. sandbox_modes_from t = Some s \<longrightarrow>
       mode_of_policy (c_value (foldl try_set (pm_sandbox_policy p) sandboxes)) \<in> set (sourced_value s)) \<and>
    (\<forall>s. web_search_modes_from t = Some s \<longrightarrow>
       c_value (foldl try_set (pm_web_search_mode p) webs) \<in> set (WebDisabled # sourced_value s)) \<and>
    (\<forall>s name server. mcp_servers_from t = Some s \<longrightarrow>
       (name, server) \<in> set (c_value (foldl try_set (pm_mcp_servers p) tools)) \<longrightarrow> ms_enabled server \<longrightarrow>
       (\<exists>r. map_of (sourced_value s) name = Some r \<and> mcp_server_matches_requirement r server))"
proof -
  note fields = requirement_fields [OF assms(1)]
  from session_permissions_total [OF assms] obtain p approval web servers where
    p: "session_permissions env show_sandbox cfg overrides cwd level fc fr reqs = Inr p"
      "pm_approval_policy p = try_set (cs_value (approval_policy reqs)) approval"
      "pm_sandbox_policy p = try_set (cs_value (sandbox_policy reqs))
        (wanted_sandbox env cfg overrides profile level cwd additional reqs)"
      "pm_web_search_mode p = try_set (cs_value (web_search_mode reqs)) web"
      "constrain_mcp_servers (ct_mcp_servers cfg) (mcp_servers reqs) = Inr servers" "pm_mcp_servers p = servers"
    by blast
  have mcp: "\<exists>r. map_of (sourced_value s) name = Some r \<and> mcp_server_matches_requirement r server"
    if "mcp_servers_from t = Some s" "(name, server) \<in> set (c_value (foldl try_set servers tools))" "ms_enabled server"
    for s name server
    using filtered_servers [OF p(5) [unfolded fields(5) that(1)], of tools] that(2,3) by blast
  show ?thesis
    using p(1) approval_field.tried_keeps [OF fields(1)] sandbox_field.tried_keeps [OF fields(2)]
      web_field.tried_keeps [OF fields(3)] mcp
    by (intro exI [of _ p]) (simp add: p(2-4,6) web_permitted_def)
qed

text \<open>The search mode of a turn is always allowed. As long as search may be turned off, as every
  requirement lets it be, the mode of a turn passes the constraint; without a sandbox it is off only
  if it was configured off or nothing else is allowed.\<close>
theorem turn_search_mode_allowed:
  assumes "is_ok (can_set c WebDisabled)"
  shows "is_ok (can_set c (resolve_web_search_mode_for_turn c sandbox)) \<and>
    (resolve_web_search_mode_for_turn c DangerFullAccess = WebDisabled \<longrightarrow> c_value c \<noteq> WebDisabled \<longrightarrow>
       \<not> is_ok (can_set c WebLive) \<and> \<not> is_ok (can_set c WebCached))"
  using assms by (auto simp: resolve_web_search_mode_for_turn_def Let_def)

theorem turn_search_mode_allowed_witness:
  "is_ok (can_set (allow_any WebLive) (resolve_web_search_mode_for_turn (allow_any WebLive) DangerFullAccess))"
  using turn_search_mode_allowed [of "allow_any WebLive" DangerFullAccess] by (simp add: allow_any_def can_set_def)

definition loose_settings :: config_toml where
  "loose_settings =
     \<lparr>ct_sandbox_mode = Some SandboxDangerFullAccess, ct_workspace_write = None, ct_approval_policy = Some Never,
      ct_projects = None, ct_profile = None, ct_profiles = Map.empty, ct_web_search = None, ct_oss_provider = None,
      ct_mcp_servers = []\<rparr>"

definition no_overrides :: config_overrides where
  "no_overrides = \<lparr>co_approval_policy = None, co_sandbox_mode = None, co_config_profile = None,
     co_additional_writable_roots = []\<rparr>"

definition trusted_settings :: "ustr settings_env" where
  "trusted_settings = loader_env.extend trusted_disk \<lparr>missing_profile = (\<lambda>e. e), invalid_input = (\<lambda>e. e)\<rparr>"

theorem session_respects_requirements_witness:
  "\<exists>p. session_permissions trusted_settings (\<lambda>_. []) loose_settings no_overrides dir_w SandboxDisabled False False
       (projr (requirements_of alist_multimap managed_example)) = Inr p \<and>
     c_value (pm_approval_policy p) = OnRequest \<and> mode_of_policy (c_value (pm_sandbox_policy p)) = ModeReadOnly"
proof -
  obtain reqs where reqs: "requirements_of alist_multimap managed_example = Inr reqs"
    by (simp add: requirements_of_def managed_example_def with_sources_default_def constrain_field_def
        approval_requirement_def sandbox_requirement_def constrained_new_allow_list rules_requirement_def
        constrained_new_def allow_list_def new_read_only_policy_def)
  have profile: "get_config_profile trusted_settings loose_settings (co_config_profile no_overrides) = Inr profile_default"
    by (simp add: get_config_profile_def loose_settings_def no_overrides_def)
  have roots: "traverseE (\<lambda>p. resolve_path_against_base trusted_settings p dir_w)
      (co_additional_writable_roots no_overrides) = Inr []"
    by (simp add: no_overrides_def)
  from session_respects_requirements [OF reqs profile roots, of "\<lambda>_. []" SandboxDisabled False False "[]" "[]" "[]" "[]"]
  obtain p where p: "session_permissions trusted_settings (\<lambda>_. []) loose_settings no_overrides dir_w SandboxDisabled False False reqs = Inr p"
    "\<forall>s. approval_policies_from managed_example = Some s \<longrightarrow> c_value (pm_approval_policy p) \<in> set (sourced_value s)"
    "\<forall>s. sandbox_modes_from managed_example = Some s \<longrightarrow>
       mode_of_policy (c_value (pm_sandbox_policy p)) \<in> set (sourced_value s)"
    by auto
  have "c_value (pm_approval_policy p) = OnRequest"
    using p(2) by (simp add: managed_example_def with_sources_default_def)
  moreover have "mode_of_policy (c_value (pm_sandbox_policy p)) = ModeReadOnly"
    using p(3) by (simp add: managed_example_def with_sources_default_def)
  ultimately show ?thesis
    using p(1) by (intro exI [of _ p]) (simp add: reqs)
qed

end
