(* ===== verification/LinuxSandbox.thy ===== *)
theory LinuxSandbox
  imports ConfigLoader ToolOrchestration CommandSummary
begin

text \<open>
  The helper that runs a command in the Linux sandbox (\<open>linux-sandbox/src/{bwrap,landlock,
  linux_run_main}.rs\<close>): the mounts bubblewrap is given, the restrictions a process puts on itself and
  the stages from the options of the helper to the command. The kernel, bubblewrap, \<open>serde_json\<close>
  and the state of the disk are the record \<open>linux_env\<close>. \<open>None\<close> is a panic of the helper.
\<close>

section \<open>The order of paths\<close>

text \<open>Components are ordered as \<open>std::path::Component\<close> derives it, paths by their components, and a
  name by its bytes, which for UTF-8 is the order of its scalar values.\<close>

fun component_key :: "component \<Rightarrow> nat list" where
  "component_key RootDir = [0]"
| "component_key CurDir = [1]"
| "component_key ParentDir = [2]"
| "component_key (Normal s) = 3 # s"

lemma component_key_inj: "component_key a = component_key b \<longleftrightarrow> a = b"
  by (cases a; cases b) simp_all

instantiation component :: linorder
begin

definition less_eq_component :: "component \<Rightarrow> component \<Rightarrow> bool" where
  "less_eq_component a b \<longleftrightarrow> component_key a \<le> component_key b"

definition less_component :: "component \<Rightarrow> component \<Rightarrow> bool" where
  "less_component a b \<longleftrightarrow> component_key a < component_key b"

instance
  by standard (auto simp: less_eq_component_def less_component_def component_key_inj
      dest: order.antisym intro: order.trans)

end

section \<open>Mounts\<close>

datatype 'e sandbox_error = UnsupportedOperation ustr | OsError 'e | LandlockRestrict

datatype syscall = SysConnect | SysAccept | SysAccept4 | SysBind | SysListen | SysGetpeername
  | SysGetsockname | SysShutdown | SysSendto | SysSendmmsg | SysRecvmmsg | SysGetsockopt | SysSetsockopt
  | SysPtrace | SysIoUringSetup | SysIoUringEnter | SysIoUringRegister | SysSocket | SysSocketpair
  | OtherSyscall nat

text \<open>A condition of a rule: the argument of this number differs from this value.\<close>

datatype seccomp_condition = ArgDiffers nat nat

datatype fs_access = ReadAccess | ReadWriteAccess

datatype restriction =
    NoNewPrivs
  | Seccomp "(syscall \<times> seccomp_condition list list) list"
  | Landlock "(path \<times> fs_access) list"

datatype bwrap_network_mode = NetFullAccess | NetIsolated | NetProxyOnly

record bwrap_options =
  bo_mount_proc :: bool
  bo_network_mode :: bwrap_network_mode

definition bwrap_options_default :: bwrap_options where
  "bwrap_options_default = \<lparr>bo_mount_proc = True, bo_network_mode = NetFullAccess\<rparr>"

definition should_unshare_network :: "bwrap_network_mode \<Rightarrow> bool" where
  "should_unshare_network m \<longleftrightarrow> m \<noteq> NetFullAccess"

text \<open>\<open>link_status\<close> is whether \<open>symlink_metadata\<close> sees a link, nothing when it fails; \<open>install\<close> puts a
  restriction on the thread and says whether the kernel enforces it.\<close>

record 'e linux_env = "'e path_env" +
  link_status :: "path \<Rightarrow> bool option"
  install :: "restriction \<Rightarrow> 'e + bool"
  arch_supported :: bool
  current_exe :: "ustr option"
  policy_to_json :: "sandbox_policy \<Rightarrow> ustr option"
  bwrap_stderr :: "ustr list \<Rightarrow> ustr"

definition is_within_allowed_write_paths :: "path \<Rightarrow> path list \<Rightarrow> bool" where
  "is_within_allowed_write_paths p allowed \<longleftrightarrow> list_ex (path_starts_with p) allowed"

definition pop_path :: "path \<Rightarrow> path" where
  "pop_path p = (case parent p of Some q \<Rightarrow> q | None \<Rightarrow> p)"

fun find_symlink_from :: "'e linux_env \<Rightarrow> path list \<Rightarrow> path \<Rightarrow> path \<Rightarrow> path option" where
  "find_symlink_from env allowed current [] = None"
| "find_symlink_from env allowed current (RootDir # cs) = find_symlink_from env allowed [RootDir] cs"
| "find_symlink_from env allowed current (CurDir # cs) = find_symlink_from env allowed current cs"
| "find_symlink_from env allowed current (ParentDir # cs) = find_symlink_from env allowed (pop_path current) cs"
| "find_symlink_from env allowed current (Normal part # cs) =
     (let current = current @ [Normal part]
      in case link_status env current of
           None \<Rightarrow> None
         | Some link \<Rightarrow>
             if link \<and> is_within_allowed_write_paths current allowed then Some current
             else find_symlink_from env allowed current cs)"

definition find_symlink_in_path :: "'e linux_env \<Rightarrow> path \<Rightarrow> path list \<Rightarrow> path option" where
  "find_symlink_in_path env target_path allowed = find_symlink_from env allowed [] target_path"

fun find_missing_from :: "'e linux_env \<Rightarrow> path \<Rightarrow> path \<Rightarrow> path option" where
  "find_missing_from env current [] = None"
| "find_missing_from env current (RootDir # cs) = find_missing_from env [RootDir] cs"
| "find_missing_from env current (CurDir # cs) = find_missing_from env current cs"
| "find_missing_from env current (ParentDir # cs) = find_missing_from env (pop_path current) cs"
| "find_missing_from env current (Normal part # cs) =
     (let current = current @ [Normal part]
      in if \<not> fs_exists env current then Some current else find_missing_from env current cs)"

definition find_first_non_existent_component :: "'e linux_env \<Rightarrow> path \<Rightarrow> path option" where
  "find_first_non_existent_component env target_path = find_missing_from env [] target_path"

fun ensure_mount_targets_exist :: "'e linux_env \<Rightarrow> writable_root list \<Rightarrow> 'e sandbox_error + unit" where
  "ensure_mount_targets_exist env [] = Inr ()"
| "ensure_mount_targets_exist env (w # ws) =
     (if \<not> fs_exists env (root w)
      then Inl (UnsupportedOperation (lit ''Sandbox expected writable root '' @ show_path (root w) @
             lit '', but it does not exist.''))
      else ensure_mount_targets_exist env ws)"

definition collect_read_only_subpaths :: "writable_root list \<Rightarrow> path list" where
  "collect_read_only_subpaths ws = sort (remdups (concat (map read_only_subpaths ws)))"

text \<open>The body of the loop over the subpaths.\<close>

definition protect_subpath :: "'e linux_env \<Rightarrow> path list \<Rightarrow> path \<Rightarrow> ustr list" where
  "protect_subpath env allowed subpath =
     (case find_symlink_in_path env subpath allowed of
        Some symlink_path \<Rightarrow> [lit ''--ro-bind'', lit ''/dev/null'', show_path symlink_path]
      | None \<Rightarrow>
          if \<not> fs_exists env subpath then
            (case find_first_non_existent_component env subpath of
               Some first_missing \<Rightarrow>
                 if is_within_allowed_write_paths first_missing allowed
                 then [lit ''--ro-bind'', lit ''/dev/null'', show_path first_missing] else []
             | None \<Rightarrow> [])
          else if is_within_allowed_write_paths subpath allowed
               then [lit ''--ro-bind'', show_path subpath, show_path subpath] else [])"

definition create_filesystem_args ::
  "'e linux_env \<Rightarrow> sandbox_policy \<Rightarrow> ustr \<Rightarrow> ('e sandbox_error + ustr list) option" where
  "create_filesystem_args env policy cwd =
     (if \<not> has_full_disk_read_access policy
      then Some (Inl (UnsupportedOperation
             (lit ''Restricted read-only access is not yet supported by the Linux bubblewrap backend.'')))
      else map_option (\<lambda>writable_roots.
        bindE (ensure_mount_targets_exist env writable_roots) (\<lambda>_.
          let allowed = map root writable_roots
          in Inr ([lit ''--ro-bind'', lit ''/'', lit ''/''] @
                  concat (map (\<lambda>r. [lit ''--bind'', show_path r, show_path r]) allowed) @
                  concat (map (protect_subpath env allowed) (collect_read_only_subpaths writable_roots)) @
                  [lit ''--dev-bind'', lit ''/dev/null'', lit ''/dev/null''])))
        (get_writable_roots_with_cwd env policy cwd))"

definition isolation_args :: "bwrap_options \<Rightarrow> ustr list" where
  "isolation_args options =
     [lit ''--unshare-pid''] @
     (if should_unshare_network (bo_network_mode options) then [lit ''--unshare-net''] else []) @
     (if bo_mount_proc options then [lit ''--proc'', lit ''/proc''] else [])"

definition create_bwrap_flags ::
  "'e linux_env \<Rightarrow> ustr list \<Rightarrow> sandbox_policy \<Rightarrow> ustr \<Rightarrow> bwrap_options \<Rightarrow> ('e sandbox_error + ustr list) option" where
  "create_bwrap_flags env command policy cwd options =
     map_option (\<lambda>r. bindE r (\<lambda>filesystem.
        Inr ([lit ''--new-session'', lit ''--die-with-parent''] @ filesystem @ isolation_args options @
             [lit ''--''] @ command)))
       (create_filesystem_args env policy cwd)"

definition create_bwrap_flags_full_filesystem :: "ustr list \<Rightarrow> bwrap_options \<Rightarrow> ustr list" where
  "create_bwrap_flags_full_filesystem command options =
     [lit ''--new-session'', lit ''--die-with-parent'', lit ''--bind'', lit ''/'', lit ''/''] @
     isolation_args options @ [lit ''--''] @ command"

definition create_bwrap_command_args ::
  "'e linux_env \<Rightarrow> ustr list \<Rightarrow> sandbox_policy \<Rightarrow> ustr \<Rightarrow> bwrap_options \<Rightarrow> ('e sandbox_error + ustr list) option" where
  "create_bwrap_command_args env command policy cwd options =
     (if has_full_disk_write_access policy
      then Some (Inr (if bo_network_mode options = NetFullAccess then command
                      else create_bwrap_flags_full_filesystem command options))
      else create_bwrap_flags env command policy cwd options)"

section \<open>Restrictions of a process\<close>

definition should_install_network_seccomp :: "sandbox_policy \<Rightarrow> bool \<Rightarrow> bool" where
  "should_install_network_seccomp policy allow_proxy \<longleftrightarrow> \<not> has_full_network_access policy \<or> allow_proxy"

definition af_unix :: nat where
  "af_unix = 1"

text \<open>An empty list of rules matches every call.\<close>

definition network_rules :: "(syscall \<times> seccomp_condition list list) list" where
  "network_rules =
     map (\<lambda>nr. (nr, []))
       [SysConnect, SysAccept, SysAccept4, SysBind, SysListen, SysGetpeername, SysGetsockname, SysShutdown,
        SysSendto, SysSendmmsg, SysRecvmmsg, SysGetsockopt, SysSetsockopt, SysPtrace, SysIoUringSetup,
        SysIoUringEnter, SysIoUringRegister] @
     [(SysSocket, [[ArgDiffers 0 af_unix]]), (SysSocketpair, [[ArgDiffers 0 af_unix]])]"

definition landlock_rules :: "path list \<Rightarrow> (path \<times> fs_access) list" where
  "landlock_rules roots =
     [([RootDir], ReadAccess), ([RootDir, Normal (lit ''dev''), Normal (lit ''null'')], ReadWriteAccess)] @
     (if roots \<noteq> [] then map (\<lambda>r. (r, ReadWriteAccess)) roots else [])"

definition set_no_new_privs :: "'e linux_env \<Rightarrow> 'e sandbox_error + restriction list" where
  "set_no_new_privs env = bindE (map_errE OsError (install env NoNewPrivs)) (\<lambda>_. Inr [NoNewPrivs])"

definition install_network_seccomp_filter_on_current_thread ::
  "'e linux_env \<Rightarrow> ('e sandbox_error + restriction list) option" where
  "install_network_seccomp_filter_on_current_thread env =
     (if \<not> arch_supported env then None
      else Some (bindE (map_errE OsError (install env (Seccomp network_rules)))
                  (\<lambda>_. Inr [Seccomp network_rules])))"

definition install_filesystem_landlock_rules_on_current_thread ::
  "'e linux_env \<Rightarrow> path list \<Rightarrow> 'e sandbox_error + restriction list" where
  "install_filesystem_landlock_rules_on_current_thread env roots =
     (let rules = Landlock (landlock_rules roots)
      in bindE (map_errE OsError (install env rules)) (\<lambda>enforced.
           if \<not> enforced then Inl LandlockRestrict else Inr [rules]))"

text \<open>The result is the list of restrictions installed, in their order.\<close>

definition apply_sandbox_policy_to_current_thread ::
  "'e linux_env \<Rightarrow> sandbox_policy \<Rightarrow> ustr \<Rightarrow> bool \<Rightarrow> bool \<Rightarrow> ('e sandbox_error + restriction list) option" where
  "apply_sandbox_policy_to_current_thread env policy cwd apply_landlock_fs allow_proxy =
     (let seccomp = should_install_network_seccomp policy allow_proxy;
          landlock = (apply_landlock_fs \<and> \<not> has_full_disk_write_access policy)
      in case (if seccomp \<or> landlock then set_no_new_privs env else Inr []) of
           Inl e \<Rightarrow> Some (Inl e)
         | Inr first \<Rightarrow>
             (case (if seccomp then install_network_seccomp_filter_on_current_thread env else Some (Inr [])) of
                None \<Rightarrow> None
              | Some (Inl e) \<Rightarrow> Some (Inl e)
              | Some (Inr second) \<Rightarrow>
                  if \<not> landlock then Some (Inr (first @ second))
                  else if \<not> has_full_disk_read_access policy
                  then Some (Inl (UnsupportedOperation
                    (lit ''Restricted read-only access is not supported by the legacy Linux Landlock filesystem backend.'')))
                  else map_option (\<lambda>ws. bindE
                         (install_filesystem_landlock_rules_on_current_thread env (map root ws))
                         (\<lambda>third. Inr (first @ second @ third)))
                       (get_writable_roots_with_cwd env policy cwd)))"

section \<open>The helper\<close>

record landlock_command =
  sandbox_policy_cwd :: ustr
  sandbox_policy_arg :: sandbox_policy
  use_bwrap_sandbox :: bool
  apply_seccomp_then_exec :: bool
  allow_network_for_proxy_arg :: bool
  no_proc :: bool
  command_arg :: "ustr list"

text \<open>What the helper turns into: the command under these restrictions, or bubblewrap.\<close>

datatype launch = ExecCommand "restriction list" "ustr list" | ExecBwrap "ustr list"

definition bwrap_network_mode_of :: "sandbox_policy \<Rightarrow> bool \<Rightarrow> bwrap_network_mode" where
  "bwrap_network_mode_of policy allow_proxy =
     (if allow_proxy then NetProxyOnly
      else if has_full_network_access policy then NetFullAccess else NetIsolated)"

definition build_bwrap_argv ::
  "'e linux_env \<Rightarrow> ustr list \<Rightarrow> sandbox_policy \<Rightarrow> ustr \<Rightarrow> bwrap_options \<Rightarrow> ustr list option" where
  "build_bwrap_argv env inner policy cwd options =
     (case create_bwrap_command_args env inner policy cwd options of
        Some (Inr args) \<Rightarrow>
          map_option (\<lambda>i. lit ''bwrap'' #
              take i args @ [lit ''--argv0'', lit ''codex-linux-sandbox''] @ drop i args)
            (position (\<lambda>arg. arg = lit ''--'') args)
      | _ \<Rightarrow> None)"

definition is_proc_mount_failure :: "ustr \<Rightarrow> bool" where
  "is_proc_mount_failure stderr \<longleftrightarrow>
     str_contains stderr (lit ''Can'' @ [39] @ lit ''t mount proc'') \<and>
     str_contains stderr (lit ''/newroot/proc'') \<and> str_contains stderr (lit ''Invalid argument'')"

definition resolve_true_command :: "'e linux_env \<Rightarrow> ustr" where
  "resolve_true_command env =
     (case find (\<lambda>candidate. fs_exists env (components candidate)) [lit ''/usr/bin/true'', lit ''/bin/true''] of
        Some candidate \<Rightarrow> candidate
      | None \<Rightarrow> lit ''true'')"

definition preflight_proc_mount_support :: "'e linux_env \<Rightarrow> ustr \<Rightarrow> sandbox_policy \<Rightarrow> bool option" where
  "preflight_proc_mount_support env cwd policy =
     map_option (\<lambda>argv. \<not> is_proc_mount_failure (bwrap_stderr env argv))
       (build_bwrap_argv env [resolve_true_command env] policy cwd
          \<lparr>bo_mount_proc = True, bo_network_mode = NetFullAccess\<rparr>)"

definition run_bwrap_with_proc_fallback ::
  "'e linux_env \<Rightarrow> ustr \<Rightarrow> sandbox_policy \<Rightarrow> ustr list \<Rightarrow> bool \<Rightarrow> bool \<Rightarrow> launch option" where
  "run_bwrap_with_proc_fallback env cwd policy inner wants_proc allow_proxy =
     Option.bind (if wants_proc then preflight_proc_mount_support env cwd policy else Some False) (\<lambda>proc.
       map_option ExecBwrap
         (build_bwrap_argv env inner policy cwd
           \<lparr>bo_mount_proc = proc, bo_network_mode = bwrap_network_mode_of policy allow_proxy\<rparr>))"

definition build_inner_seccomp_command ::
  "'e linux_env \<Rightarrow> ustr \<Rightarrow> sandbox_policy \<Rightarrow> bool \<Rightarrow> bool \<Rightarrow> ustr list \<Rightarrow> ustr list option" where
  "build_inner_seccomp_command env cwd policy use_bwrap allow_proxy command =
     Option.bind (current_exe env) (\<lambda>exe. map_option (\<lambda>json.
       [exe, lit ''--sandbox-policy-cwd'', cwd, lit ''--sandbox-policy'', json] @
       (if use_bwrap then [lit ''--use-bwrap-sandbox'', lit ''--apply-seccomp-then-exec''] else []) @
       (if allow_proxy then [lit ''--allow-network-for-proxy''] else []) @
       [lit ''--''] @ command) (policy_to_json env policy))"

text \<open>Applying the policy and \<open>exec_or_panic\<close>; \<open>execvp\<close> refuses a word with a NUL in it.\<close>

definition exec_restricted :: "'e linux_env \<Rightarrow> landlock_command \<Rightarrow> bool \<Rightarrow> launch option" where
  "exec_restricted env c landlock =
     (case apply_sandbox_policy_to_current_thread env (sandbox_policy_arg c) (sandbox_policy_cwd c) landlock
             (allow_network_for_proxy_arg c) of
        Some (Inr installed) \<Rightarrow>
          if list_all (\<lambda>arg. 0 \<notin> set arg) (command_arg c) then Some (ExecCommand installed (command_arg c)) else None
      | _ \<Rightarrow> None)"

definition run_main :: "'e linux_env \<Rightarrow> landlock_command \<Rightarrow> launch option" where
  "run_main env c =
     (if command_arg c = [] then None
      else if apply_seccomp_then_exec c then exec_restricted env c False
      else if has_full_disk_write_access (sandbox_policy_arg c) \<and> \<not> allow_network_for_proxy_arg c
      then exec_restricted env c False
      else if use_bwrap_sandbox c then
        Option.bind (build_inner_seccomp_command env (sandbox_policy_cwd c) (sandbox_policy_arg c)
                       (use_bwrap_sandbox c) (allow_network_for_proxy_arg c) (command_arg c)) (\<lambda>inner.
          run_bwrap_with_proc_fallback env (sandbox_policy_cwd c) (sandbox_policy_arg c) inner
            (\<not> no_proc c) (allow_network_for_proxy_arg c))
      else exec_restricted env c True)"

section \<open>The file system a command sees\<close>

text \<open>What bubblewrap documents: the mounts are made in the order of the options, and a later one hides
  what is below its mount point.\<close>

datatype mount = MountBind path path | MountReadOnly path path | MountDevice path path | MountProc path

fun mount_point :: "mount \<Rightarrow> path" where
  "mount_point (MountBind _ p) = p"
| "mount_point (MountReadOnly _ p) = p"
| "mount_point (MountDevice _ p) = p"
| "mount_point (MountProc p) = p"

fun mount_writable :: "mount \<Rightarrow> bool" where
  "mount_writable (MountBind _ _) = True"
| "mount_writable (MountDevice _ _) = True"
| "mount_writable _ = False"

fun read_mounts :: "ustr list \<Rightarrow> mount list" where
  "read_mounts [] = []"
| "read_mounts (flag # rest) =
     (if flag = lit ''--'' then []
      else if flag = lit ''--proc''
      then (case rest of p # rest' \<Rightarrow> MountProc (components p) # read_mounts rest' | [] \<Rightarrow> [])
      else if flag = lit ''--bind''
      then (case rest of a # b # rest' \<Rightarrow> MountBind (components a) (components b) # read_mounts rest' | _ \<Rightarrow> [])
      else if flag = lit ''--ro-bind''
      then (case rest of a # b # rest' \<Rightarrow> MountReadOnly (components a) (components b) # read_mounts rest' | _ \<Rightarrow> [])
      else if flag = lit ''--dev-bind''
      then (case rest of a # b # rest' \<Rightarrow> MountDevice (components a) (components b) # read_mounts rest' | _ \<Rightarrow> [])
      else read_mounts rest)"

definition writable_in :: "mount list \<Rightarrow> path \<Rightarrow> bool" where
  "writable_in mounts p \<longleftrightarrow>
     (case find (\<lambda>m. path_starts_with p (mount_point m)) (rev mounts) of
        Some m \<Rightarrow> mount_writable m
      | None \<Rightarrow> False)"

lemma read_steps:
  "read_mounts (lit ''--bind'' # a # b # rest) = MountBind (components a) (components b) # read_mounts rest"
  "read_mounts (lit ''--ro-bind'' # a # b # rest) = MountReadOnly (components a) (components b) # read_mounts rest"
  "read_mounts (lit ''--dev-bind'' # a # b # rest) = MountDevice (components a) (components b) # read_mounts rest"
  by (simp_all add: lit_def)

declare read_mounts.simps(2) [simp del]

lemma writable_snoc:
  "writable_in (ms @ [m]) p \<longleftrightarrow> (if path_starts_with p (mount_point m) then mount_writable m else writable_in ms p)"
  by (simp add: writable_in_def)

lemma writable_masks:
  assumes "\<forall>m \<in> set ns. \<not> mount_writable m"
  shows "writable_in (ms @ ns) p \<longleftrightarrow> writable_in ms p \<and> (\<forall>m \<in> set ns. \<not> path_starts_with p (mount_point m))"
  using assms
proof (induction ns rule: rev_induct)
  case (snoc n ns)
  then show ?case
    using writable_snoc [of "ms @ ns" n p] by auto
qed simp

lemma writable_binds:
  "writable_in (MountReadOnly a [RootDir] # map (\<lambda>r. MountBind r r) roots) p \<longleftrightarrow> list_ex (path_starts_with p) roots"
proof (induction roots rule: rev_induct)
  case (snoc r rs)
  then show ?case
    using writable_snoc [of "MountReadOnly a [RootDir] # map (\<lambda>r. MountBind r r) rs" "MountBind r r" p] by auto
qed (simp add: writable_in_def)

text \<open>Where a subpath is covered.\<close>

definition masked_at :: "'e linux_env \<Rightarrow> path list \<Rightarrow> path \<Rightarrow> path option" where
  "masked_at env allowed subpath =
     (case find_symlink_in_path env subpath allowed of
        Some l \<Rightarrow> Some l
      | None \<Rightarrow>
          (case (if fs_exists env subpath then Some subpath else find_first_non_existent_component env subpath) of
             Some m \<Rightarrow> if is_within_allowed_write_paths m allowed then Some m else None
           | None \<Rightarrow> None))"

definition dev_null :: path where
  "dev_null = [RootDir, Normal (lit ''dev''), Normal (lit ''null'')]"

lemma components_fixed: "components (lit ''/'') = [RootDir]" "components (lit ''/dev/null'') = dev_null"
  by (simp_all add: components_def dev_null_def segment_component_def is_absolute_def Let_def str_ops)

lemma protect_reads:
  assumes "\<forall>m. masked_at env allowed s = Some m \<longrightarrow> normal_path m"
  shows "\<exists>ms. read_mounts (protect_subpath env allowed s @ rest) = ms @ read_mounts rest \<and>
    (\<forall>m \<in> set ms. \<not> mount_writable m) \<and> map mount_point ms = (case masked_at env allowed s of Some m \<Rightarrow> [m] | None \<Rightarrow> [])"
proof (cases "masked_at env allowed s")
  case None
  then have "protect_subpath env allowed s = []"
    by (auto simp: protect_subpath_def masked_at_def split: option.splits if_splits)
  then show ?thesis
    using None by simp
next
  case (Some m)
  then obtain src where "protect_subpath env allowed s = [lit ''--ro-bind'', src, show_path m]"
    by (auto simp: protect_subpath_def masked_at_def split: option.splits if_splits)
  then show ?thesis
    using Some assms by (intro exI [of _ "[MountReadOnly (components src) m]"]) (simp add: read_steps components_show)
qed

lemma protect_all_reads:
  assumes "\<forall>s \<in> set ss. \<forall>m. masked_at env allowed s = Some m \<longrightarrow> normal_path m"
  shows "\<exists>ms. read_mounts (concat (map (protect_subpath env allowed) ss) @ rest) = ms @ read_mounts rest \<and>
    (\<forall>m \<in> set ms. \<not> mount_writable m) \<and>
    set (map mount_point ms) = {m. \<exists>s \<in> set ss. masked_at env allowed s = Some m}"
  using assms
proof (induction ss)
  case (Cons s ss)
  have later: "\<forall>s \<in> set ss. \<forall>m. masked_at env allowed s = Some m \<longrightarrow> normal_path m"
    and first: "\<forall>m. masked_at env allowed s = Some m \<longrightarrow> normal_path m"
    using Cons.prems by simp_all
  from Cons.IH [OF later]
  obtain ms where ms: "read_mounts (concat (map (protect_subpath env allowed) ss) @ rest) = ms @ read_mounts rest"
    "\<forall>m \<in> set ms. \<not> mount_writable m"
    "set (map mount_point ms) = {m. \<exists>s \<in> set ss. masked_at env allowed s = Some m}"
    by blast
  from protect_reads [OF first, of "concat (map (protect_subpath env allowed) ss) @ rest"]
  obtain n where n: "read_mounts (protect_subpath env allowed s @ concat (map (protect_subpath env allowed) ss) @ rest) =
      n @ read_mounts (concat (map (protect_subpath env allowed) ss) @ rest)"
    "\<forall>m \<in> set n. \<not> mount_writable m"
    "map mount_point n = (case masked_at env allowed s of Some m \<Rightarrow> [m] | None \<Rightarrow> [])"
    by blast
  have "set (map mount_point (n @ ms)) = {m. \<exists>t \<in> set (s # ss). masked_at env allowed t = Some m}"
    unfolding map_append set_append n(3) ms(3) by (auto split: option.splits)
  then show ?case
    using n(1,2) ms(1,2) by (intro exI [of _ "n @ ms"]) auto
qed simp

lemma binds_read:
  assumes "list_all normal_path roots"
  shows "read_mounts (concat (map (\<lambda>r. [lit ''--bind'', show_path r, show_path r]) roots) @ rest) =
    map (\<lambda>r. MountBind r r) roots @ read_mounts rest"
  using assms by (induction roots) (simp_all add: read_steps components_show)

text \<open>On a path of names both walks yield a prefix of it.\<close>

lemma symlink_on_names:
  "find_symlink_from env allowed cur (map Normal names) = Some m \<Longrightarrow>
     is_within_allowed_write_paths m allowed \<and> (\<exists>k. m = cur @ map Normal (take k names))"
proof (induction names arbitrary: cur)
  case (Cons n ns)
  show ?case
  proof (cases "m = cur @ [Normal n]")
    case True
    then have "m = cur @ map Normal (take 1 (n # ns))"
      by simp
    then show ?thesis
      using Cons.prems Cons.IH [of "cur @ [Normal n]"]
      by (auto simp: Let_def split: option.splits if_splits intro: exI [of _ 1])
  next
    case False
    then obtain k where "is_within_allowed_write_paths m allowed" "m = (cur @ [Normal n]) @ map Normal (take k ns)"
      using Cons.prems Cons.IH [of "cur @ [Normal n]"] by (auto simp: Let_def split: option.splits if_splits)
    then show ?thesis
      by (intro conjI exI [of _ "Suc k"]) simp_all
  qed
qed simp

lemma missing_on_names:
  "find_missing_from env cur (map Normal names) = Some m \<Longrightarrow>
     \<not> fs_exists env m \<and> (\<exists>k. m = cur @ map Normal (take k names))"
proof (induction names arbitrary: cur)
  case (Cons n ns)
  show ?case
  proof (cases "fs_exists env (cur @ [Normal n])")
    case True
    then obtain k where "\<not> fs_exists env m" "m = (cur @ [Normal n]) @ map Normal (take k ns)"
      using Cons.prems Cons.IH [of "cur @ [Normal n]"] by (auto simp: Let_def)
    then show ?thesis
      by (intro conjI exI [of _ "Suc k"]) simp_all
  next
    case False
    then show ?thesis
      using Cons.prems by (auto simp: Let_def intro: exI [of _ 1])
  qed
qed simp

lemma none_missing:
  "find_missing_from env cur (map Normal names) = None \<Longrightarrow> names \<noteq> [] \<Longrightarrow> fs_exists env (cur @ map Normal names)"
proof (induction names arbitrary: cur)
  case (Cons n ns)
  then show ?case
    using Cons.IH [of "cur @ [Normal n]"] by (cases ns) (auto simp: Let_def split: if_splits)
qed simp

lemma normal_take: "normal_path (RootDir # map Normal names) \<Longrightarrow> normal_path (RootDir # map Normal (take k names))"
proof -
  assume "normal_path (RootDir # map Normal names)"
  then have "list_all plain_name names"
    by (auto simp: normal_path_def dest: map_injective simp: inj_def)
  then show ?thesis
    unfolding normal_path_def by (intro exI [of _ "take k names"]) (auto simp: list_all_iff dest: in_set_takeD)
qed

text \<open>What is masked for a subpath lies on the way to it, below a writable root.\<close>

lemma masked_prefix:
  assumes "normal_path s" and "masked_at env allowed s = Some m"
  shows "normal_path m \<and> path_starts_with s m \<and> is_within_allowed_write_paths m allowed"
proof -
  from assms(1) obtain names where s: "s = RootDir # map Normal names"
    by (auto simp: normal_path_def)
  have prefix: "path_starts_with s (RootDir # map Normal (take k names))" for k
    unfolding path_starts_with_iff s
    by (intro exI [of _ "map Normal (drop k names)"]) (simp flip: map_append)
  have within: "is_within_allowed_write_paths m allowed"
    and at: "m = s \<or> (\<exists>k. m = RootDir # map Normal (take k names))"
    using assms(2) symlink_on_names [of env allowed "[RootDir]" names]
      missing_on_names [of env "[RootDir]" names m]
    by (auto simp: masked_at_def find_symlink_in_path_def find_first_non_existent_component_def s
        split: option.splits if_splits)
  show ?thesis
    using at
  proof
    assume "m = s"
    then show ?thesis
      using assms(1) within by simp
  next
    assume "\<exists>k. m = RootDir # map Normal (take k names)"
    then show ?thesis
      using prefix within normal_take [OF assms(1) [unfolded s]] by blast
  qed
qed

definition disk_closed :: "'e linux_env \<Rightarrow> bool" where
  "disk_closed env \<longleftrightarrow> (\<forall>p q. normal_path p \<longrightarrow> fs_exists env (p @ q) \<longrightarrow> fs_exists env p)"

lemma protected_is_masked:
  assumes "normal_path s" and "is_within_allowed_write_paths s allowed" and "list_all normal_path allowed"
    and "list_all (fs_exists env) allowed" and "disk_closed env"
  shows "\<exists>m. masked_at env allowed s = Some m"
proof (cases "find_symlink_in_path env s allowed = None \<and> \<not> fs_exists env s")
  case False
  then show ?thesis
    using assms(2) by (auto simp: masked_at_def split: option.splits)
next
  case True
  from assms(1) obtain names where s: "s = RootDir # map Normal names"
    by (auto simp: normal_path_def)
  from assms(2-4) obtain r t where r: "r \<in> set allowed" "s = r @ t" "normal_path r" "fs_exists env r"
    by (auto simp: is_within_allowed_write_paths_def list_ex_iff list_all_iff path_starts_with_iff)
  have "names \<noteq> []"
  proof
    assume "names = []"
    then have "r = s"
      using r(2,3) s by (auto simp: normal_path_def)
    then show False
      using True r(4) by simp
  qed
  then obtain m where m: "find_first_non_existent_component env s = Some m"
    using none_missing [of env "[RootDir]" names] True s
    by (cases "find_first_non_existent_component env s") (auto simp: find_first_non_existent_component_def)
  then have absent: "\<not> fs_exists env m" and "\<exists>k. m = RootDir # map Normal (take k names)"
    using missing_on_names [of env "[RootDir]" names m] by (auto simp: find_first_non_existent_component_def s)
  then obtain k where k: "m = RootDir # map Normal (take k names)"
    by blast
  then have "s = m @ map Normal (drop k names)"
    unfolding s by (simp flip: map_append)
  then have "(\<exists>u. m = r @ u) \<or> (\<exists>u. r = m @ u)"
    using r(2) by (metis append_eq_append_conv2)
  moreover have "\<not> (\<exists>u. r = m @ u)"
    using assms(5) absent r(4) normal_take [OF assms(1) [unfolded s]] unfolding disk_closed_def k by blast
  ultimately have "is_within_allowed_write_paths m allowed"
    using r(1) by (auto simp: is_within_allowed_write_paths_def list_ex_iff path_starts_with_iff)
  then show ?thesis
    using m True by (simp add: masked_at_def)
qed

lemma mounts_of_policy:
  assumes "create_filesystem_args env policy cwd = Some (Inr args)"
    and "get_writable_roots_with_cwd env policy cwd = Some ws"
    and "\<forall>w \<in> set ws. normal_path (root w) \<and> (\<forall>s \<in> set (read_only_subpaths w). normal_path s)"
    and "\<not> path_starts_with p dev_null"
  shows "writable_in (read_mounts args) p \<longleftrightarrow>
      list_ex (path_starts_with p) (map root ws) \<and>
      (\<forall>w \<in> set ws. \<forall>s \<in> set (read_only_subpaths w). \<forall>m. masked_at env (map root ws) s = Some m \<longrightarrow> \<not> path_starts_with p m)"
    and "list_all (fs_exists env) (map root ws)"
proof -
  let ?allowed = "map root ws" and ?ss = "collect_read_only_subpaths ws"
  have ss: "set ?ss = (\<Union>w \<in> set ws. set (read_only_subpaths w))"
    by (simp add: collect_read_only_subpaths_def)
  have exist: "list_all (fs_exists env) (map root us)" if "ensure_mount_targets_exist env us = Inr ()" for us
    using that by (induction us) (auto split: if_splits)
  have checked: "ensure_mount_targets_exist env ws = Inr ()"
    using assms(1,2) by (cases "ensure_mount_targets_exist env ws") (auto simp: create_filesystem_args_def split: if_splits)
  then show "list_all (fs_exists env) (map root ws)"
    by (rule exist)
  have args: "args = lit ''--ro-bind'' # lit ''/'' # lit ''/'' #
      concat (map (\<lambda>r. [lit ''--bind'', show_path r, show_path r]) ?allowed) @
      concat (map (protect_subpath env ?allowed) ?ss) @ [lit ''--dev-bind'', lit ''/dev/null'', lit ''/dev/null'']"
    using assms(1,2) checked by (auto simp: create_filesystem_args_def Let_def split: if_splits)
  have normal: "list_all normal_path ?allowed"
    and masks: "\<forall>s \<in> set ?ss. \<forall>m. masked_at env ?allowed s = Some m \<longrightarrow> normal_path m"
    using assms(3) by (auto simp: ss list_all_iff dest: masked_prefix)
  from protect_all_reads [OF masks] obtain ms where ms:
    "read_mounts (concat (map (protect_subpath env ?allowed) ?ss) @ [lit ''--dev-bind'', lit ''/dev/null'', lit ''/dev/null'']) =
      ms @ read_mounts [lit ''--dev-bind'', lit ''/dev/null'', lit ''/dev/null'']"
    "\<forall>m \<in> set ms. \<not> mount_writable m" "set (map mount_point ms) = {m. \<exists>s \<in> set ?ss. masked_at env ?allowed s = Some m}"
    by blast
  have mounts: "read_mounts args =
      (MountReadOnly [RootDir] [RootDir] # map (\<lambda>r. MountBind r r) ?allowed @ ms) @ [MountDevice dev_null dev_null]"
    unfolding args by (simp add: read_steps(2,3) binds_read [OF normal] ms(1) components_fixed del: map_map)
  have "writable_in (read_mounts args) p \<longleftrightarrow>
      writable_in ((MountReadOnly [RootDir] [RootDir] # map (\<lambda>r. MountBind r r) ?allowed) @ ms) p"
    unfolding mounts writable_snoc using assms(4) by simp
  also have "\<dots> \<longleftrightarrow> list_ex (path_starts_with p) ?allowed \<and> (\<forall>q \<in> set (map mount_point ms). \<not> path_starts_with p q)"
    unfolding writable_masks [OF ms(2)] writable_binds by simp
  finally show "writable_in (read_mounts args) p \<longleftrightarrow>
      list_ex (path_starts_with p) (map root ws) \<and>
      (\<forall>w \<in> set ws. \<forall>s \<in> set (read_only_subpaths w). \<forall>m. masked_at env (map root ws) s = Some m \<longrightarrow> \<not> path_starts_with p m)"
    unfolding ms(3) ss by blast
qed


definition linux_example :: "unit linux_env" where
  "linux_example =
     \<lparr>os = Linux, home_dir = None, absolutize = (\<lambda>p. Inr (components p)),
      absolutize_from = (\<lambda>p base. Inr (if is_absolute p then components p else base @ components p)),
      fs_is_file = (\<lambda>_. False), fs_is_dir = (\<lambda>_. True), fs_exists = (\<lambda>_. True),
      fs_read_to_string = (\<lambda>_. Inr []), var_tmpdir = None, link_status = (\<lambda>_. Some False),
      install = (\<lambda>_. Inr True), arch_supported = True, current_exe = Some (lit ''/helper''),
      policy_to_json = (\<lambda>p. if p = new_read_only_policy then Some [] else None), bwrap_stderr = (\<lambda>_. [])\<rparr>"

lemma linux_example_simps [simp]:
  "os linux_example = Linux" "fs_is_file linux_example = (\<lambda>_. False)" "fs_is_dir linux_example = (\<lambda>_. True)"
  "fs_exists linux_example = (\<lambda>_. True)" "var_tmpdir linux_example = None"
  "install linux_example r = Inr True" "arch_supported linux_example" "current_exe linux_example = Some (lit ''/helper'')"
  "policy_to_json linux_example p = (if p = new_read_only_policy then Some [] else None)"
  "bwrap_stderr linux_example a = []"
  by (simp_all add: linux_example_def)

lemma linux_example_resolve:
  "resolve_path_against_base linux_example p base = Inr (if is_absolute p then components p else base @ components p)"
  "from_absolute_path linux_example p = Inr (components p)"
  by (simp_all add: resolve_path_against_base_def from_absolute_path_def maybe_expand_home_directory_def linux_example_def)

lemma linux_example_roots:
  "get_writable_roots_with_cwd linux_example workspace_only (lit ''/w'') =
     Some [\<lparr>root = [RootDir, Normal (lit ''w'')],
            read_only_subpaths =
              [[RootDir, Normal (lit ''w''), Normal (lit ''.git'')], [RootDir, Normal (lit ''w''), Normal (lit ''.agents'')],
               [RootDir, Normal (lit ''w''), Normal (lit ''.codex'')]]\<rparr>]"
  by (simp add: linux_example_resolve slash_tmp_root_def tmpdir_root_def ok_list_def writable_root_of_def abs_join_def
      git_subpaths_def)


text \<open>Only subpaths that exist are ever protected, so the case of a missing one is not met: a folder such
  as \<open>.codex\<close> that is not there yet can be created by the command.\<close>

theorem protected_subpaths_exist:
  assumes "writable_root_of env r = Some w" and "s \<in> set (read_only_subpaths w)"
    and "\<forall>p. fs_is_dir env p \<or> fs_is_file env p \<longrightarrow> fs_exists env p"
  shows "fs_exists env s"
  using assms by (auto simp: writable_root_of_def git_subpaths_def resolve_gitdir_from_file_def Let_def
      split: sum.splits option.splits if_splits prod.splits)

theorem protected_subpaths_exist_witness:
  "\<exists>w. writable_root_of linux_example [RootDir, Normal (lit ''w'')] = Some w \<and>
     fs_exists linux_example (hd (read_only_subpaths w))"
proof -
  obtain w where w: "writable_root_of linux_example [RootDir, Normal (lit ''w'')] = Some w" "read_only_subpaths w \<noteq> []"
    by (simp add: linux_example_resolve writable_root_of_def abs_join_def git_subpaths_def)
  then show ?thesis
    using protected_subpaths_exist [OF w(1) hd_in_set [OF w(2)]] by simp
qed

section \<open>The network of a command\<close>

text \<open>What seccomp documents: a call whose number has rules is refused when there are none in the list or
  all conditions of one of them hold.\<close>

fun condition_holds :: "(nat \<Rightarrow> nat) \<Rightarrow> seccomp_condition \<Rightarrow> bool" where
  "condition_holds args (ArgDiffers i v) \<longleftrightarrow> args i \<noteq> v"

definition seccomp_denies :: "(syscall \<times> seccomp_condition list list) list \<Rightarrow> syscall \<Rightarrow> (nat \<Rightarrow> nat) \<Rightarrow> bool" where
  "seccomp_denies rules nr args \<longleftrightarrow>
     (case map_of rules nr of
        None \<Rightarrow> False
      | Some rs \<Rightarrow> rs = [] \<or> list_ex (list_all (condition_holds args)) rs)"

definition network_cut :: "restriction list \<Rightarrow> bool" where
  "network_cut installed \<longleftrightarrow>
     (\<exists>rules. Seccomp rules \<in> set installed \<and> NoNewPrivs \<in> set installed \<and>
        (\<forall>nr \<in> {SysConnect, SysBind, SysListen, SysAccept, SysAccept4, SysSendto, SysSendmmsg, SysPtrace}.
           \<forall>args. seccomp_denies rules nr args) \<and>
        (\<forall>args. seccomp_denies rules SysSocket args \<longleftrightarrow> args 0 \<noteq> af_unix))"

lemma network_rules_deny:
  "nr \<in> {SysConnect, SysBind, SysListen, SysAccept, SysAccept4, SysSendto, SysSendmmsg, SysPtrace} \<Longrightarrow>
     seccomp_denies network_rules nr args"
  "seccomp_denies network_rules SysSocket args \<longleftrightarrow> args 0 \<noteq> af_unix"
  by (auto simp: network_rules_def seccomp_denies_def)

lemma network_rules_cut: "Seccomp network_rules \<in> set installed \<Longrightarrow> NoNewPrivs \<in> set installed \<Longrightarrow> network_cut installed"
  unfolding network_cut_def using network_rules_deny by (intro exI [of _ network_rules]) blast

lemma applied_restrictions:
  assumes "apply_sandbox_policy_to_current_thread env policy cwd landlock proxy = Some (Inr installed)"
  shows "(\<not> has_full_network_access policy \<or> proxy \<longrightarrow> network_cut installed) \<and>
    (landlock \<and> \<not> has_full_disk_write_access policy \<longrightarrow>
       (\<exists>ws. get_writable_roots_with_cwd env policy cwd = Some ws \<and>
          Landlock (landlock_rules (map root ws)) \<in> set installed))"
proof -
  have landlocked: "install_filesystem_landlock_rules_on_current_thread env roots = Inr third \<Longrightarrow>
      third = [Landlock (landlock_rules roots)]" for roots third
    by (auto simp: install_filesystem_landlock_rules_on_current_thread_def res_ops Let_def split: if_splits)
  have filtered: "install_network_seccomp_filter_on_current_thread env = Some (Inr second) \<Longrightarrow>
      second = [Seccomp network_rules]" for second
    by (auto simp: install_network_seccomp_filter_on_current_thread_def res_ops split: if_splits)
  have marked: "set_no_new_privs env = Inr first \<Longrightarrow> first = [NoNewPrivs]" for first
    by (auto simp: set_no_new_privs_def res_ops)
  show ?thesis
    using assms
    by (auto simp: apply_sandbox_policy_to_current_thread_def should_install_network_seccomp_def Let_def res_ops
        split: sum.splits option.splits if_splits dest!: landlocked filtered marked intro!: network_rules_cut)
qed

definition normal_roots :: "'e linux_env \<Rightarrow> sandbox_policy \<Rightarrow> ustr \<Rightarrow> bool" where
  "normal_roots env policy cwd \<longleftrightarrow>
     (\<forall>ws w. get_writable_roots_with_cwd env policy cwd = Some ws \<longrightarrow> w \<in> set ws \<longrightarrow>
        normal_path (root w) \<and> (\<forall>s \<in> set (read_only_subpaths w). normal_path s))"

lemma path_is_no_separator: "normal_path p \<Longrightarrow> show_path p \<noteq> lit ''--''"
  by (auto simp: normal_path_def show_normal slash_def lit_def)

lemma position_first: "x \<notin> set xs \<Longrightarrow> position (\<lambda>a. a = x) (xs @ x # ys) = Some (length xs)"
  by (induction xs) auto

lemma protect_no_separator:
  assumes "\<forall>m. masked_at env allowed s = Some m \<longrightarrow> normal_path m"
  shows "lit ''--'' \<notin> set (protect_subpath env allowed s)"
proof (cases "masked_at env allowed s")
  case None
  then have "protect_subpath env allowed s = []"
    by (auto simp: protect_subpath_def masked_at_def split: option.splits if_splits)
  then show ?thesis
    by simp
next
  case (Some m)
  then have "protect_subpath env allowed s \<in>
      {[lit ''--ro-bind'', lit ''/dev/null'', show_path m], [lit ''--ro-bind'', show_path m, show_path m]}"
    by (auto simp: protect_subpath_def masked_at_def split: option.splits if_splits)
  moreover have "show_path m \<noteq> lit ''--''"
    using assms Some path_is_no_separator by blast
  ultimately show ?thesis
    by (auto simp: lit_def)
qed

lemma filesystem_no_separator:
  assumes "create_filesystem_args env policy cwd = Some (Inr args)" and "normal_roots env policy cwd"
  shows "lit ''--'' \<notin> set args"
proof -
  from assms(1) obtain ws where ws: "get_writable_roots_with_cwd env policy cwd = Some ws"
    by (auto simp: create_filesystem_args_def split: if_splits)
  then have args: "args = [lit ''--ro-bind'', lit ''/'', lit ''/''] @
      concat (map (\<lambda>r. [lit ''--bind'', show_path r, show_path r]) (map root ws)) @
      concat (map (protect_subpath env (map root ws)) (collect_read_only_subpaths ws)) @
      [lit ''--dev-bind'', lit ''/dev/null'', lit ''/dev/null'']"
    using assms(1) by (auto simp: create_filesystem_args_def Let_def res_ops split: if_splits)
  have normal: "w \<in> set ws \<Longrightarrow> normal_path (root w) \<and> (\<forall>s \<in> set (read_only_subpaths w). normal_path s)" for w
    using assms(2) ws by (auto simp: normal_roots_def)
  have "lit ''--bind'' \<noteq> lit ''--''"
    by (simp add: lit_def)
  then have "lit ''--'' \<notin> set (concat (map (\<lambda>r. [lit ''--bind'', show_path r, show_path r]) (map root ws)))"
    using not_sym [OF path_is_no_separator [OF conjunct1 [OF normal]]] by (auto simp del: append_Cons)
  moreover have "lit ''--'' \<notin> set (protect_subpath env (map root ws) s)" if "s \<in> set (collect_read_only_subpaths ws)" for s
    using that normal by (intro protect_no_separator) (auto simp: collect_read_only_subpaths_def dest: masked_prefix)
  ultimately show ?thesis
    unfolding args by (auto simp: lit_def)
qed

text \<open>The arguments of bubblewrap: options without a separator, the separator and the inner command.\<close>

lemma bwrap_argv_shape:
  assumes "build_bwrap_argv env inner policy cwd options = Some argv" and "normal_roots env policy cwd"
    and "\<not> (has_full_disk_write_access policy \<and> bo_network_mode options = NetFullAccess)"
  shows "\<exists>flags. argv = lit ''bwrap'' # flags @ [lit ''--argv0'', lit ''codex-linux-sandbox'', lit ''--''] @ inner \<and>
    lit ''--'' \<notin> set flags \<and> (should_unshare_network (bo_network_mode options) \<longrightarrow> lit ''--unshare-net'' \<in> set flags)"
proof -
  obtain args where args: "create_bwrap_command_args env inner policy cwd options = Some (Inr args)"
    using assms(1) by (auto simp: build_bwrap_argv_def split: option.splits sum.splits)
  have isolation: "lit ''--'' \<notin> set (isolation_args options)"
    "should_unshare_network (bo_network_mode options) \<Longrightarrow> lit ''--unshare-net'' \<in> set (isolation_args options)"
    by (auto simp: isolation_args_def lit_def)
  have "\<exists>flags. args = (flags @ isolation_args options) @ lit ''--'' # inner \<and> lit ''--'' \<notin> set flags"
  proof (cases "has_full_disk_write_access policy")
    case True
    then show ?thesis
      using args assms(3)
      by (intro exI [of _ "[lit ''--new-session'', lit ''--die-with-parent'', lit ''--bind'', lit ''/'', lit ''/'']"])
        (auto simp: create_bwrap_command_args_def create_bwrap_flags_full_filesystem_def lit_def)
  next
    case False
    then obtain fs where fs: "create_filesystem_args env policy cwd = Some (Inr fs)"
      "args = ([lit ''--new-session'', lit ''--die-with-parent''] @ fs @ isolation_args options) @ lit ''--'' # inner"
      using args by (auto simp: create_bwrap_command_args_def create_bwrap_flags_def res_ops)
    then show ?thesis
      using filesystem_no_separator [OF fs(1) assms(2)]
      by (intro exI [of _ "[lit ''--new-session'', lit ''--die-with-parent''] @ fs"]) (auto simp: lit_def)
  qed
  then obtain flags where flags: "args = (flags @ isolation_args options) @ lit ''--'' # inner" "lit ''--'' \<notin> set flags"
    by blast
  then have "lit ''--'' \<notin> set (flags @ isolation_args options)"
    using isolation(1) by simp
  from position_first [OF this, of inner] have "argv = lit ''bwrap'' # (flags @ isolation_args options) @
      [lit ''--argv0'', lit ''codex-linux-sandbox'', lit ''--''] @ inner"
    using assms(1) unfolding build_bwrap_argv_def args flags(1) by simp
  then show ?thesis
    using flags(2) isolation by (intro exI [of _ "flags @ isolation_args options"]) auto
qed

text \<open>How clap reads the options core and the helper itself write: the law of the parameter \<open>parse\<close>.\<close>

definition helper_args :: "ustr \<Rightarrow> ustr \<Rightarrow> bool \<Rightarrow> bool \<Rightarrow> bool \<Rightarrow> ustr list \<Rightarrow> ustr list" where
  "helper_args cwd json bwrap seccomp proxy command =
     [lit ''--sandbox-policy-cwd'', cwd, lit ''--sandbox-policy'', json] @
     (if bwrap then [lit ''--use-bwrap-sandbox''] else []) @
     (if seccomp then [lit ''--apply-seccomp-then-exec''] else []) @
     (if proxy then [lit ''--allow-network-for-proxy''] else []) @ [lit ''--''] @ command"

definition reads_helper_args :: "'e linux_env \<Rightarrow> (ustr list \<Rightarrow> landlock_command option) \<Rightarrow> bool" where
  "reads_helper_args env parse \<longleftrightarrow>
     (\<forall>cwd policy json bwrap seccomp proxy command. policy_to_json env policy = Some json \<longrightarrow>
        parse (helper_args cwd json bwrap seccomp proxy command) =
          Some \<lparr>sandbox_policy_cwd = cwd, sandbox_policy_arg = policy, use_bwrap_sandbox = bwrap,
                apply_seccomp_then_exec = seccomp, allow_network_for_proxy_arg = proxy, no_proc = False,
                command_arg = command\<rparr>)"

lemma core_writes_helper_args:
  "create_linux_sandbox_command_args policy_json command policy cwd bwrap proxy =
     helper_args cwd (policy_json policy) bwrap False proxy command"
  by (simp add: create_linux_sandbox_command_args_def helper_args_def)

lemma inner_is_helper_args:
  "build_inner_seccomp_command env cwd policy bwrap proxy command = Some inner \<Longrightarrow>
     \<exists>exe json. current_exe env = Some exe \<and> policy_to_json env policy = Some json \<and>
       inner = exe # helper_args cwd json bwrap bwrap proxy command"
  by (auto simp: build_inner_seccomp_command_def helper_args_def bind_eq_Some_conv)

lemma exec_restricted_shape:
  assumes "exec_restricted env c landlock = Some l"
  shows "\<exists>installed. l = ExecCommand installed (command_arg c) \<and>
    (\<not> has_full_network_access (sandbox_policy_arg c) \<or> allow_network_for_proxy_arg c \<longrightarrow> network_cut installed) \<and>
    (landlock \<and> \<not> has_full_disk_write_access (sandbox_policy_arg c) \<longrightarrow>
       (\<exists>ws. get_writable_roots_with_cwd env (sandbox_policy_arg c) (sandbox_policy_cwd c) = Some ws \<and>
          Landlock (landlock_rules (map root ws)) \<in> set installed))"
  using assms applied_restrictions
  by (fastforce simp: exec_restricted_def split: option.splits sum.splits if_splits)

text \<open>C6: the helper never lets a command have a network its policy does not grant. What the helper makes
  of the options core passes to it is either the command itself, under a filter that refuses every call
  that opens a connection and, without bubblewrap, under rules for its writable roots; or bubblewrap,
  which leaves the network of the host and starts the helper again, and that run makes of its own
  options the very command, under the filter. In a session with a managed network the filter is there
  whatever the policy.\<close>
theorem helper_cuts_network:
  assumes "reads_helper_args env parse" and "policy_to_json env policy = Some json"
    and "normal_roots env policy cwd"
    and "Option.bind (parse (create_linux_sandbox_command_args (\<lambda>_. json) command policy cwd bwrap proxy))
           (run_main env) = Some l"
  shows "case l of
    ExecCommand installed words \<Rightarrow>
      words = command \<and> (\<not> has_full_network_access policy \<or> proxy \<longrightarrow> network_cut installed) \<and>
      (\<not> has_full_disk_write_access policy \<longrightarrow>
         (\<exists>ws. get_writable_roots_with_cwd env policy cwd = Some ws \<and>
            Landlock (landlock_rules (map root ws)) \<in> set installed))
  | ExecBwrap argv \<Rightarrow>
      \<exists>flags exe inner. argv = lit ''bwrap'' # flags @ [lit ''--argv0'', lit ''codex-linux-sandbox'', lit ''--''] @ exe # inner \<and>
        lit ''--'' \<notin> set flags \<and>
        (\<not> has_full_network_access policy \<or> proxy \<longrightarrow> lit ''--unshare-net'' \<in> set flags) \<and>
        parse inner \<noteq> None \<and>
        (\<forall>again. Option.bind (parse inner) (run_main env) = Some again \<longrightarrow>
           (\<exists>installed. again = ExecCommand installed command \<and>
              (\<not> has_full_network_access policy \<or> proxy \<longrightarrow> network_cut installed)))"
proof -
  define c where "c = \<lparr>sandbox_policy_cwd = cwd, sandbox_policy_arg = policy, use_bwrap_sandbox = bwrap,
    apply_seccomp_then_exec = False, allow_network_for_proxy_arg = proxy, no_proc = False, command_arg = command\<rparr>"
  have l: "run_main env c = Some l"
    using assms(1,2,4) by (simp add: core_writes_helper_args reads_helper_args_def c_def)
  show ?thesis
  proof (cases "has_full_disk_write_access policy \<and> \<not> proxy \<or> \<not> bwrap")
    case True
    then obtain landlock where "exec_restricted env c landlock = Some l"
      "landlock \<or> has_full_disk_write_access policy"
      using l by (auto simp: run_main_def c_def split: if_splits)
    then show ?thesis
      using exec_restricted_shape [of env c landlock l] by (auto simp: c_def)
  next
    case False
    then obtain inner where inner: "build_inner_seccomp_command env cwd policy True proxy command = Some inner"
      and run: "run_bwrap_with_proc_fallback env cwd policy inner True proxy = Some l"
      using l by (auto simp: run_main_def c_def bind_eq_Some_conv split: if_splits)
    from inner_is_helper_args [OF inner] obtain exe json' where
      i: "policy_to_json env policy = Some json'" "inner = exe # helper_args cwd json' True True proxy command"
      by blast
    from run obtain proc argv where argv: "l = ExecBwrap argv"
      "build_bwrap_argv env inner policy cwd
         \<lparr>bo_mount_proc = proc, bo_network_mode = bwrap_network_mode_of policy proxy\<rparr> = Some argv"
      by (auto simp: run_bwrap_with_proc_fallback_def bind_eq_Some_conv)
    have isolated: "\<not> (has_full_disk_write_access policy \<and> bwrap_network_mode_of policy proxy = NetFullAccess)"
      using False by (auto simp: bwrap_network_mode_of_def)
    from bwrap_argv_shape [OF argv(2) assms(3)] isolated obtain flags where flags:
      "argv = lit ''bwrap'' # flags @ [lit ''--argv0'', lit ''codex-linux-sandbox'', lit ''--''] @ inner"
      "lit ''--'' \<notin> set flags" "should_unshare_network (bwrap_network_mode_of policy proxy) \<Longrightarrow> lit ''--unshare-net'' \<in> set flags"
      by auto
    define c' where "c' = \<lparr>sandbox_policy_cwd = cwd, sandbox_policy_arg = policy, use_bwrap_sandbox = True,
      apply_seccomp_then_exec = True, allow_network_for_proxy_arg = proxy, no_proc = False, command_arg = command\<rparr>"
    have parsed: "parse (helper_args cwd json' True True proxy command) = Some c'"
      using assms(1) i(1) by (simp add: reads_helper_args_def c'_def)
    have "\<exists>installed. again = ExecCommand installed command \<and>
        (\<not> has_full_network_access policy \<or> proxy \<longrightarrow> network_cut installed)" if "run_main env c' = Some again" for again
      using that exec_restricted_shape [of env c' False again] by (auto simp: run_main_def c'_def split: if_splits)
    moreover have "\<not> has_full_network_access policy \<or> proxy \<longrightarrow> lit ''--unshare-net'' \<in> set flags"
      using flags(3) by (auto simp: should_unshare_network_def bwrap_network_mode_of_def)
    ultimately show ?thesis
      using flags(1,2) parsed unfolding argv(1) i(2)
      by (simp, intro exI [of _ flags] exI [of _ exe] exI [of _ "helper_args cwd json' True True proxy command"]) simp
  qed
qed

text \<open>A session with a managed network and full access to the disk cannot start a command through
  bubblewrap: the probe for \<open>/proc\<close> runs with the network of the host, for which no arguments of
  bubblewrap are built, and the missing separator is a panic.\<close>

theorem managed_full_access_panics:
  assumes "has_full_disk_write_access (sandbox_policy_arg c)" and "allow_network_for_proxy_arg c"
    and "use_bwrap_sandbox c" and "\<not> apply_seccomp_then_exec c" and "\<not> no_proc c"
  shows "run_main env c = None"
proof -
  have "resolve_true_command env \<noteq> lit ''--''"
    by (auto simp: resolve_true_command_def str_ops split: option.splits dest!: find_Some_iff [THEN iffD1])
  then have "build_bwrap_argv env [resolve_true_command env] (sandbox_policy_arg c) cwd
      \<lparr>bo_mount_proc = True, bo_network_mode = NetFullAccess\<rparr> = None" for cwd
    using assms(1) by (simp add: build_bwrap_argv_def create_bwrap_command_args_def)
  then show ?thesis
    using assms by (simp add: run_main_def run_bwrap_with_proc_fallback_def preflight_proc_mount_support_def
        bind_eq_None_conv)
qed

definition managed_command :: landlock_command where
  "managed_command =
     \<lparr>sandbox_policy_cwd = lit ''/w'', sandbox_policy_arg = DangerFullAccess, use_bwrap_sandbox = True,
      apply_seccomp_then_exec = False, allow_network_for_proxy_arg = True, no_proc = False, command_arg = [lit ''ls'']\<rparr>"

theorem managed_full_access_panics_witness:
  "run_main linux_example managed_command = None"
  using managed_full_access_panics [of managed_command linux_example] by (simp add: managed_command_def)

definition example_parse :: "ustr list \<Rightarrow> landlock_command option" where
  "example_parse args =
     (case args of
        _ # cwd # _ # _ # rest \<Rightarrow>
          let flags = takeWhile (\<lambda>a. a \<noteq> lit ''--'') rest
          in Some \<lparr>sandbox_policy_cwd = cwd, sandbox_policy_arg = new_read_only_policy,
               use_bwrap_sandbox = lit ''--use-bwrap-sandbox'' \<in> set flags,
               apply_seccomp_then_exec = lit ''--apply-seccomp-then-exec'' \<in> set flags,
               allow_network_for_proxy_arg = lit ''--allow-network-for-proxy'' \<in> set flags, no_proc = False,
               command_arg = drop 1 (dropWhile (\<lambda>a. a \<noteq> lit ''--'') rest)\<rparr>
      | _ \<Rightarrow> None)"

lemma example_parse_reads: "reads_helper_args linux_example example_parse"
proof -
  have "example_parse (helper_args cwd json bwrap seccomp proxy command) =
      Some \<lparr>sandbox_policy_cwd = cwd, sandbox_policy_arg = new_read_only_policy, use_bwrap_sandbox = bwrap,
        apply_seccomp_then_exec = seccomp, allow_network_for_proxy_arg = proxy, no_proc = False,
        command_arg = command\<rparr>" for cwd json bwrap seccomp proxy command
    by (cases bwrap; cases seccomp; cases proxy) (simp_all add: example_parse_def helper_args_def Let_def lit_def)
  then show ?thesis
    by (simp add: reads_helper_args_def)
qed

theorem helper_cuts_network_witness:
  "\<exists>installed. Option.bind (example_parse (create_linux_sandbox_command_args (\<lambda>_. []) [lit ''ls''] new_read_only_policy
        (lit ''/w'') False False)) (run_main linux_example) = Some (ExecCommand installed [lit ''ls'']) \<and>
     network_cut installed"
proof -
  have json: "policy_to_json linux_example new_read_only_policy = Some []"
    by simp
  have roots: "normal_roots linux_example new_read_only_policy (lit ''/w'')"
    by (simp add: normal_roots_def new_read_only_policy_def)
  obtain installed where run: "Option.bind (example_parse (create_linux_sandbox_command_args (\<lambda>_. []) [lit ''ls'']
      new_read_only_policy (lit ''/w'') False False)) (run_main linux_example) = Some (ExecCommand installed [lit ''ls''])"
    using example_parse_reads
    by (simp add: core_writes_helper_args reads_helper_args_def run_main_def exec_restricted_def
        apply_sandbox_policy_to_current_thread_def should_install_network_seccomp_def set_no_new_privs_def
        install_network_seccomp_filter_on_current_thread_def install_filesystem_landlock_rules_on_current_thread_def
        new_read_only_policy_def Let_def) (simp add: lit_def)
  then show ?thesis
    using helper_cuts_network [OF example_parse_reads json roots run] by (simp add: new_read_only_policy_def)
qed

end
