(* ===== verification/Seatbelt.thy ===== *)
theory Seatbelt
  imports LinuxSandbox NetworkProxy
begin

text \<open>
  The macOS sandbox: the environment that sends the requests of a command to the network proxy
  (\<open>network-proxy/src/proxy.rs\<close>), the extensions of a profile (\<open>core/src/seatbelt_permissions.rs\<close>)
  and the profile and arguments of \<open>sandbox-exec\<close> (\<open>core/src/seatbelt.rs\<close>). The profile texts kept
  in files of their own, the real path of a path, the cache folder of the user and the url crate are
  the record \<open>seatbelt_env\<close>.
\<close>

section \<open>Addresses as text\<close>

text \<open>\<open>Display\<close> of the standard library for addresses.\<close>

definition show_ipv4 :: "ipv4 \<Rightarrow> ustr" where
  "show_ipv4 a = join_with (lit ''.'') (map (\<lambda>i. show_nat (octet a i)) [0, 1, 2, 3])"

definition hex_char :: "nat \<Rightarrow> nat" where
  "hex_char d = (if d < 10 then 48 + d else 87 + d)"

fun show_hex :: "nat \<Rightarrow> ustr" where
  "show_hex n = (if n < 16 then [hex_char n] else show_hex (n div 16) @ [hex_char (n mod 16)])"

text \<open>The first longest run of zero segments: its start and length.\<close>

fun zero_run :: "nat \<Rightarrow> nat \<times> nat \<Rightarrow> nat \<times> nat \<Rightarrow> nat list \<Rightarrow> nat \<times> nat" where
  "zero_run i longest current [] = longest"
| "zero_run i longest (start, len) (seg # segs) =
     (if seg = 0 then
        let current = (if len = 0 then i else start, len + 1)
        in zero_run (i + 1) (if snd current > snd longest then current else longest) current segs
      else zero_run (i + 1) longest (0, 0) segs)"

definition show_segments :: "nat list \<Rightarrow> ustr" where
  "show_segments segs = join_with (lit '':'') (map show_hex segs)"

definition show_ipv6 :: "ipv6 \<Rightarrow> ustr" where
  "show_ipv6 a =
     (let segs = map (\<lambda>i. unat (segment a i)) [0, 1, 2, 3, 4, 5, 6, 7]
      in if take 6 segs = [0, 0, 0, 0, 0, 65535] then lit ''::ffff:'' @ show_ipv4 (ucast a)
         else (case zero_run 0 (0, 0) (0, 0) segs of
                 (start, len) \<Rightarrow>
                   if len > 1 then show_segments (take start segs) @ lit ''::'' @ show_segments (drop (start + len) segs)
                   else show_segments segs))"

fun show_ip :: "ip_addr \<Rightarrow> ustr" where
  "show_ip (V4 a) = show_ipv4 a"
| "show_ip (V6 a) = lit ''['' @ show_ipv6 a @ lit '']''"

definition show_socket_addr :: "socket_addr \<Rightarrow> ustr" where
  "show_socket_addr a = show_ip (fst a) @ lit '':'' @ show_nat (unat (snd a))"

section \<open>The environment of a proxied command\<close>

record proxy_endpoints =
  http_addr :: socket_addr
  socks_addr :: socket_addr
  socks_enabled :: bool
  local_binding :: bool

definition proxy_url_env_keys :: "ustr list" where
  "proxy_url_env_keys = map lit
     [''HTTP_PROXY'', ''HTTPS_PROXY'', ''ALL_PROXY'', ''FTP_PROXY'', ''YARN_HTTP_PROXY'', ''YARN_HTTPS_PROXY'',
      ''NPM_CONFIG_HTTP_PROXY'', ''NPM_CONFIG_HTTPS_PROXY'', ''NPM_CONFIG_PROXY'', ''BUNDLE_HTTP_PROXY'',
      ''BUNDLE_HTTPS_PROXY'', ''PIP_PROXY'', ''DOCKER_HTTP_PROXY'', ''DOCKER_HTTPS_PROXY'']"

definition all_proxy_env_keys :: "ustr list" where
  "all_proxy_env_keys = map lit [''ALL_PROXY'', ''all_proxy'']"

definition allow_local_binding_env_key :: ustr where
  "allow_local_binding_env_key = lit ''CODEX_NETWORK_ALLOW_LOCAL_BINDING''"

definition ftp_proxy_env_keys :: "ustr list" where
  "ftp_proxy_env_keys = map lit [''FTP_PROXY'', ''ftp_proxy'']"

definition no_proxy_env_keys :: "ustr list" where
  "no_proxy_env_keys = map lit
     [''NO_PROXY'', ''no_proxy'', ''npm_config_noproxy'', ''NPM_CONFIG_NOPROXY'', ''YARN_NO_PROXY'', ''BUNDLE_NO_PROXY'']"

definition default_no_proxy_value :: ustr where
  "default_no_proxy_value =
     lit ''localhost,127.0.0.1,::1,'' @ lit ''*.local,.local,'' @
     lit ''169.254.0.0/16,10.0.0.0/8,172.16.0.0/12,192.168.0.0/16''"

definition http_proxy_env_keys :: "ustr list" where
  "http_proxy_env_keys = map lit
     [''HTTP_PROXY'', ''HTTPS_PROXY'', ''http_proxy'', ''https_proxy'', ''YARN_HTTP_PROXY'', ''YARN_HTTPS_PROXY'',
      ''npm_config_http_proxy'', ''npm_config_https_proxy'', ''npm_config_proxy'', ''NPM_CONFIG_HTTP_PROXY'',
      ''NPM_CONFIG_HTTPS_PROXY'', ''NPM_CONFIG_PROXY'', ''BUNDLE_HTTP_PROXY'', ''BUNDLE_HTTPS_PROXY'', ''PIP_PROXY'',
      ''DOCKER_HTTP_PROXY'', ''DOCKER_HTTPS_PROXY'']"

definition proxy_url_env_value :: "(ustr \<rightharpoonup> ustr) \<Rightarrow> ustr \<Rightarrow> ustr option" where
  "proxy_url_env_value env canonical_key =
     (case env canonical_key of Some v \<Rightarrow> Some v | None \<Rightarrow> env (to_ascii_lowercase canonical_key))"

definition has_proxy_url_env_vars :: "(ustr \<rightharpoonup> ustr) \<Rightarrow> bool" where
  "has_proxy_url_env_vars env \<longleftrightarrow>
     list_ex (\<lambda>key. case proxy_url_env_value env key of Some v \<Rightarrow> trim v \<noteq> [] | None \<Rightarrow> False) proxy_url_env_keys"

fun set_env_keys :: "(ustr \<rightharpoonup> ustr) \<Rightarrow> ustr list \<Rightarrow> ustr \<Rightarrow> (ustr \<rightharpoonup> ustr)" where
  "set_env_keys env [] v = env"
| "set_env_keys env (key # keys) v = set_env_keys (env(key \<mapsto> v)) keys v"

definition proxy_username_for_attempt_id :: "ustr \<Rightarrow> ustr" where
  "proxy_username_for_attempt_id attempt_id = lit ''codex-net-attempt-'' @ attempt_id"

text \<open>The last step is made on macOS only.\<close>

definition apply_proxy_env_overrides ::
  "target_os \<Rightarrow> (ustr \<rightharpoonup> ustr) \<Rightarrow> proxy_endpoints \<Rightarrow> ustr option \<Rightarrow> (ustr \<rightharpoonup> ustr)" where
  "apply_proxy_env_overrides target env proxy attempt_id =
     (let http_url = (case attempt_id of
            Some a \<Rightarrow> lit ''http://'' @ proxy_username_for_attempt_id a @ lit ''@'' @ show_socket_addr (http_addr proxy)
          | None \<Rightarrow> lit ''http://'' @ show_socket_addr (http_addr proxy));
          socks_url = lit ''socks5h://'' @ show_socket_addr (socks_addr proxy);
          env = env(allow_local_binding_env_key \<mapsto> (if local_binding proxy then lit ''1'' else lit ''0''));
          env = set_env_keys env http_proxy_env_keys http_url;
          env = set_env_keys env no_proxy_env_keys default_no_proxy_value;
          env = env(lit ''ELECTRON_GET_USE_PROXY'' \<mapsto> lit ''true'');
          all_url = (if socks_enabled proxy \<and> attempt_id = None then socks_url else http_url);
          env = set_env_keys env all_proxy_env_keys all_url;
          env = set_env_keys env ftp_proxy_env_keys all_url
      in if target = MacOS \<and> socks_enabled proxy \<and> env (lit ''GIT_SSH_COMMAND'') = None
         then env(lit ''GIT_SSH_COMMAND'' \<mapsto> lit ''ssh -o ProxyCommand='' @ [39] @ lit ''nc -X 5 -x '' @
                show_socket_addr (socks_addr proxy) @ lit '' %h %p'' @ [39])
         else env)"

section \<open>Extensions of a profile\<close>

datatype macos_preferences = PreferencesReadOnly | PreferencesReadWrite | PreferencesNone

datatype macos_automation = AutomationNone | AutomationAll | BundleIds "ustr list"

record profile_extensions =
  macos_preferences :: macos_preferences
  macos_automation :: macos_automation
  macos_accessibility :: bool
  macos_calendar :: bool

definition profile_extensions_default :: profile_extensions where
  "profile_extensions_default =
     \<lparr>macos_preferences = PreferencesReadOnly, macos_automation = AutomationNone, macos_accessibility = False,
      macos_calendar = False\<rparr>"

definition is_ascii_alphanumeric :: "nat \<Rightarrow> bool" where
  "is_ascii_alphanumeric c \<longleftrightarrow> is_ascii_digit c \<or> 65 \<le> c \<and> c \<le> 90 \<or> 97 \<le> c \<and> c \<le> 122"

definition is_valid_bundle_id :: "ustr \<Rightarrow> bool" where
  "is_valid_bundle_id bundle_id \<longleftrightarrow>
     \<not> (byte_len bundle_id < 3 \<or> 46 \<notin> set bundle_id) \<and>
     list_all (\<lambda>c. is_ascii_alphanumeric c \<or> c = 46 \<or> c = 45 \<or> c = 95) bundle_id"

definition normalize_bundle_ids :: "ustr list \<Rightarrow> ustr list" where
  "normalize_bundle_ids bundle_ids = sort (remdups (filter is_valid_bundle_id (map trim bundle_ids)))"

definition normalized_extensions :: "profile_extensions \<Rightarrow> profile_extensions" where
  "normalized_extensions e =
     (case macos_automation e of
        BundleIds bundle_ids \<Rightarrow>
          (let ids = normalize_bundle_ids bundle_ids
           in e\<lparr>macos_automation := if ids = [] then AutomationNone else BundleIds ids\<rparr>)
      | _ \<Rightarrow> e)"

definition quoted :: "ustr \<Rightarrow> ustr" where
  "quoted s = [34] @ s @ [34]"

definition preferences_read_clauses :: "ustr list" where
  "preferences_read_clauses =
     [lit ''(allow ipc-posix-shm-read* (ipc-posix-name-prefix '' @ quoted (lit ''apple.cfprefs.'') @ lit ''))'',
      lit ''(allow mach-lookup'' @ newline @ lit ''    (global-name '' @ quoted (lit ''com.apple.cfprefsd.daemon'') @
        lit '')'' @ newline @ lit ''    (global-name '' @ quoted (lit ''com.apple.cfprefsd.agent'') @ lit '')'' @ newline @
        lit ''    (local-name '' @ quoted (lit ''com.apple.cfprefsd.agent'') @ lit ''))'',
      lit ''(allow user-preference-read)'']"

definition preferences_clauses :: "macos_preferences \<Rightarrow> ustr list" where
  "preferences_clauses p =
     (case p of
        PreferencesNone \<Rightarrow> []
      | PreferencesReadOnly \<Rightarrow> preferences_read_clauses
      | PreferencesReadWrite \<Rightarrow> preferences_read_clauses @
          [lit ''(allow user-preference-write)'',
           lit ''(allow ipc-posix-shm-write-data (ipc-posix-name-prefix '' @ quoted (lit ''apple.cfprefs.'') @ lit ''))'',
           lit ''(allow ipc-posix-shm-write-create (ipc-posix-name-prefix '' @ quoted (lit ''apple.cfprefs.'') @ lit ''))''])"

definition destination_line :: "ustr \<Rightarrow> ustr" where
  "destination_line bundle_id = lit ''    (appleevent-destination '' @ quoted bundle_id @ lit '')''"

definition automation_clauses :: "macos_automation \<Rightarrow> ustr list" where
  "automation_clauses a =
     (case a of
        AutomationNone \<Rightarrow> []
      | AutomationAll \<Rightarrow>
          [lit ''(allow mach-lookup'' @ newline @ lit ''  (global-name '' @
             quoted (lit ''com.apple.coreservices.launchservicesd'') @ lit '')'' @ newline @ lit ''  (global-name '' @
             quoted (lit ''com.apple.coreservices.appleevents'') @ lit ''))'',
           lit ''(allow appleevent-send)'']
      | BundleIds ids \<Rightarrow>
          if ids = [] then []
          else [lit ''(allow mach-lookup (global-name '' @ quoted (lit ''com.apple.coreservices.appleevents'') @ lit ''))'',
                lit ''(allow appleevent-send'' @ newline @ join_with newline (map destination_line ids) @ newline @ lit '')''])"

text \<open>The text of the extensions; their parameters are always empty.\<close>

definition build_seatbelt_extensions :: "profile_extensions \<Rightarrow> ustr" where
  "build_seatbelt_extensions extensions =
     (let e = normalized_extensions extensions;
          clauses = preferences_clauses (macos_preferences e) @ automation_clauses (macos_automation e) @
            (if macos_accessibility e
             then [lit ''(allow mach-lookup (local-name '' @ quoted (lit ''com.apple.axserver'') @ lit ''))''] else []) @
            (if macos_calendar e
             then [lit ''(allow mach-lookup (global-name '' @ quoted (lit ''com.apple.CalendarAgent'') @ lit ''))''] else [])
      in if clauses = [] then []
         else lit ''; macOS permission profile extensions'' @ newline @ join_with newline clauses @ newline)"

section \<open>Ports of the proxy\<close>

record parsed_url =
  url_scheme :: ustr
  url_host :: "ustr option"
  url_port :: "16 word option"

record 'e seatbelt_env = "'e path_env" +
  real_path :: "path \<Rightarrow> path option"
  user_cache_dir :: "path option"
  parse_url :: "ustr \<Rightarrow> parsed_url option"
  base_policy :: ustr
  network_policy :: ustr

definition is_loopback_host :: "ustr \<Rightarrow> bool" where
  "is_loopback_host host \<longleftrightarrow>
     to_ascii_lowercase host = lit ''localhost'' \<or> host = lit ''127.0.0.1'' \<or> host = lit ''::1''"

definition proxy_scheme_default_port :: "ustr \<Rightarrow> 16 word" where
  "proxy_scheme_default_port scheme =
     (if scheme = lit ''https'' then 443
      else if scheme \<in> set (map lit [''socks5'', ''socks5h'', ''socks4'', ''socks4a'']) then 1080
      else 80)"

text \<open>The port that one variable of the environment names, if it is on this machine.\<close>

definition loopback_port :: "'e seatbelt_env \<Rightarrow> (ustr \<rightharpoonup> ustr) \<Rightarrow> ustr \<Rightarrow> 16 word option" where
  "loopback_port senv env key =
     (case proxy_url_env_value env key of
        None \<Rightarrow> None
      | Some raw \<Rightarrow>
          let trimmed = trim raw
          in if trimmed = [] then None
             else (let candidate = (if str_contains trimmed (lit ''://'') then trimmed else lit ''http://'' @ trimmed)
                   in case parse_url senv candidate of
                        None \<Rightarrow> None
                      | Some parsed \<Rightarrow>
                          (case url_host parsed of
                             None \<Rightarrow> None
                           | Some host \<Rightarrow>
                               if \<not> is_loopback_host host then None
                               else (case url_port parsed of
                                       Some p \<Rightarrow> Some p
                                     | None \<Rightarrow> Some (proxy_scheme_default_port (to_ascii_lowercase (url_scheme parsed)))))))"

definition proxy_loopback_ports_from_env :: "'e seatbelt_env \<Rightarrow> (ustr \<rightharpoonup> ustr) \<Rightarrow> 16 word list" where
  "proxy_loopback_ports_from_env senv env =
     sort (remdups (List.map_filter (loopback_port senv env) proxy_url_env_keys))"

definition local_binding_enabled :: "(ustr \<rightharpoonup> ustr) \<Rightarrow> bool" where
  "local_binding_enabled env \<longleftrightarrow>
     (case env allow_local_binding_env_key of
        None \<Rightarrow> False
      | Some v \<Rightarrow> trim v = lit ''1'' \<or> to_ascii_lowercase (trim v) = lit ''true'')"

record proxy_policy_inputs =
  ports :: "16 word list"
  has_proxy_config :: bool
  allow_binding :: bool

definition proxy_policy_inputs_of :: "'e seatbelt_env \<Rightarrow> proxy_endpoints option \<Rightarrow> proxy_policy_inputs" where
  "proxy_policy_inputs_of senv net =
     (case net of
        Some proxy \<Rightarrow>
          (let env = apply_proxy_env_overrides (os senv) Map.empty proxy None
           in \<lparr>ports = proxy_loopback_ports_from_env senv env, has_proxy_config = has_proxy_url_env_vars env,
               allow_binding = local_binding_enabled env\<rparr>)
      | None \<Rightarrow> \<lparr>ports = [], has_proxy_config = False, allow_binding = False\<rparr>)"

definition localhost_clause :: "ustr \<Rightarrow> ustr \<Rightarrow> ustr \<Rightarrow> ustr" where
  "localhost_clause operation side port =
     lit ''(allow '' @ operation @ lit '' ('' @ side @ lit '' ip '' @ quoted (lit ''localhost:'' @ port) @ lit ''))'' @ newline"

definition dynamic_network_policy ::
  "'e seatbelt_env \<Rightarrow> sandbox_policy \<Rightarrow> bool \<Rightarrow> proxy_policy_inputs \<Rightarrow> ustr" where
  "dynamic_network_policy senv policy enforce_managed_network proxy =
     (if ports proxy \<noteq> [] then
        lit ''; allow outbound access only to configured loopback proxy endpoints'' @ newline @
        (if allow_binding proxy then
           lit ''; allow localhost-only binding and loopback traffic'' @ newline @
           localhost_clause (lit ''network-bind'') (lit ''local'') (lit ''*'') @
           localhost_clause (lit ''network-inbound'') (lit ''local'') (lit ''*'') @
           localhost_clause (lit ''network-outbound'') (lit ''remote'') (lit ''*'')
         else []) @
        concat (map (\<lambda>port. localhost_clause (lit ''network-outbound'') (lit ''remote'') (show_nat (unat port)))
          (ports proxy)) @
        network_policy senv
      else if has_proxy_config proxy then []
      else if enforce_managed_network then []
      else if has_full_network_access policy
      then lit ''(allow network-outbound)'' @ newline @ lit ''(allow network-inbound)'' @ newline @ network_policy senv
      else [])"

section \<open>The profile and the arguments\<close>

definition canonical_or_self :: "'e seatbelt_env \<Rightarrow> path \<Rightarrow> path" where
  "canonical_or_self senv p = (case real_path senv p of Some q \<Rightarrow> q | None \<Rightarrow> p)"

definition subpath_param :: "ustr \<Rightarrow> ustr" where
  "subpath_param param = lit ''(subpath (param '' @ quoted param @ lit ''))''"

definition root_param :: "nat \<Rightarrow> ustr" where
  "root_param index = lit ''WRITABLE_ROOT_'' @ show_nat index"

definition ro_param :: "nat \<Rightarrow> nat \<Rightarrow> ustr" where
  "ro_param index subpath_index = root_param index @ lit ''_RO_'' @ show_nat subpath_index"

definition readable_param :: "nat \<Rightarrow> ustr" where
  "readable_param index = lit ''READABLE_ROOT_'' @ show_nat index"

text \<open>The clause and the parameters of one writable root.\<close>

definition root_params :: "'e seatbelt_env \<Rightarrow> nat \<times> writable_root \<Rightarrow> (ustr \<times> path) list" where
  "root_params senv iw =
     (root_param (fst iw), canonical_or_self senv (root (snd iw))) #
     map (\<lambda>(j, s). (ro_param (fst iw) j, canonical_or_self senv s)) (enumerate 0 (read_only_subpaths (snd iw)))"

definition root_clause :: "nat \<times> writable_root \<Rightarrow> ustr" where
  "root_clause iw =
     (if read_only_subpaths (snd iw) = [] then subpath_param (root_param (fst iw))
      else lit ''(require-all '' @
           join_with [32] (subpath_param (root_param (fst iw)) #
             map (\<lambda>(j, s). lit ''(require-not '' @ subpath_param (ro_param (fst iw) j) @ lit '')'')
               (enumerate 0 (read_only_subpaths (snd iw)))) @
           lit '' )'')"

definition file_write_policy :: "'e seatbelt_env \<Rightarrow> sandbox_policy \<Rightarrow> ustr \<Rightarrow> (ustr \<times> (ustr \<times> path) list) option" where
  "file_write_policy senv policy cwd =
     (if has_full_disk_write_access policy
      then Some (lit ''(allow file-write* (regex #'' @ quoted (lit ''^/'') @ lit ''))'', [])
      else map_option (\<lambda>roots.
        let indexed = enumerate 0 roots
        in if indexed = [] then ([], [])
           else (lit ''(allow file-write*'' @ newline @ join_with [32] (map root_clause indexed) @ newline @ lit '')'',
                 concat (map (root_params senv) indexed)))
        (get_writable_roots_with_cwd senv policy cwd))"

definition file_read_policy :: "'e seatbelt_env \<Rightarrow> sandbox_policy \<Rightarrow> ustr \<Rightarrow> (ustr \<times> (ustr \<times> path) list) option" where
  "file_read_policy senv policy cwd =
     (if has_full_disk_read_access policy
      then Some (lit ''; allow read-only file operations'' @ newline @ lit ''(allow file-read*)'', [])
      else map_option (\<lambda>roots.
        let indexed = enumerate 0 roots
        in if indexed = [] then ([], [])
           else (lit ''; allow read-only file operations'' @ newline @ lit ''(allow file-read*'' @ newline @
                   join_with [32] (map (\<lambda>(i, _). subpath_param (readable_param i)) indexed) @ newline @ lit '')'',
                 map (\<lambda>(i, r). (readable_param i, canonical_or_self senv r)) indexed))
        (get_readable_roots_with_cwd senv policy cwd))"

definition macos_dir_params :: "'e seatbelt_env \<Rightarrow> (ustr \<times> path) list" where
  "macos_dir_params senv =
     (case user_cache_dir senv of Some p \<Rightarrow> [(lit ''DARWIN_USER_CACHE_DIR'', p)] | None \<Rightarrow> [])"

definition definition_arg :: "ustr \<times> path \<Rightarrow> ustr" where
  "definition_arg kv = lit ''-D'' @ fst kv @ lit ''='' @ show_path (snd kv)"

definition create_seatbelt_command_args_with_extensions ::
  "'e seatbelt_env \<Rightarrow> ustr list \<Rightarrow> sandbox_policy \<Rightarrow> ustr \<Rightarrow> bool \<Rightarrow> proxy_endpoints option \<Rightarrow> profile_extensions option
    \<Rightarrow> ustr list option" where
  "create_seatbelt_command_args_with_extensions senv command policy cwd enforce_managed_network net extensions =
     Option.bind (file_write_policy senv policy cwd) (\<lambda>(write_policy, write_params).
     map_option (\<lambda>(read_policy, read_params).
       let net_policy = dynamic_network_policy senv policy enforce_managed_network (proxy_policy_inputs_of senv net);
           extension_policy = build_seatbelt_extensions
             (case extensions of Some e \<Rightarrow> e | None \<Rightarrow> profile_extensions_default);
           full_policy = base_policy senv @ newline @ read_policy @ newline @ write_policy @ newline @ net_policy @
             (if extension_policy = [] then [] else newline @ extension_policy);
           dir_params = read_params @ write_params @ macos_dir_params senv
       in [lit ''-p'', full_policy] @ map definition_arg dir_params @ [lit ''--''] @ command)
       (file_read_policy senv policy cwd))"

definition create_seatbelt_command_args ::
  "'e seatbelt_env \<Rightarrow> ustr list \<Rightarrow> sandbox_policy \<Rightarrow> ustr \<Rightarrow> bool \<Rightarrow> proxy_endpoints option \<Rightarrow> ustr list option" where
  "create_seatbelt_command_args senv command policy cwd enforce_managed_network net =
     create_seatbelt_command_args_with_extensions senv command policy cwd enforce_managed_network net None"

section \<open>What the write clauses allow\<close>

text \<open>What the profile language documents of the filters used here, over the values of the parameters.\<close>

datatype path_filter = SubpathOf ustr | RequireAll "path_filter list" | RequireNot path_filter

fun show_filter :: "path_filter \<Rightarrow> ustr" where
  "show_filter (SubpathOf param) = subpath_param param"
| "show_filter (RequireAll fs) = lit ''(require-all '' @ join_with [32] (map show_filter fs) @ lit '' )''"
| "show_filter (RequireNot f) = lit ''(require-not '' @ show_filter f @ lit '')''"

fun filter_matches :: "(ustr \<rightharpoonup> path) \<Rightarrow> path \<Rightarrow> path_filter \<Rightarrow> bool" where
  "filter_matches params p (SubpathOf param) \<longleftrightarrow>
     (case params param of Some root_path \<Rightarrow> path_starts_with p root_path | None \<Rightarrow> False)"
| "filter_matches params p (RequireAll fs) \<longleftrightarrow> list_all (filter_matches params p) fs"
| "filter_matches params p (RequireNot f) \<longleftrightarrow> \<not> filter_matches params p f"

definition root_filter :: "nat \<times> writable_root \<Rightarrow> path_filter" where
  "root_filter iw =
     (if read_only_subpaths (snd iw) = [] then SubpathOf (root_param (fst iw))
      else RequireAll (SubpathOf (root_param (fst iw)) #
             map (\<lambda>(j, s). RequireNot (SubpathOf (ro_param (fst iw) j))) (enumerate 0 (read_only_subpaths (snd iw)))))"

lemma root_clause_shows: "root_clause iw = show_filter (root_filter iw)"
  by (simp add: root_clause_def root_filter_def comp_def case_prod_unfold)

text \<open>The names of the parameters are told apart by their numbers.\<close>

lemma show_nat_digits: "c \<in> set (show_nat n) \<Longrightarrow> is_ascii_digit c"
proof (induction n rule: show_nat.induct)
  case (1 n)
  then show ?case
    using show_nat.simps [of n] by (cases "n < 10") (auto simp: is_ascii_digit_def)
qed

lemma show_nat_value: "foldl (\<lambda>a c. a * 10 + (c - 48)) 0 (show_nat n) = n"
proof (induction n rule: show_nat.induct)
  case (1 n)
  then show ?case
    using show_nat.simps [of n] by (cases "n < 10") simp_all
qed

lemma show_nat_inj: "show_nat m = show_nat n \<longleftrightarrow> m = n"
  using show_nat_value by metis

lemma numbers_apart:
  assumes "show_nat m @ xs = show_nat n @ ys" and "\<forall>c \<in> set (take 1 xs @ take 1 ys). \<not> is_ascii_digit c"
  shows "m = n \<and> xs = ys"
proof -
  have digits: "takeWhile is_ascii_digit (show_nat k @ zs) = show_nat k"
    if "\<forall>c \<in> set (take 1 zs). \<not> is_ascii_digit c" for k zs
    using that show_nat_digits by (cases zs) (auto simp: takeWhile_append takeWhile_eq_all_conv)
  have "show_nat m = show_nat n"
    using digits [of xs m] digits [of ys n] assms by simp
  then show ?thesis
    using assms(1) by (simp add: show_nat_inj)
qed

fun param_name :: "nat \<times> nat option \<Rightarrow> ustr" where
  "param_name (i, None) = root_param i"
| "param_name (i, Some j) = ro_param i j"

lemma param_name_inj: "param_name a = param_name b \<longleftrightarrow> a = b"
proof
  assume same: "param_name a = param_name b"
  obtain i s where a: "a = (i, s)"
    by (cases a)
  obtain k t where b: "b = (k, t)"
    by (cases b)
  define tail where "tail x = (case x of None \<Rightarrow> [] | Some j \<Rightarrow> lit ''_RO_'' @ show_nat j)" for x :: "nat option"
  have name: "param_name (n, x) = lit ''WRITABLE_ROOT_'' @ show_nat n @ tail x" for n x
    by (cases x) (simp_all add: tail_def root_param_def ro_param_def)
  have "\<forall>c \<in> set (take 1 (tail s) @ take 1 (tail t)). \<not> is_ascii_digit c"
    by (auto simp: tail_def lit_def is_ascii_digit_def split: option.splits)
  then have "i = k \<and> tail s = tail t"
    using same numbers_apart [of i "tail s" k "tail t"] unfolding a b name by simp
  moreover have "tail s = tail t \<Longrightarrow> s = t"
    by (auto simp: tail_def show_nat_inj lit_def split: option.splits)
  ultimately show "a = b"
    by (simp add: a b)
qed simp

lemma other_params:
  "readable_param i \<noteq> param_name k" "lit ''DARWIN_USER_CACHE_DIR'' \<noteq> param_name k"
  by (cases k; cases "snd k"; simp add: readable_param_def root_param_def ro_param_def lit_def)+

definition param_slots :: "nat \<times> writable_root \<Rightarrow> (nat \<times> nat option) list" where
  "param_slots iw = (fst iw, None) # map (\<lambda>j. (fst iw, Some j)) [0 ..< length (read_only_subpaths (snd iw))]"

lemma map_index: "map (\<lambda>x. f (fst x)) (enumerate 0 xs) = map f [0 ..< length xs]"
  by (rule nth_equalityI) (simp_all add: nth_enumerate_eq)

lemma root_params_names: "map fst (root_params senv iw) = map param_name (param_slots iw)"
  by (simp add: root_params_def param_slots_def comp_def case_prod_unfold map_index)

lemma slots_distinct: "distinct (concat (map param_slots (enumerate n ws)))"
proof (induction ws arbitrary: n)
  case (Cons w ws)
  have later: "k \<ge> Suc n" if "(k, s) \<in> set (concat (map param_slots (enumerate (Suc n) ws)))" for k s
    using that by (auto simp: param_slots_def in_set_enumerate_eq)
  have "distinct (param_slots (n, w))"
    by (auto simp: param_slots_def distinct_map inj_on_def)
  moreover have "set (param_slots (n, w)) \<inter> set (concat (map param_slots (enumerate (Suc n) ws))) = {}"
    using later by (fastforce simp: param_slots_def)
  ultimately show ?case
    using Cons.IH by simp
qed simp

lemma params_distinct: "distinct (map fst (concat (map (root_params senv) (enumerate 0 ws))))"
proof -
  have "map fst (concat (map (root_params senv) (enumerate 0 ws))) =
      map param_name (concat (map param_slots (enumerate 0 ws)))"
    by (simp add: map_concat comp_def root_params_names)
  then show ?thesis
    using slots_distinct by (simp add: distinct_map inj_on_def param_name_inj)
qed

lemma map_of_params:
  assumes "(k, v) \<in> set (concat (map (root_params senv) (enumerate 0 ws)))"
    and "\<And>x. x \<in> set (map fst others) \<Longrightarrow> x \<noteq> k"
  shows "map_of (others @ concat (map (root_params senv) (enumerate 0 ws)) @ rest) k = Some v"
proof -
  have "map_of others k = None"
    using assms(2) by (auto simp: map_of_eq_None_iff)
  moreover have "map_of (concat (map (root_params senv) (enumerate 0 ws))) k = Some v"
    by (rule map_of_is_SomeI [OF params_distinct assms(1)])
  ultimately show ?thesis
    by (simp add: map_add_def)
qed

text \<open>The filter of a root matches the paths below it outside its protected subpaths, after every path
  was made real.\<close>

lemma root_filter_matches:
  assumes "params (root_param i) = Some (canonical_or_self senv (root w))"
    and "\<And>j. j < length (read_only_subpaths w) \<Longrightarrow>
      params (ro_param i j) = Some (canonical_or_self senv (read_only_subpaths w ! j))"
  shows "filter_matches params p (root_filter (i, w)) \<longleftrightarrow>
    path_starts_with p (canonical_or_self senv (root w)) \<and>
    list_all (\<lambda>s. \<not> path_starts_with p (canonical_or_self senv s)) (read_only_subpaths w)"
proof -
  have "list_all (filter_matches params p)
      (map (\<lambda>(j, s). RequireNot (SubpathOf (ro_param i j))) (enumerate 0 (read_only_subpaths w))) \<longleftrightarrow>
    list_all (\<lambda>s. \<not> path_starts_with p (canonical_or_self senv s)) (read_only_subpaths w)"
    using assms(2) by (simp add: list_all_length nth_enumerate_eq)
  then show ?thesis
    using assms(1) by (simp add: root_filter_def)
qed

lemma read_params_apart:
  assumes "file_read_policy senv policy cwd = Some (text, read_params)"
  shows "param_name k \<notin> set (map fst read_params)"
proof
  assume "param_name k \<in> set (map fst read_params)"
  moreover have "set (map fst read_params) \<subseteq> range readable_param"
    using assms by (auto simp: file_read_policy_def Let_def split: if_splits)
  ultimately show False
    using other_params(1) [of _ k] by (metis imageE subsetD)
qed


section \<open>The network of a proxied command\<close>

lemma set_env_keys_apply: "set_env_keys env keys v k = (if k \<in> set keys then Some v else env k)"
  by (induction keys arbitrary: env) auto

lemma show_nat_hd: "is_ascii_digit (hd (show_nat n))"
  using show_nat_digits [of "hd (show_nat n)" n] show_nat_value [of n] show_nat.simps [of n]
  by (metis append_is_Nil_conv hd_in_set list.distinct(1))

lemma show_nat_ne: "show_nat n \<noteq> []"
  by (subst show_nat.simps) simp

text \<open>The documented reading of the URLs the proxy writes: a scheme with a default port drops it, and an
  IPv6 host keeps its brackets.\<close>

definition reads_urls :: "'e seatbelt_env \<Rightarrow> bool" where
  "reads_urls senv \<longleftrightarrow>
     (\<forall>scheme addr. scheme \<in> {lit ''http'', lit ''socks5h''} \<longrightarrow>
        parse_url senv (scheme @ lit ''://'' @ show_socket_addr addr) =
          Some \<lparr>url_scheme = scheme, url_host = Some (show_ip (fst addr)),
                url_port = (if scheme = lit ''http'' \<and> snd addr = 80 then None else Some (snd addr))\<rparr>)"

definition local_v4 :: "socket_addr \<Rightarrow> bool" where
  "local_v4 addr \<longleftrightarrow> (\<exists>a. fst addr = V4 a \<and> map (octet a) [0, 1, 2, 3] = [127, 0, 0, 1])"

lemma show_ipv4_digits: "show_ipv4 a = show_nat (octet a 0) @ 46 # show_nat (octet a 1) @ 46 #
    show_nat (octet a 2) @ 46 # show_nat (octet a 3)"
  by (simp add: show_ipv4_def lit_def)

lemma loopback_host_iff: "is_loopback_host (show_ip (fst addr)) \<longleftrightarrow> local_v4 addr"
proof (cases "fst addr")
  case (V4 a)
  let ?n = "show_nat"
  have first: "is_ascii_digit (hd (show_ipv4 a))"
    using show_nat_hd [of "octet a 0"] show_nat_ne by (simp add: show_ipv4_digits hd_append)
  have "hd (to_ascii_lowercase (lit ''localhost'')) = 108" "hd (lit ''::1'') = 58"
    by (simp_all add: str_ops)
  moreover have "hd (to_ascii_lowercase (show_ipv4 a)) = hd (show_ipv4 a)"
    using first show_nat_ne by (simp add: show_ipv4_digits to_ascii_lowercase_def hd_append hd_map ascii_lower_def is_ascii_digit_def)
  ultimately have "to_ascii_lowercase (show_ipv4 a) \<noteq> lit ''localhost''" "show_ipv4 a \<noteq> lit ''::1''"
    using first by (auto simp: str_ops)
  moreover have "lit ''127.0.0.1'' = ?n 127 @ 46 # ?n 0 @ 46 # ?n 0 @ 46 # ?n 1"
    by (simp add: lit_def show_nat.simps)
  moreover have "show_ipv4 a = ?n 127 @ 46 # ?n 0 @ 46 # ?n 0 @ 46 # ?n 1 \<longleftrightarrow>
      octet a 0 = 127 \<and> octet a 1 = 0 \<and> octet a 2 = 0 \<and> octet a 3 = 1"
  proof
    have dot: "\<not> is_ascii_digit 46"
      by (simp add: is_ascii_digit_def)
    assume "show_ipv4 a = ?n 127 @ 46 # ?n 0 @ 46 # ?n 0 @ 46 # ?n 1"
    then have same: "?n (octet a 0) @ 46 # ?n (octet a 1) @ 46 # ?n (octet a 2) @ 46 # ?n (octet a 3) =
        ?n 127 @ 46 # ?n 0 @ 46 # ?n 0 @ 46 # ?n 1"
      by (simp add: show_ipv4_digits)
    from numbers_apart [OF same] dot
    have one: "octet a 0 = 127" "?n (octet a 1) @ 46 # ?n (octet a 2) @ 46 # ?n (octet a 3) = ?n 0 @ 46 # ?n 0 @ 46 # ?n 1"
      by simp_all
    from numbers_apart [OF one(2)] dot
    have two: "octet a 1 = 0" "?n (octet a 2) @ 46 # ?n (octet a 3) = ?n 0 @ 46 # ?n 1"
      by simp_all
    from numbers_apart [OF two(2)] dot show "octet a 0 = 127 \<and> octet a 1 = 0 \<and> octet a 2 = 0 \<and> octet a 3 = 1"
      using one(1) two(1) by (simp add: show_nat_inj)
  qed (simp add: show_ipv4_digits)
  ultimately show ?thesis
    by (simp add: V4 is_loopback_host_def local_v4_def)
next
  case (V6 a)
  have "hd (to_ascii_lowercase (show_ip (V6 a))) = 91"
    by (simp add: to_ascii_lowercase_def lit_def ascii_lower_def)
  then have "to_ascii_lowercase (show_ip (V6 a)) \<noteq> lit ''localhost''"
    by (auto simp: lit_def)
  then show ?thesis
    by (simp add: V6 is_loopback_host_def local_v4_def) (simp add: lit_def)
qed

lemma endpoint_text:
  assumes "scheme \<in> {lit ''http'', lit ''socks5h''}"
  shows "trim (scheme @ lit ''://'' @ show_socket_addr addr) = scheme @ lit ''://'' @ show_socket_addr addr"
    and "str_contains (scheme @ lit ''://'' @ show_socket_addr addr) (lit ''://'')"
    and "scheme @ lit ''://'' @ show_socket_addr addr \<noteq> []"
proof -
  have "last (scheme @ lit ''://'' @ show_socket_addr addr) = last (show_nat (unat (snd addr)))"
    using show_nat_ne by (simp add: show_socket_addr_def)
  moreover have "is_ascii_digit (last (show_nat (unat (snd addr))))"
    using show_nat_digits last_in_set show_nat_ne by blast
  ultimately have "\<not> is_whitespace (last (scheme @ lit ''://'' @ show_socket_addr addr))"
    by (auto simp: is_ascii_digit_def is_whitespace_def)
  moreover have "\<not> is_whitespace (hd (scheme @ lit ''://'' @ show_socket_addr addr))"
    using assms by (auto simp: str_ops is_whitespace_def)
  ultimately show "trim (scheme @ lit ''://'' @ show_socket_addr addr) = scheme @ lit ''://'' @ show_socket_addr addr"
    using assms by (intro trim_eq_self) (auto simp: lit_def)
  show "str_contains (scheme @ lit ''://'' @ show_socket_addr addr) (lit ''://'')"
    unfolding str_contains_def by (rule sublist_appendI)
  show "scheme @ lit ''://'' @ show_socket_addr addr \<noteq> []"
    by (simp add: lit_def)
qed

lemma port_of_endpoint:
  assumes "reads_urls senv" and "scheme \<in> {lit ''http'', lit ''socks5h''}"
    and "proxy_url_env_value env key = Some (scheme @ lit ''://'' @ show_socket_addr addr)"
  shows "loopback_port senv env key = (if local_v4 addr then Some (snd addr) else None)"
proof -
  note url = endpoint_text [OF assms(2), of addr]
  have "parse_url senv (scheme @ lit ''://'' @ show_socket_addr addr) =
      Some \<lparr>url_scheme = scheme, url_host = Some (show_ip (fst addr)),
            url_port = (if scheme = lit ''http'' \<and> snd addr = 80 then None else Some (snd addr))\<rparr>"
    using assms(1,2) unfolding reads_urls_def by blast
  moreover have "proxy_scheme_default_port (to_ascii_lowercase (lit ''http'')) = 80"
    by (simp add: proxy_scheme_default_port_def str_ops)
  ultimately show ?thesis
    using assms(3) url by (auto simp: loopback_port_def Let_def loopback_host_iff)
qed

definition proxied_env :: "'e seatbelt_env \<Rightarrow> proxy_endpoints \<Rightarrow> (ustr \<rightharpoonup> ustr)" where
  "proxied_env senv proxy = apply_proxy_env_overrides (os senv) Map.empty proxy None"

lemma proxied_values:
  assumes "key \<in> set proxy_url_env_keys"
  shows "proxy_url_env_value (proxied_env senv proxy) key =
    Some (if key \<in> set all_proxy_env_keys \<union> set ftp_proxy_env_keys \<and> socks_enabled proxy
          then lit ''socks5h'' @ lit ''://'' @ show_socket_addr (socks_addr proxy)
          else lit ''http'' @ lit ''://'' @ show_socket_addr (http_addr proxy))"
proof -
  have "key \<noteq> lit ''GIT_SSH_COMMAND''" "key \<noteq> lit ''ELECTRON_GET_USE_PROXY''" "key \<notin> set no_proxy_env_keys"
    and "key \<in> set http_proxy_env_keys \<or> key \<in> set all_proxy_env_keys \<union> set ftp_proxy_env_keys"
    using assms by (auto simp: proxy_url_env_keys_def no_proxy_env_keys_def http_proxy_env_keys_def
        all_proxy_env_keys_def ftp_proxy_env_keys_def lit_def)
  then have "proxied_env senv proxy key =
    Some (if key \<in> set all_proxy_env_keys \<union> set ftp_proxy_env_keys \<and> socks_enabled proxy
          then lit ''socks5h://'' @ show_socket_addr (socks_addr proxy)
          else lit ''http://'' @ show_socket_addr (http_addr proxy))"
    unfolding proxied_env_def apply_proxy_env_overrides_def Let_def
    by (cases "key \<in> set all_proxy_env_keys"; cases "key \<in> set ftp_proxy_env_keys") (simp_all add: set_env_keys_apply)
  moreover have "lit ''socks5h://'' = lit ''socks5h'' @ lit ''://''" "lit ''http://'' = lit ''http'' @ lit ''://''"
    by (simp_all add: lit_def)
  ultimately show ?thesis
    by (simp only: proxy_url_env_value_def option.case append_assoc)
qed

lemma proxied_binding: "local_binding_enabled (proxied_env senv proxy) \<longleftrightarrow> local_binding proxy"
proof -
  have "allow_local_binding_env_key \<notin> set http_proxy_env_keys \<union> set no_proxy_env_keys \<union> set all_proxy_env_keys \<union>
      set ftp_proxy_env_keys \<union> {lit ''GIT_SSH_COMMAND'', lit ''ELECTRON_GET_USE_PROXY''}"
    by (simp add: allow_local_binding_env_key_def no_proxy_env_keys_def http_proxy_env_keys_def
        all_proxy_env_keys_def ftp_proxy_env_keys_def lit_def)
  then have "proxied_env senv proxy allow_local_binding_env_key = Some (if local_binding proxy then lit ''1'' else lit ''0'')"
    by (simp add: proxied_env_def apply_proxy_env_overrides_def set_env_keys_apply Let_def)
  moreover have "trim (lit ''1'') = lit ''1''" "trim (lit ''0'') = lit ''0''"
    by (rule trim_eq_self; simp add: str_ops is_whitespace_def)+
  ultimately show ?thesis
    by (simp add: local_binding_enabled_def) (simp add: str_ops)
qed

definition endpoints :: "proxy_endpoints \<Rightarrow> socket_addr set" where
  "endpoints proxy = {http_addr proxy} \<union> (if socks_enabled proxy then {socks_addr proxy} else {})"

lemma proxied_ports:
  assumes "reads_urls senv"
  shows "set (proxy_loopback_ports_from_env senv (proxied_env senv proxy)) =
    {port. \<exists>addr \<in> endpoints proxy. local_v4 addr \<and> port = snd addr}"
proof -
  have port: "loopback_port senv (proxied_env senv proxy) key =
      (let addr = (if key \<in> set all_proxy_env_keys \<union> set ftp_proxy_env_keys \<and> socks_enabled proxy
                   then socks_addr proxy else http_addr proxy)
       in if local_v4 addr then Some (snd addr) else None)" if "key \<in> set proxy_url_env_keys" for key
    using port_of_endpoint [OF assms, of "lit ''http''" "proxied_env senv proxy" key "http_addr proxy"]
      port_of_endpoint [OF assms, of "lit ''socks5h''" "proxied_env senv proxy" key "socks_addr proxy"]
      proxied_values [OF that, of senv proxy] by (auto simp: Let_def)
  have "lit ''HTTP_PROXY'' \<in> set proxy_url_env_keys" "lit ''ALL_PROXY'' \<in> set proxy_url_env_keys"
    "lit ''HTTP_PROXY'' \<notin> set all_proxy_env_keys \<union> set ftp_proxy_env_keys" "lit ''ALL_PROXY'' \<in> set all_proxy_env_keys"
    by (simp_all add: proxy_url_env_keys_def all_proxy_env_keys_def ftp_proxy_env_keys_def)
  then have ends: "loopback_port senv (proxied_env senv proxy) (lit ''HTTP_PROXY'') =
      (if local_v4 (http_addr proxy) then Some (snd (http_addr proxy)) else None)"
    "socks_enabled proxy \<Longrightarrow> loopback_port senv (proxied_env senv proxy) (lit ''ALL_PROXY'') =
      (if local_v4 (socks_addr proxy) then Some (snd (socks_addr proxy)) else None)"
    "lit ''HTTP_PROXY'' \<in> set proxy_url_env_keys" "lit ''ALL_PROXY'' \<in> set proxy_url_env_keys"
    using port by (simp_all add: Let_def)
  have "set (proxy_loopback_ports_from_env senv (proxied_env senv proxy)) =
      {port. \<exists>key \<in> set proxy_url_env_keys. loopback_port senv (proxied_env senv proxy) key = Some port}"
    by (simp add: proxy_loopback_ports_from_env_def set_map_filter)
  also have "\<dots> = {port. \<exists>addr \<in> endpoints proxy. local_v4 addr \<and> port = snd addr}"
  proof (intro equalityI subsetI)
    fix port assume "port \<in> {port. \<exists>key \<in> set proxy_url_env_keys.
        loopback_port senv (proxied_env senv proxy) key = Some port}"
    then show "port \<in> {port. \<exists>addr \<in> endpoints proxy. local_v4 addr \<and> port = snd addr}"
      using port by (fastforce simp: endpoints_def Let_def split: if_splits)
  next
    fix port assume "port \<in> {port. \<exists>addr \<in> endpoints proxy. local_v4 addr \<and> port = snd addr}"
    then consider "local_v4 (http_addr proxy)" "port = snd (http_addr proxy)"
      | "socks_enabled proxy" "local_v4 (socks_addr proxy)" "port = snd (socks_addr proxy)"
      by (auto simp: endpoints_def split: if_splits)
    then show "port \<in> {port. \<exists>key \<in> set proxy_url_env_keys.
        loopback_port senv (proxied_env senv proxy) key = Some port}"
      using ends by cases auto
  qed
  finally show ?thesis .
qed

lemma proxied_configured: "has_proxy_url_env_vars (proxied_env senv proxy)"
proof -
  have key: "lit ''HTTP_PROXY'' \<in> set proxy_url_env_keys"
    and other: "lit ''HTTP_PROXY'' \<notin> set all_proxy_env_keys \<union> set ftp_proxy_env_keys"
    by (simp_all add: proxy_url_env_keys_def all_proxy_env_keys_def ftp_proxy_env_keys_def)
  have "proxy_url_env_value (proxied_env senv proxy) (lit ''HTTP_PROXY'') =
      Some (lit ''http'' @ lit ''://'' @ show_socket_addr (http_addr proxy))"
    using proxied_values [OF key, of senv proxy] other by simp
  moreover have "trim (lit ''http'' @ lit ''://'' @ show_socket_addr (http_addr proxy)) \<noteq> []"
    using endpoint_text(1,3) [of "lit ''http''" "http_addr proxy"] by simp
  ultimately show ?thesis
    using key unfolding has_proxy_url_env_vars_def list_ex_iff by (intro bexI [of _ "lit ''HTTP_PROXY''"]) simp_all
qed

lemma proxied_inputs:
  "proxy_policy_inputs_of senv (Some proxy) =
     \<lparr>ports = proxy_loopback_ports_from_env senv (proxied_env senv proxy), has_proxy_config = True,
      allow_binding = local_binding proxy\<rparr>"
  using proxied_configured [of senv proxy] proxied_binding [of senv proxy]
  by (simp add: proxy_policy_inputs_of_def proxied_env_def Let_def)

text \<open>The clauses of the profile about the network.\<close>

datatype net_clause = BindLocal | InboundLocal | OutboundLocal | OutboundPort "16 word"

fun show_net_clause :: "net_clause \<Rightarrow> ustr" where
  "show_net_clause BindLocal = localhost_clause (lit ''network-bind'') (lit ''local'') (lit ''*'')"
| "show_net_clause InboundLocal = localhost_clause (lit ''network-inbound'') (lit ''local'') (lit ''*'')"
| "show_net_clause OutboundLocal = localhost_clause (lit ''network-outbound'') (lit ''remote'') (lit ''*'')"
| "show_net_clause (OutboundPort p) = localhost_clause (lit ''network-outbound'') (lit ''remote'') (show_nat (unat p))"

text \<open>C8: on macOS a command with a proxy reaches the proxy and nothing else. Whatever the policy, the text
  about the network is empty or a comment, clauses for this machine and the fixed part: outbound
  connections go to the ports on which the proxy listens at 127.0.0.1, and to every port of this
  machine only if local binding is allowed. Without a proxy a managed network is no network.\<close>
theorem proxied_network_is_confined:
  assumes "reads_urls senv"
  shows "(\<exists>heading clauses. dynamic_network_policy senv policy managed (proxy_policy_inputs_of senv (Some proxy)) =
      (if clauses = [] then [] else heading @ concat (map show_net_clause clauses) @ network_policy senv) \<and>
    heading \<in> {lit ''; allow outbound access only to configured loopback proxy endpoints'' @ newline @ more |
      more. more \<in> {[], lit ''; allow localhost-only binding and loopback traffic'' @ newline}} \<and>
    (\<forall>port. OutboundPort port \<in> set clauses \<longleftrightarrow> (\<exists>addr \<in> endpoints proxy. local_v4 addr \<and> port = snd addr)) \<and>
    (OutboundLocal \<in> set clauses \<longrightarrow> local_binding proxy)) \<and>
    dynamic_network_policy senv policy True (proxy_policy_inputs_of senv None) = []"
proof
  let ?ports = "proxy_loopback_ports_from_env senv (proxied_env senv proxy)"
  let ?local = "if local_binding proxy then [BindLocal, InboundLocal, OutboundLocal] else []"
  let ?clauses = "if ?ports = [] then [] else ?local @ map OutboundPort ?ports"
  let ?heading = "lit ''; allow outbound access only to configured loopback proxy endpoints'' @ newline @
    (if local_binding proxy then lit ''; allow localhost-only binding and loopback traffic'' @ newline else [])"
  have "dynamic_network_policy senv policy managed (proxy_policy_inputs_of senv (Some proxy)) =
      (if ?clauses = [] then [] else ?heading @ concat (map show_net_clause ?clauses) @ network_policy senv)"
    by (simp add: proxied_inputs dynamic_network_policy_def comp_def)
  moreover have "\<forall>port. OutboundPort port \<in> set ?clauses \<longleftrightarrow> (\<exists>addr \<in> endpoints proxy. local_v4 addr \<and> port = snd addr)"
  proof
    fix port
    have "OutboundPort port \<in> set ?clauses \<longleftrightarrow> port \<in> set ?ports"
      by auto
    then show "OutboundPort port \<in> set ?clauses \<longleftrightarrow> (\<exists>addr \<in> endpoints proxy. local_v4 addr \<and> port = snd addr)"
      unfolding proxied_ports [OF assms] by simp
  qed
  moreover have "OutboundLocal \<in> set ?clauses \<longrightarrow> local_binding proxy"
    by auto
  moreover have "?heading \<in> {lit ''; allow outbound access only to configured loopback proxy endpoints'' @ newline @ more |
      more. more \<in> {[], lit ''; allow localhost-only binding and loopback traffic'' @ newline}}"
    by auto
  ultimately show "\<exists>heading clauses. dynamic_network_policy senv policy managed (proxy_policy_inputs_of senv (Some proxy)) =
      (if clauses = [] then [] else heading @ concat (map show_net_clause clauses) @ network_policy senv) \<and>
    heading \<in> {lit ''; allow outbound access only to configured loopback proxy endpoints'' @ newline @ more |
      more. more \<in> {[], lit ''; allow localhost-only binding and loopback traffic'' @ newline}} \<and>
    (\<forall>port. OutboundPort port \<in> set clauses \<longleftrightarrow> (\<exists>addr \<in> endpoints proxy. local_v4 addr \<and> port = snd addr)) \<and>
    (OutboundLocal \<in> set clauses \<longrightarrow> local_binding proxy)"
    by (intro exI [of _ ?heading] exI [of _ ?clauses] conjI)
  show "dynamic_network_policy senv policy True (proxy_policy_inputs_of senv None) = []"
    by (simp add: dynamic_network_policy_def proxy_policy_inputs_of_def)
qed

text \<open>A proxy that listens on the IPv6 loopback address is not recognised, since the host of a URL keeps its
  brackets: the command has no network at all.\<close>

theorem ipv6_proxy_unreachable:
  assumes "reads_urls senv" and "fst (http_addr proxy) = V6 a" and "\<not> socks_enabled proxy"
  shows "dynamic_network_policy senv policy managed (proxy_policy_inputs_of senv (Some proxy)) = []"
proof -
  have "set (proxy_loopback_ports_from_env senv (proxied_env senv proxy)) = {}"
    using proxied_ports [OF assms(1), of proxy] assms(2,3) by (auto simp: endpoints_def local_v4_def)
  then show ?thesis
    by (simp add: proxied_inputs dynamic_network_policy_def)
qed

text \<open>The bundle identifiers of a profile are quoted in it as they are; none of those kept has a quotation
  mark, a parenthesis or a line break, so they end no clause.\<close>

theorem bundle_ids_cannot_escape:
  "set (normalize_bundle_ids ids) = {i. i \<in> trim ` set ids \<and> is_valid_bundle_id i} \<and>
     sorted (normalize_bundle_ids ids) \<and> distinct (normalize_bundle_ids ids) \<and>
     (\<forall>i \<in> set (normalize_bundle_ids ids). set i \<inter> {10, 34, 40, 41, 92} = {})"
  by (auto simp: normalize_bundle_ids_def is_valid_bundle_id_def is_ascii_alphanumeric_def is_ascii_digit_def list_all_iff)

section \<open>A concrete environment\<close>

definition example_parse_url :: "ustr \<Rightarrow> parsed_url option" where
  "example_parse_url s =
     (let scheme = takeWhile (\<lambda>c. c \<noteq> 58) s;
          rest = rev (drop 3 (dropWhile (\<lambda>c. c \<noteq> 58) s));
          port = of_nat (foldl (\<lambda>a c. a * 10 + (c - 48)) 0 (rev (takeWhile (\<lambda>c. c \<noteq> 58) rest)))
      in Some \<lparr>url_scheme = scheme, url_host = Some (rev (drop 1 (dropWhile (\<lambda>c. c \<noteq> 58) rest))),
               url_port = (if scheme = lit ''http'' \<and> port = 80 then None else Some port)\<rparr>)"

definition seatbelt_example :: "unit seatbelt_env" where
  "seatbelt_example =
     \<lparr>os = MacOS, home_dir = None, absolutize = (\<lambda>p. Inr (components p)),
      absolutize_from = (\<lambda>p base. Inr (if is_absolute p then components p else base @ components p)),
      fs_is_file = (\<lambda>_. False), fs_is_dir = (\<lambda>_. True), fs_exists = (\<lambda>_. True),
      fs_read_to_string = (\<lambda>_. Inr []), var_tmpdir = None, real_path = (\<lambda>_. None), user_cache_dir = None,
      parse_url = example_parse_url, base_policy = [], network_policy = []\<rparr>"

lemma example_reads_urls: "reads_urls seatbelt_example"
proof -
  have "example_parse_url (scheme @ lit ''://'' @ show_socket_addr addr) =
      Some \<lparr>url_scheme = scheme, url_host = Some (show_ip (fst addr)),
            url_port = (if scheme = lit ''http'' \<and> snd addr = 80 then None else Some (snd addr))\<rparr>"
    if "scheme \<in> {lit ''http'', lit ''socks5h''}" for scheme addr
  proof -
    let ?n = "show_nat (unat (snd addr))"
    have "\<forall>c \<in> set scheme. c \<noteq> 58"
      using that by (auto simp: lit_def)
    then have front: "takeWhile (\<lambda>c. c \<noteq> 58) (scheme @ lit ''://'' @ show_socket_addr addr) = scheme"
      "dropWhile (\<lambda>c. c \<noteq> 58) (scheme @ lit ''://'' @ show_socket_addr addr) = lit ''://'' @ show_socket_addr addr"
      by (simp_all add: lit_def takeWhile_append dropWhile_append)
    have rest: "rev (show_socket_addr addr) = rev ?n @ 58 # rev (show_ip (fst addr))"
      by (simp add: show_socket_addr_def lit_def)
    have "\<forall>c \<in> set (rev ?n). c \<noteq> 58"
      using show_nat_digits [of 58 "unat (snd addr)"] by (auto simp: is_ascii_digit_def)
    then have rear: "takeWhile (\<lambda>c. c \<noteq> 58) (rev (show_socket_addr addr)) = rev ?n"
      "dropWhile (\<lambda>c. c \<noteq> 58) (rev (show_socket_addr addr)) = 58 # rev (show_ip (fst addr))"
      unfolding rest by (simp_all add: takeWhile_append dropWhile_append)
    have "drop 3 (lit ''://'' @ show_socket_addr addr) = show_socket_addr addr"
      by (simp add: lit_def)
    then show ?thesis
      unfolding example_parse_url_def Let_def front by (simp add: rear show_nat_value)
  qed
  then show ?thesis
    by (simp add: reads_urls_def seatbelt_example_def)
qed

theorem proxied_network_is_confined_witness:
  "dynamic_network_policy seatbelt_example DangerFullAccess True (proxy_policy_inputs_of seatbelt_example None) = []"
  using proxied_network_is_confined [OF example_reads_urls] by blast

lemma seatbelt_example_roots:
  "get_writable_roots_with_cwd seatbelt_example workspace_only (lit ''/w'') =
     Some [\<lparr>root = [RootDir, Normal (lit ''w'')],
            read_only_subpaths =
              [[RootDir, Normal (lit ''w''), Normal (lit ''.git'')], [RootDir, Normal (lit ''w''), Normal (lit ''.agents'')],
               [RootDir, Normal (lit ''w''), Normal (lit ''.codex'')]]\<rparr>]"
  by (simp add: seatbelt_example_def resolve_path_against_base_def from_absolute_path_def maybe_expand_home_directory_def
      slash_tmp_root_def tmpdir_root_def ok_list_def writable_root_of_def abs_join_def git_subpaths_def)


end
