(* ===== verification/ToolCalls.thy ===== *)
theory ToolCalls
  imports Compaction SandboxPolicies
begin

text \<open>
  From a tool call of the model to its answer: \<open>core/src/tools/router.rs\<close>, \<open>registry.rs\<close>,
  \<open>context.rs\<close> and \<open>parallel.rs\<close>, the answers of \<open>protocol/src/models.rs\<close>, and the hooks of
  \<open>hooks/src/registry.rs\<close>. The handlers of the tools, the hooks, serde's reading and writing of JSON
  and the debug form of a string are arguments. How long a task ran is given in tenths of a second,
  the precision it is shown with.
\<close>

section \<open>Answers\<close>

text \<open>A JSON value of an MCP result, by what is read of it: its text (or the error of writing it),
  whether it is null, and its reading as one of the content types known.\<close>

datatype mcp_content = McpText ustr | McpImage ustr "ustr option" | McpUnknown

record json_view =
  jv_text :: "ustr + ustr"
  jv_null :: bool
  jv_content :: "mcp_content option"

record call_tool_result =
  ctr_content :: "json_view list"
  ctr_content_text :: "ustr + ustr"
  ctr_structured :: "json_view option"
  ctr_is_error :: "bool option"

datatype response_input =
    InputMessage ustr "message_content list"
  | InputFunctionOutput ustr fco_payload
  | InputMcpOutput ustr "ustr + call_tool_result"
  | InputCustomOutput ustr ustr

fun mcp_content_item :: "json_view \<Rightarrow> bool \<times> content_item" where
  "mcp_content_item v =
     (case jv_content v of
        Some (McpText s) \<Rightarrow> (False, InputText s)
      | Some (McpImage data mime) \<Rightarrow>
          (True, InputImage
             (if starts_with data (lit ''data:'') then data
              else lit ''data:'' @ (case mime of Some m \<Rightarrow> m | None \<Rightarrow> lit ''application/octet-stream'') @
                   lit '';base64,'' @ data))
      | _ \<Rightarrow> (False, InputText (case jv_text v of Inr s \<Rightarrow> s | Inl _ \<Rightarrow> lit ''<content>'')))"

definition convert_mcp_content_to_items :: "json_view list \<Rightarrow> content_item list option" where
  "convert_mcp_content_to_items contents =
     (let items = map mcp_content_item contents
      in if list_ex fst items then Some (map snd items) else None)"

definition payload_of_result :: "call_tool_result \<Rightarrow> fco_payload" where
  "payload_of_result res =
     (let is_success = (ctr_is_error res \<noteq> Some True);
          from_content =
            (case ctr_content_text res of
               Inl err \<Rightarrow> \<lparr>fco_body = BodyText err, fco_success = Some False\<rparr>
             | Inr serialized \<Rightarrow>
                 \<lparr>fco_body = (case convert_mcp_content_to_items (ctr_content res) of
                     Some items \<Rightarrow> BodyContentItems items | None \<Rightarrow> BodyText serialized),
                  fco_success = Some is_success\<rparr>)
      in case ctr_structured res of
           None \<Rightarrow> from_content
         | Some v \<Rightarrow>
             if jv_null v then from_content
             else (case jv_text v of
                     Inr serialized \<Rightarrow> \<lparr>fco_body = BodyText serialized, fco_success = Some is_success\<rparr>
                   | Inl err \<Rightarrow> \<lparr>fco_body = BodyText err, fco_success = Some False\<rparr>))"

text \<open>\<open>From<ResponseInputItem>\<close>; \<open>dbg_str\<close> is the debug form of a string.\<close>

fun item_of_input :: "(ustr \<Rightarrow> ustr) \<Rightarrow> response_input \<Rightarrow> response_item" where
  "item_of_input dbg_str (InputMessage role content) = Message None role content None None"
| "item_of_input dbg_str (InputFunctionOutput c payload) = FunctionCallOutput c payload"
| "item_of_input dbg_str (InputMcpOutput c (Inr res)) = FunctionCallOutput c (payload_of_result res)"
| "item_of_input dbg_str (InputMcpOutput c (Inl err)) =
     FunctionCallOutput c \<lparr>fco_body = BodyText (lit ''err: '' @ dbg_str err), fco_success = Some False\<rparr>"
| "item_of_input dbg_str (InputCustomOutput c s) = CustomToolCallOutput c s"

fun response_input_to_response_item :: "response_input \<Rightarrow> response_item option" where
  "response_input_to_response_item (InputFunctionOutput c payload) = Some (FunctionCallOutput c payload)"
| "response_input_to_response_item (InputCustomOutput c s) = Some (CustomToolCallOutput c s)"
| "response_input_to_response_item (InputMcpOutput c (Inr res)) =
     Some (FunctionCallOutput c (payload_of_result res))"
| "response_input_to_response_item (InputMcpOutput c (Inl err)) =
     Some (FunctionCallOutput c \<lparr>fco_body = BodyText err, fco_success = Some False\<rparr>)"
| "response_input_to_response_item (InputMessage _ _) = None"

section \<open>Calls\<close>

record shell_params =
  sp_command :: "ustr list"
  sp_workdir :: "ustr option"
  sp_timeout_ms :: "nat option"
  sp_sandbox_permissions :: "sandbox_permissions option"
  sp_prefix_rule :: "ustr list option"
  sp_justification :: "ustr option"

datatype tool_payload =
    FunctionPayload ustr
  | CustomPayload ustr
  | LocalShellPayload shell_params
  | McpPayload ustr ustr ustr

record tool_call =
  tool_name :: ustr
  tool_call_id :: ustr
  tool_payload :: tool_payload

datatype function_call_error = RespondToModel ustr | MissingLocalShellCallId | FatalCall ustr

fun show_call_error :: "function_call_error \<Rightarrow> ustr" where
  "show_call_error (RespondToModel s) = s"
| "show_call_error MissingLocalShellCallId = lit ''LocalShellCall without call_id or id''"
| "show_call_error (FatalCall s) = lit ''Fatal error: '' @ s"

text \<open>The names of MCP tools are parsed with the servers that are connected.\<close>

fun build_tool_call ::
  "(ustr \<Rightarrow> (ustr \<times> ustr) option) \<Rightarrow> response_item \<Rightarrow> function_call_error + tool_call option" where
  "build_tool_call mcp_name (FunctionCall item_id name arguments call_id) =
     (case mcp_name name of
        Some (server, tool) \<Rightarrow>
          Inr (Some \<lparr>tool_name = name, tool_call_id = call_id,
                     tool_payload = McpPayload server tool arguments\<rparr>)
      | None \<Rightarrow>
          Inr (Some \<lparr>tool_name = name, tool_call_id = call_id, tool_payload = FunctionPayload arguments\<rparr>))"
| "build_tool_call mcp_name (CustomToolCall item_id status call_id name input) =
     Inr (Some \<lparr>tool_name = name, tool_call_id = call_id, tool_payload = CustomPayload input\<rparr>)"
| "build_tool_call mcp_name (LocalShellCall item_id call_id status (LocalShellExec exec)) =
     (case (case call_id of Some c \<Rightarrow> Some c | None \<Rightarrow> item_id) of
        None \<Rightarrow> Inl MissingLocalShellCallId
      | Some c \<Rightarrow>
          Inr (Some \<lparr>tool_name = lit ''local_shell'', tool_call_id = c,
             tool_payload = LocalShellPayload
               \<lparr>sp_command = lse_command exec, sp_workdir = lse_working_directory exec,
                sp_timeout_ms = lse_timeout_ms exec, sp_sandbox_permissions = Some UseDefault,
                sp_prefix_rule = None, sp_justification = None\<rparr>\<rparr>))"
| "build_tool_call mcp_name _ = Inr None"

fun is_custom_payload :: "tool_payload \<Rightarrow> bool" where
  "is_custom_payload (CustomPayload _) \<longleftrightarrow> True"
| "is_custom_payload _ \<longleftrightarrow> False"

section \<open>Hooks\<close>

datatype hook_result = HookSuccess | HookFailedContinue ustr | HookFailedAbort ustr

text \<open>The hooks are executed in order until one aborts the operation.\<close>

fun dispatch_hooks :: "(ustr \<times> ('p \<Rightarrow> hook_result)) list \<Rightarrow> 'p \<Rightarrow> (ustr \<times> hook_result) list" where
  "dispatch_hooks [] payload = []"
| "dispatch_hooks ((name, func) # hooks) payload =
     (let res = func payload
      in (name, res) # (case res of HookFailedAbort _ \<Rightarrow> [] | _ \<Rightarrow> dispatch_hooks hooks payload))"

fun after_tool_use_error :: "(ustr \<times> hook_result) list \<Rightarrow> function_call_error option" where
  "after_tool_use_error [] = None"
| "after_tool_use_error ((name, HookFailedAbort err) # outcomes) =
     Some (FatalCall (lit ''after_tool_use hook '' @ [39] @ name @ [39] @
       lit '' failed and aborted operation: '' @ err))"
| "after_tool_use_error ((name, _) # outcomes) = after_tool_use_error outcomes"

section \<open>The registry\<close>

datatype tool_output = ToolFunction fco_body "bool option" | ToolMcp "ustr + call_tool_result"

fun success_for_logging :: "tool_output \<Rightarrow> bool" where
  "success_for_logging (ToolFunction body success) = (case success of Some b \<Rightarrow> b | None \<Rightarrow> True)"
| "success_for_logging (ToolMcp res) = (case res of Inr _ \<Rightarrow> True | Inl _ \<Rightarrow> False)"

fun into_response :: "ustr \<Rightarrow> tool_payload \<Rightarrow> tool_output \<Rightarrow> response_input" where
  "into_response c payload (ToolFunction body success) =
     (if is_custom_payload payload
      then InputCustomOutput c (case fco_body_to_text body of Some s \<Rightarrow> s | None \<Rightarrow> [])
      else InputFunctionOutput c \<lparr>fco_body = body, fco_success = success\<rparr>)"
| "into_response c payload (ToolMcp res) = InputMcpOutput c res"

record tool_handler =
  th_matches_kind :: "tool_payload \<Rightarrow> bool"
  th_handle :: "tool_call \<Rightarrow> function_call_error + tool_output"

datatype tool_kind = FunctionTool | McpTool

text \<open>The default of \<open>ToolHandler::matches_kind\<close>.\<close>

fun default_matches_kind :: "tool_kind \<Rightarrow> tool_payload \<Rightarrow> bool" where
  "default_matches_kind FunctionTool (FunctionPayload _) \<longleftrightarrow> True"
| "default_matches_kind McpTool (McpPayload _ _ _) \<longleftrightarrow> True"
| "default_matches_kind _ _ \<longleftrightarrow> False"

fun unsupported_tool_call_message :: "tool_payload \<Rightarrow> ustr \<Rightarrow> ustr" where
  "unsupported_tool_call_message (CustomPayload _) name = lit ''unsupported custom tool call: '' @ name"
| "unsupported_tool_call_message _ name = lit ''unsupported call: '' @ name"

text \<open>The handlers by name, the hooks that run after a tool (given the call and whether it succeeded)
  and the switch that leaves only the JavaScript tool.\<close>

record tool_router =
  tr_handlers :: "ustr \<Rightarrow> tool_handler option"
  tr_hooks :: "(ustr \<times> (tool_call \<times> bool \<Rightarrow> hook_result)) list"
  tr_js_repl_only :: bool

definition registry_dispatch :: "tool_router \<Rightarrow> tool_call \<Rightarrow> function_call_error + response_input" where
  "registry_dispatch router call =
     (case tr_handlers router (tool_name call) of
        None \<Rightarrow> Inl (RespondToModel (unsupported_tool_call_message (tool_payload call) (tool_name call)))
      | Some handler \<Rightarrow>
          if \<not> th_matches_kind handler (tool_payload call)
          then Inl (FatalCall (lit ''tool '' @ tool_name call @ lit '' invoked with incompatible payload''))
          else
            let res = th_handle handler call;
                success = (case res of Inr out \<Rightarrow> success_for_logging out | Inl _ \<Rightarrow> False)
            in case after_tool_use_error (dispatch_hooks (tr_hooks router) (call, success)) of
                 Some err \<Rightarrow> Inl err
               | None \<Rightarrow> bindE res (\<lambda>out. Inr (into_response (tool_call_id call) (tool_payload call) out)))"

definition failure_response :: "ustr \<Rightarrow> bool \<Rightarrow> function_call_error \<Rightarrow> response_input" where
  "failure_response c outputs_custom err =
     (if outputs_custom then InputCustomOutput c (show_call_error err)
      else InputFunctionOutput c \<lparr>fco_body = BodyText (show_call_error err), fco_success = Some False\<rparr>)"

datatype tool_call_source = DirectCall | JsReplCall

definition dispatch_tool_call ::
  "tool_router \<Rightarrow> tool_call_source \<Rightarrow> tool_call \<Rightarrow> function_call_error + response_input" where
  "dispatch_tool_call router source call =
     (let custom = is_custom_payload (tool_payload call)
      in if source = DirectCall \<and> tr_js_repl_only router \<and>
            tool_name call \<noteq> lit ''js_repl'' \<and> tool_name call \<noteq> lit ''js_repl_reset''
         then Inr (failure_response (tool_call_id call) custom
                (RespondToModel (lit ''direct tool calls are disabled; use js_repl and codex.tool(...) instead'')))
         else (case registry_dispatch router call of
                 Inr response \<Rightarrow> Inr response
               | Inl (FatalCall message) \<Rightarrow> Inl (FatalCall message)
               | Inl err \<Rightarrow> Inr (failure_response (tool_call_id call) custom err)))"

section \<open>The task of a call\<close>

text \<open>What became of the task: cancelled after a while, lost (the join error), or run to its end.\<close>

datatype task_end = TaskCancelled nat | TaskLost ustr | TaskRan

definition show_tenths :: "nat \<Rightarrow> ustr" where
  "show_tenths n = show_nat (n div 10) @ lit ''.'' @ show_nat (n mod 10)"

definition abort_message :: "tool_call \<Rightarrow> nat \<Rightarrow> ustr" where
  "abort_message call tenths =
     (if tool_name call \<in> set [lit ''shell'', lit ''container.exec'', lit ''local_shell'',
           lit ''shell_command'', lit ''unified_exec'']
      then lit ''Wall time: '' @ show_tenths tenths @ lit '' seconds'' @ newline @ lit ''aborted by user''
      else lit ''aborted by user after '' @ show_tenths tenths @ lit ''s'')"

definition aborted_response :: "tool_call \<Rightarrow> nat \<Rightarrow> response_input" where
  "aborted_response call tenths =
     (case tool_payload call of
        CustomPayload _ \<Rightarrow> InputCustomOutput (tool_call_id call) (abort_message call tenths)
      | McpPayload _ _ _ \<Rightarrow> InputMcpOutput (tool_call_id call) (Inl (abort_message call tenths))
      | _ \<Rightarrow> InputFunctionOutput (tool_call_id call) (text_payload (abort_message call tenths)))"

definition handle_tool_call :: "tool_router \<Rightarrow> tool_call \<Rightarrow> task_end \<Rightarrow> codex_err + response_input" where
  "handle_tool_call router call ending =
     (case ending of
        TaskCancelled tenths \<Rightarrow> Inr (aborted_response call (max tenths 1))
      | TaskLost err \<Rightarrow> Inl (FatalErr (lit ''tool task failed to receive: '' @ err))
      | TaskRan \<Rightarrow>
          (case dispatch_tool_call router DirectCall call of
             Inr response \<Rightarrow> Inr response
           | Inl (FatalCall message) \<Rightarrow> Inl (FatalErr message)
           | Inl other \<Rightarrow> Inl (FatalErr (show_call_error other))))"

section \<open>Every answer belongs to its call\<close>

definition tool_call_key :: "tool_call \<Rightarrow> call_kind \<times> ustr" where
  "tool_call_key call =
     (if is_custom_payload (tool_payload call) then CustomKind else FunctionKind, tool_call_id call)"

text \<open>A tool that takes freeform input answers with a text, not with the result of an MCP server.\<close>

definition freeform_answers_text :: "tool_router \<Rightarrow> bool" where
  "freeform_answers_text router \<longleftrightarrow>
     (\<forall>name handler call res. tr_handlers router name = Some handler \<longrightarrow> is_custom_payload (tool_payload call) \<longrightarrow>
        th_matches_kind handler (tool_payload call) \<longrightarrow> th_handle handler call \<noteq> Inr (ToolMcp res))"

lemma build_tool_call_key:
  assumes "build_tool_call mcp_name item = Inr (Some call)"
  shows "call_key item = Some (tool_call_key call) \<or>
    (\<exists>item_id status exec. item = LocalShellCall (Some item_id) None status (LocalShellExec exec))"
  using assms
  by (cases "(mcp_name, item)" rule: build_tool_call.cases) (auto simp: tool_call_key_def split: option.splits)

lemma build_tool_call_none: "build_tool_call mcp_name item = Inr None \<Longrightarrow> call_key item = None"
  by (cases "(mcp_name, item)" rule: build_tool_call.cases) (auto split: option.splits)

lemma build_tool_call_error:
  "build_tool_call mcp_name item = Inl err \<longleftrightarrow>
   err = MissingLocalShellCallId \<and> (\<exists>status exec. item = LocalShellCall None None status (LocalShellExec exec))"
  by (cases "(mcp_name, item)" rule: build_tool_call.cases) (auto split: option.splits)

lemma build_tool_call_output: "output_key item \<noteq> None \<Longrightarrow> build_tool_call mcp_name item = Inr None"
  by (cases "(mcp_name, item)" rule: build_tool_call.cases) auto

lemma failure_response_key:
  "output_key (item_of_input dbg_str (failure_response (tool_call_id call) (is_custom_payload (tool_payload call)) err)) =
   Some (tool_call_key call)"
  by (simp add: failure_response_def tool_call_key_def)

lemma aborted_response_key:
  "output_key (item_of_input dbg_str (aborted_response call tenths)) = Some (tool_call_key call)"
  by (cases "tool_payload call") (simp_all add: aborted_response_def tool_call_key_def)

lemma into_response_key:
  assumes "is_custom_payload (tool_payload call) \<longrightarrow> (\<forall>res. out \<noteq> ToolMcp res)"
  shows "output_key (item_of_input dbg_str (into_response (tool_call_id call) (tool_payload call) out)) =
    Some (tool_call_key call)"
proof (cases out)
  case (ToolMcp res)
  then show ?thesis
    using assms by (cases res) (auto simp: tool_call_key_def)
qed (simp add: tool_call_key_def)

lemma registry_dispatch_key:
  assumes "freeform_answers_text router" and "registry_dispatch router call = Inr response"
  shows "output_key (item_of_input dbg_str response) = Some (tool_call_key call)"
proof -
  from assms(2) obtain handler out where handler: "tr_handlers router (tool_name call) = Some handler"
      "th_matches_kind handler (tool_payload call)" and out: "th_handle handler call = Inr out"
    and response: "response = into_response (tool_call_id call) (tool_payload call) out"
    by (auto simp: registry_dispatch_def Let_def split: option.splits if_splits sum.splits)
  have "is_custom_payload (tool_payload call) \<longrightarrow> (\<forall>res. out \<noteq> ToolMcp res)"
    using assms(1) handler out unfolding freeform_answers_text_def by auto
  then show ?thesis
    unfolding response by (rule into_response_key)
qed

lemma handle_tool_call_key:
  assumes "freeform_answers_text router" and "handle_tool_call router call ending = Inr response"
  shows "output_key (item_of_input dbg_str response) = Some (tool_call_key call)"
  using assms(2) registry_dispatch_key [OF assms(1), of call]
  by (auto simp: handle_tool_call_def dispatch_tool_call_def Let_def failure_response_key aborted_response_key
      split: task_end.splits if_splits sum.splits function_call_error.splits)

section \<open>Answering the calls of a response\<close>

definition answers_of :: "('c \<Rightarrow> 'e \<Rightarrow> 'err + 'a) \<Rightarrow> ('c \<times> 'e) list \<Rightarrow> 'a list" where
  "answers_of run tasks =
     List.map_filter (\<lambda>(call, ending). case run call ending of Inr a \<Rightarrow> Some a | Inl _ \<Rightarrow> None) tasks"

lemma answers_of_simps [simp]:
  "answers_of run [] = []"
  "answers_of run ((call, ending) # tasks) =
     (case run call ending of Inr a \<Rightarrow> [a] | Inl _ \<Rightarrow> []) @ answers_of run tasks"
  by (simp_all add: answers_of_def split: sum.splits)

text \<open>What a turn relies on: whatever becomes of a call, its answer carries the key of the call.\<close>

locale call_runner =
  fixes ready :: "'r \<Rightarrow> bool"
    and run :: "'r \<Rightarrow> 'c \<Rightarrow> 'e \<Rightarrow> 'err + 'a"
    and call_id_of :: "'c \<Rightarrow> 'k"
    and answers_to :: "'a \<Rightarrow> 'k option"
  assumes answer_keyed: "ready r \<Longrightarrow> run r call ending = Inr a \<Longrightarrow> answers_to a = Some (call_id_of call)"
begin

lemma answers_subset:
  "ready r \<Longrightarrow> set (List.map_filter answers_to (answers_of (run r) tasks)) \<subseteq> set (map (call_id_of \<circ> fst) tasks)"
proof (induction tasks)
  case (Cons task tasks)
  then show ?case
    by (cases task; cases "run r (fst task) (snd task)") (auto simp: answer_keyed)
qed simp

lemma answers_complete:
  "ready r \<Longrightarrow> list_all (\<lambda>(call, ending). \<not> isl (run r call ending)) tasks \<Longrightarrow>
   map answers_to (answers_of (run r) tasks) = map (Some \<circ> call_id_of \<circ> fst) tasks"
  by (induction tasks) (auto dest: answer_keyed split: sum.splits)

end

interpretation tool_runner: call_runner freeform_answers_text handle_tool_call tool_call_key
    "\<lambda>response. output_key (item_of_input dbg_str response)" for dbg_str
  by unfold_locales (rule handle_tool_call_key)

text \<open>A task that is cancelled is answered; one that runs is answered unless its tool is run with a
  payload of another kind, fails fatally, or a hook aborts it.\<close>

lemma cancelled_call_answered: "handle_tool_call router call (TaskCancelled tenths) = Inr (aborted_response call (max tenths 1))"
  by (simp add: handle_tool_call_def)

lemma unknown_tool_answered:
  assumes "tr_handlers router (tool_name call) = None"
  shows "\<exists>response. handle_tool_call router call TaskRan = Inr response \<and>
    output_key (item_of_input dbg_str response) = Some (tool_call_key call)"
  using assms
  by (auto simp: handle_tool_call_def dispatch_tool_call_def registry_dispatch_def Let_def failure_response_key)

end
