(* ===== verification/PlanMode.thy ===== *)
theory PlanMode
  imports ToolCalls TaggedBlocks Rollout "HOL-Library.AList"
begin

text \<open>
  Streaming a response in plan mode: the functions of \<open>core/src/codex.rs\<close> that split the text of an
  assistant message into messages and a proposed plan while it arrives, and the functions of
  \<open>core/src/stream_events_utils.rs\<close> on items that are no tool calls. The events go to a session as in
  \<open>Compaction\<close>. A hash map is a list of entries or a HOL map; the order in which one is drained is an
  argument, and so are the identifiers that \<open>uuid\<close> draws.
\<close>

section \<open>Items that are no tool calls\<close>

fun turn_item_id :: "turn_item \<Rightarrow> ustr" where
  "turn_item_id (UserMessage u) = um_id u"
| "turn_item_id (AgentMessage a) = am_id a"
| "turn_item_id (Plan item_id s) = item_id"
| "turn_item_id (ReasoningTurn r) = ri_id r"
| "turn_item_id (WebSearch w) = ws_id w"
| "turn_item_id (ContextCompaction item_id) = item_id"

fun is_agent_message :: "turn_item \<Rightarrow> bool" where
  "is_agent_message (AgentMessage _) \<longleftrightarrow> True"
| "is_agent_message _ \<longleftrightarrow> False"

definition agent_message_text :: "agent_message_item \<Rightarrow> ustr" where
  "agent_message_text a = concat (am_content a)"

fun strip_plan_of_turn_item :: "turn_item \<Rightarrow> turn_item" where
  "strip_plan_of_turn_item (AgentMessage a) =
     AgentMessage (a\<lparr>am_content := [strip_proposed_plan_blocks (agent_message_text a)]\<rparr>)"
| "strip_plan_of_turn_item item = item"

definition handle_non_tool_response_item :: "ustr \<Rightarrow> bool \<Rightarrow> response_item \<Rightarrow> turn_item option" where
  "handle_non_tool_response_item uuid plan_mode item =
     (case item of
        Message _ _ _ _ _ \<Rightarrow>
          map_option (if plan_mode then strip_plan_of_turn_item else (\<lambda>t. t)) (parse_turn_item uuid item)
      | Reasoning _ _ _ _ \<Rightarrow>
          map_option (if plan_mode then strip_plan_of_turn_item else (\<lambda>t. t)) (parse_turn_item uuid item)
      | WebSearchCall _ _ _ \<Rightarrow>
          map_option (if plan_mode then strip_plan_of_turn_item else (\<lambda>t. t)) (parse_turn_item uuid item)
      | _ \<Rightarrow> None)"

text \<open>The text of a message, its output pieces joined.\<close>

definition output_text :: "message_content list \<Rightarrow> ustr" where
  "output_text content = concat (List.map_filter (\<lambda>c. case c of MsgOutputText s \<Rightarrow> Some s | _ \<Rightarrow> None) content)"

fun last_assistant_message_from_item :: "response_item \<Rightarrow> bool \<Rightarrow> ustr option" where
  "last_assistant_message_from_item (Message item_id role content end_turn ph) plan_mode =
     (if role \<noteq> lit ''assistant'' then None
      else
        let combined = output_text content
        in if combined = [] then None
           else if plan_mode
             then let stripped = strip_proposed_plan_blocks combined
                  in if trim stripped = [] then None else Some stripped
             else Some combined)"
| "last_assistant_message_from_item _ plan_mode = None"

section \<open>The state of a stream\<close>

record plan_state =
  plan_parsers :: "(ustr \<times> plan_tag line_parser) list"
  pending_messages :: "ustr \<Rightarrow> turn_item option"
  started_messages :: "ustr set"
  leading_whitespace :: "ustr \<Rightarrow> ustr option"
  plan_item_id :: ustr
  plan_started :: bool
  plan_completed :: bool

definition plan_state_new :: "ustr \<Rightarrow> plan_state" where
  "plan_state_new turn_id =
     \<lparr>plan_parsers = [], pending_messages = (\<lambda>_. None), started_messages = {},
      leading_whitespace = (\<lambda>_. None), plan_item_id = turn_id @ lit ''-plan'',
      plan_started = False, plan_completed = False\<rparr>"

text \<open>\<open>assistant_parser_mut\<close> with its write back, and \<open>take_assistant_parser\<close>.\<close>

definition assistant_parser :: "plan_state \<Rightarrow> ustr \<Rightarrow> plan_tag line_parser" where
  "assistant_parser st item_id =
     (case map_of (plan_parsers st) item_id of Some p \<Rightarrow> p | None \<Rightarrow> plan_parser_new)"

definition set_assistant_parser :: "ustr \<Rightarrow> plan_tag line_parser \<Rightarrow> plan_state \<Rightarrow> plan_state" where
  "set_assistant_parser item_id p st = st\<lparr>plan_parsers := AList.update item_id p (plan_parsers st)\<rparr>"

definition take_assistant_parser :: "plan_state \<Rightarrow> ustr \<Rightarrow> plan_state \<times> plan_tag line_parser option" where
  "take_assistant_parser st item_id =
     (st\<lparr>plan_parsers := AList.delete item_id (plan_parsers st)\<rparr>, map_of (plan_parsers st) item_id)"

type_synonym plan_run = "plan_state \<times> session_run"

section \<open>The plan item\<close>

fun plan_start :: "plan_run \<Rightarrow> plan_run" where
  "plan_start (st, r) =
     (if plan_started st \<or> plan_completed st then (st, r)
      else (st\<lparr>plan_started := True\<rparr>, send_event (ItemStarted (Plan (plan_item_id st) [])) r))"

fun plan_push_delta :: "ustr \<Rightarrow> plan_run \<Rightarrow> plan_run" where
  "plan_push_delta delta (st, r) =
     (if plan_completed st then (st, r)
      else if delta = [] then (st, r)
      else (st, send_event (PlanDelta (plan_item_id st) delta) r))"

fun plan_complete :: "ustr \<Rightarrow> plan_run \<Rightarrow> plan_run" where
  "plan_complete plan_text (st, r) =
     (if plan_completed st \<or> \<not> plan_started st then (st, r)
      else (st\<lparr>plan_completed := True\<rparr>, send_event (ItemCompleted (Plan (plan_item_id st) plan_text)) r))"

section \<open>Messages\<close>

fun maybe_emit_pending_start :: "ustr \<Rightarrow> plan_run \<Rightarrow> plan_run" where
  "maybe_emit_pending_start item_id (st, r) =
     (if item_id \<in> started_messages st then (st, r)
      else case pending_messages st item_id of
             None \<Rightarrow> (st, r)
           | Some item \<Rightarrow>
               (st\<lparr>pending_messages := (pending_messages st)(item_id := None),
                   started_messages := insert item_id (started_messages st)\<rparr>,
                send_event (ItemStarted item) r))"

fun handle_plan_segment :: "ustr \<Rightarrow> plan_run \<Rightarrow> plan_segment \<Rightarrow> plan_run" where
  "handle_plan_segment item_id (st, r) (PlanNormal delta) =
     (if delta = [] then (st, r)
      else
        let has_non_whitespace = list_ex (\<lambda>c. \<not> is_whitespace c) delta
        in if \<not> has_non_whitespace \<and> item_id \<notin> started_messages st
           then (st\<lparr>leading_whitespace := (leading_whitespace st)
                     (item_id := Some ((case leading_whitespace st item_id of Some w \<Rightarrow> w | None \<Rightarrow> []) @ delta))\<rparr>, r)
           else
             let (st, delta) =
                   (if item_id \<notin> started_messages st
                    then case leading_whitespace st item_id of
                           Some w \<Rightarrow> (st\<lparr>leading_whitespace := (leading_whitespace st)(item_id := None)\<rparr>, w @ delta)
                         | None \<Rightarrow> (st, delta)
                    else (st, delta));
                 (st, r) = maybe_emit_pending_start item_id (st, r)
             in (st, send_event (MessageDelta item_id delta) r))"
| "handle_plan_segment item_id (st, r) ProposedPlanStart =
     (if plan_completed st then (st, r) else plan_start (st, r))"
| "handle_plan_segment item_id (st, r) (ProposedPlanDelta delta) =
     (if plan_completed st then (st, r)
      else plan_push_delta delta (if plan_started st then (st, r) else plan_start (st, r)))"
| "handle_plan_segment item_id (st, r) ProposedPlanEnd = (st, r)"

definition handle_plan_segments :: "ustr \<Rightarrow> plan_segment list \<Rightarrow> plan_run \<Rightarrow> plan_run" where
  "handle_plan_segments item_id segments p = foldl (handle_plan_segment item_id) p segments"

definition flush_plan_segments_for_item :: "ustr \<Rightarrow> plan_run \<Rightarrow> plan_run" where
  "flush_plan_segments_for_item item_id p =
     (case take_assistant_parser (fst p) item_id of
        (st, None) \<Rightarrow> (st, snd p)
      | (st, Some parser) \<Rightarrow> handle_plan_segments item_id (snd (plan_finish parser)) (st, snd p))"

text \<open>Draining empties the map; \<open>order\<close> is the order the entries come in.\<close>

definition flush_plan_segments_all ::
  "((ustr \<times> plan_tag line_parser) list \<Rightarrow> (ustr \<times> plan_tag line_parser) list) \<Rightarrow> plan_run \<Rightarrow> plan_run" where
  "flush_plan_segments_all order p =
     foldl (\<lambda>p (item_id, parser). handle_plan_segments item_id (snd (plan_finish parser)) p)
       ((fst p)\<lparr>plan_parsers := []\<rparr>, snd p) (order (plan_parsers (fst p)))"

fun maybe_complete_plan_item :: "response_item \<Rightarrow> plan_run \<Rightarrow> plan_run" where
  "maybe_complete_plan_item (Message item_id role content end_turn ph) p =
     (if role \<noteq> lit ''assistant'' then p
      else case extract_proposed_plan_text (output_text content) of
             None \<Rightarrow> p
           | Some plan_text \<Rightarrow> plan_complete plan_text (if plan_started (fst p) then p else plan_start p))"
| "maybe_complete_plan_item _ p = p"

definition emit_agent_message_in_plan_mode :: "agent_message_item \<Rightarrow> plan_run \<Rightarrow> plan_run" where
  "emit_agent_message_in_plan_mode a p =
     (let i = am_id a
      in if trim (agent_message_text a) = []
         then ((fst p)\<lparr>pending_messages := (pending_messages (fst p))(i := None),
                       started_messages := started_messages (fst p) - {i}\<rparr>, snd p)
         else
           let (st, r) = maybe_emit_pending_start i p;
               (st, r) =
                 (if i \<in> started_messages st then (st, r)
                  else
                    let start_item = (case pending_messages st i of
                           Some item \<Rightarrow> item
                         | None \<Rightarrow> AgentMessage \<lparr>am_id = i, am_content = [], am_phase = None\<rparr>)
                    in (st\<lparr>pending_messages := (pending_messages st)(i := None),
                           started_messages := insert i (started_messages st)\<rparr>,
                        send_event (ItemStarted start_item) r));
               r = send_event (ItemCompleted (AgentMessage a)) r
           in (st\<lparr>started_messages := started_messages st - {i}\<rparr>, r))"

fun emit_turn_item_in_plan_mode :: "turn_item \<Rightarrow> turn_item option \<Rightarrow> plan_run \<Rightarrow> plan_run" where
  "emit_turn_item_in_plan_mode (AgentMessage a) active p = emit_agent_message_in_plan_mode a p"
| "emit_turn_item_in_plan_mode item active (st, r) =
     (st, send_event (ItemCompleted item) (if active = None then send_event (ItemStarted item) r else r))"

text \<open>A finished item: None when it is no assistant message and is left to the caller, otherwise the
  run and the last agent message.\<close>

definition assistant_item_done_in_plan_mode ::
  "compact_env \<Rightarrow> ustr \<Rightarrow> response_item \<Rightarrow> turn_item option \<Rightarrow> plan_run \<Rightarrow> ustr option
    \<Rightarrow> (plan_run \<times> ustr option) option option" where
  "assistant_item_done_in_plan_mode env uuid item active p last_message =
     (case item of
        Message item_id role content end_turn ph \<Rightarrow>
          if role \<noteq> lit ''assistant'' then None
          else
            let p = maybe_complete_plan_item item p;
                p = (case handle_non_tool_response_item uuid True item of
                       Some t \<Rightarrow> emit_turn_item_in_plan_mode t active p | None \<Rightarrow> p)
            in Some (map_option
                 (\<lambda>r. ((fst p, r), case last_assistant_message_from_item item True of
                                     Some m \<Rightarrow> Some m | None \<Rightarrow> last_message))
                 (record_conversation_items env [item] (snd p)))
      | _ \<Rightarrow> None)"

end
