(* ===== verification/TurnLoop.thy ===== *)
theory TurnLoop
  imports PlanMode
begin

text \<open>
  A turn of the conversation: \<open>run_turn\<close>, \<open>run_sampling_request\<close> and \<open>try_run_sampling_request\<close> of
  \<open>core/src/codex.rs\<close>, \<open>handle_output_item_done\<close> of \<open>core/src/stream_events_utils.rs\<close> and the switch to
  HTTP of \<open>core/src/client.rs\<close>. What the outside does is an argument, indexed by a clock that ticks
  with every request: what the model streams, what becomes of the tasks of the tools, which input
  arrives meanwhile. Tools run beside the stream; what a tool does to the files and the session is
  not part of the model, its answer is.
\<close>

section \<open>Errors\<close>

fun is_retryable :: "codex_err \<Rightarrow> bool" where
  "is_retryable (StreamErr _ _) \<longleftrightarrow> True"
| "is_retryable TimeoutErr \<longleftrightarrow> True"
| "is_retryable (UnexpectedStatus _) \<longleftrightarrow> True"
| "is_retryable (ResponseStreamFailed _) \<longleftrightarrow> True"
| "is_retryable (ConnectionFailed _) \<longleftrightarrow> True"
| "is_retryable InternalServerError \<longleftrightarrow> True"
| "is_retryable InternalAgentDied \<longleftrightarrow> True"
| "is_retryable (IoErr _) \<longleftrightarrow> True"
| "is_retryable (JsonErr _) \<longleftrightarrow> True"
| "is_retryable (TokioJoin _) \<longleftrightarrow> True"
| "is_retryable _ \<longleftrightarrow> False"

section \<open>The turn and its surroundings\<close>

datatype streamed = Streamed stream_event | TokenCancelled

text \<open>The context of the turn (\<open>te_ctx\<close>, whose stream is not used), the context with another model, the
  limit that starts a compaction; the router of a request (none if the turn was
  cancelled while the tools were listed); the
  stream of a request, ending in a cancellation if the token was cancelled while it was read; the end
  of the task of a call; the input that arrives until a response is complete and after that; the diff
  of the turn; what the skills of the input add; the hooks that run after a turn.\<close>

record turn_env =
  te_ctx :: compact_env
  te_with_model :: "ustr \<Rightarrow> compact_env"
  te_auto_limit :: "int option"
  te_turn_id :: ustr
  te_plan_mode :: bool
  te_websockets :: bool
  te_router :: "nat \<Rightarrow> tool_router option"
  te_mcp_name :: "ustr \<Rightarrow> (ustr \<times> ustr) option"
  te_stream :: "nat \<Rightarrow> response_item list \<Rightarrow> codex_err + streamed list"
  te_task :: "nat \<Rightarrow> nat \<Rightarrow> task_end"
  te_arrivals :: "nat \<Rightarrow> response_input list \<times> response_input list"
  te_turn_diff :: "nat \<Rightarrow> ustr option"
  te_compact_stream :: "nat \<Rightarrow> nat \<Rightarrow> response_item list \<Rightarrow> codex_err + stream_event list"
  te_remote_compact :: "(nat \<Rightarrow> response_item list \<Rightarrow> codex_err + response_item list) option"
  te_compact_prompt :: ustr
  te_local_items :: "ustr \<Rightarrow> nat option \<Rightarrow> message_content list"
  te_uuid :: "nat \<Rightarrow> nat \<Rightarrow> ustr"
  te_drain_order :: "(ustr \<times> plan_tag line_parser) list \<Rightarrow> (ustr \<times> plan_tag line_parser) list"
  te_dbg_str :: "ustr \<Rightarrow> ustr"
  te_prepare :: "session_run \<Rightarrow> session_run"
  te_mcp_listed :: bool
  te_skill_items :: "response_item list"
  te_skill_warnings :: "ustr list"
  te_connectors :: "ustr list"
  te_hooks :: "(ustr \<times> (ustr list \<times> ustr option \<Rightarrow> hook_result)) list"

text \<open>The session, the clock, the input that waits, whether the session fell back to HTTP, and the
  prompts that were sent.\<close>

record turn_run =
  tn_run :: session_run
  tn_clock :: nat
  tn_pending :: "response_input list"
  tn_http :: bool
  tn_sent :: "response_item list list"

definition with_run :: "(session_run \<Rightarrow> session_run) \<Rightarrow> turn_run \<Rightarrow> turn_run" where
  "with_run f t = t\<lparr>tn_run := f (tn_run t)\<rparr>"

definition emit :: "session_event \<Rightarrow> turn_run \<Rightarrow> turn_run" where
  "emit e t = with_run (send_event e) t"

definition record_in_turn :: "turn_env \<Rightarrow> response_item list \<Rightarrow> turn_run \<Rightarrow> turn_run option" where
  "record_in_turn env items t =
     map_option (\<lambda>r. t\<lparr>tn_run := r\<rparr>) (record_conversation_items (te_ctx env) items (tn_run t))"

definition record_user_prompt ::
  "turn_env \<Rightarrow> ustr \<Rightarrow> user_input list \<Rightarrow> response_item \<Rightarrow> turn_run \<Rightarrow> turn_run option" where
  "record_user_prompt env uuid inputs item t =
     map_option
       (\<lambda>t. let turn_item = UserMessage \<lparr>um_id = uuid, um_content = inputs\<rparr>
            in emit (ItemCompleted turn_item) (emit (ItemStarted turn_item) t))
       (record_in_turn env [item] t)"

definition note_rate_limits :: "rate_limit_snapshot \<Rightarrow> session_run \<Rightarrow> session_run" where
  "note_rate_limits snapshot r =
     send_event TokenCountEvent (set_session (set_rate_limits (run_session r) snapshot) r)"

section \<open>One response\<close>

text \<open>The state of the loop over a stream: the session, the calls in flight, whether a follow up is
  needed, the last message of the agent, the active item and the state of plan mode, and the number
  of the event (for the identifiers drawn).\<close>

record sampling =
  sm_run :: session_run
  sm_calls :: "tool_call list"
  sm_follow_up :: bool
  sm_last :: "ustr option"
  sm_active :: "turn_item option"
  sm_plan :: "plan_state option"
  sm_index :: nat

text \<open>How the loop goes on: with the next event; out of it, to wait for the tools; or out of the
  function at once, which is what \<open>?\<close> does.\<close>

datatype sampling_next =
    GoOn sampling
  | Finish sampling "codex_err + unit"
  | Bail sampling codex_err

definition guardrail_output :: "ustr \<Rightarrow> response_input" where
  "guardrail_output message = InputFunctionOutput [] (text_payload message)"

text \<open>\<open>handle_output_item_done\<close>. The branches of the two errors that the model is told are one: both
  record the item and an output without a call id, whose text is the error's.\<close>

definition record_sampled :: "turn_env \<Rightarrow> response_item list \<Rightarrow> sampling \<Rightarrow> sampling option" where
  "record_sampled env items s =
     map_option (\<lambda>r. s\<lparr>sm_run := r\<rparr>) (record_conversation_items (te_ctx env) items (sm_run s))"

definition emit_sampled :: "session_event \<Rightarrow> sampling \<Rightarrow> sampling" where
  "emit_sampled e s = s\<lparr>sm_run := send_event e (sm_run s)\<rparr>"

definition handle_output_item_done ::
  "turn_env \<Rightarrow> ustr \<Rightarrow> response_item \<Rightarrow> turn_item option \<Rightarrow> sampling \<Rightarrow> sampling_next option" where
  "handle_output_item_done env uuid item active s =
     (case build_tool_call (te_mcp_name env) item of
        Inr (Some call) \<Rightarrow>
          map_option (\<lambda>s. GoOn (s\<lparr>sm_calls := sm_calls s @ [call], sm_follow_up := True\<rparr>))
            (record_sampled env [item] s)
      | Inr None \<Rightarrow>
          (let s = (case handle_non_tool_response_item uuid (te_plan_mode env) item of
                      None \<Rightarrow> s
                    | Some t \<Rightarrow>
                        emit_sampled (ItemCompleted t)
                          (if active = None then emit_sampled (ItemStarted t) s else s))
           in map_option
                (\<lambda>s. GoOn (case last_assistant_message_from_item item (te_plan_mode env) of
                             Some m \<Rightarrow> s\<lparr>sm_last := Some m\<rparr> | None \<Rightarrow> s))
                (record_sampled env [item] s))
      | Inl (FatalCall message) \<Rightarrow> Some (Bail s (FatalErr message))
      | Inl err \<Rightarrow>
          Option.bind (record_sampled env [item] s) (\<lambda>s.
          map_option (\<lambda>s. GoOn (s\<lparr>sm_follow_up := True\<rparr>))
            (case response_input_to_response_item (guardrail_output (show_call_error err)) of
               Some output_item \<Rightarrow> record_sampled env [output_item] s | None \<Rightarrow> Some s)))"

definition with_plan :: "(plan_run \<Rightarrow> plan_run) \<Rightarrow> sampling \<Rightarrow> sampling" where
  "with_plan f s =
     (case sm_plan s of
        None \<Rightarrow> s
      | Some st \<Rightarrow> (case f (st, sm_run s) of (st, r) \<Rightarrow> s\<lparr>sm_plan := Some st, sm_run := r\<rparr>))"

definition output_item_done :: "turn_env \<Rightarrow> ustr \<Rightarrow> response_item \<Rightarrow> sampling \<Rightarrow> sampling_next option" where
  "output_item_done env uuid item s =
     (let active = sm_active s;
          s = s\<lparr>sm_active := None\<rparr>;
          s = (case active of
                 Some t \<Rightarrow> if is_agent_message t then with_plan (flush_plan_segments_for_item (turn_item_id t)) s else s
               | None \<Rightarrow> s)
      in case sm_plan s of
           None \<Rightarrow> handle_output_item_done env uuid item active s
         | Some st \<Rightarrow>
             (case assistant_item_done_in_plan_mode (te_ctx env) uuid item active (st, sm_run s) (sm_last s) of
                None \<Rightarrow> handle_output_item_done env uuid item active s
              | Some handled \<Rightarrow>
                  map_option (\<lambda>((st, r), last_message).
                      GoOn (s\<lparr>sm_plan := Some st, sm_run := r, sm_last := last_message\<rparr>)) handled))"

definition output_item_added :: "turn_env \<Rightarrow> ustr \<Rightarrow> response_item \<Rightarrow> sampling \<Rightarrow> sampling" where
  "output_item_added env uuid item s =
     (case handle_non_tool_response_item uuid (te_plan_mode env) item of
        None \<Rightarrow> s
      | Some t \<Rightarrow>
          (if sm_plan s \<noteq> None \<and> is_agent_message t
           then with_plan (\<lambda>(st, r). (st\<lparr>pending_messages := (pending_messages st)(turn_item_id t := Some t)\<rparr>, r)) s
           else emit_sampled (ItemStarted t) s)\<lparr>sm_active := Some t\<rparr>)"

definition parse_plan_delta :: "ustr \<Rightarrow> ustr \<Rightarrow> plan_run \<Rightarrow> plan_run" where
  "parse_plan_delta item_id delta p =
     (let (parser, segments) = plan_parse (assistant_parser (fst p) item_id) delta
      in handle_plan_segments item_id segments (set_assistant_parser item_id parser (fst p), snd p))"

text \<open>\<open>error_or_panic\<close>: a debug build panics.\<close>

definition error_or_panic :: "turn_env \<Rightarrow> 'a \<Rightarrow> 'a option" where
  "error_or_panic env x = (if env_debug (te_ctx env) then None else Some x)"

definition with_active :: "turn_env \<Rightarrow> (turn_item \<Rightarrow> sampling \<Rightarrow> sampling) \<Rightarrow> sampling \<Rightarrow> sampling_next option" where
  "with_active env f s =
     map_option GoOn (case sm_active s of Some t \<Rightarrow> Some (f t s) | None \<Rightarrow> error_or_panic env s)"

definition output_text_delta :: "ustr \<Rightarrow> turn_item \<Rightarrow> sampling \<Rightarrow> sampling" where
  "output_text_delta delta t s =
     (if sm_plan s \<noteq> None \<and> is_agent_message t
      then with_plan (parse_plan_delta (turn_item_id t) delta) s
      else emit_sampled (MessageDelta (turn_item_id t) delta) s)"

fun stream_step :: "turn_env \<Rightarrow> nat \<Rightarrow> bool \<Rightarrow> streamed \<Rightarrow> sampling \<Rightarrow> sampling_next option" where
  "stream_step env k pending TokenCancelled s = Some (Finish s (Inl TurnAborted))"
| "stream_step env k pending (Streamed (StreamFailed e)) s = Some (Bail s e)"
| "stream_step env k pending (Streamed StreamCreated) s = Some (GoOn s)"
| "stream_step env k pending (Streamed (OutputItemDone item)) s =
     output_item_done env (te_uuid env k (sm_index s)) item s"
| "stream_step env k pending (Streamed (OutputItemAdded item)) s =
     Some (GoOn (output_item_added env (te_uuid env k (sm_index s)) item s))"
| "stream_step env k pending (Streamed (ServerReasoningIncluded b)) s =
     Some (GoOn (s\<lparr>sm_run := set_session ((run_session (sm_run s))\<lparr>reasoning_included := b\<rparr>) (sm_run s)\<rparr>))"
| "stream_step env k pending (Streamed (RateLimits snapshot)) s =
     Some (GoOn (s\<lparr>sm_run := note_rate_limits snapshot (sm_run s)\<rparr>))"
| "stream_step env k pending (Streamed (ModelsEtag etag)) s = Some (GoOn s)"
| "stream_step env k pending (Streamed (StreamCompleted usage)) s =
     (let s = with_plan (flush_plan_segments_all (te_drain_order env)) s;
          s = s\<lparr>sm_run := update_token_usage_info (te_ctx env) usage (sm_run s)\<rparr>
      in Some (Finish (s\<lparr>sm_follow_up := sm_follow_up s \<or> pending\<rparr>) (Inr ())))"
| "stream_step env k pending (Streamed (OutputTextDelta delta)) s = with_active env (output_text_delta delta) s"
| "stream_step env k pending (Streamed (ReasoningSummaryDelta delta i)) s =
     with_active env (\<lambda>t. emit_sampled (ReasoningDeltaEvent (turn_item_id t) delta i)) s"
| "stream_step env k pending (Streamed (ReasoningSummaryPartAdded i)) s =
     with_active env (\<lambda>t. emit_sampled (ReasoningSectionBreak (turn_item_id t) i)) s"
| "stream_step env k pending (Streamed (ReasoningContentDelta delta i)) s =
     with_active env (\<lambda>t. emit_sampled (ReasoningRawDelta (turn_item_id t) delta i)) s"

fun stream_loop ::
  "turn_env \<Rightarrow> nat \<Rightarrow> bool \<Rightarrow> streamed list \<Rightarrow> sampling \<Rightarrow> (sampling \<times> (codex_err + (codex_err + unit))) option" where
  "stream_loop env k pending [] s = Some (s, Inr (Inl stream_closed))"
| "stream_loop env k pending (e # es) s =
     (case stream_step env k pending e s of
        None \<Rightarrow> None
      | Some (GoOn s) \<Rightarrow> stream_loop env k pending es (s\<lparr>sm_index := sm_index s + 1\<rparr>)
      | Some (Finish s res) \<Rightarrow> Some (s, Inr res)
      | Some (Bail s e) \<Rightarrow> Some (s, Inl e))"

definition sampling_new :: "turn_env \<Rightarrow> session_run \<Rightarrow> sampling" where
  "sampling_new env r =
     \<lparr>sm_run = r, sm_calls = [], sm_follow_up = False, sm_last = None, sm_active = None,
      sm_plan = (if te_plan_mode env then Some (plan_state_new (te_turn_id env)) else None), sm_index = 0\<rparr>"

text \<open>\<open>drain_in_flight\<close>: the answers come in the order of the calls.\<close>

fun drain_in_flight ::
  "turn_env \<Rightarrow> tool_router \<Rightarrow> nat \<Rightarrow> nat \<Rightarrow> tool_call list \<Rightarrow> session_run \<Rightarrow> session_run option" where
  "drain_in_flight env router k i [] r = Some r"
| "drain_in_flight env router k i (call # calls) r =
     Option.bind
       (case handle_tool_call router call (te_task env k i) of
          Inr response \<Rightarrow> record_conversation_items (te_ctx env) [item_of_input (te_dbg_str env) response] r
        | Inl err \<Rightarrow> error_or_panic env r)
       (drain_in_flight env router k (i + 1) calls)"

text \<open>One request. The input that arrives until the response is complete is seen by it; the rest
  waits for the next look.\<close>

definition try_run_sampling_request ::
  "turn_env \<Rightarrow> tool_router \<Rightarrow> response_item list \<Rightarrow> turn_run
    \<Rightarrow> (turn_run \<times> (codex_err + bool \<times> ustr option)) option" where
  "try_run_sampling_request env router prompt t =
     (let k = tn_clock t;
          pending = tn_pending t @ fst (te_arrivals env k);
          t = t\<lparr>tn_clock := k + 1, tn_pending := pending @ snd (te_arrivals env k), tn_sent := tn_sent t @ [prompt]\<rparr>;
          t = with_run (persist_rollout (RolloutTurnContext (env_model (te_ctx env)))) t
      in case te_stream env k prompt of
           Inl e \<Rightarrow> Some (t, Inl e)
         | Inr events \<Rightarrow>
             Option.bind (stream_loop env k (pending \<noteq> []) events (sampling_new env (tn_run t))) (\<lambda>(s, res).
               case res of
                 Inl e \<Rightarrow> Some (t\<lparr>tn_run := sm_run s\<rparr>, Inl e)
               | Inr outcome \<Rightarrow>
                   Option.bind (drain_in_flight env router k 0 (sm_calls s) (sm_run s)) (\<lambda>r.
                   let t = t\<lparr>tn_run := r\<rparr>
                   in Some (case outcome of
                        Inl e \<Rightarrow> (t, Inl e)
                      | Inr _ \<Rightarrow>
                          (case te_turn_diff env k of Some d \<Rightarrow> emit (TurnDiffEvent d) t | None \<Rightarrow> t,
                           Inr (sm_follow_up s, sm_last s))))))"

section \<open>Retries\<close>

text \<open>\<open>activate_http_fallback\<close>: whether this call switched, and the flag it leaves.\<close>

definition try_switch_fallback :: "turn_env \<Rightarrow> turn_run \<Rightarrow> turn_run \<times> bool" where
  "try_switch_fallback env t =
     (if te_websockets env then (t\<lparr>tn_http := True\<rparr>, \<not> tn_http t) else (t, False))"

datatype attempt_next =
    AttemptDone turn_run "codex_err + bool \<times> ustr option"
  | AttemptAgain turn_run nat

definition after_error ::
  "turn_env \<Rightarrow> turn_run \<Rightarrow> nat \<Rightarrow> codex_err \<Rightarrow> attempt_next" where
  "after_error env t retries err =
     (if err = ContextWindowExceeded
      then AttemptDone (with_run (set_total_tokens_full (te_ctx env)) t) (Inl err)
      else
        case err of
          UsageLimitReached limits \<Rightarrow>
            AttemptDone (case limits of Some l \<Rightarrow> with_run (note_rate_limits l) t | None \<Rightarrow> t) (Inl err)
        | _ \<Rightarrow>
            if \<not> is_retryable err then AttemptDone t (Inl err)
            else
              let max_retries = env_max_retries (te_ctx env);
                  (t, switched) = (if max_retries \<le> retries then try_switch_fallback env t else (t, False))
              in if switched then AttemptAgain (emit (FallbackWarning err) t) 0
                 else if retries < max_retries
                 then AttemptAgain
                        (if retries + 1 > 1 \<or> env_debug (te_ctx env) \<or> \<not> te_websockets env
                         then emit (Reconnecting (retries + 1) max_retries err) t else t) (retries + 1)
                 else AttemptDone t (Inl err))"

definition sampling_attempt ::
  "turn_env \<Rightarrow> tool_router \<Rightarrow> response_item list \<Rightarrow> turn_run \<Rightarrow> nat \<Rightarrow> attempt_next option" where
  "sampling_attempt env router prompt t retries =
     map_option (\<lambda>(t, res). case res of
          Inr out \<Rightarrow> AttemptDone t (Inr out)
        | Inl err \<Rightarrow> after_error env t retries err)
       (try_run_sampling_request env router prompt t)"

text \<open>What is left of the retries: those of this transport, and those after a switch to HTTP.\<close>

definition retries_left :: "turn_env \<Rightarrow> turn_run \<Rightarrow> nat \<Rightarrow> nat" where
  "retries_left env t retries =
     (env_max_retries (te_ctx env) - retries) +
     (if te_websockets env \<and> \<not> tn_http t then env_max_retries (te_ctx env) + 1 else 0)"

lemma try_run_frame:
  "try_run_sampling_request env router prompt t = Some (t', res) \<Longrightarrow>
   tn_http t' = tn_http t \<and> tn_clock t' = tn_clock t + 1 \<and> tn_sent t' = tn_sent t @ [prompt] \<and>
   tn_pending t' = tn_pending t @ fst (te_arrivals env (tn_clock t)) @ snd (te_arrivals env (tn_clock t))"
  by (auto simp: try_run_sampling_request_def with_run_def emit_def Let_def split: sum.splits option.splits bind_splits)

lemma emit_frame [simp]:
  "tn_http (emit e t) = tn_http t" "tn_clock (emit e t) = tn_clock t" "tn_sent (emit e t) = tn_sent t"
  "tn_pending (emit e t) = tn_pending t"
  by (simp_all add: emit_def with_run_def)

lemma with_run_frame [simp]:
  "tn_http (with_run f t) = tn_http t" "tn_clock (with_run f t) = tn_clock t" "tn_sent (with_run f t) = tn_sent t"
  "tn_pending (with_run f t) = tn_pending t"
  by (simp_all add: with_run_def)

lemma after_error_again:
  assumes "after_error env t retries err = AttemptAgain t' retries'"
  shows "retries_left env t' retries' < retries_left env t retries \<and> tn_clock t' = tn_clock t \<and>
    tn_sent t' = tn_sent t \<and> is_retryable err"
proof (cases err)
  case (UsageLimitReached limits)
  with assms show ?thesis
    by (simp add: after_error_def)
qed (use assms in \<open>auto simp: after_error_def try_switch_fallback_def retries_left_def Let_def split: if_splits\<close>)

lemma attempt_again_left:
  assumes "sampling_attempt env router prompt t retries = Some (AttemptAgain t' retries')"
  shows "retries_left env t' retries' < retries_left env t retries \<and> tn_clock t' = tn_clock t + 1 \<and>
    tn_sent t' = tn_sent t @ [prompt]"
proof -
  from assms obtain t1 res where run: "try_run_sampling_request env router prompt t = Some (t1, res)"
    and res: "(case res of Inr out \<Rightarrow> AttemptDone t1 (Inr out) | Inl err \<Rightarrow> after_error env t1 retries err) =
      AttemptAgain t' retries'"
    by (auto simp: sampling_attempt_def)
  then obtain err where tried: "try_run_sampling_request env router prompt t = Some (t1, Inl err)"
    and again: "after_error env t1 retries err = AttemptAgain t' retries'"
    by (cases res) auto
  from after_error_again [OF again] try_run_frame [OF tried] show ?thesis
    by (auto simp: retries_left_def)
qed

function sampling_loop ::
  "turn_env \<Rightarrow> tool_router \<Rightarrow> response_item list \<Rightarrow> turn_run \<Rightarrow> nat
    \<Rightarrow> (turn_run \<times> (codex_err + bool \<times> ustr option)) option" where
  "sampling_loop env router prompt t retries =
     (case sampling_attempt env router prompt t retries of
        None \<Rightarrow> None
      | Some (AttemptDone t res) \<Rightarrow> Some (t, res)
      | Some (AttemptAgain t retries) \<Rightarrow> sampling_loop env router prompt t retries)"
  by pat_completeness auto

termination
  by (relation "measure (\<lambda>(env, router, prompt, t, retries). retries_left env t retries)")
    (auto dest: attempt_again_left)

declare sampling_loop.simps [simp del]

definition run_sampling_request ::
  "turn_env \<Rightarrow> response_item list \<Rightarrow> turn_run \<Rightarrow> (turn_run \<times> (codex_err + bool \<times> ustr option)) option" where
  "run_sampling_request env input t =
     (case te_router env (tn_clock t) of
        None \<Rightarrow> Some (t, Inl TurnAborted)
      | Some router \<Rightarrow> sampling_loop env router input t 0)"

section \<open>The turn\<close>

text \<open>A compaction in the turn, with the context it is made with. Each one reads streams of its own.\<close>

definition auto_compact ::
  "turn_env \<Rightarrow> compact_env \<Rightarrow> turn_run \<Rightarrow> (turn_run \<times> (codex_err + unit)) option" where
  "auto_compact env ctx t =
     (let k = tn_clock t; t = t\<lparr>tn_clock := k + 1\<rparr>
      in map_option (\<lambda>(r, res). (t\<lparr>tn_run := r\<rparr>, res))
           (case te_remote_compact env of
              Some request \<Rightarrow> run_remote_compact ctx (request k) (tn_run t)
            | None \<Rightarrow>
                run_compact_task_inner (ctx\<lparr>env_stream := te_compact_stream env k\<rparr>) (te_local_items env)
                  [UserText (te_compact_prompt env) []] (tn_run t)))"

definition auto_compact_limit :: "turn_env \<Rightarrow> int" where
  "auto_compact_limit env = (case te_auto_limit env of Some n \<Rightarrow> n | None \<Rightarrow> i64_max)"

definition total_usage_tokens :: "turn_env \<Rightarrow> turn_run \<Rightarrow> int" where
  "total_usage_tokens env t = session_total_token_usage (env_json_len (te_ctx env)) (run_session (tn_run t))"

definition previous_model_compact ::
  "turn_env \<Rightarrow> int \<Rightarrow> turn_run \<Rightarrow> (turn_run \<times> (codex_err + unit)) option" where
  "previous_model_compact env tokens t =
     (case previous_model (run_session (tn_run t)) of
        None \<Rightarrow> Some (t, Inr ())
      | Some model \<Rightarrow>
          let previous = te_with_model env model
          in (case (env_window previous, env_window (te_ctx env)) of
               (Some old_window, Some new_window) \<Rightarrow>
                 if tokens > auto_compact_limit env \<and> env_model previous \<noteq> env_model (te_ctx env) \<and>
                    old_window > new_window
                 then auto_compact env previous t else Some (t, Inr ())
             | _ \<Rightarrow> Some (t, Inr ())))"

definition pre_sampling_compact :: "turn_env \<Rightarrow> turn_run \<Rightarrow> (turn_run \<times> (codex_err + unit)) option" where
  "pre_sampling_compact env t =
     Option.bind (previous_model_compact env (total_usage_tokens env t) t) (\<lambda>(t, res).
       case res of
         Inl e \<Rightarrow> Some (t, Inl e)
       | Inr _ \<Rightarrow>
           if total_usage_tokens env t \<ge> auto_compact_limit env then auto_compact env (te_ctx env) t
           else Some (t, Inr ()))"

text \<open>Recording the input that waits; the identifiers drawn are those of the clock.\<close>

fun record_pending :: "turn_env \<Rightarrow> nat \<Rightarrow> response_input list \<Rightarrow> turn_run \<Rightarrow> turn_run option" where
  "record_pending env i [] t = Some t"
| "record_pending env i (input # inputs) t =
     (let item = item_of_input (te_dbg_str env) input
      in Option.bind
           (case parse_turn_item (te_uuid env (tn_clock t) i) item of
              Some (UserMessage u) \<Rightarrow> record_user_prompt env (te_uuid env (tn_clock t) (i + 1)) (um_content u) item t
            | _ \<Rightarrow> record_in_turn env [item] t)
           (record_pending env (i + 2) inputs))"

definition prompt_messages :: "response_item list \<Rightarrow> ustr list" where
  "prompt_messages items =
     List.map_filter (\<lambda>item. case parse_turn_item [] item of
        Some (UserMessage u) \<Rightarrow> Some (um_message u) | _ \<Rightarrow> None) items"

definition first_abort :: "(ustr \<times> hook_result) list \<Rightarrow> ustr option" where
  "first_abort outcomes =
     find_map (\<lambda>(name, res). case res of
        HookFailedAbort err \<Rightarrow>
          Some (lit ''after_agent hook '' @ [39] @ name @ [39] @ lit '' failed and aborted turn completion: '' @ err)
      | _ \<Rightarrow> None) outcomes"

datatype turn_next =
    TurnContinue turn_run
  | TurnDone turn_run "ustr option"

definition bad_image_message :: ustr where
  "bad_image_message = lit ''Invalid image in your last message. Please remove it and try again.''"

definition after_response ::
  "turn_env \<Rightarrow> response_item list \<Rightarrow> turn_run \<Rightarrow> bool \<Rightarrow> ustr option \<Rightarrow> turn_next option" where
  "after_response env input t follow_up last_message =
     (if total_usage_tokens env t \<ge> auto_compact_limit env \<and> follow_up
      then map_option (\<lambda>(t, res). case res of Inl _ \<Rightarrow> TurnDone t None | Inr _ \<Rightarrow> TurnContinue t)
             (auto_compact env (te_ctx env) t)
      else if \<not> follow_up
      then Some (case first_abort (dispatch_hooks (te_hooks env) (prompt_messages input, last_message)) of
             Some message \<Rightarrow> TurnDone (emit (ErrorMessage message) t) None
           | None \<Rightarrow> TurnDone t last_message)
      else Some (TurnContinue t))"

definition after_failure :: "turn_env \<Rightarrow> turn_run \<Rightarrow> codex_err \<Rightarrow> turn_next option" where
  "after_failure env t err =
     (if err = TurnAborted then Some (TurnDone t None)
      else if err = InvalidImageRequest then
        Option.bind (error_or_panic env ()) (\<lambda>_.
          case replace_last_turn_images (session_history (run_session (tn_run t))) (lit ''Invalid image'') of
            (history, replaced) \<Rightarrow>
              let t = with_run (\<lambda>r. set_session ((run_session r)\<lparr>session_history := history\<rparr>) r) t
              in Some (if replaced then TurnContinue t else TurnDone (emit (ErrorMessage bad_image_message) t) None))
      else Some (TurnDone (emit (ErrorEvent err) t) None))"

definition turn_step :: "turn_env \<Rightarrow> turn_run \<Rightarrow> turn_next option" where
  "turn_step env t =
     Option.bind (record_pending env 0 (tn_pending t) (t\<lparr>tn_pending := []\<rparr>)) (\<lambda>t.
     Option.bind (for_prompt (env_debug (te_ctx env)) (env_modalities (te_ctx env))
                    (session_history (run_session (tn_run t)))) (\<lambda>input.
     Option.bind (run_sampling_request env input t) (\<lambda>(t, res).
       case res of
         Inr (follow_up, last_message) \<Rightarrow> after_response env input t follow_up last_message
       | Inl err \<Rightarrow> after_failure env t err)))"

text \<open>The loop of a turn, which ends when the model asks for nothing more; None is a turn that never
  ends, \<open>Some None\<close> a panic.\<close>

partial_function (option) turn_loop :: "turn_env \<Rightarrow> turn_run \<Rightarrow> (turn_run \<times> ustr option) option option" where
  "turn_loop env t =
     (case turn_step env t of
        None \<Rightarrow> Some None
      | Some (TurnDone t m) \<Rightarrow> Some (Some (t, m))
      | Some (TurnContinue t) \<Rightarrow> turn_loop env t)"

definition begin_turn :: "turn_env \<Rightarrow> user_input list \<Rightarrow> turn_run \<Rightarrow> turn_run option" where
  "begin_turn env inputs t =
     (let t = with_run (te_prepare env) t;
          t = foldl (\<lambda>t m. emit (SkillWarning m) t) t (te_skill_warnings env);
          t = with_run (\<lambda>r. set_session (fst (merge_connector_selection (run_session r) (te_connectors env))) r) t
      in Option.bind (record_user_prompt env (te_uuid env (tn_clock t) 0) inputs (input_message (te_local_items env) inputs) t)
           (\<lambda>t. if te_skill_items env = [] then Some t else record_in_turn env (te_skill_items env) t))"

definition run_turn ::
  "turn_env \<Rightarrow> user_input list \<Rightarrow> turn_run \<Rightarrow> (turn_run \<times> ustr option) option option" where
  "run_turn env inputs t =
     (if inputs = [] then Some (Some (t, None))
      else
        case pre_sampling_compact env (emit TurnStarted t) of
          None \<Rightarrow> Some None
        | Some (t, Inl e) \<Rightarrow> Some (Some (t, None))
        | Some (t, Inr _) \<Rightarrow>
            if \<not> te_mcp_listed env then Some (Some (t, None))
            else case begin_turn env inputs t of None \<Rightarrow> Some None | Some t \<Rightarrow> turn_loop env t)"

end
