(* ===== verification/TurnProperties.thy ===== *)
theory TurnProperties
  imports TurnLoop
begin

text \<open>
  What holds of a turn: what a response leaves in the history and the rollout, that its calls are
  answered, how often a request is repeated, what the prompts look like, and when a turn ends.
\<close>

section \<open>What is recorded\<close>

lemma send_event_frame [simp]: "run_session (send_event e r) = run_session r"
  by (simp add: send_event_def)

definition recorded :: "compact_env \<Rightarrow> response_item list \<Rightarrow> session_run \<Rightarrow> session_run \<Rightarrow> bool" where
  "recorded ctx items r r' \<longleftrightarrow>
     run_rollout r' = run_rollout r @ map RolloutResponse (filter should_persist_response_item items) \<and>
     map_option ctx_items (record_items (session_history (run_session r)) items (env_policy ctx)) = Some (run_items r')"

lemma recorded_nil: "recorded ctx [] r r' \<longleftrightarrow> run_rollout r' = run_rollout r \<and> run_items r' = run_items r"
  by (auto simp: recorded_def)

lemma recorded_refl [simp]: "recorded ctx [] r r"
  by (simp add: recorded_nil)

lemma recorded_trans:
  assumes "recorded ctx a r r1" and "recorded ctx b r1 r2"
  shows "recorded ctx (a @ b) r r2"
proof -
  from assms(1) obtain cm where cm: "record_items (session_history (run_session r)) a (env_policy ctx) = Some cm"
      "ctx_items cm = run_items r1"
    by (auto simp: recorded_def)
  then show ?thesis
    using assms record_items_cong [OF cm(2), of b "env_policy ctx"]
    by (simp add: recorded_def record_items_append)
qed

lemma recorded_same:
  assumes "recorded ctx items r r1" and "run_rollout r2 = run_rollout r1" and "run_items r2 = run_items r1"
  shows "recorded ctx items r r2"
  using assms by (simp add: recorded_def)

lemma record_conversation_recorded:
  "record_conversation_items ctx items r = Some r' \<Longrightarrow> recorded ctx items r r'"
  by (auto simp: record_conversation_items_def record_into_history_def session_record_items_def
      persist_response_items_def set_session_def recorded_def)

lemma record_conversation_total: "\<exists>r'. record_conversation_items ctx items r = Some r'"
  using record_items_spec [of "session_history (run_session r)" items "env_policy ctx"]
  by (auto simp: record_conversation_items_def record_into_history_def session_record_items_def)

lemma recorded_event [simp]:
  "recorded ctx items r (send_event e r') \<longleftrightarrow> recorded ctx items r r'"
  by (simp add: recorded_def)

lemma process_item_keys:
  "process_item item pol = Some out \<Longrightarrow> call_key out = call_key item \<and> output_key out = output_key item"
  by (cases "(item, pol)" rule: process_item.cases) (auto simp: Let_def)

lemma key_is_api: "call_key item \<noteq> None \<or> output_key item \<noteq> None \<Longrightarrow> is_api_message item"
  by (cases item) auto

lemma processed_keys:
  "list_all2 (\<lambda>item out. process_item item pol = Some out) items outs \<Longrightarrow>
   call_keys outs = call_keys items \<and> output_keys outs = output_keys items"
proof (induction rule: list_all2_induct)
  case (Cons x xs y ys)
  then show ?case
    using process_item_keys [of x pol y] by (simp split: option.split)
qed simp

lemma kept_keys:
  "call_keys (filter (\<lambda>i. is_api_message i \<or> is_ghost i) items) = call_keys items \<and>
   output_keys (filter (\<lambda>i. is_api_message i \<or> is_ghost i) items) = output_keys items"
  using key_is_api by (induction items) (auto split: option.splits)

lemma recorded_keys:
  assumes "recorded ctx items r r'"
  shows "call_keys (run_items r') = call_keys (run_items r) @ call_keys items \<and>
    output_keys (run_items r') = output_keys (run_items r) @ output_keys items"
proof -
  obtain out where "record_items (session_history (run_session r)) items (env_policy ctx) =
      Some ((session_history (run_session r))\<lparr>ctx_items := run_items r @ out\<rparr>)"
    and out: "list_all2 (\<lambda>item o'. process_item item (env_policy ctx) = Some o')
      (filter (\<lambda>i. is_api_message i \<or> is_ghost i) items) out"
    using record_items_spec by blast
  then have "run_items r' = run_items r @ out"
    using assms by (simp add: recorded_def)
  then show ?thesis
    using processed_keys [OF out] kept_keys [of items] by simp
qed

section \<open>Plan mode only tells\<close>

text \<open>The functions of plan mode send events and nothing else.\<close>

definition only_tells :: "session_run \<Rightarrow> session_run \<Rightarrow> bool" where
  "only_tells r r' \<longleftrightarrow> run_session r' = run_session r \<and> run_rollout r' = run_rollout r"

lemma only_tells_refl [simp]: "only_tells r r"
  by (simp add: only_tells_def)

lemma only_tells_event [simp]: "only_tells r (send_event e r') \<longleftrightarrow> only_tells r r'"
  by (simp add: only_tells_def send_event_def)

lemma only_tells_trans: "only_tells r r1 \<Longrightarrow> only_tells r1 r2 \<Longrightarrow> only_tells r r2"
  by (simp add: only_tells_def)

lemma plan_tells:
  "only_tells (snd p) (snd (plan_start p))" "only_tells (snd p) (snd (plan_push_delta delta p))"
  "only_tells (snd p) (snd (plan_complete plan_text p))" "only_tells (snd p) (snd (maybe_emit_pending_start i p))"
  by (cases p; auto split: option.splits)+

lemma handle_plan_segment_tells: "only_tells (snd p) (snd (handle_plan_segment i p seg))"
  by (cases p; cases seg) (auto simp: Let_def split: option.splits)

lemma handle_plan_segments_tells: "only_tells (snd p) (snd (handle_plan_segments i segs p))"
  unfolding handle_plan_segments_def
proof (induction segs arbitrary: p)
  case (Cons seg segs)
  show ?case
    unfolding foldl.simps by (rule only_tells_trans [OF handle_plan_segment_tells Cons.IH])
qed simp

lemma flush_item_tells: "only_tells (snd p) (snd (flush_plan_segments_for_item i p))"
proof -
  have "only_tells (snd p) (snd (handle_plan_segments i segs (st, snd p)))" for segs st
    using handle_plan_segments_tells [of "(st, snd p)"] by simp
  then show ?thesis
    by (simp add: flush_plan_segments_for_item_def split: prod.splits option.splits)
qed

lemma flush_all_tells: "only_tells (snd p) (snd (flush_plan_segments_all order p))"
proof -
  have "only_tells (snd q) (snd (foldl (\<lambda>p (i, parser). handle_plan_segments i (snd (plan_finish parser)) p) q entries))"
    for q :: plan_run and entries
  proof (induction entries arbitrary: q)
    case (Cons entry entries)
    show ?case
      unfolding foldl.simps by (cases entry, simp only: prod.case)
        (rule only_tells_trans [OF handle_plan_segments_tells Cons.IH])
  qed simp
  from this [of "((fst p)\<lparr>plan_parsers := []\<rparr>, snd p)"] show ?thesis
    by (simp add: flush_plan_segments_all_def)
qed

lemma complete_item_tells: "only_tells (snd p) (snd (maybe_complete_plan_item item p))"
proof (cases item)
  case (Message item_id role content end_turn ph)
  then show ?thesis
    using plan_tells(3) [of "plan_start p"] plan_tells(1) [of p] plan_tells(3) [of p]
    by (auto intro: only_tells_trans simp del: plan_start.simps plan_complete.simps split: option.splits)
qed auto

lemma emit_message_tells: "only_tells (snd p) (snd (emit_agent_message_in_plan_mode a p))"
proof -
  obtain st r where start: "maybe_emit_pending_start (am_id a) p = (st, r)"
    by fastforce
  then have "only_tells (snd p) r"
    using plan_tells(4) [of p "am_id a"] by simp
  then show ?thesis
    by (simp add: emit_agent_message_in_plan_mode_def start Let_def)
qed

lemma emit_turn_item_tells: "only_tells (snd p) (snd (emit_turn_item_in_plan_mode t active p))"
  using emit_message_tells by (cases p; cases t) auto

lemma parse_plan_delta_tells: "only_tells (snd p) (snd (parse_plan_delta i delta p))"
proof -
  have "only_tells (snd p) (snd (handle_plan_segments i segs (st, snd p)))" for segs st
    using handle_plan_segments_tells [of "(st, snd p)"] by simp
  then show ?thesis
    by (simp add: parse_plan_delta_def split: prod.splits)
qed

section \<open>What a stream leaves behind\<close>

fun stops :: "streamed \<Rightarrow> bool" where
  "stops TokenCancelled \<longleftrightarrow> True"
| "stops (Streamed (StreamFailed _)) \<longleftrightarrow> True"
| "stops (Streamed (StreamCompleted _)) \<longleftrightarrow> True"
| "stops _ \<longleftrightarrow> False"

definition before_stop :: "streamed list \<Rightarrow> streamed list" where
  "before_stop events = takeWhile (\<lambda>e. \<not> stops e) events"

definition stream_result :: "streamed list \<Rightarrow> codex_err + (codex_err + unit)" where
  "stream_result events =
     (case dropWhile (\<lambda>e. \<not> stops e) events of
        Streamed (StreamFailed e) # _ \<Rightarrow> Inl e
      | Streamed (StreamCompleted _) # _ \<Rightarrow> Inr (Inr ())
      | TokenCancelled # _ \<Rightarrow> Inr (Inl TurnAborted)
      | _ \<Rightarrow> Inr (Inl stream_closed))"

text \<open>The items an event adds to the history, and the call it starts.\<close>

fun items_of_event :: "turn_env \<Rightarrow> streamed \<Rightarrow> response_item list" where
  "items_of_event env (Streamed (OutputItemDone item)) =
     item # (case build_tool_call (te_mcp_name env) item of
               Inl err \<Rightarrow> [FunctionCallOutput [] (text_payload (show_call_error err))] | Inr _ \<Rightarrow> [])"
| "items_of_event env _ = []"

fun calls_of_event :: "turn_env \<Rightarrow> streamed \<Rightarrow> tool_call list" where
  "calls_of_event env (Streamed (OutputItemDone item)) =
     (case build_tool_call (te_mcp_name env) item of Inr (Some call) \<Rightarrow> [call] | _ \<Rightarrow> [])"
| "calls_of_event env _ = []"

fun wants_follow_up :: "turn_env \<Rightarrow> streamed \<Rightarrow> bool" where
  "wants_follow_up env (Streamed (OutputItemDone item)) \<longleftrightarrow> build_tool_call (te_mcp_name env) item \<noteq> Inr None"
| "wants_follow_up env _ \<longleftrightarrow> False"

definition streamed_items :: "turn_env \<Rightarrow> streamed list \<Rightarrow> response_item list" where
  "streamed_items env events = concat (map (items_of_event env) (before_stop events))"

definition streamed_calls :: "turn_env \<Rightarrow> streamed list \<Rightarrow> tool_call list" where
  "streamed_calls env events = concat (map (calls_of_event env) (before_stop events))"

lemma recorded_tells: "recorded ctx items r r1 \<Longrightarrow> only_tells r1 r2 \<Longrightarrow> recorded ctx items r r2"
  by (simp add: recorded_def only_tells_def)

lemma recorded_after_telling: "only_tells r r1 \<Longrightarrow> recorded ctx items r1 r2 \<longleftrightarrow> recorded ctx items r r2"
  by (simp add: recorded_def only_tells_def)

lemma record_sampled_run:
  "\<exists>r'. record_sampled env items s = Some (s\<lparr>sm_run := r'\<rparr>) \<and> recorded (te_ctx env) items (sm_run s) r'"
  using record_conversation_total [of "te_ctx env" items "sm_run s"] record_conversation_recorded
  by (auto simp: record_sampled_def)

lemma emit_sampled_run [simp]:
  "sm_calls (emit_sampled e s) = sm_calls s" "sm_follow_up (emit_sampled e s) = sm_follow_up s"
  "sm_plan (emit_sampled e s) = sm_plan s" "sm_run (emit_sampled e s) = send_event e (sm_run s)"
  "sm_active (emit_sampled e s) = sm_active s" "sm_last (emit_sampled e s) = sm_last s"
  by (simp_all add: emit_sampled_def)

lemma with_plan_run:
  assumes "\<And>p. only_tells (snd p) (snd (f p))"
  shows "sm_calls (with_plan f s) = sm_calls s" "sm_follow_up (with_plan f s) = sm_follow_up s"
    "only_tells (sm_run s) (sm_run (with_plan f s))" "sm_plan (with_plan f s) = None \<longleftrightarrow> sm_plan s = None"
    "sm_last (with_plan f s) = sm_last s" "sm_active (with_plan f s) = sm_active s"
  using assms [of "(the (sm_plan s), sm_run s)"]
  by (auto simp: with_plan_def split: option.splits prod.splits)

text \<open>How one event changes the loop's state.\<close>

definition stepped :: "turn_env \<Rightarrow> streamed \<Rightarrow> sampling \<Rightarrow> sampling \<Rightarrow> bool" where
  "stepped env e s s' \<longleftrightarrow>
     recorded (te_ctx env) (items_of_event env e) (sm_run s) (sm_run s') \<and>
     sm_calls s' = sm_calls s @ calls_of_event env e \<and>
     (sm_follow_up s' \<longleftrightarrow> sm_follow_up s \<or> wants_follow_up env e)"

lemma handle_item_stepped:
  assumes "only_tells (sm_run s0) (sm_run s)" "sm_calls s = sm_calls s0" "sm_follow_up s = sm_follow_up s0"
  shows "\<exists>s'. handle_output_item_done env uuid item active s = Some (GoOn s') \<and>
    stepped env (Streamed (OutputItemDone item)) s0 s'"
proof -
  note start = recorded_after_telling [OF assms(1)]
  show ?thesis
  proof (cases "build_tool_call (te_mcp_name env) item")
    case (Inl err)
    then have err: "err = MissingLocalShellCallId"
      using build_tool_call_error by blast
    let ?out = "FunctionCallOutput [] (text_payload (show_call_error err))"
    from record_sampled_run [of env "[item]" s] obtain r1
      where r1: "record_sampled env [item] s = Some (s\<lparr>sm_run := r1\<rparr>)" "recorded (te_ctx env) [item] (sm_run s) r1"
      by blast
    from record_sampled_run [of env "[?out]" "s\<lparr>sm_run := r1\<rparr>"] obtain r2
      where r2: "record_sampled env [?out] (s\<lparr>sm_run := r1\<rparr>) = Some (s\<lparr>sm_run := r2\<rparr>)" "recorded (te_ctx env) [?out] r1 r2"
      by auto
    from recorded_trans [OF r1(2) r2(2)] show ?thesis
      using Inl err r1(1) r2(1) assms start
      by (simp add: handle_output_item_done_def guardrail_output_def stepped_def)
  next
    case (Inr found)
    show ?thesis
    proof (cases found)
      case None
      let ?s = "case handle_non_tool_response_item uuid (te_plan_mode env) item of None \<Rightarrow> s
        | Some t \<Rightarrow> emit_sampled (ItemCompleted t) (if active = None then emit_sampled (ItemStarted t) s else s)"
      have same: "only_tells (sm_run s) (sm_run ?s)" "sm_calls ?s = sm_calls s" "sm_follow_up ?s = sm_follow_up s"
        by (auto split: option.splits)
      from record_sampled_run [of env "[item]" ?s] obtain r1
        where r1: "record_sampled env [item] ?s = Some (?s\<lparr>sm_run := r1\<rparr>)" "recorded (te_ctx env) [item] (sm_run ?s) r1"
        by blast
      note recorded = r1(2) [unfolded recorded_after_telling [OF same(1)]]
      then show ?thesis
        using Inr None r1(1) assms start same recorded
        by (auto simp: handle_output_item_done_def stepped_def Let_def simp del: emit_sampled_run split: option.splits)
    next
      case (Some call)
      from record_sampled_run [of env "[item]" s] obtain r1
        where "record_sampled env [item] s = Some (s\<lparr>sm_run := r1\<rparr>)" "recorded (te_ctx env) [item] (sm_run s) r1"
        by blast
      then show ?thesis
        using Inr Some assms start by (simp add: handle_output_item_done_def stepped_def)
    qed
  qed
qed

lemma plan_item_done:
  assumes "assistant_item_done_in_plan_mode ctx uuid item active p last_message = Some handled"
  shows "\<exists>p' m. handled = Some (p', m) \<and> recorded ctx [item] (snd p) (snd p') \<and> build_tool_call mcp_name item = Inr None"
proof -
  from assms obtain item_id role content end_turn ph where item: "item = Message item_id role content end_turn ph"
      "role = lit ''assistant''"
    by (auto simp: assistant_item_done_in_plan_mode_def split: response_item.splits if_splits)
  let ?p = "case handle_non_tool_response_item uuid True item of
    Some t \<Rightarrow> emit_turn_item_in_plan_mode t active (maybe_complete_plan_item item p) | None \<Rightarrow> maybe_complete_plan_item item p"
  obtain r where r: "record_conversation_items ctx [item] (snd ?p) = Some r"
    using record_conversation_total by blast
  have "only_tells (snd p) (snd ?p)"
    using complete_item_tells [of p item]
    by (auto intro: only_tells_trans emit_turn_item_tells split: option.split)
  then have "recorded ctx [item] (snd p) r"
    using record_conversation_recorded [OF r] recorded_after_telling by blast
  then show ?thesis
    using assms r item
    by (auto simp: assistant_item_done_in_plan_mode_def Let_def simp del: maybe_complete_plan_item.simps emit_turn_item_in_plan_mode.simps)
qed

lemma output_item_done_stepped:
  "\<exists>s'. output_item_done env uuid item s = Some (GoOn s') \<and> stepped env (Streamed (OutputItemDone item)) s s'"
proof -
  let ?s = "case sm_active s of
      Some t \<Rightarrow> if is_agent_message t
        then with_plan (flush_plan_segments_for_item (turn_item_id t)) (s\<lparr>sm_active := None\<rparr>) else s\<lparr>sm_active := None\<rparr>
    | None \<Rightarrow> s\<lparr>sm_active := None\<rparr>"
  have same: "only_tells (sm_run s) (sm_run ?s)" "sm_calls ?s = sm_calls s" "sm_follow_up ?s = sm_follow_up s"
    using with_plan_run [OF flush_item_tells, where s = "s\<lparr>sm_active := None\<rparr>"] by (auto split: option.split)
  have done_eq: "output_item_done env uuid item s =
      (case sm_plan ?s of
         None \<Rightarrow> handle_output_item_done env uuid item (sm_active s) ?s
       | Some st \<Rightarrow>
           (case assistant_item_done_in_plan_mode (te_ctx env) uuid item (sm_active s) (st, sm_run ?s) (sm_last ?s) of
              None \<Rightarrow> handle_output_item_done env uuid item (sm_active s) ?s
            | Some handled \<Rightarrow>
                map_option (\<lambda>((st, r), last_message).
                    GoOn (?s\<lparr>sm_plan := Some st, sm_run := r, sm_last := last_message\<rparr>)) handled))"
    by (simp add: output_item_done_def Let_def)
  note handled = handle_item_stepped [OF same]
  show ?thesis
  proof (cases "sm_plan ?s")
    case None
    then show ?thesis
      using handled unfolding done_eq by simp
  next
    case (Some st)
    show ?thesis
    proof (cases "assistant_item_done_in_plan_mode (te_ctx env) uuid item (sm_active s) (st, sm_run ?s) (sm_last ?s)")
      case None
      then show ?thesis
        using handled Some unfolding done_eq by simp
    next
      case (Some result)
      from plan_item_done [OF Some, of "te_mcp_name env"] obtain st' r' m where
        result: "result = Some ((st', r'), m)" and rec: "recorded (te_ctx env) [item] (sm_run ?s) r'"
        and none: "build_tool_call (te_mcp_name env) item = Inr None"
        by auto
      from rec have "recorded (te_ctx env) [item] (sm_run s) r'"
        unfolding recorded_after_telling [OF same(1)] .
      then show ?thesis
        using Some \<open>sm_plan ?s = Some st\<close> result none same(2,3) unfolding done_eq by (simp add: stepped_def)
    qed
  qed
qed

lemma stepped_telling:
  assumes "\<And>item. e \<noteq> Streamed (OutputItemDone item)"
  shows "stepped env e s s' \<longleftrightarrow> run_rollout (sm_run s') = run_rollout (sm_run s) \<and>
    run_items (sm_run s') = run_items (sm_run s) \<and> sm_calls s' = sm_calls s \<and> sm_follow_up s' = sm_follow_up s"
proof -
  have "items_of_event env e = [] \<and> calls_of_event env e = [] \<and> \<not> wants_follow_up env e"
    using assms by (cases "(env, e)" rule: items_of_event.cases) auto
  then show ?thesis
    by (auto simp: stepped_def recorded_nil)
qed

lemma tells_same: "only_tells r r' \<Longrightarrow> run_rollout r' = run_rollout r \<and> run_items r' = run_items r"
  by (simp add: only_tells_def)

lemma item_added_same:
  "run_rollout (sm_run (output_item_added env uuid item s)) = run_rollout (sm_run s) \<and>
   run_items (sm_run (output_item_added env uuid item s)) = run_items (sm_run s) \<and>
   sm_calls (output_item_added env uuid item s) = sm_calls s \<and>
   sm_follow_up (output_item_added env uuid item s) = sm_follow_up s"
  by (auto simp: output_item_added_def with_plan_def split: option.split)

lemma text_delta_same:
  "run_rollout (sm_run (output_text_delta delta t s)) = run_rollout (sm_run s) \<and>
   run_items (sm_run (output_text_delta delta t s)) = run_items (sm_run s) \<and>
   sm_calls (output_text_delta delta t s) = sm_calls s \<and> sm_follow_up (output_text_delta delta t s) = sm_follow_up s"
  using with_plan_run [of "parse_plan_delta (turn_item_id t) delta" s, OF parse_plan_delta_tells]
  by (auto simp: output_text_delta_def dest: tells_same)

lemma with_active_same:
  assumes "\<not> env_debug (te_ctx env)"
    and "\<And>t. run_rollout (sm_run (f t s)) = run_rollout (sm_run s) \<and> run_items (sm_run (f t s)) = run_items (sm_run s) \<and>
      sm_calls (f t s) = sm_calls s \<and> sm_follow_up (f t s) = sm_follow_up s"
  shows "\<exists>s'. with_active env f s = Some (GoOn s') \<and>
    run_rollout (sm_run s') = run_rollout (sm_run s) \<and> run_items (sm_run s') = run_items (sm_run s) \<and>
    sm_calls s' = sm_calls s \<and> sm_follow_up s' = sm_follow_up s"
  using assms by (auto simp: with_active_def error_or_panic_def split: option.split)

lemma stream_step_stepped:
  assumes "\<not> env_debug (te_ctx env)" and "\<not> stops e"
  shows "\<exists>s'. stream_step env k pending e s = Some (GoOn s') \<and> stepped env e s s'"
proof -
  show ?thesis
    using assms(2) output_item_done_stepped item_added_same text_delta_same
    by (cases "(env, k, pending, e, s)" rule: stream_step.cases)
      (auto simp: stepped_telling set_session_def note_rate_limits_def set_rate_limits_def intro!: with_active_same [OF assms(1)])
qed

lemma stream_loop_spec:
  assumes "\<not> env_debug (te_ctx env)"
  shows "\<exists>s'. stream_loop env k pending events s = Some (s', stream_result events) \<and>
    recorded (te_ctx env) (streamed_items env events) (sm_run s) (sm_run s') \<and>
    sm_calls s' = sm_calls s @ streamed_calls env events \<and>
    (sm_follow_up s' \<longleftrightarrow> sm_follow_up s \<or> list_ex (wants_follow_up env) (before_stop events) \<or>
       (stream_result events = Inr (Inr ()) \<and> pending))"
proof (induction events arbitrary: s)
  case Nil
  then show ?case
    by (simp add: stream_result_def streamed_items_def streamed_calls_def before_stop_def)
next
  case (Cons e events)
  show ?case
  proof (cases "stops e")
    case True
    have flushed: "only_tells (sm_run s) (sm_run (with_plan (flush_plan_segments_all (te_drain_order env)) s))"
      using with_plan_run [OF flush_all_tells] by simp
    show ?thesis
      using True tells_same [OF flushed] with_plan_run [OF flush_all_tells]
      by (cases e rule: stops.cases)
        (auto simp: stream_result_def streamed_items_def streamed_calls_def before_stop_def recorded_nil Let_def
          update_token_usage_info_def set_session_def update_token_info_from_usage_def update_token_info_def split: option.split)
  next
    case False
    from stream_step_stepped [OF assms False, of k pending s] obtain s1 where
      s1: "stream_step env k pending e s = Some (GoOn s1)" and step: "stepped env e s s1"
      by blast
    from Cons.IH [of "s1\<lparr>sm_index := sm_index s1 + 1\<rparr>"] obtain s2 where
      s2: "stream_loop env k pending events (s1\<lparr>sm_index := sm_index s1 + 1\<rparr>) = Some (s2, stream_result events)"
        "recorded (te_ctx env) (streamed_items env events) (sm_run s1) (sm_run s2)"
        "sm_calls s2 = sm_calls s1 @ streamed_calls env events"
        "sm_follow_up s2 \<longleftrightarrow> sm_follow_up s1 \<or> list_ex (wants_follow_up env) (before_stop events) \<or>
          (stream_result events = Inr (Inr ()) \<and> pending)"
      by auto
    have unfold_event: "streamed_items env (e # events) = items_of_event env e @ streamed_items env events"
        "streamed_calls env (e # events) = calls_of_event env e @ streamed_calls env events"
        "stream_result (e # events) = stream_result events" "before_stop (e # events) = e # before_stop events"
      using False by (simp_all add: streamed_items_def streamed_calls_def stream_result_def before_stop_def)
    show ?thesis
      using s1 s2 step recorded_trans [of "te_ctx env" "items_of_event env e" "sm_run s" "sm_run s1"]
      unfolding unfold_event by (auto simp: stepped_def)
  qed
qed

section \<open>A response and its answers\<close>

definition tasks_of :: "turn_env \<Rightarrow> nat \<Rightarrow> nat \<Rightarrow> tool_call list \<Rightarrow> (tool_call \<times> task_end) list" where
  "tasks_of env k i calls = zip calls (map (te_task env k) [i..<i + length calls])"

lemma tasks_of_simps [simp]:
  "tasks_of env k i [] = []"
  "tasks_of env k i (call # calls) = (call, te_task env k i) # tasks_of env k (i + 1) calls"
proof -
  have "[i..<i + length (call # calls)] = i # [i + 1..<i + 1 + length calls]"
    by (subst upt_conv_Cons) simp_all
  then show "tasks_of env k i (call # calls) = (call, te_task env k i) # tasks_of env k (i + 1) calls"
    by (simp add: tasks_of_def del: upt_Suc)
qed (simp add: tasks_of_def)

lemma map_fst_tasks: "map fst (tasks_of env k i calls) = calls"
  by (simp add: tasks_of_def)

text \<open>The outputs a response adds, and all it adds.\<close>

definition answer_items :: "turn_env \<Rightarrow> tool_router \<Rightarrow> nat \<Rightarrow> tool_call list \<Rightarrow> response_item list" where
  "answer_items env router k calls =
     map (item_of_input (te_dbg_str env)) (answers_of (handle_tool_call router) (tasks_of env k 0 calls))"

definition response_items :: "turn_env \<Rightarrow> tool_router \<Rightarrow> nat \<Rightarrow> streamed list \<Rightarrow> response_item list" where
  "response_items env router k events =
     streamed_items env events @ answer_items env router k (streamed_calls env events)"

lemma drain_spec:
  assumes "\<not> env_debug (te_ctx env)"
  shows "\<exists>r'. drain_in_flight env router k i calls r = Some r' \<and>
    recorded (te_ctx env) (map (item_of_input (te_dbg_str env))
      (answers_of (handle_tool_call router) (tasks_of env k i calls))) r r'"
proof (induction calls arbitrary: i r)
  case (Cons call calls)
  show ?case
  proof (cases "handle_tool_call router call (te_task env k i)")
    case (Inl err)
    with Cons.IH [of "i + 1" r] assms show ?thesis
      by (simp add: error_or_panic_def)
  next
    case (Inr response)
    obtain r1 where r1: "record_conversation_items (te_ctx env) [item_of_input (te_dbg_str env) response] r = Some r1"
      using record_conversation_total by blast
    from Cons.IH [of "i + 1" r1] obtain r2 where r2: "drain_in_flight env router k (i + 1) calls r1 = Some r2"
        "recorded (te_ctx env) (map (item_of_input (te_dbg_str env))
          (answers_of (handle_tool_call router) (tasks_of env k (i + 1) calls))) r1 r2"
      by blast
    from recorded_trans [OF record_conversation_recorded [OF r1] r2(2)] show ?thesis
      using Inr r1 r2(1) by simp
  qed
qed simp

lemma try_run_spec:
  assumes "\<not> env_debug (te_ctx env)" and "te_stream env (tn_clock t) prompt = Inr events"
  shows "\<exists>t' res. try_run_sampling_request env router prompt t = Some (t', res) \<and>
    (case stream_result events of
       Inl e \<Rightarrow> res = Inl e \<and>
         recorded (te_ctx env) (streamed_items env events)
           (persist_rollout (RolloutTurnContext (env_model (te_ctx env))) (tn_run t)) (tn_run t')
     | Inr outcome \<Rightarrow>
         (case outcome of
            Inl e \<Rightarrow> res = Inl e
          | Inr _ \<Rightarrow> \<exists>m. res = Inr (list_ex (wants_follow_up env) (before_stop events) \<or>
              tn_pending t @ fst (te_arrivals env (tn_clock t)) \<noteq> [], m)) \<and>
         recorded (te_ctx env) (response_items env router (tn_clock t) events)
           (persist_rollout (RolloutTurnContext (env_model (te_ctx env))) (tn_run t)) (tn_run t'))"
proof -
  let ?k = "tn_clock t"
  let ?pending = "tn_pending t @ fst (te_arrivals env ?k)"
  let ?r = "persist_rollout (RolloutTurnContext (env_model (te_ctx env))) (tn_run t)"
  from stream_loop_spec [OF assms(1), of ?k "?pending \<noteq> []" events "sampling_new env ?r"] obtain s where
    s: "stream_loop env ?k (?pending \<noteq> []) events (sampling_new env ?r) = Some (s, stream_result events)"
      "recorded (te_ctx env) (streamed_items env events) ?r (sm_run s)"
      "sm_calls s = streamed_calls env events"
      "sm_follow_up s \<longleftrightarrow> list_ex (wants_follow_up env) (before_stop events) \<or>
        (stream_result events = Inr (Inr ()) \<and> ?pending \<noteq> [])"
    by (auto simp: sampling_new_def)
  show ?thesis
  proof (cases "stream_result events")
    case (Inl e)
    then show ?thesis
      using assms(2) s(1,2) by (simp add: try_run_sampling_request_def Let_def with_run_def)
  next
    case (Inr outcome)
    from drain_spec [OF assms(1), of router ?k 0 "sm_calls s" "sm_run s"] obtain r where
      r: "drain_in_flight env router ?k 0 (sm_calls s) (sm_run s) = Some r"
        "recorded (te_ctx env) (answer_items env router ?k (sm_calls s)) (sm_run s) r"
      by (auto simp: answer_items_def)
    have rec: "recorded (te_ctx env) (response_items env router ?k events) ?r r"
      using recorded_trans [OF s(2) r(2)] s(3) by (simp add: response_items_def)
    show ?thesis
      using assms(2) s(1,4) r(1) rec Inr
      by (cases outcome) (auto simp: try_run_sampling_request_def Let_def with_run_def emit_def split: option.split)
  qed
qed

subsection \<open>A turn with one call\<close>

text \<open>The model calls a tool that the agent does not have, is told so, and ends the turn with a message.\<close>

definition called :: response_item where
  "called = FunctionCall None (lit ''look'') (lit ''{}'') (lit ''c1'')"

definition answered :: response_item where
  "answered = Message None (lit ''assistant'') [MsgOutputText (lit ''done'')] None None"

definition no_tools :: tool_router where
  "no_tools = \<lparr>tr_handlers = (\<lambda>_. None), tr_hooks = [], tr_js_repl_only = False\<rparr>"

definition one_call_env :: turn_env where
  "one_call_env =
     \<lparr>te_ctx = quiet_env, te_with_model = (\<lambda>_. quiet_env), te_auto_limit = None, te_turn_id = lit ''t'', te_plan_mode = False,
      te_websockets = True, te_router = (\<lambda>_. Some no_tools), te_mcp_name = (\<lambda>_. None),
      te_stream = (\<lambda>k _. Inr (if k = 0 then [Streamed (OutputItemDone called), Streamed (StreamCompleted None)]
                              else [Streamed (OutputItemDone answered), Streamed (StreamCompleted None)])),
      te_task = (\<lambda>_ _. TaskRan), te_arrivals = (\<lambda>_. ([], [])), te_turn_diff = (\<lambda>_. None),
      te_compact_stream = (\<lambda>_ _ _. Inl stream_closed), te_remote_compact = None, te_compact_prompt = [],
      te_local_items = (\<lambda>_ _. []), te_uuid = (\<lambda>_ _. []), te_drain_order = (\<lambda>xs. xs), te_dbg_str = (\<lambda>s. s),
      te_prepare = (\<lambda>r. r), te_mcp_listed = True, te_skill_items = [], te_skill_warnings = [], te_connectors = [],
      te_hooks = []\<rparr>"

definition idle_turn :: turn_run where
  "idle_turn = \<lparr>tn_run = fresh_run, tn_clock = 0, tn_pending = [], tn_http = False, tn_sent = []\<rparr>"

lemma idle_turn_simps [simp]:
  "tn_clock idle_turn = 0" "tn_pending idle_turn = []" "tn_http idle_turn = False" "tn_sent idle_turn = []"
  "tn_run idle_turn = fresh_run"
  by (simp_all add: idle_turn_def)

lemma one_call_simps [simp]:
  "te_ctx one_call_env = quiet_env" "env_debug quiet_env = False" "te_router one_call_env k = Some no_tools"
  "te_arrivals one_call_env k = ([], [])" "te_mcp_name one_call_env name = None" "te_task one_call_env k i = TaskRan"
  "te_websockets one_call_env = True" "te_with_model one_call_env model = quiet_env"
  "te_stream one_call_env 0 prompt = Inr [Streamed (OutputItemDone called), Streamed (StreamCompleted None)]"
  "0 < k \<Longrightarrow> te_stream one_call_env k prompt = Inr [Streamed (OutputItemDone answered), Streamed (StreamCompleted None)]"
  by (simp_all add: one_call_env_def quiet_env_def)

lemma one_call_events [simp]:
  "before_stop [Streamed (OutputItemDone item), Streamed (StreamCompleted u)] = [Streamed (OutputItemDone item)]"
  "stream_result [Streamed (OutputItemDone item), Streamed (StreamCompleted u)] = Inr (Inr ())"
  by (simp_all add: before_stop_def stream_result_def)

lemma one_call_answer: "\<not> isl (handle_tool_call no_tools call TaskRan)"
  by (simp add: handle_tool_call_def dispatch_tool_call_def registry_dispatch_def no_tools_def)

lemma no_tools_freeform: "freeform_answers_text no_tools"
  by (simp add: freeform_answers_text_def no_tools_def)



section \<open>Calls are answered\<close>

text \<open>Items of a response that the history can pair: no outputs, and shell calls with a call id.\<close>

fun pairable :: "response_item \<Rightarrow> bool" where
  "pairable (LocalShellCall _ call_id _ _) \<longleftrightarrow> call_id \<noteq> None"
| "pairable item \<longleftrightarrow> output_key item = None"

fun pairable_event :: "streamed \<Rightarrow> bool" where
  "pairable_event (Streamed (OutputItemDone item)) \<longleftrightarrow> pairable item"
| "pairable_event _ \<longleftrightarrow> True"

definition all_answered :: "turn_env \<Rightarrow> tool_router \<Rightarrow> nat \<Rightarrow> tool_call list \<Rightarrow> bool" where
  "all_answered env router k calls \<longleftrightarrow>
     list_all (\<lambda>(call, ending). \<not> isl (handle_tool_call router call ending)) (tasks_of env k 0 calls)"

lemma pairable_keys:
  assumes "pairable item"
  shows "output_key item = None \<and> \<not> isl (build_tool_call mcp_name item) \<and>
    call_key item = map_option tool_call_key (projr (build_tool_call mcp_name item))"
proof -
  have "output_key item = None"
    using assms by (cases item) auto
  moreover have "\<not> isl (build_tool_call mcp_name item)"
  proof (cases "build_tool_call mcp_name item")
    case (Inl err)
    then show ?thesis
      using assms build_tool_call_error [of mcp_name item err] by auto
  qed simp
  ultimately show ?thesis
    using assms build_tool_call_key [of mcp_name item] build_tool_call_none [of mcp_name item]
    by (cases "build_tool_call mcp_name item"; cases "projr (build_tool_call mcp_name item)") auto
qed

lemma event_keys:
  assumes "pairable_event e"
  shows "call_keys (items_of_event env e) = map tool_call_key (calls_of_event env e) \<and>
    output_keys (items_of_event env e) = []"
proof (cases "(env, e)" rule: items_of_event.cases)
  case (1 env' item)
  then show ?thesis
    using assms pairable_keys [of item "te_mcp_name env"]
    by (cases "build_tool_call (te_mcp_name env) item") (auto split: option.splits)
qed auto

lemma streamed_keys:
  assumes "list_all pairable_event (before_stop events)"
  shows "call_keys (streamed_items env events) = map tool_call_key (streamed_calls env events) \<and>
    output_keys (streamed_items env events) = []"
proof -
  have "call_keys (concat (map (items_of_event env) es)) = map tool_call_key (concat (map (calls_of_event env) es)) \<and>
      output_keys (concat (map (items_of_event env) es)) = []" if "list_all pairable_event es" for es
    using that by (induction es) (auto simp: event_keys)
  then show ?thesis
    using assms by (simp add: streamed_items_def streamed_calls_def)
qed

lemma answer_keys:
  assumes "freeform_answers_text router" and "all_answered env router k calls"
  shows "output_keys (answer_items env router k calls) = map tool_call_key calls \<and>
    call_keys (answer_items env router k calls) = []"
proof -
  let ?answers = "answers_of (handle_tool_call router) (tasks_of env k 0 calls)"
  have keys: "map (\<lambda>a. output_key (item_of_input (te_dbg_str env) a)) ?answers = map (Some \<circ> tool_call_key) calls"
    using tool_runner.answers_complete [OF assms(1), of "tasks_of env k 0 calls" "te_dbg_str env"] assms(2) map_fst_tasks
    by (simp add: all_answered_def flip: map_map)
  have outs: "output_keys (map (item_of_input d) xs) = ys \<and> call_keys (map (item_of_input d) xs) = []"
    if "map (\<lambda>a. output_key (item_of_input d a)) xs = map Some ys" for d xs ys
    using that by (induction xs arbitrary: ys) (auto simp: Cons_eq_map_conv output_not_call)
  show ?thesis
    using outs [of "te_dbg_str env" ?answers "map tool_call_key calls"] keys by (simp add: answer_items_def)
qed



section \<open>Retries are bounded\<close>

lemma try_run_total:
  assumes "\<not> env_debug (te_ctx env)"
  shows "\<exists>t' res. try_run_sampling_request env router prompt t = Some (t', res)"
proof (cases "te_stream env (tn_clock t) prompt")
  case (Inl e)
  then show ?thesis by (simp add: try_run_sampling_request_def Let_def)
next
  case (Inr events)
  with try_run_spec [OF assms Inr, of router] show ?thesis by blast
qed

lemma after_error_spends:
  assumes "after_error env t retries err = AttemptAgain t' retries'"
  shows "retries_left env t' retries' + 1 = retries_left env t retries"
proof (cases err)
  case (UsageLimitReached limits)
  with assms show ?thesis
    by (simp add: after_error_def)
qed (use assms in \<open>auto simp: after_error_def try_switch_fallback_def retries_left_def Let_def split: if_splits\<close>)

lemma after_error_done:
  assumes "after_error env t retries err = AttemptDone t' res"
  shows "res = Inl err \<and> tn_sent t' = tn_sent t \<and> tn_clock t' = tn_clock t \<and> tn_pending t' = tn_pending t \<and>
    (is_retryable err \<longrightarrow> retries_left env t retries = 0)"
proof (cases err)
  case (UsageLimitReached limits)
  with assms show ?thesis
    by (auto simp: after_error_def split: option.splits)
qed (use assms in \<open>auto simp: after_error_def try_switch_fallback_def retries_left_def Let_def split: if_splits\<close>)

lemma retries_left_frame:
  "tn_http t' = tn_http t \<Longrightarrow> retries_left env t' retries = retries_left env t retries"
  by (simp add: retries_left_def)

lemma sampling_loop_spec:
  assumes "\<not> env_debug (te_ctx env)"
  shows "\<exists>t' res n. sampling_loop env router prompt t retries = Some (t', res) \<and>
    tn_sent t' = tn_sent t @ replicate n prompt \<and> tn_clock t' = tn_clock t + n \<and>
    1 \<le> n \<and> n \<le> retries_left env t retries + 1 \<and>
    (\<forall>e. res = Inl e \<longrightarrow> is_retryable e \<longrightarrow> n = retries_left env t retries + 1)"
  using assms
proof (induction env router prompt t retries rule: sampling_loop.induct)
  case (1 env router prompt t retries)
  from try_run_total [OF "1.prems"] obtain t1 res where
    run: "try_run_sampling_request env router prompt t = Some (t1, res)"
    by blast
  note frame = try_run_frame [OF run]
  show ?case
  proof (cases res)
    case (Inr out)
    then show ?thesis
      using run frame by (simp add: sampling_loop.simps sampling_attempt_def)
  next
    case (Inl err)
    show ?thesis
    proof (cases "after_error env t1 retries err")
      case (AttemptDone t2 res2)
      have attempt: "sampling_attempt env router prompt t retries = Some (AttemptDone t2 res2)"
        using run Inl AttemptDone by (simp add: sampling_attempt_def)
      show ?thesis
        using after_error_done [OF AttemptDone] frame retries_left_frame [of t1 t env retries]
        by (intro exI [of _ t2] exI [of _ res2] exI [of _ "1::nat"]) (auto simp: sampling_loop.simps attempt)
    next
      case (AttemptAgain t2 retries2)
      have attempt: "sampling_attempt env router prompt t retries = Some (AttemptAgain t2 retries2)"
        using run Inl AttemptAgain by (simp add: sampling_attempt_def)
      from "1.IH" [OF attempt refl "1.prems"] obtain t' res' n where
        rest: "sampling_loop env router prompt t2 retries2 = Some (t', res')"
          "tn_sent t' = tn_sent t2 @ replicate n prompt" "tn_clock t' = tn_clock t2 + n"
          "n \<le> retries_left env t2 retries2 + 1"
          "\<forall>e. res' = Inl e \<longrightarrow> is_retryable e \<longrightarrow> n = retries_left env t2 retries2 + 1"
        by blast
      have spent: "retries_left env t2 retries2 + 1 = retries_left env t retries"
        using after_error_spends [OF AttemptAgain] frame retries_left_frame [of t1 t env retries] by simp
      show ?thesis
        using rest spent after_error_again [OF AttemptAgain] frame
        by (intro exI [of _ t'] exI [of _ res'] exI [of _ "Suc n"]) (auto simp: sampling_loop.simps attempt)
    qed
  qed
qed

text \<open>How often a request may be sent: the retries and the first attempt, twice if the session can
  still fall back from the web socket to HTTP.\<close>

definition request_budget :: "turn_env \<Rightarrow> turn_run \<Rightarrow> nat" where
  "request_budget env t =
     (if te_websockets env \<and> \<not> tn_http t then 2 else 1) * (env_max_retries (te_ctx env) + 1)"

lemma retries_left_budget: "retries_left env t 0 + 1 = request_budget env t"
  by (simp add: retries_left_def request_budget_def)

text \<open>C13: a request is repeated unchanged and a bounded number of times. In a release build it always
  comes back; the same prompt was sent at most as often as the budget allows, and an error that could
  be retried is only given back when the budget is used up to the last attempt.\<close>
theorem retries_bounded:
  assumes "\<not> env_debug (te_ctx env)" and "te_router env (tn_clock t) = Some router"
  shows "\<exists>t' res n. run_sampling_request env input t = Some (t', res) \<and>
    tn_sent t' = tn_sent t @ replicate n input \<and> 1 \<le> n \<and> n \<le> request_budget env t \<and>
    (\<forall>e. res = Inl e \<longrightarrow> is_retryable e \<longrightarrow> n = request_budget env t)"
  using sampling_loop_spec [OF assms(1), of router input t 0] assms(2) retries_left_budget [of env t]
  by (simp add: run_sampling_request_def) blast

theorem retries_bounded_witness:
  "\<exists>t' res n. run_sampling_request one_call_env [called] idle_turn = Some (t', res) \<and>
     tn_sent t' = replicate n [called] \<and> 1 \<le> n \<and> n \<le> 2"
proof -
  have budget: "request_budget one_call_env idle_turn = 2"
    by (simp add: request_budget_def) (simp add: quiet_env_def)
  from retries_bounded [of one_call_env idle_turn no_tools "[called]"] show ?thesis
    unfolding budget by auto
qed

section \<open>A release build never panics\<close>

lemma compact_task_total:
  assumes "\<not> env_debug ctx"
  shows "\<exists>r' res. run_compact_task_inner ctx local_items inputs r = Some (r', res)"
proof -
  obtain history stripped where extracted: "extract_trailing_model_switch (session_history (run_session r)) = Some (history, stripped)"
    using extract_trailing_total by blast
  obtain history' where recorded: "record_items history [input_message local_items inputs] (env_policy ctx) = Some history'"
    using record_items_spec by blast
  obtain r1 res n where loop: "compact_loop ctx 0 (persist_rollout (RolloutTurnContext (env_model ctx)) (send_event CompactionStarted r))
      history' 0 0 = Some (r1, res, n)"
    using compact_loop_ends [OF assms] by blast
  show ?thesis
  proof (cases res)
    case (Inl e)
    then show ?thesis
      using extracted recorded loop by (simp add: run_compact_task_inner_def Let_def del: record_items.simps)
  next
    case (Inr u)
    obtain items where "build_compacted_history (env_initial_context ctx) (collect_user_messages (run_items r1))
        (summary_prefix @ newline @ (case last_assistant_message (run_items r1) of Some t \<Rightarrow> t | None \<Rightarrow> [])) = Some items"
      using build_compacted_shape [of "summary_prefix @ newline @ (case last_assistant_message (run_items r1) of Some t \<Rightarrow> t | None \<Rightarrow> [])"]
      by auto
    then show ?thesis
      using extracted recorded loop Inr by (simp add: run_compact_task_inner_def Let_def del: record_items.simps)
  qed
qed

lemma remote_compact_total:
  assumes "\<not> env_debug ctx"
  shows "\<exists>r' res. run_remote_compact ctx request r = Some (r', res)"
proof -
  obtain history stripped where extracted: "extract_trailing_model_switch (session_history (run_session r)) = Some (history, stripped)"
    using extract_trailing_total by blast
  obtain history' deleted where trimmed:
    "trim_function_call_history ctx history (base_instructions (run_session r)) = Some (history', deleted)"
    using trim_to_window_spec [of "env_json_len ctx" "base_instructions (run_session r)" "the (env_window ctx)" history 0]
    by (cases "env_window ctx") (auto simp: trim_function_call_history_def)
  obtain prompt where "for_prompt (env_debug ctx) (env_modalities ctx) history' = Some prompt"
    using for_prompt_total assms by auto
  then obtain r' res where "remote_compact_inner ctx request r = Some (r', res)"
    using extracted trimmed by (cases "request prompt") (simp_all add: remote_compact_inner_def Let_def)
  then show ?thesis
    by (cases res) (simp_all add: run_remote_compact_def)
qed

definition release_build :: "turn_env \<Rightarrow> bool" where
  "release_build env \<longleftrightarrow> \<not> env_debug (te_ctx env) \<and> (\<forall>model. \<not> env_debug (te_with_model env model))"

lemma auto_compact_total:
  assumes "\<not> env_debug ctx"
  shows "\<exists>t' res. auto_compact env ctx t = Some (t', res) \<and> tn_clock t' = tn_clock t + 1 \<and>
    tn_sent t' = tn_sent t \<and> tn_pending t' = tn_pending t"
proof (cases "te_remote_compact env")
  case None
  then show ?thesis
    using compact_task_total [of "ctx\<lparr>env_stream := te_compact_stream env (tn_clock t)\<rparr>" "te_local_items env"
        "[UserText (te_compact_prompt env) []]" "tn_run t"] assms
    by (auto simp: auto_compact_def Let_def)
next
  case (Some request)
  then show ?thesis
    using remote_compact_total [OF assms, of "request (tn_clock t)" "tn_run t"] by (auto simp: auto_compact_def Let_def)
qed

lemma record_in_turn_total:
  "\<exists>t'. record_in_turn env items t = Some t' \<and> tn_clock t' = tn_clock t \<and> tn_sent t' = tn_sent t \<and> tn_pending t' = tn_pending t"
  using record_conversation_total [of "te_ctx env" items "tn_run t"] by (auto simp: record_in_turn_def)

lemma record_user_prompt_total:
  "\<exists>t'. record_user_prompt env uuid inputs item t = Some t' \<and>
     tn_clock t' = tn_clock t \<and> tn_sent t' = tn_sent t \<and> tn_pending t' = tn_pending t"
  using record_in_turn_total [of env "[item]" t] by (auto simp: record_user_prompt_def Let_def)

lemma record_pending_total:
  "\<exists>t'. record_pending env i inputs t = Some t' \<and>
     tn_clock t' = tn_clock t \<and> tn_sent t' = tn_sent t \<and> tn_pending t' = tn_pending t"
proof (induction inputs arbitrary: i t)
  case (Cons input inputs)
  let ?item = "item_of_input (te_dbg_str env) input"
  have "\<exists>t1. (case parse_turn_item (te_uuid env (tn_clock t) i) ?item of
        Some (UserMessage u) \<Rightarrow> record_user_prompt env (te_uuid env (tn_clock t) (i + 1)) (um_content u) ?item t
      | _ \<Rightarrow> record_in_turn env [?item] t) = Some t1 \<and>
      tn_clock t1 = tn_clock t \<and> tn_sent t1 = tn_sent t \<and> tn_pending t1 = tn_pending t"
    using record_in_turn_total [of env "[?item]" t] record_user_prompt_total [of env _ _ ?item t]
    by (simp split: option.split turn_item.split)
  then obtain t1 where t1: "(case parse_turn_item (te_uuid env (tn_clock t) i) ?item of
        Some (UserMessage u) \<Rightarrow> record_user_prompt env (te_uuid env (tn_clock t) (i + 1)) (um_content u) ?item t
      | _ \<Rightarrow> record_in_turn env [?item] t) = Some t1"
      "tn_clock t1 = tn_clock t" "tn_sent t1 = tn_sent t" "tn_pending t1 = tn_pending t"
    by blast
  from Cons.IH [of "i + 2" t1] show ?case
    using t1 by (simp add: Let_def)
qed simp

lemma after_response_total:
  assumes "\<not> env_debug (te_ctx env)"
  shows "\<exists>nxt. after_response env input t follow_up m = Some nxt \<and>
    (case nxt of
       TurnContinue t' \<Rightarrow> tn_sent t' = tn_sent t \<and> tn_clock t \<le> tn_clock t' \<and> follow_up
     | TurnDone t' m' \<Rightarrow> tn_sent t' = tn_sent t \<and> (m' \<noteq> None \<longrightarrow> \<not> follow_up \<and> m' = m))"
proof -
  obtain t' res where compacted: "auto_compact env (te_ctx env) t = Some (t', res)" "tn_clock t' = tn_clock t + 1"
      "tn_sent t' = tn_sent t"
    using auto_compact_total [OF assms] by blast
  then show ?thesis
    by (cases res; cases "first_abort (dispatch_hooks (te_hooks env) (prompt_messages input, m))")
      (simp_all add: after_response_def)
qed

lemma after_failure_total:
  assumes "\<not> env_debug (te_ctx env)"
  shows "\<exists>nxt. after_failure env t err = Some nxt \<and>
    (case nxt of
       TurnContinue t' \<Rightarrow> tn_sent t' = tn_sent t \<and> tn_clock t' = tn_clock t \<and> err = InvalidImageRequest
     | TurnDone t' m' \<Rightarrow> tn_sent t' = tn_sent t \<and> m' = None)"
  using assms by (simp add: after_failure_def error_or_panic_def Let_def split: prod.split)

text \<open>One round of the loop of a turn: at most one prompt is sent (again and again), made from the
  history with the input that waited.\<close>

lemma run_request_total:
  assumes "\<not> env_debug (te_ctx env)"
  shows "\<exists>t' res n. run_sampling_request env prompt t = Some (t', res) \<and>
    tn_sent t' = tn_sent t @ replicate n prompt \<and> (res = Inl TurnAborted \<or> tn_clock t < tn_clock t') \<and> tn_clock t \<le> tn_clock t'"
proof (cases "te_router env (tn_clock t)")
  case None
  then show ?thesis
    by (auto simp: run_sampling_request_def intro: exI [of _ 0])
next
  case (Some router)
  from sampling_loop_spec [OF assms, of router prompt t 0] obtain t2 res n where
    "sampling_loop env router prompt t 0 = Some (t2, res)" "tn_sent t2 = tn_sent t @ replicate n prompt"
    "tn_clock t2 = tn_clock t + n" "1 \<le> n"
    by blast
  with Some show ?thesis
    by (auto simp: run_sampling_request_def)
qed

definition step_prompt :: "turn_env \<Rightarrow> turn_run \<Rightarrow> response_item list \<Rightarrow> bool" where
  "step_prompt env t prompt \<longleftrightarrow>
     (\<exists>t1. record_pending env 0 (tn_pending t) (t\<lparr>tn_pending := []\<rparr>) = Some t1 \<and>
        for_prompt False (env_modalities (te_ctx env)) (session_history (run_session (tn_run t1))) = Some prompt)"

lemma turn_step_total:
  assumes "\<not> env_debug (te_ctx env)"
  shows "\<exists>prompt nxt n. turn_step env t = Some nxt \<and> step_prompt env t prompt \<and>
    (case nxt of
       TurnContinue t' \<Rightarrow> tn_sent t' = tn_sent t @ replicate n prompt \<and> tn_clock t < tn_clock t'
     | TurnDone t' m \<Rightarrow> tn_sent t' = tn_sent t @ replicate n prompt)"
proof -
  obtain t1 where t1: "record_pending env 0 (tn_pending t) (t\<lparr>tn_pending := []\<rparr>) = Some t1"
      "tn_clock t1 = tn_clock t" "tn_sent t1 = tn_sent t"
    using record_pending_total [of env 0 "tn_pending t" "t\<lparr>tn_pending := []\<rparr>"] by auto
  obtain prompt where prompt: "for_prompt False (env_modalities (te_ctx env)) (session_history (run_session (tn_run t1))) = Some prompt"
    using for_prompt_total by blast
  obtain t2 res n where request: "run_sampling_request env prompt t1 = Some (t2, res)"
      "tn_sent t2 = tn_sent t @ replicate n prompt" "res = Inl TurnAborted \<or> tn_clock t < tn_clock t2" "tn_clock t \<le> tn_clock t2"
    using run_request_total [OF assms, of prompt t1] t1 by auto
  have step: "turn_step env t = (case res of
       Inr (follow_up, last_message) \<Rightarrow> after_response env prompt t2 follow_up last_message
     | Inl err \<Rightarrow> after_failure env t2 err)"
    using t1(1) prompt assms request(1) by (simp add: turn_step_def)
  have "step_prompt env t prompt"
    using t1(1) prompt by (auto simp: step_prompt_def)
  then show ?thesis
  proof (cases res)
    case (Inl err)
    from after_failure_total [OF assms, of t2 err] obtain nxt where "after_failure env t2 err = Some nxt" and
      "case nxt of
         TurnContinue t' \<Rightarrow> tn_sent t' = tn_sent t2 \<and> tn_clock t' = tn_clock t2 \<and> err = InvalidImageRequest
       | TurnDone t' m' \<Rightarrow> tn_sent t' = tn_sent t2 \<and> m' = None"
      by blast
    then show ?thesis
      using step Inl request \<open>step_prompt env t prompt\<close>
      by (intro exI [of _ prompt] exI [of _ nxt] exI [of _ n]) (auto split: turn_next.splits)
  next
    case (Inr out)
    obtain follow_up m where out: "out = (follow_up, m)"
      by fastforce
    from after_response_total [OF assms, of prompt t2 follow_up m] obtain nxt where
      "after_response env prompt t2 follow_up m = Some nxt" and
      "case nxt of
         TurnContinue t' \<Rightarrow> tn_sent t' = tn_sent t2 \<and> tn_clock t2 \<le> tn_clock t' \<and> follow_up
       | TurnDone t' m' \<Rightarrow> tn_sent t' = tn_sent t2 \<and> (m' \<noteq> None \<longrightarrow> \<not> follow_up \<and> m' = m)"
      by blast
    then show ?thesis
      using step Inr out request \<open>step_prompt env t prompt\<close>
      by (intro exI [of _ prompt] exI [of _ nxt] exI [of _ n]) (auto split: turn_next.splits)
  qed
qed

section \<open>The prompts of a turn\<close>

definition well_formed_prompt :: "turn_env \<Rightarrow> response_item list \<Rightarrow> bool" where
  "well_formed_prompt env prompt \<longleftrightarrow>
     paired prompt \<and> list_all (\<lambda>i. \<not> is_ghost i) prompt \<and>
     (ImageModality \<in> set (env_modalities (te_ctx env)) \<or> list_all image_free prompt)"

lemma step_prompt_well_formed: "step_prompt env t prompt \<Longrightarrow> well_formed_prompt env prompt"
proof -
  assume "step_prompt env t prompt"
  then obtain cm where "for_prompt False (env_modalities (te_ctx env)) cm = Some prompt"
    by (auto simp: step_prompt_def)
  with prompt_always_well_formed [of "env_modalities (te_ctx env)" cm] show ?thesis
    by (auto simp: well_formed_prompt_def paired_def)
qed

lemma turn_loop_prompts:
  assumes "turn_loop env t = Some res" and "\<not> env_debug (te_ctx env)"
  shows "\<exists>t' m prompts. res = Some (t', m) \<and> tn_sent t' = tn_sent t @ prompts \<and> list_all (well_formed_prompt env) prompts"
proof -
  have "\<not> env_debug (te_ctx env) \<longrightarrow>
    (\<exists>t' m prompts. res = Some (t', m) \<and> tn_sent t' = tn_sent t @ prompts \<and> list_all (well_formed_prompt env) prompts)"
  proof (rule turn_loop.raw_induct [OF _ assms(1)], rule impI)
    fix loop env t res
    assume IH: "\<And>env t res. loop env t = Some res \<Longrightarrow> \<not> env_debug (te_ctx env) \<longrightarrow>
        (\<exists>t' m prompts. res = Some (t', m) \<and> tn_sent t' = tn_sent t @ prompts \<and> list_all (well_formed_prompt env) prompts)"
      and ret: "(case turn_step env t of None \<Rightarrow> Some None | Some (TurnDone t m) \<Rightarrow> Some (Some (t, m))
        | Some (TurnContinue t) \<Rightarrow> loop env t) = Some res"
      and release: "\<not> env_debug (te_ctx env)"
    from turn_step_total [OF release, of t] obtain prompt nxt n where step: "turn_step env t = Some nxt"
      and prompt: "step_prompt env t prompt"
      and sent: "case nxt of
         TurnContinue t' \<Rightarrow> tn_sent t' = tn_sent t @ replicate n prompt \<and> tn_clock t < tn_clock t'
       | TurnDone t' m \<Rightarrow> tn_sent t' = tn_sent t @ replicate n prompt"
      by blast
    have ok: "list_all (well_formed_prompt env) (replicate n prompt)"
      using step_prompt_well_formed [OF prompt] by (simp add: list_all_iff)
    show "\<exists>t' m prompts. res = Some (t', m) \<and> tn_sent t' = tn_sent t @ prompts \<and> list_all (well_formed_prompt env) prompts"
    proof (cases nxt)
      case (TurnDone t' m)
      with step sent ret ok show ?thesis by auto
    next
      case (TurnContinue t1)
      with IH [of env t1 res] step ret release obtain t' m prompts where
        "res = Some (t', m)" "tn_sent t' = tn_sent t1 @ prompts" "list_all (well_formed_prompt env) prompts"
        by auto
      with sent TurnContinue ok show ?thesis
        by (intro exI [of _ t'] exI [of _ m] exI [of _ "replicate n prompt @ prompts"]) simp
    qed
  qed
  with assms(2) show ?thesis by blast
qed

lemma begin_turn_total:
  "\<exists>t'. begin_turn env inputs t = Some t' \<and> tn_sent t' = tn_sent t \<and> tn_clock t' = tn_clock t"
proof -
  let ?t1 = "foldl (\<lambda>t m. emit (SkillWarning m) t) (with_run (te_prepare env) t) (te_skill_warnings env)"
  let ?t2 = "with_run (\<lambda>r. set_session (fst (merge_connector_selection (run_session r) (te_connectors env))) r) ?t1"
  have "tn_sent (foldl (\<lambda>t m. emit (SkillWarning m) t) t ms) = tn_sent t \<and>
      tn_clock (foldl (\<lambda>t m. emit (SkillWarning m) t) t ms) = tn_clock t" for ms and t :: turn_run
    by (induction ms arbitrary: t) auto
  then have frame: "tn_sent ?t2 = tn_sent t" "tn_clock ?t2 = tn_clock t"
    by simp_all
  obtain t3 where t3: "record_user_prompt env (te_uuid env (tn_clock ?t2) 0) inputs (input_message (te_local_items env) inputs) ?t2 =
      Some t3" "tn_clock t3 = tn_clock ?t2" "tn_sent t3 = tn_sent ?t2"
    using record_user_prompt_total [of env "te_uuid env (tn_clock ?t2) 0" inputs] by blast
  then show ?thesis
    using record_in_turn_total [of env "te_skill_items env" t3] frame by (auto simp: begin_turn_def Let_def)
qed

lemma pre_sampling_total:
  assumes "release_build env"
  shows "\<exists>t' res. pre_sampling_compact env t = Some (t', res) \<and> tn_sent t' = tn_sent t"
proof -
  have "\<exists>t' res. previous_model_compact env n t = Some (t', res) \<and> tn_sent t' = tn_sent t" for n
  proof (cases "previous_model (run_session (tn_run t))")
    case None
    then show ?thesis by (simp add: previous_model_compact_def)
  next
    case (Some model)
    obtain t' res where "auto_compact env (te_with_model env model) t = Some (t', res)" "tn_sent t' = tn_sent t"
      using auto_compact_total [of "te_with_model env model" env t] assms unfolding release_build_def by blast
    then show ?thesis
      using Some by (simp add: previous_model_compact_def Let_def split: option.split)
  qed
  then obtain t1 res1 where t1: "previous_model_compact env (total_usage_tokens env t) t = Some (t1, res1)"
      "tn_sent t1 = tn_sent t"
    by blast
  then show ?thesis
    using assms auto_compact_total [of "te_ctx env" env t1]
    by (cases res1) (auto simp: pre_sampling_compact_def release_build_def)
qed

lemma run_turn_cases:
  assumes "release_build env"
  shows "(\<exists>t'. run_turn env inputs t = Some (Some (t', None)) \<and> tn_sent t' = tn_sent t) \<or>
    (\<exists>t'. run_turn env inputs t = turn_loop env t' \<and> tn_sent t' = tn_sent t)"
proof -
  obtain t1 res1 where t1: "pre_sampling_compact env (emit TurnStarted t) = Some (t1, res1)" "tn_sent t1 = tn_sent t"
    using pre_sampling_total [OF assms, of "emit TurnStarted t"] by auto
  obtain t2 where "begin_turn env inputs t1 = Some t2" "tn_sent t2 = tn_sent t1"
    using begin_turn_total by blast
  with t1 show ?thesis
    by (cases res1) (auto simp: run_turn_def)
qed

text \<open>C10: every prompt of a turn is well formed. When a turn of a release build comes back it did not
  panic, and in each prompt it sampled a response with, every call has an output and every output a call, whatever the
  model streamed, the tools answered or failed to answer, and however often requests failed and were
  repeated; none has a snapshot of the files, or an image for a model that does not read them.\<close>
theorem every_prompt_is_well_formed:
  assumes "release_build env" and "run_turn env inputs t = Some res"
  shows "\<exists>t' m prompts. res = Some (t', m) \<and> tn_sent t' = tn_sent t @ prompts \<and>
    list_all (well_formed_prompt env) prompts"
  using run_turn_cases [OF assms(1), of inputs t]
proof (elim disjE exE conjE)
  fix t' assume "run_turn env inputs t = Some (Some (t', None))" "tn_sent t' = tn_sent t"
  with assms(2) show ?thesis by auto
next
  fix t1 assume "run_turn env inputs t = turn_loop env t1" "tn_sent t1 = tn_sent t"
  with turn_loop_prompts [of env t1 res] assms show ?thesis
    by (simp add: release_build_def)
qed

section \<open>A turn ends\<close>

text \<open>From a request on the model has nothing more to ask: its responses are complete, have no calls,
  and nobody adds input.\<close>

definition nothing_more :: "turn_env \<Rightarrow> nat \<Rightarrow> bool" where
  "nothing_more env k \<longleftrightarrow> fst (te_arrivals env k) = [] \<and>
     (\<forall>prompt. \<exists>events. te_stream env k prompt = Inr events \<and> stream_result events = Inr (Inr ()) \<and>
        \<not> list_ex (wants_follow_up env) (before_stop events))"

lemma last_step:
  assumes "\<not> env_debug (te_ctx env)" and "nothing_more env (tn_clock t)"
  shows "\<exists>t' m. turn_step env t = Some (TurnDone t' m)"
proof -
  obtain t1 where t1: "record_pending env 0 (tn_pending t) (t\<lparr>tn_pending := []\<rparr>) = Some t1"
      "tn_clock t1 = tn_clock t" "tn_pending t1 = []"
    using record_pending_total [of env 0 "tn_pending t" "t\<lparr>tn_pending := []\<rparr>"] by auto
  obtain prompt where prompt: "for_prompt False (env_modalities (te_ctx env)) (session_history (run_session (tn_run t1))) = Some prompt"
    using for_prompt_total by blast
  show ?thesis
  proof (cases "te_router env (tn_clock t1)")
    case None
    then show ?thesis
      using t1(1) prompt assms(1) by (simp add: turn_step_def run_sampling_request_def after_failure_def)
  next
    case (Some router)
    from assms(2) t1(2) obtain events where events: "te_stream env (tn_clock t1) prompt = Inr events"
        "stream_result events = Inr (Inr ())" "\<not> list_ex (wants_follow_up env) (before_stop events)"
        "fst (te_arrivals env (tn_clock t1)) = []"
      unfolding nothing_more_def by metis
    obtain t2 m where "try_run_sampling_request env router prompt t1 = Some (t2, Inr (False, m))"
      using try_run_spec [OF assms(1) events(1), of router] events t1(3) by auto
    then have "run_sampling_request env prompt t1 = Some (t2, Inr (False, m))"
      using Some by (simp add: run_sampling_request_def sampling_loop.simps sampling_attempt_def)
    then show ?thesis
      using t1(1) prompt assms(1) by (simp add: turn_step_def after_response_def split: option.split)
  qed
qed

lemma turn_loop_ends:
  assumes "\<not> env_debug (te_ctx env)" and "\<And>k. last_request \<le> k \<Longrightarrow> nothing_more env k"
  shows "\<exists>t' m. turn_loop env t = Some (Some (t', m))"
proof (induction "last_request - tn_clock t" arbitrary: t rule: less_induct)
  case less
  show ?case
  proof (cases "last_request \<le> tn_clock t")
    case True
    with last_step [OF assms(1), of t] assms(2) show ?thesis
      by (auto simp: turn_loop.simps)
  next
    case False
    from turn_step_total [OF assms(1), of t] obtain nxt where step: "turn_step env t = Some nxt"
      and moved: "case nxt of TurnContinue t' \<Rightarrow> tn_clock t < tn_clock t' | TurnDone t' m \<Rightarrow> True"
      by (auto split: turn_next.splits)
    show ?thesis
    proof (cases nxt)
      case (TurnContinue t1)
      with less [of t1] moved False step show ?thesis
        by (subst turn_loop.simps) simp
    qed (simp add: turn_loop.simps step)
  qed
qed

text \<open>C12: a turn ends as soon as the model asks for nothing more. If there is a request from which on
  every response is complete, has no call and no input arrives, a turn of a release build comes back,
  whatever happened before: errors, retries, cancellations, compactions or images that were refused.\<close>
theorem turn_ends:
  assumes "release_build env" and "\<forall>k \<ge> last_request. nothing_more env k"
  shows "\<exists>t' m. run_turn env inputs t = Some (Some (t', m))"
  using run_turn_cases [OF assms(1), of inputs t] turn_loop_ends [of env last_request] assms
  by (auto simp: release_build_def)

lemma one_call_release: "release_build one_call_env"
  by (simp add: release_build_def)

lemma one_call_nothing_more: "1 \<le> k \<Longrightarrow> nothing_more one_call_env k"
  by (simp add: nothing_more_def answered_def)

theorem turn_ends_witness:
  "\<exists>t' m. run_turn one_call_env [UserText (lit ''hi'') []] idle_turn = Some (Some (t', m))"
  by (rule turn_ends [of one_call_env 1]) (simp_all add: one_call_release one_call_nothing_more)

theorem every_prompt_is_well_formed_witness:
  "\<exists>t' m. run_turn one_call_env [UserText (lit ''hi'') []] idle_turn = Some (Some (t', m)) \<and>
     list_all (well_formed_prompt one_call_env) (tn_sent t')"
proof -
  obtain res where res: "run_turn one_call_env [UserText (lit ''hi'') []] idle_turn = Some res"
    using run_turn_cases [OF one_call_release, of "[UserText (lit ''hi'') []]" idle_turn]
  proof (elim disjE exE conjE)
    fix t assume "run_turn one_call_env [UserText (lit ''hi'') []] idle_turn = turn_loop one_call_env t"
    with turn_loop_ends [of one_call_env 1 t] one_call_nothing_more that show ?thesis
      by auto
  qed
  from every_prompt_is_well_formed [OF one_call_release res] res show ?thesis
    by auto
qed

section \<open>Findings\<close>

text \<open>A stream that fails after calls: the items are recorded, the answers are not. The retry sends the
  same prompt (\<open>retries_bounded\<close>), so the model may ask for the calls again.\<close>

lemma failed_stream_drops_answers:
  assumes "\<not> env_debug (te_ctx env)" and "te_stream env (tn_clock t) prompt = Inr events"
    and "stream_result events = Inl e" and "list_all pairable_event (before_stop events)"
  shows "\<exists>t'. try_run_sampling_request env router prompt t = Some (t', Inl e) \<and>
    call_keys (run_items (tn_run t')) = call_keys (run_items (tn_run t)) @ map tool_call_key (streamed_calls env events) \<and>
    output_keys (run_items (tn_run t')) = output_keys (run_items (tn_run t))"
proof -
  from try_run_spec [OF assms(1,2), of router] assms(3) obtain t' where
    run: "try_run_sampling_request env router prompt t = Some (t', Inl e)"
    and rec: "recorded (te_ctx env) (streamed_items env events)
      (persist_rollout (RolloutTurnContext (env_model (te_ctx env))) (tn_run t)) (tn_run t')"
    by auto
  from recorded_keys [OF rec] run streamed_keys [OF assms(4), of env] show ?thesis
    by auto
qed

text \<open>A shell call that only has an item id is run under that id, but the history pairs by call id: its
  output never reaches the model.\<close>

lemma output_of_shell_call_by_id_is_orphan:
  assumes "build_tool_call mcp_name (LocalShellCall (Some c) None status (LocalShellExec exec)) = Inr (Some call)"
    and "freeform_answers_text router" and "handle_tool_call router call ending = Inr response"
  shows "is_orphan [LocalShellCall (Some c) None status (LocalShellExec exec), item_of_input dbg_str response]
    (item_of_input dbg_str response)"
proof -
  have key: "output_key (item_of_input dbg_str response) = Some (FunctionKind, c)"
    using handle_tool_call_key [OF assms(2,3)] assms(1) by (auto simp: tool_call_key_def)
  from output_not_call [OF key] show ?thesis
    by (simp add: is_orphan_key key)
qed

text \<open>The error about a shell call without any id is an output with an empty call id: an orphan too.\<close>

lemma guardrail_output_is_orphan:
  assumes "build_tool_call (te_mcp_name env) item = Inl err"
  shows "\<exists>out. items_of_event env (Streamed (OutputItemDone item)) = [item, out] \<and> is_orphan [item, out] out"
  using assms build_tool_call_error [of "te_mcp_name env" item err]
  by (auto simp: is_orphan_key)

text \<open>A call whose tool does not take its kind of payload is fatal, and a fatal answer is dropped (a
  debug build panics), not told to the model.\<close>

lemma mismatched_call_unanswered:
  assumes "tr_handlers router (tool_name call) = Some handler" and "\<not> th_matches_kind handler (tool_payload call)"
    and "\<not> tr_js_repl_only router" and "\<not> env_debug (te_ctx env)" and "te_task env k i = TaskRan"
  shows "drain_in_flight env router k i [call] r = Some r"
  using assms
  by (simp add: handle_tool_call_def dispatch_tool_call_def registry_dispatch_def error_or_panic_def)

end
