(* ===== verification/PlanStream.thy ===== *)
theory PlanStream
  imports TurnLoop
begin

text \<open>
  What is shown of a message in plan mode: the text that is streamed for it is the message without its
  plan blocks, and the plan is shown apart, however the message is cut into deltas.
\<close>

section \<open>Reading the segments of a stream\<close>

fun is_plan_item :: "turn_item \<Rightarrow> bool" where
  "is_plan_item (Plan _ _) \<longleftrightarrow> True"
| "is_plan_item _ \<longleftrightarrow> False"

fun is_plan_event :: "session_event \<Rightarrow> bool" where
  "is_plan_event (ItemStarted t) \<longleftrightarrow> is_plan_item t"
| "is_plan_event (ItemCompleted t) \<longleftrightarrow> is_plan_item t"
| "is_plan_event (PlanDelta _ _) \<longleftrightarrow> True"
| "is_plan_event _ \<longleftrightarrow> False"

text \<open>A reader that notes whether a plan was opened, whether plan text came before that, and all plan text.\<close>

fun view_step :: "bool \<times> bool \<times> ustr \<Rightarrow> plan_segment \<Rightarrow> bool \<times> bool \<times> ustr" where
  "view_step (saw, early, plan_text) ProposedPlanStart = (True, early, plan_text)"
| "view_step (saw, early, plan_text) (ProposedPlanDelta delta) = (saw, early \<or> (\<not> saw \<and> delta \<noteq> []), plan_text @ delta)"
| "view_step v _ = v"

definition plan_view :: "plan_segment list \<Rightarrow> bool \<times> bool \<times> ustr" where
  "plan_view segs = foldl view_step (False, False, []) segs"

definition saw_plan :: "plan_segment list \<Rightarrow> bool" where
  "saw_plan segs = fst (plan_view segs)"

definition early_text :: "plan_segment list \<Rightarrow> bool" where
  "early_text segs = fst (snd (plan_view segs))"

definition plan_texts :: "plan_segment list \<Rightarrow> ustr" where
  "plan_texts segs = snd (snd (plan_view segs))"

definition message_texts :: "plan_segment list \<Rightarrow> ustr" where
  "message_texts segs = foldl strip_step [] segs"

fun empty_text :: "plan_segment \<Rightarrow> bool" where
  "empty_text (PlanNormal s) \<longleftrightarrow> s = []"
| "empty_text (ProposedPlanDelta s) \<longleftrightarrow> s = []"
| "empty_text _ \<longleftrightarrow> False"

lemma view_snoc:
  "saw_plan (segs @ [seg]) \<longleftrightarrow> saw_plan segs \<or> seg = ProposedPlanStart"
  "early_text (segs @ [seg]) \<longleftrightarrow> early_text segs \<or> (\<not> saw_plan segs \<and> (\<exists>d. seg = ProposedPlanDelta d \<and> d \<noteq> []))"
  "plan_texts (segs @ [seg]) = plan_texts segs @ (case seg of ProposedPlanDelta d \<Rightarrow> d | _ \<Rightarrow> [])"
  "message_texts (segs @ [seg]) = message_texts segs @ (case seg of PlanNormal d \<Rightarrow> d | _ \<Rightarrow> [])"
  by (cases seg; cases "plan_view segs"; auto simp: saw_plan_def early_text_def plan_texts_def message_texts_def plan_view_def)+

lemma view_Nil [simp]: "saw_plan [] = False" "early_text [] = False" "plan_texts [] = []" "message_texts [] = []"
  by (simp_all add: saw_plan_def early_text_def plan_texts_def message_texts_def plan_view_def)

lemma view_step_joined:
  "foldl view_step v (map map_plan_segment (join_segments segs)) = foldl view_step v (map map_plan_segment segs)"
proof (rule foldl_joined)
  show "view_step x (map_plan_segment (text_segment active [])) = x" for x and active :: "plan_tag option"
    by (cases active; cases "the active"; cases x) auto
  show "view_step (view_step x (map_plan_segment (text_segment active s))) (map_plan_segment (text_segment active t)) =
      view_step x (map_plan_segment (text_segment active (s @ t)))" for x s t and active :: "plan_tag option"
    by (cases active; cases "the active"; cases x) auto
qed

lemma map_delta [simp]: "map_plan_segment (TagDelta tag s) = ProposedPlanDelta s"
  by (cases tag) simp

lemma line_segments_view:
  assumes "active \<noteq> None \<longrightarrow> fst v" and "\<not> fst (snd v)"
  shows "\<not> fst (snd (foldl view_step v (map map_plan_segment (line_segments plan_specs active ls))))"
  using assms
proof (induction ls arbitrary: active v)
  case Nil
  then show ?case
    by (cases active; cases v; cases "the active") auto
next
  case (Cons l ls)
  obtain active' seg where seg: "line_segment plan_specs active l = (active', seg)"
    by fastforce
  obtain saw early ts where v: "v = (saw, early, ts)"
    by (cases v)
  have tag: "tag = ProposedPlan" for tag
    by (cases tag)
  have "(active' \<noteq> None \<longrightarrow> fst (view_step v (map_plan_segment seg))) \<and> \<not> fst (snd (view_step v (map_plan_segment seg)))"
    using Cons.prems seg
    by (cases active) (auto simp: v line_segment_def plan_matches tag split: if_splits)
  with Cons.IH [of active' "view_step v (map_plan_segment seg)"] show ?case
    by (simp add: seg)
qed

text \<open>The segments of the whole stream.\<close>

definition stream_segments :: "ustr list \<Rightarrow> plan_segment list" where
  "stream_segments ds = map map_plan_segment (snd (parse_deltas plan_parser_new ds))"

lemma stream_segments_joined:
  "join_segments (snd (parse_deltas plan_parser_new ds)) = join_segments (line_segments plan_specs None (text_lines (concat ds)))"
proof -
  have "plan_parser_new = at_line plan_specs None []"
    by (simp add: plan_parser_new_def line_parser_new_def at_line_def)
  then show ?thesis
    using steps_by_lines [of "[]" plan_specs None "concat ds"] unfolding parse_deltas_steps by (simp add: join_segments_def)
qed

lemma stream_message: "message_texts (stream_segments ds) = strip_proposed_plan_blocks (concat ds)"
  unfolding message_texts_def stream_segments_def strip_lines by (metis strip_step_joined stream_segments_joined)

lemma stream_not_early: "\<not> early_text (stream_segments ds)"
proof -
  have "plan_view (stream_segments ds) = foldl view_step (False, False, []) (map map_plan_segment (line_segments plan_specs None (text_lines (concat ds))))"
    unfolding plan_view_def stream_segments_def by (metis view_step_joined stream_segments_joined)
  then show ?thesis
    using line_segments_view [of None "(False, False, [])" "text_lines (concat ds)"] by (simp add: early_text_def)
qed

lemma extract_view:
  "\<not> early_text segs \<Longrightarrow>
   fst (foldl extract_step (False, []) segs) = saw_plan segs \<and>
   (\<exists>earlier. plan_texts segs = earlier @ snd (foldl extract_step (False, []) segs))"
proof (induction segs rule: rev_induct)
  case (snoc seg segs)
  obtain saw plan_text where st: "foldl extract_step (False, []) segs = (saw, plan_text)"
    by fastforce
  from snoc have "saw = saw_plan segs" and "\<exists>earlier. plan_texts segs = earlier @ plan_text"
    by (auto simp: view_snoc st)
  then show ?case
    by (cases seg) (auto simp: view_snoc st)
qed simp

lemma stream_extract:
  "extract_proposed_plan_text (concat ds) = (if saw_plan (stream_segments ds) then Some (snd (foldl extract_step (False, []) (stream_segments ds))) else None)"
proof -
  have "foldl extract_step (False, []) (stream_segments ds) =
      foldl extract_step (False, []) (map map_plan_segment (line_segments plan_specs None (text_lines (concat ds))))"
    unfolding stream_segments_def by (metis extract_step_joined stream_segments_joined)
  then show ?thesis
    using extract_view [OF stream_not_early, of ds]
    unfolding extract_lines by (auto simp: Let_def split: prod.split)
qed

lemma join_segments_not_empty:
  fixes segs :: "plan_tag tagged_segment list"
  shows "list_all (\<lambda>seg. \<not> empty_text (map_plan_segment seg)) (join_segments segs)"
proof (induction segs rule: rev_induct)
  case (snoc seg segs)
  have empty: "empty_text (map_plan_segment (text_segment active s)) \<longleftrightarrow> s = []" for active :: "plan_tag option" and s
    by (cases active; cases "the active") auto
  show ?case
  proof (rule push_segment_cases [where seg = seg and segs = "join_segments segs"])
    fix before active s t
    assume "join_segments segs = before @ [text_segment active s]" "seg = text_segment active t"
      "push_segment (join_segments segs) seg = before @ [text_segment active (s @ t)]"
    with snoc show ?thesis
      by (simp add: join_segments_append empty)
  next
    assume push: "push_segment (join_segments segs) seg = join_segments segs @ [seg]"
    have "\<not> empty_text (map_plan_segment seg)"
    proof
      assume "empty_text (map_plan_segment seg)"
      then have "seg = Normal [] \<or> seg = TagDelta ProposedPlan []"
        by (cases seg) (metis (full_types) map_plan_segment.simps empty_text.simps plan_tag.exhaust)+
      with push show False
        by auto
    qed
    with snoc push show ?thesis
      by (simp add: join_segments_append)
  qed (use snoc in \<open>auto simp: join_segments_append\<close>)
qed (simp add: join_segments_def)

lemma parse_deltas_not_empty:
  "list_all (\<lambda>seg. \<not> empty_text (map_plan_segment seg)) (snd (parse_deltas p ds))"
proof (induction ds arbitrary: p)
  case Nil
  then show ?case
    using join_segments_not_empty by (auto simp: finish_parser_segment Let_def split: prod.split)
next
  case (Cons d ds)
  from Cons.IH [of "fst (char_steps p d)"] show ?case
    using join_segments_not_empty by (simp add: parse_delta_steps Let_def case_prod_unfold)
qed

section \<open>What has been shown\<close>

text \<open>After the segments \<open>segs\<close> of the message \<open>i\<close>, which was announced as \<open>t\<close>: the plan was started
  if it was opened, and its deltas make its text; the message was started if its text is not blank,
  and its deltas make its text; a blank text is held back.\<close>

definition shown :: "session_run \<Rightarrow> ustr \<Rightarrow> ustr \<Rightarrow> turn_item \<Rightarrow> plan_segment list \<Rightarrow> plan_run \<Rightarrow> bool" where
  "shown r0 pid i t segs p \<longleftrightarrow>
     (\<exists>new plans chunks. run_events (snd p) = run_events r0 @ new \<and>
        filter is_plan_event new = (if saw_plan segs then [ItemStarted (Plan pid [])] else []) @ map (PlanDelta pid) plans \<and>
        concat plans = plan_texts segs \<and> (\<not> saw_plan segs \<longrightarrow> plans = []) \<and>
        filter (\<lambda>e. \<not> is_plan_event e) new =
          (if list_all is_whitespace (message_texts segs) then [] else ItemStarted t # map (MessageDelta i) chunks) \<and>
        (list_all is_whitespace (message_texts segs) \<or> concat chunks = message_texts segs)) \<and>
     plan_started (fst p) = saw_plan segs \<and> \<not> plan_completed (fst p) \<and> plan_item_id (fst p) = pid \<and>
     (if list_all is_whitespace (message_texts segs)
      then i \<notin> started_messages (fst p) \<and> pending_messages (fst p) i = Some t \<and>
           leading_whitespace (fst p) i = (if message_texts segs = [] then None else Some (message_texts segs))
      else i \<in> started_messages (fst p))"

lemma shownI:
  assumes "run_events (snd p) = run_events r0 @ new"
    and "filter is_plan_event new = (if saw_plan segs then [ItemStarted (Plan pid [])] else []) @ map (PlanDelta pid) plans"
    and "concat plans = plan_texts segs" and "\<not> saw_plan segs \<longrightarrow> plans = []"
    and "filter (\<lambda>e. \<not> is_plan_event e) new =
      (if list_all is_whitespace (message_texts segs) then [] else ItemStarted t # map (MessageDelta i) chunks)"
    and "list_all is_whitespace (message_texts segs) \<or> concat chunks = message_texts segs"
    and "plan_started (fst p) = saw_plan segs" "\<not> plan_completed (fst p)" "plan_item_id (fst p) = pid"
    and "list_all is_whitespace (message_texts segs) \<Longrightarrow> i \<notin> started_messages (fst p) \<and> pending_messages (fst p) i = Some t \<and>
      leading_whitespace (fst p) i = (if message_texts segs = [] then None else Some (message_texts segs))"
    and "\<not> list_all is_whitespace (message_texts segs) \<Longrightarrow> i \<in> started_messages (fst p)"
  shows "shown r0 pid i t segs p"
  unfolding shown_def using assms by (intro conjI exI [of _ new] exI [of _ plans] exI [of _ chunks]) simp_all

lemma shownE:
  assumes "shown r0 pid i t segs p"
  obtains new plans chunks where "run_events (snd p) = run_events r0 @ new"
    and "filter is_plan_event new = (if saw_plan segs then [ItemStarted (Plan pid [])] else []) @ map (PlanDelta pid) plans"
    and "concat plans = plan_texts segs" and "\<not> saw_plan segs \<longrightarrow> plans = []"
    and "filter (\<lambda>e. \<not> is_plan_event e) new =
      (if list_all is_whitespace (message_texts segs) then [] else ItemStarted t # map (MessageDelta i) chunks)"
    and "list_all is_whitespace (message_texts segs) \<or> concat chunks = message_texts segs"
    and "plan_started (fst p) = saw_plan segs" "\<not> plan_completed (fst p)" "plan_item_id (fst p) = pid"
    and "list_all is_whitespace (message_texts segs) \<Longrightarrow> i \<notin> started_messages (fst p) \<and> pending_messages (fst p) i = Some t \<and>
      leading_whitespace (fst p) i = (if message_texts segs = [] then None else Some (message_texts segs))"
    and "\<not> list_all is_whitespace (message_texts segs) \<Longrightarrow> i \<in> started_messages (fst p)"
proof -
  from assms obtain new plans chunks where "run_events (snd p) = run_events r0 @ new"
      "filter is_plan_event new = (if saw_plan segs then [ItemStarted (Plan pid [])] else []) @ map (PlanDelta pid) plans"
      "concat plans = plan_texts segs" "\<not> saw_plan segs \<longrightarrow> plans = []"
      "filter (\<lambda>e. \<not> is_plan_event e) new =
        (if list_all is_whitespace (message_texts segs) then [] else ItemStarted t # map (MessageDelta i) chunks)"
      "list_all is_whitespace (message_texts segs) \<or> concat chunks = message_texts segs"
    unfolding shown_def by blast
  moreover have "plan_started (fst p) = saw_plan segs" "\<not> plan_completed (fst p)" "plan_item_id (fst p) = pid"
      "list_all is_whitespace (message_texts segs) \<Longrightarrow> i \<notin> started_messages (fst p) \<and> pending_messages (fst p) i = Some t \<and>
        leading_whitespace (fst p) i = (if message_texts segs = [] then None else Some (message_texts segs))"
      "\<not> list_all is_whitespace (message_texts segs) \<Longrightarrow> i \<in> started_messages (fst p)"
    using assms unfolding shown_def by simp_all
  ultimately show ?thesis
    by (rule that)
qed

lemma shown_start:
  assumes "pending_messages st i = Some t" "i \<notin> started_messages st" "leading_whitespace st i = None"
    and "\<not> plan_started st" "\<not> plan_completed st"
  shows "shown r (plan_item_id st) i t [] (st, r)"
  by (rule shownI [where new = "[]" and plans = "[]" and chunks = "[]"]) (use assms in simp_all)

lemma shown_parsers [simp]: "shown r0 pid i t segs (st\<lparr>plan_parsers := ps\<rparr>, r) \<longleftrightarrow> shown r0 pid i t segs (st, r)"
  by (simp add: shown_def)

lemma shown_normal:
  assumes "shown r0 pid i t segs (st, r)" and "\<not> is_plan_item t" and "delta \<noteq> []"
  shows "shown r0 pid i t (segs @ [PlanNormal delta]) (handle_plan_segment i (st, r) (PlanNormal delta))"
  using assms(1)
proof (rule shownE)
  fix new plans chunks
  assume new: "run_events (snd (st, r)) = run_events r0 @ new"
      "filter is_plan_event new = (if saw_plan segs then [ItemStarted (Plan pid [])] else []) @ map (PlanDelta pid) plans"
      "concat plans = plan_texts segs" "\<not> saw_plan segs \<longrightarrow> plans = []"
      "filter (\<lambda>e. \<not> is_plan_event e) new =
        (if list_all is_whitespace (message_texts segs) then [] else ItemStarted t # map (MessageDelta i) chunks)"
      "list_all is_whitespace (message_texts segs) \<or> concat chunks = message_texts segs"
    and st: "plan_started (fst (st, r)) = saw_plan segs" "\<not> plan_completed (fst (st, r))" "plan_item_id (fst (st, r)) = pid"
    and waiting: "list_all is_whitespace (message_texts segs) \<Longrightarrow>
        i \<notin> started_messages (fst (st, r)) \<and> pending_messages (fst (st, r)) i = Some t \<and>
        leading_whitespace (fst (st, r)) i = (if message_texts segs = [] then None else Some (message_texts segs))"
    and started: "\<not> list_all is_whitespace (message_texts segs) \<Longrightarrow> i \<in> started_messages (fst (st, r))"
  let ?N = "message_texts segs"
  have blank: "list_ex (\<lambda>c. \<not> is_whitespace c) delta \<longleftrightarrow> \<not> list_all is_whitespace delta"
    by (auto simp: list_ex_iff list_all_iff)
  have snoc: "saw_plan (segs @ [PlanNormal delta]) = saw_plan segs" "plan_texts (segs @ [PlanNormal delta]) = plan_texts segs"
      "message_texts (segs @ [PlanNormal delta]) = ?N @ delta"
    by (simp_all add: view_snoc)
  consider (held) "list_all is_whitespace ?N" "list_all is_whitespace delta"
    | (first) "list_all is_whitespace ?N" "\<not> list_all is_whitespace delta"
    | (later) "\<not> list_all is_whitespace ?N"
    by blast
  then show ?thesis
  proof cases
    case held
    show ?thesis
      by (rule shownI [where new = new and plans = plans and chunks = "[]"])
        (use new st waiting held assms(3) in \<open>simp_all add: snoc blank\<close>)
  next
    case first
    show ?thesis
      by (rule shownI [where new = "new @ [ItemStarted t, MessageDelta i (?N @ delta)]" and plans = plans and chunks = "[?N @ delta]"])
        (use new st waiting first assms(2,3) in \<open>auto simp: snoc blank send_event_def Let_def\<close>)
  next
    case later
    show ?thesis
      by (rule shownI [where new = "new @ [MessageDelta i delta]" and plans = plans and chunks = "chunks @ [delta]"])
        (use new st started later assms(3) in \<open>auto simp: snoc blank send_event_def Let_def\<close>)
  qed
qed

lemma shown_step:
  assumes "shown r0 pid i t segs p" and "\<not> is_plan_item t" and "\<not> empty_text seg" and "\<not> early_text (segs @ [seg])"
  shows "shown r0 pid i t (segs @ [seg]) (handle_plan_segment i p seg)"
proof -
  obtain st r where p: "p = (st, r)"
    by (cases p)
  show ?thesis
  proof (cases seg)
    case (PlanNormal delta)
    with shown_normal [of r0 pid i t segs st r delta] assms p show ?thesis by simp
  next
    case ProposedPlanEnd
    then have same: "saw_plan (segs @ [seg]) = saw_plan segs" "plan_texts (segs @ [seg]) = plan_texts segs"
        "message_texts (segs @ [seg]) = message_texts segs"
      by (simp_all add: view_snoc)
    have "shown r0 pid i t (segs @ [seg]) p"
      using assms(1) unfolding shown_def same .
    then show ?thesis
      by (simp add: p ProposedPlanEnd)
  next
    case ProposedPlanStart
    show ?thesis
      using assms(1)
    proof (rule shownE, goal_cases)
      case (1 new plans chunks)
      then show ?case
        by (intro shownI [where new = "if saw_plan segs then new else new @ [ItemStarted (Plan pid [])]" and plans = plans
              and chunks = chunks]) (auto simp: p ProposedPlanStart view_snoc send_event_def)
    qed
  next
    case (ProposedPlanDelta delta)
    with assms(3,4) have delta: "delta \<noteq> []" "saw_plan segs"
      by (auto simp: view_snoc)
    show ?thesis
      using assms(1)
    proof (rule shownE, goal_cases)
      case (1 new plans chunks)
      with delta show ?case
        by (intro shownI [where new = "new @ [PlanDelta pid delta]" and plans = "plans @ [delta]" and chunks = chunks])
          (auto simp: p ProposedPlanDelta view_snoc send_event_def)
    qed
  qed
qed

section \<open>A streamed message\<close>

lemma early_mono: "early_text a \<Longrightarrow> early_text (a @ b)"
proof (induction b rule: rev_induct)
  case (snoc seg b)
  then show ?case
    by (simp add: view_snoc flip: append_assoc)
qed simp

lemma segment_keeps_parsers: "plan_parsers (fst (handle_plan_segment i p seg)) = plan_parsers (fst p)"
  by (cases p; cases seg) (auto simp: Let_def split: option.split)

lemma handle_segments_shown:
  assumes "shown r0 pid i t segs p" and "\<not> is_plan_item t" and "list_all (\<lambda>seg. \<not> empty_text seg) xs"
    and "\<not> early_text (segs @ xs)"
  shows "shown r0 pid i t (segs @ xs) (handle_plan_segments i xs p) \<and>
    plan_parsers (fst (handle_plan_segments i xs p)) = plan_parsers (fst p)"
  using assms
proof (induction xs arbitrary: segs p)
  case (Cons x xs)
  have "\<not> early_text (segs @ [x])"
    using Cons.prems(4) early_mono [of "segs @ [x]" xs] by auto
  with shown_step [OF Cons.prems(1,2), of x] Cons.prems(3)
  have "shown r0 pid i t (segs @ [x]) (handle_plan_segment i p x)"
    by simp
  from Cons.IH [OF this Cons.prems(2)] Cons.prems show ?case
    by (simp add: handle_plan_segments_def segment_keeps_parsers)
qed (simp add: handle_plan_segments_def)

lemma finish_not_empty: "list_all (\<lambda>seg. \<not> empty_text seg) (snd (plan_finish parser))"
  using join_segments_not_empty
  by (auto simp: plan_finish_def finish_parser_segment list.pred_map o_def Let_def split: prod.split)

lemma parse_not_empty: "list_all (\<lambda>seg. \<not> empty_text seg) (snd (plan_parse parser d))"
  using join_segments_not_empty by (auto simp: plan_parse_def parse_delta_steps list.pred_map o_def)

lemma flush_shown:
  assumes "shown r0 pid i t segs p" and "\<not> is_plan_item t" and "map_of (plan_parsers (fst p)) i = Some parser"
    and "\<not> early_text (segs @ snd (plan_finish parser))"
  shows "shown r0 pid i t (segs @ snd (plan_finish parser)) (flush_plan_segments_for_item i p)"
proof -
  have "shown r0 pid i t segs ((fst p)\<lparr>plan_parsers := AList.delete i (plan_parsers (fst p))\<rparr>, snd p)"
    using assms(1) by simp
  from handle_segments_shown [OF this assms(2) finish_not_empty assms(4)] assms(3) show ?thesis
    by (simp add: flush_plan_segments_for_item_def take_assistant_parser_def)
qed

text \<open>Deltas, each parsed with the parser that the one before left, and the flush at the end.\<close>

lemma deltas_shown:
  assumes "shown r0 pid i t segs p" and "\<not> is_plan_item t" and "assistant_parser (fst p) i = parser"
    and "ds = [] \<longrightarrow> map_of (plan_parsers (fst p)) i = Some parser"
    and "\<not> early_text (segs @ map map_plan_segment (snd (parse_deltas parser ds)))"
  shows "shown r0 pid i t (segs @ map map_plan_segment (snd (parse_deltas parser ds)))
    (flush_plan_segments_for_item i (foldl (\<lambda>p d. parse_plan_delta i d p) p ds))"
  using assms
proof (induction ds arbitrary: segs p parser)
  case Nil
  then show ?case
    using flush_shown [of r0 pid i t segs p parser] by (simp add: plan_finish_def case_prod_unfold Let_def)
next
  case (Cons d ds)
  obtain parser' segs' where parsed: "plan_parse parser d = (parser', segs')"
    by fastforce
  then have rest: "map map_plan_segment (snd (parse_deltas parser (d # ds))) =
      segs' @ map map_plan_segment (snd (parse_deltas parser' ds))"
    by (auto simp: plan_parse_def Let_def split: prod.splits)
  let ?p = "(set_assistant_parser i parser' (fst p), snd p)"
  have step: "parse_plan_delta i d p = handle_plan_segments i segs' ?p"
    using Cons.prems(3) parsed by (simp add: parse_plan_delta_def)
  have "shown r0 pid i t segs ?p"
    using Cons.prems(1) by (simp add: set_assistant_parser_def)
  moreover have "\<not> early_text (segs @ segs')"
    using Cons.prems(5) early_mono [of "segs @ segs'"] unfolding rest by auto
  ultimately have shown: "shown r0 pid i t (segs @ segs') (parse_plan_delta i d p)"
    and parsers: "plan_parsers (fst (parse_plan_delta i d p)) = plan_parsers (set_assistant_parser i parser' (fst p))"
    using handle_segments_shown [of r0 pid i t segs ?p segs'] Cons.prems(2) parse_not_empty [of parser d] parsed
    unfolding step by auto
  have "map_of (plan_parsers (fst (parse_plan_delta i d p))) i = Some parser'"
    unfolding parsers by (simp add: set_assistant_parser_def update_conv')
  with Cons.IH [OF shown Cons.prems(2), of parser'] Cons.prems(5) show ?case
    unfolding rest by (simp add: assistant_parser_def)
qed

lemma trim_blank: "trim s = [] \<longleftrightarrow> list_all is_whitespace s"
proof -
  have "(\<forall>c \<in> set (dropWhile is_whitespace (rev s)). is_whitespace c) \<longleftrightarrow> (\<forall>c \<in> set s. is_whitespace c)"
    by (metis dropWhile_eq_Nil_conv hd_dropWhile hd_in_set set_dropWhileD set_rev)
  then show ?thesis
    by (simp add: trim_def trim_start_def trim_start_by_def trim_end_def trim_end_by_def list_all_iff)
qed

lemma record_keeps_events:
  "record_conversation_items ctx items r = Some r' \<Longrightarrow> run_events r' = run_events r"
  by (auto simp: record_conversation_items_def record_into_history_def persist_response_items_def set_session_def)

definition assistant_text :: "ustr \<Rightarrow> ustr \<Rightarrow> message_phase option \<Rightarrow> response_item" where
  "assistant_text i s ph = Message (Some i) (lit ''assistant'') [MsgOutputText s] None ph"

lemma message_done:
  assumes "trim (strip_proposed_plan_blocks s) \<noteq> [] \<Longrightarrow> i \<in> started_messages st"
    and "plan_started st \<longleftrightarrow> extract_proposed_plan_text s \<noteq> None" and "\<not> plan_completed st"
  shows "\<exists>st' r'. assistant_item_done_in_plan_mode ctx uuid (assistant_text i s ph) active (st, r) last_message =
      Some (Some ((st', r'), if trim (strip_proposed_plan_blocks s) = [] then last_message
                             else Some (strip_proposed_plan_blocks s))) \<and>
    run_events r' = run_events r @
      (case extract_proposed_plan_text s of None \<Rightarrow> [] | Some final \<Rightarrow> [ItemCompleted (Plan (plan_item_id st) final)]) @
      (if trim (strip_proposed_plan_blocks s) = [] then []
       else [ItemCompleted (AgentMessage \<lparr>am_id = i, am_content = [strip_proposed_plan_blocks s], am_phase = ph\<rparr>)])"
proof -
  let ?N = "strip_proposed_plan_blocks s"
  let ?a = "\<lparr>am_id = i, am_content = [?N], am_phase = ph\<rparr>"
  have strip_Nil: "s = [] \<Longrightarrow> ?N = []"
    by (simp add: strip_lines)
  obtain st2 r2 where complete: "maybe_complete_plan_item (assistant_text i s ph) (st, r) = (st2, r2)"
      "run_events r2 = run_events r @
        (case extract_proposed_plan_text s of None \<Rightarrow> [] | Some final \<Rightarrow> [ItemCompleted (Plan (plan_item_id st) final)])"
      "started_messages st2 = started_messages st"
    using assms(2,3) by (cases "extract_proposed_plan_text s") (auto simp: assistant_text_def output_text_def send_event_def)
  have item: "handle_non_tool_response_item uuid True (assistant_text i s ph) = Some (AgentMessage ?a)"
    by (simp add: assistant_text_def handle_non_tool_response_item_def parse_agent_message_def agent_message_text_def)
  obtain st3 r3 where emitted: "emit_turn_item_in_plan_mode (AgentMessage ?a) active (st2, r2) = (st3, r3)"
      "run_events r3 = run_events r2 @ (if trim ?N = [] then [] else [ItemCompleted (AgentMessage ?a)])"
    using assms(1) complete(3)
    by (cases "trim ?N = []") (simp_all add: emit_agent_message_in_plan_mode_def agent_message_text_def send_event_def Let_def)
  obtain r4 where recorded: "record_conversation_items ctx [assistant_text i s ph] r3 = Some r4"
    using record_items_spec [of "session_history (run_session r3)" "[assistant_text i s ph]" "env_policy ctx"]
    by (auto simp: record_conversation_items_def record_into_history_def session_record_items_def simp del: record_items.simps)
  have last: "last_assistant_message_from_item (assistant_text i s ph) True = (if trim ?N = [] then None else Some ?N)"
    using strip_Nil by (auto simp: assistant_text_def output_text_def Let_def)
  have "assistant_item_done_in_plan_mode ctx uuid (assistant_text i s ph) active (st, r) last_message =
      Some (Some ((st3, r4), if trim ?N = [] then last_message else Some ?N))"
    using complete(1) item emitted(1) recorded last
    by (simp add: assistant_item_done_in_plan_mode_def assistant_text_def Let_def
        del: maybe_complete_plan_item.simps emit_turn_item_in_plan_mode.simps last_assistant_message_from_item.simps)
  with record_keeps_events [OF recorded] complete(2) emitted(2) show ?thesis
    by simp
qed


lemma plain_message:
  "strip_proposed_plan_blocks (lit ''onetwo'') = lit ''onetwo''" "trim (lit ''onetwo'') = lit ''onetwo''"
proof -
  have lines: "text_lines (lit ''onetwo'') = [lit ''onetwo'']"
    by (rule text_lines_no_newline) (simp_all add: lit_def)
  have slug: "line_slug (lit ''onetwo'') = lit ''onetwo''"
    by (simp add: line_slug_def str_ops lit_def)
  then have "line_segments plan_specs None [lit ''onetwo''] = [Normal (lit ''onetwo'')]"
    using outside_lines [of "[lit ''onetwo'']" "[]"] by (simp add: is_open_line_def lit_def)
  with lines show "strip_proposed_plan_blocks (lit ''onetwo'') = lit ''onetwo''"
    by (simp add: strip_lines)
  show "trim (lit ''onetwo'') = lit ''onetwo''"
    by (simp add: str_ops lit_def)
qed

definition announced :: turn_item where
  "announced = AgentMessage \<lparr>am_id = lit ''m'', am_content = [], am_phase = None\<rparr>"

definition announced_state :: plan_state where
  "announced_state = (plan_state_new (lit ''t''))\<lparr>pending_messages := (\<lambda>_. None)(lit ''m'' := Some announced)\<rparr>"


end
