(* ===== verification/Spec2Isabelle.thy ===== *)
theory Spec2Isabelle
  imports ToolOrchestration PatchInvocation LegacyPolicy OutputStreaming Truncation WindowsDanger TaggedBlocks Rollout CommandSummary ExecEnvironment ConfigPermissions Seatbelt TurnProperties PlanStream
begin

text \<open>
  A verification library for the core of the agent in \<open>src/sheri-ml/codex-rs\<close>: what decides
  whether a command or a patch proposed by a model may run, whether somebody is asked first, in
  which sandbox it runs and what it may reach; and the conversation with the model: what is
  recorded of it, sent in a prompt, compacted, rolled back and read back from disk.

  \<^bold>\<open>How the parts interact.\<close> A tool call carries a command. The exec policy manager
  (\<open>core/src/exec_policy.rs\<close>) splits it into plain commands (\<open>shell-command\<close>), evaluates them
  against the rules (\<open>execpolicy\<close>) with the safelist and the danger list as fallback, and returns
  a requirement: skip, ask or forbid. The orchestrator (\<open>core/src/tools/orchestrator.rs\<close>) asks
  through the approval cache, selects a sandbox, runs the tool, and after a denial may ask
  again and retry outside the sandbox. A patch takes another way: it is recognised in the
  command, verified into a map of changes and assessed against the writable roots of the
  sandbox policy, and applied hunk by hunk. While a command runs its network requests go to
  the proxy (\<open>network-proxy\<close>), whose decisions, reloads and blocked-request buffer are
  modelled, and which may ask the network approval service of the session. What a
  process writes is streamed into a bounded transcript, and what a tool returns is truncated to
  a budget before the model sees it. The items of the conversation are recorded in the history of
  the session and in the rollout file; a prompt is the normalised history; when the window is full
  the history is replaced by a compacted one. A turn sends prompts and runs the calls of the responses
  until the model asks for nothing more. A resumed session replays the rollout. Policies and rules come
  from the configuration, a stack of layers under the requirements of an administrator.

  \<^bold>\<open>Theories.\<close>
    \<^item> \<open>Prelude\<close>, \<open>Paths\<close>: Rust strings, \<open>Result\<close>, list searches, \<open>std::path\<close>.
    \<^item> \<open>ExecPolicy\<close>: \<open>execpolicy/src/{decision,rule,policy,error}.rs\<close>. The rule multimap is
      the record \<open>multimap_ops\<close> with the laws \<open>multimap_laws\<close>, which an association list satisfies.
    \<^item> \<open>ExecPolicyFiles\<close>: \<open>execpolicy/src/{parser,amend,execpolicycheck}.rs\<close>.
    \<^item> \<open>LegacyArgs\<close>, \<open>LegacyPolicy\<close>: \<open>execpolicy-legacy/src\<close>, the original engine: the resolver of
      positional arguments against a specification of its patterns, and the policies, the exec
      checker and the tool built on it.
    \<^item> \<open>ShellParse\<close>, \<open>PowershellSafety\<close>, \<open>CommandSafety\<close>, \<open>WindowsDanger\<close>, \<open>CommandSummary\<close>:
      \<open>shell-command/src\<close>.
    \<^item> \<open>SandboxPolicies\<close>: the policies and roots of \<open>protocol/src/protocol.rs\<close>,
      \<open>utils/absolute-path\<close> and \<open>core/src/safety.rs\<close>.
    \<^item> \<open>ExecApproval\<close>: \<open>core/src/exec_policy.rs\<close>.
    \<^item> \<open>IpAddress\<close>, \<open>HostPolicy\<close>, \<open>NetworkProxy\<close>: \<open>network-proxy/src\<close>; addresses are words of 32
      and 128 bits and ports of 16. The state of the proxy changes by \<open>proxy_step\<close>.
    \<^item> \<open>NetworkApproval\<close>: \<open>core/src/tools/network_approval.rs\<close>; \<open>service_step\<close> interleaves the
      operations of the service, a question and its answer being two steps.
    \<^item> \<open>ToolOrchestration\<close>: \<open>core/src/tools/{sandboxing,orchestrator}.rs\<close>, \<open>core/src/sandboxing\<close>,
      \<open>core/src/landlock.rs\<close>.
    \<^item> \<open>LinuxSandbox\<close>: \<open>linux-sandbox/src\<close>, the helper between the orchestrator's request and the
      command: mounts of bubblewrap, the filter of system calls, the Landlock rules and its two stages.
    \<^item> \<open>Seatbelt\<close>: \<open>core/src/{seatbelt,seatbelt_permissions}.rs\<close> and the proxy variables of
      \<open>network-proxy/src/proxy.rs\<close>: the profile and arguments of \<open>sandbox-exec\<close>.
    \<^item> \<open>PatchParser\<close>, \<open>SeekSequence\<close>, \<open>ApplyPatch\<close>, \<open>PatchInvocation\<close>: \<open>apply-patch/src\<close> and
      \<open>core/src/apply_patch.rs\<close>.
    \<^item> \<open>OutputBuffer\<close>, \<open>OutputStreaming\<close>: \<open>core/src/unified_exec/{head_tail_buffer,async_watcher}.rs\<close>.
      The buffer refines the stream of bytes it was given (locale \<open>capped_stream\<close>); the streaming
      task is the step relation \<open>watch_step\<close>.
    \<^item> \<open>Truncation\<close>: \<open>core/src/truncate.rs\<close> and \<open>utils/string/src/lib.rs\<close>, over byte offsets; the
      multiplication of a budget by a float rounds as IEEE doubles do.
    \<^item> \<open>TaggedBlocks\<close>: \<open>core/src/{tagged_block_parser,proposed_plan_parser}.rs\<close>, against a
      reference that reads whole lines.
    \<^item> \<open>ResponseItems\<close>: the items of \<open>protocol/src/{models,items,user_input}.rs\<close> and what is read
      from them, \<open>core/src/{event_mapping,web_search,session_prefix,user_shell_command}.rs\<close>.
    \<^item> \<open>History\<close>: \<open>core/src/context_manager/{history,normalize}.rs\<close> and the token counts of
      \<open>protocol/src/protocol.rs\<close>. \<open>SessionState\<close>: \<open>core/src/state/session.rs\<close>.
    \<^item> \<open>Compaction\<close>: \<open>core/src/{compact,compact_remote}.rs\<close>; the model service is a function from
      the number of the attempt and the prompt to the events it streams.
    \<^item> \<open>Rollout\<close>: \<open>core/src/rollout/policy.rs\<close> and the functions of \<open>core/src/codex.rs\<close> that start,
      resume, fork and roll back a session; \<open>session_reach\<close> are the runs of a new session.
    \<^item> \<open>ToolCalls\<close>: \<open>core/src/tools/{router,registry,context,parallel}.rs\<close>, from a call of the model
      to the answer it gets. \<open>PlanMode\<close>: how a response is streamed in plan mode. \<open>TurnLoop\<close>: the loop
      of a turn in \<open>core/src/codex.rs\<close> with its streams, retries and compactions; the outside is a function
      of a clock that ticks with each request. \<open>TurnProperties\<close>: what holds of a turn.
      \<open>PlanStream\<close>: what plan mode shows of a message that is streamed.
    \<^item> \<open>Requirements\<close>, \<open>ConfigLayers\<close>: \<open>config/src\<close>, what an administrator enforces and the
      layers a configuration is merged from. \<open>ConfigLoader\<close>: \<open>core/src/config_loader\<close>, which
      reads both from the files of a machine and decides which projects are trusted.
      \<open>ConfigPermissions\<close>: \<open>core/src/config/mod.rs\<close>, the permissions a session starts with.
    \<^item> \<open>ExecEnvironment\<close>: \<open>core/src/{exec_env,command_canonicalization}.rs\<close>, the environment of a
      command and the form under which its approval is remembered.

  \<^bold>\<open>Interfaces.\<close> The constraints that requirements put on a field (\<open>requirement\<close>), the approval cache (\<open>approval_cache\<close>), the order of permissions of host patterns
  (\<open>permission_order\<close>), the keys of the line search (\<open>looser_key\<close>), the capped stream and the runner of
  tool calls (\<open>call_runner\<close>) are locales, each interpreted on the definitions that provide it.

  \<^bold>\<open>Conventions.\<close> A string is the list of its Unicode scalar values. A \<open>Result\<close> is a sum with the
  error on the left; a panic is the value \<open>None\<close> of an option around the result, and is proved
  not to happen where it does not. Structures are records and enumerations datatypes with the
  source's constructors. Asynchronous locks guard single operations, so an operation is one
  step of its state; where the lock is released to wait for an answer the operation is two
  steps. Third-party code (tree-sitter, Starlark, globset, the url and shlex crates, DNS, the
  operating system) is a parameter, a function or a record of functions, and what is relied
  on is a named hypothesis such as \<open>file_laws\<close>.

  \<^bold>\<open>What the lemmas show.\<close> For each component: that its operations are total (every loop is a
  structural recursion or has a termination proof by the remaining input; only the loop of a turn may
  run for ever, is a partial function and is proved to end once the model asks for nothing more),
  that they keep the invariants of its state, what each returns on every branch, and what a
  permissive answer implies. The findings, places where the code departs from its comments or
  loses something, are lemmas next to the definitions they are about.

  \<^bold>\<open>Bounds.\<close> \<open>usize\<close> quantities that are indices into lists in memory are naturals; addresses,
  ports and IPv6 segments are words; the blocked-request buffer has the source's limit of 200, the
  transcript its limit of 1,048,576 bytes and the deltas theirs of 8,192 bytes and 10,000 events.

  \<^bold>\<open>Not modelled.\<close> The handlers of the tools beyond their patches and commands, the tasks of a session
  (the snapshot task, reviews), the terminal and editor front ends, the model clients, the
  settings of a session other than its permissions, the socket servers of the proxy and the system calls of the sandboxes:
  they are input and output over third-party crates. Of the session state the startup task is left out, a handle of the runtime;
  of compaction the telemetry.
\<close>

end
